(* ===== verification/Prelude.thy ===== *)
theory Prelude
  imports Main "HOL-Library.Word" "HOL-Library.Sublist" "HOL-Library.Multiset"
begin

text \<open>
  Shared vocabulary of the development: the model's base types, the pieces of the Go
  standard library that the sources use on bytes, strings and slash-separated paths, the
  generic table operations that SQL statements become, and the two interface locales that
  several components instantiate (keyed row tables and invariant-preserving systems).

  Go strings are byte strings, so a Go \<open>string\<close> is a HOL \<open>string\<close> (a list of 8-bit
  characters) and a \<open>[]byte\<close> is a list of 8-bit words. Sizes, offsets, ids and Unix times
  are \<open>int\<close> where the code compares and adds them far from the 64-bit limits, and machine
  words where a theorem depends on wrap-around.
\<close>

section \<open>Named collections and type names\<close>

named_theorems go_simps \<open>unfolding rules of the modelled standard-library functions\<close>
named_theorems row_simps \<open>facts about the generic table operations\<close>
named_theorems db_defs \<open>definitions of the cache database's statements\<close>

type_synonym byte = "8 word"
type_synonym bytes = "byte list"
type_synonym options = "string \<rightharpoonup> string"

section \<open>Bytes\<close>

text \<open>\<open>binary.BigEndian.PutUint32/Uint32\<close>, \<open>Uint16\<close> and their little-endian twins,
  on lists of bytes. The readers are total; the callers' models guard them with the length
  checks of the source or report the out-of-range read.\<close>

definition be_uint :: "bytes \<Rightarrow> nat" where
  "be_uint bs = foldl (\<lambda>acc b. acc * 256 + unat b) 0 bs"

definition le_uint :: "bytes \<Rightarrow> nat" where
  "le_uint bs = be_uint (rev bs)"

primrec be_put :: "nat \<Rightarrow> nat \<Rightarrow> bytes" where
  "be_put 0 n = []"
| "be_put (Suc k) n = be_put k (n div 256) @ [word_of_nat n]"

lemma be_uint_Nil [simp]: "be_uint [] = 0"
  by (simp add: be_uint_def)

lemma be_uint_snoc [simp]: "be_uint (bs @ [b]) = be_uint bs * 256 + unat b"
  by (simp add: be_uint_def)

lemma length_be_put [simp]: "length (be_put k n) = k"
  by (induction k arbitrary: n) simp_all

lemma be_put_eq_Nil [simp]: "be_put k n = [] \<longleftrightarrow> k = 0"
  by (metis length_0_conv length_be_put)

lemma unat_byte_bound [simp]: "unat (b :: byte) < 256"
  using unsigned_less [of b, where ?'a = nat] by simp

lemma unat_byte_of_nat [simp]: "unat (word_of_nat n :: byte) = n mod 256"
  by (simp add: unat_of_nat)

lemma be_uint_bound: "be_uint bs < 256 ^ length bs"
proof (induction bs rule: rev_induct)
  case Nil
  then show ?case by simp
next
  case (snoc b bs)
  have "be_uint bs * 256 + unat b < (be_uint bs + 1) * 256"
    using unat_byte_bound [of b] by simp
  also have "\<dots> \<le> 256 ^ length bs * 256"
    using snoc by (intro mult_right_mono) auto
  finally show ?case by (simp add: mult.commute)
qed

lemma be_uint_put: "be_uint (be_put k n) = n mod 256 ^ k"
proof (induction k arbitrary: n)
  case 0
  then show ?case by simp
next
  case (Suc k)
  have "be_uint (be_put (Suc k) n) = (n div 256 mod 256 ^ k) * 256 + n mod 256"
    by (simp add: Suc)
  also have "\<dots> = n mod (256 * 256 ^ k)"
    by (simp add: mod_mult2_eq mult.commute)
  finally show ?case by simp
qed

corollary be_uint_put_small: "n < 256 ^ k \<Longrightarrow> be_uint (be_put k n) = n"
  by (simp add: be_uint_put)

text \<open>The value of a 64-bit signed expression: the mathematical result, wrapped.\<close>

definition int64 :: "int \<Rightarrow> int" where
  "int64 x = (x + 2 ^ 63) mod 2 ^ 64 - 2 ^ 63"

lemma int64_id [simp]: "- (2 ^ 63) \<le> x \<Longrightarrow> x < 2 ^ 63 \<Longrightarrow> int64 x = x"
  by (simp add: int64_def)

lemma int64_nonneg: "0 \<le> x \<Longrightarrow> x < 2 ^ 63 \<Longrightarrow> int64 x = x"
  by (rule int64_id) (simp_all add: order_trans [of _ 0])

definition uint64 :: "int \<Rightarrow> nat" where
  "uint64 x = nat (x mod 2 ^ 64)"

lemma uint64_id: "0 \<le> x \<Longrightarrow> x < 2 ^ 64 \<Longrightarrow> uint64 x = nat x"
  by (simp add: uint64_def)

section \<open>Strings and slash-separated paths\<close>

definition HasPrefix :: "'a list \<Rightarrow> 'a list \<Rightarrow> bool" where
  "HasPrefix s p \<longleftrightarrow> take (length p) s = p"

definition TrimPrefix :: "'a list \<Rightarrow> 'a list \<Rightarrow> 'a list" where
  "TrimPrefix s p = (if HasPrefix s p then drop (length p) s else s)"

definition TrimLeft :: "char \<Rightarrow> string \<Rightarrow> string" where
  "TrimLeft c s = dropWhile (\<lambda>x. x = c) s"

definition TrimRight :: "char \<Rightarrow> string \<Rightarrow> string" where
  "TrimRight c s = rev (dropWhile (\<lambda>x. x = c) (rev s))"

definition Trim :: "char \<Rightarrow> string \<Rightarrow> string" where
  "Trim c s = TrimRight c (TrimLeft c s)"

definition ReplaceChar :: "char \<Rightarrow> char \<Rightarrow> string \<Rightarrow> string" where
  "ReplaceChar old new s = map (\<lambda>x. if x = old then new else x) s"

text \<open>\<open>strings.Split(s, "/")\<close>: always at least one segment.\<close>

fun split_slash :: "string \<Rightarrow> string list" where
  "split_slash [] = [[]]"
| "split_slash (c # cs) =
     (if c = CHR ''/'' then [] # split_slash cs
      else (case split_slash cs of
              [] \<Rightarrow> [[c]]
            | seg # segs \<Rightarrow> (c # seg) # segs))"

fun join_slash :: "string list \<Rightarrow> string" where
  "join_slash [] = []"
| "join_slash [s] = s"
| "join_slash (s # t # ss) = s @ CHR ''/'' # join_slash (t # ss)"

text \<open>\<open>path.Clean\<close>: a fold over the segments with a stack (kept reversed). Empty
  segments and \<open>.\<close> vanish, \<open>..\<close> removes the segment before it, stays where there
  is none, and vanishes at the root of a rooted path.\<close>

fun clean_segs :: "bool \<Rightarrow> string list \<Rightarrow> string list \<Rightarrow> string list" where
  "clean_segs rooted st [] = rev st"
| "clean_segs rooted st (s # ss) =
     (if s = [] \<or> s = ''.'' then clean_segs rooted st ss
      else if s = ''..'' then
        (case st of
           [] \<Rightarrow> clean_segs rooted (if rooted then [] else [''..'']) ss
         | t # ts \<Rightarrow> if t = ''..'' then clean_segs rooted (''..'' # st) ss
                    else clean_segs rooted ts ss)
      else clean_segs rooted (s # st) ss)"

definition path_Clean :: "string \<Rightarrow> string" where
  "path_Clean p =
     (let rooted = HasPrefix p ''/'';
          segs = clean_segs rooted [] (split_slash p);
          body = join_slash segs
      in if rooted then CHR ''/'' # body
         else if body = [] then ''.'' else body)"

definition path_Join :: "string \<Rightarrow> string \<Rightarrow> string" where
  "path_Join a b =
     (if a = [] then (if b = [] then [] else path_Clean b)
      else if b = [] then path_Clean a
      else path_Clean (a @ ''/'' @ b))"

text \<open>\<open>path.Dir(p)\<close>: everything up to and with the last slash, cleaned.\<close>

definition path_Dir :: "string \<Rightarrow> string" where
  "path_Dir p = path_Clean (rev (dropWhile (\<lambda>c. c \<noteq> CHR ''/'') (rev p)))"

lemma split_slash_nonempty [simp]: "split_slash s \<noteq> []"
  by (induction s) (auto split: list.splits)

lemma split_slash_no_slash: "CHR ''/'' \<notin> set s \<Longrightarrow> split_slash s = [s]"
  by (induction s) auto

lemma join_split_slash [simp]: "join_slash (split_slash s) = s"
proof (induction s)
  case Nil
  then show ?case by simp
next
  case (Cons c cs)
  obtain seg segs where seg: "split_slash cs = seg # segs"
    by (cases "split_slash cs") auto
  with Cons.IH show ?case by (cases segs) auto
qed

lemma set_split_slash_no_slash: "seg \<in> set (split_slash s) \<Longrightarrow> CHR ''/'' \<notin> set seg"
proof (induction s arbitrary: seg)
  case Nil
  then show ?case by simp
next
  case (Cons c cs)
  obtain t ts where t: "split_slash cs = t # ts"
    by (cases "split_slash cs") auto
  from Cons.prems Cons.IH t show ?case by (auto split: if_splits)
qed

lemma split_slash_append:
  "CHR ''/'' \<notin> set a \<Longrightarrow> split_slash (a @ CHR ''/'' # b) = a # split_slash b"
  by (induction a) auto

lemma split_join_slash:
  "ss \<noteq> [] \<Longrightarrow> \<forall>s \<in> set ss. CHR ''/'' \<notin> set s \<Longrightarrow> split_slash (join_slash ss) = ss"
proof (induction ss rule: join_slash.induct)
  case (3 s t ss)
  then show ?case by (simp add: split_slash_append)
qed (simp_all add: split_slash_no_slash)

lemma HasPrefix_append [simp]: "HasPrefix (p @ s) p"
  by (simp add: HasPrefix_def)

lemma HasPrefix_iff: "HasPrefix s p \<longleftrightarrow> (\<exists>t. s = p @ t)"
  unfolding HasPrefix_def by (metis append_eq_conv_conj append_take_drop_id)

lemma TrimPrefix_append [simp]: "TrimPrefix (p @ s) p = s"
  by (simp add: TrimPrefix_def)

section \<open>Conversions between strings, bytes and hexadecimal text\<close>

text \<open>Go's conversions \<open>[]byte(s)\<close> and \<open>string(b)\<close>, \<open>hex.EncodeToString\<close> and
  \<open>hex.DecodeString\<close> (which accepts both cases and refuses odd lengths and other
  characters), and \<open>strings.ToLower\<close>: ASCII strings byte by byte, any other string through
  the Unicode tables, which are a parameter.\<close>

definition bytes_of_string :: "string \<Rightarrow> bytes" where
  "bytes_of_string s = map of_char s"

definition string_of_bytes :: "bytes \<Rightarrow> string" where
  "string_of_bytes bs = map (\<lambda>b. char_of (unat b)) bs"

definition hex_digit :: "nat \<Rightarrow> char" where
  "hex_digit n = ''0123456789abcdef'' ! (n mod 16)"

definition hex_value :: "char \<Rightarrow> nat option" where
  "hex_value c = (let n = (of_char c :: nat) in
     if 48 \<le> n \<and> n \<le> 57 then Some (n - 48)
     else if 97 \<le> n \<and> n \<le> 102 then Some (n - 87)
     else if 65 \<le> n \<and> n \<le> 70 then Some (n - 55) else None)"

definition hex_encode :: "bytes \<Rightarrow> string" where
  "hex_encode bs = concat (map (\<lambda>b. [hex_digit (unat b div 16), hex_digit (unat b mod 16)]) bs)"

fun hex_decode :: "string \<Rightarrow> bytes option" where
  "hex_decode [] = Some []"
| "hex_decode [c] = None"
| "hex_decode (c # d # cs) =
     (case (hex_value c, hex_value d, hex_decode cs) of
        (Some h, Some l, Some bs) \<Rightarrow> Some (word_of_nat (16 * h + l) # bs)
      | _ \<Rightarrow> None)"

definition ascii_lower :: "char \<Rightarrow> char" where
  "ascii_lower c = (let n = (of_char c :: nat) in if 65 \<le> n \<and> n \<le> 90 then char_of (n + 32) else c)"

definition ToLower :: "(string \<Rightarrow> string) \<Rightarrow> string \<Rightarrow> string" where
  "ToLower uni s = (if list_all (\<lambda>c. (of_char c :: nat) < 128) s then map ascii_lower s else uni s)"

lemma unat_of_char [simp]: "unat (of_char c :: byte) = of_char c"
proof -
  have "(of_char c :: byte) = word_of_nat (of_char c)"
    by (simp add: of_char_of of_nat_of_char)
  then show ?thesis by simp
qed

lemma string_of_bytes_of_string [simp]: "string_of_bytes (bytes_of_string s) = s"
  by (simp add: string_of_bytes_def bytes_of_string_def o_def)

lemma length_bytes_of_string [simp]: "length (bytes_of_string s) = length s"
  by (simp add: bytes_of_string_def)

lemma hex_value_digit: "hex_value (hex_digit n) = Some (n mod 16)"
proof -
  have "n mod 16 \<in> {0, 1, 2, 3, 4, 5, 6, 7, 8, 9, 10, 11, 12, 13, 14, 15}"
    by (simp, presburger)
  then show ?thesis
    by (elim insertE emptyE) (simp_all add: hex_digit_def hex_value_def)
qed

lemma hex_decode_encode [simp]: "hex_decode (hex_encode bs) = Some bs"
proof (induction bs)
  case Nil
  then show ?case by (simp add: hex_encode_def)
next
  case (Cons b bs)
  have "unat b div 16 mod 16 = unat b div 16"
    using unat_byte_bound [of b] by (simp add: less_mult_imp_div_less)
  then have "16 * (unat b div 16 mod 16) + unat b mod 16 mod 16 = unat b"
    by simp
  with Cons show ?case by (simp add: hex_encode_def hex_value_digit)
qed

lemma length_hex_encode [simp]: "length (hex_encode bs) = 2 * length bs"
  by (induction bs) (simp_all add: hex_encode_def)

section \<open>Keyed row tables\<close>

text \<open>
  A table is the list of its rows in row order. The statements of the sources are
  \<open>UPDATE \<dots> SET \<dots> WHERE\<close>, \<open>DELETE \<dots> WHERE\<close> and \<open>INSERT\<close>; the first two are
  a guarded map and a filter, the last appends.
\<close>

definition sql_update :: "('r \<Rightarrow> bool) \<Rightarrow> ('r \<Rightarrow> 'r) \<Rightarrow> 'r list \<Rightarrow> 'r list" where
  "sql_update P f rows = map (\<lambda>r. if P r then f r else r) rows"

definition sql_delete :: "('r \<Rightarrow> bool) \<Rightarrow> 'r list \<Rightarrow> 'r list" where
  "sql_delete P rows = filter (\<lambda>r. \<not> P r) rows"

definition sql_count :: "('r \<Rightarrow> bool) \<Rightarrow> 'r list \<Rightarrow> nat" where
  "sql_count P rows = length (filter P rows)"

lemma set_sql_delete [simp, row_simps]: "set (sql_delete P rows) = {r \<in> set rows. \<not> P r}"
  by (simp add: sql_delete_def)

lemma set_sql_update [row_simps]:
  "set (sql_update P f rows) = (\<lambda>r. if P r then f r else r) ` set rows"
  by (simp add: sql_update_def)

lemma length_sql_update [simp]: "length (sql_update P f rows) = length rows"
  by (simp add: sql_update_def)

lemma sql_update_none: "\<forall>r \<in> set rows. \<not> P r \<Longrightarrow> sql_update P f rows = rows"
  unfolding sql_update_def by (rule map_idI) simp

lemma sql_count_0 [simp]: "sql_count P rows = 0 \<longleftrightarrow> (\<forall>r \<in> set rows. \<not> P r)"
  by (auto simp: sql_count_def filter_empty_conv)

text \<open>
  The contract a table's \<open>PRIMARY KEY\<close> or \<open>UNIQUE\<close> column gives its clients: rows are
  found by key, and the statements the sources issue keep the key unique. It is
  interpreted for every key of the cache database's three tables.
\<close>

locale keyed_table =
  fixes key :: "'r \<Rightarrow> 'k"
    and upd_ok :: "('r \<Rightarrow> 'r) \<Rightarrow> bool"
  assumes upd_key: "upd_ok f \<Longrightarrow> key (f r) = key r"
begin

lemma map_key_sql_update:
  "upd_ok f \<Longrightarrow> map key (sql_update P f rows) = map key rows"
  by (simp add: sql_update_def upd_key)

lemma distinct_sql_update:
  "upd_ok f \<Longrightarrow> distinct (map key rows) \<Longrightarrow> distinct (map key (sql_update P f rows))"
  by (simp add: map_key_sql_update)

lemma distinct_sql_delete:
  "distinct (map key rows) \<Longrightarrow> distinct (map key (sql_delete P rows))"
  by (simp add: sql_delete_def distinct_map_filter)

lemma distinct_insert:
  "distinct (map key rows) \<Longrightarrow> \<forall>r \<in> set rows. key r \<noteq> key x \<Longrightarrow>
   distinct (map key (rows @ [x]))"
  by (auto simp: image_iff)

lemma find_key:
  assumes "distinct (map key rows)" and "r \<in> set rows"
  shows "find (\<lambda>x. key x = key r) rows = Some r"
  using assms
proof (induction rows)
  case Nil
  then show ?case by simp
next
  case (Cons a rows)
  then show ?case by (cases "a = r") (auto simp: image_iff)
qed

lemma find_key_unique:
  "distinct (map key rows) \<Longrightarrow> r \<in> set rows \<Longrightarrow> s \<in> set rows \<Longrightarrow> key r = key s \<Longrightarrow> r = s"
  by (metis find_key option.inject)

lemma find_key_update:
  assumes "upd_ok f"
  shows "find (\<lambda>x. key x = k) (sql_update (\<lambda>x. key x = k) f rows)
       = map_option f (find (\<lambda>x. key x = k) rows)"
  by (induction rows) (simp_all add: sql_update_def upd_key [OF assms])

end

section \<open>Systems that keep an invariant\<close>

text \<open>
  A component with state is a start state, a labelled step function and an invariant. Every
  state a finite run reaches has the invariant; each component instantiates the locale with
  its own operations and gets the run lemma from it.
\<close>

locale inv_system =
  fixes step :: "'c \<Rightarrow> 's \<Rightarrow> 's"
    and inv :: "'s \<Rightarrow> bool"
  assumes inv_step: "inv s \<Longrightarrow> inv (step c s)"
begin

lemma inv_run: "inv s \<Longrightarrow> inv (fold step cs s)"
  by (induction cs arbitrary: s) (simp_all add: inv_step)

end

end
