(* ===== verification/HybridSeal.thy ===== *)
theory HybridSeal
  imports Prelude
begin

text \<open>
  The hybrid public-key envelope of \<open>internal/crypto/hybrid.go\<close> and the data-key helpers
  of \<open>internal/crypto/keys.go\<close>: X25519 plus ML-KEM-768, combined by HKDF into one
  XChaCha20-Poly1305 key.

  The primitives come from other modules, so they are a parameter: a record of functions.
  What the code relies on is stated by \<open>aead_ok\<close>, \<open>dh_ok\<close>, \<open>hkdf_ok\<close> and
  \<open>key_pair\<close>, which say what the packages document (opening undoes sealing under the
  same key, nonce and associated data; the tag is 16 bytes; Diffie-Hellman agrees;
  decapsulation undoes encapsulation). Randomness is an argument.
\<close>

section \<open>Primitives\<close>

record prims =
  pSeal :: "bytes \<Rightarrow> bytes \<Rightarrow> bytes \<Rightarrow> bytes \<Rightarrow> bytes"
  pOpen :: "bytes \<Rightarrow> bytes \<Rightarrow> bytes \<Rightarrow> bytes \<Rightarrow> bytes option"
  pX25519 :: "bytes \<Rightarrow> bytes \<Rightarrow> bytes option"
  pBase :: "bytes \<Rightarrow> bytes"
  pEncap :: "bytes \<Rightarrow> bytes \<Rightarrow> (bytes \<times> bytes) option"
  pDecap :: "bytes \<Rightarrow> bytes \<Rightarrow> bytes option"
  pHkdf :: "bytes \<Rightarrow> bytes \<Rightarrow> bytes \<Rightarrow> bytes"
  pArgon :: "bytes \<Rightarrow> bytes \<Rightarrow> nat \<Rightarrow> nat \<Rightarrow> bytes"
  pHmac :: "bytes \<Rightarrow> bytes \<Rightarrow> bytes"
  pSha256 :: "bytes \<Rightarrow> bytes"

definition KeySize :: nat where "KeySize = 32"
definition NonceSize :: nat where "NonceSize = 24"
definition Overhead :: nat where "Overhead = 16"

text \<open>\<open>chacha20poly1305.NewX\<close> refuses every key that is not 32 bytes long.\<close>

definition newX_ok :: "bytes \<Rightarrow> bool" where
  "newX_ok key \<longleftrightarrow> length key = KeySize"

definition aead_ok :: "prims \<Rightarrow> bool" where
  "aead_ok P \<longleftrightarrow> (\<forall>k n p ad. length k = KeySize \<longrightarrow> length n = NonceSize \<longrightarrow>
     pOpen P k n (pSeal P k n p ad) ad = Some p \<and> length (pSeal P k n p ad) = length p + Overhead)"

definition dh_ok :: "prims \<Rightarrow> bool" where
  "dh_ok P \<longleftrightarrow> (\<forall>a b. pX25519 P a (pBase P b) = pX25519 P b (pBase P a)) \<and>
              (\<forall>a. length (pBase P a) = 32)"

definition hkdf_ok :: "prims \<Rightarrow> bool" where
  "hkdf_ok P \<longleftrightarrow> (\<forall>ikm salt info. length (pHkdf P ikm salt info) = KeySize)"

definition argon_ok :: "prims \<Rightarrow> bool" where
  "argon_ok P \<longleftrightarrow> (\<forall>pw salt t m. length (pArgon P pw salt t m) = KeySize)"

section \<open>Key sets and errors\<close>

record PublicKeySet =
  pubX25519 :: bytes
  pubKyber :: bytes

record PrivateKeySet =
  privX25519 :: bytes
  privKyber :: bytes

datatype hybridError =
    InvalidRecipient | InvalidPrivate | X25519Failed | EncapsulationFailed | AeadInit
  | BlobTooShort nat | DecapsulationFailed | AeadOpenFailed
  | PdkLength | X25519NonceLength nat | KyberNonceLength nat
  | CorruptX25519 | CorruptKyber | X25519KeyLength nat | KyberSeedLength nat
  | RecoveryKeyLength

definition KyberPublicKeySize :: nat where "KyberPublicKeySize = 1184"
definition KyberSeedSize :: nat where "KyberSeedSize = 64"
definition KyberCiphertextSize :: nat where "KyberCiphertextSize = 1088"
definition hybridX25519PKLen :: nat where "hybridX25519PKLen = 32"

definition hybridHeaderSize :: nat where
  "hybridHeaderSize = hybridX25519PKLen + KyberCiphertextSize + NonceSize"

definition hybridMinSize :: nat where
  "hybridMinSize = hybridHeaderSize + 16"

definition HybridKDFInfo :: bytes where
  "HybridKDFInfo = map of_char ''pigcloud-hybrid-seal-v2''"

lemmas size_defs = KeySize_def NonceSize_def Overhead_def KyberPublicKeySize_def KyberSeedSize_def
  KyberCiphertextSize_def hybridX25519PKLen_def hybridHeaderSize_def hybridMinSize_def

definition key_pair :: "prims \<Rightarrow> PublicKeySet \<Rightarrow> PrivateKeySet \<Rightarrow> bool" where
  "key_pair P pub priv \<longleftrightarrow>
     pubX25519 pub = pBase P (privX25519 priv) \<and>
     length (privX25519 priv) = 32 \<and>
     length (pubKyber pub) = KyberPublicKeySize \<and> length (privKyber priv) = KyberSeedSize \<and>
     (\<forall>coins ss ct. pEncap P (pubKyber pub) coins = Some (ss, ct) \<longrightarrow>
        pDecap P (privKyber priv) ct = Some ss \<and> length ct = KyberCiphertextSize)"

section \<open>Sealing and unsealing\<close>

definition deriveHybridKey ::
  "prims \<Rightarrow> bytes \<Rightarrow> bytes \<Rightarrow> bytes \<Rightarrow> bytes \<Rightarrow> bytes \<Rightarrow> bytes" where
  "deriveHybridKey P mlkemCT ephX25519PK recipientStaticPK ssX ssK =
     (let salt = mlkemCT @ ephX25519PK @ recipientStaticPK;
          ikm = ssX @ ssK
      in pHkdf P ikm salt HybridKDFInfo)"

definition HybridSeal ::
  "prims \<Rightarrow> bytes \<Rightarrow> bytes \<Rightarrow> bytes \<Rightarrow> bytes \<Rightarrow> PublicKeySet option \<Rightarrow> hybridError + bytes" where
  "HybridSeal P ephPriv coins nonce plaintext recipient =
     (case recipient of
        None \<Rightarrow> Inl InvalidRecipient
      | Some pub \<Rightarrow>
          if length (pubKyber pub) \<noteq> KyberPublicKeySize then Inl InvalidRecipient
          else
            let ephPub = pBase P ephPriv in
            case pX25519 P ephPriv (pubX25519 pub) of
              None \<Rightarrow> Inl X25519Failed
            | Some ssX \<Rightarrow>
                (case pEncap P (pubKyber pub) coins of
                   None \<Rightarrow> Inl EncapsulationFailed
                 | Some (ssK, ctK) \<Rightarrow>
                     let wrapKey = deriveHybridKey P ctK ephPub (pubX25519 pub) ssX ssK in
                     if \<not> newX_ok wrapKey then Inl AeadInit
                     else Inr (ephPub @ ctK @ nonce @ pSeal P wrapKey nonce plaintext [])))"

definition HybridUnseal ::
  "prims \<Rightarrow> bytes \<Rightarrow> PrivateKeySet option \<Rightarrow> hybridError + bytes" where
  "HybridUnseal P sealed privo =
     (case privo of
        None \<Rightarrow> Inl InvalidPrivate
      | Some priv \<Rightarrow>
          if length (privKyber priv) \<noteq> KyberSeedSize then Inl InvalidPrivate
          else if length sealed < hybridMinSize then Inl (BlobTooShort (length sealed))
          else
            let ephPub = take hybridX25519PKLen sealed;
                ctK = take KyberCiphertextSize (drop hybridX25519PKLen sealed);
                nonceOff = hybridX25519PKLen + KyberCiphertextSize;
                nonce = take NonceSize (drop nonceOff sealed);
                aeadCT = drop (nonceOff + NonceSize) sealed
            in case pX25519 P (privX25519 priv) ephPub of
                 None \<Rightarrow> Inl X25519Failed
               | Some ssX \<Rightarrow>
                   (case pDecap P (privKyber priv) ctK of
                      None \<Rightarrow> Inl DecapsulationFailed
                    | Some ssK \<Rightarrow>
                        let recipientStaticPub = pBase P (privX25519 priv);
                            wrapKey = deriveHybridKey P ctK ephPub recipientStaticPub ssX ssK
                        in if \<not> newX_ok wrapKey then Inl AeadInit
                           else (case pOpen P wrapKey nonce aeadCT [] of
                                   None \<Rightarrow> Inl AeadOpenFailed
                                 | Some plaintext \<Rightarrow> Inr plaintext)))"

definition SealDataKey ::
  "prims \<Rightarrow> bytes \<Rightarrow> bytes \<Rightarrow> bytes \<Rightarrow> bytes \<Rightarrow> PublicKeySet option \<Rightarrow> hybridError + bytes" where
  "SealDataKey P ephPriv coins nonce dataKey recipient =
     HybridSeal P ephPriv coins nonce dataKey recipient"

definition UnsealDataKey :: "prims \<Rightarrow> bytes \<Rightarrow> PrivateKeySet option \<Rightarrow> hybridError + bytes" where
  "UnsealDataKey P sealed priv = HybridUnseal P sealed priv"

section \<open>Wrapping the private key set under a password or a recovery key\<close>

record RecoveryWrappedHybridKey =
  X25519Ciphertext :: bytes
  X25519Nonce :: bytes
  KyberCiphertext :: bytes
  KyberNonce :: bytes

record EncryptedHybridPrivateKey = RecoveryWrappedHybridKey +
  encSalt :: bytes
  OpsLimit :: nat
  MemLimit :: nat

definition KDFOpsLimit :: nat where "KDFOpsLimit = 3"
definition KDFMemLimitBytes :: nat where "KDFMemLimitBytes = 256 * 1024 * 1024"

definition DeriveKey :: "prims \<Rightarrow> bytes \<Rightarrow> bytes \<Rightarrow> nat \<Rightarrow> nat \<Rightarrow> bytes" where
  "DeriveKey P password salt opsLimit memLimit = pArgon P password salt opsLimit (memLimit div 1024)"

definition wrapWithKey ::
  "prims \<Rightarrow> bytes \<Rightarrow> bytes \<Rightarrow> bytes \<Rightarrow> PrivateKeySet \<Rightarrow> hybridError + RecoveryWrappedHybridKey" where
  "wrapWithKey P xNonce kNonce key priv =
     (if \<not> newX_ok key then Inl AeadInit
      else Inr \<lparr>X25519Ciphertext = pSeal P key xNonce (privX25519 priv) [], X25519Nonce = xNonce,
                KyberCiphertext = pSeal P key kNonce (privKyber priv) [], KyberNonce = kNonce\<rparr>)"

definition EncryptHybridPrivateKey ::
  "prims \<Rightarrow> bytes \<Rightarrow> bytes \<Rightarrow> bytes \<Rightarrow> PrivateKeySet option \<Rightarrow> bytes
     \<Rightarrow> hybridError + EncryptedHybridPrivateKey" where
  "EncryptHybridPrivateKey P salt xNonce kNonce privo password =
     (case privo of
        None \<Rightarrow> Inl InvalidPrivate
      | Some priv \<Rightarrow>
          if length (privKyber priv) \<noteq> KyberSeedSize then Inl InvalidPrivate
          else
            let pdk = DeriveKey P password salt KDFOpsLimit KDFMemLimitBytes in
            case wrapWithKey P xNonce kNonce pdk priv of
              Inl e \<Rightarrow> Inl e
            | Inr w \<Rightarrow> Inr (RecoveryWrappedHybridKey.extend w
                (EncryptedHybridPrivateKey.fields salt KDFOpsLimit KDFMemLimitBytes)))"

definition DecryptHybridPrivateKeyWithRawKey ::
  "prims \<Rightarrow> 'z RecoveryWrappedHybridKey_scheme \<Rightarrow> bytes \<Rightarrow> hybridError + PrivateKeySet" where
  "DecryptHybridPrivateKeyWithRawKey P enc pdk =
     (if length pdk \<noteq> KeySize then Inl PdkLength
      else if length (X25519Nonce enc) \<noteq> NonceSize then Inl (X25519NonceLength (length (X25519Nonce enc)))
      else if length (KyberNonce enc) \<noteq> NonceSize then Inl (KyberNonceLength (length (KyberNonce enc)))
      else if \<not> newX_ok pdk then Inl AeadInit
      else (case pOpen P pdk (X25519Nonce enc) (X25519Ciphertext enc) [] of
              None \<Rightarrow> Inl CorruptX25519
            | Some xPlain \<Rightarrow>
                (case pOpen P pdk (KyberNonce enc) (KyberCiphertext enc) [] of
                   None \<Rightarrow> Inl CorruptKyber
                 | Some kPlain \<Rightarrow>
                     if length xPlain \<noteq> 32 then Inl (X25519KeyLength (length xPlain))
                     else if length kPlain \<noteq> KyberSeedSize then Inl (KyberSeedLength (length kPlain))
                     else Inr \<lparr>privX25519 = xPlain, privKyber = kPlain\<rparr>)))"

definition DecryptHybridPrivateKey ::
  "prims \<Rightarrow> EncryptedHybridPrivateKey \<Rightarrow> bytes \<Rightarrow> hybridError + PrivateKeySet" where
  "DecryptHybridPrivateKey P enc password =
     DecryptHybridPrivateKeyWithRawKey P enc (DeriveKey P password (encSalt enc) (OpsLimit enc) (MemLimit enc))"

definition EncryptHybridPrivateKeyWithKey ::
  "prims \<Rightarrow> bytes \<Rightarrow> bytes \<Rightarrow> PrivateKeySet option \<Rightarrow> bytes \<Rightarrow> hybridError + RecoveryWrappedHybridKey" where
  "EncryptHybridPrivateKeyWithKey P xNonce kNonce privo key =
     (case privo of
        None \<Rightarrow> Inl InvalidPrivate
      | Some priv \<Rightarrow>
          if length (privKyber priv) \<noteq> KyberSeedSize then Inl InvalidPrivate
          else if length key \<noteq> KeySize then Inl RecoveryKeyLength
          else wrapWithKey P xNonce kNonce key priv)"

section \<open>Lemmas\<close>

lemma aead_open_seal:
  "aead_ok P \<Longrightarrow> length k = KeySize \<Longrightarrow> length n = NonceSize \<Longrightarrow>
   pOpen P k n (pSeal P k n p ad) ad = Some p"
  by (simp add: aead_ok_def)

lemma aead_length_seal:
  "aead_ok P \<Longrightarrow> length k = KeySize \<Longrightarrow> length n = NonceSize \<Longrightarrow>
   length (pSeal P k n p ad) = length p + Overhead"
  by (simp add: aead_ok_def)

lemma length_deriveHybridKey: "hkdf_ok P \<Longrightarrow> length (deriveHybridKey P a b c d e) = KeySize"
  by (simp add: deriveHybridKey_def hkdf_ok_def Let_def)

text \<open>Where the two key agreements succeed, sealing returns the framed blob.\<close>

lemma HybridSeal_Inr:
  assumes "hkdf_ok P" "length (pubKyber pub) = KyberPublicKeySize"
    and "pX25519 P ephPriv (pubX25519 pub) = Some ssX"
    and "pEncap P (pubKyber pub) coins = Some (ssK, ctK)"
  shows "HybridSeal P ephPriv coins nonce pt (Some pub) =
    Inr (pBase P ephPriv @ ctK @ nonce @
         pSeal P (deriveHybridKey P ctK (pBase P ephPriv) (pubX25519 pub) ssX ssK) nonce pt [])"
  using assms by (simp add: HybridSeal_def Let_def newX_ok_def length_deriveHybridKey)

lemma HybridUnseal_framed:
  assumes ok: "aead_ok P" "dh_ok P" "hkdf_ok P" and kp: "key_pair P pub priv"
    and n: "length nonce = NonceSize"
    and x: "pX25519 P ephPriv (pubX25519 pub) = Some ssX"
    and e: "pEncap P (pubKyber pub) coins = Some (ssK, ctK)"
  shows "HybridUnseal P (pBase P ephPriv @ ctK @ nonce @
           pSeal P (deriveHybridKey P ctK (pBase P ephPriv) (pubX25519 pub) ssX ssK) nonce pt [])
           (Some priv) = Inr pt"
proof -
  let ?k = "deriveHybridKey P ctK (pBase P ephPriv) (pubX25519 pub) ssX ssK"
  have b: "length (pBase P ephPriv) = 32" and sym: "pX25519 P (privX25519 priv) (pBase P ephPriv) = Some ssX"
    using ok(2) kp x by (simp_all add: dh_ok_def key_pair_def)
  have c: "length ctK = KyberCiphertextSize" and d: "pDecap P (privKyber priv) ctK = Some ssK"
    and s: "length (privKyber priv) = KyberSeedSize" and pb: "pBase P (privX25519 priv) = pubX25519 pub"
    using kp e by (auto simp: key_pair_def)
  have k: "length ?k = KeySize" by (rule length_deriveHybridKey [OF ok(3)])
  have len: "length (pSeal P ?k nonce pt []) = length pt + Overhead"
    and op: "pOpen P ?k nonce (pSeal P ?k nonce pt []) [] = Some pt"
    using aead_length_seal [OF ok(1) k n] aead_open_seal [OF ok(1) k n] by simp_all
  show ?thesis
    using b c n s sym d len op k pb
    by (simp add: HybridUnseal_def size_defs Let_def newX_ok_def)
qed

lemma hybrid_round_trip:
  assumes "aead_ok P" "dh_ok P" "hkdf_ok P" "key_pair P pub priv" "length nonce = NonceSize"
  shows "case HybridSeal P ephPriv coins nonce pt (Some pub) of
           Inl e \<Rightarrow> pX25519 P ephPriv (pubX25519 pub) = None \<or> pEncap P (pubKyber pub) coins = None
         | Inr sealed \<Rightarrow> HybridUnseal P sealed (Some priv) = Inr pt"
proof (cases "pX25519 P ephPriv (pubX25519 pub)")
  case None
  then show ?thesis by (simp add: HybridSeal_def Let_def)
next
  case x: (Some ssX)
  show ?thesis
  proof (cases "pEncap P (pubKyber pub) coins")
    case None
    with x show ?thesis by (simp add: HybridSeal_def Let_def)
  next
    case (Some r)
    then obtain ssK ctK where e: "pEncap P (pubKyber pub) coins = Some (ssK, ctK)"
      by (cases r) auto
    have "length (pubKyber pub) = KyberPublicKeySize" using assms(4) by (simp add: key_pair_def)
    from HybridSeal_Inr [OF assms(3) this x e] HybridUnseal_framed [OF assms x e]
    show ?thesis by simp
  qed
qed

lemma decrypt_wrapped:
  assumes "aead_ok P" "length key = KeySize" "length xN = NonceSize" "length kN = NonceSize"
    and "length (privX25519 priv) = 32" "length (privKyber priv) = KyberSeedSize"
    and "wrapWithKey P xN kN key priv = Inr w"
    and "X25519Nonce enc = X25519Nonce w" "X25519Ciphertext enc = X25519Ciphertext w"
    and "KyberNonce enc = KyberNonce w" "KyberCiphertext enc = KyberCiphertext w"
  shows "DecryptHybridPrivateKeyWithRawKey P enc key = Inr priv"
  using assms
  by (auto simp: DecryptHybridPrivateKeyWithRawKey_def wrapWithKey_def newX_ok_def aead_open_seal
           split: if_splits)

section \<open>Properties\<close>

text \<open>
  An envelope opens to what was sealed. For a matching key pair, \<open>HybridSeal\<close> fails only
  where a key agreement fails, and otherwise \<open>HybridUnseal\<close> with the private key set
  returns the plaintext.
\<close>

theorem HybridUnseal_HybridSeal:
  assumes "aead_ok P" "dh_ok P" "hkdf_ok P" "key_pair P pub priv" "length nonce = NonceSize"
  shows "case HybridSeal P ephPriv coins nonce pt (Some pub) of
           Inl e \<Rightarrow> pX25519 P ephPriv (pubX25519 pub) = None \<or> pEncap P (pubKyber pub) coins = None
         | Inr sealed \<Rightarrow> HybridUnseal P sealed (Some priv) = Inr pt"
  using assms by (rule hybrid_round_trip)

text \<open>
  A password-wrapped private key set is recovered with the same password, and one wrapped
  under a recovery key with that key.
\<close>

theorem DecryptHybridPrivateKey_Encrypt:
  assumes "aead_ok P" "argon_ok P" "length xN = NonceSize" "length kN = NonceSize"
    and "length (privX25519 priv) = 32" "length (privKyber priv) = KyberSeedSize"
    and "length rkey = KeySize"
  shows "(\<exists>enc. EncryptHybridPrivateKey P salt xN kN (Some priv) password = Inr enc \<and>
               DecryptHybridPrivateKey P enc password = Inr priv) \<and>
         (\<exists>w. EncryptHybridPrivateKeyWithKey P xN kN (Some priv) rkey = Inr w \<and>
               DecryptHybridPrivateKeyWithRawKey P w rkey = Inr priv)"
proof -
  let ?pdk = "DeriveKey P password salt KDFOpsLimit KDFMemLimitBytes"
  have pdk: "length ?pdk = KeySize" using assms(2) by (simp add: DeriveKey_def argon_ok_def)
  obtain w where w: "wrapWithKey P xN kN ?pdk priv = Inr w"
    using pdk by (auto simp: wrapWithKey_def newX_ok_def)
  obtain v where v: "wrapWithKey P xN kN rkey priv = Inr v"
    using assms(7) by (auto simp: wrapWithKey_def newX_ok_def)
  let ?enc = "RecoveryWrappedHybridKey.extend w (EncryptedHybridPrivateKey.fields salt KDFOpsLimit KDFMemLimitBytes)"
  have "EncryptHybridPrivateKey P salt xN kN (Some priv) password = Inr ?enc"
    using assms(6) w by (simp add: EncryptHybridPrivateKey_def Let_def)
  moreover have "DecryptHybridPrivateKey P ?enc password = Inr priv"
    unfolding DecryptHybridPrivateKey_def
    using decrypt_wrapped [OF assms(1) pdk assms(3-6) w, of ?enc]
    by (simp add: RecoveryWrappedHybridKey.defs EncryptedHybridPrivateKey.defs)
  moreover have "EncryptHybridPrivateKeyWithKey P xN kN (Some priv) rkey = Inr v"
    using assms(6,7) v by (simp add: EncryptHybridPrivateKeyWithKey_def)
  moreover have "DecryptHybridPrivateKeyWithRawKey P v rkey = Inr priv"
    by (rule decrypt_wrapped [OF assms(1) assms(7) assms(3-6) v]) simp_all
  ultimately show ?thesis by blast
qed

section \<open>Witnesses\<close>

text \<open>A concrete instance of the primitives: the tag is 16 zero bytes, the key agreement adds
  scalars, the encapsulation sends a constant. It satisfies the hypotheses above.\<close>

definition plain_prims :: prims where
  "plain_prims = \<lparr>pSeal = (\<lambda>k n p ad. p @ replicate 16 0),
     pOpen = (\<lambda>k n c ad. if length c < 16 then None else Some (take (length c - 16) c)),
     pX25519 = (\<lambda>a p. Some [foldl (+) 0 (a @ p)]),
     pBase = (\<lambda>a. replicate 31 0 @ [foldl (+) 0 a]),
     pEncap = (\<lambda>ek coins. Some ([7], replicate 1088 0)),
     pDecap = (\<lambda>seed ct. Some [7]),
     pHkdf = (\<lambda>ikm salt info. replicate 32 1),
     pArgon = (\<lambda>pw salt t m. replicate 32 2),
     pHmac = (\<lambda>k m. replicate 32 (foldl (+) (of_nat (length m)) (k @ m))),
     pSha256 = (\<lambda>m. replicate 31 0 @ [foldl (+) 0 m])\<rparr>"

definition zero_pub :: PublicKeySet where
  "zero_pub = \<lparr>pubX25519 = replicate 32 0, pubKyber = replicate 1184 0\<rparr>"

definition zero_priv :: PrivateKeySet where
  "zero_priv = \<lparr>privX25519 = replicate 32 0, privKyber = replicate 64 0\<rparr>"

lemma foldl_plus_word: "foldl (+) a xs = a + foldl (+) 0 (xs :: byte list)"
proof (induction xs arbitrary: a)
  case (Cons x xs)
  show ?case using Cons.IH [of "a + x"] Cons.IH [of x] by (simp add: add.assoc)
qed simp

lemma foldl_plus_zeros: "foldl (+) (a :: byte) (replicate n 0) = a"
  by (induction n arbitrary: a) simp_all

lemma plain_prims_ok:
  "aead_ok plain_prims" "dh_ok plain_prims" "hkdf_ok plain_prims" "argon_ok plain_prims"
  "key_pair plain_prims zero_pub zero_priv"
proof -
  show "aead_ok plain_prims" "hkdf_ok plain_prims" "argon_ok plain_prims"
    by (simp_all add: plain_prims_def aead_ok_def hkdf_ok_def argon_ok_def size_defs)
  show "dh_ok plain_prims"
    unfolding dh_ok_def plain_prims_def
    by (simp add: foldl_plus_zeros foldl_plus_word [of "foldl (+) 0 _"] add.commute)
  have "replicate 31 (0 :: byte) @ [0] = replicate 32 0"
    by (simp add: replicate_append_same numeral_eq_Suc)
  then show "key_pair plain_prims zero_pub zero_priv"
    by (simp add: key_pair_def plain_prims_def zero_pub_def zero_priv_def size_defs foldl_plus_zeros)
qed

theorem HybridUnseal_HybridSeal_witness:
  "case HybridSeal plain_prims [1] [] (replicate 24 9) [5, 6] (Some zero_pub) of
     Inl e \<Rightarrow> pX25519 plain_prims [1] (pubX25519 zero_pub) = None \<or> pEncap plain_prims (pubKyber zero_pub) [] = None
   | Inr sealed \<Rightarrow> HybridUnseal plain_prims sealed (Some zero_priv) = Inr [5, 6]"
  by (rule HybridUnseal_HybridSeal) (simp_all add: plain_prims_ok size_defs)

theorem DecryptHybridPrivateKey_Encrypt_witness:
  "(\<exists>enc. EncryptHybridPrivateKey plain_prims [] (replicate 24 1) (replicate 24 2) (Some zero_priv) [3] = Inr enc \<and>
          DecryptHybridPrivateKey plain_prims enc [3] = Inr zero_priv) \<and>
   (\<exists>w. EncryptHybridPrivateKeyWithKey plain_prims (replicate 24 1) (replicate 24 2) (Some zero_priv) (replicate 32 4) = Inr w \<and>
          DecryptHybridPrivateKeyWithRawKey plain_prims w (replicate 32 4) = Inr zero_priv)"
  by (rule DecryptHybridPrivateKey_Encrypt) (simp_all add: plain_prims_ok size_defs zero_priv_def)

end
