(* ===== verification/Names.thy ===== *)
theory Names
  imports HybridSeal "HOL-Library.AList"
begin

text \<open>
  Sealed display names, path tokens and framed index bodies:
  \<open>internal/crypto/names.go\<close> and \<open>internal/crypto/frame.go\<close>.

  Unicode normalisation, Unicode case folding, BLAKE2b and gzip come from other modules and
  are parameters (\<open>token_env\<close> and the decompressor argument); JSON encoding of the token map
  is a parameter too, because nothing here reads the text back.
\<close>

section \<open>Framed index bodies\<close>

datatype frameError =
  EmptyFramed | TruncatedPadded | InnerLengthOutOfRange | EmptyInner | GzipFailed | UnknownFrameVersion byte

definition padHeaderBytes :: nat where "padHeaderBytes = 5"

definition UnframeIndexBody :: "(bytes \<Rightarrow> bytes option) \<Rightarrow> bytes \<Rightarrow> frameError + bytes" where
  "UnframeIndexBody gunzip framed0 =
     (if framed0 = [] then Inl EmptyFramed
      else
        case (if hd framed0 = 4 then
                (if length framed0 < padHeaderBytes then Inl TruncatedPadded
                 else let innerLen = be_uint (take 4 (drop 1 framed0)) in
                      if innerLen > length framed0 - padHeaderBytes then Inl InnerLengthOutOfRange
                      else let inner = take innerLen (drop padHeaderBytes framed0) in
                           if inner = [] then Inl EmptyInner else Inr inner)
              else Inr framed0)
        of Inl e \<Rightarrow> Inl e
         | Inr framed \<Rightarrow>
             if hd framed = 1 then Inr (drop 1 framed)
             else if hd framed = 0x7b then Inr framed
             else if hd framed = 2 then
               (case gunzip (drop 1 framed) of None \<Rightarrow> Inl GzipFailed | Some body \<Rightarrow> Inr body)
             else Inl (UnknownFrameVersion (hd framed)))"

section \<open>Padding of display names\<close>

datatype padError = UnknownPadVersion | PadLengthOutOfBounds

definition displayNamePadBuckets :: "nat list" where
  "displayNamePadBuckets = [64, 128, 256, 512, 888]"

definition displayNamePadHeader :: nat where "displayNamePadHeader = 4"

definition padDisplayName :: "bytes \<Rightarrow> bytes" where
  "padDisplayName name =
     (let total = displayNamePadHeader + length name;
          header = [0xff, 0x01, word_of_nat (length name div 256), word_of_nat (length name)]
      in case find (\<lambda>b. total \<le> b) displayNamePadBuckets of
           Some bucket \<Rightarrow> header @ name @ replicate (bucket - total) 0
         | None \<Rightarrow> if hd name \<noteq> 0xff then name else header @ name)"

definition unpadDisplayName :: "bytes \<Rightarrow> padError + bytes" where
  "unpadDisplayName plain =
     (if length plain < displayNamePadHeader \<or> hd plain \<noteq> 0xff then Inr plain
      else if plain ! 1 \<noteq> 0x01 then Inl UnknownPadVersion
      else let n = unat (plain ! 2) * 256 + unat (plain ! 3) in
           if displayNamePadHeader + n > length plain then Inl PadLengthOutOfBounds
           else Inr (take n (drop displayNamePadHeader plain)))"

datatype nameError = SealError hybridError | PadError padError

definition SealDisplayName ::
  "prims \<Rightarrow> bytes \<Rightarrow> bytes \<Rightarrow> bytes \<Rightarrow> string \<Rightarrow> PublicKeySet option \<Rightarrow> hybridError + bytes" where
  "SealDisplayName P ephPriv coins nonce name recipient =
     HybridSeal P ephPriv coins nonce (padDisplayName (bytes_of_string name)) recipient"

definition UnsealDisplayName :: "prims \<Rightarrow> bytes \<Rightarrow> PrivateKeySet option \<Rightarrow> nameError + string" where
  "UnsealDisplayName P sealed priv =
     (case HybridUnseal P sealed priv of
        Inl e \<Rightarrow> Inl (SealError e)
      | Inr plaintext \<Rightarrow>
          (case unpadDisplayName plaintext of
             Inl e \<Rightarrow> Inl (PadError e)
           | Inr nameBytes \<Rightarrow> Inr (string_of_bytes nameBytes)))"

section \<open>Path shapes and tokens\<close>

text \<open>One pass of \<open>strings.ReplaceAll(path, "//", "/")\<close>, then the loop that repeats it while
  a double slash is left. Each pass that finds one shortens the string.\<close>

fun has_double :: "string \<Rightarrow> bool" where
  "has_double (a # b # cs) = ((a = CHR ''/'' \<and> b = CHR ''/'') \<or> has_double (b # cs))"
| "has_double _ = False"

fun halve_slashes :: "string \<Rightarrow> string" where
  "halve_slashes (a # b # cs) =
     (if a = CHR ''/'' \<and> b = CHR ''/'' then CHR ''/'' # halve_slashes cs
      else a # halve_slashes (b # cs))"
| "halve_slashes cs = cs"

lemma length_halve_slashes: "length (halve_slashes s) \<le> length s"
  by (induction s rule: halve_slashes.induct) auto

lemma length_halve_slashes_less: "has_double s \<Longrightarrow> length (halve_slashes s) < length s"
proof (induction s rule: halve_slashes.induct)
  case (1 a b cs)
  then show ?case using length_halve_slashes [of cs] by auto
qed simp_all

function collapse_slashes :: "string \<Rightarrow> string" where
  "collapse_slashes s = (if has_double s then collapse_slashes (halve_slashes s) else s)"
  by pat_completeness auto
termination
  by (relation "measure length") (auto simp: length_halve_slashes_less)

declare collapse_slashes.simps [simp del]

record token_env =
  tNFC :: "string \<Rightarrow> string"
  tCasesLower :: "string \<Rightarrow> string"
  tUniLower :: "string \<Rightarrow> string"
  tBlake :: "bytes \<Rightarrow> bytes \<Rightarrow> bytes option"
  tMarshal :: "(string \<times> string) list \<Rightarrow> string"

definition normalizePathShape :: "token_env \<Rightarrow> string \<Rightarrow> string" where
  "normalizePathShape E path =
     tNFC E (collapse_slashes (Trim (CHR ''/'') (ReplaceChar (CHR 0x5C) (CHR ''/'') path)))"

definition normalizeLower :: "token_env \<Rightarrow> string \<Rightarrow> string" where
  "normalizeLower E path = tCasesLower E (normalizePathShape E path)"

definition normalizeLowerSimple :: "token_env \<Rightarrow> string \<Rightarrow> string" where
  "normalizeLowerSimple E path = ToLower (tUniLower E) (normalizePathShape E path)"

definition pathTokenOver :: "token_env \<Rightarrow> bytes \<Rightarrow> string \<Rightarrow> bytes option" where
  "pathTokenOver E nameKey normalized = tBlake E nameKey (bytes_of_string normalized)"

definition ComputePathToken :: "token_env \<Rightarrow> bytes \<Rightarrow> string \<Rightarrow> bytes option" where
  "ComputePathToken E nameKey canonicalPath = pathTokenOver E nameKey (normalizeLower E canonicalPath)"

definition ComputePathTokenLegacy :: "token_env \<Rightarrow> bytes \<Rightarrow> string \<Rightarrow> bytes option" where
  "ComputePathTokenLegacy E nameKey canonicalPath =
     pathTokenOver E nameKey (normalizeLowerSimple E canonicalPath)"

definition PathTokenNeedsLegacy :: "token_env \<Rightarrow> string \<Rightarrow> bool" where
  "PathTokenNeedsLegacy E canonicalPath \<longleftrightarrow>
     normalizeLower E canonicalPath \<noteq> normalizeLowerSimple E canonicalPath"

definition marshalHexTokenMap :: "token_env \<Rightarrow> (string \<times> string) list \<Rightarrow> string" where
  "marshalHexTokenMap E tokens = (if tokens = [] then [] else tMarshal E tokens)"

text \<open>The loop of \<open>PathTokenOptionJSON\<close> over the paths, with the two maps it fills.\<close>

fun token_maps ::
  "token_env \<Rightarrow> bytes \<Rightarrow> string list \<Rightarrow> (string \<times> string) list \<times> (string \<times> string) list
     \<Rightarrow> (string \<times> string) list \<times> (string \<times> string) list" where
  "token_maps E nameKey [] ms = ms"
| "token_maps E nameKey (p # ps) (canonical, legacy) =
     (if p = [] then token_maps E nameKey ps (canonical, legacy)
      else case ComputePathToken E nameKey p of
             None \<Rightarrow> token_maps E nameKey ps (canonical, legacy)
           | Some token \<Rightarrow>
               token_maps E nameKey ps
                 (AList.update p (hex_encode token) canonical,
                  (if PathTokenNeedsLegacy E p then
                     (case ComputePathTokenLegacy E nameKey p of
                        None \<Rightarrow> legacy
                      | Some legacyToken \<Rightarrow> AList.update p (hex_encode legacyToken) legacy)
                   else legacy)))"

definition PathTokenOptionJSON :: "token_env \<Rightarrow> bytes \<Rightarrow> string list \<Rightarrow> string \<times> string" where
  "PathTokenOptionJSON E nameKey paths =
     (if nameKey = [] \<or> paths = [] then ([], [])
      else let (canonical, legacy) = token_maps E nameKey paths ([], [])
           in (marshalHexTokenMap E canonical, marshalHexTokenMap E legacy))"

definition AddPathTokenOptions :: "token_env \<Rightarrow> options \<Rightarrow> bytes \<Rightarrow> string list \<Rightarrow> options" where
  "AddPathTokenOptions E opts nameKey paths =
     (let (canonical, legacy) = PathTokenOptionJSON E nameKey paths;
          opts1 = (if canonical \<noteq> [] then opts(''path_tokens'' \<mapsto> canonical) else opts)
      in if legacy \<noteq> [] then opts1(''path_tokens_legacy'' \<mapsto> legacy) else opts1)"

definition DecodeHexKey :: "string \<Rightarrow> nat \<Rightarrow> bytes option" where
  "DecodeHexKey hexStr n =
     (if hexStr = [] then None
      else case hex_decode hexStr of
             None \<Rightarrow> None
           | Some b \<Rightarrow> if length b \<noteq> n then None else Some b)"

section \<open>The ancestors of a path\<close>

datatype PathTokenDepth = PathTokenSelfOnly | PathTokenSelfAndParent | PathTokenSelfAndAncestors

definition dir_stop :: "string \<Rightarrow> bool" where
  "dir_stop p \<longleftrightarrow> p = ''.'' \<or> p = [] \<or> p = ''/''"

definition seg_weight :: "string list \<Rightarrow> nat" where
  "seg_weight ss = (\<Sum>s\<leftarrow>ss. if s = [] then 0 else length s + 1)"

lemma seg_weight_simps [simp]:
  "seg_weight [] = 0"
  "seg_weight (s # ss) = (if s = [] then 0 else length s + 1) + seg_weight ss"
  "seg_weight (ss @ ts) = seg_weight ss + seg_weight ts"
  by (simp_all add: seg_weight_def)

lemma seg_weight_rev [simp]: "seg_weight (rev ss) = seg_weight ss"
  by (induction ss) simp_all

lemma seg_weight_clean: "seg_weight (clean_segs r st ss) \<le> seg_weight st + seg_weight ss"
  by (induction r st ss rule: clean_segs.induct) (auto split: list.splits)

lemma clean_segs_nonempty:
  "[] \<notin> set st \<Longrightarrow> [] \<notin> set (clean_segs r st ss)"
  by (induction r st ss rule: clean_segs.induct) (auto split: list.splits)

lemma length_join_weight: "[] \<notin> set ss \<Longrightarrow> ss \<noteq> [] \<Longrightarrow> length (join_slash ss) + 1 = seg_weight ss"
  by (induction ss rule: join_slash.induct) auto

lemma split_slash_append_general:
  "split_slash (a @ CHR ''/'' # b) = split_slash a @ split_slash b"
proof (induction a)
  case (Cons c a)
  show ?case
  proof (cases "c = CHR ''/''")
    case False
    obtain x xs where "split_slash a = x # xs" by (cases "split_slash a") auto
    with False Cons show ?thesis by simp
  qed (simp add: Cons)
qed simp

lemma sum_length_split: "(\<Sum>x\<leftarrow>split_slash s. length x + 1) = length s + 1"
proof (induction s)
  case (Cons c s)
  obtain x xs where "split_slash s = x # xs" by (cases "split_slash s") auto
  with Cons show ?case by auto
qed simp

lemma seg_weight_split: "seg_weight (split_slash s) \<le> length s + 1"
proof -
  have "seg_weight ss \<le> (\<Sum>x\<leftarrow>ss. length x + 1)" for ss
    by (induction ss) auto
  from this [of "split_slash s"] show ?thesis by (simp only: sum_length_split)
qed

lemma length_path_Clean_dir:
  assumes q: "q = t @ ''/''" and stop: "\<not> dir_stop (path_Clean q)"
  shows "length (path_Clean q) < length q"
proof -
  let ?r = "HasPrefix q ''/''"
  let ?segs = "clean_segs ?r [] (split_slash q)"
  have ne: "[] \<notin> set ?segs" by (rule clean_segs_nonempty) simp
  have nil: "?segs \<noteq> []"
    using stop by (auto simp: path_Clean_def dir_stop_def Let_def split: if_splits)
  have body: "length (join_slash ?segs) + 1 \<le> seg_weight (split_slash q)"
    using length_join_weight [OF ne nil] seg_weight_clean [of ?r "[]" "split_slash q"] by simp
  have jne: "join_slash ?segs \<noteq> []"
    using ne nil by (cases ?segs rule: join_slash.cases) auto
  have split: "split_slash q = split_slash t @ [[]]"
    using split_slash_append_general [of t "[]"] q by simp
  show ?thesis
  proof (cases ?r)
    case False
    have "seg_weight (split_slash q) \<le> length q"
      using seg_weight_split [of t] split q by simp
    with body False jne show ?thesis by (simp add: path_Clean_def Let_def)
  next
    case True
    have "t \<noteq> []"
    proof
      assume "t = []"
      with q have "split_slash q = [[], []]" by simp
      with nil True show False by simp
    qed
    with True q obtain t' where t': "t = CHR ''/'' # t'"
      by (cases t) (auto simp: HasPrefix_def)
    then have "seg_weight (split_slash q) = seg_weight (split_slash t')"
      using split by simp
    then have "seg_weight (split_slash q) \<le> length t' + 1"
      using seg_weight_split [of t'] by simp
    with body True t' q show ?thesis by (simp add: path_Clean_def Let_def)
  qed
qed

lemma path_Clean_Nil: "path_Clean [] = ''.''"
  by (simp add: path_Clean_def HasPrefix_def)

lemma dir_prefix_cases:
  "rev (dropWhile (\<lambda>c. c \<noteq> CHR ''/'') (rev p)) = [] \<or>
   (\<exists>t. rev (dropWhile (\<lambda>c. c \<noteq> CHR ''/'') (rev p)) = t @ ''/'')"
proof (cases "dropWhile (\<lambda>c. c \<noteq> CHR ''/'') (rev p)")
  case (Cons c cs)
  then have "c = CHR ''/''" using hd_dropWhile [of "\<lambda>c. c \<noteq> CHR ''/''" "rev p"] by simp
  with Cons show ?thesis by simp
qed simp

lemma length_path_Dir:
  assumes "\<not> dir_stop (path_Dir p)"
  shows "length (path_Dir p) < length p"
proof -
  let ?q = "rev (dropWhile (\<lambda>c. c \<noteq> CHR ''/'') (rev p))"
  have "?q \<noteq> []"
  proof
    assume "?q = []"
    then have "path_Dir p = ''.''" unfolding path_Dir_def by (simp only: path_Clean_Nil)
    with assms show False by (simp add: dir_stop_def)
  qed
  with dir_prefix_cases [of p] obtain t where "?q = t @ ''/''" by blast
  moreover have "length ?q \<le> length p"
    using length_dropWhile_le [of "\<lambda>c. c \<noteq> CHR ''/''" "rev p"] by simp
  ultimately show ?thesis
    using assms length_path_Clean_dir [of ?q t] by (simp add: path_Dir_def)
qed

text \<open>The loop of \<open>PathTokenPaths\<close> over \<open>path.Dir\<close>, with its early exit after one parent.\<close>

function parent_chain :: "bool \<Rightarrow> string \<Rightarrow> string list" where
  "parent_chain one parent =
     (if dir_stop parent then []
      else if one then [parent]
      else parent # parent_chain one (path_Dir parent))"
  by pat_completeness auto
termination
  by (relation "measure (\<lambda>(one, p). if dir_stop p then 0 else length p + 1)")
     (auto simp: length_path_Dir)

declare parent_chain.simps [simp del]

definition PathTokenPaths :: "string \<Rightarrow> PathTokenDepth \<Rightarrow> string list" where
  "PathTokenPaths remotePath depth =
     (let trimmed = TrimLeft (CHR ''/'') (ReplaceChar (CHR 0x5C) (CHR ''/'') remotePath) in
      if trimmed = [] then []
      else case depth of
             PathTokenSelfOnly \<Rightarrow> [trimmed]
           | PathTokenSelfAndParent \<Rightarrow> trimmed # parent_chain True (path_Dir trimmed)
           | PathTokenSelfAndAncestors \<Rightarrow> trimmed # parent_chain False (path_Dir trimmed))"

section \<open>Lemmas\<close>

text \<open>Collapsing keeps the non-empty segments; a string with no double slash and no slash at
  its ends has no empty segment.\<close>

definition segments :: "string \<Rightarrow> string list" where
  "segments s = filter (\<lambda>x. x \<noteq> []) (split_slash s)"

lemma segments_slash [simp]: "segments (CHR ''/'' # s) = segments s"
  by (simp add: segments_def)

lemma segments_append_slash: "segments (a @ CHR ''/'' # b) = segments a @ segments b"
  by (simp add: segments_def split_slash_append_general)

lemma segments_Cons:
  "c \<noteq> CHR ''/'' \<Longrightarrow> split_slash s = x # xs \<Longrightarrow> segments (c # s) = (c # x) # filter (\<lambda>x. x \<noteq> []) xs"
  by (simp add: segments_def)

lemma split_halve_hd:
  "hd (split_slash (halve_slashes s)) = hd (split_slash s) \<and>
   segments (halve_slashes s) = segments s \<and>
   filter (\<lambda>x. x \<noteq> []) (tl (split_slash (halve_slashes s))) = filter (\<lambda>x. x \<noteq> []) (tl (split_slash s))"
proof (induction s rule: halve_slashes.induct)
  case (1 a b cs)
  show ?case
  proof (cases "a = CHR ''/'' \<and> b = CHR ''/''")
    case True
    with 1 show ?thesis by (simp add: segments_def)
  next
    case False
    with 1 have IH: "hd (split_slash (halve_slashes (b # cs))) = hd (split_slash (b # cs))"
      "filter (\<lambda>x. x \<noteq> []) (tl (split_slash (halve_slashes (b # cs)))) = filter (\<lambda>x. x \<noteq> []) (tl (split_slash (b # cs)))"
      "segments (halve_slashes (b # cs)) = segments (b # cs)"
      by blast+
    obtain x xs where x: "split_slash (b # cs) = x # xs" using split_slash_nonempty neq_Nil_conv by metis
    obtain y ys where y: "split_slash (halve_slashes (b # cs)) = y # ys"
      using split_slash_nonempty neq_Nil_conv by metis
    have h: "halve_slashes (a # b # cs) = a # halve_slashes (b # cs)" using False by auto
    have s1: "split_slash (a # halve_slashes (b # cs)) = (if a = CHR ''/'' then [] # y # ys else (a # y) # ys)"
      by (simp only: split_slash.simps y list.case)
    have s2: "split_slash (a # b # cs) = (if a = CHR ''/'' then [] # x # xs else (a # x) # xs)"
      by (simp only: split_slash.simps(2) [of a "b # cs"] x list.case)
    from IH x y show ?thesis
      by (simp only: h s1 s2 segments_def) simp
  qed
qed simp_all

lemma segments_collapse: "segments (collapse_slashes s) = segments s"
proof (induction s rule: collapse_slashes.induct)
  case (1 s)
  then show ?case
    by (subst collapse_slashes.simps) (simp add: split_halve_hd)
qed

lemma no_double_collapse: "\<not> has_double (collapse_slashes s)"
proof (induction s rule: collapse_slashes.induct)
  case (1 s)
  then show ?case by (subst collapse_slashes.simps) simp
qed

lemma no_double_tl: "\<not> has_double (c # cs) \<Longrightarrow> \<not> has_double cs"
  by (cases cs) auto

lemma no_empty_tail:
  "\<not> has_double s \<Longrightarrow> s \<noteq> [] \<Longrightarrow> last s \<noteq> CHR ''/'' \<Longrightarrow> [] \<notin> set (tl (split_slash s))"
proof (induction s)
  case (Cons c s)
  show ?case
  proof (cases s)
    case (Cons d ds)
    obtain x xs where x: "split_slash s = x # xs" by (cases "split_slash s") auto
    have IH: "[] \<notin> set xs"
      using Cons.IH Cons.prems no_double_tl [of c s] Cons x by auto
    moreover have "x \<noteq> []" if "c = CHR ''/''"
    proof -
      from that Cons.prems Cons have "d \<noteq> CHR ''/''" by auto
      with x Cons show ?thesis by (auto split: list.splits)
    qed
    ultimately show ?thesis using x by auto
  qed (use Cons.prems in auto)
qed simp

lemma ends_halve:
  "s \<noteq> [] \<Longrightarrow> halve_slashes s \<noteq> [] \<and> hd (halve_slashes s) = hd s \<and> last (halve_slashes s) = last s"
proof (induction s rule: halve_slashes.induct)
  case (1 a b cs)
  show ?case
  proof (cases "a = CHR ''/'' \<and> b = CHR ''/''")
    case True
    then show ?thesis
      using 1 by (cases cs rule: halve_slashes.cases) auto
  next
    case False
    with 1 have "halve_slashes (b # cs) \<noteq> [] \<and> last (halve_slashes (b # cs)) = last (b # cs)" by auto
    then show ?thesis using False by auto
  qed
qed auto

lemma ends_collapse:
  "s \<noteq> [] \<Longrightarrow> collapse_slashes s \<noteq> [] \<and> hd (collapse_slashes s) = hd s \<and> last (collapse_slashes s) = last s"
proof (induction s rule: collapse_slashes.induct)
  case (1 s)
  then show ?case
    using ends_halve [of s] by (subst (1 2 3) collapse_slashes.simps) auto
qed

lemma Trim_ends:
  "Trim c s \<noteq> [] \<Longrightarrow> hd (Trim c s) \<noteq> c \<and> last (Trim c s) \<noteq> c"
proof -
  assume ne: "Trim c s \<noteq> []"
  let ?t = "dropWhile (\<lambda>x. x = c) s"
  let ?u = "dropWhile (\<lambda>x. x = c) (rev ?t)"
  have u: "?u \<noteq> []" using ne by (simp add: Trim_def TrimLeft_def TrimRight_def)
  have "hd ?u \<noteq> c" using hd_dropWhile [of "\<lambda>x. x = c" "rev ?t"] u by auto
  moreover have "?t \<noteq> []"
  proof
    assume a: "?t = []"
    show False using u unfolding a by simp
  qed
  then have "hd ?t \<noteq> c" using hd_dropWhile [of "\<lambda>x. x = c" s] by blast
  moreover obtain w where w: "rev ?t = w @ ?u" by (metis takeWhile_dropWhile_id)
  have "?t = rev ?u @ rev w" using w by (metis rev_append rev_rev_ident)
  then have "hd (rev ?u) = hd ?t" using u by (metis hd_append2 rev_is_Nil_conv)
  ultimately show ?thesis
    using u by (simp add: Trim_def TrimLeft_def TrimRight_def last_rev)
qed

lemma segments_dropWhile: "segments (dropWhile (\<lambda>x. x = CHR ''/'') s) = segments s"
  by (induction s) auto

lemma split_slash_rev: "split_slash (rev s) = rev (map rev (split_slash s))"
proof (induction s)
  case (Cons c s)
  obtain x xs where x: "split_slash s = x # xs" by (cases "split_slash s") auto
  have snoc: "split_slash (t @ [c]) = butlast (split_slash t) @ [last (split_slash t) @ [c]]"
    if "c \<noteq> CHR ''/''" for t
  proof (induction t)
    case (Cons d t)
    obtain y ys where "split_slash t = y # ys" by (cases "split_slash t") auto
    with Cons show ?case by auto
  qed (use that in simp)
  show ?case
  proof (cases "c = CHR ''/''")
    case True
    then show ?thesis using Cons split_slash_append_general [of "rev s" "[]"] by simp
  next
    case False
    with x Cons show ?thesis by (simp add: snoc)
  qed
qed simp

lemma segments_rev: "segments (rev s) = rev (map rev (segments s))"
  by (simp add: segments_def split_slash_rev filter_map o_def flip: rev_filter)

lemma segments_Trim: "segments (Trim (CHR ''/'') s) = segments s"
  by (simp add: Trim_def TrimRight_def TrimLeft_def segments_rev segments_dropWhile rev_map)

text \<open>Facts about the buckets and the header.\<close>

lemma header_length: "unat (word_of_nat (n div 256) :: byte) * 256 + unat (word_of_nat n :: byte) = n mod 65536"
proof -
  have "n mod 65536 = (n div 256 mod 256) * 256 + n mod 256"
    using mod_mult2_eq [of n 256 256] by simp
  then show ?thesis by simp
qed

lemma unpad_header:
  assumes "length name < 65536"
  shows "unpadDisplayName ([0xff, 0x01, word_of_nat (length name div 256), word_of_nat (length name)] @ name @ pad)
         = Inr name"
  using assms header_length [of "length name"]
  by (simp add: unpadDisplayName_def displayNamePadHeader_def numeral_3_eq_3 numeral_2_eq_2)

lemma find_bucket_Some:
  assumes "find (\<lambda>b. n \<le> b) bs = Some b"
  shows "n \<le> b" and "b \<in> set bs"
  using assms by (auto simp: find_Some_iff)

lemma find_bucket_small: "n \<le> 888 \<Longrightarrow> \<exists>b. find (\<lambda>b. n \<le> b) displayNamePadBuckets = Some b"
  by (auto simp: displayNamePadBuckets_def)

lemma unpad_pad:
  assumes "length name < 65536 \<or> hd name \<noteq> 0xff"
  shows "unpadDisplayName (padDisplayName name) = Inr name"
proof (cases "find (\<lambda>b. displayNamePadHeader + length name \<le> b) displayNamePadBuckets")
  case (Some b)
  then have "length name < 65536"
    using find_bucket_Some [OF Some] by (auto simp: displayNamePadBuckets_def displayNamePadHeader_def)
  then show ?thesis
    using Some unpad_header [of name] by (simp add: padDisplayName_def)
next
  case None
  show ?thesis
  proof (cases "hd name = 0xff")
    case True
    with assms have "length name < 65536" by simp
    then show ?thesis
      using None True unpad_header [of name "[]"] by (simp add: padDisplayName_def)
  next
    case False
    then show ?thesis
      using None by (simp add: padDisplayName_def unpadDisplayName_def)
  qed
qed

text \<open>Plain segments: what a path the mount builds is made of.\<close>

definition plain_seg :: "string \<Rightarrow> bool" where
  "plain_seg s \<longleftrightarrow> s \<noteq> [] \<and> s \<noteq> ''.'' \<and> s \<noteq> ''..'' \<and> CHR ''/'' \<notin> set s \<and> CHR 0x5C \<notin> set s"

lemma clean_segs_plain:
  "list_all plain_seg ss \<Longrightarrow> clean_segs r st (ss @ [[]]) = rev st @ ss"
  by (induction ss arbitrary: st) (simp_all add: plain_seg_def)

lemma hd_join_plain: "ss \<noteq> [] \<Longrightarrow> list_all plain_seg ss \<Longrightarrow> join_slash ss \<noteq> [] \<and> hd (join_slash ss) \<noteq> CHR ''/''"
  by (cases ss rule: join_slash.cases) (auto simp: plain_seg_def hd_append dest: hd_in_set)

lemma join_slash_snoc: "ss \<noteq> [] \<Longrightarrow> join_slash (ss @ [s]) = join_slash ss @ CHR ''/'' # s"
  by (induction ss rule: join_slash.induct) simp_all

lemma dropWhile_rev_no_slash:
  "CHR ''/'' \<notin> set s \<Longrightarrow> dropWhile (\<lambda>c. c \<noteq> CHR ''/'') (rev s @ t) = dropWhile (\<lambda>c. c \<noteq> CHR ''/'') t"
  by (induction s arbitrary: t rule: rev_induct) auto

lemma path_Dir_join:
  assumes "list_all plain_seg (ss @ [s])"
  shows "path_Dir (join_slash (ss @ [s])) = (if ss = [] then ''.'' else join_slash ss)"
proof (cases "ss = []")
  case True
  have "dropWhile (\<lambda>c. c \<noteq> CHR ''/'') (rev s) = []"
    using assms dropWhile_rev_no_slash [of s "[]"] by (simp add: plain_seg_def)
  then have "path_Dir s = ''.''" unfolding path_Dir_def by (simp only: rev.simps path_Clean_Nil)
  then show ?thesis using True by simp
next
  case False
  have s: "CHR ''/'' \<notin> set s" and pl: "list_all plain_seg ss" using assms by (auto simp: plain_seg_def)
  have "rev (dropWhile (\<lambda>c. c \<noteq> CHR ''/'') (rev (join_slash (ss @ [s])))) = join_slash ss @ ''/''"
    using False by (simp add: join_slash_snoc dropWhile_rev_no_slash [OF s])
  moreover have "path_Clean (join_slash ss @ ''/'') = join_slash ss"
  proof -
    have "split_slash (join_slash ss @ ''/'') = ss @ [[]]"
      using split_slash_append_general [of "join_slash ss" "[]"] split_join_slash [OF False] pl
      by (simp add: list_all_iff plain_seg_def)
    moreover have "\<not> HasPrefix (join_slash ss @ ''/'') ''/''"
      using hd_join_plain [OF False pl] by (cases "join_slash ss") (auto simp: HasPrefix_def)
    ultimately show ?thesis
      using clean_segs_plain [OF pl, of False "[]"] hd_join_plain [OF False pl]
      by (simp add: path_Clean_def Let_def)
  qed
  ultimately show ?thesis using False by (simp add: path_Dir_def)
qed

lemma not_dir_stop_join: "ss \<noteq> [] \<Longrightarrow> list_all plain_seg ss \<Longrightarrow> \<not> dir_stop (join_slash ss)"
  by (cases ss rule: join_slash.cases)
     (auto simp: dir_stop_def plain_seg_def append_eq_Cons_conv)

lemma parent_chain_plain:
  "list_all plain_seg ss \<Longrightarrow> ss \<noteq> [] \<Longrightarrow>
   parent_chain False (join_slash ss) = map (\<lambda>n. join_slash (take n ss)) (rev [1..<Suc (length ss)])"
proof (induction ss rule: rev_induct)
  case (snoc s ss)
  have eq: "parent_chain False (join_slash (ss @ [s]))
      = join_slash (ss @ [s]) # parent_chain False (path_Dir (join_slash (ss @ [s])))"
    using not_dir_stop_join [of "ss @ [s]"] snoc.prems by (subst parent_chain.simps) simp
  have tail: "parent_chain False (path_Dir (join_slash (ss @ [s])))
      = map (\<lambda>n. join_slash (take n (ss @ [s]))) (rev [1..<Suc (length ss)])"
  proof (cases "ss = []")
    case True
    have "parent_chain False ''.'' = []" by (subst parent_chain.simps) (simp add: dir_stop_def)
    with True show ?thesis using path_Dir_join [OF snoc.prems(1)] by simp
  next
    case False
    have "parent_chain False (join_slash ss) = map (\<lambda>n. join_slash (take n ss)) (rev [1..<Suc (length ss)])"
      using snoc False by simp
    also have "\<dots> = map (\<lambda>n. join_slash (take n (ss @ [s]))) (rev [1..<Suc (length ss)])"
      by (rule map_cong) auto
    finally show ?thesis using path_Dir_join [OF snoc.prems(1)] False by simp
  qed
  show ?case unfolding eq tail by simp
qed simp

section \<open>Properties\<close>

text \<open>
  A display name survives sealing, with padding and envelope composed. For a matching key
  pair and a name shorter than 65536 bytes or not starting with the pad marker, sealing fails
  only in a key agreement, and unsealing returns the name.
\<close>

theorem UnsealDisplayName_SealDisplayName:
  assumes "aead_ok P" "dh_ok P" "hkdf_ok P" "key_pair P pub priv" "length nonce = NonceSize"
    and "length name < 65536 \<or> hd (bytes_of_string name) \<noteq> 0xff"
  shows "case SealDisplayName P ephPriv coins nonce name (Some pub) of
           Inl e \<Rightarrow> pX25519 P ephPriv (pubX25519 pub) = None \<or> pEncap P (pubKyber pub) coins = None
         | Inr sealed \<Rightarrow> UnsealDisplayName P sealed (Some priv) = Inr name"
proof -
  let ?pt = "padDisplayName (bytes_of_string name)"
  have un: "unpadDisplayName ?pt = Inr (bytes_of_string name)"
    using assms(6) by (intro unpad_pad) simp
  have "case HybridSeal P ephPriv coins nonce ?pt (Some pub) of
           Inl e \<Rightarrow> pX25519 P ephPriv (pubX25519 pub) = None \<or> pEncap P (pubKyber pub) coins = None
         | Inr sealed \<Rightarrow> HybridUnseal P sealed (Some priv) = Inr ?pt"
    by (rule hybrid_round_trip [OF assms(1-5)])
  then show ?thesis
    by (auto simp: SealDisplayName_def UnsealDisplayName_def un split: sum.splits)
qed

text \<open>
  Padding hides the length of a name. A name of at most 884 bytes is padded to the least
  bucket that holds it and its header, so the sealed size reveals the bucket only.
\<close>

theorem padDisplayName_bucket:
  assumes "length name \<le> 884"
  shows "\<exists>b \<in> set displayNamePadBuckets. length (padDisplayName name) = b \<and> length name + 4 \<le> b \<and>
           (\<forall>b' \<in> set displayNamePadBuckets. length name + 4 \<le> b' \<longrightarrow> b \<le> b')"
proof -
  obtain b where b: "find (\<lambda>b. displayNamePadHeader + length name \<le> b) displayNamePadBuckets = Some b"
    using find_bucket_small [of "displayNamePadHeader + length name"] assms by (auto simp: displayNamePadHeader_def)
  have len: "length (padDisplayName name) = b"
    using b find_bucket_Some(1) [OF b] by (simp add: padDisplayName_def displayNamePadHeader_def)
  have least: "\<forall>b' \<in> set displayNamePadBuckets. length name + 4 \<le> b' \<longrightarrow> b \<le> b'"
    using b by (auto simp: displayNamePadBuckets_def displayNamePadHeader_def split: if_splits)
  show ?thesis
    using len least find_bucket_Some [OF b] by (auto simp: displayNamePadHeader_def intro!: bexI [of _ b])
qed

text \<open>
  The padding frame of an index body is transparent. Wrapping a non-empty body that is not
  itself padded changes nothing that \<open>UnframeIndexBody\<close> returns, whatever the pad bytes are.
\<close>

theorem UnframeIndexBody_padded:
  assumes "inner \<noteq> []" "hd inner \<noteq> 4" "length inner < 2 ^ 32"
  shows "UnframeIndexBody gunzip (4 # be_put 4 (length inner) @ inner @ pad) = UnframeIndexBody gunzip inner"
proof -
  have "be_uint (be_put 4 (length inner)) = length inner"
    using assms(3) by (intro be_uint_put_small) simp
  then show ?thesis
    using assms by (simp add: UnframeIndexBody_def padHeaderBytes_def)
qed

text \<open>
  The shape a path is normalised to before hashing is its non-empty segments joined by
  single slashes, so spellings that differ in back-slashes, doubled or outer slashes give one
  token.
\<close>

theorem normalizePathShape_segments:
  "normalizePathShape E path =
     tNFC E (join_slash (filter (\<lambda>s. s \<noteq> []) (split_slash (ReplaceChar (CHR 0x5C) (CHR ''/'') path))))"
proof -
  let ?r = "ReplaceChar (CHR 0x5C) (CHR ''/'') path"
  let ?t = "Trim (CHR ''/'') ?r"
  let ?c = "collapse_slashes ?t"
  have seg: "segments ?c = segments ?r" by (simp add: segments_collapse segments_Trim)
  have "?c = join_slash (segments ?c)"
  proof (cases "?t = []")
    case True
    then have "?c = []" by (subst collapse_slashes.simps) simp
    then show ?thesis by (simp add: segments_def)
  next
    case False
    have e: "?c \<noteq> []" "hd ?c \<noteq> CHR ''/''" "last ?c \<noteq> CHR ''/''"
      using ends_collapse [OF False] Trim_ends [OF False] by auto
    obtain x xs where x: "split_slash ?c = x # xs" by (cases "split_slash ?c") auto
    have "x \<noteq> []" using e(1,2) x by (cases ?c) (auto split: list.splits)
    moreover have "[] \<notin> set xs" using no_empty_tail [OF no_double_collapse e(1,3)] x by simp
    ultimately have "segments ?c = split_slash ?c"
      by (simp add: segments_def x) (metis (mono_tags, lifting) filter_True)
    then show ?thesis by simp
  qed
  with seg show ?thesis by (simp add: normalizePathShape_def segments_def)
qed

text \<open>
  With the full depth, \<open>PathTokenPaths\<close> returns a path of plain segments followed by every
  proper ancestor, longest first, and nothing else.
\<close>

theorem PathTokenPaths_ancestors:
  assumes "list_all plain_seg ss" "ss \<noteq> []"
  shows "PathTokenPaths (CHR ''/'' # join_slash ss) PathTokenSelfAndAncestors
         = map (\<lambda>n. join_slash (take n ss)) (rev [1..<Suc (length ss)])"
proof -
  have nb: "CHR 0x5C \<notin> set (join_slash ss)"
    using assms(1) by (induction ss rule: join_slash.induct) (auto simp: plain_seg_def)
  then have rep: "ReplaceChar (CHR 0x5C) (CHR ''/'') (join_slash ss) = join_slash ss"
    unfolding ReplaceChar_def by (intro map_idI) auto
  have "TrimLeft (CHR ''/'') (ReplaceChar (CHR 0x5C) (CHR ''/'') (CHR ''/'' # join_slash ss)) = join_slash ss"
    using hd_join_plain [OF assms(2,1)] rep
    by (cases "join_slash ss") (auto simp: TrimLeft_def ReplaceChar_def)
  moreover have "join_slash ss # parent_chain False (path_Dir (join_slash ss)) = parent_chain False (join_slash ss)"
    using not_dir_stop_join [OF assms(2,1)] by (subst (2) parent_chain.simps) simp
  ultimately show ?thesis
    using parent_chain_plain [OF assms] hd_join_plain [OF assms(2,1)]
    by (simp add: PathTokenPaths_def)
qed

section \<open>Witnesses\<close>

theorem UnsealDisplayName_SealDisplayName_witness:
  "case SealDisplayName plain_prims [1] [] (replicate 24 9) ''report.txt'' (Some zero_pub) of
     Inl e \<Rightarrow> pX25519 plain_prims [1] (pubX25519 zero_pub) = None \<or> pEncap plain_prims (pubKyber zero_pub) [] = None
   | Inr sealed \<Rightarrow> UnsealDisplayName plain_prims sealed (Some zero_priv) = Inr ''report.txt''"
  by (rule UnsealDisplayName_SealDisplayName) (simp_all add: plain_prims_ok size_defs)

theorem padDisplayName_bucket_witness:
  "\<exists>b \<in> set displayNamePadBuckets. length (padDisplayName [1, 2, 3]) = b \<and> length [1, 2, 3 :: byte] + 4 \<le> b \<and>
     (\<forall>b' \<in> set displayNamePadBuckets. length [1, 2, 3 :: byte] + 4 \<le> b' \<longrightarrow> b \<le> b')"
  by (rule padDisplayName_bucket) simp

theorem UnframeIndexBody_padded_witness:
  "UnframeIndexBody (\<lambda>_. None) (4 # be_put 4 (length [1, 9 :: byte]) @ [1, 9] @ [0, 0]) = UnframeIndexBody (\<lambda>_. None) [1, 9]"
  by (rule UnframeIndexBody_padded) simp_all

theorem PathTokenPaths_ancestors_witness:
  "PathTokenPaths (CHR ''/'' # join_slash [''a'', ''b'']) PathTokenSelfAndAncestors
     = map (\<lambda>n. join_slash (take n [''a'', ''b''])) (rev [1..<Suc (length [''a'', ''b''])])"
  by (rule PathTokenPaths_ancestors) (simp_all add: plain_seg_def)

end
