(* ===== verification/ParentRef.thy ===== *)
theory ParentRef
  imports HybridSeal
begin

text \<open>
  Sealed parent references, \<open>internal/crypto/parent_ref.go\<close>: a node's parent id, sealed to the
  owner under the parent key (bound to the node by associated data) or to another recipient in
  a hybrid envelope (bound to the node by carrying its id). An absent key or parent is \<open>None\<close>;
  the root is the all-zero id on the wire.
\<close>

datatype refError =
    ParentIdLength | NodeIdLength | RefAeadInit | RefTooShort | ParentKeyRequired | RefDecryptFailed
  | RefPayloadMalformed | PrivateKeyRequired | RefHybrid hybridError | BoundToAnotherNode | UnknownRefVersion

definition parentRefVersionOwn :: byte where "parentRefVersionOwn = 0x01"
definition parentRefVersionForeign :: byte where "parentRefVersionForeign = 0x02"
definition parentRefNonceSize :: nat where "parentRefNonceSize = 24"
definition parentRefIDSize :: nat where "parentRefIDSize = 16"

lemmas ref_defs = parentRefVersionOwn_def parentRefVersionForeign_def parentRefNonceSize_def parentRefIDSize_def

definition parentRefPayload :: "bytes \<Rightarrow> refError + bytes" where
  "parentRefPayload parentID =
     (if parentID = [] then Inr (replicate parentRefIDSize 0)
      else if length parentID \<noteq> parentRefIDSize then Inl ParentIdLength
      else Inr parentID)"

definition parentOrRoot :: "bytes \<Rightarrow> bytes option" where
  "parentOrRoot payload = (if payload = replicate parentRefIDSize 0 then None else Some payload)"

definition SealParentRef :: "prims \<Rightarrow> bytes \<Rightarrow> bytes \<Rightarrow> bytes \<Rightarrow> bytes \<Rightarrow> refError + bytes" where
  "SealParentRef P nonce parentID nodeID parentKey =
     (case parentRefPayload parentID of
        Inl e \<Rightarrow> Inl e
      | Inr payload \<Rightarrow>
          if length nodeID \<noteq> parentRefIDSize then Inl NodeIdLength
          else if \<not> newX_ok parentKey then Inl RefAeadInit
          else Inr (parentRefVersionOwn # nonce @ pSeal P parentKey nonce payload nodeID))"

definition SealParentRefForRecipient ::
  "prims \<Rightarrow> bytes \<Rightarrow> bytes \<Rightarrow> bytes \<Rightarrow> bytes \<Rightarrow> bytes \<Rightarrow> PublicKeySet option \<Rightarrow> refError + bytes" where
  "SealParentRefForRecipient P ephPriv coins nonce parentID nodeID recipient =
     (case parentRefPayload parentID of
        Inl e \<Rightarrow> Inl e
      | Inr payload \<Rightarrow>
          if length nodeID \<noteq> parentRefIDSize then Inl NodeIdLength
          else (case HybridSeal P ephPriv coins nonce (payload @ nodeID) recipient of
                  Inl e \<Rightarrow> Inl (RefHybrid e)
                | Inr sealed \<Rightarrow> Inr (parentRefVersionForeign # sealed)))"

definition OpenParentRef ::
  "prims \<Rightarrow> bytes \<Rightarrow> bytes \<Rightarrow> bytes option \<Rightarrow> PrivateKeySet option \<Rightarrow> refError + bytes option" where
  "OpenParentRef P blob nodeID parentKey priv =
     (if length blob < 2 then Inl RefTooShort
      else if length nodeID \<noteq> parentRefIDSize then Inl NodeIdLength
      else if hd blob = parentRefVersionOwn then
        (case parentKey of
           None \<Rightarrow> Inl ParentKeyRequired
         | Some key \<Rightarrow>
             if length blob < 1 + parentRefNonceSize + parentRefIDSize + Overhead then Inl RefTooShort
             else if \<not> newX_ok key then Inl RefAeadInit
             else
               let nonce = take parentRefNonceSize (drop 1 blob) in
               (case pOpen P key nonce (drop (1 + parentRefNonceSize) blob) nodeID of
                  None \<Rightarrow> Inl RefDecryptFailed
                | Some payload \<Rightarrow>
                    if length payload \<noteq> parentRefIDSize then Inl RefPayloadMalformed
                    else Inr (parentOrRoot payload)))
      else if hd blob = parentRefVersionForeign then
        (case priv of
           None \<Rightarrow> Inl PrivateKeyRequired
         | Some p \<Rightarrow>
             (case HybridUnseal P (drop 1 blob) (Some p) of
                Inl e \<Rightarrow> Inl (RefHybrid e)
              | Inr payload \<Rightarrow>
                  if length payload \<noteq> 2 * parentRefIDSize then Inl RefPayloadMalformed
                  else if drop parentRefIDSize payload \<noteq> nodeID then Inl BoundToAnotherNode
                  else Inr (parentOrRoot (take parentRefIDSize payload))))
      else Inl UnknownRefVersion)"

section \<open>Lemmas\<close>

text \<open>What a reference to a parent opens to: the root for an empty or all-zero id.\<close>

definition ref_target :: "bytes \<Rightarrow> bytes option" where
  "ref_target parentID = (if parentID = [] then None else parentOrRoot parentID)"

lemma parentRefPayload_ok:
  assumes "parentID = [] \<or> length parentID = parentRefIDSize"
  obtains payload where "parentRefPayload parentID = Inr payload"
    and "length payload = parentRefIDSize" and "parentOrRoot payload = ref_target parentID"
proof (rule that [of "if parentID = [] then replicate parentRefIDSize 0 else parentID"])
  show "parentRefPayload parentID = Inr (if parentID = [] then replicate parentRefIDSize 0 else parentID)"
    using assms by (auto simp: parentRefPayload_def)
qed (use assms in \<open>auto simp: ref_target_def parentOrRoot_def ref_defs\<close>)

section \<open>Properties\<close>

text \<open>
  An owner's parent reference opens, for the node it was sealed for, to the parent it names;
  an empty or all-zero parent id opens to the root.
\<close>

theorem OpenParentRef_SealParentRef:
  assumes "aead_ok P" "length parentKey = KeySize" "length nonce = NonceSize"
    and "length nodeID = parentRefIDSize" "parentID = [] \<or> length parentID = parentRefIDSize"
  shows "\<exists>blob. SealParentRef P nonce parentID nodeID parentKey = Inr blob \<and>
           OpenParentRef P blob nodeID (Some parentKey) priv = Inr (ref_target parentID)"
proof -
  obtain payload where p: "parentRefPayload parentID = Inr payload"
    "length payload = parentRefIDSize" "parentOrRoot payload = ref_target parentID"
    using parentRefPayload_ok [OF assms(5)] by blast
  have "length (pSeal P parentKey nonce payload nodeID) = parentRefIDSize + Overhead"
    and "pOpen P parentKey nonce (pSeal P parentKey nonce payload nodeID) nodeID = Some payload"
    using aead_length_seal [OF assms(1-3)] aead_open_seal [OF assms(1-3)] p(2) by simp_all
  then show ?thesis
    using p assms(2-4)
    by (simp add: SealParentRef_def OpenParentRef_def newX_ok_def ref_defs size_defs)
qed

text \<open>
  A reference sealed to another recipient opens only for the node it was sealed for: with the
  recipient's private key it yields the parent for that node and is refused for every other
  node id. Sealing itself fails only in a key agreement.
\<close>

theorem OpenParentRef_foreign_bound:
  assumes "aead_ok P" "dh_ok P" "hkdf_ok P" "key_pair P pub priv" "length nonce = NonceSize"
    and "length nodeID = parentRefIDSize" "length nodeID' = parentRefIDSize"
    and "parentID = [] \<or> length parentID = parentRefIDSize"
  shows "case SealParentRefForRecipient P ephPriv coins nonce parentID nodeID (Some pub) of
           Inl e \<Rightarrow> pX25519 P ephPriv (pubX25519 pub) = None \<or> pEncap P (pubKyber pub) coins = None
         | Inr blob \<Rightarrow> OpenParentRef P blob nodeID' parentKey (Some priv) =
             (if nodeID' = nodeID then Inr (ref_target parentID) else Inl BoundToAnotherNode)"
proof -
  obtain payload where p: "parentRefPayload parentID = Inr payload"
    "length payload = parentRefIDSize" "parentOrRoot payload = ref_target parentID"
    using parentRefPayload_ok [OF assms(8)] by blast
  note rt = hybrid_round_trip [OF assms(1-5), of ephPriv coins "payload @ nodeID"]
  show ?thesis
  proof (cases "HybridSeal P ephPriv coins nonce (payload @ nodeID) (Some pub)")
    case (Inl e)
    with rt p assms(6) show ?thesis by (simp add: SealParentRefForRecipient_def)
  next
    case (Inr sealed)
    with rt have un: "HybridUnseal P sealed (Some priv) = Inr (payload @ nodeID)" by simp
    have "sealed \<noteq> []"
    proof
      assume "sealed = []"
      with un show False by (auto simp: HybridUnseal_def size_defs split: if_splits)
    qed
    then have "\<not> length sealed < Suc 0" by (cases sealed) auto
    with Inr un p assms(6,7) show ?thesis
      by (auto simp: SealParentRefForRecipient_def OpenParentRef_def ref_defs)
  qed
qed

section \<open>Witnesses\<close>

theorem OpenParentRef_SealParentRef_witness:
  "\<exists>blob. SealParentRef plain_prims (replicate 24 1) (replicate 16 5) (replicate 16 6) (replicate 32 7) = Inr blob \<and>
     OpenParentRef plain_prims blob (replicate 16 6) (Some (replicate 32 7)) None = Inr (ref_target (replicate 16 5))"
  by (rule OpenParentRef_SealParentRef) (simp_all add: plain_prims_ok size_defs ref_defs)

theorem OpenParentRef_foreign_bound_witness:
  "case SealParentRefForRecipient plain_prims [1] [] (replicate 24 1) (replicate 16 5) (replicate 16 6) (Some zero_pub) of
     Inl e \<Rightarrow> pX25519 plain_prims [1] (pubX25519 zero_pub) = None \<or> pEncap plain_prims (pubKyber zero_pub) [] = None
   | Inr blob \<Rightarrow> OpenParentRef plain_prims blob (replicate 16 8) None (Some zero_priv) =
       (if replicate 16 8 = (replicate 16 6 :: bytes) then Inr (ref_target (replicate 16 5)) else Inl BoundToAnotherNode)"
  by (rule OpenParentRef_foreign_bound) (simp_all add: plain_prims_ok size_defs ref_defs)

end
