(* ===== verification/FileCrypt.thy ===== *)
theory FileCrypt
  imports HybridSeal
begin

text \<open>
  File encryption, \<open>internal/crypto/encrypt.go\<close> and \<open>internal/crypto/decrypt.go\<close>: the
  plaintext in 1 MiB chunks, each sealed under a counter nonce with its index as associated
  data and written as a length-prefixed record; metadata bound by an HMAC over a canonical
  text. Reading and writing files is modelled by the byte string read or written, so the
  errors of the file system are left out; every error of the format is a value.
\<close>

section \<open>Texts\<close>

fun show_nat :: "nat \<Rightarrow> string" where
  "show_nat n = (if n < 10 then [hex_digit n] else show_nat (n div 10) @ [hex_digit (n mod 10)])"

declare show_nat.simps [simp del]

definition show_int :: "int \<Rightarrow> string" where
  "show_int i = (if i < 0 then CHR ''-'' # show_nat (nat (- i)) else show_nat (nat i))"

definition b64_char :: "nat \<Rightarrow> char" where
  "b64_char n = ''ABCDEFGHIJKLMNOPQRSTUVWXYZabcdefghijklmnopqrstuvwxyz0123456789+/'' ! (n mod 64)"

text \<open>\<open>base64.StdEncoding.EncodeToString\<close>.\<close>

fun b64_encode :: "bytes \<Rightarrow> string" where
  "b64_encode [] = []"
| "b64_encode [a] = [b64_char (unat a div 4), b64_char (unat a mod 4 * 16), CHR ''='', CHR ''='']"
| "b64_encode [a, b] =
     [b64_char (unat a div 4), b64_char (unat a mod 4 * 16 + unat b div 16),
      b64_char (unat b mod 16 * 4), CHR ''='']"
| "b64_encode (a # b # c # bs) =
     [b64_char (unat a div 4), b64_char (unat a mod 4 * 16 + unat b div 16),
      b64_char (unat b mod 16 * 4 + unat c div 64), b64_char (unat c mod 64)] @ b64_encode bs"

section \<open>Nonces\<close>

text \<open>The nonce counts up as a little-endian number.\<close>

fun incrementNonce :: "bytes \<Rightarrow> bytes" where
  "incrementNonce [] = []"
| "incrementNonce (b # bs) = (if b + 1 \<noteq> 0 then (b + 1) # bs else (b + 1) # incrementNonce bs)"

section \<open>Metadata\<close>

record EncryptionMetadata =
  mVersion :: int
  mNonce :: bytes
  mChunkSize :: int
  mChunks :: int
  mPlaintextSHA256 :: string
  mPlaintextSize :: int
  mMetadataMAC :: string

definition mac_text :: "EncryptionMetadata \<Rightarrow> string" where
  "mac_text m = ''['' @ show_int (mVersion m) @ '',\"'' @ b64_encode (mNonce m) @ ''\",'' @
     show_int (mChunkSize m) @ '','' @ show_int (mChunks m) @ '',\"'' @ mPlaintextSHA256 m @ ''\",'' @
     show_int (mPlaintextSize m) @ '']''"

definition ComputeMetadataMAC :: "prims \<Rightarrow> bytes \<Rightarrow> EncryptionMetadata \<Rightarrow> string" where
  "ComputeMetadataMAC P dataKey m = hex_encode (pHmac P dataKey (bytes_of_string (mac_text m)))"

text \<open>The metadata that travels: the plaintext hash is left out.\<close>

definition wire_meta :: "EncryptionMetadata \<Rightarrow> EncryptionMetadata" where
  "wire_meta m = m\<lparr>mPlaintextSHA256 := []\<rparr>"

datatype fileError =
    FileAead | ReadChunkLength | ChunkTooLong nat | ReadCiphertext | DecryptionFailed
  | HashMismatch | MacMissing | MacMismatch | BadSha256Hex

definition ChunkSize :: nat where "ChunkSize = 1024 * 1024"
definition maxChunkLen :: nat where "maxChunkLen = ChunkSize + Overhead + 1024"

section \<open>Encryption\<close>

text \<open>The read loop of \<open>EncryptFile\<close>: a record per non-empty read of at most \<open>ChunkSize\<close>
  bytes. It returns the bytes written.\<close>

function encrypt_loop :: "prims \<Rightarrow> bytes \<Rightarrow> bytes \<Rightarrow> nat \<Rightarrow> bytes \<Rightarrow> bytes" where
  "encrypt_loop P key nonce chunks input =
     (if input = [] then []
      else let chunk = take ChunkSize input;
               ciphertext = pSeal P key nonce chunk (be_put 4 chunks)
           in be_put 4 (length ciphertext) @ ciphertext @
              encrypt_loop P key (incrementNonce nonce) (Suc chunks) (drop ChunkSize input))"
  by pat_completeness auto
termination
  by (relation "measure (\<lambda>(P, key, nonce, chunks, input). length input)") (auto simp: ChunkSize_def)

declare encrypt_loop.simps [simp del]

definition chunk_count :: "nat \<Rightarrow> nat" where
  "chunk_count n = (n + ChunkSize - 1) div ChunkSize"

definition EncryptFile ::
  "prims \<Rightarrow> bytes \<Rightarrow> bytes \<Rightarrow> bytes \<Rightarrow> fileError + EncryptionMetadata \<times> bytes" where
  "EncryptFile P nonce input dataKey =
     (if \<not> newX_ok dataKey then Inl FileAead
      else
        let ct = encrypt_loop P dataKey nonce 0 input;
            meta = \<lparr>mVersion = 2, mNonce = nonce, mChunkSize = int ChunkSize,
                    mChunks = int (chunk_count (length input)),
                    mPlaintextSHA256 = hex_encode (pSha256 P input),
                    mPlaintextSize = int (length input), mMetadataMAC = []\<rparr>
        in Inr (meta\<lparr>mMetadataMAC := ComputeMetadataMAC P dataKey meta\<rparr>, ct))"

section \<open>Decryption\<close>

definition open_chunk :: "prims \<Rightarrow> bytes \<Rightarrow> EncryptionMetadata \<Rightarrow> bytes \<Rightarrow> nat \<Rightarrow> bytes \<Rightarrow> bytes option" where
  "open_chunk P key m nonce chunkIndex ciphertext =
     (case pOpen P key nonce ciphertext (be_put 4 chunkIndex) of
        Some plaintext \<Rightarrow> Some plaintext
      | None \<Rightarrow> if mVersion m \<ge> 2 then None else pOpen P key nonce ciphertext [])"

text \<open>The read loop shared by \<open>DecryptFile\<close> and \<open>decryptReader\<close>: what was recovered, and the
  error that stopped it, if any.\<close>

function decrypt_loop ::
  "prims \<Rightarrow> bytes \<Rightarrow> EncryptionMetadata \<Rightarrow> bytes \<Rightarrow> nat \<Rightarrow> bytes \<Rightarrow> bytes \<times> fileError option" where
  "decrypt_loop P key m nonce chunkIndex input =
     (if input = [] then ([], None)
      else if length input < 4 then ([], Some ReadChunkLength)
      else
        let chunkLen = be_uint (take 4 input); rest = drop 4 input in
        if chunkLen > maxChunkLen then ([], Some (ChunkTooLong chunkLen))
        else if length rest < chunkLen then ([], Some ReadCiphertext)
        else case open_chunk P key m nonce chunkIndex (take chunkLen rest) of
               None \<Rightarrow> ([], Some DecryptionFailed)
             | Some plaintext \<Rightarrow>
                 (let (more, e) = decrypt_loop P key m (incrementNonce nonce) (Suc chunkIndex) (drop chunkLen rest)
                  in (plaintext @ more, e)))"
  by pat_completeness auto
termination
  by (relation "measure (\<lambda>(P, key, m, nonce, i, input). length input)") auto

declare decrypt_loop.simps [simp del]

definition verifyMetadataMACWithRecoveredHash ::
  "prims \<Rightarrow> bytes \<Rightarrow> EncryptionMetadata \<Rightarrow> string \<Rightarrow> fileError option" where
  "verifyMetadataMACWithRecoveredHash P dataKey m recoveredHash =
     (if mMetadataMAC m = [] then Some MacMissing
      else
        let metaCopy = (if mPlaintextSHA256 m = [] then m\<lparr>mPlaintextSHA256 := recoveredHash\<rparr> else m);
            expected = ComputeMetadataMAC P dataKey metaCopy
        in if mMetadataMAC m \<noteq> expected then Some MacMismatch else None)"

definition check_recovered :: "prims \<Rightarrow> bytes \<Rightarrow> EncryptionMetadata \<Rightarrow> bytes \<Rightarrow> fileError option" where
  "check_recovered P dataKey m plaintext =
     (let recoveredHash = hex_encode (pSha256 P plaintext) in
      if mPlaintextSHA256 m \<noteq> [] \<and> recoveredHash \<noteq> mPlaintextSHA256 m then Some HashMismatch
      else verifyMetadataMACWithRecoveredHash P dataKey m recoveredHash)"

definition copy_nonce :: "bytes \<Rightarrow> bytes" where
  "copy_nonce n = take NonceSize (n @ replicate NonceSize 0)"

definition decryptReader :: "prims \<Rightarrow> bytes \<Rightarrow> bytes \<Rightarrow> EncryptionMetadata \<Rightarrow> fileError + bytes" where
  "decryptReader P input dataKey m =
     (if \<not> newX_ok dataKey then Inl FileAead
      else case decrypt_loop P dataKey m (copy_nonce (mNonce m)) 0 input of
             (result, Some e) \<Rightarrow> Inl e
           | (result, None) \<Rightarrow>
               (case check_recovered P dataKey m result of
                  Some e \<Rightarrow> Inl e
                | None \<Rightarrow> Inr result))"

text \<open>\<open>DecryptFile\<close> writes each chunk as it is opened: the first component is what the ct
  file holds afterwards, on success and on failure.\<close>

definition DecryptFile ::
  "prims \<Rightarrow> bytes \<Rightarrow> bytes \<Rightarrow> EncryptionMetadata \<Rightarrow> bytes \<times> fileError option" where
  "DecryptFile P input dataKey m =
     (if \<not> newX_ok dataKey then ([], Some FileAead)
      else case decrypt_loop P dataKey m (copy_nonce (mNonce m)) 0 input of
             (ct, Some e) \<Rightarrow> (ct, Some e)
           | (ct, None) \<Rightarrow> (ct, check_recovered P dataKey m ct))"

definition ComputePlaintextHmac :: "prims \<Rightarrow> string \<Rightarrow> bytes \<Rightarrow> fileError + string" where
  "ComputePlaintextHmac P plaintextSHA256Hex nameKey =
     (case hex_decode plaintextSHA256Hex of
        None \<Rightarrow> Inl BadSha256Hex
      | Some hashBytes \<Rightarrow> Inr (hex_encode (pHmac P nameKey hashBytes)))"

section \<open>Lemmas\<close>

lemma length_incrementNonce [simp]: "length (incrementNonce n) = length n"
  by (induction n) auto

lemma le_uint_Cons [simp]: "le_uint (b # bs) = unat b + 256 * le_uint bs"
  by (simp add: le_uint_def)

lemma le_uint_Nil [simp]: "le_uint [] = 0"
  by (simp add: le_uint_def)

lemma le_uint_bound: "le_uint bs < 256 ^ length bs"
  using be_uint_bound [of "rev bs"] by (simp add: le_uint_def)

lemma unat_succ_byte: "(b :: byte) + 1 \<noteq> 0 \<Longrightarrow> unat (b + 1) = unat b + 1"
  using unatSuc [of b] by (simp add: add.commute)

lemma unat_wrap_byte: "(b :: byte) + 1 = 0 \<Longrightarrow> unat b = 255"
proof -
  assume "b + 1 = 0"
  then have "(unat b + 1) mod 256 = 0"
    using unat_word_ariths(1) [of b 1] by simp
  then show ?thesis using unat_byte_bound [of b] by presburger
qed

lemma le_uint_incrementNonce: "le_uint (incrementNonce n) = (le_uint n + 1) mod 256 ^ length n"
proof (induction n)
  case (Cons b bs)
  have lt: "unat b + 256 * le_uint bs < 256 * 256 ^ length bs"
    using le_uint_bound [of "b # bs"] by simp
  show ?case
  proof (cases "b + 1 = 0")
    case False
    have "unat (b + 1) < 256" by simp
    then have "unat b + 1 + 256 * le_uint bs < 256 * 256 ^ length bs"
      using le_uint_bound [of bs] unat_succ_byte [OF False] by linarith
    then show ?thesis using False unat_succ_byte [OF False] by simp
  next
    case True
    have "256 * ((le_uint bs + 1) mod 256 ^ length bs) = (256 * (le_uint bs + 1)) mod (256 * 256 ^ length bs)"
      by (simp add: mult_mod_right)
    then show ?thesis using True Cons unat_wrap_byte [OF True] by (simp add: algebra_simps)
  qed
qed simp

lemma mod_add_lcancel: "(a + i) mod m = (a + j) mod m \<longleftrightarrow> i mod m = j mod (m :: nat)"
proof -
  have "(int a + int i) mod int m = (int a + int j) mod int m \<longleftrightarrow> int i mod int m = int j mod int m"
    by (simp add: mod_eq_dvd_iff)
  then show ?thesis by (metis of_nat_add of_nat_mod of_nat_eq_iff)
qed

lemma le_uint_iterate: "le_uint ((incrementNonce ^^ k) n) = (le_uint n + k) mod 256 ^ length n"
proof (induction k)
  case 0
  then show ?case using le_uint_bound [of n] by simp
next
  case (Suc k)
  have "length ((incrementNonce ^^ k) n) = length n" by (induction k) simp_all
  then show ?case using Suc by (simp add: le_uint_incrementNonce mod_Suc_eq)
qed

lemma length_chunk_ct:
  assumes "aead_ok P" "length key = KeySize" "length nonce = NonceSize"
  shows "length (pSeal P key nonce (take ChunkSize input) ad) \<le> maxChunkLen"
    and "length (pSeal P key nonce (take ChunkSize input) ad) < 256 ^ 4"
  using aead_length_seal [OF assms] by (simp_all add: maxChunkLen_def ChunkSize_def Overhead_def min_def)

lemma decrypt_encrypt_loop:
  assumes "aead_ok P" "length key = KeySize"
  shows "length nonce = NonceSize \<Longrightarrow> decrypt_loop P key m nonce i (encrypt_loop P key nonce i input) = (input, None)"
  using assms
proof (induction P key nonce i input rule: encrypt_loop.induct)
  case (1 P key nonce i input)
  show ?case
  proof (cases "input = []")
    case True
    then show ?thesis by (simp add: encrypt_loop.simps [of P key nonce i "[]"] decrypt_loop.simps [of P key m nonce i "[]"])
  next
    case False
    let ?ct = "pSeal P key nonce (take ChunkSize input) (be_put 4 i)"
    let ?rest = "encrypt_loop P key (incrementNonce nonce) (Suc i) (drop ChunkSize input)"
    note n = "1.prems"(1) and ok = "1.prems"(2,3)
    have IH: "decrypt_loop P key m (incrementNonce nonce) (Suc i) ?rest = (drop ChunkSize input, None)"
      using "1.IH" [OF False refl refl] n ok by simp
    have len: "be_uint (be_put 4 (length ?ct)) = length ?ct"
      using length_chunk_ct(2) [OF ok n] by (rule be_uint_put_small)
    have op: "open_chunk P key m nonce i ?ct = Some (take ChunkSize input)"
      using aead_open_seal [OF ok n] by (simp add: open_chunk_def)
    have enc: "encrypt_loop P key nonce i input = be_put 4 (length ?ct) @ ?ct @ ?rest"
      using False by (simp add: encrypt_loop.simps [of P key nonce i input] Let_def)
    have ne: "be_put 4 (length ?ct) @ ?ct @ ?rest \<noteq> []"
      by simp
    show ?thesis
      unfolding enc using ne len op IH length_chunk_ct(1) [OF ok n, of input "be_put 4 i"]
      by (subst decrypt_loop.simps) (simp add: Let_def)
  qed
qed

lemma copy_nonce_id: "length n = NonceSize \<Longrightarrow> copy_nonce n = n"
  by (simp add: copy_nonce_def)

lemma hex_encode_inj: "hex_encode a = hex_encode b \<Longrightarrow> a = b"
  by (metis hex_decode_encode option.inject)

lemma bytes_of_string_inj: "bytes_of_string a = bytes_of_string b \<Longrightarrow> a = b"
  by (metis string_of_bytes_of_string)

lemma EncryptFile_Inr:
  assumes "EncryptFile P nonce input key = Inr (meta, ct)"
  shows "length key = KeySize" and "ct = encrypt_loop P key nonce 0 input"
    and "mNonce meta = nonce" and "mPlaintextSHA256 meta = hex_encode (pSha256 P input)"
    and "mMetadataMAC meta = ComputeMetadataMAC P key (meta\<lparr>mMetadataMAC := []\<rparr>)"
    and "mVersion meta = 2"
  using assms by (auto simp: EncryptFile_def newX_ok_def Let_def split: if_splits)

lemma mac_text_update_mac [simp]: "mac_text (m\<lparr>mMetadataMAC := x\<rparr>) = mac_text m"
  by (simp add: mac_text_def)

lemma mac_text_same_hash: "mPlaintextSHA256 m = h \<Longrightarrow> mac_text (m\<lparr>mPlaintextSHA256 := h\<rparr>) = mac_text m"
  by (simp add: mac_text_def)

text \<open>What was encrypted opens.\<close>

lemma encrypted_opens:
  assumes ok: "aead_ok P" and n: "length nonce = NonceSize" and k: "length key = KeySize"
    and mac: "\<And>m. pHmac P key m \<noteq> []"
  shows "\<exists>meta ct. EncryptFile P nonce input key = Inr (meta, ct) \<and>
           decryptReader P ct key meta = Inr input \<and>
           decryptReader P ct key (wire_meta meta) = Inr input \<and>
           DecryptFile P ct key (wire_meta meta) = (input, None)"
proof -
  obtain meta ct where e: "EncryptFile P nonce input key = Inr (meta, ct)"
    using k by (auto simp: EncryptFile_def newX_ok_def Let_def)
  note f = EncryptFile_Inr [OF e]
  have loop: "decrypt_loop P key m nonce 0 ct = (input, None)" for m
    using decrypt_encrypt_loop [OF ok k n] f(2) by simp
  have ne: "mMetadataMAC meta \<noteq> []"
  proof
    assume "mMetadataMAC meta = []"
    then have "length (hex_encode (pHmac P key (bytes_of_string (mac_text (meta\<lparr>mMetadataMAC := []\<rparr>))))) = 0"
      using f(5) by (simp add: ComputeMetadataMAC_def)
    then show False using mac by simp
  qed
  have wire: "(wire_meta meta)\<lparr>mPlaintextSHA256 := hex_encode (pSha256 P input)\<rparr> = meta"
    using f(4) by (simp add: wire_meta_def)
  have c: "check_recovered P key meta input = None" "check_recovered P key (wire_meta meta) input = None"
    using f(4,5) ne wire
    by (auto simp: check_recovered_def verifyMetadataMACWithRecoveredHash_def wire_meta_def
        ComputeMetadataMAC_def Let_def mac_text_same_hash)
  have w: "mNonce (wire_meta meta) = nonce" using f(3) by (simp add: wire_meta_def)
  show ?thesis
    using e k f(3) w loop c n
    by (intro exI [of _ meta] exI [of _ ct])
       (simp add: decryptReader_def DecryptFile_def newX_ok_def copy_nonce_id)
qed

section \<open>Properties\<close>

text \<open>
  A file decrypts to what was encrypted, whatever its length: with the full metadata and with
  the metadata that travels (without the plaintext hash), from memory and to a file.
\<close>

theorem decryptReader_EncryptFile:
  assumes ok: "aead_ok P" and n: "length nonce = NonceSize" and k: "length key = KeySize"
    and mac: "\<And>m. pHmac P key m \<noteq> []"
  shows "\<exists>meta ct. EncryptFile P nonce input key = Inr (meta, ct) \<and>
           decryptReader P ct key meta = Inr input \<and>
           decryptReader P ct key (wire_meta meta) = Inr input \<and>
           DecryptFile P ct key (wire_meta meta) = (input, None)"
  using assms by (rule encrypted_opens)

text \<open>
  C33: whatever ciphertext is presented, a plaintext accepted under the metadata of an encryption
  is the plaintext that was encrypted, unless HMAC or SHA-256 collides on the two. Truncated,
  reordered and replaced chunks are covered: the input is arbitrary.
\<close>

theorem decryptReader_authentic:
  assumes e: "EncryptFile P nonce input key = Inr (meta, ct)"
    and acc: "decryptReader P tampered key (wire_meta meta) = Inr input'"
    and hmac: "pHmac P key (bytes_of_string (mac_text (meta\<lparr>mPlaintextSHA256 := hex_encode (pSha256 P input')\<rparr>)))
                 = pHmac P key (bytes_of_string (mac_text meta)) \<Longrightarrow>
               mac_text (meta\<lparr>mPlaintextSHA256 := hex_encode (pSha256 P input')\<rparr>) = mac_text meta"
    and sha: "pSha256 P input' = pSha256 P input \<Longrightarrow> input' = input"
  shows "input' = input"
proof -
  let ?m = "meta\<lparr>mPlaintextSHA256 := hex_encode (pSha256 P input')\<rparr>"
  have chk: "check_recovered P key (wire_meta meta) input' = None"
    using acc by (auto simp: decryptReader_def split: if_splits prod.splits option.splits)
  then have "ComputeMetadataMAC P key ?m = mMetadataMAC meta"
    by (auto simp: check_recovered_def verifyMetadataMACWithRecoveredHash_def wire_meta_def Let_def
             split: if_splits)
  then have "hex_encode (pHmac P key (bytes_of_string (mac_text ?m)))
      = hex_encode (pHmac P key (bytes_of_string (mac_text meta)))"
    using EncryptFile_Inr(5) [OF e] by (simp add: ComputeMetadataMAC_def)
  then have "mac_text ?m = mac_text meta" by (intro hmac hex_encode_inj)
  then have "hex_encode (pSha256 P input') = mPlaintextSHA256 meta" by (simp add: mac_text_def)
  then have "pSha256 P input' = pSha256 P input"
    using EncryptFile_Inr(4) [OF e] hex_encode_inj by metis
  then show ?thesis by (rule sha)
qed

text \<open>
  No two chunks of a file share a nonce: the nonces of chunks \<open>i\<close> and \<open>j\<close> are equal only
  if \<open>i\<close> and \<open>j\<close> are equal modulo \<open>2\<^sup>1\<^sup>9\<^sup>2\<close>.
\<close>

theorem incrementNonce_distinct:
  assumes "length n = NonceSize"
  shows "(incrementNonce ^^ i) n = (incrementNonce ^^ j) n \<longleftrightarrow> i mod 2 ^ 192 = j mod 2 ^ 192"
proof -
  have len: "length ((incrementNonce ^^ k) n) = NonceSize" for k
    using assms by (induction k) simp_all
  have inj: "le_uint a = le_uint b \<Longrightarrow> length a = length b \<Longrightarrow> a = b" for a b
  proof (induction a arbitrary: b)
    case (Cons x xs)
    then obtain y ys where b: "b = y # ys" by (cases b) auto
    with Cons.prems have eq: "unat x + 256 * le_uint xs = unat y + 256 * le_uint ys" by simp
    then have "(unat x + 256 * le_uint xs) mod 256 = (unat y + 256 * le_uint ys) mod 256" by simp
    then have "unat x = unat y" by simp
    with eq Cons b show ?case by (auto dest: word_unat_eq_iff [THEN iffD2])
  qed simp
  have pow: "(256 :: nat) ^ NonceSize = 2 ^ 192"
    by (simp add: NonceSize_def)
  have "(incrementNonce ^^ i) n = (incrementNonce ^^ j) n \<longleftrightarrow>
        le_uint ((incrementNonce ^^ i) n) = le_uint ((incrementNonce ^^ j) n)"
    using inj len by metis
  also have "\<dots> \<longleftrightarrow> (le_uint n + i) mod 2 ^ 192 = (le_uint n + j) mod 2 ^ 192"
    unfolding le_uint_iterate assms pow by (rule refl)
  also have "\<dots> \<longleftrightarrow> i mod 2 ^ 192 = j mod 2 ^ 192"
    by (rule mod_add_lcancel)
  finally show ?thesis .
qed

section \<open>Witnesses\<close>

lemma plain_prims_hmac: "pHmac plain_prims k m \<noteq> []"
  by (simp add: plain_prims_def)

theorem decryptReader_EncryptFile_witness:
  "\<exists>meta ct. EncryptFile plain_prims (replicate 24 0) [1, 2, 3] (replicate 32 0) = Inr (meta, ct) \<and>
     decryptReader plain_prims ct (replicate 32 0) meta = Inr [1, 2, 3] \<and>
     decryptReader plain_prims ct (replicate 32 0) (wire_meta meta) = Inr [1, 2, 3] \<and>
     DecryptFile plain_prims ct (replicate 32 0) (wire_meta meta) = ([1, 2, 3], None)"
  by (rule decryptReader_EncryptFile) (simp_all add: plain_prims_ok plain_prims_hmac size_defs)

text \<open>A tampered file and what is accepted for it: here the original chunk, which is accepted.\<close>

definition sample_file :: "EncryptionMetadata \<times> bytes" where
  "sample_file = projr (EncryptFile plain_prims (replicate 24 0) [1, 2, 3] (replicate 32 0))"

lemma sample_file_encrypted:
  "EncryptFile plain_prims (replicate 24 0) [1, 2, 3] (replicate 32 0) = Inr (fst sample_file, snd sample_file)"
  by (simp add: sample_file_def EncryptFile_def newX_ok_def size_defs Let_def)

lemma sample_file_accepted:
  "decryptReader plain_prims (snd sample_file) (replicate 32 0) (wire_meta (fst sample_file)) = Inr [1, 2, 3]"
proof -
  let ?meta = "fst sample_file"
  have loop: "decrypt_loop plain_prims (replicate 32 0) (wire_meta ?meta) (replicate 24 0) 0 (snd sample_file) = ([1, 2, 3], None)"
    using decrypt_encrypt_loop [OF plain_prims_ok(1), of "replicate 32 0" "replicate 24 0"]
      EncryptFile_Inr(2) [OF sample_file_encrypted] by (simp add: size_defs)
  note f = EncryptFile_Inr [OF sample_file_encrypted]
  have "check_recovered plain_prims (replicate 32 0) (wire_meta ?meta) [1, 2, 3] = None"
  proof -
    have "(wire_meta ?meta)\<lparr>mPlaintextSHA256 := hex_encode (pSha256 plain_prims [1, 2, 3])\<rparr> = ?meta"
      using f(4) by (simp add: wire_meta_def)
    moreover have "mMetadataMAC ?meta \<noteq> []"
      using f(5) plain_prims_hmac length_hex_encode
      by (metis ComputeMetadataMAC_def length_0_conv mult_eq_0_iff zero_neq_numeral)
    ultimately show ?thesis
      using f(5) by (auto simp: check_recovered_def verifyMetadataMACWithRecoveredHash_def wire_meta_def
          ComputeMetadataMAC_def Let_def mac_text_same_hash)
  qed
  moreover have "copy_nonce (mNonce (wire_meta ?meta)) = replicate 24 0"
    using f(3) by (simp add: wire_meta_def copy_nonce_def NonceSize_def)
  ultimately show ?thesis using loop by (simp add: decryptReader_def newX_ok_def KeySize_def)
qed

theorem decryptReader_authentic_witness:
  "EncryptFile plain_prims (replicate 24 0) [1, 2, 3] (replicate 32 0) = Inr (fst sample_file, snd sample_file) \<and>
   decryptReader plain_prims (snd sample_file) (replicate 32 0) (wire_meta (fst sample_file)) = Inr [1, 2, 3] \<and>
   [1, 2, 3 :: byte] = [1, 2, 3]"
proof (intro conjI)
  show "[1, 2, 3 :: byte] = [1, 2, 3]"
  proof (rule decryptReader_authentic [OF sample_file_encrypted sample_file_accepted])
    show "mac_text (fst sample_file\<lparr>mPlaintextSHA256 := hex_encode (pSha256 plain_prims [1, 2, 3])\<rparr>) = mac_text (fst sample_file)"
      using EncryptFile_Inr(4) [OF sample_file_encrypted] by (simp add: mac_text_def)
  qed simp
qed (rule sample_file_encrypted sample_file_accepted)+

theorem incrementNonce_distinct_witness:
  "(incrementNonce ^^ 3) (replicate 24 255) = (incrementNonce ^^ 4) (replicate 24 255) \<longleftrightarrow>
     (3 :: nat) mod 2 ^ 192 = 4 mod 2 ^ 192"
  by (rule incrementNonce_distinct) (simp add: NonceSize_def)

end
