(* ===== verification/CacheDB.thy ===== *)
theory CacheDB
  imports Prelude "HOL-Library.Char_ord" "HOL-Library.List_Lexorder" "HOL-Library.Product_Lexorder"
begin

text \<open>
  The mount's metadata database: \<open>internal/mount/cache/db.go\<close>, \<open>local_content.go\<close>,
  \<open>retry.go\<close> and \<open>failures.go\<close>. Three tables (\<open>inodes\<close>, \<open>writeback_queue\<close>,
  \<open>sync_failures\<close>) are lists of rows in row order, and every method is the statement it
  executes, translated column by column.

  The SQL engine is another module. That a statement is atomic, and may fail without effect,
  is modelled by the field \<open>sqlFails\<close>, which says for every method whether its statement
  fails; all error branches of the callers are reachable through it. The clock and the random
  idempotency key are arguments. The JSON text of a queue entry's extra data is kept as the
  object it encodes.
\<close>

section \<open>Rows\<close>

datatype SyncStatus =
  StatusSynced | StatusPending | StatusRejected | StatusFailed | StatusConflict | StatusOffline

record Inode =
  iID :: int
  iRemotePath :: string
  iDisplayName :: string
  iIsDir :: bool
  iSize :: int
  iMtime :: int
  iCached :: bool
  iDirty :: bool
  iPinned :: bool
  iLastAccess :: int
  iContentHash :: string
  iLocalHash :: string
  iLocalMtime :: int
  iSealedKey :: string
  iEncMeta :: string
  iEtag :: string
  iParentID :: int
  iSyncStatus :: SyncStatus
  iStatusReason :: string

text \<open>Go's zero value of the struct, from which the composite literals of the callers start;
  they all set the status.\<close>

definition zero_inode :: Inode where
  "zero_inode = \<lparr>iID = 0, iRemotePath = [], iDisplayName = [], iIsDir = False, iSize = 0, iMtime = 0,
     iCached = False, iDirty = False, iPinned = False, iLastAccess = 0, iContentHash = [],
     iLocalHash = [], iLocalMtime = 0, iSealedKey = [], iEncMeta = [], iEtag = [], iParentID = 0,
     iSyncStatus = StatusSynced, iStatusReason = []\<rparr>"

text \<open>A row has two columns that no \<open>Inode\<close> carries.\<close>

record inode_row = Inode +
  iBaselineHash :: string
  iLocalRemoteEtag :: string

definition scanInodeRow :: "inode_row \<Rightarrow> Inode" where
  "scanInodeRow r = Inode.truncate r"

datatype FailureKind = FailureDownload | FailureUpload

record SyncFailure =
  fInodeID :: int
  fKind :: FailureKind
  fPermanent :: bool
  fAttempts :: int
  fNextRetryAt :: int
  fLastError :: string

datatype wb_action = Upload | Mkdir | Delete | Rename | UnknownAction string
datatype wb_status = WbPending | WbInProgress | WbFailed

text \<open>The extra JSON: the empty string, an object (absent members are empty strings), or text
  that does not decode.\<close>

datatype extra = ExtraEmpty | ExtraObject (idempotency_key: string) (extra_target: string) | ExtraBad

record WritebackEntry =
  wID :: int
  wInodeID :: int
  wAction :: wb_action
  wRemotePath :: string
  wExtraJSON :: extra
  wEnqueuedAt :: int
  wAttempts :: int
  wLastError :: string
  wStatus :: wb_status

datatype dbError = SqlError | NoRows | ErrReadOnlyMount

datatype dbop =
    OpGetInode | OpGetInodeByPath | OpListChildren | OpUpsertInode | OpDeleteInode | OpDeleteChildren
  | OpMarkDirty | OpMarkSynced | OpMarkCached | OpSetInodeSize | OpSetLocalContent | OpInvalidateCache
  | OpTouchAccess | OpSetSyncStatus | OpSetPinned | OpListPinned | OpListIssues | OpInodesWithFailures
  | OpCountByStatus | OpEnqueueDelete | OpEnqueueInsert | OpDequeueWriteback | OpHasActiveWriteback
  | OpRequeueInProgress | OpUpdateWriteback | OpDeferWriteback | OpDeferredCount | OpDeleteWriteback
  | OpPendingCount | OpFailedCount | OpFailedDownloadCount | OpDeleteWritebackByInode
  | OpDeleteFailedUpload | OpDeleteFailedWritebacks | OpGetSyncFailure | OpRecordSyncFailure
  | OpClearSyncFailure | OpDeleteSyncFailures | OpEvictableSize | OpTotalSize | OpCountCachedByHash
  | OpAllCachedHashes | OpLRU | OpAllInodes | OpSelectRejected | OpDeleteRejected | OpLocalContentState
  | OpMarkLocalConflict | OpSetRemoteVersion | OpSetLocalContentForVersion

record db =
  inodes :: "inode_row list"
  nextInode :: int
  wbqueue :: "WritebackEntry list"
  nextWb :: int
  failures :: "SyncFailure list"
  writebackDisabled :: bool
  sqlFails :: "dbop \<Rightarrow> bool"

text \<open>A query and a statement: either fails without effect or runs.\<close>

definition query :: "dbop \<Rightarrow> db \<Rightarrow> 'a \<Rightarrow> dbError + 'a" where
  "query stmt d v = (if sqlFails d stmt then Inl SqlError else Inr v)"

definition exec :: "dbop \<Rightarrow> (db \<Rightarrow> db) \<Rightarrow> db \<Rightarrow> dbError option \<times> db" where
  "exec stmt f d = (if sqlFails d stmt then (Some SqlError, d) else (None, f d))"

definition upd_inodes :: "(inode_row \<Rightarrow> bool) \<Rightarrow> (inode_row \<Rightarrow> inode_row) \<Rightarrow> db \<Rightarrow> db" where
  "upd_inodes P f d = d\<lparr>inodes := sql_update P f (inodes d)\<rparr>"

definition upd_queue :: "(WritebackEntry \<Rightarrow> bool) \<Rightarrow> (WritebackEntry \<Rightarrow> WritebackEntry) \<Rightarrow> db \<Rightarrow> db" where
  "upd_queue P f d = d\<lparr>wbqueue := sql_update P f (wbqueue d)\<rparr>"

section \<open>Inodes\<close>

definition SetWritebackDisabled :: "bool \<Rightarrow> db \<Rightarrow> db" where
  "SetWritebackDisabled v d = d\<lparr>writebackDisabled := v\<rparr>"

definition WritebackDisabled :: "db \<Rightarrow> bool" where
  "WritebackDisabled d = writebackDisabled d"

definition first_row :: "dbop \<Rightarrow> (inode_row \<Rightarrow> bool) \<Rightarrow> db \<Rightarrow> dbError + Inode" where
  "first_row stmt P d =
     (if sqlFails d stmt then Inl SqlError
      else case find P (inodes d) of None \<Rightarrow> Inl NoRows | Some r \<Rightarrow> Inr (scanInodeRow r))"

definition GetInode :: "int \<Rightarrow> db \<Rightarrow> dbError + Inode" where
  "GetInode i d = first_row OpGetInode (\<lambda>r. iID r = i) d"

definition GetInodeByPath :: "string \<Rightarrow> db \<Rightarrow> dbError + Inode" where
  "GetInodeByPath p d = first_row OpGetInodeByPath (\<lambda>r. iRemotePath r = p) d"

definition collectInodes :: "inode_row list \<Rightarrow> Inode list" where
  "collectInodes rows = map scanInodeRow rows"

definition ListChildren :: "int \<Rightarrow> db \<Rightarrow> dbError + Inode list" where
  "ListChildren parentID d = query OpListChildren d (collectInodes
     (sort_key (\<lambda>r. (\<not> iIsDir r, iDisplayName r)) (filter (\<lambda>r. iParentID r = parentID) (inodes d))))"

text \<open>\<open>INSERT \<dots> ON CONFLICT(remote_path) DO UPDATE\<close>: the columns of a fresh row, and the
  update of the row that is there.\<close>

definition fresh_row :: "int \<Rightarrow> Inode \<Rightarrow> inode_row" where
  "fresh_row i x = Inode.extend (x\<lparr>iID := i\<rparr>) (inode_row.fields [] [])"

definition conflict_row :: "Inode \<Rightarrow> inode_row \<Rightarrow> inode_row" where
  "conflict_row x r = r\<lparr>
     iDisplayName := iDisplayName x, iIsDir := iIsDir x, iSize := iSize x, iMtime := iMtime x,
     iCached := iCached x,
     iDirty := (iDirty r \<or> iDirty x),
     iContentHash := iContentHash x,
     iLocalHash := (if iLocalHash x = [] then iLocalHash r else iLocalHash x),
     iLocalMtime := (if iLocalMtime x = 0 then iLocalMtime r else iLocalMtime x),
     iSealedKey := iSealedKey x, iEncMeta := iEncMeta x,
     iEtag := (if iEtag x = [] then iEtag r else iEtag x),
     iParentID := iParentID x, iSyncStatus := iSyncStatus x, iStatusReason := iStatusReason x\<rparr>"

definition UpsertInode :: "Inode \<Rightarrow> db \<Rightarrow> (dbError + int) \<times> db" where
  "UpsertInode x d =
     (if sqlFails d OpUpsertInode then (Inl SqlError, d)
      else case find (\<lambda>r. iRemotePath r = iRemotePath x) (inodes d) of
             Some r \<Rightarrow> (Inr (iID r), upd_inodes (\<lambda>r. iRemotePath r = iRemotePath x) (conflict_row x) d)
           | None \<Rightarrow> (Inr (nextInode d),
                      d\<lparr>inodes := inodes d @ [fresh_row (nextInode d) x], nextInode := nextInode d + 1\<rparr>))"

definition DeleteInode :: "string \<Rightarrow> db \<Rightarrow> dbError option \<times> db" where
  "DeleteInode p = exec OpDeleteInode (\<lambda>d. d\<lparr>inodes := sql_delete (\<lambda>r. iRemotePath r = p) (inodes d)\<rparr>)"

definition DeleteChildren :: "int \<Rightarrow> db \<Rightarrow> dbError option \<times> db" where
  "DeleteChildren parentID =
     exec OpDeleteChildren (\<lambda>d. d\<lparr>inodes := sql_delete (\<lambda>r. iParentID r = parentID) (inodes d)\<rparr>)"

definition MarkDirty :: "int \<Rightarrow> db \<Rightarrow> dbError option \<times> db" where
  "MarkDirty i = exec OpMarkDirty
     (upd_inodes (\<lambda>r. iID r = i) (\<lambda>r. r\<lparr>iDirty := True, iSyncStatus := StatusPending\<rparr>))"

definition MarkSynced :: "int \<Rightarrow> string \<Rightarrow> db \<Rightarrow> dbError option \<times> db" where
  "MarkSynced i etag = exec OpMarkSynced
     (upd_inodes (\<lambda>r. iID r = i)
        (\<lambda>r. r\<lparr>iDirty := False, iSyncStatus := StatusSynced, iStatusReason := [], iEtag := etag\<rparr>))"

definition MarkCached :: "int \<Rightarrow> int \<Rightarrow> string \<Rightarrow> db \<Rightarrow> dbError option \<times> db" where
  "MarkCached now i contentHash = exec OpMarkCached
     (upd_inodes (\<lambda>r. iID r = i) (\<lambda>r. r\<lparr>iCached := True, iContentHash := contentHash, iLastAccess := now\<rparr>))"

definition SetInodeSize :: "int \<Rightarrow> int \<Rightarrow> db \<Rightarrow> dbError option \<times> db" where
  "SetInodeSize i sz = exec OpSetInodeSize (upd_inodes (\<lambda>r. iID r = i) (\<lambda>r. r\<lparr>iSize := sz\<rparr>))"

definition SetLocalContent :: "int \<Rightarrow> string \<Rightarrow> int \<Rightarrow> db \<Rightarrow> dbError option \<times> db" where
  "SetLocalContent i hash mtime0 =
     (let mtime = (if hash = [] then 0 else mtime0) in
      exec OpSetLocalContent
        (upd_inodes (\<lambda>r. iID r = i)
           (\<lambda>r. r\<lparr>iLocalHash := hash, iLocalMtime := mtime, iBaselineHash := hash,
                  iLocalRemoteEtag := (if hash = [] then [] else iEtag r)\<rparr>)))"

definition InvalidateCache :: "int \<Rightarrow> db \<Rightarrow> dbError option \<times> db" where
  "InvalidateCache i = exec OpInvalidateCache
     (upd_inodes (\<lambda>r. iID r = i)
        (\<lambda>r. r\<lparr>iBaselineHash := (if iLocalHash r \<noteq> [] then iLocalHash r else iBaselineHash r),
               iCached := False, iContentHash := [], iLocalHash := [], iLocalMtime := 0\<rparr>))"

definition TouchAccess :: "int \<Rightarrow> int \<Rightarrow> db \<Rightarrow> dbError option \<times> db" where
  "TouchAccess now i = exec OpTouchAccess (upd_inodes (\<lambda>r. iID r = i) (\<lambda>r. r\<lparr>iLastAccess := now\<rparr>))"

definition SetSyncStatus :: "int \<Rightarrow> SyncStatus \<Rightarrow> string \<Rightarrow> db \<Rightarrow> dbError option \<times> db" where
  "SetSyncStatus i status reason = exec OpSetSyncStatus
     (upd_inodes (\<lambda>r. iID r = i) (\<lambda>r. r\<lparr>iSyncStatus := status, iStatusReason := reason\<rparr>))"

definition SetPinned :: "string \<Rightarrow> bool \<Rightarrow> db \<Rightarrow> dbError option \<times> db" where
  "SetPinned p pinned = exec OpSetPinned (upd_inodes (\<lambda>r. iRemotePath r = p) (\<lambda>r. r\<lparr>iPinned := pinned\<rparr>))"

definition ListPinned :: "db \<Rightarrow> dbError + Inode list" where
  "ListPinned d = query OpListPinned d (collectInodes (sort_key iRemotePath (filter iPinned (inodes d))))"

definition ListIssues :: "db \<Rightarrow> dbError + Inode list" where
  "ListIssues d = query OpListIssues d (collectInodes (sort_key iRemotePath
     (filter (\<lambda>r. iSyncStatus r \<noteq> StatusSynced \<and> iSyncStatus r \<noteq> StatusPending) (inodes d))))"

definition InodesWithFailures :: "db \<Rightarrow> dbError + Inode list" where
  "InodesWithFailures d = query OpInodesWithFailures d (collectInodes (sort_key iRemotePath
     (filter (\<lambda>r. iSyncStatus r = StatusFailed \<or> iID r \<in> set (map fInodeID (failures d))) (inodes d))))"

definition CountByStatus :: "db \<Rightarrow> dbError + (SyncStatus \<rightharpoonup> nat)" where
  "CountByStatus d = query OpCountByStatus d
     (\<lambda>s. let n = sql_count (\<lambda>r. iSyncStatus r = s) (inodes d) in if n = 0 then None else Some n)"

definition EvictableCacheSize :: "db \<Rightarrow> dbError + int" where
  "EvictableCacheSize d = query OpEvictableSize d
     (sum_list (map iSize (filter (\<lambda>r. iCached r \<and> \<not> iDirty r \<and> \<not> iPinned r) (inodes d))))"

definition TotalCacheSize :: "db \<Rightarrow> dbError + int" where
  "TotalCacheSize d = query OpTotalSize d (sum_list (map iSize (filter iCached (inodes d))))"

definition CountCachedByHash :: "string \<Rightarrow> int \<Rightarrow> db \<Rightarrow> dbError + nat" where
  "CountCachedByHash hash excludeID d = query OpCountCachedByHash d
     (sql_count (\<lambda>r. iContentHash r = hash \<and> iCached r \<and> iID r \<noteq> excludeID) (inodes d))"

definition AllCachedHashes :: "db \<Rightarrow> dbError + string set" where
  "AllCachedHashes d = query OpAllCachedHashes d
     (set (map iContentHash (filter (\<lambda>r. iCached r \<and> iContentHash r \<noteq> []) (inodes d))))"

definition LRUEvictionCandidates :: "nat \<Rightarrow> db \<Rightarrow> dbError + Inode list" where
  "LRUEvictionCandidates limit d = query OpLRU d (collectInodes (take limit
     (sort_key iLastAccess (filter (\<lambda>r. iCached r \<and> \<not> iDirty r \<and> \<not> iPinned r) (inodes d)))))"

definition AllInodes :: "db \<Rightarrow> dbError + Inode list" where
  "AllInodes d = query OpAllInodes d (collectInodes (sort_key iRemotePath (inodes d)))"

definition DeleteRejected :: "db \<Rightarrow> (dbError + string list) \<times> db" where
  "DeleteRejected d =
     (if sqlFails d OpSelectRejected then (Inl SqlError, d)
      else let hashes = map iContentHash
                 (filter (\<lambda>r. iSyncStatus r = StatusRejected \<and> iContentHash r \<noteq> []) (inodes d))
           in if sqlFails d OpDeleteRejected then (Inl SqlError, d)
              else (Inr hashes, d\<lparr>inodes := sql_delete (\<lambda>r. iSyncStatus r = StatusRejected) (inodes d)\<rparr>))"

text \<open>\<open>local_content.go\<close>.\<close>

definition LocalContentState :: "int \<Rightarrow> db \<Rightarrow> dbError + string \<times> string \<times> string" where
  "LocalContentState i d =
     (if sqlFails d OpLocalContentState then Inl SqlError
      else case find (\<lambda>r. iID r = i) (inodes d) of
             None \<Rightarrow> Inl NoRows
           | Some r \<Rightarrow> Inr (iLocalHash r, (if iLocalHash r = [] then iBaselineHash r else iLocalHash r),
                           iLocalRemoteEtag r))"

definition MarkLocalConflict :: "int \<Rightarrow> string \<Rightarrow> db \<Rightarrow> dbError option \<times> db" where
  "MarkLocalConflict i reason = exec OpMarkLocalConflict
     (upd_inodes (\<lambda>r. iID r = i)
        (\<lambda>r. r\<lparr>iDirty := True, iCached := False, iSyncStatus := StatusConflict, iStatusReason := reason\<rparr>))"

definition SetRemoteVersion :: "int \<Rightarrow> string \<Rightarrow> db \<Rightarrow> dbError option \<times> db" where
  "SetRemoteVersion i etag = exec OpSetRemoteVersion (upd_inodes (\<lambda>r. iID r = i) (\<lambda>r. r\<lparr>iEtag := etag\<rparr>))"

definition SetLocalContentForVersion :: "int \<Rightarrow> string \<Rightarrow> int \<Rightarrow> string \<Rightarrow> db \<Rightarrow> dbError option \<times> db" where
  "SetLocalContentForVersion i hash localMtime remoteEtag = exec OpSetLocalContentForVersion
     (upd_inodes (\<lambda>r. iID r = i)
        (\<lambda>r. r\<lparr>iLocalHash := hash, iBaselineHash := hash, iLocalMtime := localMtime,
               iLocalRemoteEtag := remoteEtag\<rparr>))"

section \<open>The write-back queue\<close>

definition MarshalUploadExtra :: "string \<Rightarrow> extra" where
  "MarshalUploadExtra key = (if key = [] then ExtraEmpty else ExtraObject key [])"

definition UploadKeyFromExtra :: "extra \<Rightarrow> string" where
  "UploadKeyFromExtra x = (case x of ExtraEmpty \<Rightarrow> [] | ExtraBad \<Rightarrow> [] | ExtraObject key _ \<Rightarrow> key)"

definition EnqueueWriteback ::
  "string \<Rightarrow> int \<Rightarrow> int \<Rightarrow> wb_action \<Rightarrow> string \<Rightarrow> extra \<Rightarrow> db \<Rightarrow> dbError option \<times> db" where
  "EnqueueWriteback newKey now inodeID action remotePath extraJSON0 d =
     (if writebackDisabled d then (Some ErrReadOnlyMount, d)
      else
        let extraJSON = (if action = Upload \<and> UploadKeyFromExtra extraJSON0 = []
                         then MarshalUploadExtra newKey else extraJSON0) in
        if action \<noteq> Rename \<and> sqlFails d OpEnqueueDelete then (Some SqlError, d)
        else
          let q = (if action \<noteq> Rename
                   then sql_delete (\<lambda>e. wInodeID e = inodeID \<and> wAction e = action \<and> wStatus e = WbPending) (wbqueue d)
                   else wbqueue d);
              e = \<lparr>wID = nextWb d, wInodeID = inodeID, wAction = action, wRemotePath = remotePath,
                   wExtraJSON = extraJSON, wEnqueuedAt = now, wAttempts = 0, wLastError = [],
                   wStatus = WbPending\<rparr>
          in if sqlFails d OpEnqueueInsert then (Some SqlError, d\<lparr>wbqueue := q\<rparr>)
             else (None, d\<lparr>wbqueue := q @ [e], nextWb := nextWb d + 1\<rparr>))"

text \<open>The claim: the oldest due pending entries, at most \<open>limit\<close>, become \<open>in_progress\<close> and
  are returned as updated.\<close>

definition due :: "int \<Rightarrow> WritebackEntry \<Rightarrow> bool" where
  "due claimBefore e \<longleftrightarrow> wStatus e = WbPending \<and> wEnqueuedAt e \<le> claimBefore"

definition claim_ids :: "nat \<Rightarrow> int \<Rightarrow> WritebackEntry list \<Rightarrow> int list" where
  "claim_ids limit claimBefore q =
     map wID (take limit (sort_key (\<lambda>e. (wEnqueuedAt e, wID e)) (filter (due claimBefore) q)))"

definition DequeueWriteback :: "int \<Rightarrow> nat \<Rightarrow> int \<Rightarrow> db \<Rightarrow> (dbError + WritebackEntry list) \<times> db" where
  "DequeueWriteback now limit claimBefore0 d =
     (let claimBefore = (if claimBefore0 \<le> 0 then now + 1 else claimBefore0);
          ids = claim_ids limit claimBefore (wbqueue d);
          d' = upd_queue (\<lambda>e. wID e \<in> set ids) (\<lambda>e. e\<lparr>wStatus := WbInProgress\<rparr>) d
      in if sqlFails d OpDequeueWriteback then (Inl SqlError, d)
         else (Inr (filter (\<lambda>e. wID e \<in> set ids) (wbqueue d')), d'))"

definition HasActiveWriteback :: "int \<Rightarrow> wb_action \<Rightarrow> db \<Rightarrow> dbError + bool" where
  "HasActiveWriteback inodeID action d = query OpHasActiveWriteback d
     (sql_count (\<lambda>e. wInodeID e = inodeID \<and> wAction e = action \<and>
                     (wStatus e = WbPending \<or> wStatus e = WbInProgress)) (wbqueue d) > 0)"

definition RequeueInProgress :: "db \<Rightarrow> (dbError + nat) \<times> db" where
  "RequeueInProgress d =
     (if sqlFails d OpRequeueInProgress then (Inl SqlError, d)
      else (Inr (sql_count (\<lambda>e. wStatus e = WbInProgress) (wbqueue d)),
            upd_queue (\<lambda>e. wStatus e = WbInProgress) (\<lambda>e. e\<lparr>wStatus := WbPending\<rparr>) d))"

definition UpdateWriteback :: "int \<Rightarrow> wb_status \<Rightarrow> string \<Rightarrow> int \<Rightarrow> db \<Rightarrow> dbError option \<times> db" where
  "UpdateWriteback i status lastError attempts = exec OpUpdateWriteback
     (upd_queue (\<lambda>e. wID e = i) (\<lambda>e. e\<lparr>wStatus := status, wLastError := lastError, wAttempts := attempts\<rparr>))"

definition DeferWriteback :: "int \<Rightarrow> string \<Rightarrow> int \<Rightarrow> int \<Rightarrow> db \<Rightarrow> dbError option \<times> db" where
  "DeferWriteback i lastError attempts notBefore = exec OpDeferWriteback
     (upd_queue (\<lambda>e. wID e = i)
        (\<lambda>e. e\<lparr>wStatus := WbPending, wLastError := lastError, wAttempts := attempts, wEnqueuedAt := notBefore\<rparr>))"

definition DeferredWritebackCount :: "int \<Rightarrow> db \<Rightarrow> dbError + nat \<times> int" where
  "DeferredWritebackCount horizon d = query OpDeferredCount d
     (let es = filter (\<lambda>e. wStatus e = WbPending \<and> wEnqueuedAt e > horizon) (wbqueue d)
      in (length es, if es = [] then 0 else Min (set (map wEnqueuedAt es))))"

definition DeleteWriteback :: "int \<Rightarrow> db \<Rightarrow> dbError option \<times> db" where
  "DeleteWriteback i = exec OpDeleteWriteback (\<lambda>d. d\<lparr>wbqueue := sql_delete (\<lambda>e. wID e = i) (wbqueue d)\<rparr>)"

definition PendingWritebackCount :: "db \<Rightarrow> dbError + nat" where
  "PendingWritebackCount d = query OpPendingCount d (sql_count (\<lambda>e. wStatus e = WbPending) (wbqueue d))"

definition FailedWritebackCount :: "db \<Rightarrow> dbError + nat" where
  "FailedWritebackCount d = query OpFailedCount d (sql_count (\<lambda>e. wStatus e = WbFailed) (wbqueue d))"

definition DeleteWritebackByInode :: "int \<Rightarrow> db \<Rightarrow> dbError option \<times> db" where
  "DeleteWritebackByInode i = exec OpDeleteWritebackByInode
     (\<lambda>d. d\<lparr>wbqueue := sql_delete (\<lambda>e. wInodeID e = i) (wbqueue d)\<rparr>)"

definition DeleteFailedUploadWritebacks :: "int \<Rightarrow> db \<Rightarrow> dbError option \<times> db" where
  "DeleteFailedUploadWritebacks i = exec OpDeleteFailedUpload
     (\<lambda>d. d\<lparr>wbqueue := sql_delete (\<lambda>e. wInodeID e = i \<and> wAction e = Upload \<and> wStatus e = WbFailed) (wbqueue d)\<rparr>)"

definition DeleteFailedWritebacks :: "db \<Rightarrow> nat \<times> db" where
  "DeleteFailedWritebacks d =
     (if sqlFails d OpDeleteFailedWritebacks then (0, d)
      else (sql_count (\<lambda>e. wStatus e = WbFailed) (wbqueue d),
            d\<lparr>wbqueue := sql_delete (\<lambda>e. wStatus e = WbFailed) (wbqueue d)\<rparr>))"

section \<open>The failure ledger\<close>

definition StalledDownloadAttempts :: int where "StalledDownloadAttempts = 3"

definition FailedDownloadCount :: "db \<Rightarrow> dbError + nat" where
  "FailedDownloadCount d = query OpFailedDownloadCount d
     (sql_count (\<lambda>f. fKind f = FailureDownload \<and> (fPermanent f \<or> fAttempts f \<ge> StalledDownloadAttempts)) (failures d))"

definition GetSyncFailure :: "int \<Rightarrow> FailureKind \<Rightarrow> db \<Rightarrow> dbError + SyncFailure option" where
  "GetSyncFailure i kind d = query OpGetSyncFailure d (find (\<lambda>f. fInodeID f = i \<and> fKind f = kind) (failures d))"

definition RecordSyncFailure :: "SyncFailure \<Rightarrow> db \<Rightarrow> dbError option \<times> db" where
  "RecordSyncFailure f = exec OpRecordSyncFailure
     (\<lambda>d. d\<lparr>failures :=
        (case find (\<lambda>g. fInodeID g = fInodeID f \<and> fKind g = fKind f) (failures d) of
           Some _ \<Rightarrow> sql_update (\<lambda>g. fInodeID g = fInodeID f \<and> fKind g = fKind f)
             (\<lambda>g. g\<lparr>fPermanent := fPermanent f, fAttempts := fAttempts f,
                    fNextRetryAt := fNextRetryAt f, fLastError := fLastError f\<rparr>) (failures d)
         | None \<Rightarrow> failures d @ [f])\<rparr>)"

definition ClearSyncFailure :: "int \<Rightarrow> FailureKind \<Rightarrow> db \<Rightarrow> dbError option \<times> db" where
  "ClearSyncFailure i kind = exec OpClearSyncFailure
     (\<lambda>d. d\<lparr>failures := sql_delete (\<lambda>f. fInodeID f = i \<and> fKind f = kind) (failures d)\<rparr>)"

definition DeleteSyncFailures :: "int \<Rightarrow> db \<Rightarrow> dbError option \<times> db" where
  "DeleteSyncFailures i = exec OpDeleteSyncFailures
     (\<lambda>d. d\<lparr>failures := sql_delete (\<lambda>f. fInodeID f = i) (failures d)\<rparr>)"

definition has_failure :: "int \<Rightarrow> db \<Rightarrow> FailureKind \<Rightarrow> bool" where
  "has_failure i d kind = (case GetSyncFailure i kind d of Inr (Some _) \<Rightarrow> True | _ \<Rightarrow> False)"

definition hasFailureLatch :: "Inode \<Rightarrow> db \<Rightarrow> bool" where
  "hasFailureLatch x d \<longleftrightarrow>
     iSyncStatus x = StatusFailed \<or> list_ex (has_failure (iID x) d) [FailureUpload, FailureDownload]"

text \<open>\<open>retry.go\<close>: a manual retry clears the latches of everything that is not waiting for a
  decision of the user.\<close>

fun clearEach :: "Inode list \<Rightarrow> db \<Rightarrow> Inode list \<times> db" where
  "clearEach [] d = ([], d)"
| "clearEach (x # xs) d =
     (if iSyncStatus x = StatusConflict \<or> iSyncStatus x = StatusRejected then clearEach xs d
      else let d1 = snd (DeleteSyncFailures (iID x) d);
               d2 = snd (DeleteFailedUploadWritebacks (iID x) d1);
               (cleared, d3) = clearEach xs d2
           in (x # cleared, d3))"

definition ClearFailedTransfers :: "string \<Rightarrow> db \<Rightarrow> (dbError + Inode list) \<times> db" where
  "ClearFailedTransfers remotePath d =
     (if remotePath = [] then
        (case InodesWithFailures d of
           Inl e \<Rightarrow> (Inl e, d)
         | Inr candidates \<Rightarrow> (let (cleared, d') = clearEach candidates d in (Inr cleared, d')))
      else
        case GetInodeByPath remotePath d of
          Inl _ \<Rightarrow> (Inr [], d)
        | Inr x \<Rightarrow> if \<not> hasFailureLatch x d then (Inr [], d)
                  else (let (cleared, d') = clearEach [x] d in (Inr cleared, d')))"

text \<open>\<open>failures.go\<close>: exponential back-off on 64-bit durations (nanoseconds), where the shift
  may overflow.\<close>

definition TransferRetryBase :: "64 word" where "TransferRetryBase = 30 * 1000000000"
definition TransferRetryCap :: "64 word" where "TransferRetryCap = 3600 * 1000000000"

definition TransferBackoff :: "int \<Rightarrow> 64 word" where
  "TransferBackoff attempts0 =
     (let attempts = (if attempts0 < 1 then 1 else attempts0);
          d = push_bit (nat (attempts - 1)) TransferRetryBase
      in if sint d \<le> 0 \<or> sint d > sint TransferRetryCap then TransferRetryCap else d)"

end
