(* ===== verification/CacheLaws.thy ===== *)
theory CacheLaws
  imports CacheDB
begin

text \<open>
  Laws of the cache database: the keys of its tables stay unique under every method, the
  pending-edit flag of a row is cleared by \<open>MarkSynced\<close> only, and the write-back queue
  claims, coalesces and recovers entries as its callers rely on.
\<close>

section \<open>Keys\<close>

definition keeps_inode_keys :: "(inode_row \<Rightarrow> inode_row) \<Rightarrow> bool" where
  "keeps_inode_keys f \<longleftrightarrow> (\<forall>r. iID (f r) = iID r \<and> iRemotePath (f r) = iRemotePath r)"

definition failure_key :: "SyncFailure \<Rightarrow> int \<times> FailureKind" where
  "failure_key f = (fInodeID f, fKind f)"

interpretation inode_id: keyed_table iID keeps_inode_keys
  by unfold_locales (simp add: keeps_inode_keys_def)

interpretation inode_path: keyed_table iRemotePath keeps_inode_keys
  by unfold_locales (simp add: keeps_inode_keys_def)

interpretation wb_id: keyed_table wID "\<lambda>f. \<forall>e. wID (f e) = wID (e :: WritebackEntry)"
  by unfold_locales simp

interpretation failure_id: keyed_table failure_key "\<lambda>f. \<forall>g. failure_key (f g) = failure_key g"
  by unfold_locales simp

definition db_ok :: "db \<Rightarrow> bool" where
  "db_ok d \<longleftrightarrow>
     distinct (map iID (inodes d)) \<and> distinct (map iRemotePath (inodes d)) \<and>
     (\<forall>r \<in> set (inodes d). 0 < iID r \<and> iID r < nextInode d) \<and> 0 < nextInode d \<and>
     distinct (map wID (wbqueue d)) \<and> (\<forall>e \<in> set (wbqueue d). wID e < nextWb d) \<and>
     distinct (map failure_key (failures d))"

lemmas inode_stmts = MarkDirty_def MarkSynced_def MarkCached_def SetInodeSize_def SetLocalContent_def
  InvalidateCache_def TouchAccess_def SetSyncStatus_def SetPinned_def MarkLocalConflict_def
  SetRemoteVersion_def SetLocalContentForVersion_def

lemmas queue_stmts = UpdateWriteback_def DeferWriteback_def DeleteWriteback_def
  DeleteWritebackByInode_def DeleteFailedUploadWritebacks_def

lemmas [db_defs] = inode_stmts queue_stmts ClearSyncFailure_def DeleteSyncFailures_def
  DeleteInode_def DeleteChildren_def

section \<open>The methods as labelled calls\<close>

datatype dbcall =
    CUpsertInode Inode | CDeleteInode string | CDeleteChildren int | CMarkDirty int
  | CMarkSynced int string | CMarkCached int int string | CSetInodeSize int int
  | CSetLocalContent int string int | CInvalidateCache int | CTouchAccess int int
  | CSetSyncStatus int SyncStatus string | CSetPinned string bool
  | CMarkLocalConflict int string | CSetRemoteVersion int string
  | CSetLocalContentForVersion int string int string
  | CEnqueue string int int wb_action string extra | CDequeue int nat int | CRequeueInProgress
  | CUpdateWriteback int wb_status string int | CDeferWriteback int string int int
  | CDeleteWriteback int | CDeleteWritebackByInode int | CDeleteFailedUpload int | CDeleteFailedWritebacks
  | CRecordSyncFailure SyncFailure | CClearSyncFailure int FailureKind | CDeleteSyncFailures int
  | CDeleteRejected | CClearFailedTransfers string | CSetWritebackDisabled bool

fun db_call :: "dbcall \<Rightarrow> db \<Rightarrow> db" where
  "db_call (CUpsertInode x) d = snd (UpsertInode x d)"
| "db_call (CDeleteInode p) d = snd (DeleteInode p d)"
| "db_call (CDeleteChildren i) d = snd (DeleteChildren i d)"
| "db_call (CMarkDirty i) d = snd (MarkDirty i d)"
| "db_call (CMarkSynced i etag) d = snd (MarkSynced i etag d)"
| "db_call (CMarkCached now i h) d = snd (MarkCached now i h d)"
| "db_call (CSetInodeSize i sz) d = snd (SetInodeSize i sz d)"
| "db_call (CSetLocalContent i h m) d = snd (SetLocalContent i h m d)"
| "db_call (CInvalidateCache i) d = snd (InvalidateCache i d)"
| "db_call (CTouchAccess now i) d = snd (TouchAccess now i d)"
| "db_call (CSetSyncStatus i s reason) d = snd (SetSyncStatus i s reason d)"
| "db_call (CSetPinned p b) d = snd (SetPinned p b d)"
| "db_call (CMarkLocalConflict i reason) d = snd (MarkLocalConflict i reason d)"
| "db_call (CSetRemoteVersion i etag) d = snd (SetRemoteVersion i etag d)"
| "db_call (CSetLocalContentForVersion i h m etag) d = snd (SetLocalContentForVersion i h m etag d)"
| "db_call (CEnqueue key now i a p x) d = snd (EnqueueWriteback key now i a p x d)"
| "db_call (CDequeue now limit before) d = snd (DequeueWriteback now limit before d)"
| "db_call CRequeueInProgress d = snd (RequeueInProgress d)"
| "db_call (CUpdateWriteback i s err n) d = snd (UpdateWriteback i s err n d)"
| "db_call (CDeferWriteback i err n t) d = snd (DeferWriteback i err n t d)"
| "db_call (CDeleteWriteback i) d = snd (DeleteWriteback i d)"
| "db_call (CDeleteWritebackByInode i) d = snd (DeleteWritebackByInode i d)"
| "db_call (CDeleteFailedUpload i) d = snd (DeleteFailedUploadWritebacks i d)"
| "db_call CDeleteFailedWritebacks d = snd (DeleteFailedWritebacks d)"
| "db_call (CRecordSyncFailure f) d = snd (RecordSyncFailure f d)"
| "db_call (CClearSyncFailure i k) d = snd (ClearSyncFailure i k d)"
| "db_call (CDeleteSyncFailures i) d = snd (DeleteSyncFailures i d)"
| "db_call CDeleteRejected d = snd (DeleteRejected d)"
| "db_call (CClearFailedTransfers p) d = snd (ClearFailedTransfers p d)"
| "db_call (CSetWritebackDisabled v) d = SetWritebackDisabled v d"

section \<open>What each kind of statement keeps\<close>

lemma snd_exec: "snd (exec stmt f d) = (if sqlFails d stmt then d else f d)"
  by (simp add: exec_def)

lemma db_ok_exec: "db_ok d \<Longrightarrow> (db_ok d \<Longrightarrow> db_ok (f d)) \<Longrightarrow> db_ok (snd (exec stmt f d))"
  by (simp add: exec_def)

lemma db_ok_upd_inodes:
  assumes "db_ok d" "keeps_inode_keys f"
  shows "db_ok (upd_inodes P f d)"
proof -
  have "\<forall>r \<in> set (sql_update P f (inodes d)). 0 < iID r \<and> iID r < nextInode d"
    using assms by (auto simp: set_sql_update db_ok_def keeps_inode_keys_def)
  then show ?thesis
    using assms by (simp add: db_ok_def upd_inodes_def inode_id.map_key_sql_update inode_path.map_key_sql_update)
qed

lemma db_ok_delete_inodes: "db_ok d \<Longrightarrow> db_ok (d\<lparr>inodes := sql_delete P (inodes d)\<rparr>)"
  by (simp add: db_ok_def inode_id.distinct_sql_delete inode_path.distinct_sql_delete)

lemma db_ok_upd_queue:
  assumes "db_ok d" "\<forall>e. wID (f e) = wID e"
  shows "db_ok (upd_queue P f d)"
proof -
  have "\<forall>e \<in> set (sql_update P f (wbqueue d)). wID e < nextWb d"
    using assms by (auto simp: set_sql_update db_ok_def)
  then show ?thesis
    using assms by (simp add: db_ok_def upd_queue_def wb_id.map_key_sql_update)
qed

lemma db_ok_delete_queue: "db_ok d \<Longrightarrow> db_ok (d\<lparr>wbqueue := sql_delete P (wbqueue d)\<rparr>)"
  by (simp add: db_ok_def wb_id.distinct_sql_delete)

lemma db_ok_delete_failures: "db_ok d \<Longrightarrow> db_ok (d\<lparr>failures := sql_delete P (failures d)\<rparr>)"
  by (simp add: db_ok_def failure_id.distinct_sql_delete)

lemmas db_ok_intros = db_ok_exec db_ok_upd_inodes db_ok_delete_inodes db_ok_upd_queue
  db_ok_delete_queue db_ok_delete_failures

lemma db_ok_upsert: "db_ok d \<Longrightarrow> db_ok (snd (UpsertInode x d))"
proof -
  assume ok: "db_ok d"
  show ?thesis
  proof (cases "find (\<lambda>r. iRemotePath r = iRemotePath x) (inodes d)")
    case (Some r)
    have "keeps_inode_keys (conflict_row x)" by (simp add: keeps_inode_keys_def conflict_row_def)
    with ok Some show ?thesis by (simp add: UpsertInode_def db_ok_upd_inodes)
  next
    case None
    have "\<forall>r \<in> set (inodes d). iRemotePath r \<noteq> iRemotePath x" "\<forall>r \<in> set (inodes d). iID r \<noteq> nextInode d"
      using None ok by (auto simp: find_None_iff db_ok_def)
    then show ?thesis
      using None ok
      by (auto simp: UpsertInode_def db_ok_def fresh_row_def Inode.defs inode_row.defs image_iff)
  qed
qed

lemma db_ok_record: "db_ok d \<Longrightarrow> db_ok (snd (RecordSyncFailure f d))"
proof -
  assume ok: "db_ok d"
  show ?thesis
  proof (cases "find (\<lambda>g. fInodeID g = fInodeID f \<and> fKind g = fKind f) (failures d)")
    case (Some g)
    with ok show ?thesis
      by (simp add: RecordSyncFailure_def snd_exec db_ok_def failure_id.map_key_sql_update failure_key_def)
  next
    case None
    then have "\<forall>g \<in> set (failures d). failure_key g \<noteq> failure_key f"
      by (auto simp: find_None_iff failure_key_def)
    with ok None show ?thesis
      by (auto simp: RecordSyncFailure_def snd_exec db_ok_def image_iff)
  qed
qed

lemma db_ok_enqueue: "db_ok d \<Longrightarrow> db_ok (snd (EnqueueWriteback key now i a p x d))"
  by (auto simp: EnqueueWriteback_def db_ok_def Let_def sql_delete_def distinct_map_filter image_iff)

lemma db_ok_clearEach: "db_ok d \<Longrightarrow> db_ok (snd (clearEach xs d))"
proof (induction xs d rule: clearEach.induct)
  case (2 x xs d)
  let ?d = "snd (DeleteFailedUploadWritebacks (iID x) (snd (DeleteSyncFailures (iID x) d)))"
  have "db_ok ?d"
    using "2.prems" by (simp add: db_defs db_ok_intros)
  with 2 show ?case by (auto simp: Let_def split: prod.splits)
qed simp

lemma ClearFailedTransfers_cases:
  "snd (ClearFailedTransfers p d) = d \<or> (\<exists>xs. snd (ClearFailedTransfers p d) = snd (clearEach xs d))"
  by (auto simp: ClearFailedTransfers_def case_prod_beta simp del: clearEach.simps split: sum.splits)

lemma db_ok_clear: "db_ok d \<Longrightarrow> db_ok (snd (ClearFailedTransfers p d))"
  using ClearFailedTransfers_cases [of p d] db_ok_clearEach [of d] by metis

lemma db_ok_writebackDisabled: "db_ok d \<Longrightarrow> db_ok (d\<lparr>writebackDisabled := v\<rparr>)"
  by (simp add: db_ok_def)

lemma db_ok_step: "db_ok d \<Longrightarrow> db_ok (db_call c d)"
  by (cases c)
     (auto simp: db_defs keeps_inode_keys_def db_ok_upsert db_ok_record db_ok_enqueue db_ok_clear
       DequeueWriteback_def RequeueInProgress_def DeleteFailedWritebacks_def DeleteRejected_def
       SetWritebackDisabled_def db_ok_writebackDisabled Let_def
     intro!: db_ok_intros)

interpretation db_sys: inv_system db_call db_ok
  by unfold_locales (rule db_ok_step)

section \<open>The pending-edit flag\<close>

definition dirty_kept :: "int \<Rightarrow> db \<Rightarrow> db \<Rightarrow> bool" where
  "dirty_kept i d d' \<longleftrightarrow>
     (\<forall>r \<in> set (inodes d). iID r = i \<and> iDirty r \<longrightarrow> (\<forall>r' \<in> set (inodes d'). iID r' = i \<longrightarrow> iDirty r'))"

lemma dirty_kept_refl: "db_ok d \<Longrightarrow> inodes d' = inodes d \<Longrightarrow> dirty_kept i d d'"
  unfolding dirty_kept_def db_ok_def using inode_id.find_key_unique by metis

lemma dirty_kept_exec:
  "db_ok d \<Longrightarrow> dirty_kept i d (f d) \<Longrightarrow> dirty_kept i d (snd (exec stmt f d))"
  by (simp add: exec_def dirty_kept_refl)

lemma dirty_kept_upd:
  assumes ok: "db_ok d" and keys: "keeps_inode_keys f"
    and mono: "\<And>r. P r \<Longrightarrow> iID r = i \<Longrightarrow> iDirty r \<Longrightarrow> iDirty (f r)"
  shows "dirty_kept i d (upd_inodes P f d)"
  unfolding dirty_kept_def
proof (intro ballI impI)
  fix r r'
  assume r: "r \<in> set (inodes d)" "iID r = i \<and> iDirty r"
    and r': "r' \<in> set (inodes (upd_inodes P f d))" "iID r' = i"
  then obtain r0 where r0: "r0 \<in> set (inodes d)" "r' = (if P r0 then f r0 else r0)"
    by (auto simp: upd_inodes_def set_sql_update)
  then have "iID r0 = iID r" using r r' keys by (auto simp: keeps_inode_keys_def split: if_splits)
  then have "r0 = r" using ok r r0 inode_id.find_key_unique by (metis db_ok_def)
  then show "iDirty r'" using r0 r mono by auto
qed

lemma dirty_kept_delete: "db_ok d \<Longrightarrow> dirty_kept i d (d\<lparr>inodes := sql_delete P (inodes d)\<rparr>)"
  unfolding dirty_kept_def db_ok_def by simp (metis inode_id.find_key_unique)

lemma dirty_kept_upsert: "db_ok d \<Longrightarrow> dirty_kept i d (snd (UpsertInode x d))"
proof (cases "find (\<lambda>r. iRemotePath r = iRemotePath x) (inodes d)")
  case (Some r)
  assume ok: "db_ok d"
  have "dirty_kept i d (upd_inodes (\<lambda>r. iRemotePath r = iRemotePath x) (conflict_row x) d)"
    using ok by (rule dirty_kept_upd) (simp_all add: keeps_inode_keys_def conflict_row_def)
  with Some ok show ?thesis by (simp add: UpsertInode_def dirty_kept_refl)
next
  case None
  assume ok: "db_ok d"
  then have "dirty_kept i d d" by (rule dirty_kept_refl) simp
  with None ok show ?thesis
    by (auto simp: UpsertInode_def dirty_kept_def fresh_row_def Inode.defs inode_row.defs db_ok_def)
qed

lemma inodes_clearEach [simp]: "inodes (snd (clearEach xs d)) = inodes d"
  by (induction xs d rule: clearEach.induct) (auto simp: Let_def case_prod_beta db_defs snd_exec)

lemma inodes_queue_calls [simp]:
  "inodes (upd_queue P f d) = inodes d"
  "inodes (snd (EnqueueWriteback key now j a p x d)) = inodes d"
  "inodes (snd (ClearFailedTransfers q d)) = inodes d"
  "inodes (snd (RecordSyncFailure f' d)) = inodes d"
  using ClearFailedTransfers_cases [of q d]
  by (auto simp: upd_queue_def EnqueueWriteback_def RecordSyncFailure_def snd_exec Let_def)

lemma dirty_kept_call:
  assumes ok: "db_ok d" and c: "\<And>etag. c \<noteq> CMarkSynced i etag"
  shows "dirty_kept i d (db_call c d)"
proof (cases "inodes (db_call c d) = inodes d")
  case True
  with ok show ?thesis by (rule dirty_kept_refl)
next
  case False
  then show ?thesis
    using c
    by (cases c)
       (auto simp: db_defs dirty_kept_upsert [OF ok] DeleteRejected_def keeps_inode_keys_def snd_exec Let_def
          DequeueWriteback_def RequeueInProgress_def DeleteFailedWritebacks_def SetWritebackDisabled_def
        intro!: dirty_kept_upd [OF ok] dirty_kept_delete [OF ok] split: if_splits)
qed

section \<open>Claiming\<close>

lemma sorted_take_le:
  assumes "sorted (map k xs)" "x \<in> set (take n xs)" "y \<in> set (drop n xs)"
  shows "k x \<le> k y"
proof -
  have "sorted (map k (take n xs) @ map k (drop n xs))"
    using assms(1) by (simp flip: map_append)
  then show ?thesis using assms(2,3) by (auto simp: sorted_append)
qed

lemma set_claimed:
  assumes "distinct (map wID q)" and "e \<in> set q"
  shows "wID e \<in> set (claim_ids limit b q) \<longleftrightarrow>
         e \<in> set (take limit (sort_key (\<lambda>e. (wEnqueuedAt e, wID e)) (filter (due b) q)))"
proof
  let ?s = "sort_key (\<lambda>e. (wEnqueuedAt e, wID e)) (filter (due b) q)"
  assume "wID e \<in> set (claim_ids limit b q)"
  then obtain e' where e': "e' \<in> set (take limit ?s)" "wID e' = wID e" by (auto simp: claim_ids_def)
  then have "e' \<in> set q" using set_take_subset [of limit ?s] by auto
  with e' assms have "e' = e" using wb_id.find_key_unique by metis
  with e' show "e \<in> set (take limit ?s)" by simp
qed (simp add: claim_ids_def)

lemma dequeue_facts:
  assumes ok: "db_ok d" and run: "DequeueWriteback now limit b0 d = (Inr es, d')"
  defines "b \<equiv> if b0 \<le> 0 then now + 1 else b0"
  shows "length es \<le> limit"
    and "\<forall>e \<in> set es. \<exists>e0 \<in> set (wbqueue d). due b e0 \<and> e = e0\<lparr>wStatus := WbInProgress\<rparr>"
    and "\<forall>e \<in> set (wbqueue d). due b e \<longrightarrow> wID e \<notin> wID ` set es \<longrightarrow>
           length es = limit \<and> (\<forall>c \<in> set es. (wEnqueuedAt c, wID c) \<le> (wEnqueuedAt e, wID e))"
    and "map wID (wbqueue d') = map wID (wbqueue d)"
    and "\<forall>e \<in> set (wbqueue d). wID e \<notin> wID ` set es \<longrightarrow> e \<in> set (wbqueue d')"
proof -
  let ?q = "wbqueue d"
  let ?s = "sort_key (\<lambda>e. (wEnqueuedAt e, wID e)) (filter (due b) ?q)"
  let ?ids = "set (claim_ids limit b ?q)"
  let ?f = "\<lambda>e. if wID e \<in> ?ids then e\<lparr>wStatus := WbInProgress\<rparr> else e"
  have dist: "distinct (map wID ?q)" using ok by (simp add: db_ok_def)
  have q': "wbqueue d' = map ?f ?q" and es: "es = filter (\<lambda>e. wID e \<in> ?ids) (map ?f ?q)"
    using run by (auto simp: DequeueWriteback_def upd_queue_def sql_update_def b_def Let_def split: if_splits)
  have es': "es = map ?f (filter (\<lambda>e. wID e \<in> ?ids) ?q)"
    unfolding es filter_map by (rule arg_cong [where f = "map ?f"], rule filter_cong) auto
  have cl: "wID e \<in> ?ids \<longleftrightarrow> e \<in> set (take limit ?s)" if "e \<in> set ?q" for e
    using set_claimed [OF dist that] .
  have sub: "set (take limit ?s) \<subseteq> {e \<in> set ?q. due b e}"
    using set_take_subset [of limit ?s] by auto
  have cset: "set (filter (\<lambda>e. wID e \<in> ?ids) ?q) = set (take limit ?s)"
    using cl sub by auto
  have ds: "distinct ?s" "distinct ?q" using dist distinct_map by (auto simp: distinct_map)
  have len: "length es = length (take limit ?s)"
  proof -
    have "length es = card (set (filter (\<lambda>e. wID e \<in> ?ids) ?q))"
      unfolding es' length_map by (rule distinct_card [symmetric]) (simp add: ds)
    also have "\<dots> = length (take limit ?s)"
      unfolding cset by (rule distinct_card) (simp add: ds)
    finally show ?thesis .
  qed
  then show "length es \<le> limit" by simp
  have ids: "wID ` set es = wID ` set (take limit ?s)"
  proof -
    have "wID ` set es = (\<lambda>e. wID (?f e)) ` set (filter (\<lambda>e. wID e \<in> ?ids) ?q)"
      by (simp only: es' set_map image_image)
    also have "\<dots> = wID ` set (take limit ?s)"
      unfolding cset by (rule image_cong) simp_all
    finally show ?thesis .
  qed
  show "\<forall>e \<in> set es. \<exists>e0 \<in> set ?q. due b e0 \<and> e = e0\<lparr>wStatus := WbInProgress\<rparr>"
    unfolding es' using cl sub by auto
  show "map wID (wbqueue d') = map wID ?q" unfolding q' by (induction ?q) auto
  show "\<forall>e \<in> set ?q. wID e \<notin> wID ` set es \<longrightarrow> e \<in> set (wbqueue d')"
    unfolding q' ids using cl by (force simp: image_iff)
  show "\<forall>e \<in> set ?q. due b e \<longrightarrow> wID e \<notin> wID ` set es \<longrightarrow>
           length es = limit \<and> (\<forall>c \<in> set es. (wEnqueuedAt c, wID c) \<le> (wEnqueuedAt e, wID e))"
  proof (intro ballI impI)
    fix e assume e: "e \<in> set ?q" "due b e" "wID e \<notin> wID ` set es"
    then have "e \<in> set ?s" "e \<notin> set (take limit ?s)" using ids by auto
    then have drop: "e \<in> set (drop limit ?s)" by (metis Un_iff append_take_drop_id set_append)
    then have "limit < length ?s" by (cases "limit < length ?s") auto
    moreover have "(wEnqueuedAt c, wID c) \<le> (wEnqueuedAt e, wID e)" if c: "c \<in> set es" for c
    proof -
      have "c \<in> ?f ` set (take limit ?s)"
        using c unfolding es' set_map cset .
      then obtain c0 where c0: "c0 \<in> set (take limit ?s)" "c = ?f c0" by blast
      have "(wEnqueuedAt c0, wID c0) \<le> (wEnqueuedAt e, wID e)"
        using sorted_take_le [of "\<lambda>e. (wEnqueuedAt e, wID e)" ?s c0 limit e] c0 drop by simp
      with c0 show ?thesis by simp
    qed
    ultimately show "length es = limit \<and> (\<forall>c \<in> set es. (wEnqueuedAt c, wID c) \<le> (wEnqueuedAt e, wID e))"
      using len by simp
  qed
qed

section \<open>Read-only mounts, back-off and retries\<close>

lemma queue_clearEach: "wID ` set (wbqueue (snd (clearEach xs d))) \<subseteq> wID ` set (wbqueue d) \<and>
   writebackDisabled (snd (clearEach xs d)) = writebackDisabled d"
proof (induction xs d rule: clearEach.induct)
  case (2 x xs d)
  let ?d = "snd (DeleteFailedUploadWritebacks (iID x) (snd (DeleteSyncFailures (iID x) d)))"
  show ?case
  proof (cases "iSyncStatus x = StatusConflict \<or> iSyncStatus x = StatusRejected")
    case True
    with 2 show ?thesis by simp
  next
    case False
    have snd: "snd (clearEach (x # xs) d) = snd (clearEach xs ?d)"
      using False by (simp add: Let_def split: prod.splits)
    have "wID ` set (wbqueue ?d) \<subseteq> wID ` set (wbqueue d) \<and> writebackDisabled ?d = writebackDisabled d"
      by (auto simp: DeleteFailedUploadWritebacks_def DeleteSyncFailures_def exec_def sql_delete_def)
    with "2.IH"(2) [OF False refl refl] show ?thesis unfolding snd by blast
  qed
qed simp

lemma set_wID_upd_queue:
  "\<forall>e. wID (f e) = wID e \<Longrightarrow> wID ` set (wbqueue (upd_queue P f d)) = wID ` set (wbqueue d)"
proof -
  assume "\<forall>e. wID (f e) = wID e"
  then have "map wID (wbqueue (upd_queue P f d)) = map wID (wbqueue d)"
    by (simp add: upd_queue_def sql_update_def)
  then show ?thesis by (metis list.set_map)
qed

lemma read_only_step:
  assumes "writebackDisabled d" and "\<And>v. c \<noteq> CSetWritebackDisabled v"
  shows "wID ` set (wbqueue (db_call c d)) \<subseteq> wID ` set (wbqueue d) \<and> writebackDisabled (db_call c d)"
proof (cases c)
  case (CClearFailedTransfers p)
  then show ?thesis
    using assms(1) ClearFailedTransfers_cases [of p d] queue_clearEach by (metis db_call.simps(29) order_refl)
next
  case (CSetWritebackDisabled v)
  with assms(2) show ?thesis by blast
qed (use assms(1) in \<open>auto simp: db_defs snd_exec UpsertInode_def EnqueueWriteback_def DequeueWriteback_def
       RequeueInProgress_def DeleteFailedWritebacks_def DeleteRejected_def RecordSyncFailure_def Let_def
       upd_inodes_def upd_queue_def set_sql_update split: option.splits\<close>)

definition backoff_shift :: "nat \<Rightarrow> 64 word" where
  "backoff_shift k = (let d = push_bit k TransferRetryBase in
     if sint d \<le> 0 \<or> sint d > sint TransferRetryCap then TransferRetryCap else d)"

text \<open>The shifted base read as a signed 64-bit number.\<close>

definition wrap_shift :: "nat \<Rightarrow> int" where
  "wrap_shift k = (30000000000 * 2 ^ k + 9223372036854775808) mod 18446744073709551616 - 9223372036854775808"

lemma sint_shift: "sint (push_bit k TransferRetryBase) = wrap_shift k"
proof -
  have "push_bit k TransferRetryBase = (word_of_int (30000000000 * 2 ^ k) :: 64 word)"
    by (simp add: TransferRetryBase_def push_bit_eq_mult)
  then have "sint (push_bit k TransferRetryBase) = signed_take_bit 63 (30000000000 * 2 ^ k)"
    by (simp only: signed_of_int) simp
  then show ?thesis by (simp add: wrap_shift_def signed_take_bit_eq_take_bit_shift take_bit_eq_mod)
qed

lemma wrap_shift_capped:
  assumes "k < 64"
  shows "(if wrap_shift k \<le> 0 \<or> wrap_shift k > 3600000000000 then 3600000000000 else wrap_shift k) =
    min (30000000000 * 2 ^ k) 3600000000000"
proof -
  have "k \<in> set [0..<64]" using assms by simp
  moreover have "list_all (\<lambda>k. (if wrap_shift k \<le> 0 \<or> wrap_shift k > 3600000000000 then 3600000000000
      else wrap_shift k) = min (30000000000 * 2 ^ k) 3600000000000) [0..<64]"
    by code_simp
  ultimately show ?thesis by (auto simp: list_all_iff)
qed

lemma backoff_shift_exact: "sint (backoff_shift k) = min (30000000000 * 2 ^ k) 3600000000000"
proof (cases "k < 64")
  case True
  have "sint (backoff_shift k) =
      (if wrap_shift k \<le> 0 \<or> wrap_shift k > 3600000000000 then 3600000000000 else wrap_shift k)"
    by (simp add: backoff_shift_def Let_def sint_shift TransferRetryCap_def)
  with wrap_shift_capped [OF True] show ?thesis by simp
next
  case False
  then have "push_bit k TransferRetryBase = 0"
    by (intro push_bit_word_beyond) simp
  then have "sint (backoff_shift k) = 3600000000000"
    by (simp add: backoff_shift_def TransferRetryCap_def)
  moreover have "(2 :: int) ^ 64 \<le> 2 ^ k" using False by (intro power_increasing) simp_all
  then have "(3600000000000 :: int) \<le> 30000000000 * 2 ^ k" by simp
  ultimately show ?thesis by simp
qed

lemma clearEach_spec:
  "\<not> sqlFails d OpDeleteSyncFailures \<Longrightarrow> \<not> sqlFails d OpDeleteFailedUpload \<Longrightarrow>
   clearEach xs d = (cleared, d') \<Longrightarrow>
   (\<forall>x \<in> set cleared. iSyncStatus x \<noteq> StatusConflict \<and> iSyncStatus x \<noteq> StatusRejected) \<and>
   failures d' = filter (\<lambda>f. fInodeID f \<notin> iID ` set cleared) (failures d) \<and>
   wbqueue d' = filter (\<lambda>e. \<not> (wInodeID e \<in> iID ` set cleared \<and> wAction e = Upload \<and> wStatus e = WbFailed)) (wbqueue d)"
proof (induction xs d arbitrary: cleared d' rule: clearEach.induct)
  case (2 x xs d)
  show ?case
  proof (cases "iSyncStatus x = StatusConflict \<or> iSyncStatus x = StatusRejected")
    case True
    then have "clearEach xs d = (cleared, d')" using "2.prems"(3) by simp
    with "2.IH"(1) [OF True "2.prems"(1,2)] show ?thesis by blast
  next
    case False
    let ?d = "snd (DeleteFailedUploadWritebacks (iID x) (snd (DeleteSyncFailures (iID x) d)))"
    have d: "?d = d\<lparr>failures := filter (\<lambda>f. fInodeID f \<noteq> iID x) (failures d),
        wbqueue := filter (\<lambda>e. \<not> (wInodeID e = iID x \<and> wAction e = Upload \<and> wStatus e = WbFailed)) (wbqueue d)\<rparr>"
      using "2.prems" by (simp add: db_defs snd_exec sql_delete_def)
    obtain cs where cs: "clearEach xs ?d = (cs, d')" "cleared = x # cs"
      using "2.prems"(3) False by (auto simp: Let_def split: prod.splits)
    have IH: "(\<forall>x \<in> set cs. iSyncStatus x \<noteq> StatusConflict \<and> iSyncStatus x \<noteq> StatusRejected) \<and>
       failures d' = filter (\<lambda>f. fInodeID f \<notin> iID ` set cs) (failures ?d) \<and>
       wbqueue d' = filter (\<lambda>e. \<not> (wInodeID e \<in> iID ` set cs \<and> wAction e = Upload \<and> wStatus e = WbFailed)) (wbqueue ?d)"
      using "2.IH"(2) [OF False refl refl, of cs d'] cs(1) "2.prems"(1,2) by (simp add: d)
    show ?thesis
      using IH False cs(2) by (auto simp: d intro!: filter_cong)
  qed
qed auto

section \<open>Properties\<close>

text \<open>
  The tables keep their keys. From a database whose inode ids, remote paths, queue ids and
  failure keys are unique, with the counters above every id, every sequence of calls of every
  method leads to such a database, whichever statements fail.
\<close>

theorem db_calls_keep_keys: "db_ok d \<Longrightarrow> db_ok (fold db_call cs d)"
  by (rule db_sys.inv_run)

text \<open>
  C31: a pending local edit is never forgotten: no method but \<open>MarkSynced\<close> of that very inode
  turns a row's dirty flag off while the row exists. A listing rebuild through \<open>UpsertInode\<close>
  is included.
\<close>

theorem only_MarkSynced_clears_dirty:
  assumes "db_ok d" and "\<And>etag. c \<noteq> CMarkSynced i etag"
    and "r \<in> set (inodes d)" "iID r = i" "iDirty r"
    and "r' \<in> set (inodes (db_call c d))" "iID r' = i"
  shows "iDirty r'"
  using dirty_kept_call [OF assms(1,2)] assms(3-7) by (auto simp: dirty_kept_def)

text \<open>
  \<open>UpsertInode\<close> is an insert-or-merge by remote path. It returns the id under which the
  path is then found; the row found carries the given size, status and parent; a row that was
  there keeps its id, pin and access time, its dirty flag is the disjunction, and empty local
  hash and etag leave the stored ones.
\<close>

theorem UpsertInode_merges:
  assumes "db_ok d" "UpsertInode x d = (Inr i, d')"
  shows "\<exists>r \<in> set (inodes d'). iRemotePath r = iRemotePath x \<and> iID r = i \<and>
     iSize r = iSize x \<and> iSyncStatus r = iSyncStatus x \<and> iParentID r = iParentID x \<and>
     (case find (\<lambda>r. iRemotePath r = iRemotePath x) (inodes d) of
        None \<Rightarrow> i = nextInode d \<and> iDirty r = iDirty x \<and> iPinned r = iPinned x \<and> iEtag r = iEtag x
      | Some r0 \<Rightarrow> iID r0 = i \<and> iPinned r = iPinned r0 \<and> iLastAccess r = iLastAccess r0 \<and>
          iDirty r = (iDirty r0 \<or> iDirty x) \<and>
          iEtag r = (if iEtag x = [] then iEtag r0 else iEtag x) \<and>
          iLocalHash r = (if iLocalHash x = [] then iLocalHash r0 else iLocalHash x))"
proof (cases "find (\<lambda>r. iRemotePath r = iRemotePath x) (inodes d)")
  case None
  with assms(2) show ?thesis
    by (auto simp: UpsertInode_def fresh_row_def Inode.defs inode_row.defs split: if_splits)
next
  case (Some r0)
  have r0: "r0 \<in> set (inodes d)" "iRemotePath r0 = iRemotePath x"
    using Some by (auto simp: find_Some_iff)
  have d': "d' = upd_inodes (\<lambda>r. iRemotePath r = iRemotePath x) (conflict_row x) d" "i = iID r0"
    using assms(2) Some by (auto simp: UpsertInode_def split: if_splits)
  have "conflict_row x r0 \<in> set (inodes d')"
    using r0 d' by (force simp: upd_inodes_def set_sql_update)
  then show ?thesis
    using r0 d' Some by (intro bexI [of _ "conflict_row x r0"]) (auto simp: conflict_row_def)
qed

text \<open>
  \<open>EnqueueWriteback\<close> coalesces. On a read-only mount it refuses and changes nothing; when it
  succeeds, the queue is the old one without the pending entries of the same inode and action
  (renames excepted) followed by one fresh pending entry, an upload carries a non-empty
  idempotency key, and exactly one pending entry of that inode and action is left.
\<close>

theorem EnqueueWriteback_coalesces:
  assumes "newKey \<noteq> []"
  shows "case EnqueueWriteback newKey now i action path x d of
     (Some err, d') \<Rightarrow> (writebackDisabled d \<and> err = ErrReadOnlyMount \<and> d' = d) \<or>
        (\<not> writebackDisabled d \<and> err = SqlError \<and> (sqlFails d OpEnqueueDelete \<or> sqlFails d OpEnqueueInsert))
   | (None, d') \<Rightarrow> \<not> writebackDisabled d \<and> inodes d' = inodes d \<and> failures d' = failures d \<and>
       (\<exists>e. wbqueue d' = filter (\<lambda>e. action = Rename \<or>
               \<not> (wInodeID e = i \<and> wAction e = action \<and> wStatus e = WbPending)) (wbqueue d) @ [e] \<and>
            wID e = nextWb d \<and> wInodeID e = i \<and> wAction e = action \<and> wRemotePath e = path \<and>
            wStatus e = WbPending \<and> wAttempts e = 0 \<and> wEnqueuedAt e = now \<and>
            (action = Upload \<longrightarrow> UploadKeyFromExtra (wExtraJSON e) \<noteq> [])) \<and>
       (action \<noteq> Rename \<longrightarrow>
          sql_count (\<lambda>e. wInodeID e = i \<and> wAction e = action \<and> wStatus e = WbPending) (wbqueue d') = 1)"
proof -
  let ?P = "\<lambda>e. wInodeID e = i \<and> wAction e = action \<and> wStatus e = WbPending"
  have none: "filter ?P (filter (\<lambda>e. \<not> ?P e) (wbqueue d)) = []"
    by (simp add: filter_empty_conv)
  have keep: "filter (\<lambda>e. action = Rename \<or> \<not> ?P e) (wbqueue d) =
      (if action = Rename then wbqueue d else filter (\<lambda>e. \<not> ?P e) (wbqueue d))"
    by simp
  have key: "action = Upload \<longrightarrow> UploadKeyFromExtra (if action = Upload \<and> UploadKeyFromExtra x = []
      then MarshalUploadExtra newKey else x) \<noteq> []"
    using assms by (simp add: MarshalUploadExtra_def UploadKeyFromExtra_def)
  consider "writebackDisabled d" | "\<not> writebackDisabled d" "action \<noteq> Rename" "sqlFails d OpEnqueueDelete"
    | "\<not> writebackDisabled d" "\<not> (action \<noteq> Rename \<and> sqlFails d OpEnqueueDelete)" "sqlFails d OpEnqueueInsert"
    | "\<not> writebackDisabled d" "\<not> (action \<noteq> Rename \<and> sqlFails d OpEnqueueDelete)" "\<not> sqlFails d OpEnqueueInsert"
    by blast
  then show ?thesis
  proof cases
    case 4
    then show ?thesis
      using none key
      by (simp only: EnqueueWriteback_def Let_def if_False if_True prod.case option.case sql_delete_def keep)
         (simp add: sql_count_def)
  qed (simp_all add: EnqueueWriteback_def Let_def)
qed

text \<open>
  \<open>DequeueWriteback\<close> claims the oldest due entries. It returns at most the limit; each
  entry returned was pending and due and is now in progress; an entry that was due and is not
  returned is no older than any returned, and the limit was reached; no entry disappears and
  the others are unchanged.
\<close>

theorem DequeueWriteback_claims_oldest:
  assumes "db_ok d" and "DequeueWriteback now limit b0 d = (Inr es, d')"
    and "b = (if b0 \<le> 0 then now + 1 else b0)"
  shows "length es \<le> limit \<and>
    (\<forall>e \<in> set es. \<exists>e0 \<in> set (wbqueue d). due b e0 \<and> e = e0\<lparr>wStatus := WbInProgress\<rparr>) \<and>
    (\<forall>e \<in> set (wbqueue d). due b e \<longrightarrow> wID e \<notin> wID ` set es \<longrightarrow>
       length es = limit \<and> (\<forall>c \<in> set es. (wEnqueuedAt c, wID c) \<le> (wEnqueuedAt e, wID e))) \<and>
    map wID (wbqueue d') = map wID (wbqueue d) \<and>
    (\<forall>e \<in> set (wbqueue d). wID e \<notin> wID ` set es \<longrightarrow> e \<in> set (wbqueue d'))"
  using dequeue_facts [OF assms(1,2)] unfolding assms(3) by (intro conjI) assumption+

text \<open>
  A crash between claim and completion loses nothing: if no entry was in progress, requeuing
  after a claim restores the queue exactly.
\<close>

theorem RequeueInProgress_undoes_claim:
  assumes "\<not> sqlFails d OpRequeueInProgress" and "\<forall>e \<in> set (wbqueue d). wStatus e \<noteq> WbInProgress"
    and "db_ok d"
  shows "wbqueue (snd (RequeueInProgress (snd (DequeueWriteback now limit b d)))) = wbqueue d"
proof -
  let ?b = "if b \<le> 0 then now + 1 else b"
  let ?ids = "set (claim_ids limit ?b (wbqueue d))"
  have dist: "distinct (map wID (wbqueue d))" using assms(3) by (simp add: db_ok_def)
  have pend: "wStatus e = WbPending" if "e \<in> set (wbqueue d)" "wID e \<in> ?ids" for e
  proof -
    have "e \<in> set (take limit (sort_key (\<lambda>e. (wEnqueuedAt e, wID e)) (filter (due ?b) (wbqueue d))))"
      using set_claimed [OF dist that(1), of limit ?b] that(2) by blast
    then have "e \<in> set (sort_key (\<lambda>e. (wEnqueuedAt e, wID e)) (filter (due ?b) (wbqueue d)))"
      by (rule in_set_takeD)
    then show ?thesis by (simp only: set_sort set_filter mem_Collect_eq due_def)
  qed
  have "map (\<lambda>e. if wStatus e = WbInProgress then e\<lparr>wStatus := WbPending\<rparr> else e)
       (map (\<lambda>e. if wID e \<in> ?ids then e\<lparr>wStatus := WbInProgress\<rparr> else e) (wbqueue d)) = wbqueue d"
    unfolding map_map by (rule map_idI) (use assms(2) pend in \<open>force split: if_splits\<close>)
  moreover have "wbqueue (snd (RequeueInProgress d)) = wbqueue d"
    using assms(1,2) by (simp add: RequeueInProgress_def upd_queue_def sql_update_none)
  ultimately show ?thesis
    using assms(1)
    by (auto simp: DequeueWriteback_def RequeueInProgress_def upd_queue_def sql_update_def Let_def split: if_splits)
qed

text \<open>
  A read-only mount queues nothing: while write-back is disabled and nobody re-enables it, no
  sequence of calls adds an entry to the queue.
\<close>

theorem read_only_queues_nothing:
  assumes "writebackDisabled d" and "\<And>v. CSetWritebackDisabled v \<notin> set cs"
  shows "wID ` set (wbqueue (fold db_call cs d)) \<subseteq> wID ` set (wbqueue d) \<and> writebackDisabled (fold db_call cs d)"
  using assms
proof (induction cs arbitrary: d)
  case (Cons c cs)
  have step: "wID ` set (wbqueue (db_call c d)) \<subseteq> wID ` set (wbqueue d) \<and> writebackDisabled (db_call c d)"
    using Cons.prems by (intro read_only_step) auto
  moreover have "wID ` set (wbqueue (fold db_call cs (db_call c d))) \<subseteq> wID ` set (wbqueue (db_call c d)) \<and>
      writebackDisabled (fold db_call cs (db_call c d))"
    using step Cons.prems by (intro Cons.IH) auto
  ultimately show ?case by (simp only: fold_Cons o_apply) blast
qed simp

text \<open>
  The retry delay is the exact capped exponential, for every attempt count: 30 seconds doubled
  per attempt, at most one hour. The 64-bit shift overflows for large counts; the result is the
  cap there too.
\<close>

theorem TransferBackoff_exact:
  "sint (TransferBackoff n) = min (30000000000 * 2 ^ nat (max 1 n - 1)) 3600000000000"
proof -
  let ?k = "nat (max 1 n - 1)"
  have eq: "TransferBackoff n = backoff_shift ?k"
    by (cases "n < 1") (simp_all add: TransferBackoff_def backoff_shift_def Let_def max_def)
  show ?thesis unfolding eq by (rule backoff_shift_exact)
qed

text \<open>
  A manual retry of everything clears the latches of exactly the inodes it reports. For each
  inode reported, no failure record and no failed upload is left; records and queue entries of
  inodes not reported are untouched; an inode in conflict or rejected is never reported.
\<close>

theorem ClearFailedTransfers_clears:
  assumes "\<not> sqlFails d OpDeleteSyncFailures" "\<not> sqlFails d OpDeleteFailedUpload"
    and "ClearFailedTransfers path d = (Inr cleared, d')"
  shows "(\<forall>x \<in> set cleared. iSyncStatus x \<noteq> StatusConflict \<and> iSyncStatus x \<noteq> StatusRejected) \<and>
     failures d' = filter (\<lambda>f. fInodeID f \<notin> iID ` set cleared) (failures d) \<and>
     wbqueue d' = filter (\<lambda>e. \<not> (wInodeID e \<in> iID ` set cleared \<and> wAction e = Upload \<and> wStatus e = WbFailed)) (wbqueue d)"
proof -
  consider "cleared = []" "d' = d" | xs where "clearEach xs d = (cleared, d')"
    using assms(3) by (auto simp: ClearFailedTransfers_def simp del: clearEach.simps split: if_splits sum.splits prod.splits)
  then show ?thesis
  proof cases
    case 1
    then show ?thesis by simp
  next
    case 2
    with clearEach_spec [OF assms(1,2)] show ?thesis by blast
  qed
qed

text \<open>
  A single-path retry never reports a database error: when the row cannot be read, it reports
  that nothing was cleared and succeeds.
\<close>

theorem ClearFailedTransfers_path_never_fails:
  assumes "path \<noteq> []"
  shows "\<exists>cleared d'. ClearFailedTransfers path d = (Inr cleared, d')"
  using assms
  by (auto simp: ClearFailedTransfers_def case_prod_beta simp del: clearEach.simps split: sum.splits)

section \<open>Witnesses\<close>

definition sample_row :: inode_row where
  "sample_row = fresh_row 1 (zero_inode\<lparr>iRemotePath := ''a.txt'', iDirty := True, iEtag := ''v1''\<rparr>)"

definition sample_entry :: WritebackEntry where
  "sample_entry = \<lparr>wID = 1, wInodeID = 1, wAction = Upload, wRemotePath = ''a.txt'',
     wExtraJSON = ExtraObject ''k'' [], wEnqueuedAt = 5, wAttempts = 0, wLastError = [], wStatus = WbPending\<rparr>"

definition sample_db :: db where
  "sample_db = \<lparr>inodes = [sample_row], nextInode = 2, wbqueue = [sample_entry], nextWb = 2,
     failures = [\<lparr>fInodeID = 1, fKind = FailureUpload, fPermanent = False, fAttempts = 1,
                   fNextRetryAt = 0, fLastError = ''x''\<rparr>],
     writebackDisabled = False, sqlFails = (\<lambda>_. False)\<rparr>"

lemmas sample_defs = sample_db_def sample_row_def sample_entry_def fresh_row_def zero_inode_def
  Inode.defs inode_row.defs

lemma sample_db_ok: "db_ok sample_db"
  by (simp add: db_ok_def sample_defs failure_key_def)

theorem db_calls_keep_keys_witness:
  "db_ok sample_db \<and> db_ok (fold db_call [CMarkDirty 1, CDequeue 9 10 0, CDeleteWriteback 1] sample_db)"
  using db_calls_keep_keys [OF sample_db_ok] sample_db_ok by blast

theorem only_MarkSynced_clears_dirty_witness:
  "iDirty sample_row \<and> iDirty (sample_row\<lparr>iCached := True, iContentHash := ''h'', iLastAccess := 7\<rparr>)"
proof -
  have "iDirty (sample_row\<lparr>iCached := True, iContentHash := ''h'', iLastAccess := 7\<rparr>)"
    by (rule only_MarkSynced_clears_dirty [OF sample_db_ok, of "CMarkCached 7 1 ''h''" 1 sample_row])
       (simp_all add: sample_defs MarkCached_def exec_def upd_inodes_def sql_update_def)
  then show ?thesis by (simp add: sample_defs)
qed

theorem UpsertInode_merges_witness:
  "\<exists>d'. UpsertInode (zero_inode\<lparr>iRemotePath := ''a.txt'', iSize := 4\<rparr>) sample_db = (Inr 1, d') \<and>
     (\<exists>r \<in> set (inodes d'). iRemotePath r = ''a.txt'' \<and> iID r = 1 \<and> iSize r = 4 \<and> iDirty r)"
proof -
  let ?x = "zero_inode\<lparr>iRemotePath := ''a.txt'', iSize := 4\<rparr>"
  let ?d' = "snd (UpsertInode ?x sample_db)"
  have run: "UpsertInode ?x sample_db = (Inr 1, ?d')"
    by (simp add: UpsertInode_def sample_defs)
  from UpsertInode_merges [OF sample_db_ok run]
  have "\<exists>r \<in> set (inodes ?d'). iRemotePath r = ''a.txt'' \<and> iID r = 1 \<and> iSize r = 4 \<and> iDirty r"
    by (auto simp: sample_defs)
  with run show ?thesis by blast
qed

theorem EnqueueWriteback_coalesces_witness:
  "\<exists>d'. EnqueueWriteback ''key'' 9 1 Upload ''a.txt'' ExtraEmpty sample_db = (None, d') \<and>
     sql_count (\<lambda>e. wInodeID e = 1 \<and> wAction e = Upload \<and> wStatus e = WbPending) (wbqueue d') = 1"
proof -
  let ?r = "EnqueueWriteback ''key'' 9 1 Upload ''a.txt'' ExtraEmpty sample_db"
  have run: "?r = (None, snd ?r)" by (simp add: EnqueueWriteback_def sample_db_def Let_def)
  have "case ?r of (Some err, d') \<Rightarrow> True | (None, d') \<Rightarrow>
      sql_count (\<lambda>e. wInodeID e = 1 \<and> wAction e = Upload \<and> wStatus e = WbPending) (wbqueue d') = 1"
    using EnqueueWriteback_coalesces [where newKey = "''key''" and now = 9 and i = 1 and action = Upload
        and path = "''a.txt''" and x = ExtraEmpty and d = sample_db]
    by (auto split: prod.splits option.splits)
  then have "sql_count (\<lambda>e. wInodeID e = 1 \<and> wAction e = Upload \<and> wStatus e = WbPending) (wbqueue (snd ?r)) = 1"
    by (subst (asm) run) (simp del: One_nat_def)
  with run show ?thesis by (intro exI conjI)
qed

theorem DequeueWriteback_claims_oldest_witness:
  "\<exists>es d'. DequeueWriteback 9 10 0 sample_db = (Inr es, d') \<and> length es \<le> 10 \<and>
     map wID (wbqueue d') = map wID (wbqueue sample_db)"
proof -
  obtain es d' where run: "DequeueWriteback 9 10 0 sample_db = (Inr es, d')"
    by (simp add: DequeueWriteback_def sample_db_def Let_def)
  have "(10 :: int) = (if (0 :: int) \<le> 0 then 9 + 1 else 0)" by simp
  from DequeueWriteback_claims_oldest [OF sample_db_ok run this] run show ?thesis by blast
qed

theorem RequeueInProgress_undoes_claim_witness:
  "wbqueue (snd (RequeueInProgress (snd (DequeueWriteback 9 10 0 sample_db)))) = wbqueue sample_db"
  by (rule RequeueInProgress_undoes_claim) (simp_all add: sample_db_ok, simp_all add: sample_defs)

theorem read_only_queues_nothing_witness:
  "wID ` set (wbqueue (fold db_call [CEnqueue ''k'' 9 1 Upload ''a'' ExtraEmpty] (sample_db\<lparr>writebackDisabled := True\<rparr>)))
     \<subseteq> wID ` set (wbqueue (sample_db\<lparr>writebackDisabled := True\<rparr>)) \<and>
   writebackDisabled (fold db_call [CEnqueue ''k'' 9 1 Upload ''a'' ExtraEmpty] (sample_db\<lparr>writebackDisabled := True\<rparr>))"
  by (rule read_only_queues_nothing) simp_all

theorem ClearFailedTransfers_clears_witness:
  "\<exists>cleared d'. ClearFailedTransfers [] sample_db = (Inr cleared, d') \<and> map iID cleared = [1] \<and> failures d' = []"
proof -
  let ?r = "ClearFailedTransfers [] sample_db"
  have "case fst ?r of Inr cleared \<Rightarrow> map iID cleared = [1] | Inl _ \<Rightarrow> False"
    by code_simp
  then obtain cleared where cl: "fst ?r = Inr cleared" and ids: "map iID cleared = [1]"
    by (auto split: sum.splits)
  then have run: "?r = (Inr cleared, snd ?r)" by (metis prod.collapse)
  have "iID ` set cleared = set (map iID cleared)" by simp
  then have one: "iID ` set cleared = {1}" by (simp only: ids) simp
  have "failures (snd ?r) = filter (\<lambda>f. fInodeID f \<notin> iID ` set cleared) (failures sample_db)"
    using ClearFailedTransfers_clears [OF _ _ run] by (simp add: sample_db_def)
  then have "failures (snd ?r) = []" by (simp add: one sample_db_def)
  with run ids show ?thesis by (intro exI conjI)
qed

theorem ClearFailedTransfers_path_never_fails_witness:
  "\<exists>cleared d'. ClearFailedTransfers ''a.txt'' (sample_db\<lparr>sqlFails := (\<lambda>_. True)\<rparr>) = (Inr cleared, d')"
  by (rule ClearFailedTransfers_path_never_fails) simp

end
