(* ===== verification/BlobStore.thy ===== *)
theory BlobStore
  imports CacheDB FileCrypt
begin

text \<open>
  The blob store of the mount's cache: \<open>internal/mount/cache/store.go\<close> and the temporary names of
  \<open>internal/fsutil/atomic.go\<close>. A blob is a file \<open><shard>/<rest of hash>\<close> under the store
  directory, holding records of a 4-byte length, a nonce and a sealed chunk; a small cache keeps
  opened chunks.

  The directory is a list of files; the field \<open>ioFails\<close> says which system calls fail and
  \<open>writeLimit\<close> how many bytes of a new file the disk takes. Time, the random nonces and the name
  of a temporary file are arguments; so is what a source file yields on each of the two passes
  over it, which may differ. Reading an open file gives the bytes it holds.
\<close>

section \<open>Files\<close>

definition TempPrefix :: string where "TempPrefix = ''.pigcloud-tmp-''"
definition legacyTempPrefix :: string where "legacyTempPrefix = ''.tmp-''"

definition IsTempName :: "string \<Rightarrow> bool" where
  "IsTempName name \<longleftrightarrow> HasPrefix name TempPrefix \<or> HasPrefix name legacyTempPrefix"

text \<open>A file under the store directory; the shard is empty for a file in the directory itself.\<close>

record blob_file =
  bShard :: string
  bName :: string
  bData :: bytes
  bModTime :: int

datatype sop =
    IoMkdir | IoCreateTemp | IoSync | IoStatTemp | IoClose | IoRename | IoRemoveTemp | IoOpen
  | IoStat | IoRemove | IoReadDir | IoReadShard string | IoInfo | IoRemoveAllOf "string \<times> string"

datatype storeError =
    StoreAead | MkdirError | CreateTempError | WriteError | SyncError | CloseError | RenameError
  | OpenSource | HashSource | ReopenSource | SourceChanged
  | OpenError | StatError | RemoveError | ReadDirError | RemoveAllError
  | ReadChunkLengthError | ReadNonceError | ReadCiphertextError | DecryptChunk int | WriteChunk int
  | SeekChunk int | TruncatedLength int | ErrChunkEOF

type_synonym chunkKey = "string \<times> int"

record store =
  sFiles :: "blob_file list"
  sCek :: bytes
  sBytes :: int
  chunkCache :: "chunkKey \<rightharpoonup> bytes"
  chunkOrder :: "chunkKey list"
  ioFails :: "sop \<Rightarrow> bool"
  writeLimit :: "nat option"

definition cacheChunkSize :: nat where "cacheChunkSize = 1024 * 1024"
definition storeNonceSize :: nat where "storeNonceSize = 24"
definition fullRecordSize :: nat where "fullRecordSize = 4 + storeNonceSize + cacheChunkSize + Overhead"
definition chunkCacheMax :: nat where "chunkCacheMax = 8"

definition pathFor :: "string \<Rightarrow> string \<times> string" where
  "pathFor hash = (if length hash < 4 then ([], hash) else (take 2 hash, drop 2 hash))"

definition file_path :: "blob_file \<Rightarrow> string \<times> string" where
  "file_path f = (bShard f, bName f)"

definition find_file :: "string \<times> string \<Rightarrow> store \<Rightarrow> blob_file option" where
  "find_file p s = find (\<lambda>f. file_path f = p) (sFiles s)"

text \<open>\<open>os.Stat\<close> and \<open>os.Open\<close> of a blob's path.\<close>

definition stat_blob :: "string \<Rightarrow> store \<Rightarrow> blob_file option" where
  "stat_blob hash s = (if ioFails s IoStat then None else find_file (pathFor hash) s)"

definition open_blob :: "string \<Rightarrow> store \<Rightarrow> bytes option" where
  "open_blob hash s = (if ioFails s IoOpen then None else map_option bData (find_file (pathFor hash) s))"

text \<open>The entries that the directory walks visit: in a readable shard, not temporary.\<close>

definition shard_entries :: "store \<Rightarrow> blob_file list" where
  "shard_entries s = filter (\<lambda>f. bShard f \<noteq> [] \<and> \<not> ioFails s (IoReadShard (bShard f)))
     (sort_key file_path (sFiles s))"

definition walkBytes :: "store \<Rightarrow> int" where
  "walkBytes s =
     (if ioFails s IoReadDir then 0
      else sum_list (map (\<lambda>f. int (length (bData f)))
             (filter (\<lambda>f. \<not> IsTempName (bName f) \<and> \<not> ioFails s IoInfo) (shard_entries s))))"

definition NewStore :: "bytes \<Rightarrow> blob_file list \<Rightarrow> (sop \<Rightarrow> bool) \<Rightarrow> nat option \<Rightarrow> storeError + store" where
  "NewStore cek files io limit =
     (if io IoMkdir then Inl MkdirError
      else let s = \<lparr>sFiles = files, sCek = cek, sBytes = 0, chunkCache = Map.empty, chunkOrder = [],
                    ioFails = io, writeLimit = limit\<rparr>
           in Inr (s\<lparr>sBytes := walkBytes s\<rparr>))"

definition ResyncBytes :: "store \<Rightarrow> int \<times> store" where
  "ResyncBytes s = (let n = walkBytes s in (n, s\<lparr>sBytes := n\<rparr>))"

definition Bytes :: "store \<Rightarrow> int \<times> store" where
  "Bytes s = (if sBytes s \<ge> 0 then (sBytes s, s) else ResyncBytes s)"

definition CloseStore :: "store \<Rightarrow> store" where
  "CloseStore s = s\<lparr>sCek := replicate (length (sCek s)) 0\<rparr>"

section \<open>Writing a blob\<close>

definition chunkAD :: "nat \<Rightarrow> string \<Rightarrow> bytes" where
  "chunkAD offset hash = be_put 8 offset @ bytes_of_string hash"

text \<open>The records of a stream; \<open>i\<close> counts the random nonces drawn.\<close>

function seal_records :: "prims \<Rightarrow> bytes \<Rightarrow> string \<Rightarrow> (nat \<Rightarrow> bytes) \<Rightarrow> nat \<Rightarrow> nat \<Rightarrow> bytes \<Rightarrow> bytes" where
  "seal_records P cek hash nonces i tot input =
     (if input = [] then []
      else let buf = take cacheChunkSize input;
               ciphertext = pSeal P cek (nonces i) buf (chunkAD tot hash)
           in be_put 4 (length ciphertext) @ nonces i @ ciphertext @
              seal_records P cek hash nonces (Suc i) (tot + length buf) (drop cacheChunkSize input))"
  by pat_completeness auto
termination
  by (relation "measure (\<lambda>(P, cek, hash, nonces, i, tot, input). length input)")
     (auto simp: cacheChunkSize_def)

declare seal_records.simps [simp del]

text \<open>The writer keeps what fits and reports the first write that does not.\<close>

definition sealStream :: "prims \<Rightarrow> (nat \<Rightarrow> bytes) \<Rightarrow> bytes \<Rightarrow> string \<Rightarrow> store \<Rightarrow> bytes \<times> storeError option" where
  "sealStream P nonces input hash s =
     (if \<not> newX_ok (sCek s) then ([], Some StoreAead)
      else let out = seal_records P (sCek s) hash nonces 0 0 input in
           case writeLimit s of
             None \<Rightarrow> (out, None)
           | Some n \<Rightarrow> if length out \<le> n then (out, None) else (take n out, Some WriteError))"

text \<open>The deferred clean-up removes the temporary file of a call that did not commit.\<close>

definition abandon_temp :: "blob_file \<Rightarrow> storeError \<Rightarrow> store \<Rightarrow> storeError option \<times> store" where
  "abandon_temp tmp e s =
     (Some e, if ioFails s IoRemoveTemp then s\<lparr>sFiles := sFiles s @ [tmp]\<rparr> else s)"

definition putSealed ::
  "int \<Rightarrow> string \<Rightarrow> string \<Rightarrow> bytes \<times> storeError option \<Rightarrow> store \<Rightarrow> storeError option \<times> store" where
  "putSealed now tmpName hash seal s =
     (case stat_blob hash s of
        Some _ \<Rightarrow> (None, s)
      | None \<Rightarrow>
          if ioFails s IoMkdir then (Some MkdirError, s)
          else if ioFails s IoCreateTemp then (Some CreateTempError, s)
          else
            let (shard, name) = pathFor hash; (data, sealErr) = seal;
                tmp = \<lparr>bShard = shard, bName = tmpName, bData = data, bModTime = now\<rparr>
            in case sealErr of
                 Some e \<Rightarrow> abandon_temp tmp e s
               | None \<Rightarrow>
                   if ioFails s IoSync then abandon_temp tmp SyncError s
                   else
                     let written = (if ioFails s IoStatTemp then 0 else int (length data)) in
                     if ioFails s IoClose then abandon_temp tmp CloseError s
                     else if ioFails s IoRename then abandon_temp tmp RenameError s
                     else (None, s\<lparr>sFiles := filter (\<lambda>f. file_path f \<noteq> (shard, name)) (sFiles s) @ [tmp\<lparr>bName := name\<rparr>],
                                   sBytes := sBytes s + written\<rparr>))"

definition hash_of :: "prims \<Rightarrow> bytes \<Rightarrow> string" where
  "hash_of P data = hex_encode (pSha256 P data)"

definition Put ::
  "prims \<Rightarrow> int \<Rightarrow> string \<Rightarrow> (nat \<Rightarrow> bytes) \<Rightarrow> bytes \<Rightarrow> store \<Rightarrow> (storeError + string) \<times> store" where
  "Put P now tmpName nonces data s =
     (let hash = hash_of P data in
      case putSealed now tmpName hash (sealStream P nonces data hash s) s of
        (Some e, s') \<Rightarrow> (Inl e, s')
      | (None, s') \<Rightarrow> (Inr hash, s'))"

text \<open>The two passes of \<open>PutFile\<close> over the source: what each read yields, or that it could not
  be opened or read.\<close>

definition PutFile ::
  "prims \<Rightarrow> int \<Rightarrow> string \<Rightarrow> (nat \<Rightarrow> bytes) \<Rightarrow> storeError + bytes \<Rightarrow> bytes option \<Rightarrow> store \<Rightarrow>
   (storeError + string) \<times> store" where
  "PutFile P now tmpName nonces pass1 pass2 s =
     (case pass1 of
        Inl e \<Rightarrow> (Inl e, s)
      | Inr data1 \<Rightarrow>
          (let hash = hash_of P data1;
               seal = (case pass2 of
                         None \<Rightarrow> ([], Some ReopenSource)
                       | Some data2 \<Rightarrow>
                           (case sealStream P nonces data2 hash s of
                              (out, Some e) \<Rightarrow> (out, Some e)
                            | (out, None) \<Rightarrow>
                                (out, if hash_of P data2 \<noteq> hash then Some SourceChanged else None)))
           in case putSealed now tmpName hash seal s of
                (Some e, s') \<Rightarrow> (Inl e, s')
              | (None, s') \<Rightarrow> (Inr hash, s')))"

section \<open>Reading a blob\<close>

text \<open>The loop shared by \<open>Get\<close> and \<open>WriteTo\<close>: the chunks opened, with the offset of each, and
  the error that stopped it, if any.\<close>

function open_records ::
  "prims \<Rightarrow> bytes \<Rightarrow> string \<Rightarrow> nat \<Rightarrow> bytes \<Rightarrow> (nat \<times> bytes) list \<times> storeError option" where
  "open_records P cek hash offset input =
     (if input = [] then ([], None)
      else if length input < 4 then ([], Some ReadChunkLengthError)
      else
        let chunkLen = be_uint (take 4 input); rest = drop 4 input in
        if length rest < storeNonceSize then ([], Some ReadNonceError)
        else
          let nonce = take storeNonceSize rest; body = drop storeNonceSize rest in
          if length body < chunkLen then ([], Some ReadCiphertextError)
          else case pOpen P cek nonce (take chunkLen body) (chunkAD offset hash) of
                 None \<Rightarrow> ([], Some (DecryptChunk (int offset)))
               | Some plaintext \<Rightarrow>
                   (let (more, e) = open_records P cek hash (offset + length plaintext) (drop chunkLen body)
                    in ((offset, plaintext) # more, e)))"
  by pat_completeness auto
termination
  by (relation "measure (\<lambda>(P, cek, hash, offset, input). length input)") auto

declare open_records.simps [simp del]

definition Get :: "prims \<Rightarrow> string \<Rightarrow> store \<Rightarrow> storeError + bytes" where
  "Get P hash s =
     (case open_blob hash s of
        None \<Rightarrow> Inl OpenError
      | Some data \<Rightarrow>
          if \<not> newX_ok (sCek s) then Inl StoreAead
          else case open_records P (sCek s) hash 0 data of
                 (chunks, Some e) \<Rightarrow> Inl e
               | (chunks, None) \<Rightarrow> Inr (concat (map snd chunks)))"

text \<open>A writer that takes at most \<open>cap\<close> bytes: what it took, and the offset of the chunk that did
  not fit.\<close>

fun write_chunks :: "nat option \<Rightarrow> (nat \<times> bytes) list \<Rightarrow> bytes \<times> nat option" where
  "write_chunks cap [] = ([], None)"
| "write_chunks cap ((offset, p) # cs) =
     (case cap of
        None \<Rightarrow> (let (w, e) = write_chunks None cs in (p @ w, e))
      | Some n \<Rightarrow> if length p \<le> n then (let (w, e) = write_chunks (Some (n - length p)) cs in (p @ w, e))
                  else (take n p, Some offset))"

definition WriteTo :: "prims \<Rightarrow> string \<Rightarrow> nat option \<Rightarrow> store \<Rightarrow> bytes \<times> storeError option" where
  "WriteTo P hash cap s =
     (case open_blob hash s of
        None \<Rightarrow> ([], Some OpenError)
      | Some data \<Rightarrow>
          if \<not> newX_ok (sCek s) then ([], Some StoreAead)
          else
            let (chunks, readErr) = open_records P (sCek s) hash 0 data;
                (written, writeErr) = write_chunks cap chunks
            in (written, case writeErr of Some offset \<Rightarrow> Some (WriteChunk (int offset)) | None \<Rightarrow> readErr))"

section \<open>Reading a range\<close>

definition readChunkAt :: "prims \<Rightarrow> bytes \<Rightarrow> bytes \<Rightarrow> int \<Rightarrow> string \<Rightarrow> storeError + bytes" where
  "readChunkAt P cek file chunkIdx hash =
     (if \<not> newX_ok cek then Inl StoreAead
      else
        let pos = int64 (chunkIdx * int fullRecordSize) in
        if pos < 0 then Inl (SeekChunk chunkIdx)
        else
          let input = drop (nat pos) file in
          if input = [] then Inl ErrChunkEOF
          else if length input < 4 then Inl (TruncatedLength chunkIdx)
          else
            let chunkLen = be_uint (take 4 input); rest = drop 4 input in
            if length rest < storeNonceSize then Inl ReadNonceError
            else
              let nonce = take storeNonceSize rest; body = drop storeNonceSize rest in
              if length body < chunkLen then Inl ReadCiphertextError
              else case pOpen P cek nonce (take chunkLen body)
                          (chunkAD (uint64 (chunkIdx * int cacheChunkSize)) hash) of
                     None \<Rightarrow> Inl (DecryptChunk chunkIdx)
                   | Some plain \<Rightarrow> Inr plain)"

definition chunkCacheGet :: "string \<Rightarrow> int \<Rightarrow> store \<Rightarrow> bytes option" where
  "chunkCacheGet hash idx s = chunkCache s (hash, idx)"

text \<open>The eviction loop of \<open>chunkCachePut\<close>: drop the oldest keys until the bound holds.\<close>

fun trim_order :: "chunkKey list \<Rightarrow> (chunkKey \<rightharpoonup> bytes) \<Rightarrow> chunkKey list \<times> (chunkKey \<rightharpoonup> bytes)" where
  "trim_order [] m = ([], m)"
| "trim_order (k # ks) m = (if length (k # ks) > chunkCacheMax then trim_order ks (m(k := None)) else (k # ks, m))"

definition chunkCachePut :: "string \<Rightarrow> int \<Rightarrow> bytes \<Rightarrow> store \<Rightarrow> store" where
  "chunkCachePut hash idx plain s =
     (let k = (hash, idx);
          (order, m) = (if chunkCache s k = None then trim_order (chunkOrder s @ [k]) (chunkCache s)
                        else (chunkOrder s, chunkCache s))
      in s\<lparr>chunkOrder := order, chunkCache := m(k \<mapsto> plain)\<rparr>)"

definition chunkCacheDrop :: "string \<Rightarrow> store \<Rightarrow> store" where
  "chunkCacheDrop hash s =
     s\<lparr>chunkCache := (\<lambda>k. if k \<in> set (chunkOrder s) \<and> fst k = hash then None else chunkCache s k),
       chunkOrder := filter (\<lambda>k. fst k \<noteq> hash) (chunkOrder s)\<rparr>"

text \<open>One chunk of \<open>ReadAt\<close>: from the cache, or opened from the file and cached.\<close>

definition fetch_chunk :: "prims \<Rightarrow> string \<Rightarrow> int \<Rightarrow> store \<Rightarrow> (storeError + bytes) \<times> store" where
  "fetch_chunk P hash chunkIdx s =
     (case chunkCacheGet hash chunkIdx s of
        Some plain \<Rightarrow> (Inr plain, s)
      | None \<Rightarrow>
          (case open_blob hash s of
             None \<Rightarrow> (Inl OpenError, s)
           | Some file \<Rightarrow>
               (case readChunkAt P (sCek s) file chunkIdx hash of
                  Inl e \<Rightarrow> (Inl e, s)
                | Inr plain \<Rightarrow> (Inr plain, chunkCachePut hash chunkIdx plain s))))"

definition chunk_slice :: "int \<Rightarrow> int \<Rightarrow> int \<Rightarrow> bytes \<Rightarrow> bytes" where
  "chunk_slice off rangeEnd chunkStart plain =
     (let sliceStart = (if off > chunkStart then int64 (off - chunkStart) else 0);
          sliceEnd = min (int64 (rangeEnd - chunkStart)) (int (length plain))
      in if sliceStart < sliceEnd then take (nat (sliceEnd - sliceStart)) (drop (nat sliceStart) plain) else [])"

text \<open>The loop of \<open>ReadAt\<close> on 64-bit offsets; not returning would be \<^term>\<open>None\<close>.\<close>

partial_function (option) readAt_loop ::
  "prims \<Rightarrow> string \<Rightarrow> int \<Rightarrow> int \<Rightarrow> int \<Rightarrow> bytes \<Rightarrow> store \<Rightarrow> ((storeError + bytes) \<times> store) option" where
  "readAt_loop P hash off rangeEnd chunkIdx result s =
     (let chunkStart = int64 (chunkIdx * int cacheChunkSize) in
      if \<not> chunkStart < rangeEnd then Some (Inr result, s)
      else
        case fetch_chunk P hash chunkIdx s of
          (Inl e, s') \<Rightarrow> if e = ErrChunkEOF then Some (Inr result, s') else Some (Inl e, s')
        | (Inr plain, s') \<Rightarrow>
            if plain = [] then Some (Inr result, s')
            else if length plain < cacheChunkSize
                 then Some (Inr (result @ chunk_slice off rangeEnd chunkStart plain), s')
                 else readAt_loop P hash off rangeEnd (int64 (chunkIdx + 1))
                        (result @ chunk_slice off rangeEnd chunkStart plain) s')"

definition ReadAt :: "prims \<Rightarrow> string \<Rightarrow> int \<Rightarrow> int \<Rightarrow> store \<Rightarrow> ((storeError + bytes) \<times> store) option" where
  "ReadAt P hash off sz s =
     (if sz \<le> 0 \<or> off < 0 then Some (Inr [], s)
      else readAt_loop P hash off (int64 (off + sz)) (off div int cacheChunkSize) [] s)"

section \<open>The directory\<close>

definition Has :: "string \<Rightarrow> store \<Rightarrow> bool" where
  "Has hash s = (stat_blob hash s \<noteq> None)"

definition RemoveBlob :: "string \<Rightarrow> store \<Rightarrow> storeError option \<times> store" where
  "RemoveBlob hash s =
     (if hash = [] then (None, s)
      else
        let s1 = chunkCacheDrop hash s;
            sz = (case stat_blob hash s1 of None \<Rightarrow> 0 | Some f \<Rightarrow> int (length (bData f)))
        in if ioFails s1 IoRemove \<or> find_file (pathFor hash) s1 = None then (Some RemoveError, s1)
           else (None, s1\<lparr>sFiles := filter (\<lambda>f. file_path f \<noteq> pathFor hash) (sFiles s1),
                          sBytes := sBytes s1 - sz\<rparr>))"

definition Size :: "string \<Rightarrow> store \<Rightarrow> storeError + int" where
  "Size hash s = (case stat_blob hash s of None \<Rightarrow> Inl StatError | Some f \<Rightarrow> Inr (int (length (bData f))))"

definition ListHashes :: "store \<Rightarrow> storeError + string list" where
  "ListHashes s =
     (if ioFails s IoReadDir then Inl ReadDirError
      else Inr (map (\<lambda>f. bShard f @ bName f) (filter (\<lambda>f. \<not> IsTempName (bName f)) (shard_entries s))))"

definition stale_temp :: "int \<Rightarrow> int \<Rightarrow> store \<Rightarrow> blob_file \<Rightarrow> bool" where
  "stale_temp now minAge s f \<longleftrightarrow> f \<in> set (shard_entries s) \<and> IsTempName (bName f) \<and>
     \<not> ioFails s IoInfo \<and> bModTime f \<le> now - minAge \<and> \<not> ioFails s IoRemove"

definition GCTempFiles :: "int \<Rightarrow> int \<Rightarrow> store \<Rightarrow> (nat \<times> storeError option) \<times> store" where
  "GCTempFiles now minAge s =
     (if ioFails s IoReadDir then ((0, Some ReadDirError), s)
      else ((length (filter (stale_temp now minAge s) (sFiles s)), None),
            s\<lparr>sFiles := filter (\<lambda>f. \<not> stale_temp now minAge s f) (sFiles s)\<rparr>))"

text \<open>\<open>os.RemoveAll\<close> removes what it can and reports an error if anything is left.\<close>

definition CleanAll :: "store \<Rightarrow> storeError option \<times> store" where
  "CleanAll s =
     (let left = filter (\<lambda>f. ioFails s (IoRemoveAllOf (file_path f))) (sFiles s) in
      (if left = [] then None else Some RemoveAllError, s\<lparr>sFiles := left, sBytes := 0\<rparr>))"

end
