(* ===== verification/BlobLaws.thy ===== *)
theory BlobLaws
  imports BlobStore "HOL-Library.Multiset"
begin

text \<open>
  The laws of the blob store. A content function says what the blob of each hash is meant to hold;
  the invariant \<open>store_ok\<close> says that every blob file is a sealing of that content, that every
  cached chunk is the right slice of it, and that the chunk cache is bounded and in step with its
  queue. Every operation keeps it, and under it \<open>Get\<close>, \<open>WriteTo\<close> and \<open>ReadAt\<close> return the
  content or the slice asked for, whatever the chunk cache holds.
\<close>

section \<open>Records\<close>

definition nonces_ok :: "(nat \<Rightarrow> bytes) \<Rightarrow> bool" where
  "nonces_ok nonces \<longleftrightarrow> (\<forall>i. length (nonces i) = NonceSize)"

lemmas chunk_defs = cacheChunkSize_def storeNonceSize_def fullRecordSize_def

lemma chunk_pos [simp]: "0 < cacheChunkSize"
  by (simp add: cacheChunkSize_def)

lemma chunk_nz [simp]: "cacheChunkSize \<noteq> 0"
  by (simp add: cacheChunkSize_def)

lemma seal_records_Nil [simp]: "seal_records P cek hash nonces i tot [] = []"
  by (subst seal_records.simps) simp

lemma seal_records_head:
  assumes "aead_ok P" "length cek = KeySize" "nonces_ok nonces" "input \<noteq> []"
  obtains ct where "seal_records P cek hash nonces i tot input =
      be_put 4 (length ct) @ nonces i @ ct @
      seal_records P cek hash nonces (Suc i) (tot + length (take cacheChunkSize input)) (drop cacheChunkSize input)"
    and "length ct = length (take cacheChunkSize input) + Overhead" and "length (nonces i) = storeNonceSize"
    and "be_uint (be_put 4 (length ct)) = length ct"
    and "pOpen P cek (nonces i) ct (chunkAD tot hash) = Some (take cacheChunkSize input)"
proof
  let ?ct = "pSeal P cek (nonces i) (take cacheChunkSize input) (chunkAD tot hash)"
  show "seal_records P cek hash nonces i tot input =
      be_put 4 (length ?ct) @ nonces i @ ?ct @
      seal_records P cek hash nonces (Suc i) (tot + length (take cacheChunkSize input)) (drop cacheChunkSize input)"
    using assms(4) by (subst seal_records.simps) (simp add: Let_def)
  show len: "length ?ct = length (take cacheChunkSize input) + Overhead"
    using assms by (simp add: aead_length_seal nonces_ok_def)
  show "length (nonces i) = storeNonceSize"
    using assms by (simp add: nonces_ok_def NonceSize_def storeNonceSize_def)
  show "be_uint (be_put 4 (length ?ct)) = length ?ct"
    using len by (intro be_uint_put_small) (simp add: cacheChunkSize_def Overhead_def min_def)
  show "pOpen P cek (nonces i) ?ct (chunkAD tot hash) = Some (take cacheChunkSize input)"
    using assms by (simp add: aead_open_seal nonces_ok_def)
qed

lemma open_seal_records:
  assumes "aead_ok P" "length cek = KeySize" "nonces_ok nonces"
  shows "\<exists>cs. open_records P cek hash tot (seal_records P cek hash nonces i tot input) = (cs, None) \<and>
              concat (map snd cs) = input"
  using assms
proof (induction P cek hash nonces i tot input rule: seal_records.induct)
  case (1 P cek hash nonces i tot input)
  show ?case
  proof (cases "input = []")
    case True
    then show ?thesis by (simp add: open_records.simps [of P cek hash tot "[]"])
  next
    case False
    let ?buf = "take cacheChunkSize input"
    let ?rest = "seal_records P cek hash nonces (Suc i) (tot + length ?buf) (drop cacheChunkSize input)"
    obtain ct where enc: "seal_records P cek hash nonces i tot input = be_put 4 (length ct) @ nonces i @ ct @ ?rest"
      and n: "length (nonces i) = storeNonceSize" and len: "be_uint (be_put 4 (length ct)) = length ct"
      and op: "pOpen P cek (nonces i) ct (chunkAD tot hash) = Some ?buf"
      by (rule seal_records_head [OF "1.prems" False, of hash i tot]) blast
    obtain cs where IH: "open_records P cek hash (tot + length ?buf) ?rest = (cs, None)"
      "concat (map snd cs) = drop cacheChunkSize input"
      using "1.IH" [OF False refl refl] "1.prems" by blast
    have "open_records P cek hash tot (be_put 4 (length ct) @ nonces i @ ct @ ?rest) = ((tot, ?buf) # cs, None)"
      using n len op IH(1) by (subst open_records.simps) (simp add: Let_def)
    with IH(2) show ?thesis unfolding enc by simp
  qed
qed

lemma drop_seal_records:
  assumes "aead_ok P" "length cek = KeySize" "nonces_ok nonces"
  shows "k * cacheChunkSize < length input \<Longrightarrow>
    drop (k * fullRecordSize) (seal_records P cek hash nonces i tot input) =
    seal_records P cek hash nonces (i + k) (tot + k * cacheChunkSize) (drop (k * cacheChunkSize) input)"
proof (induction k arbitrary: i tot input)
  case (Suc k)
  have ne: "input \<noteq> []" and full: "cacheChunkSize < length input" using Suc.prems by auto
  let ?rest = "seal_records P cek hash nonces (Suc i) (tot + cacheChunkSize) (drop cacheChunkSize input)"
  obtain ct where enc: "seal_records P cek hash nonces i tot input = be_put 4 (length ct) @ nonces i @ ct @ ?rest"
    and l: "length ct = cacheChunkSize + Overhead" "length (nonces i) = storeNonceSize"
    by (rule seal_records_head [OF assms ne, of hash i tot]) (use full in \<open>simp add: min_def\<close>)
  have "length (be_put 4 (length ct) @ nonces i @ ct) = fullRecordSize"
    using l by (simp add: fullRecordSize_def)
  then have "drop (Suc k * fullRecordSize) ((be_put 4 (length ct) @ nonces i @ ct) @ ?rest) = drop (k * fullRecordSize) ?rest"
    by (simp only: mult_Suc drop_append) simp
  then have "drop (Suc k * fullRecordSize) (seal_records P cek hash nonces i tot input) = drop (k * fullRecordSize) ?rest"
    by (simp only: enc append_assoc)
  also have "\<dots> = seal_records P cek hash nonces (Suc i + k) (tot + cacheChunkSize + k * cacheChunkSize)
      (drop (k * cacheChunkSize) (drop cacheChunkSize input))"
    using Suc.prems by (intro Suc.IH) simp
  finally show ?case by (simp add: ac_simps)
qed simp

lemma length_seal_records:
  assumes "aead_ok P" "length cek = KeySize" "nonces_ok nonces"
  shows "length input \<le> k * cacheChunkSize \<Longrightarrow>
    length (seal_records P cek hash nonces i tot input) \<le> k * fullRecordSize"
proof (induction k arbitrary: i tot input)
  case (Suc k)
  show ?case
  proof (cases "input = []")
    case False
    let ?buf = "take cacheChunkSize input"
    let ?rest = "seal_records P cek hash nonces (Suc i) (tot + length ?buf) (drop cacheChunkSize input)"
    obtain ct where enc: "seal_records P cek hash nonces i tot input = be_put 4 (length ct) @ nonces i @ ct @ ?rest"
      and l: "length ct = length ?buf + Overhead" "length (nonces i) = storeNonceSize"
      by (rule seal_records_head [OF assms False, of hash i tot]) blast
    have "length ct \<le> cacheChunkSize + Overhead" using l by simp
    moreover have "length ?rest \<le> k * fullRecordSize" using Suc.prems by (intro Suc.IH) simp
    ultimately show ?thesis unfolding enc using l(2) by (simp add: fullRecordSize_def)
  qed simp
qed simp

section \<open>The invariant\<close>

definition chunk_of :: "bytes \<Rightarrow> int \<Rightarrow> bytes" where
  "chunk_of data i = take cacheChunkSize (drop (nat i * cacheChunkSize) data)"

definition sealed_as :: "prims \<Rightarrow> bytes \<Rightarrow> string \<Rightarrow> bytes \<Rightarrow> bytes \<Rightarrow> bool" where
  "sealed_as P cek h data file \<longleftrightarrow> (\<exists>nonces. nonces_ok nonces \<and> file = seal_records P cek h nonces 0 0 data)"

text \<open>A blob file stands where \<open>pathFor\<close> puts its hash and seals that hash's content.\<close>

definition blob_ok :: "prims \<Rightarrow> bytes \<Rightarrow> (string \<Rightarrow> bytes) \<Rightarrow> blob_file \<Rightarrow> bool" where
  "blob_ok P cek c f \<longleftrightarrow> length (bShard f) = 2 \<and> 2 \<le> length (bName f) \<and>
     sealed_as P cek (bShard f @ bName f) (c (bShard f @ bName f)) (bData f)"

definition cache_ok :: "(string \<Rightarrow> bytes) \<Rightarrow> store \<Rightarrow> bool" where
  "cache_ok c s \<longleftrightarrow> (\<forall>h i p. chunkCache s (h, i) = Some p \<longrightarrow> p = chunk_of (c h) i) \<and>
     distinct (chunkOrder s) \<and> set (chunkOrder s) = dom (chunkCache s) \<and> length (chunkOrder s) \<le> chunkCacheMax"

definition files_ok :: "prims \<Rightarrow> (string \<Rightarrow> bytes) \<Rightarrow> store \<Rightarrow> bool" where
  "files_ok P c s \<longleftrightarrow> newX_ok (sCek s) \<and> distinct (map file_path (sFiles s)) \<and>
     (\<forall>f \<in> set (sFiles s). \<not> IsTempName (bName f) \<longrightarrow> blob_ok P (sCek s) c f)"

definition store_ok :: "prims \<Rightarrow> (string \<Rightarrow> bytes) \<Rightarrow> store \<Rightarrow> bool" where
  "store_ok P c s \<longleftrightarrow> files_ok P c s \<and> cache_ok c s"

lemma pathFor_concat: "length sh = 2 \<Longrightarrow> 2 \<le> length nm \<Longrightarrow> pathFor (sh @ nm) = (sh, nm)"
  by (simp add: pathFor_def)

lemma concat_pathFor: "fst (pathFor h) @ snd (pathFor h) = h"
  by (simp add: pathFor_def)

text \<open>A hash: what \<open>hash_of\<close> yields, long enough to be sharded and never a temporary name.\<close>

definition is_hash :: "string \<Rightarrow> bool" where
  "is_hash h \<longleftrightarrow> length h = 64 \<and> h ! 2 \<noteq> CHR ''.''"

definition sha_ok :: "prims \<Rightarrow> bool" where
  "sha_ok P \<longleftrightarrow> (\<forall>m. length (pSha256 P m) = 32)"

lemma is_hash_path:
  assumes "is_hash h"
  shows "pathFor h = (take 2 h, drop 2 h)" "length (take 2 h) = 2" "2 \<le> length (drop 2 h)"
    "\<not> IsTempName (drop 2 h)"
proof -
  have h: "length h = 64" "h ! 2 \<noteq> CHR ''.''" using assms by (simp_all add: is_hash_def)
  then show "pathFor h = (take 2 h, drop 2 h)" "length (take 2 h) = 2" "2 \<le> length (drop 2 h)"
    by (simp_all add: pathFor_def)
  have "drop 2 h = h ! 2 # drop 3 h" using h(1) by (simp add: Cons_nth_drop_Suc numeral_3_eq_3 numeral_2_eq_2)
  then show "\<not> IsTempName (drop 2 h)"
    using h(2) by (simp add: IsTempName_def TempPrefix_def legacyTempPrefix_def HasPrefix_iff)
qed

lemma hex_digit_no_dot: "hex_digit n \<noteq> CHR ''.''" if "n < 16"
proof -
  have "n \<in> set [0..<16]" using that by simp
  moreover have "list_all (\<lambda>n. hex_digit n \<noteq> CHR ''.'') [0..<16]" by code_simp
  ultimately show ?thesis by (auto simp: list_all_iff)
qed

lemma hex_encode_no_dot: "x \<in> set (hex_encode bs) \<Longrightarrow> x \<noteq> CHR ''.''"
proof (induction bs)
  case (Cons b bs)
  have "unat b div 16 < 16" "unat b mod 16 < 16" using unat_byte_bound [of b] by linarith+
  then have "hex_digit (unat b div 16) \<noteq> CHR ''.''" "hex_digit (unat b mod 16) \<noteq> CHR ''.''"
    by (simp_all add: hex_digit_no_dot)
  moreover have "set (hex_encode (b # bs)) = {hex_digit (unat b div 16), hex_digit (unat b mod 16)} \<union> set (hex_encode bs)"
    by (auto simp: hex_encode_def)
  ultimately show ?case using Cons by auto
qed (simp add: hex_encode_def)

lemma is_hash_of:
  assumes "sha_ok P"
  shows "is_hash (hash_of P data)"
proof -
  have len: "length (hash_of P data) = 64" using assms by (simp add: hash_of_def sha_ok_def)
  then have "hash_of P data ! 2 \<in> set (hash_of P data)" by simp
  then have "hash_of P data ! 2 \<noteq> CHR ''.''" unfolding hash_of_def by (rule hex_encode_no_dot)
  with len show ?thesis by (simp add: is_hash_def)
qed

lemma file_at:
  assumes "files_ok P c s" "is_hash h" "find_file (pathFor h) s = Some f"
  shows "sealed_as P (sCek s) h (c h) (bData f)"
proof -
  have f: "f \<in> set (sFiles s)" "bShard f = take 2 h" "bName f = drop 2 h"
    using assms(3) is_hash_path(1) [OF assms(2)] by (auto simp: find_file_def find_Some_iff file_path_def)
  have "\<not> IsTempName (bName f)" using f is_hash_path(4) [OF assms(2)] by simp
  then have "blob_ok P (sCek s) c f" using assms(1) f by (simp add: files_ok_def)
  then show ?thesis using f by (simp add: blob_ok_def)
qed

section \<open>Opening one chunk\<close>

lemma readChunkAt_sealed:
  assumes "aead_ok P" "length cek = KeySize" "sealed_as P cek h data file"
    and "0 \<le> i" "i * int fullRecordSize < 2 ^ 63"
  shows "readChunkAt P cek file i h = (if nat i * cacheChunkSize < length data then Inr (chunk_of data i) else Inl ErrChunkEOF)"
proof -
  obtain nonces where n: "nonces_ok nonces" and blob: "file = seal_records P cek h nonces 0 0 data"
    using assms(3) by (auto simp: sealed_as_def)
  let ?k = "nat i"
  have pos: "int64 (i * int fullRecordSize) = i * int fullRecordSize"
    using assms(4,5) by (intro int64_nonneg) simp_all
  have nonneg: "\<not> i * int fullRecordSize < 0" using assms(4) by (simp add: not_less)
  have npos: "nat (i * int fullRecordSize) = ?k * fullRecordSize"
    using assms(4) by (simp add: nat_mult_distrib)
  have "i * int cacheChunkSize \<le> i * int fullRecordSize"
    using assms(4) by (intro mult_left_mono) (simp_all add: fullRecordSize_def)
  then have small: "0 \<le> i * int cacheChunkSize" "i * int cacheChunkSize < 2 ^ 64"
    using assms(4,5) by simp_all
  have ad: "uint64 (i * int cacheChunkSize) = ?k * cacheChunkSize"
    using small assms(4) by (simp add: uint64_id nat_mult_distrib)
  show ?thesis
  proof (cases "?k * cacheChunkSize < length data")
    case True
    let ?d = "drop (?k * cacheChunkSize) data"
    have dr: "drop (?k * fullRecordSize) file = seal_records P cek h nonces ?k (?k * cacheChunkSize) ?d"
      unfolding blob using drop_seal_records [OF assms(1,2) n True, of h 0 0] by simp
    have ne: "?d \<noteq> []" using True by simp
    obtain ct rest where rec: "drop (?k * fullRecordSize) file = be_put 4 (length ct) @ nonces ?k @ ct @ rest"
      and l: "length (nonces ?k) = storeNonceSize" "be_uint (be_put 4 (length ct)) = length ct"
      and op: "pOpen P cek (nonces ?k) ct (chunkAD (?k * cacheChunkSize) h) = Some (take cacheChunkSize ?d)"
      unfolding dr by (rule seal_records_head [OF assms(1,2) n ne, of h ?k "?k * cacheChunkSize"]) blast
    have "readChunkAt P cek file i h = Inr (take cacheChunkSize ?d)"
      using l op assms(2) nonneg
      by (simp add: readChunkAt_def newX_ok_def pos npos ad rec Let_def del: be_put.simps)
    then show ?thesis using True by (simp add: chunk_of_def)
  next
    case False
    then have "length file \<le> ?k * fullRecordSize"
      unfolding blob by (intro length_seal_records [OF assms(1,2) n]) simp
    then show ?thesis
      using False assms(2) nonneg by (simp add: readChunkAt_def newX_ok_def pos npos Let_def)
  qed
qed

section \<open>The chunk cache\<close>

lemma trim_order_spec:
  "trim_order ks m = (ks', m') \<Longrightarrow>
   \<exists>pre. ks = pre @ ks' \<and> m' = m |` (- set pre) \<and> length ks' = min (length ks) chunkCacheMax"
proof (induction ks m rule: trim_order.induct)
  case (2 k ks m)
  show ?case
  proof (cases "length (k # ks) > chunkCacheMax")
    case True
    then have "trim_order ks (m(k := None)) = (ks', m')" using "2.prems" by simp
    from "2.IH" [OF True this] obtain pre
      where "ks = pre @ ks'" "m' = m(k := None) |` (- set pre)" "length ks' = min (length ks) chunkCacheMax"
      by blast
    moreover have "m(k := None) |` (- set pre) = m |` (- set (k # pre))"
      by (rule ext) (simp add: restrict_map_def)
    ultimately show ?thesis using True by (intro exI [of _ "k # pre"]) simp
  qed (use 2 in \<open>auto simp: min_def restrict_map_def\<close>)
qed (simp add: restrict_map_def)

lemma cache_ok_put:
  assumes "cache_ok c s" "p = chunk_of (c h) i"
  shows "cache_ok c (chunkCachePut h i p s)"
proof (cases "chunkCache s (h, i) = None")
  case True
  obtain order m where t: "trim_order (chunkOrder s @ [(h, i)]) (chunkCache s) = (order, m)"
    by fastforce
  obtain pre where pre: "chunkOrder s @ [(h, i)] = pre @ order" "m = chunkCache s |` (- set pre)"
    "length order = min (length (chunkOrder s) + 1) chunkCacheMax"
    using trim_order_spec [OF t] by auto
  have inv: "distinct (chunkOrder s)" "set (chunkOrder s) = dom (chunkCache s)"
    "\<And>h i p. chunkCache s (h, i) = Some p \<Longrightarrow> p = chunk_of (c h) i"
    using assms(1) by (auto simp: cache_ok_def)
  have new: "(h, i) \<notin> set (chunkOrder s)" using inv(2) True by auto
  then have d: "distinct (pre @ order)" using inv(1) by (simp flip: pre(1))
  have "order \<noteq> []" using pre(3) by (auto simp: chunkCacheMax_def)
  then have last: "(h, i) \<in> set order" using pre(1) by (metis last_appendR last_in_set last_snoc)
  have un: "set pre \<union> set order = insert (h, i) (dom (chunkCache s))"
    using arg_cong [OF pre(1), of set] inv(2) by auto
  have "set order = insert (h, i) (dom m)"
    using un d last unfolding pre(2) by (auto simp: dom_def restrict_map_def split: if_splits)
  moreover have "\<And>h i p. m (h, i) = Some p \<Longrightarrow> p = chunk_of (c h) i"
    using inv(3) unfolding pre(2) by (auto simp: restrict_map_def split: if_splits)
  moreover have "length order \<le> chunkCacheMax" "distinct order" using pre(3) d by auto
  ultimately show ?thesis using True t assms(2) by (auto simp: cache_ok_def chunkCachePut_def Let_def)
next
  case False
  then show ?thesis using assms by (auto simp: cache_ok_def chunkCachePut_def Let_def)
qed

lemma cache_ok_drop:
  assumes "cache_ok c s"
  shows "cache_ok c (chunkCacheDrop h s)" "chunkCache (chunkCacheDrop h s) (h, i) = None"
  using assms by (auto simp: cache_ok_def chunkCacheDrop_def dom_def split: if_splits
      intro: order_trans [OF length_filter_le])

lemma cache_fields [simp]:
  "sFiles (chunkCachePut h i p s) = sFiles s" "sCek (chunkCachePut h i p s) = sCek s"
  "ioFails (chunkCachePut h i p s) = ioFails s" "sBytes (chunkCachePut h i p s) = sBytes s"
  "sFiles (chunkCacheDrop h s) = sFiles s" "sCek (chunkCacheDrop h s) = sCek s"
  "ioFails (chunkCacheDrop h s) = ioFails s" "sBytes (chunkCacheDrop h s) = sBytes s"
  by (simp_all add: chunkCachePut_def chunkCacheDrop_def Let_def case_prod_beta)

lemma find_file_cong: "sFiles s' = sFiles s \<Longrightarrow> find_file p s' = find_file p s"
  by (simp add: find_file_def)

lemma files_ok_cong: "sFiles s' = sFiles s \<Longrightarrow> sCek s' = sCek s \<Longrightarrow> files_ok P c s' = files_ok P c s"
  by (simp add: files_ok_def)

lemma fetch_chunk_ok:
  assumes "aead_ok P" "store_ok P c s" "is_hash h" "open_blob h s \<noteq> None"
    and "0 \<le> i" "i * int fullRecordSize < 2 ^ 63" "fetch_chunk P h i s = (r, s')"
  shows "(r = Inr (chunk_of (c h) i) \<or> (r = Inl ErrChunkEOF \<and> chunk_of (c h) i = [])) \<and> store_ok P c s' \<and>
         sFiles s' = sFiles s \<and> ioFails s' = ioFails s"
proof (cases "chunkCache s (h, i)")
  case (Some p)
  then show ?thesis using assms(2,7) by (auto simp: fetch_chunk_def chunkCacheGet_def store_ok_def cache_ok_def)
next
  case None
  have cek: "length (sCek s) = KeySize" using assms(2) by (simp add: store_ok_def files_ok_def newX_ok_def)
  obtain f where f: "find_file (pathFor h) s = Some f" "open_blob h s = Some (bData f)"
    using assms(4) by (auto simp: open_blob_def split: if_splits)
  have "sealed_as P (sCek s) h (c h) (bData f)"
    using file_at [OF _ assms(3) f(1)] assms(2) by (simp add: store_ok_def)
  note rd = readChunkAt_sealed [OF assms(1) cek this assms(5,6)]
  have "cache_ok c (chunkCachePut h i (chunk_of (c h) i) s)"
    using assms(2) by (intro cache_ok_put) (simp_all add: store_ok_def)
  moreover have "files_ok P c (chunkCachePut h i (chunk_of (c h) i) s)"
    using assms(2) by (simp add: store_ok_def files_ok_def)
  ultimately have "store_ok P c (chunkCachePut h i (chunk_of (c h) i) s)" by (simp add: store_ok_def)
  then show ?thesis
    using assms(2,7) None f(2) rd
    by (auto simp: fetch_chunk_def chunkCacheGet_def chunk_of_def split: if_splits)
qed

section \<open>Reading a range\<close>

lemma chunk_slice_nat:
  assumes "off < 2 ^ 62" "rend < 2 ^ 62" "cs < rend"
  shows "chunk_slice (int off) (int rend) (int cs) p =
    take (min (rend - cs) (length p) - (off - cs)) (drop (off - cs) p)"
proof -
  have start: "(if int off > int cs then int64 (int off - int cs) else 0) = int (off - cs)"
    using assms by (auto simp: int64_nonneg)
  have stop: "int64 (int rend - int cs) = int (rend - cs)"
    using assms by (simp add: int64_nonneg of_nat_diff)
  have mn: "min (int (rend - cs)) (int (length p)) = int (min (rend - cs) (length p))" by simp
  show ?thesis
    unfolding chunk_slice_def Let_def start stop mn by (auto simp: nat_diff_distrib not_less)
qed

lemma slice_of_chunk:
  assumes "off < cs + n" "cs < rend"
  shows "take (min (rend - cs) (length (take n (drop cs data))) - (off - cs)) (drop (off - cs) (take n (drop cs data))) =
    take (min rend (cs + n) - max off cs) (drop (max off cs) data)"
  using assms by (auto simp: drop_take take_take max_def min_def not_le add.commute)

lemma slice_split:
  "a \<le> b \<Longrightarrow> take (rend - a) (drop a data) = take (min rend b - a) (drop a data) @ take (rend - b) (drop b data)"
  using take_add [of "min rend b - a" "rend - b" "drop a data"] by (auto simp: min_def not_le)

lemma readAt_step:
  assumes "int64 (int k * int cacheChunkSize) = int cs" "int64 (int k + 1) = int (Suc k)"
    and "fetch_chunk P h (int k) s = (r, s')"
  shows "readAt_loop P h (int off) (int rend) (int k) result s =
    (if \<not> cs < rend then Some (Inr result, s)
     else case r of
       Inl e \<Rightarrow> if e = ErrChunkEOF then Some (Inr result, s') else Some (Inl e, s')
     | Inr p \<Rightarrow> if p = [] then Some (Inr result, s')
               else let result' = result @ chunk_slice (int off) (int rend) (int cs) p in
                    if length p < cacheChunkSize then Some (Inr result', s')
                    else readAt_loop P h (int off) (int rend) (int (Suc k)) result' s')"
  by (subst readAt_loop.simps) (simp only: assms Let_def of_nat_less_iff prod.case)

lemma readAt_loop_ok:
  assumes "aead_ok P" "is_hash h" "off < 2 ^ 61" "rend < 2 ^ 61"
  shows "store_ok P c s \<Longrightarrow> open_blob h s \<noteq> None \<Longrightarrow> off < Suc k * cacheChunkSize \<Longrightarrow> k * cacheChunkSize \<le> rend + cacheChunkSize \<Longrightarrow>
    \<exists>s'. readAt_loop P h (int off) (int rend) (int k) result s =
      Some (Inr (result @ take (rend - max off (k * cacheChunkSize)) (drop (max off (k * cacheChunkSize)) (c h))), s') \<and>
      store_ok P c s'"
proof (induction "rend - k * cacheChunkSize" arbitrary: k result s rule: less_induct)
  case less
  define cs where "cs = k * cacheChunkSize"
  let ?data = "c h" and ?p = "chunk_of (c h) (int k)" and ?next = "Suc k * cacheChunkSize"
  have nxt: "?next = cs + cacheChunkSize" by (simp add: cs_def)
  have cs62: "cs < 2 ^ 62" using less.prems(4) assms(4) by (simp add: cs_def cacheChunkSize_def)
  then have k62: "int k < 2 ^ 62" by (simp add: cs_def cacheChunkSize_def)
  have "k * fullRecordSize \<le> 2 * cs" by (simp add: cs_def chunk_defs Overhead_def)
  then have rec63: "int k * int fullRecordSize < 2 ^ 63" using cs62 by (simp flip: of_nat_mult)
  obtain r s' where f: "fetch_chunk P h (int k) s = (r, s')" by fastforce
  note fk = fetch_chunk_ok [OF assms(1) less.prems(1) assms(2) less.prems(2) of_nat_0_le_iff rec63 f]
  have fetch: "r = Inr ?p \<or> (r = Inl ErrChunkEOF \<and> ?p = [])" using fk by blast
  have s': "store_ok P c s'" using fk by blast
  have s'_open: "open_blob h s' \<noteq> None" 
  proof -
    have "open_blob h s' = open_blob h s" using fk by (simp add: open_blob_def find_file_def)
    with less.prems(2) show ?thesis by simp
  qed
  have here: "int64 (int k * int cacheChunkSize) = int cs"
    using cs62 by (subst int64_nonneg) (simp_all add: cs_def flip: of_nat_mult)
  have there: "int64 (int k + 1) = int (Suc k)" using k62 by (subst int64_nonneg) simp_all
  note step = readAt_step [OF here there f, of off rend result]
  have p: "?p = take cacheChunkSize (drop cs ?data)" by (simp add: chunk_of_def cs_def)
  show ?case
  proof (cases "cs < rend")
    case False
    then show ?thesis using less.prems(1) step by (simp flip: cs_def)
  next
    case True
    have slice: "chunk_slice (int off) (int rend) (int cs) ?p =
        take (min rend ?next - max off cs) (drop (max off cs) ?data)"
    proof -
      have "chunk_slice (int off) (int rend) (int cs) ?p =
          take (min (rend - cs) (length ?p) - (off - cs)) (drop (off - cs) ?p)"
        by (rule chunk_slice_nat) (use assms(3,4) True in simp_all)
      also have "\<dots> = take (min rend ?next - max off cs) (drop (max off cs) ?data)"
        unfolding p nxt by (rule slice_of_chunk) (use less.prems(3) True nxt in simp_all)
      finally show ?thesis .
    qed
    have split: "take (rend - max off cs) (drop (max off cs) ?data) =
        chunk_slice (int off) (int rend) (int cs) ?p @ take (rend - ?next) (drop ?next ?data)"
      unfolding slice using less.prems(3) by (intro slice_split) (simp add: cs_def)
    consider (stop) "?p = []" | (short) "?p \<noteq> []" "length ?p < cacheChunkSize" | (full) "length ?p = cacheChunkSize"
      using p by fastforce
    then show ?thesis
    proof cases
      case stop
      then have "drop (max off cs) ?data = []" using p by (simp add: le_max_iff_disj)
      then show ?thesis using fetch stop s' True step by (auto simp flip: cs_def)
    next
      case short
      then have "length ?data < ?next" using p unfolding nxt by (auto simp: min_def split: if_splits)
      then have "take (rend - max off cs) (drop (max off cs) ?data) = chunk_slice (int off) (int rend) (int cs) ?p"
        using split by simp
      then show ?thesis using fetch short s' True step by (auto simp flip: cs_def)
    next
      case full
      then have ne: "?p \<noteq> []" "r = Inr ?p" using fetch by auto
      have mx: "max off ?next = ?next" using less.prems(3) by simp
      have "\<exists>s''. readAt_loop P h (int off) (int rend) (int (Suc k)) (result @ chunk_slice (int off) (int rend) (int cs) ?p) s' =
          Some (Inr ((result @ chunk_slice (int off) (int rend) (int cs) ?p) @
            take (rend - max off ?next) (drop (max off ?next) ?data)), s'') \<and> store_ok P c s''"
      proof (rule less.hyps [OF _ s' s'_open])
        show "rend - ?next < rend - k * cacheChunkSize"
          using True chunk_pos unfolding nxt cs_def by linarith
        show "off < Suc (Suc k) * cacheChunkSize" using less.prems(3) by simp
        show "?next \<le> rend + cacheChunkSize" using True nxt by simp
      qed
      from this [unfolded mx] obtain s''
        where "readAt_loop P h (int off) (int rend) (int (Suc k)) (result @ chunk_slice (int off) (int rend) (int cs) ?p) s' =
          Some (Inr ((result @ chunk_slice (int off) (int rend) (int cs) ?p) @ take (rend - ?next) (drop ?next ?data)), s'')"
          "store_ok P c s''"
        by blast
      then show ?thesis
        using ne full True step split by (simp add: Let_def flip: cs_def)
    qed
  qed
qed

section \<open>Every operation keeps the invariant\<close>

text \<open>A new file of a path: nothing else stands there.\<close>

definition fresh_temp :: "string \<Rightarrow> string \<Rightarrow> store \<Rightarrow> bool" where
  "fresh_temp tmpName hash s \<longleftrightarrow> IsTempName tmpName \<and> (fst (pathFor hash), tmpName) \<notin> file_path ` set (sFiles s)"

lemma store_ok_bytes [simp]: "store_ok P c (s\<lparr>sBytes := n\<rparr>) = store_ok P c s"
  by (simp add: store_ok_def files_ok_def cache_ok_def)

lemma files_ok_abandon:
  assumes "files_ok P c s" "file_path tmp \<notin> file_path ` set (sFiles s)" "IsTempName (bName tmp)"
  shows "files_ok P c (snd (abandon_temp tmp e s))"
  using assms by (auto simp: abandon_temp_def files_ok_def)

lemma files_ok_commit:
  assumes "files_ok P c s" "is_hash h" "sealed_as P (sCek s) h (c h) data"
  shows "files_ok P c (s\<lparr>sFiles := filter (\<lambda>f. file_path f \<noteq> pathFor h) (sFiles s) @
     [\<lparr>bShard = fst (pathFor h), bName = snd (pathFor h), bData = data, bModTime = now\<rparr>]\<rparr>)"
  using assms is_hash_path [OF assms(2)]
  by (auto simp: files_ok_def file_path_def blob_ok_def distinct_map_filter)

lemma sealStream_ok:
  "nonces_ok nonces \<Longrightarrow> sealStream P nonces data h s = (out, None) \<Longrightarrow> sealed_as P (sCek s) h data out"
  by (auto simp: sealStream_def sealed_as_def Let_def split: option.splits if_splits)

lemma putSealed_ok:
  assumes "store_ok P c s" "is_hash h" "fresh_temp tmpName h s"
    and "snd seal = None \<Longrightarrow> sealed_as P (sCek s) h (c h) (fst seal)"
  shows "store_ok P c (snd (putSealed now tmpName h seal s))"
proof -
  have f: "files_ok P c s" "cache_ok c s" using assms(1) by (simp_all add: store_ok_def)
  let ?tmp = "\<lparr>bShard = fst (pathFor h), bName = tmpName, bData = fst seal, bModTime = now\<rparr>"
  have "store_ok P c (snd (abandon_temp ?tmp e s))" for e
    using files_ok_abandon [OF f(1), of ?tmp e] assms(3) f(2)
    by (simp add: store_ok_def fresh_temp_def file_path_def abandon_temp_def cache_ok_def)
  moreover have "store_ok P c (s\<lparr>sFiles := filter (\<lambda>f. file_path f \<noteq> pathFor h) (sFiles s) @
     [?tmp\<lparr>bName := snd (pathFor h)\<rparr>]\<rparr>)" if "snd seal = None"
    using files_ok_commit [OF f(1) assms(2) assms(4) [OF that], of now] f(2)
    by (simp add: store_ok_def cache_ok_def)
  ultimately show ?thesis
    using assms(1) unfolding putSealed_def
    by (auto simp: Let_def case_prod_beta split: option.splits)
qed

lemma Put_ok:
  assumes "store_ok P c s" "sha_ok P" "nonces_ok nonces" "fresh_temp tmpName (hash_of P data) s"
    and "c (hash_of P data) = data"
  shows "store_ok P c (snd (Put P now tmpName nonces data s))"
proof -
  let ?h = "hash_of P data"
  have "sealed_as P (sCek s) ?h (c ?h) (fst (sealStream P nonces data ?h s))" if "snd (sealStream P nonces data ?h s) = None"
    unfolding assms(5) by (rule sealStream_ok [OF assms(3)]) (use that in \<open>simp add: prod_eq_iff\<close>)
  then have "store_ok P c (snd (putSealed now tmpName ?h (sealStream P nonces data ?h s) s))"
    by (rule putSealed_ok [OF assms(1) is_hash_of [OF assms(2)] assms(4)])
  then show ?thesis by (auto simp: Put_def Let_def split: prod.splits option.splits)
qed

text \<open>What \<open>PutFile\<close> hands to \<open>putSealed\<close>.\<close>

definition file_seal ::
  "prims \<Rightarrow> (nat \<Rightarrow> bytes) \<Rightarrow> string \<Rightarrow> bytes option \<Rightarrow> store \<Rightarrow> bytes \<times> storeError option" where
  "file_seal P nonces h pass2 s = (case pass2 of None \<Rightarrow> ([], Some ReopenSource)
     | Some data2 \<Rightarrow> (case sealStream P nonces data2 h s of (out, Some e) \<Rightarrow> (out, Some e)
        | (out, None) \<Rightarrow> (out, if hash_of P data2 \<noteq> h then Some SourceChanged else None)))"

lemma file_seal_ok:
  assumes "nonces_ok nonces" "snd (file_seal P nonces h pass2 s) = None"
  obtains data where "pass2 = Some data" "hash_of P data = h"
    "sealed_as P (sCek s) h data (fst (file_seal P nonces h pass2 s))"
  using assms sealStream_ok [OF assms(1)]
  by (force simp: file_seal_def split: option.splits prod.splits if_splits)

lemma PutFile_ok:
  assumes "store_ok P c s" "sha_ok P" "nonces_ok nonces"
    and "\<And>data. pass1 = Inr data \<Longrightarrow> fresh_temp tmpName (hash_of P data) s"
    and "\<And>data. pass2 = Some data \<Longrightarrow> c (hash_of P data) = data"
  shows "store_ok P c (snd (PutFile P now tmpName nonces pass1 pass2 s))"
proof (cases pass1)
  case (Inr data1)
  let ?h = "hash_of P data1"
  have "sealed_as P (sCek s) ?h (c ?h) (fst (file_seal P nonces ?h pass2 s))"
    if "snd (file_seal P nonces ?h pass2 s) = None"
    using file_seal_ok [OF assms(3) that] assms(5) by metis
  then have "store_ok P c (snd (putSealed now tmpName ?h (file_seal P nonces ?h pass2 s) s))"
    by (rule putSealed_ok [OF assms(1) is_hash_of [OF assms(2)] assms(4) [OF Inr]])
  then show ?thesis using Inr by (auto simp: PutFile_def file_seal_def Let_def split: prod.splits option.splits)
qed (use assms(1) in \<open>simp add: PutFile_def\<close>)

lemma RemoveBlob_ok: "store_ok P c s \<Longrightarrow> store_ok P c (snd (RemoveBlob h s))"
proof -
  assume ok: "store_ok P c s"
  then have cd: "cache_ok c (chunkCacheDrop h s)" "files_ok P c (chunkCacheDrop h s)"
    using cache_ok_drop(1) by (auto simp: store_ok_def files_ok_def)
  moreover have "files_ok P c ((chunkCacheDrop h s)\<lparr>sFiles := filter Q (sFiles s), sBytes := n\<rparr>)" for Q n
    using cd(2) by (auto simp: files_ok_def distinct_map_filter)
  ultimately show ?thesis
    using ok by (auto simp: RemoveBlob_def store_ok_def Let_def cache_ok_def)
qed

lemma GCTempFiles_ok: "store_ok P c s \<Longrightarrow> store_ok P c (snd (GCTempFiles now age s))"
  by (auto simp: GCTempFiles_def store_ok_def files_ok_def cache_ok_def distinct_map_filter)

lemma CleanAll_ok: "store_ok P c s \<Longrightarrow> store_ok P c (snd (CleanAll s))"
  by (auto simp: CleanAll_def store_ok_def files_ok_def cache_ok_def distinct_map_filter Let_def)

lemma Bytes_ok: "store_ok P c s \<Longrightarrow> store_ok P c (snd (Bytes s))"
  by (auto simp: Bytes_def ResyncBytes_def store_ok_def files_ok_def cache_ok_def Let_def)

section \<open>The byte counter\<close>

definition disk_bytes :: "store \<Rightarrow> int" where
  "disk_bytes s = sum_list (map (\<lambda>f. int (length (bData f)))
     (filter (\<lambda>f. bShard f \<noteq> [] \<and> \<not> IsTempName (bName f)) (sFiles s)))"

definition stat_works :: "store \<Rightarrow> bool" where
  "stat_works s \<longleftrightarrow> \<not> ioFails s IoStat \<and> \<not> ioFails s IoStatTemp \<and> \<not> ioFails s IoInfo \<and>
     \<not> ioFails s IoReadDir \<and> (\<forall>d. \<not> ioFails s (IoReadShard d))"

lemma sum_list_mset_cong: "mset xs = mset ys \<Longrightarrow> sum_list (map g xs) = (sum_list (map g ys) :: int)"
  by (metis mset_map sum_mset_sum_list)

lemma walkBytes_disk:
  assumes "stat_works s"
  shows "walkBytes s = disk_bytes s"
proof -
  have "mset (filter (\<lambda>f. \<not> IsTempName (bName f) \<and> \<not> ioFails s IoInfo) (shard_entries s)) =
        mset (filter (\<lambda>f. bShard f \<noteq> [] \<and> \<not> IsTempName (bName f)) (sFiles s))"
    using assms by (simp add: stat_works_def shard_entries_def mset_filter filter_filter_mset)
  then show ?thesis
    using assms sum_list_mset_cong by (simp only: walkBytes_def disk_bytes_def stat_works_def if_False) blast
qed

lemma sum_filter_remove:
  assumes "distinct (map key xs)" "f \<in> set xs" "Q f"
  shows "sum_list (map g (filter Q (filter (\<lambda>x. key x \<noteq> key f) xs))) = sum_list (map g (filter Q xs)) - (g f :: int)"
  using assms
proof (induction xs)
  case (Cons x xs)
  show ?case
  proof (cases "x = f")
    case True
    then have "filter (\<lambda>x. key x \<noteq> key f) xs = xs" using Cons.prems(1) by (auto simp: filter_id_conv image_iff)
    then show ?thesis using True Cons.prems(3) by simp
  next
    case False
    moreover have "key x \<noteq> key f" using False Cons.prems(1,2) by (auto simp: image_iff)
    ultimately show ?thesis using Cons by auto
  qed
qed simp

lemma putSealed_bytes:
  assumes "stat_works s" "sBytes s = disk_bytes s" "is_hash h" "IsTempName tmpName"
  shows "sBytes (snd (putSealed now tmpName h seal s)) = disk_bytes (snd (putSealed now tmpName h seal s))"
proof (cases "stat_blob h s")
  case None
  then have "find_file (pathFor h) s = None" using assms(1) by (simp add: stat_blob_def stat_works_def)
  then have same: "filter (\<lambda>f. file_path f \<noteq> pathFor h) (sFiles s) = sFiles s"
    by (auto simp: find_file_def find_None_iff filter_id_conv)
  have ab: "sBytes (snd (abandon_temp \<lparr>bShard = sh, bName = tmpName, bData = d, bModTime = now\<rparr> e s)) =
      disk_bytes (snd (abandon_temp \<lparr>bShard = sh, bName = tmpName, bData = d, bModTime = now\<rparr> e s))" for sh d e
    using assms(2,4) by (simp add: abandon_temp_def disk_bytes_def)
  have "fst (pathFor h) \<noteq> []" "\<not> IsTempName (snd (pathFor h))"
    using is_hash_path [OF assms(3)] by auto
  then show ?thesis
    using None same ab assms(1,2)
    by (auto simp: putSealed_def Let_def case_prod_beta stat_works_def disk_bytes_def split: option.splits)
qed (use assms(2) in \<open>simp add: putSealed_def\<close>)

lemma RemoveBlob_bytes:
  assumes "stat_works s" "sBytes s = disk_bytes s" "is_hash h" "distinct (map file_path (sFiles s))"
  shows "sBytes (snd (RemoveBlob h s)) = disk_bytes (snd (RemoveBlob h s))"
proof (cases "find_file (pathFor h) s")
  case None
  then have "find_file (pathFor h) (chunkCacheDrop h s) = None" by (simp add: find_file_def)
  then show ?thesis using assms(2) by (simp add: RemoveBlob_def Let_def disk_bytes_def)
next
  case (Some f)
  then have f: "f \<in> set (sFiles s)" "file_path f = pathFor h" by (auto simp: find_file_def find_Some_iff)
  then have q: "bShard f \<noteq> [] \<and> \<not> IsTempName (bName f)"
    using is_hash_path [OF assms(3)] by (auto simp: file_path_def)
  have drop: "stat_blob h (chunkCacheDrop h s) = Some f" "find_file (pathFor h) (chunkCacheDrop h s) = Some f"
    using Some assms(1) by (simp_all add: stat_blob_def find_file_def stat_works_def)
  have h: "h \<noteq> []" using assms(3) by (auto simp: is_hash_def)
  show ?thesis
  proof (cases "ioFails s IoRemove")
    case True
    then show ?thesis using h assms(2) by (simp add: RemoveBlob_def Let_def disk_bytes_def)
  next
    case False
    have "sum_list (map (\<lambda>f. int (length (bData f))) (filter (\<lambda>f. bShard f \<noteq> [] \<and> \<not> IsTempName (bName f))
        (filter (\<lambda>x. file_path x \<noteq> file_path f) (sFiles s)))) = disk_bytes s - int (length (bData f))"
      unfolding disk_bytes_def by (rule sum_filter_remove) (use assms(4) f(1) q in simp_all)
    moreover have "snd (RemoveBlob h s) = (chunkCacheDrop h s)\<lparr>sFiles := filter (\<lambda>x. file_path x \<noteq> file_path f) (sFiles s),
        sBytes := sBytes s - int (length (bData f))\<rparr>"
      using h False drop f(2) by (simp add: RemoveBlob_def Let_def)
    ultimately show ?thesis using assms(2) by (simp add: disk_bytes_def)
  qed
qed

section \<open>The store as an abstract set of blobs\<close>

text \<open>
  What the clients of the store rely on: which hashes are stored, and that an insertion adds one
  and a removal takes one away without touching the others.
\<close>

definition stored :: "store \<Rightarrow> string set" where
  "stored s = {h. is_hash h \<and> find_file (pathFor h) s \<noteq> None}"

locale blob_set =
  fixes members :: "'s \<Rightarrow> 'k set"
    and remove :: "'k \<Rightarrow> 's \<Rightarrow> 's"
  assumes remove_sub: "members (remove k s) \<subseteq> members s"
    and remove_others: "members s - {k} \<subseteq> members (remove k s)"
begin

lemma remove_many: "members s - set ks \<subseteq> members (fold remove ks s)"
proof (induction ks arbitrary: s)
  case (Cons k ks)
  have "members s - set (k # ks) \<subseteq> members (remove k s) - set ks"
    using remove_others [of s k] by auto
  also have "\<dots> \<subseteq> members (fold remove (k # ks) s)" using Cons by simp
  finally show ?case .
qed simp

lemma remove_many_sub: "members (fold remove ks s) \<subseteq> members s"
proof (induction ks arbitrary: s)
  case (Cons k ks)
  have "members (fold remove (k # ks) s) \<subseteq> members (remove k s)" using Cons by simp
  also have "\<dots> \<subseteq> members s" by (rule remove_sub)
  finally show ?case .
qed simp

end

text \<open>Where removals cannot fail, what was removed is gone.\<close>

locale blob_set_total = blob_set members remove
  for members :: "'s \<Rightarrow> 'k set" and remove :: "'k \<Rightarrow> 's \<Rightarrow> 's" +
  fixes works :: "'s \<Rightarrow> bool"
  assumes remove_gone: "works s \<Longrightarrow> k \<notin> members (remove k s)"
    and works_remove: "works s \<Longrightarrow> works (remove k s)"
begin

lemma removed_gone: "k \<in> set ks \<Longrightarrow> works s \<Longrightarrow> k \<notin> members (fold remove ks s)"
proof (induction ks arbitrary: s)
  case (Cons a ks)
  show ?case
  proof (cases "k \<in> set ks")
    case True
    then show ?thesis using Cons works_remove by simp
  next
    case False
    then have "k \<notin> members (remove a s)" using Cons.prems remove_gone by auto
    then show ?thesis using remove_many_sub [of ks "remove a s"] by auto
  qed
qed simp

end

lemma pathFor_inj: "is_hash h \<Longrightarrow> is_hash h' \<Longrightarrow> pathFor h = pathFor h' \<Longrightarrow> h = h'"
  by (metis concat_pathFor)

lemma sFiles_RemoveBlob:
  "sFiles (snd (RemoveBlob h s)) = (if h = [] \<or> ioFails s IoRemove then sFiles s
     else filter (\<lambda>f. file_path f \<noteq> pathFor h) (sFiles s))"
proof -
  have "find_file (pathFor h) (chunkCacheDrop h s) = None \<Longrightarrow> filter (\<lambda>f. file_path f \<noteq> pathFor h) (sFiles s) = sFiles s"
    by (auto simp: find_file_def find_None_iff filter_id_conv)
  then show ?thesis by (auto simp: RemoveBlob_def Let_def)
qed

lemma find_filter_other: "\<forall>x. Q x \<longrightarrow> R x \<Longrightarrow> find Q (filter R xs) = find Q xs"
  by (induction xs) auto

lemma in_stored: "h \<in> stored s \<longleftrightarrow> is_hash h \<and> pathFor h \<in> file_path ` set (sFiles s)"
  by (force simp: stored_def find_file_def find_None_iff image_iff)

interpretation blob_dir: blob_set stored "\<lambda>h s. snd (RemoveBlob h s)"
proof
  show "stored (snd (RemoveBlob k s)) \<subseteq> stored s" for k s
    by (auto simp: in_stored sFiles_RemoveBlob split: if_splits)
  show "stored s - {k} \<subseteq> stored (snd (RemoveBlob k s))" for k s
  proof
    fix h assume h: "h \<in> stored s - {k}"
    have "pathFor h \<noteq> pathFor k" using h by (metis DiffE concat_pathFor insertI1)
    with h show "h \<in> stored (snd (RemoveBlob k s))"
      by (auto simp: in_stored sFiles_RemoveBlob)
  qed
qed

lemma ioFails_RemoveBlob [simp]: "ioFails (snd (RemoveBlob h s)) = ioFails s"
  by (auto simp: RemoveBlob_def Let_def)

interpretation blobs: blob_set_total stored "\<lambda>h s. snd (RemoveBlob h s)" "\<lambda>s. \<not> ioFails s IoRemove"
proof
  show "k \<notin> stored (snd (RemoveBlob k s))" if "\<not> ioFails s IoRemove" for k s
    using that by (auto simp: in_stored sFiles_RemoveBlob is_hash_def)
qed simp

section \<open>Whole blobs\<close>

lemma write_chunks_all: "write_chunks None cs = (concat (map snd cs), None)"
  by (induction cs) (auto simp: Let_def)

lemma Get_content:
  assumes "aead_ok P" "store_ok P c s" "is_hash h" "open_blob h s \<noteq> None"
  shows "Get P h s = Inr (c h) \<and> WriteTo P h None s = (c h, None)"
proof -
  have cek: "length (sCek s) = KeySize" using assms(2) by (simp add: store_ok_def files_ok_def newX_ok_def)
  obtain f where f: "find_file (pathFor h) s = Some f" "open_blob h s = Some (bData f)"
    using assms(4) by (auto simp: open_blob_def split: if_splits)
  have "sealed_as P (sCek s) h (c h) (bData f)"
    using file_at [OF _ assms(3) f(1)] assms(2) by (simp add: store_ok_def)
  then obtain nonces where n: "nonces_ok nonces" "bData f = seal_records P (sCek s) h nonces 0 0 (c h)"
    by (auto simp: sealed_as_def)
  obtain cs where "open_records P (sCek s) h 0 (bData f) = (cs, None)" "concat (map snd cs) = c h"
    using open_seal_records [OF assms(1) cek n(1), of h 0 0 "c h"] n(2) by auto
  then show ?thesis using f(2) cek by (simp add: Get_def WriteTo_def newX_ok_def write_chunks_all)
qed

lemma putSealed_stored:
  assumes "putSealed now tmpName h seal s = (None, s')"
  shows "find_file (pathFor h) s' \<noteq> None \<and> ioFails s' = ioFails s"
proof (cases "stat_blob h s")
  case None
  have "ioFails s' = ioFails s \<and> (\<exists>f \<in> set (sFiles s'). file_path f = pathFor h)"
    using assms None
    by (auto simp: putSealed_def abandon_temp_def Let_def file_path_def split: option.splits if_splits prod.splits)
  then show ?thesis by (auto simp: find_file_def find_None_iff)
next
  case (Some f)
  then show ?thesis using assms by (auto simp: putSealed_def stat_blob_def split: if_splits)
qed

lemma Put_cases:
  "Put P now tmpName nonces data s = (Inr h, s') \<Longrightarrow>
   h = hash_of P data \<and> find_file (pathFor h) s' \<noteq> None \<and> ioFails s' = ioFails s"
  using putSealed_stored [of now tmpName "hash_of P data" _ s s']
  by (auto simp: Put_def Let_def split: prod.splits option.splits)

lemma PutFile_cases:
  "PutFile P now tmpName nonces (Inr data) pass2 s = (Inr h, s') \<Longrightarrow>
   h = hash_of P data \<and> find_file (pathFor h) s' \<noteq> None \<and> ioFails s' = ioFails s"
  using putSealed_stored [of now tmpName "hash_of P data" _ s s']
  by (auto simp: PutFile_def Let_def split: prod.splits option.splits)

section \<open>Runs\<close>

text \<open>
  A call of the store, with what the environment supplies. Calls that write are admissible when the
  content function agrees with what is written and the temporary name is fresh; a range read when
  the blob can be opened and the offsets are below \<open>2 ^ 61\<close>. The run skips other calls.
\<close>

datatype storecall =
    SPut int string "nat \<Rightarrow> bytes" bytes
  | SPutFile int string "nat \<Rightarrow> bytes" "storeError + bytes" "bytes option"
  | SReadAt string nat nat | SRemove string | SGCTemp int int | SCleanAll | SBytes | SResync

fun admissible :: "prims \<Rightarrow> (string \<Rightarrow> bytes) \<Rightarrow> storecall \<Rightarrow> store \<Rightarrow> bool" where
  "admissible P c (SPut now t n data) s \<longleftrightarrow> nonces_ok n \<and> fresh_temp t (hash_of P data) s \<and> c (hash_of P data) = data"
| "admissible P c (SPutFile now t n p1 p2) s \<longleftrightarrow> nonces_ok n \<and>
     (\<forall>data. p1 = Inr data \<longrightarrow> fresh_temp t (hash_of P data) s) \<and> (\<forall>data. p2 = Some data \<longrightarrow> c (hash_of P data) = data)"
| "admissible P c (SReadAt h off sz) s \<longleftrightarrow> is_hash h \<and> open_blob h s \<noteq> None \<and> off + sz < 2 ^ 61"
| "admissible P c _ s \<longleftrightarrow> True"

fun store_call :: "prims \<Rightarrow> storecall \<Rightarrow> store \<Rightarrow> store" where
  "store_call P (SPut now t n data) s = snd (Put P now t n data s)"
| "store_call P (SPutFile now t n p1 p2) s = snd (PutFile P now t n p1 p2 s)"
| "store_call P (SReadAt h off sz) s = (case ReadAt P h (int off) (int sz) s of Some (_, s') \<Rightarrow> s' | None \<Rightarrow> s)"
| "store_call P (SRemove h) s = snd (RemoveBlob h s)"
| "store_call P (SGCTemp now age) s = snd (GCTempFiles now age s)"
| "store_call P SCleanAll s = snd (CleanAll s)"
| "store_call P SBytes s = snd (Bytes s)"
| "store_call P SResync s = snd (ResyncBytes s)"

definition store_step :: "prims \<Rightarrow> (string \<Rightarrow> bytes) \<Rightarrow> storecall \<Rightarrow> store \<Rightarrow> store" where
  "store_step P c call s = (if aead_ok P \<and> sha_ok P \<and> admissible P c call s then store_call P call s else s)"

lemma ReadAt_slice:
  assumes "aead_ok P" "store_ok P c s" "is_hash h" "open_blob h s \<noteq> None" "off + sz < 2 ^ 61"
  shows "\<exists>s'. ReadAt P h (int off) (int sz) s = Some (Inr (take sz (drop off (c h))), s') \<and> store_ok P c s'"
proof (cases "sz = 0")
  case False
  let ?k = "off div cacheChunkSize"
  have k: "off < Suc ?k * cacheChunkSize" "?k * cacheChunkSize \<le> off"
    using dividend_less_div_times [of cacheChunkSize off] by simp_all
  have "int64 (int off + int sz) = int (off + sz)" using assms(5) by (subst int64_nonneg) simp_all
  moreover have "int off div int cacheChunkSize = int ?k" by (simp add: zdiv_int)
  moreover have "\<exists>s'. readAt_loop P h (int off) (int (off + sz)) (int ?k) [] s =
      Some (Inr ([] @ take (off + sz - max off (?k * cacheChunkSize)) (drop (max off (?k * cacheChunkSize)) (c h))), s') \<and> store_ok P c s'"
    using assms k by (intro readAt_loop_ok) (simp_all add: le_add1 add.assoc trans_le_add1)
  moreover have "max off (?k * cacheChunkSize) = off" using k(2) by simp
  ultimately show ?thesis using False by (simp add: ReadAt_def)
qed (use assms(2) in \<open>simp add: ReadAt_def\<close>)

lemma store_step_ok: "store_ok P c s \<Longrightarrow> store_ok P c (store_step P c call s)"
proof (cases "aead_ok P \<and> sha_ok P \<and> admissible P c call s")
  case True
  assume ok: "store_ok P c s"
  show ?thesis
  proof (cases call)
    case (SReadAt h off sz)
    then show ?thesis using True ok ReadAt_slice [of P c s h off sz] by (auto simp: store_step_def)
  next
    case (SResync)
    then show ?thesis using True ok by (simp add: store_step_def ResyncBytes_def Let_def)
  qed (use True ok in \<open>auto simp: store_step_def Put_ok PutFile_ok RemoveBlob_ok GCTempFiles_ok CleanAll_ok Bytes_ok\<close>)
next
  case False
  assume "store_ok P c s"
  with False show ?thesis by (simp only: store_step_def if_False)
qed

interpretation store_sys: inv_system "store_step P c" "store_ok P c" for P c
  by unfold_locales (rule store_step_ok)

section \<open>Properties\<close>

text \<open>
  C32: a range read is exactly the slice of the blob's content, whatever the chunk cache holds: for
  every offset and length the loop ends and returns the bytes of the range that the content has.
\<close>

theorem ReadAt_is_slice:
  assumes "aead_ok P" and "store_ok P c s" and "is_hash h" and "open_blob h s \<noteq> None" and "off + sz < 2 ^ 61"
  shows "\<exists>s'. ReadAt P h (int off) (int sz) s = Some (Inr (take sz (drop off (c h))), s') \<and> store_ok P c s'"
  using assms by (rule ReadAt_slice)


text \<open>
  Every run of the store keeps its invariant: blob files are sealings of the content of their
  hash, cached chunks are slices of it, the chunk cache holds at most eight chunks and its queue
  lists exactly them. Failing system calls and full disks are included.
\<close>

theorem store_runs_keep_invariant:
  assumes "store_ok P c s"
  shows "store_ok P c (fold (store_step P c) calls s) \<and>
    length (chunkOrder (fold (store_step P c) calls s)) \<le> 8"
  using store_sys.inv_run [OF assms, of calls] by (simp add: store_ok_def cache_ok_def chunkCacheMax_def)

text \<open>
  The byte counter is exact: while stat and directory reads work, it equals the sizes of the
  blob files on disk, through insertions, removals and temporary-file sweeps, and a directory walk
  gives the same number.
\<close>

theorem byte_counter_exact:
  assumes "stat_works s" "store_ok P c s" "sha_ok P" "sBytes s = disk_bytes s" "is_hash h" "IsTempName tmpName"
  shows "sBytes (snd (Put P now tmpName nonces data s)) = disk_bytes (snd (Put P now tmpName nonces data s)) \<and>
    sBytes (snd (RemoveBlob h s)) = disk_bytes (snd (RemoveBlob h s)) \<and>
    sBytes (snd (GCTempFiles now age s)) = disk_bytes (snd (GCTempFiles now age s)) \<and>
    fst (Bytes s) = disk_bytes s \<and> fst (ResyncBytes s) = disk_bytes s"
proof (intro conjI)
  let ?h = "hash_of P data"
  have "snd (Put P now tmpName nonces data s) = snd (putSealed now tmpName ?h (sealStream P nonces data ?h s) s)"
    by (simp add: Put_def Let_def split: prod.splits option.splits)
  then show "sBytes (snd (Put P now tmpName nonces data s)) = disk_bytes (snd (Put P now tmpName nonces data s))"
    using putSealed_bytes [OF assms(1,4) is_hash_of [OF assms(3)] assms(6)] by simp
  show "sBytes (snd (RemoveBlob h s)) = disk_bytes (snd (RemoveBlob h s))"
    using assms(2) by (intro RemoveBlob_bytes [OF assms(1,4,5)]) (simp add: store_ok_def files_ok_def)
  have "filter (\<lambda>f. bShard f \<noteq> [] \<and> \<not> IsTempName (bName f)) (filter (\<lambda>f. \<not> stale_temp now age s f) (sFiles s)) =
      filter (\<lambda>f. bShard f \<noteq> [] \<and> \<not> IsTempName (bName f)) (sFiles s)"
    by (auto simp: stale_temp_def intro!: filter_cong)
  then show "sBytes (snd (GCTempFiles now age s)) = disk_bytes (snd (GCTempFiles now age s))"
    using assms(4) by (simp add: GCTempFiles_def disk_bytes_def del: filter_filter)
  show "fst (Bytes s) = disk_bytes s" "fst (ResyncBytes s) = disk_bytes s"
    using assms(4) walkBytes_disk [OF assms(1)] by (auto simp: Bytes_def ResyncBytes_def Let_def)
qed

section \<open>Witnesses\<close>

definition sample_store :: store where
  "sample_store = \<lparr>sFiles = [], sCek = replicate 32 0, sBytes = 0, chunkCache = Map.empty, chunkOrder = [],
     ioFails = (\<lambda>_. False), writeLimit = None\<rparr>"

definition zero_nonces :: "nat \<Rightarrow> bytes" where
  "zero_nonces i = replicate 24 0"

definition sample_hash :: string where
  "sample_hash = hash_of plain_prims [7, 8, 9]"

definition sample_content :: "string \<Rightarrow> bytes" where
  "sample_content h = (if h = sample_hash then [7, 8, 9] else [])"

lemma plain_sha_ok: "sha_ok plain_prims"
  by (simp add: sha_ok_def plain_prims_def)

lemma sample_store_ok: "store_ok plain_prims c sample_store"
  by (simp add: store_ok_def files_ok_def cache_ok_def sample_store_def newX_ok_def KeySize_def)

lemma zero_nonces_ok: "nonces_ok zero_nonces"
  by (simp add: nonces_ok_def zero_nonces_def NonceSize_def)

lemma sample_fresh: "fresh_temp ''.tmp-1'' h sample_store"
  by (simp add: fresh_temp_def sample_store_def IsTempName_def legacyTempPrefix_def HasPrefix_def)

definition filled_store :: store where
  "filled_store = snd (Put plain_prims 5 ''.tmp-1'' zero_nonces [7, 8, 9] sample_store)"

lemma filled_put: "Put plain_prims 5 ''.tmp-1'' zero_nonces [7, 8, 9] sample_store = (Inr sample_hash, filled_store)"
  by (simp add: filled_store_def Put_def putSealed_def stat_blob_def find_file_def sample_store_def sample_hash_def
      sealStream_def newX_ok_def KeySize_def Let_def case_prod_beta)

lemma filled_ok: "store_ok plain_prims sample_content filled_store"
  unfolding filled_store_def
  by (rule Put_ok [OF sample_store_ok plain_sha_ok zero_nonces_ok sample_fresh])
     (simp add: sample_content_def sample_hash_def)

lemma filled_open: "open_blob sample_hash filled_store \<noteq> None"
  using Put_cases [OF filled_put] by (simp add: open_blob_def sample_store_def)

lemma sample_is_hash: "is_hash sample_hash"
  unfolding sample_hash_def by (rule is_hash_of [OF plain_sha_ok])

theorem ReadAt_is_slice_witness:
  "\<exists>s'. ReadAt plain_prims sample_hash 1 5 filled_store = Some (Inr [8, 9], s')"
  using ReadAt_is_slice [OF plain_prims_ok(1) filled_ok sample_is_hash filled_open, of 1 5]
  by (auto simp: sample_content_def)


theorem store_runs_keep_invariant_witness:
  "store_ok plain_prims sample_content (fold (store_step plain_prims sample_content) [SReadAt sample_hash 1 5, SRemove sample_hash] filled_store) \<and>
   length (chunkOrder (fold (store_step plain_prims sample_content) [SReadAt sample_hash 1 5, SRemove sample_hash] filled_store)) \<le> 8"
  by (rule store_runs_keep_invariant [OF filled_ok])

theorem byte_counter_exact_witness:
  "sBytes (snd (Put plain_prims 5 ''.tmp-1'' zero_nonces [7, 8, 9] sample_store)) =
   disk_bytes (snd (Put plain_prims 5 ''.tmp-1'' zero_nonces [7, 8, 9] sample_store))"
proof -
  have "stat_works sample_store" "sBytes sample_store = disk_bytes sample_store" "IsTempName ''.tmp-1''"
    by (simp_all add: stat_works_def sample_store_def disk_bytes_def IsTempName_def legacyTempPrefix_def HasPrefix_def)
  with byte_counter_exact [OF _ sample_store_ok plain_sha_ok _ sample_is_hash] show ?thesis by blast
qed

end
