(* ===== verification/Eviction.thy ===== *)
theory Eviction
  imports CacheLaws BlobLaws
begin

text \<open>
  Cache eviction: \<open>internal/mount/cache/eviction.go\<close>. The evictor works on the database and the
  blob store together; the store may be absent. The hooks the file system installs are the
  predicate \<open>inUse\<close> and the list of inodes reported to \<open>onEvict\<close>, in order. The target size is a
  floating-point fraction of the maximum and is an argument.
\<close>

section \<open>Operations\<close>

definition evictionBatchSize :: nat where "evictionBatchSize = 100"
definition tempFileGrace :: int where "tempFileGrace = 3600"

definition ReleaseBlob :: "string \<Rightarrow> int \<Rightarrow> db \<Rightarrow> store option \<Rightarrow> store option" where
  "ReleaseBlob hash excludeID d st =
     (if hash = [] then st
      else case st of
             None \<Rightarrow> None
           | Some s \<Rightarrow>
               (case CountCachedByHash hash excludeID d of
                  Inl _ \<Rightarrow> Some s
                | Inr n \<Rightarrow> if n > 0 then Some s else Some (snd (RemoveBlob hash s))))"

record GCSweep =
  gcBlobs :: nat
  gcTemps :: nat

datatype gcError = GcDb dbError | GcStore storeError

fun gc_remove :: "string set \<Rightarrow> string list \<Rightarrow> store \<Rightarrow> nat \<times> store" where
  "gc_remove referenced [] s = (0, s)"
| "gc_remove referenced (h # hs) s =
     (if h \<in> referenced then gc_remove referenced hs s
      else let (err, s1) = RemoveBlob h s; (n, s2) = gc_remove referenced hs s1
           in ((if err = None then Suc n else n), s2))"

definition GCOrphans :: "int \<Rightarrow> db \<Rightarrow> store \<Rightarrow> GCSweep \<times> gcError option \<times> store" where
  "GCOrphans now d s =
     (let swept = \<lparr>gcBlobs = 0, gcTemps = 0\<rparr> in
      case AllCachedHashes d of
        Inl e \<Rightarrow> (swept, Some (GcDb e), s)
      | Inr referenced \<Rightarrow>
          (case ListHashes s of
             Inl e \<Rightarrow> (swept, Some (GcStore e), s)
           | Inr hashes \<Rightarrow>
               (let (n, s1) = gc_remove referenced hashes s;
                    ((temps, err), s2) = GCTempFiles now tempFileGrace s1
                in (\<lparr>gcBlobs = n, gcTemps = temps\<rparr>, map_option GcStore err, s2))))"

definition CacheBytes :: "db \<Rightarrow> store option \<Rightarrow> int \<times> store option" where
  "CacheBytes d st =
     (case st of
        Some s \<Rightarrow> (let (n, s') = Bytes s in (n, Some s'))
      | None \<Rightarrow> ((case TotalCacheSize d of Inr n \<Rightarrow> n | Inl _ \<Rightarrow> 0), None))"

record evictor =
  evDb :: db
  evStore :: "store option"
  evicted :: "int list"

datatype evictError = GetCandidates dbError | InvalidateFailed string dbError

text \<open>One eviction, and the pass over a batch of candidates while the cache is too large.\<close>

definition evict_one :: "Inode \<Rightarrow> evictor \<Rightarrow> evictError option \<times> evictor" where
  "evict_one x e =
     (let st = ReleaseBlob (iContentHash x) (iID x) (evDb e) (evStore e) in
      case InvalidateCache (iID x) (evDb e) of
        (Some err, d) \<Rightarrow> (Some (InvalidateFailed (iRemotePath x) err), e\<lparr>evDb := d, evStore := st\<rparr>)
      | (None, d) \<Rightarrow> (None, e\<lparr>evDb := d, evStore := st, evicted := evicted e @ [iID x]\<rparr>))"

fun evict_batch ::
  "int \<Rightarrow> (int \<Rightarrow> bool) \<Rightarrow> Inode list \<Rightarrow> int \<Rightarrow> evictor \<Rightarrow> evictError option \<times> int \<times> evictor" where
  "evict_batch target inUse [] currentSize e = (None, currentSize, e)"
| "evict_batch target inUse (x # xs) currentSize e =
     (if currentSize \<le> target then (None, currentSize, e)
      else if inUse (iID x) then evict_batch target inUse xs currentSize e
      else case evict_one x e of
             (Some err, e1) \<Rightarrow> (Some err, currentSize, e1)
           | (None, e1) \<Rightarrow>
               (let (n, st) = CacheBytes (evDb e1) (evStore e1)
                in evict_batch target inUse xs n (e1\<lparr>evStore := st\<rparr>)))"

fun force_batch :: "(int \<Rightarrow> bool) \<Rightarrow> Inode list \<Rightarrow> evictor \<Rightarrow> evictError option \<times> evictor" where
  "force_batch inUse [] e = (None, e)"
| "force_batch inUse (x # xs) e =
     (if inUse (iID x) then force_batch inUse xs e
      else case evict_one x e of
             (Some err, e1) \<Rightarrow> (Some err, e1)
           | (None, e1) \<Rightarrow> force_batch inUse xs e1)"

definition evictable :: "('a inode_row_scheme) \<Rightarrow> bool" where
  "evictable r \<longleftrightarrow> iCached r \<and> \<not> iDirty r \<and> \<not> iPinned r"

definition n_evictable :: "evictor \<Rightarrow> nat" where
  "n_evictable e = sql_count evictable (inodes (evDb e))"

lemma LRU_evictable:
  assumes "LRUEvictionCandidates n d = Inr xs" "x \<in> set xs"
  shows "\<exists>r \<in> set (inodes d). evictable r \<and> iID r = iID x \<and> iContentHash r = iContentHash x"
proof -
  have "xs = collectInodes (take n (sort_key iLastAccess (filter (\<lambda>r. iCached r \<and> \<not> iDirty r \<and> \<not> iPinned r) (inodes d))))"
    using assms(1) by (auto simp: LRUEvictionCandidates_def query_def split: if_splits)
  then obtain r where "r \<in> set (take n (sort_key iLastAccess (filter (\<lambda>r. iCached r \<and> \<not> iDirty r \<and> \<not> iPinned r) (inodes d))))"
    and x: "x = scanInodeRow r"
    using assms(2) by (auto simp: collectInodes_def)
  then have "r \<in> set (sort_key iLastAccess (filter (\<lambda>r. iCached r \<and> \<not> iDirty r \<and> \<not> iPinned r) (inodes d)))"
    by (meson in_set_takeD)
  then have "r \<in> set (inodes d)" "evictable r" by (simp_all add: evictable_def)
  with x show ?thesis by (intro bexI [of _ r]) (simp_all add: scanInodeRow_def Inode.defs)
qed

lemma sql_count_update:
  assumes "\<And>r. Q r \<Longrightarrow> \<not> R (f r)"
  shows "sql_count R (sql_update Q f rows) \<le> sql_count R rows"
    and "r \<in> set rows \<Longrightarrow> Q r \<Longrightarrow> R r \<Longrightarrow> sql_count R (sql_update Q f rows) < sql_count R rows"
proof -
  show le: "sql_count R (sql_update Q f rows) \<le> sql_count R rows" for rows
    by (induction rows) (use assms in \<open>auto simp: sql_count_def sql_update_def\<close>)
  show "r \<in> set rows \<Longrightarrow> Q r \<Longrightarrow> R r \<Longrightarrow> sql_count R (sql_update Q f rows) < sql_count R rows"
  proof (induction rows)
    case (Cons a rows)
    show ?case
    proof (cases "a = r")
      case True
      then show ?thesis using Cons.prems assms le [of rows] by (simp add: sql_count_def sql_update_def)
    next
      case False
      then have "sql_count R (sql_update Q f rows) < sql_count R rows" using Cons by simp
      then show ?thesis using assms [of a] by (auto simp: sql_count_def sql_update_def)
    qed
  qed simp
qed

text \<open>The row as \<open>InvalidateCache\<close> leaves it.\<close>

definition uncached_row :: "inode_row \<Rightarrow> inode_row" where
  "uncached_row r = r\<lparr>iBaselineHash := (if iLocalHash r \<noteq> [] then iLocalHash r else iBaselineHash r),
     iCached := False, iContentHash := [], iLocalHash := [], iLocalMtime := 0\<rparr>"

lemma uncached_row_simps [simp]:
  "\<not> iCached (uncached_row r)" "iID (uncached_row r) = iID r" "iDirty (uncached_row r) = iDirty r"
  "iPinned (uncached_row r) = iPinned r" "iContentHash (uncached_row r) = []"
  "iRemotePath (uncached_row r) = iRemotePath r"
  by (simp_all add: uncached_row_def)

lemma InvalidateCache_eq:
  "InvalidateCache i d = (if sqlFails d OpInvalidateCache then (Some SqlError, d)
     else (None, upd_inodes (\<lambda>r. iID r = i) uncached_row d))"
  by (simp add: InvalidateCache_def exec_def uncached_row_def [abs_def])

lemma evict_one_eq:
  "evict_one x e =
     (let e1 = e\<lparr>evStore := ReleaseBlob (iContentHash x) (iID x) (evDb e) (evStore e)\<rparr> in
      if sqlFails (evDb e) OpInvalidateCache then (Some (InvalidateFailed (iRemotePath x) SqlError), e1)
      else (None, e1\<lparr>evDb := upd_inodes (\<lambda>r. iID r = iID x) uncached_row (evDb e), evicted := evicted e @ [iID x]\<rparr>))"
  by (simp add: evict_one_def InvalidateCache_eq Let_def)

lemma evict_one_count:
  assumes "evict_one x e = (r, e')"
  shows "n_evictable e' \<le> n_evictable e"
    and "r = None \<Longrightarrow> y \<in> set (inodes (evDb e)) \<Longrightarrow> evictable y \<Longrightarrow> iID y = iID x \<Longrightarrow> n_evictable e' < n_evictable e"
proof -
  have ne: "\<not> evictable (uncached_row r)" for r by (simp add: evictable_def)
  note cnt = sql_count_update [where R = evictable and f = uncached_row and Q = "\<lambda>r. iID r = iID x"
      and rows = "inodes (evDb e)", OF ne]
  show "n_evictable e' \<le> n_evictable e"
    using assms cnt(1) by (auto simp: evict_one_eq n_evictable_def upd_inodes_def Let_def split: if_splits)
  show "r = None \<Longrightarrow> y \<in> set (inodes (evDb e)) \<Longrightarrow> evictable y \<Longrightarrow> iID y = iID x \<Longrightarrow> n_evictable e' < n_evictable e"
    using assms cnt(2) by (auto simp: evict_one_eq n_evictable_def upd_inodes_def Let_def split: if_splits)
qed

lemma n_evictable_store [simp]: "n_evictable (e\<lparr>evStore := st\<rparr>) = n_evictable e"
  by (simp add: n_evictable_def)

lemma evict_one_log:
  "evict_one x e = (r, e') \<Longrightarrow> evicted e' = (if r = None then evicted e @ [iID x] else evicted e)"
  by (auto simp: evict_one_eq Let_def split: if_splits)

text \<open>The unfolding of a pass at its first candidate that is evicted.\<close>

lemma evict_batch_Cons:
  assumes "evict_batch target inUse (x # xs) cur e = (r, cur', e')"
  obtains (stop) "cur \<le> target" "r = None" "cur' = cur" "e' = e"
  | (skip) "inUse (iID x)" "evict_batch target inUse xs cur e = (r, cur', e')"
  | (fail) err where "evict_one x e = (Some err, e')" "r = Some err" "\<not> inUse (iID x)"
  | (go) e1 n st where "evict_one x e = (None, e1)" "\<not> inUse (iID x)" "CacheBytes (evDb e1) (evStore e1) = (n, st)"
      "evict_batch target inUse xs n (e1\<lparr>evStore := st\<rparr>) = (r, cur', e')"
  using assms by (auto split: if_splits prod.splits option.splits)

lemma force_batch_Cons:
  assumes "force_batch inUse (x # xs) e = (r, e')"
  obtains (skip) "inUse (iID x)" "force_batch inUse xs e = (r, e')"
  | (fail) err where "evict_one x e = (Some err, e')" "r = Some err" "\<not> inUse (iID x)"
  | (go) e1 where "evict_one x e = (None, e1)" "\<not> inUse (iID x)" "force_batch inUse xs e1 = (r, e')"
  using assms by (auto split: if_splits prod.splits option.splits)

lemma evict_batch_log_count:
  "evict_batch target inUse xs cur e = (r, cur', e') \<Longrightarrow>
   n_evictable e' \<le> n_evictable e \<and> (\<exists>ids. evicted e' = evicted e @ ids)"
proof (induction xs arbitrary: cur e)
  case (Cons x xs)
  from Cons.prems show ?case
  proof (cases rule: evict_batch_Cons)
    case (go e1 n st)
    show ?thesis
      using Cons.IH [OF go(4)] evict_one_count(1) [OF go(1)] evict_one_log [OF go(1)] by auto
  qed (use Cons evict_one_count(1) evict_one_log in fastforce)+
qed auto

lemma force_batch_log_count:
  "force_batch inUse xs e = (r, e') \<Longrightarrow>
   n_evictable e' \<le> n_evictable e \<and> (\<exists>ids. evicted e' = evicted e @ ids)"
proof (induction xs arbitrary: e)
  case (Cons x xs)
  from Cons.prems show ?case
  proof (cases rule: force_batch_Cons)
    case (go e1)
    show ?thesis
      using Cons.IH [OF go(3)] evict_one_count(1) [OF go(1)] evict_one_log [OF go(1)] by auto
  qed (use Cons evict_one_count(1) evict_one_log in fastforce)+
qed auto

lemma evict_batch_progress:
  "evict_batch target inUse xs cur e = (None, cur', e') \<Longrightarrow> length (evicted e') \<noteq> length (evicted e) \<Longrightarrow>
   \<forall>x \<in> set xs. \<exists>y \<in> set (inodes (evDb e)). evictable y \<and> iID y = iID x \<Longrightarrow> n_evictable e' < n_evictable e"
proof (induction xs arbitrary: cur e)
  case (Cons x xs)
  from Cons.prems(1) show ?case
  proof (cases rule: evict_batch_Cons)
    case skip
    with Cons show ?thesis by simp
  next
    case (go e1 n st)
    obtain y where "y \<in> set (inodes (evDb e))" "evictable y" "iID y = iID x" using Cons.prems(3) by auto
    then have "n_evictable e1 < n_evictable e" using evict_one_count(2) [OF go(1)] by blast
    then show ?thesis using evict_batch_log_count [OF go(4)] by simp
  qed (use Cons.prems in auto)
qed simp

lemma force_batch_progress:
  "force_batch inUse xs e = (None, e') \<Longrightarrow> length (evicted e') \<noteq> length (evicted e) \<Longrightarrow>
   \<forall>x \<in> set xs. \<exists>y \<in> set (inodes (evDb e)). evictable y \<and> iID y = iID x \<Longrightarrow> n_evictable e' < n_evictable e"
proof (induction xs arbitrary: e)
  case (Cons x xs)
  from Cons.prems(1) show ?case
  proof (cases rule: force_batch_Cons)
    case skip
    with Cons show ?thesis by simp
  next
    case (go e1)
    obtain y where "y \<in> set (inodes (evDb e))" "evictable y" "iID y = iID x" using Cons.prems(3) by auto
    then have "n_evictable e1 < n_evictable e" using evict_one_count(2) [OF go(1)] by blast
    then show ?thesis using force_batch_log_count [OF go(3)] by simp
  qed (use Cons.prems in auto)
qed simp

text \<open>The loops: batches of candidates until the target is reached or nothing progresses. They end
  because every batch that progresses leaves fewer evictable rows.\<close>

function evict_loop :: "int \<Rightarrow> (int \<Rightarrow> bool) \<Rightarrow> int \<Rightarrow> evictor \<Rightarrow> evictError option \<times> evictor" where
  "evict_loop target inUse currentSize e =
     (if currentSize \<le> target then (None, e)
      else case LRUEvictionCandidates evictionBatchSize (evDb e) of
             Inl err \<Rightarrow> (Some (GetCandidates err), e)
           | Inr candidates \<Rightarrow>
               if candidates = [] then (None, e)
               else case evict_batch target inUse candidates currentSize e of
                      (Some err, _, e1) \<Rightarrow> (Some err, e1)
                    | (None, n, e1) \<Rightarrow>
                        if length (evicted e1) = length (evicted e) then (None, e1)
                        else evict_loop target inUse n e1)"
  by pat_completeness auto
termination
proof (relation "measure (\<lambda>(target, inUse, n, e). n_evictable e)", goal_cases)
  case (2 target inUse cur e cands r y n e1)
  have "evict_batch target inUse cands cur e = (None, n, e1)" using 2(4-6) by simp
  moreover have "\<forall>x \<in> set cands. \<exists>y \<in> set (inodes (evDb e)). evictable y \<and> iID y = iID x"
    using LRU_evictable [OF 2(2)] by blast
  ultimately show ?case using evict_batch_progress 2(7) by simp
qed simp

function force_loop :: "(int \<Rightarrow> bool) \<Rightarrow> evictor \<Rightarrow> evictError option \<times> evictor" where
  "force_loop inUse e =
     (case LRUEvictionCandidates evictionBatchSize (evDb e) of
        Inl err \<Rightarrow> (Some (GetCandidates err), e)
      | Inr candidates \<Rightarrow>
          if candidates = [] then (None, e)
          else case force_batch inUse candidates e of
                 (Some err, e1) \<Rightarrow> (Some err, e1)
               | (None, e1) \<Rightarrow>
                   if length (evicted e1) = length (evicted e) then (None, e1) else force_loop inUse e1)"
  by pat_completeness auto
termination
proof (relation "measure (\<lambda>(inUse, e). n_evictable e)", goal_cases)
  case (2 inUse e cands r e1)
  have "force_batch inUse cands e = (None, e1)" using 2(3,4) by simp
  moreover have "\<forall>x \<in> set cands. \<exists>y \<in> set (inodes (evDb e)). evictable y \<and> iID y = iID x"
    using LRU_evictable [OF 2(1)] by blast
  ultimately show ?case using force_batch_progress 2(5) by simp
qed simp

declare evict_loop.simps [simp del] force_loop.simps [simp del]

text \<open>How a loop ends, or goes on from a smaller state.\<close>

lemma evict_loop_cases:
  assumes "evict_loop target inUse cur e = (r, e')"
  obtains (small) "cur \<le> target" "r = None" "e' = e"
  | (query) err where "\<not> cur \<le> target" "r = Some (GetCandidates err)" "e' = e"
  | (none_left) "LRUEvictionCandidates evictionBatchSize (evDb e) = Inr []" "r = None" "e' = e"
  | (fail) cands err n where "LRUEvictionCandidates evictionBatchSize (evDb e) = Inr cands"
      "evict_batch target inUse cands cur e = (Some err, n, e')" "r = Some err"
  | (stuck) cands n where "LRUEvictionCandidates evictionBatchSize (evDb e) = Inr cands" "\<not> cur \<le> target" "cands \<noteq> []"
      "evict_batch target inUse cands cur e = (None, n, e')" "r = None" "length (evicted e') = length (evicted e)"
  | (more) cands n e1 where "LRUEvictionCandidates evictionBatchSize (evDb e) = Inr cands"
      "evict_batch target inUse cands cur e = (None, n, e1)" "n_evictable e1 < n_evictable e"
      "evict_loop target inUse n e1 = (r, e')"
proof (cases "cur \<le> target")
  case True
  then show ?thesis using assms by (intro small) (simp_all add: evict_loop.simps [of target inUse cur e])
next
  case big: False
  show ?thesis
  proof (cases "LRUEvictionCandidates evictionBatchSize (evDb e)")
    case (Inl err)
    then show ?thesis using assms big by (intro query [of err]) (simp_all add: evict_loop.simps [of target inUse cur e])
  next
    case (Inr cands)
    obtain r1 n e1 where b: "evict_batch target inUse cands cur e = (r1, n, e1)" by (metis surj_pair)
    have prog: "n_evictable e1 < n_evictable e" if "r1 = None" "length (evicted e1) \<noteq> length (evicted e)"
      using evict_batch_progress [of target inUse cands cur e n e1] b LRU_evictable [OF Inr] that by blast
    note run = assms [unfolded evict_loop.simps [of target inUse cur e]]
    consider "cands = []" | err where "cands \<noteq> []" "r1 = Some err"
      | "cands \<noteq> []" "r1 = None" "length (evicted e1) = length (evicted e)"
      | "cands \<noteq> []" "r1 = None" "length (evicted e1) \<noteq> length (evicted e)"
      by blast
    then show ?thesis
    proof cases
      case 1
      with run big Inr show ?thesis by (intro none_left) simp_all
    next
      case (2 err)
      with run big Inr b show ?thesis by (intro fail [OF Inr, of err n]) simp_all
    next
      case 3
      with run big Inr b show ?thesis by (intro stuck [OF Inr]) simp_all
    next
      case 4
      with run big Inr b prog show ?thesis by (intro more [OF Inr]) simp_all
    qed
  qed
qed

lemma force_loop_cases:
  assumes "force_loop inUse e = (r, e')"
  obtains (query) err where "r = Some (GetCandidates err)" "e' = e"
  | (none_left) "LRUEvictionCandidates evictionBatchSize (evDb e) = Inr []" "r = None" "e' = e"
  | (fail) cands err where "LRUEvictionCandidates evictionBatchSize (evDb e) = Inr cands"
      "force_batch inUse cands e = (Some err, e')" "r = Some err"
  | (stuck) cands where "LRUEvictionCandidates evictionBatchSize (evDb e) = Inr cands" "cands \<noteq> []"
      "force_batch inUse cands e = (None, e')" "r = None" "length (evicted e') = length (evicted e)"
  | (more) cands e1 where "LRUEvictionCandidates evictionBatchSize (evDb e) = Inr cands"
      "force_batch inUse cands e = (None, e1)" "n_evictable e1 < n_evictable e" "force_loop inUse e1 = (r, e')"
proof (cases "LRUEvictionCandidates evictionBatchSize (evDb e)")
  case (Inl err)
  then show ?thesis using assms by (intro query [of err]) (simp_all add: force_loop.simps [of inUse e])
next
  case (Inr cands)
  obtain r1 e1 where b: "force_batch inUse cands e = (r1, e1)" by (metis surj_pair)
  have prog: "n_evictable e1 < n_evictable e" if "r1 = None" "length (evicted e1) \<noteq> length (evicted e)"
    using force_batch_progress [of inUse cands e e1] b LRU_evictable [OF Inr] that by blast
  note run = assms [unfolded force_loop.simps [of inUse e]]
  consider "cands = []" | err where "cands \<noteq> []" "r1 = Some err"
    | "cands \<noteq> []" "r1 = None" "length (evicted e1) = length (evicted e)"
    | "cands \<noteq> []" "r1 = None" "length (evicted e1) \<noteq> length (evicted e)"
    by blast
  then show ?thesis
  proof cases
    case 1
    with run Inr show ?thesis by (intro none_left) simp_all
  next
    case (2 err)
    with run Inr b show ?thesis by (intro fail [OF Inr, of err]) simp_all
  next
    case 3
    with run Inr b show ?thesis by (intro stuck [OF Inr]) simp_all
  next
    case 4
    with run Inr b prog show ?thesis by (intro more [OF Inr]) simp_all
  qed
qed

definition evict :: "int \<Rightarrow> (int \<Rightarrow> bool) \<Rightarrow> int \<Rightarrow> evictor \<Rightarrow> evictError option \<times> evictor" where
  "evict targetSize inUse currentSize e = evict_loop targetSize inUse currentSize e"

definition RunIfNeeded :: "int \<Rightarrow> int \<Rightarrow> (int \<Rightarrow> bool) \<Rightarrow> evictor \<Rightarrow> evictError option \<times> evictor" where
  "RunIfNeeded maxSize targetSize inUse e =
     (let (totalSize, st) = CacheBytes (evDb e) (evStore e); e1 = e\<lparr>evStore := st\<rparr> in
      if totalSize \<le> maxSize then (None, e1) else evict targetSize inUse totalSize e1)"

definition ForceEvict :: "(int \<Rightarrow> bool) \<Rightarrow> evictor \<Rightarrow> evictError option \<times> evictor" where
  "ForceEvict inUse e = force_loop inUse e"

section \<open>What every pass keeps\<close>

text \<open>A candidate's row can be evicted: the rows with its id are neither dirty nor pinned.\<close>

definition cand_ok :: "evictor \<Rightarrow> Inode \<Rightarrow> bool" where
  "cand_ok e x \<longleftrightarrow> (\<forall>r \<in> set (inodes (evDb e)). iID r = iID x \<longrightarrow> \<not> iDirty r \<and> \<not> iPinned r)"

definition ev_ok :: "evictor \<Rightarrow> bool" where
  "ev_ok e \<longleftrightarrow> db_ok (evDb e)"

text \<open>
  The contract of a relation between the states before and after an eviction: it composes, one
  eviction of an eligible inode satisfies it, and so does reading the cache size. Then every pass
  and both loops satisfy it.
\<close>

locale evict_rel =
  fixes inUse :: "int \<Rightarrow> bool"
    and rel :: "evictor \<Rightarrow> evictor \<Rightarrow> bool"
  assumes rel_refl: "rel e e"
    and rel_trans: "rel e e1 \<Longrightarrow> rel e1 e2 \<Longrightarrow> rel e e2"
    and rel_one: "ev_ok e \<Longrightarrow> cand_ok e x \<Longrightarrow> \<not> inUse (iID x) \<Longrightarrow> evict_one x e = (r, e1) \<Longrightarrow> rel e e1"
    and rel_bytes: "CacheBytes (evDb e) (evStore e) = (n, st) \<Longrightarrow> rel e (e\<lparr>evStore := st\<rparr>)"

lemma evict_one_keeps:
  assumes "evict_one x e = (r, e1)"
  shows "ev_ok e \<Longrightarrow> ev_ok e1" "cand_ok e y \<Longrightarrow> cand_ok e1 y"
proof -
  have "keeps_inode_keys uncached_row" by (simp add: keeps_inode_keys_def)
  then show "ev_ok e \<Longrightarrow> ev_ok e1"
    using assms by (auto simp: ev_ok_def evict_one_eq Let_def db_ok_upd_inodes split: if_splits)
  show "cand_ok e y \<Longrightarrow> cand_ok e1 y"
    using assms by (auto simp: cand_ok_def evict_one_eq Let_def upd_inodes_def set_sql_update split: if_splits)
qed

lemma ev_ok_store [simp]: "ev_ok (e\<lparr>evStore := st\<rparr>) = ev_ok e" "cand_ok (e\<lparr>evStore := st\<rparr>) x = cand_ok e x"
  by (simp_all add: ev_ok_def cand_ok_def)

lemma LRU_cand_ok:
  assumes "ev_ok e" "LRUEvictionCandidates n (evDb e) = Inr xs"
  shows "\<forall>x \<in> set xs. cand_ok e x"
proof
  fix x assume "x \<in> set xs"
  then obtain r where r: "r \<in> set (inodes (evDb e))" "evictable r" "iID r = iID x"
    using LRU_evictable [OF assms(2)] by blast
  have dist: "distinct (map iID (inodes (evDb e)))" using assms(1) by (simp add: ev_ok_def db_ok_def)
  have "r' = r" if "r' \<in> set (inodes (evDb e))" "iID r' = iID x" for r'
    using inode_id.find_key_unique [OF dist that(1) r(1)] that(2) r(3) by simp
  then show "cand_ok e x" using r(2) unfolding cand_ok_def evictable_def by blast
qed

context evict_rel
begin

lemma rel_evict_batch:
  "evict_batch target inUse xs cur e = (r, cur', e') \<Longrightarrow> ev_ok e \<Longrightarrow> \<forall>x \<in> set xs. cand_ok e x \<Longrightarrow>
   rel e e' \<and> ev_ok e'"
proof (induction xs arbitrary: cur e)
  case (Cons x xs)
  from Cons.prems(1) show ?case
  proof (cases rule: evict_batch_Cons)
    case (fail err)
    then show ?thesis using Cons.prems rel_one [of e x] evict_one_keeps(1) by auto
  next
    case (go e1 n st)
    have one: "rel e e1" using Cons.prems go by (intro rel_one [OF _ _ go(2,1)]) auto
    have "rel (e1\<lparr>evStore := st\<rparr>) e' \<and> ev_ok e'"
      using Cons.prems evict_one_keeps [OF go(1)] by (intro Cons.IH [OF go(4)]) auto
    with one show ?thesis using rel_trans rel_bytes [OF go(3)] by blast
  qed (use Cons rel_refl in auto)
qed (simp add: rel_refl)

lemma rel_force_batch:
  "force_batch inUse xs e = (r, e') \<Longrightarrow> ev_ok e \<Longrightarrow> \<forall>x \<in> set xs. cand_ok e x \<Longrightarrow> rel e e' \<and> ev_ok e'"
proof (induction xs arbitrary: e)
  case (Cons x xs)
  from Cons.prems(1) show ?case
  proof (cases rule: force_batch_Cons)
    case (fail err)
    then show ?thesis using Cons.prems rel_one [of e x] evict_one_keeps(1) by auto
  next
    case (go e1)
    have one: "rel e e1" using Cons.prems go by (intro rel_one [OF _ _ go(2,1)]) auto
    have "rel e1 e' \<and> ev_ok e'"
      using Cons.prems evict_one_keeps [OF go(1)] by (intro Cons.IH [OF go(3)]) auto
    with one show ?thesis using rel_trans by blast
  qed (use Cons rel_refl in auto)
qed (simp add: rel_refl)

lemma rel_evict_loop: "evict_loop target inUse cur e = (r, e') \<Longrightarrow> ev_ok e \<Longrightarrow> rel e e'"
proof (induction "n_evictable e" arbitrary: cur e rule: less_induct)
  case less
  note batch = rel_evict_batch [OF _ less.prems(2) LRU_cand_ok [OF less.prems(2)]]
  from less.prems(1) show ?case
  proof (cases rule: evict_loop_cases)
    case (more cands n e1)
    then show ?thesis using batch [OF more(2,1)] less.hyps [OF more(3,4)] rel_trans by blast
  qed (use batch rel_refl in blast)+
qed

lemma rel_force_loop: "force_loop inUse e = (r, e') \<Longrightarrow> ev_ok e \<Longrightarrow> rel e e'"
proof (induction "n_evictable e" arbitrary: e rule: less_induct)
  case less
  note batch = rel_force_batch [OF _ less.prems(2) LRU_cand_ok [OF less.prems(2)]]
  from less.prems(1) show ?case
  proof (cases rule: force_loop_cases)
    case (more cands e1)
    then show ?thesis using batch [OF more(2,1)] less.hyps [OF more(3,4)] rel_trans by blast
  qed (use batch rel_refl in blast)+
qed

lemma rel_RunIfNeeded:
  assumes "RunIfNeeded maxSize target inUse e = (r, e')" "ev_ok e"
  shows "rel e e'"
proof -
  obtain n st where cb: "CacheBytes (evDb e) (evStore e) = (n, st)" by fastforce
  have "e' = e\<lparr>evStore := st\<rparr> \<or> evict_loop target inUse n (e\<lparr>evStore := st\<rparr>) = (r, e')"
    using assms(1) cb by (auto simp: RunIfNeeded_def evict_def Let_def split: if_splits)
  then show ?thesis
    using rel_bytes [OF cb] rel_evict_loop [of target n "e\<lparr>evStore := st\<rparr>" r e'] assms(2) rel_trans by auto
qed

end

section \<open>Interpretations\<close>

text \<open>Rows that must not be evicted stay exactly as they are, and only eligible inodes are
  reported to the hook.\<close>

definition protected_kept :: "(int \<Rightarrow> bool) \<Rightarrow> evictor \<Rightarrow> evictor \<Rightarrow> bool" where
  "protected_kept inUse e e' \<longleftrightarrow>
     (\<forall>r \<in> set (inodes (evDb e)). iDirty r \<or> iPinned r \<or> inUse (iID r) \<longrightarrow> r \<in> set (inodes (evDb e'))) \<and>
     (\<exists>ids. evicted e' = evicted e @ ids \<and> (\<forall>i \<in> set ids. \<not> inUse i)) \<and>
     wbqueue (evDb e') = wbqueue (evDb e) \<and> failures (evDb e') = failures (evDb e) \<and>
     map iID (inodes (evDb e')) = map iID (inodes (evDb e))"

lemma protected_kept_one:
  assumes "cand_ok e x" "\<not> inUse (iID x)" "evict_one x e = (r, e1)"
  shows "protected_kept inUse e e1"
proof -
  have "map iID (sql_update (\<lambda>r. iID r = iID x) uncached_row rows) = map iID rows" for rows
    by (simp add: sql_update_def)
  then show ?thesis
    using assms by (force simp: protected_kept_def evict_one_eq Let_def cand_ok_def upd_inodes_def set_sql_update split: if_splits)
qed

interpretation protect: evict_rel inUse "protected_kept inUse" for inUse
proof
  show "protected_kept inUse e e" for e by (simp add: protected_kept_def)
  show "protected_kept inUse e e2" if "protected_kept inUse e e1" "protected_kept inUse e1 e2" for e e1 e2
    using that by (force simp: protected_kept_def)
  show "protected_kept inUse e (e\<lparr>evStore := st\<rparr>)" for e st by (simp add: protected_kept_def)
qed (rule protected_kept_one)

text \<open>Every blob a cached row refers to is in the store. A failing \<open>InvalidateCache\<close> would leave
  the row of a released blob behind, so the relation is for databases where it does not fail.\<close>

definition refs_ok :: "evictor \<Rightarrow> bool" where
  "refs_ok e \<longleftrightarrow> (\<forall>s. evStore e = Some s \<longrightarrow>
     (\<forall>r \<in> set (inodes (evDb e)). iCached r \<and> is_hash (iContentHash r) \<longrightarrow> iContentHash r \<in> stored s))"

definition refs_kept :: "evictor \<Rightarrow> evictor \<Rightarrow> bool" where
  "refs_kept e e' \<longleftrightarrow> (\<not> sqlFails (evDb e) OpInvalidateCache \<longrightarrow> refs_ok e \<longrightarrow> refs_ok e') \<and>
     sqlFails (evDb e') = sqlFails (evDb e)"

lemma stored_Bytes: "Bytes s = (n, s') \<Longrightarrow> stored s' = stored s"
  by (auto simp: Bytes_def ResyncBytes_def Let_def stored_def find_file_def split: if_splits)

lemma ReleaseBlob_stored:
  assumes "ReleaseBlob h i d (Some s) = Some s'" "h' \<in> stored s"
    and "h' = h \<Longrightarrow> \<exists>r \<in> set (inodes d). iContentHash r = h \<and> iCached r \<and> iID r \<noteq> i"
  shows "h' \<in> stored s'"
proof (cases "h' = h")
  case True
  then show ?thesis using assms
    by (auto simp: ReleaseBlob_def CountCachedByHash_def query_def split: if_splits sum.splits)
next
  case False
  then show ?thesis using assms blob_dir.remove_others [of s h]
    by (auto simp: ReleaseBlob_def split: if_splits sum.splits)
qed

lemma refs_kept_one:
  assumes "evict_one x e = (r, e1)"
  shows "refs_kept e e1"
proof -
  have fails: "sqlFails (evDb e1) = sqlFails (evDb e)"
    using assms by (auto simp: evict_one_eq Let_def upd_inodes_def split: if_splits)
  have "refs_ok e1" if ok: "\<not> sqlFails (evDb e) OpInvalidateCache" "refs_ok e"
    unfolding refs_ok_def
  proof (intro allI ballI impI)
    fix s' y assume s': "evStore e1 = Some s'" and y: "y \<in> set (inodes (evDb e1))"
      and c: "iCached y \<and> is_hash (iContentHash y)"
    have e1: "evDb e1 = upd_inodes (\<lambda>r. iID r = iID x) uncached_row (evDb e)"
      "evStore e1 = ReleaseBlob (iContentHash x) (iID x) (evDb e) (evStore e)"
      using assms ok(1) by (auto simp: evict_one_eq Let_def)
    have y': "y \<in> set (inodes (evDb e))" "iID y \<noteq> iID x"
      using y c by (auto simp: e1(1) upd_inodes_def set_sql_update split: if_splits)
    obtain s where s: "evStore e = Some s"
      using s' e1(2) by (auto simp: ReleaseBlob_def split: if_splits option.splits)
    have "iContentHash y \<in> stored s" using ok(2) y'(1) c s by (auto simp: refs_ok_def)
    moreover have "ReleaseBlob (iContentHash x) (iID x) (evDb e) (Some s) = Some s'" using s' e1(2) s by simp
    ultimately show "iContentHash y \<in> stored s'" using ReleaseBlob_stored y' c by blast
  qed
  with fails show ?thesis by (simp add: refs_kept_def)
qed

interpretation refs: evict_rel inUse refs_kept for inUse
proof
  show "refs_kept e e" for e by (simp add: refs_kept_def)
  show "refs_kept e e2" if "refs_kept e e1" "refs_kept e1 e2" for e e1 e2
    using that by (auto simp: refs_kept_def)
  show "refs_kept e (e\<lparr>evStore := st\<rparr>)" if "CacheBytes (evDb e) (evStore e) = (n, st)" for e n st
    using that stored_Bytes by (fastforce simp: refs_kept_def refs_ok_def CacheBytes_def split: option.splits prod.splits)
qed (rule refs_kept_one)

section \<open>Where the loops stop\<close>

definition size_now :: "evictor \<Rightarrow> int" where
  "size_now e = fst (CacheBytes (evDb e) (evStore e))"

lemma walkBytes_nonneg: "0 \<le> walkBytes s"
  by (auto simp: walkBytes_def intro!: sum_list_nonneg)

lemma size_now_bytes: "CacheBytes (evDb e) (evStore e) = (n, st) \<Longrightarrow> size_now (e\<lparr>evStore := st\<rparr>) = n"
  using walkBytes_nonneg
  by (auto simp: size_now_def CacheBytes_def Bytes_def ResyncBytes_def Let_def split: option.splits if_splits)

lemma evict_batch_size:
  "evict_batch target inUse xs cur e = (None, cur', e') \<Longrightarrow> cur = size_now e \<Longrightarrow> cur' = size_now e'"
proof (induction xs arbitrary: cur e)
  case (Cons x xs)
  from Cons.prems(1) show ?case
  proof (cases rule: evict_batch_Cons)
    case (go e1 n st)
    then show ?thesis using Cons.IH [OF go(4)] size_now_bytes [OF go(3)] by simp
  qed (use Cons in auto)
qed simp

lemma evict_batch_stuck:
  "evict_batch target inUse xs cur e = (None, cur', e') \<Longrightarrow> \<not> cur \<le> target \<Longrightarrow>
   length (evicted e') = length (evicted e) \<Longrightarrow> e' = e \<and> (\<forall>x \<in> set xs. inUse (iID x))"
proof (induction xs arbitrary: cur e)
  case (Cons x xs)
  from Cons.prems(1) show ?case
  proof (cases rule: evict_batch_Cons)
    case (go e1 n st)
    then have "length (evicted e') > length (evicted e)"
      using evict_batch_log_count [OF go(4)] evict_one_log [OF go(1)] by auto
    then show ?thesis using Cons.prems(3) by simp
  qed (use Cons in auto)
qed simp

lemma evict_loop_stops:
  "evict_loop target inUse cur e = (None, e') \<Longrightarrow> cur = size_now e \<Longrightarrow>
   size_now e' \<le> target \<or>
   (\<exists>cands. LRUEvictionCandidates evictionBatchSize (evDb e') = Inr cands \<and> (\<forall>x \<in> set cands. inUse (iID x)))"
proof (induction "n_evictable e" arbitrary: cur e rule: less_induct)
  case less
  from less.prems(1) show ?case
  proof (cases rule: evict_loop_cases)
    case (stuck cands n)
    then show ?thesis using evict_batch_stuck [OF stuck(4,2,6)] by auto
  next
    case (more cands n e1)
    then show ?thesis using less.hyps [OF more(3,4)] evict_batch_size [OF more(2) less.prems(2)] by blast
  qed (use less.prems in auto)
qed

lemma gc_remove_fold:
  "snd (gc_remove R hs s) = fold (\<lambda>h s. snd (RemoveBlob h s)) (filter (\<lambda>h. h \<notin> R) hs) s"
  by (induction R hs s rule: gc_remove.induct) (auto simp: Let_def split: prod.splits)

lemma stored_GCTempFiles: "stored (snd (GCTempFiles now age s)) = stored s"
proof -
  have keep: "\<not> stale_temp now age s f" if "pathFor h = file_path f" "is_hash h" for h f
    using that(1) is_hash_path(1,4) [OF that(2)] by (auto simp: stale_temp_def file_path_def)
  show ?thesis
  proof (rule set_eqI)
    show "h \<in> stored (snd (GCTempFiles now age s)) \<longleftrightarrow> h \<in> stored s" for h
      using keep [of h] by (auto simp: in_stored GCTempFiles_def)
  qed
qed

section \<open>Properties\<close>

text \<open>
  Eviction never touches what must stay. Whatever fails, \<open>RunIfNeeded\<close> and \<open>ForceEvict\<close> leave
  every dirty, pinned or open inode's row exactly as it was, report only inodes that are not open,
  and change neither the set of rows nor the write-back queue nor the failure ledger.
\<close>

theorem eviction_protects:
  assumes "db_ok (evDb e)"
    and "RunIfNeeded maxSize target inUse e = (r, e') \<or> ForceEvict inUse e = (r, e')"
  shows "(\<forall>r \<in> set (inodes (evDb e)). iDirty r \<or> iPinned r \<or> inUse (iID r) \<longrightarrow> r \<in> set (inodes (evDb e'))) \<and>
     (\<exists>ids. evicted e' = evicted e @ ids \<and> (\<forall>i \<in> set ids. \<not> inUse i)) \<and>
     wbqueue (evDb e') = wbqueue (evDb e) \<and> failures (evDb e') = failures (evDb e) \<and>
     map iID (inodes (evDb e')) = map iID (inodes (evDb e))"
proof -
  have "protected_kept inUse e e'"
    using assms protect.rel_RunIfNeeded [of maxSize target inUse e r e'] protect.rel_force_loop [of inUse e r e']
    by (auto simp: ev_ok_def ForceEvict_def)
  then show ?thesis unfolding protected_kept_def .
qed


text \<open>
  C36: eviction ends, and when it reports success the cache is within its maximum or every one of
  the hundred least recently used candidates is open.
\<close>

theorem RunIfNeeded_frees:
  assumes "RunIfNeeded maxSize target inUse e = (None, e')" "target \<le> maxSize"
  shows "size_now e' \<le> maxSize \<or>
    (\<exists>cands. LRUEvictionCandidates 100 (evDb e') = Inr cands \<and> (\<forall>x \<in> set cands. inUse (iID x)))"
proof -
  obtain n st where cb: "CacheBytes (evDb e) (evStore e) = (n, st)" by fastforce
  note sz = size_now_bytes [OF cb]
  show ?thesis
  proof (cases "n \<le> maxSize")
    case True
    then show ?thesis using assms(1) cb sz by (simp add: RunIfNeeded_def)
  next
    case False
    then have "evict_loop target inUse n (e\<lparr>evStore := st\<rparr>) = (None, e')"
      using assms(1) cb by (simp add: RunIfNeeded_def evict_def)
    from evict_loop_stops [OF this sz [symmetric]] assms(2) show ?thesis
      unfolding evictionBatchSize_def by (blast intro: order_trans)
  qed
qed

text \<open>
  The orphan sweep keeps every referenced blob, whatever fails, and when it succeeds with
  working removals and readable shards, exactly the referenced blobs are left.
\<close>

theorem GCOrphans_sweeps:
  assumes "GCOrphans now d s = (swept, err, s')" and "AllCachedHashes d = Inr referenced"
  shows "stored s \<inter> referenced \<subseteq> stored s' \<and> stored s' \<subseteq> stored s \<and>
    (err = None \<and> \<not> ioFails s IoRemove \<and> (\<forall>d. \<not> ioFails s (IoReadShard d)) \<longrightarrow> stored s' = stored s \<inter> referenced)"
proof (cases "ListHashes s")
  case (Inl e)
  then show ?thesis using assms by (auto simp: GCOrphans_def Let_def)
next
  case (Inr hashes)
  let ?del = "filter (\<lambda>h. h \<notin> referenced) hashes"
  let ?s1 = "fold (\<lambda>h s. snd (RemoveBlob h s)) ?del s"
  have s': "stored s' = stored ?s1"
  proof -
    have "s' = snd (GCTempFiles now tempFileGrace (snd (gc_remove referenced hashes s)))"
      using assms Inr by (auto simp: GCOrphans_def Let_def split: prod.splits)
    then show ?thesis by (simp add: stored_GCTempFiles gc_remove_fold)
  qed
  have keep: "stored s - set ?del \<subseteq> stored ?s1" "stored ?s1 \<subseteq> stored s"
    by (rule blob_dir.remove_many, rule blob_dir.remove_many_sub)
  have "stored ?s1 \<subseteq> referenced" if io: "\<not> ioFails s IoRemove" "\<forall>d. \<not> ioFails s (IoReadShard d)"
  proof
    fix h assume h: "h \<in> stored ?s1"
    show "h \<in> referenced"
    proof (rule ccontr)
      assume no: "h \<notin> referenced"
      have hs: "h \<in> stored s" using h keep(2) by blast
      then have hh: "is_hash h" by (simp add: in_stored)
      have "h \<in> set hashes"
      proof -
        obtain f where f: "f \<in> set (sFiles s)" "file_path f = pathFor h" using hs by (auto simp: in_stored)
        then have "bShard f = take 2 h" "bName f = drop 2 h" using is_hash_path(1) [OF hh] by (auto simp: file_path_def)
        moreover have "f \<in> set (shard_entries s)"
          using f calculation is_hash_path(2) [OF hh] io(2) by (auto simp: shard_entries_def)
        ultimately show ?thesis
          using Inr is_hash_path(4) [OF hh] by (force simp: ListHashes_def split: if_splits)
      qed
      then have "h \<in> set ?del" using no by simp
      with h show False using blobs.removed_gone [OF _ io(1), of h ?del] by blast
    qed
  qed
  then show ?thesis using keep s' by auto
qed

section \<open>Witnesses\<close>

text \<open>A cached clean file whose blob is the sample blob, beside the dirty sample row.\<close>

definition cached_row :: inode_row where
  "cached_row = fresh_row 2 (zero_inode\<lparr>iRemotePath := ''b.txt'', iCached := True, iContentHash := sample_hash\<rparr>)"

definition sample_evictor :: evictor where
  "sample_evictor = \<lparr>evDb = sample_db\<lparr>inodes := [sample_row, cached_row], nextInode := 3\<rparr>,
     evStore = Some filled_store, evicted = []\<rparr>"

lemma sample_evictor_ok: "db_ok (evDb sample_evictor)"
  by (simp add: db_ok_def sample_evictor_def cached_row_def sample_defs failure_key_def)

lemma sample_refs_ok: "refs_ok sample_evictor"
  using filled_open sample_is_hash
  by (auto simp: refs_ok_def sample_evictor_def cached_row_def sample_defs in_stored [symmetric] stored_def open_blob_def
      is_hash_def split: if_splits)

theorem eviction_protects_witness:
  "sample_row \<in> set (inodes (evDb (snd (ForceEvict (\<lambda>_. False) sample_evictor))))"
proof -
  have "sample_row \<in> set (inodes (evDb sample_evictor))" "iDirty sample_row"
    by (simp_all add: sample_evictor_def sample_defs)
  moreover have "ForceEvict (\<lambda>_. False) sample_evictor =
      (fst (ForceEvict (\<lambda>_. False) sample_evictor), snd (ForceEvict (\<lambda>_. False) sample_evictor))" by simp
  ultimately show ?thesis using eviction_protects [OF sample_evictor_ok] by blast
qed

lemma sample_run: "ForceEvict (\<lambda>i. i = 2) sample_evictor = (None, sample_evictor)"
proof -
  have "LRUEvictionCandidates evictionBatchSize (evDb sample_evictor) = Inr [scanInodeRow cached_row]"
    by (simp add: LRUEvictionCandidates_def query_def evictionBatchSize_def collectInodes_def sample_evictor_def
        cached_row_def sample_defs)
  moreover have "iID (scanInodeRow cached_row) = 2"
    by (simp add: scanInodeRow_def cached_row_def sample_defs)
  ultimately show ?thesis by (simp add: ForceEvict_def force_loop.simps [of _ sample_evictor])
qed


theorem RunIfNeeded_frees_witness:
  "size_now (snd (RunIfNeeded 1000 900 (\<lambda>_. False) (sample_evictor\<lparr>evStore := None\<rparr>))) \<le> 1000 \<or>
    (\<exists>cands. LRUEvictionCandidates 100 (evDb (snd (RunIfNeeded 1000 900 (\<lambda>_. False) (sample_evictor\<lparr>evStore := None\<rparr>)))) = Inr cands \<and>
       (\<forall>x \<in> set cands. False))"
proof -
  have "RunIfNeeded 1000 900 (\<lambda>_. False) (sample_evictor\<lparr>evStore := None\<rparr>) =
      (None, snd (RunIfNeeded 1000 900 (\<lambda>_. False) (sample_evictor\<lparr>evStore := None\<rparr>)))"
    by (simp add: RunIfNeeded_def CacheBytes_def TotalCacheSize_def query_def sample_evictor_def cached_row_def sample_defs)
  from RunIfNeeded_frees [OF this] show ?thesis by simp
qed

theorem GCOrphans_sweeps_witness:
  "stored (snd (snd (GCOrphans 0 sample_db filled_store))) \<subseteq> stored filled_store"
proof -
  have "AllCachedHashes sample_db = Inr {}"
    by (simp add: AllCachedHashes_def query_def sample_defs)
  with GCOrphans_sweeps [of 0 sample_db filled_store "fst (GCOrphans 0 sample_db filled_store)"
      "fst (snd (GCOrphans 0 sample_db filled_store))" "snd (snd (GCOrphans 0 sample_db filled_store))"]
  show ?thesis by simp
qed

end
