(* ===== verification/VfsModel.thy ===== *)
theory VfsModel
  imports Eviction Names "HOL-Library.AList"
begin

text \<open>
  The virtual file system of the mount: \<open>internal/mount/vfs/node.go\<close>, \<open>vfs.go\<close>, \<open>validate.go\<close>
  and \<open>validate_windows.go\<close>. Nodes are shared mutable objects, so they live in a heap: a node is
  named by its position in the list \<open>heap\<close>, a child table maps names to positions (in iteration
  order), and the index by inode id is a map to positions.

  What is not in the sources is a field of the environment \<open>venv\<close>: the server's answer to a
  command, the result of a download, the clock, fresh random values and the type registry that is
  generated from a data file. Each operation runs to its end before the next starts, except that
  \<open>Open\<close> is split where it waits for another download of the same file.
\<close>

section \<open>Names\<close>

definition byte_of :: "char \<Rightarrow> nat" where "byte_of c = of_char c"

definition word_char :: "char \<Rightarrow> bool" where
  "word_char c \<longleftrightarrow> (let n = byte_of c in (97 \<le> n \<and> n \<le> 122) \<or> (65 \<le> n \<and> n \<le> 90) \<or> (48 \<le> n \<and> n \<le> 57) \<or>
     c = CHR ''_'' \<or> c = CHR '' '' \<or> c = CHR ''-'')"

text \<open>The second byte of a letter with umlaut or of a sharp s in UTF-8; the first is 0xC3.\<close>

definition umlaut_byte :: "char \<Rightarrow> bool" where
  "umlaut_byte c \<longleftrightarrow> byte_of c \<in> {0xA4, 0xB6, 0xBC, 0x84, 0x96, 0x9C, 0x9F}"

fun class_star :: "(char \<Rightarrow> bool) \<Rightarrow> string \<Rightarrow> bool" where
  "class_star ok [] = True"
| "class_star ok (c # cs) =
     (if ok c then class_star ok cs
      else if byte_of c = 0xC3 then (case cs of [] \<Rightarrow> False | d # ds \<Rightarrow> umlaut_byte d \<and> class_star ok ds)
      else False)"

definition validNameRegex :: "string \<Rightarrow> bool" where
  "validNameRegex s \<longleftrightarrow> s \<noteq> [] \<and> class_star (\<lambda>c. word_char c \<or> c = CHR ''.'') s"

definition validFolderRegex :: "string \<Rightarrow> bool" where
  "validFolderRegex s \<longleftrightarrow> s \<noteq> [] \<and> class_star word_char s"

definition MaxUploadSize :: int where "MaxUploadSize = 5 * 1024 * 1024 * 1024"

text \<open>\<open>filepath.Ext\<close>: from the last dot of the last element.\<close>

definition last_elem :: "string \<Rightarrow> string" where
  "last_elem s = rev (takeWhile (\<lambda>c. c \<noteq> CHR ''/'') (rev s))"

definition filepath_Ext :: "string \<Rightarrow> string" where
  "filepath_Ext s = (let e = last_elem s in
     if CHR ''.'' \<in> set e then CHR ''.'' # rev (takeWhile (\<lambda>c. c \<noteq> CHR ''.'') (rev e)) else [])"

definition ValidateFile :: "(string \<Rightarrow> string) \<Rightarrow> (string \<Rightarrow> string) \<Rightarrow> string \<Rightarrow> int \<Rightarrow> bool \<times> string" where
  "ValidateFile uniLower typeOf name sz =
     (let ext = ToLower uniLower (TrimPrefix (filepath_Ext name) ''.'') in
      if ext \<noteq> [] \<and> typeOf ext = ''other'' then (False, ''file type .'' @ ext @ '' is not supported'')
      else if sz > MaxUploadSize then (False, ''file exceeds 5 GB upload limit'')
      else if \<not> validNameRegex name then (False, ''file name contains unsupported characters'')
      else (True, []))"

definition ValidateDirName :: "string \<Rightarrow> bool \<times> string" where
  "ValidateDirName name =
     (if \<not> validFolderRegex name then (False, ''folder name contains unsupported characters'') else (True, []))"

definition IsExcludedDir :: "string \<Rightarrow> bool" where
  "IsExcludedDir name \<longleftrightarrow> name \<in> {''.Trash'', ''.Favorites'', ''.Recents''}"

text \<open>The platform check: nothing elsewhere, the device names and characters on Windows. The
  range loop of the source is over runes; the characters tested are all below 0x80, so the
  bytes tell the same.\<close>

definition reservedDeviceNames :: "string list" where
  "reservedDeviceNames = [''CON'', ''PRN'', ''AUX'', ''NUL''] @
     map (\<lambda>d. ''COM'' @ [d]) ''123456789'' @ map (\<lambda>d. ''LPT'' @ [d]) ''123456789''"

definition isSafeNameWindows :: "(string \<Rightarrow> string) \<Rightarrow> string \<Rightarrow> bool" where
  "isSafeNameWindows toUpper name =
     (if list_ex (\<lambda>c. byte_of c < 0x20 \<or> c \<in> set ''<>:\"|?*'') name then False
      else if last name = CHR ''.'' \<or> last name = CHR '' '' then False
      else let base = takeWhile (\<lambda>c. c \<noteq> CHR ''.'') name in toUpper base \<notin> set reservedDeviceNames)"

definition IsSafeName :: "(string \<Rightarrow> bool) \<Rightarrow> string \<Rightarrow> bool" where
  "IsSafeName platform name =
     (if name = [] \<or> name = ''.'' \<or> name = ''..'' then False
      else if list_ex (\<lambda>c. c = CHR ''/'' \<or> c = CHR 0x5C \<or> c = CHR 0x00) name then False
      else platform name)"

section \<open>Nodes\<close>

type_synonym addr = nat

record dl_error =
  deText :: string
  dePermanent :: bool
  deCanceled :: bool

record node =
  nID :: int
  nName :: string
  nRemotePath :: string
  nIsDir :: bool
  nSize :: int
  nMtime :: int
  nSealedKey :: string
  nEncMeta :: string
  nEtag :: string
  nCached :: bool
  nDirty :: bool
  nContentHash :: string
  nSyncStatus :: SyncStatus
  nStatusReason :: string
  nParent :: "addr option"
  nChildren :: "(string \<times> addr) list"
  nLoaded :: bool
  nOpenCount :: int
  nData :: "bytes option"
  nWriteGen :: "64 word"
  nLastAccessFlush :: int
  nDownloading :: bool
  nDownloadErr :: "dl_error option"

definition zero_node :: node where
  "zero_node = \<lparr>nID = 0, nName = [], nRemotePath = [], nIsDir = False, nSize = 0, nMtime = 0, nSealedKey = [],
     nEncMeta = [], nEtag = [], nCached = False, nDirty = False, nContentHash = [], nSyncStatus = StatusSynced,
     nStatusReason = [], nParent = None, nChildren = [], nLoaded = False, nOpenCount = 0, nData = None,
     nWriteGen = 0, nLastAccessFlush = 0, nDownloading = False, nDownloadErr = None\<rparr>"

definition NewRootNode :: "int \<Rightarrow> string \<Rightarrow> node" where
  "NewRootNode now remotePath = zero_node\<lparr>nName := ''/'', nRemotePath := remotePath, nIsDir := True, nMtime := now\<rparr>"

definition NewDirNode :: "int \<Rightarrow> string \<Rightarrow> string \<Rightarrow> addr \<Rightarrow> node" where
  "NewDirNode now name remotePath parent =
     zero_node\<lparr>nName := name, nRemotePath := remotePath, nIsDir := True, nMtime := now, nParent := Some parent\<rparr>"

definition NewFileNode :: "string \<Rightarrow> string \<Rightarrow> int \<Rightarrow> int \<Rightarrow> addr \<Rightarrow> node" where
  "NewFileNode name remotePath sz mtime parent =
     zero_node\<lparr>nName := name, nRemotePath := remotePath, nSize := sz, nMtime := mtime, nParent := Some parent\<rparr>"

section \<open>The file system and its environment\<close>

record ls_entry =
  eDisplayName :: string
  eType :: string
  eETag :: string
  ePlaintextSize :: "int option"
  eModified :: "int option"

text \<open>An answer of the server: a transport error, a refusal with its message, or success with the
  decoded payload (\<open>None\<close> if it does not decode).\<close>

datatype 'p answer = ApiError string | Refused string | Answer "'p option"

record venv =
  vPrims :: prims
  vTokens :: token_env
  vPublicKey :: "PublicKeySet option"
  vPrivateKey :: "PrivateKeySet option"
  vNameKey :: bytes
  vSealRandom :: "bytes \<times> bytes \<times> bytes"
  vExecute :: "string \<Rightarrow> options \<Rightarrow> unit answer"
  vList :: "options \<Rightarrow> ls_entry list answer"
  vStat :: "(int \<times> int) answer"
  vFetch :: "string \<Rightarrow> dl_error + bytes \<times> string \<times> string"
  vB64Decode :: "string \<Rightarrow> bytes option"
  vNow :: int
  vNewKey :: string
  vTmpName :: string
  vNonces :: "nat \<Rightarrow> bytes"
  vTypeOf :: "string \<Rightarrow> string"
  vUniLower :: "string \<Rightarrow> string"
  vPlatformName :: "string \<Rightarrow> bool"
  vErrText :: "storeError \<Rightarrow> string"
  vMaxSize :: int
  vTarget :: int

record vfs =
  heap :: "node list"
  vDb :: db
  vStore :: store
  vReadOnly :: bool
  vOnline :: bool
  nodesByID :: "int \<rightharpoonup> addr"
  statfsUsed :: int
  statfsLimit :: int
  statfsAt :: "int option"

definition rootAddr :: addr where "rootAddr = 0"

datatype vfsError =
    ErrNotFound | ErrNotEmpty | ErrExists | ErrIsDir | ErrReadOnly | ErrInvalidName
  | ExcludedDirectory string | NameNotFound string | NotADirectory | ParentNotADirectory | InvalidDirName string
  | PersistInode dbError | ApiCallFailed string string | ApiRefused string string | ParseFailed string
  | ReadCachedContent storeError | WriteToCache storeError | FileNotCached string | StoreRead storeError
  | DownloadFailedWaited | DownloadWithheld int | DownloadText dl_error | DbError dbError | SliceOutOfRange

definition node_at :: "vfs \<Rightarrow> addr \<Rightarrow> node" where
  "node_at v a = heap v ! a"

definition upd_node :: "addr \<Rightarrow> (node \<Rightarrow> node) \<Rightarrow> vfs \<Rightarrow> vfs" where
  "upd_node a f v = v\<lparr>heap := (heap v)[a := f (heap v ! a)]\<rparr>"

definition alloc :: "node \<Rightarrow> vfs \<Rightarrow> addr \<times> vfs" where
  "alloc n v = (length (heap v), v\<lparr>heap := heap v @ [n]\<rparr>)"

definition with_db :: "(db \<Rightarrow> dbError option \<times> db) \<Rightarrow> vfs \<Rightarrow> vfs" where
  "with_db f v = v\<lparr>vDb := snd (f (vDb v))\<rparr>"

definition newVFS :: "int \<Rightarrow> string \<Rightarrow> db \<Rightarrow> store \<Rightarrow> vfs" where
  "newVFS now remoteBase d s =
     (let base = TrimPrefix (if remoteBase = ''/'' then [] else remoteBase) ''/'' in
      \<lparr>heap = [NewRootNode now base], vDb = d, vStore = s, vReadOnly = False, vOnline = True,
       nodesByID = Map.empty, statfsUsed = 0, statfsLimit = 0, statfsAt = None\<rparr>)"

definition SetReadOnly :: "bool \<Rightarrow> vfs \<Rightarrow> vfs" where
  "SetReadOnly ro v = v\<lparr>vReadOnly := ro, vDb := SetWritebackDisabled ro (vDb v)\<rparr>"

subsection \<open>Children and the index\<close>

definition GetChild :: "addr \<Rightarrow> string \<Rightarrow> vfs \<Rightarrow> addr option" where
  "GetChild p name v = map_of (nChildren (node_at v p)) name"

definition AddChild :: "addr \<Rightarrow> addr \<Rightarrow> vfs \<Rightarrow> vfs" where
  "AddChild p c v =
     (let v1 = upd_node p (\<lambda>n. n\<lparr>nChildren := AList.update (nName (node_at v c)) c (nChildren n)\<rparr>) v
      in upd_node c (\<lambda>n. n\<lparr>nParent := Some p\<rparr>) v1)"

definition RemoveChild :: "addr \<Rightarrow> string \<Rightarrow> vfs \<Rightarrow> addr option \<times> vfs" where
  "RemoveChild p name v =
     (GetChild p name v, upd_node p (\<lambda>n. n\<lparr>nChildren := AList.delete name (nChildren n)\<rparr>) v)"

definition ListChildNodes :: "addr \<Rightarrow> vfs \<Rightarrow> addr list" where
  "ListChildNodes p v = map snd (nChildren (node_at v p))"

definition ChildCount :: "addr \<Rightarrow> vfs \<Rightarrow> nat" where
  "ChildCount p v = length (nChildren (node_at v p))"

definition FullPath :: "node \<Rightarrow> string" where
  "FullPath n = (if nRemotePath n = [] \<or> nRemotePath n = ''/'' then ''/'' else ''/'' @ nRemotePath n)"

definition trackNode :: "addr \<Rightarrow> vfs \<Rightarrow> vfs" where
  "trackNode a v = (let i = nID (node_at v a) in if i = 0 then v else v\<lparr>nodesByID := (nodesByID v)(i \<mapsto> a)\<rparr>)"

definition untrackNode :: "addr \<Rightarrow> vfs \<Rightarrow> vfs" where
  "untrackNode a v = (let i = nID (node_at v a) in if i = 0 then v else v\<lparr>nodesByID := (nodesByID v)(i := None)\<rparr>)"

definition NodeByID :: "int \<Rightarrow> vfs \<Rightarrow> addr option" where
  "NodeByID i v = nodesByID v i"

definition AttachChild :: "addr \<Rightarrow> addr \<Rightarrow> vfs \<Rightarrow> vfs" where
  "AttachChild p c v = trackNode c (AddChild p c v)"

definition DetachChild :: "addr \<Rightarrow> string \<Rightarrow> vfs \<Rightarrow> vfs" where
  "DetachChild p name v =
     (case RemoveChild p name v of (Some c, v1) \<Rightarrow> untrackNode c v1 | (None, v1) \<Rightarrow> v1)"

definition evictInUse :: "vfs \<Rightarrow> int \<Rightarrow> bool" where
  "evictInUse v i = (case NodeByID i v of None \<Rightarrow> False | Some a \<Rightarrow> nOpenCount (node_at v a) > 0 \<or> nDirty (node_at v a))"

definition evictClear :: "int \<Rightarrow> vfs \<Rightarrow> vfs" where
  "evictClear i v = (case NodeByID i v of None \<Rightarrow> v | Some a \<Rightarrow> upd_node a (\<lambda>n. n\<lparr>nCached := False, nContentHash := []\<rparr>) v)"

definition nodeToInode :: "node \<Rightarrow> int \<Rightarrow> Inode" where
  "nodeToInode n parentID = zero_inode\<lparr>iRemotePath := nRemotePath n, iDisplayName := nName n, iIsDir := nIsDir n,
     iSize := nSize n, iMtime := nMtime n, iCached := nCached n, iDirty := nDirty n, iContentHash := nContentHash n,
     iSealedKey := nSealedKey n, iEncMeta := nEncMeta n, iEtag := nEtag n, iParentID := parentID,
     iSyncStatus := nSyncStatus n, iStatusReason := nStatusReason n\<rparr>"

definition joinPath :: "string \<Rightarrow> string \<Rightarrow> string" where
  "joinPath parent child = (if parent = [] then child else path_Join parent child)"

subsection \<open>Names on the wire\<close>

definition decryptName :: "venv \<Rightarrow> string \<Rightarrow> string" where
  "decryptName E b64 =
     (if b64 = [] then []
      else case vB64Decode E b64 of
             None \<Rightarrow> ''(encrypted)''
           | Some sealed \<Rightarrow>
               (case UnsealDisplayName (vPrims E) sealed (vPrivateKey E) of
                  Inl _ \<Rightarrow> ''(encrypted)''
                | Inr name \<Rightarrow> if \<not> IsSafeName (vPlatformName E) name then ''(encrypted)'' else name))"

definition addE2eeNameFields :: "venv \<Rightarrow> string \<Rightarrow> string \<Rightarrow> options \<Rightarrow> options" where
  "addE2eeNameFields E fileName fullPath opts =
     (let (eph, coins, nonce) = vSealRandom E in
      case SealDisplayName (vPrims E) eph coins nonce fileName (vPublicKey E) of
        Inl _ \<Rightarrow> opts
      | Inr sealedName \<Rightarrow>
          (case ComputePathToken (vTokens E) (vNameKey E) fullPath of
             None \<Rightarrow> opts
           | Some token \<Rightarrow> opts(''e2ee_display_name'' \<mapsto> b64_encode sealedName, ''e2ee_path_token'' \<mapsto> hex_encode token)))"

definition addPathTokens :: "venv \<Rightarrow> string list \<Rightarrow> options \<Rightarrow> options" where
  "addPathTokens E paths opts =
     AddPathTokenOptions (vTokens E) opts (vNameKey E)
       (concat (map (\<lambda>p. PathTokenPaths p PathTokenSelfAndAncestors) paths))"

section \<open>Opening and downloading\<close>

definition accessFlushInterval :: int where "accessFlushInterval = 60"
definition statfsTTL :: int where "statfsTTL = 30"

definition plain_err :: "string \<Rightarrow> dl_error" where
  "plain_err t = \<lparr>deText = t, dePermanent = False, deCanceled = False\<rparr>"

definition downloadFailureBarrier :: "venv \<Rightarrow> addr \<Rightarrow> vfs \<Rightarrow> dl_error option" where
  "downloadFailureBarrier E a v =
     (let i = nID (node_at v a) in
      if i = 0 then None
      else case GetSyncFailure i FailureDownload (vDb v) of
             Inl _ \<Rightarrow> None
           | Inr None \<Rightarrow> None
           | Inr (Some f) \<Rightarrow>
               if \<not> fPermanent f \<and> vNow E \<ge> fNextRetryAt f then None
               else if fLastError f = [] then
                 Some (plain_err (''download withheld after '' @ show_int (fAttempts f) @ '' failed attempt(s)''))
               else Some (plain_err (fLastError f)))"

text \<open>A delay in nanoseconds added to a time in seconds.\<close>

definition add_delay :: "int \<Rightarrow> 64 word \<Rightarrow> int" where
  "add_delay now d = now + sint d div 1000000000"

definition settleDownloadFailure :: "venv \<Rightarrow> addr \<Rightarrow> dl_error option \<Rightarrow> vfs \<Rightarrow> vfs" where
  "settleDownloadFailure E a err v =
     (let i = nID (node_at v a) in
      if i = 0 then v
      else case err of
             None \<Rightarrow> with_db (SetSyncStatus i StatusSynced []) (with_db (ClearSyncFailure i FailureDownload) v)
           | Some e \<Rightarrow>
               if deCanceled e then v
               else
                 let attempts = (case GetSyncFailure i FailureDownload (vDb v) of Inr (Some prev) \<Rightarrow> fAttempts prev + 1 | _ \<Rightarrow> 1);
                     f = \<lparr>fInodeID = i, fKind = FailureDownload, fPermanent = dePermanent e, fAttempts = attempts,
                          fNextRetryAt = (if dePermanent e then 0 else add_delay (vNow E) (TransferBackoff attempts)),
                          fLastError = deText e\<rparr>;
                     v1 = with_db (RecordSyncFailure f) v
                 in if fPermanent f then with_db (SetSyncStatus i StatusFailed (deText e)) v1 else v1)"

definition run_evictor :: "venv \<Rightarrow> vfs \<Rightarrow> vfs" where
  "run_evictor E v =
     (let e = snd (RunIfNeeded (vMaxSize E) (vTarget E) (evictInUse v) \<lparr>evDb = vDb v, evStore = Some (vStore v), evicted = []\<rparr>)
      in fold evictClear (evicted e)
           (v\<lparr>vDb := evDb e, vStore := (case evStore e of Some s \<Rightarrow> s | None \<Rightarrow> vStore v)\<rparr>))"

definition downloadAndCache :: "venv \<Rightarrow> addr \<Rightarrow> vfs \<Rightarrow> dl_error option \<times> vfs" where
  "downloadAndCache E a v =
     (case vFetch E (nRemotePath (node_at v a)) of
        Inl e \<Rightarrow> (Some e, v)
      | Inr (plaintext, sealedKey, encMeta) \<Rightarrow>
          (case Put (vPrims E) (vNow E) (vTmpName E) (vNonces E) plaintext (vStore v) of
             (Inl e, s) \<Rightarrow> (Some (plain_err (''cache put: '' @ vErrText E e)), v\<lparr>vStore := s\<rparr>)
           | (Inr hash, s) \<Rightarrow>
               (let v1 = upd_node a (\<lambda>n. n\<lparr>nContentHash := hash, nCached := True, nSize := int (length plaintext),
                                           nSealedKey := sealedKey, nEncMeta := encMeta\<rparr>) (v\<lparr>vStore := s\<rparr>);
                    i = nID (node_at v1 a);
                    v2 = with_db (MarkCached (vNow E) i hash) v1;
                    v3 = with_db (SetInodeSize i (int (length plaintext))) v2
                in (None, run_evictor E v3))))"

definition finishDownload :: "addr \<Rightarrow> dl_error option \<Rightarrow> vfs \<Rightarrow> vfs" where
  "finishDownload a err v =
     upd_node a (\<lambda>n. n\<lparr>nDownloading := False, nDownloadErr := err,
       nOpenCount := (if err \<noteq> None then nOpenCount n - 1 else nOpenCount n)\<rparr>) v"

datatype open_outcome = Opened | OpenFailed vfsError | MustDownload | MustWait

text \<open>The entry of \<open>Open\<close> up to the point where it returns, waits or downloads.\<close>

definition open_enter :: "venv \<Rightarrow> addr \<Rightarrow> vfs \<Rightarrow> open_outcome \<times> vfs" where
  "open_enter E a v =
     (let v1 = upd_node a (\<lambda>n. n\<lparr>nOpenCount := nOpenCount n + 1\<rparr>) v; n = node_at v1 a in
      if nCached n \<or> nDirty n then
        if vNow E - nLastAccessFlush n > accessFlushInterval
        then (Opened, with_db (TouchAccess (vNow E) (nID n)) (upd_node a (\<lambda>n. n\<lparr>nLastAccessFlush := vNow E\<rparr>) v1))
        else (Opened, v1)
      else if nDownloading n then (MustWait, v1)
      else (MustDownload, upd_node a (\<lambda>n. n\<lparr>nDownloading := True\<rparr>) v1))"

definition open_download :: "venv \<Rightarrow> addr \<Rightarrow> vfs \<Rightarrow> open_outcome \<times> vfs" where
  "open_download E a v =
     (let (err, v1) =
        (case downloadFailureBarrier E a v of
           Some e \<Rightarrow> (Some e, v)
         | None \<Rightarrow> (let (err, v1) = downloadAndCache E a v in (err, settleDownloadFailure E a err v1)))
      in ((case err of None \<Rightarrow> Opened | Some e \<Rightarrow> OpenFailed (DownloadText e)), finishDownload a err v1))"

text \<open>What a waiting \<open>Open\<close> does when the other download has ended.\<close>

definition open_resume :: "addr \<Rightarrow> vfs \<Rightarrow> open_outcome \<times> vfs" where
  "open_resume a v =
     (if nCached (node_at v a) then (Opened, v)
      else ((case nDownloadErr (node_at v a) of Some e \<Rightarrow> OpenFailed (DownloadText e) | None \<Rightarrow> OpenFailed DownloadFailedWaited),
            upd_node a (\<lambda>n. n\<lparr>nOpenCount := nOpenCount n - 1\<rparr>) v))"

definition Open :: "venv \<Rightarrow> addr \<Rightarrow> vfs \<Rightarrow> open_outcome \<times> vfs" where
  "Open E a v =
     (case open_enter E a v of
        (MustDownload, v1) \<Rightarrow> open_download E a v1
      | r \<Rightarrow> r)"

section \<open>Reading and writing\<close>

definition Read :: "venv \<Rightarrow> addr \<Rightarrow> int \<Rightarrow> int \<Rightarrow> vfs \<Rightarrow> ((vfsError + bytes) \<times> vfs) option" where
  "Read E a off sz v =
     (let n = node_at v a in
      case (nDirty n, nData n) of
        (True, Some data) \<Rightarrow>
          (let end0 = int64 (off + sz) in
           if off \<ge> int (length data) then Some (Inr [], v)
           else
             let end1 = (if end0 > int (length data) then int (length data) else end0) in
             if off < 0 \<or> end1 < off then Some (Inl SliceOutOfRange, v)
             else Some (Inr (take (nat (end1 - off)) (drop (nat off) data)), v))
      | _ \<Rightarrow>
          if \<not> nCached n \<or> nContentHash n = [] then Some (Inl (FileNotCached (nRemotePath n)), v)
          else case ReadAt (vPrims E) (nContentHash n) off sz (vStore v) of
                 None \<Rightarrow> None
               | Some (Inl e, s) \<Rightarrow> Some (Inl (StoreRead e), v\<lparr>vStore := s\<rparr>)
               | Some (Inr bs, s) \<Rightarrow> Some (Inr bs, v\<lparr>vStore := s\<rparr>))"

definition zero_extend :: "nat \<Rightarrow> bytes \<Rightarrow> bytes" where
  "zero_extend n data = data @ replicate (n - length data) 0"

definition overwrite :: "nat \<Rightarrow> bytes \<Rightarrow> bytes \<Rightarrow> bytes" where
  "overwrite off bs data = take (length data) (take off data @ bs @ drop (off + length bs) data)"

text \<open>The buffer that \<open>Write\<close> and \<open>Truncate\<close> start from.\<close>

definition load_buffer :: "venv \<Rightarrow> node \<Rightarrow> vfs \<Rightarrow> storeError + bytes" where
  "load_buffer E n v =
     (case nData n of
        Some data \<Rightarrow> Inr data
      | None \<Rightarrow> if nCached n \<and> nContentHash n \<noteq> [] then Get (vPrims E) (nContentHash n) (vStore v) else Inr [])"

definition Write :: "venv \<Rightarrow> addr \<Rightarrow> int \<Rightarrow> bytes \<Rightarrow> vfs \<Rightarrow> (vfsError + nat) \<times> vfs" where
  "Write E a off bs v =
     (if vReadOnly v then (Inl ErrReadOnly, v)
      else case load_buffer E (node_at v a) v of
             Inl e \<Rightarrow> (Inl (ReadCachedContent e), v)
           | Inr data0 \<Rightarrow>
               (let end0 = int64 (off + int (length bs));
                    data1 = (if end0 > int (length data0) then zero_extend (nat end0) data0 else data0)
                in if off < 0 \<or> off > int (length data1)
                   then (Inl SliceOutOfRange, upd_node a (\<lambda>n. n\<lparr>nData := Some data1\<rparr>) v)
                   else let data2 = overwrite (nat off) bs data1 in
                        (Inr (length bs),
                         upd_node a (\<lambda>n. n\<lparr>nData := Some data2, nSize := int (length data2), nMtime := vNow E,
                           nDirty := True, nWriteGen := nWriteGen n + 1, nSyncStatus := StatusPending\<rparr>) v)))"

definition Truncate :: "venv \<Rightarrow> addr \<Rightarrow> int \<Rightarrow> vfs \<Rightarrow> vfsError option \<times> vfs" where
  "Truncate E a sz v =
     (if vReadOnly v then (Some ErrReadOnly, v)
      else case load_buffer E (node_at v a) v of
             Inl e \<Rightarrow> (Some (ReadCachedContent e), v)
           | Inr data0 \<Rightarrow>
               if sz < 0 then (Some SliceOutOfRange, upd_node a (\<lambda>n. n\<lparr>nData := Some data0\<rparr>) v)
               else
                 let data1 = (if sz < int (length data0) then take (nat sz) data0
                              else if sz > int (length data0) then zero_extend (nat sz) data0 else data0)
                 in (None, upd_node a (\<lambda>n. n\<lparr>nData := Some data1, nSize := sz, nMtime := vNow E, nDirty := True,
                       nWriteGen := nWriteGen n + 1, nSyncStatus := StatusPending\<rparr>) v))"

definition release_blob :: "string \<Rightarrow> int \<Rightarrow> vfs \<Rightarrow> vfs" where
  "release_blob hash excludeID v =
     (case ReleaseBlob hash excludeID (vDb v) (Some (vStore v)) of Some s \<Rightarrow> v\<lparr>vStore := s\<rparr> | None \<Rightarrow> v)"

definition enqueue_upload :: "venv \<Rightarrow> int \<Rightarrow> string \<Rightarrow> vfs \<Rightarrow> vfs" where
  "enqueue_upload E i path v = with_db (EnqueueWriteback (vNewKey E) (vNow E) i Upload path ExtraEmpty) v"

definition Flush :: "venv \<Rightarrow> addr \<Rightarrow> vfs \<Rightarrow> vfsError option \<times> vfs" where
  "Flush E a v =
     (let n = node_at v a in
      case (nDirty n, nData n) of
        (True, Some data) \<Rightarrow>
          (case Put (vPrims E) (vNow E) (vTmpName E) (vNonces E) data (vStore v) of
             (Inl e, s) \<Rightarrow> (Some (WriteToCache e), v\<lparr>vStore := s\<rparr>)
           | (Inr hash, s) \<Rightarrow>
               (let superseded = nContentHash n; i = nID n;
                    v1 = upd_node a (\<lambda>n. n\<lparr>nContentHash := hash, nCached := True\<rparr>) (v\<lparr>vStore := s\<rparr>);
                    v2 = with_db (MarkDirty i) (with_db (MarkCached (vNow E) i hash) v1);
                    v3 = (if superseded \<noteq> hash then release_blob superseded i v2 else v2);
                    (ok, reason) = ValidateFile (vUniLower E) (vTypeOf E) (nName n) (nSize n)
                in if \<not> ok
                   then (None, upd_node a (\<lambda>n. n\<lparr>nSyncStatus := StatusRejected, nStatusReason := reason\<rparr>)
                                 (with_db (SetSyncStatus i StatusRejected reason) v3))
                   else (None, enqueue_upload E i (nRemotePath n) v3)))
      | _ \<Rightarrow> (None, v))"

definition Release :: "venv \<Rightarrow> addr \<Rightarrow> vfs \<Rightarrow> vfsError option \<times> vfs" where
  "Release E a v =
     (let v1 = upd_node a (\<lambda>n. n\<lparr>nOpenCount := nOpenCount n - 1\<rparr>) v; n = node_at v1 a in
      if nOpenCount n \<le> 0 \<and> nDirty n then Flush E a v1 else (None, v1))"

section \<open>Listing a directory\<close>

definition conflict_reason :: string where "conflict_reason = ''remote changed while local edits pending''"

text \<open>An entry of the listing whose name the directory already has.\<close>

definition refresh_child :: "addr \<Rightarrow> ls_entry \<Rightarrow> vfs \<Rightarrow> vfs" where
  "refresh_child a entry v =
     (let n = node_at v a;
          cachedDirty = (case GetInode (nID n) (vDb v) of Inr x \<Rightarrow> iDirty x | Inl _ \<Rightarrow> False);
          locallyDirty = (nDirty n \<or> cachedDirty)
      in if locallyDirty \<and> nEtag n \<noteq> eETag entry then
           with_db (MarkLocalConflict (nID n) conflict_reason)
             (upd_node a (\<lambda>n. n\<lparr>nSyncStatus := StatusConflict, nStatusReason := conflict_reason\<rparr>) v)
         else
           let v1 = (if \<not> locallyDirty \<and> nEtag n \<noteq> eETag entry
                     then with_db (InvalidateCache (nID n)) (upd_node a (\<lambda>n. n\<lparr>nCached := False\<rparr>) v) else v);
               v2 = with_db (SetRemoteVersion (nID n) (eETag entry)) (upd_node a (\<lambda>n. n\<lparr>nEtag := eETag entry\<rparr>) v1);
               v3 = (case ePlaintextSize entry of Some sz \<Rightarrow> upd_node a (\<lambda>n. n\<lparr>nSize := sz\<rparr>) v2 | None \<Rightarrow> v2)
           in (case eModified entry of Some t \<Rightarrow> upd_node a (\<lambda>n. n\<lparr>nMtime := t\<rparr>) v3 | None \<Rightarrow> v3))"

text \<open>An entry with a new name: the node built for it, merged with a dirty row of the same path.\<close>

definition listed_node :: "venv \<Rightarrow> addr \<Rightarrow> string \<Rightarrow> string \<Rightarrow> ls_entry \<Rightarrow> vfs \<Rightarrow> node" where
  "listed_node E parent name childPath entry v =
     (let prior = GetInodeByPath childPath (vDb v);
          base = (if eType entry = ''directory'' then NewDirNode (vNow E) name childPath parent
                  else
                    let sz = (case ePlaintextSize entry of Some sz \<Rightarrow> sz
                              | None \<Rightarrow> (case prior of Inr x \<Rightarrow> iSize x | Inl _ \<Rightarrow> 0));
                        mtime = (case eModified entry of Some t \<Rightarrow> t | None \<Rightarrow> vNow E)
                    in NewFileNode name childPath sz mtime parent);
          n = base\<lparr>nEtag := eETag entry\<rparr>
      in case prior of
           Inl _ \<Rightarrow> n
         | Inr x \<Rightarrow>
             if iDirty x then
               let m = n\<lparr>nDirty := True, nEtag := iEtag x, nSize := iSize x, nMtime := iMtime x,
                          nSyncStatus := iSyncStatus x, nStatusReason := iStatusReason x\<rparr>
               in if iEtag x \<noteq> eETag entry then m\<lparr>nSyncStatus := StatusConflict, nStatusReason := conflict_reason\<rparr> else m
             else n)"

definition insert_child :: "venv \<Rightarrow> addr \<Rightarrow> string \<Rightarrow> ls_entry \<Rightarrow> vfs \<Rightarrow> vfs" where
  "insert_child E parent name entry v =
     (let childPath = joinPath (nRemotePath (node_at v parent)) name;
          n = listed_node E parent name childPath entry v;
          (r, d) = UpsertInode (nodeToInode n (nID (node_at v parent))) (vDb v);
          n1 = (case r of Inr i \<Rightarrow> n\<lparr>nID := i\<rparr> | Inl _ \<Rightarrow> n);
          (a, v1) = alloc n1 (v\<lparr>vDb := d\<rparr>);
          v2 = upd_node parent (\<lambda>p. p\<lparr>nChildren := AList.update name a (nChildren p)\<rparr>) v1
      in trackNode a v2)"

fun populate_entries :: "venv \<Rightarrow> addr \<Rightarrow> ls_entry list \<Rightarrow> string list \<Rightarrow> vfs \<Rightarrow> string list \<times> vfs" where
  "populate_entries E parent [] seen v = (seen, v)"
| "populate_entries E parent (entry # es) seen v =
     (let name = decryptName E (eDisplayName entry) in
      if name = [] \<or> name = ''(encrypted)'' \<or> IsExcludedDir name then populate_entries E parent es seen v
      else
        let v1 = (case GetChild parent name v of
                    Some a \<Rightarrow> refresh_child a entry v
                  | None \<Rightarrow> insert_child E parent name entry v)
        in populate_entries E parent es (name # seen) v1)"

fun drop_unseen :: "addr \<Rightarrow> string list \<Rightarrow> (string \<times> addr) list \<Rightarrow> vfs \<Rightarrow> vfs" where
  "drop_unseen parent seen [] v = v"
| "drop_unseen parent seen ((name, c) # cs) v =
     (if name \<notin> set seen \<and> \<not> nDirty (node_at v c)
      then drop_unseen parent seen cs (untrackNode c (snd (RemoveChild parent name v)))
      else drop_unseen parent seen cs v)"

definition populateDir :: "venv \<Rightarrow> addr \<Rightarrow> vfs \<Rightarrow> vfsError option \<times> vfs" where
  "populateDir E parent v =
     (let remotePath = nRemotePath (node_at v parent);
          source = (if remotePath \<noteq> [] then ''/'' @ remotePath else ''/'');
          opts = [''source'' \<mapsto> source];
          opts1 = (if remotePath \<noteq> [] then addPathTokens E [remotePath] opts else opts)
      in case vList E opts1 of
           ApiError e \<Rightarrow> (Some (ApiCallFailed ''ls'' e), v\<lparr>vOnline := False\<rparr>)
         | Refused m \<Rightarrow> (Some (ApiRefused ''ls'' m), v\<lparr>vOnline := True\<rparr>)
         | Answer None \<Rightarrow> (Some (ParseFailed ''ls''), v\<lparr>vOnline := True\<rparr>)
         | Answer (Some entries) \<Rightarrow>
             (let (seen, v1) = populate_entries E parent entries [] (v\<lparr>vOnline := True\<rparr>);
                  v2 = drop_unseen parent seen (nChildren (node_at v1 parent)) v1
              in (None, upd_node parent (\<lambda>n. n\<lparr>nLoaded := True\<rparr>) v2)))"

definition Lookup :: "venv \<Rightarrow> addr \<Rightarrow> string \<Rightarrow> vfs \<Rightarrow> (vfsError + addr) \<times> vfs" where
  "Lookup E parent name v =
     (if IsExcludedDir name then (Inl (ExcludedDirectory name), v)
      else case GetChild parent name v of
             Some a \<Rightarrow> (Inr a, v)
           | None \<Rightarrow>
               if nLoaded (node_at v parent) then (Inl (NameNotFound name), v)
               else (case populateDir E parent v of
                       (Some e, v1) \<Rightarrow> (Inl e, v1)
                     | (None, v1) \<Rightarrow>
                         (case GetChild parent name v1 of
                            Some a \<Rightarrow> (Inr a, v1)
                          | None \<Rightarrow> (Inl (NameNotFound name), v1))))"

definition Readdir :: "venv \<Rightarrow> addr \<Rightarrow> vfs \<Rightarrow> (vfsError + addr list) \<times> vfs" where
  "Readdir E parent v =
     (if \<not> nIsDir (node_at v parent) then (Inl NotADirectory, v)
      else if nLoaded (node_at v parent) then (Inr (ListChildNodes parent v), v)
      else case populateDir E parent v of
             (Some e, v1) \<Rightarrow> (Inl e, v1)
           | (None, v1) \<Rightarrow> (Inr (ListChildNodes parent v1), v1))"

section \<open>Creating and removing\<close>

definition Create :: "venv \<Rightarrow> addr \<Rightarrow> string \<Rightarrow> vfs \<Rightarrow> (vfsError + addr) \<times> vfs" where
  "Create E parent name v =
     (if vReadOnly v then (Inl ErrReadOnly, v)
      else if \<not> nIsDir (node_at v parent) then (Inl ParentNotADirectory, v)
      else case GetChild parent name v of
             Some a \<Rightarrow>
               if nIsDir (node_at v a) then (Inl ErrExists, v)
               else (case Truncate E a 0 v of (Some e, v1) \<Rightarrow> (Inl e, v1) | (None, v1) \<Rightarrow> (Inr a, v1))
           | None \<Rightarrow>
               (let remotePath = joinPath (nRemotePath (node_at v parent)) name;
                    (ok, reason) = ValidateFile (vUniLower E) (vTypeOf E) name 0;
                    status = (if ok then StatusPending else StatusRejected);
                    n = (NewFileNode name remotePath 0 (vNow E) parent)
                          \<lparr>nSyncStatus := status, nStatusReason := reason, nDirty := True, nData := Some []\<rparr>;
                    inode = zero_inode\<lparr>iRemotePath := remotePath, iDisplayName := name, iMtime := vNow E, iDirty := True,
                              iSyncStatus := status, iStatusReason := reason, iParentID := nID (node_at v parent)\<rparr>
                in case UpsertInode inode (vDb v) of
                     (Inl e, d) \<Rightarrow> (Inl (PersistInode e), v\<lparr>vDb := d\<rparr>)
                   | (Inr i, d) \<Rightarrow>
                       (let (a, v1) = alloc (n\<lparr>nID := i\<rparr>) (v\<lparr>vDb := d\<rparr>) in (Inr a, AttachChild parent a v1))))"

definition Mkdir :: "venv \<Rightarrow> addr \<Rightarrow> string \<Rightarrow> vfs \<Rightarrow> (vfsError + addr) \<times> vfs" where
  "Mkdir E parent name v =
     (if vReadOnly v then (Inl ErrReadOnly, v)
      else if \<not> nIsDir (node_at v parent) then (Inl ParentNotADirectory, v)
      else
        let (ok, reason) = ValidateDirName name in
        if \<not> ok then (Inl (InvalidDirName reason), v)
        else
          let remotePath = joinPath (nRemotePath (node_at v parent)) name;
              opts = addPathTokens E [remotePath] (addE2eeNameFields E name remotePath [''source'' \<mapsto> ''/'' @ remotePath])
          in case vExecute E ''mk'' opts of
               ApiError e \<Rightarrow> (Inl (ApiCallFailed ''mk'' e), v)
             | Refused m \<Rightarrow> (Inl (ApiRefused ''mk'' m), v)
             | Answer _ \<Rightarrow>
                 (let inode = zero_inode\<lparr>iRemotePath := remotePath, iDisplayName := name, iIsDir := True,
                        iMtime := vNow E, iSyncStatus := StatusSynced, iParentID := nID (node_at v parent)\<rparr>
                  in case UpsertInode inode (vDb v) of
                       (Inl e, d) \<Rightarrow> (Inl (PersistInode e), v\<lparr>vDb := d\<rparr>)
                     | (Inr i, d) \<Rightarrow>
                         (let (a, v1) = alloc ((NewDirNode (vNow E) name remotePath parent)\<lparr>nID := i\<rparr>) (v\<lparr>vDb := d\<rparr>)
                          in (Inr a, AttachChild parent a v1))))"

text \<open>The command sent to the server, as an error or none.\<close>

definition api_error :: "string \<Rightarrow> 'p answer \<Rightarrow> vfsError option" where
  "api_error cmd r = (case r of ApiError e \<Rightarrow> Some (ApiCallFailed cmd e) | Refused m \<Rightarrow> Some (ApiRefused cmd m) | Answer _ \<Rightarrow> None)"

definition uploaded_status :: "SyncStatus \<Rightarrow> bool" where
  "uploaded_status s \<longleftrightarrow> s = StatusSynced \<or> s = StatusConflict"

definition Unlink :: "venv \<Rightarrow> addr \<Rightarrow> string \<Rightarrow> vfs \<Rightarrow> vfsError option \<times> vfs" where
  "Unlink E parent name v =
     (if vReadOnly v then (Some ErrReadOnly, v)
      else case GetChild parent name v of
             None \<Rightarrow> (Some ErrNotFound, v)
           | Some c \<Rightarrow>
               (let n = node_at v c in
                if nIsDir n then (Some ErrIsDir, v)
                else
                  let opts = addPathTokens E [nRemotePath n] [''source'' \<mapsto> ''/'' @ nRemotePath n];
                      err = (if uploaded_status (nSyncStatus n) then api_error ''rm'' (vExecute E ''rm'' opts) else None)
                  in case err of
                       Some e \<Rightarrow> (Some e, v)
                     | None \<Rightarrow>
                         (let v1 = snd (RemoveChild parent name v);
                              v2 = with_db (DeleteWritebackByInode (nID n)) v1;
                              v3 = release_blob (nContentHash n) (nID n) v2;
                              v4 = with_db (DeleteInode (nRemotePath n)) v3
                          in (None, untrackNode c v4))))"

definition Rmdir :: "venv \<Rightarrow> addr \<Rightarrow> string \<Rightarrow> vfs \<Rightarrow> vfsError option \<times> vfs" where
  "Rmdir E parent name v =
     (if vReadOnly v then (Some ErrReadOnly, v)
      else case GetChild parent name v of
             None \<Rightarrow> (Some ErrNotFound, v)
           | Some c \<Rightarrow>
               if \<not> nIsDir (node_at v c) then (Some NotADirectory, v)
               else
                 case (if nLoaded (node_at v c) then (None, v) else populateDir E c v) of
                   (Some e, v1) \<Rightarrow> (Some e, v1)
                 | (None, v1) \<Rightarrow>
                     if ChildCount c v1 > 0 then (Some ErrNotEmpty, v1)
                     else
                       let remotePath = nRemotePath (node_at v1 c);
                           opts = addPathTokens E [remotePath] [''source'' \<mapsto> ''/'' @ remotePath]
                       in case api_error ''rm'' (vExecute E ''rm'' opts) of
                            Some e \<Rightarrow> (Some e, v1)
                          | None \<Rightarrow>
                              (let v2 = snd (RemoveChild parent name v1);
                                   v3 = with_db (DeleteInode remotePath) (with_db (DeleteChildren (nID (node_at v1 c))) v2)
                               in (None, untrackNode c v3)))"

section \<open>Renaming\<close>

text \<open>A node's row under its new path: the old row is deleted and a new one upserted; the id is the
  one returned, zero if the statement fails.\<close>

definition rehome :: "addr \<Rightarrow> string \<Rightarrow> int \<Rightarrow> vfs \<Rightarrow> vfs" where
  "rehome c oldPath parentID v =
     (let v1 = with_db (DeleteInode oldPath) v;
          (r, d) = UpsertInode (nodeToInode (node_at v1 c) parentID) (vDb v1);
          i = (case r of Inr i \<Rightarrow> i | Inl _ \<Rightarrow> 0)
      in trackNode c (upd_node c (\<lambda>n. n\<lparr>nID := i\<rparr>) (v1\<lparr>vDb := d\<rparr>)))"

definition move_node :: "addr \<Rightarrow> string \<Rightarrow> addr \<Rightarrow> addr \<Rightarrow> string \<Rightarrow> string \<Rightarrow> vfs \<Rightarrow> vfs" where
  "move_node oldParent oldName c newParent newName newPath v =
     (let v1 = untrackNode c (snd (RemoveChild oldParent oldName v));
          v2 = upd_node c (\<lambda>n. n\<lparr>nName := newName, nRemotePath := newPath, nParent := Some newParent\<rparr>) v1
      in AddChild newParent c v2)"

definition rewrite_node :: "addr \<Rightarrow> addr \<Rightarrow> string \<Rightarrow> vfs \<Rightarrow> vfs" where
  "rewrite_node c dir newPath v =
     (let oldPath = nRemotePath (node_at v c);
          v1 = upd_node c (\<lambda>n. n\<lparr>nRemotePath := newPath\<rparr>) (untrackNode c v)
      in rehome c oldPath (nID (node_at v1 dir)) v1)"

text \<open>The recursion of \<open>rewriteSubtree\<close> as a stack of children still to rewrite, each with its
  directory and the prefixes; a directory's children go on top.\<close>

partial_function (option) rewriteSubtree :: "(addr \<times> addr \<times> string \<times> string) list \<Rightarrow> vfs \<Rightarrow> vfs option" where
  "rewriteSubtree ts v =
     (case ts of
        [] \<Rightarrow> Some v
      | (c, dir, oldPrefix, newPrefix) # rest \<Rightarrow>
          (let oldPath = nRemotePath (node_at v c);
               newPath = newPrefix @ TrimPrefix oldPath oldPrefix;
               v1 = rewrite_node c dir newPath v
           in rewriteSubtree
                ((if nIsDir (node_at v c) then map (\<lambda>x. (x, c, oldPath, newPath)) (ListChildNodes c v1) else []) @ rest) v1))"

definition renameLocalOnlyFile ::
  "venv \<Rightarrow> addr \<Rightarrow> addr \<Rightarrow> string \<Rightarrow> addr \<Rightarrow> string \<Rightarrow> string \<Rightarrow> vfs \<Rightarrow> vfs" where
  "renameLocalOnlyFile E oldParent c oldName newParent newName newPath v =
     (let oldPath = nRemotePath (node_at v c); oldID = nID (node_at v c);
          v1 = move_node oldParent oldName c newParent newName newPath v;
          v2 = with_db (DeleteWritebackByInode oldID) v1;
          v3 = rehome c oldPath (nID (node_at v2 newParent)) v2
      in enqueue_upload E (nID (node_at v3 c)) newPath v3)"

definition RenameNode :: "venv \<Rightarrow> addr \<Rightarrow> string \<Rightarrow> addr \<Rightarrow> string \<Rightarrow> vfs \<Rightarrow> (vfsError option \<times> vfs) option" where
  "RenameNode E oldParent oldName newParent newName v =
     (if vReadOnly v then Some (Some ErrReadOnly, v)
      else case GetChild oldParent oldName v of
             None \<Rightarrow> Some (Some ErrNotFound, v)
           | Some c \<Rightarrow>
               (let n = node_at v c;
                    newPath = joinPath (nRemotePath (node_at v newParent)) newName;
                    nameOk = (if nIsDir n then fst (ValidateDirName newName) else validNameRegex newName)
                in if \<not> IsSafeName (vPlatformName E) newName \<or> \<not> nameOk then Some (Some ErrInvalidName, v)
                   else if \<not> uploaded_status (nSyncStatus n) \<and> \<not> nIsDir n
                   then Some (None, renameLocalOnlyFile E oldParent c oldName newParent newName newPath v)
                   else
                     let opts = addPathTokens E [nRemotePath n, newPath]
                           (addE2eeNameFields E newName newPath [''source'' \<mapsto> ''/'' @ nRemotePath n, ''target'' \<mapsto> ''/'' @ newPath])
                     in case api_error ''mv'' (vExecute E ''mv'' opts) of
                          Some e \<Rightarrow> Some (Some e, v)
                        | None \<Rightarrow>
                            (let oldPath = nRemotePath n;
                                 v1 = move_node oldParent oldName c newParent newName newPath v;
                                 v2 = rehome c oldPath (nID (node_at v1 newParent)) v1
                             in if nIsDir n
                                then map_option (Pair None)
                                       (rewriteSubtree (map (\<lambda>x. (x, c, oldPath, newPath)) (ListChildNodes c v2)) v2)
                                else Some (None, v2))))"

section \<open>Housekeeping\<close>

definition Statfs :: "venv \<Rightarrow> vfs \<Rightarrow> (vfsError + int \<times> int) \<times> vfs" where
  "Statfs E v =
     (if (case statfsAt v of Some t \<Rightarrow> vNow E - t < statfsTTL | None \<Rightarrow> False)
      then (Inr (statfsUsed v, statfsLimit v), v)
      else case vStat E of
             ApiError e \<Rightarrow> (Inl (ApiCallFailed ''st'' e), v)
           | Refused m \<Rightarrow> (Inl (ApiRefused ''st'' m), v)
           | Answer None \<Rightarrow> (Inl (ParseFailed ''st''), v)
           | Answer (Some (used, limit)) \<Rightarrow>
               (Inr (used, limit), v\<lparr>statfsUsed := used, statfsLimit := limit, statfsAt := Some (vNow E)\<rparr>))"

text \<open>The recursive walk of \<open>removeFromTreeByStatus\<close> as a stack of child entries still to visit.\<close>

partial_function (option) remove_walk ::
  "SyncStatus \<Rightarrow> (addr \<times> string \<times> addr) list \<Rightarrow> nat \<Rightarrow> vfs \<Rightarrow> (nat \<times> vfs) option" where
  "remove_walk status ts k v =
     (case ts of
        [] \<Rightarrow> Some (k, v)
      | (dir, name, c) # rest \<Rightarrow>
          if nSyncStatus (node_at v c) = status
          then remove_walk status rest (Suc k) (untrackNode c (snd (RemoveChild dir name v)))
          else if nIsDir (node_at v c)
          then remove_walk status (map (\<lambda>(nm, x). (c, nm, x)) (nChildren (node_at v c)) @ rest) k v
          else remove_walk status rest k v)"

definition removeFromTreeByStatus :: "SyncStatus \<Rightarrow> vfs \<Rightarrow> (nat \<times> vfs) option" where
  "removeFromTreeByStatus status v =
     (if \<not> nIsDir (node_at v rootAddr) then Some (0, v)
      else remove_walk status (map (\<lambda>(nm, x). (rootAddr, nm, x)) (nChildren (node_at v rootAddr))) 0 v)"

definition CleanRejected :: "vfs \<Rightarrow> ((dbError + nat) \<times> vfs) option" where
  "CleanRejected v =
     (case DeleteRejected (vDb v) of
        (Inl e, d) \<Rightarrow> Some (Inl e, v\<lparr>vDb := d\<rparr>)
      | (Inr hashes, d) \<Rightarrow>
          (let v1 = fold (\<lambda>h. release_blob h 0) hashes (v\<lparr>vDb := d\<rparr>) in
           map_option (\<lambda>(n, v2). (Inr n, v2)) (removeFromTreeByStatus StatusRejected v1)))"

end
