(* ===== verification/DbReach.thy ===== *)
theory DbReach
  imports CacheLaws
begin

text \<open>
  Clients of the cache database. A component that touches the database only through its methods
  leads from one database to another by a sequence of calls; what the calls keep, the component
  keeps. The locales state this once: a client whose calls are among an allowed set keeps the keys;
  one that never marks an inode synced never loses a pending edit; one that never re-enables
  write-back queues nothing on a read-only mount.
\<close>

section \<open>Reachability by calls\<close>

definition reaches :: "(dbcall \<Rightarrow> bool) \<Rightarrow> db \<Rightarrow> db \<Rightarrow> bool" where
  "reaches allowed d d' \<longleftrightarrow> (\<exists>cs. (\<forall>c \<in> set cs. allowed c) \<and> d' = fold db_call cs d)"

lemma reaches_refl [simp, intro]: "reaches allowed d d"
  unfolding reaches_def by (rule exI [of _ "[]"]) simp

lemma reaches_trans: "reaches allowed d d1 \<Longrightarrow> reaches allowed d1 d2 \<Longrightarrow> reaches allowed d d2"
proof -
  assume "reaches allowed d d1" "reaches allowed d1 d2"
  then obtain cs1 cs2 where "\<forall>c \<in> set cs1. allowed c" "d1 = fold db_call cs1 d"
    "\<forall>c \<in> set cs2. allowed c" "d2 = fold db_call cs2 d1"
    unfolding reaches_def by blast
  then show ?thesis unfolding reaches_def by (intro exI [of _ "cs1 @ cs2"]) auto
qed

lemma reaches_call: "reaches allowed d d1 \<Longrightarrow> allowed c \<Longrightarrow> d2 = db_call c d1 \<Longrightarrow> reaches allowed d d2"
  using reaches_trans [of allowed d d1 d2] unfolding reaches_def by (force intro: exI [of _ "[c]"])

lemma reaches_induct [consumes 1, case_names refl step]:
  assumes "reaches allowed d d'" "P d" "\<And>c e. allowed c \<Longrightarrow> reaches allowed d e \<Longrightarrow> P e \<Longrightarrow> P (db_call c e)"
  shows "P d'"
proof -
  obtain cs where cs: "\<forall>c \<in> set cs. allowed c" "d' = fold db_call cs d" using assms(1) by (auto simp: reaches_def)
  have "P (fold db_call cs d)" using cs(1)
  proof (induction cs rule: rev_induct)
    case (snoc c cs)
    then have "reaches allowed d (fold db_call cs d)" by (auto simp: reaches_def)
    with snoc assms(3) show ?case by simp
  qed (simp add: assms(2))
  with cs(2) show ?thesis by simp
qed

lemma reaches_db_ok: "reaches allowed d d' \<Longrightarrow> db_ok d \<Longrightarrow> db_ok d'"
  by (induction rule: reaches_induct) (auto intro: db_ok_step)

text \<open>Failures of statements are a property of the environment, which no call changes.\<close>

lemma sqlFails_clearEach [simp]: "sqlFails (snd (clearEach xs d)) = sqlFails d"
  by (induction xs d rule: clearEach.induct) (auto simp: Let_def case_prod_beta db_defs snd_exec)

lemma sqlFails_call [simp]: "sqlFails (db_call c d) = sqlFails d"
proof (cases c)
  case (CClearFailedTransfers p)
  then show ?thesis using ClearFailedTransfers_cases [of p d] sqlFails_clearEach by (metis db_call.simps(29))
qed (auto simp: db_defs snd_exec UpsertInode_def EnqueueWriteback_def DequeueWriteback_def RequeueInProgress_def
      DeleteFailedWritebacks_def DeleteRejected_def RecordSyncFailure_def SetWritebackDisabled_def Let_def
      upd_inodes_def upd_queue_def split: option.splits)

lemma reaches_sqlFails: "reaches allowed d d' \<Longrightarrow> sqlFails d' = sqlFails d"
  by (induction rule: reaches_induct) simp_all

section \<open>Ids are never reused\<close>

lemma ids_upd_inodes: "keeps_inode_keys f \<Longrightarrow> map iID (inodes (upd_inodes P f d)) = map iID (inodes d)"
  by (simp add: upd_inodes_def inode_id.map_key_sql_update)

lemma call_ids:
  "iID ` set (inodes (db_call c d)) \<subseteq> iID ` set (inodes d) \<union> {nextInode d} \<and> nextInode d \<le> nextInode (db_call c d)"
proof -
  have upd: "iID ` set (inodes (upd_inodes P f d)) = iID ` set (inodes d)" if "keeps_inode_keys f" for P f
    using ids_upd_inodes [OF that, of P d] by (metis list.set_map)
  have "nextInode (snd (clearEach xs e)) = nextInode e" for xs e
    by (induction xs e rule: clearEach.induct) (auto simp: Let_def case_prod_beta db_defs snd_exec)
  then have clear: "nextInode (snd (ClearFailedTransfers p d)) = nextInode d" for p
    using ClearFailedTransfers_cases [of p d] by metis
  have "nextInode d \<le> nextInode (db_call c d)"
    by (cases c) (auto simp: clear db_defs snd_exec UpsertInode_def EnqueueWriteback_def DequeueWriteback_def
        RequeueInProgress_def DeleteFailedWritebacks_def DeleteRejected_def RecordSyncFailure_def
        SetWritebackDisabled_def Let_def upd_inodes_def upd_queue_def split: option.splits)
  moreover have "iID ` set (inodes (db_call c d)) \<subseteq> iID ` set (inodes d) \<union> {nextInode d}"
    by (cases c) (auto simp: db_defs snd_exec upd keeps_inode_keys_def conflict_row_def UpsertInode_def
        DequeueWriteback_def RequeueInProgress_def DeleteFailedWritebacks_def DeleteRejected_def
        SetWritebackDisabled_def fresh_row_def Inode.defs inode_row.defs Let_def
      simp del: set_map split: option.splits if_splits
      dest!: upd [THEN equalityD1, THEN subsetD, OF _ imageI])
  ultimately show ?thesis by blast
qed

lemma absent_step:
  assumes "i < nextInode d" "i \<notin> iID ` set (inodes d)"
  shows "i < nextInode (db_call c d) \<and> i \<notin> iID ` set (inodes (db_call c d))"
  using call_ids [of c d] assms by auto

lemma reaches_absent:
  "reaches allowed d d' \<Longrightarrow> i < nextInode d \<Longrightarrow> i \<notin> iID ` set (inodes d) \<Longrightarrow>
   i < nextInode d' \<and> i \<notin> iID ` set (inodes d')"
  by (induction rule: reaches_induct) (auto dest: absent_step)

section \<open>Pending edits along a run\<close>

definition marks_synced :: "dbcall \<Rightarrow> bool" where
  "marks_synced c \<longleftrightarrow> (case c of CMarkSynced _ _ \<Rightarrow> True | _ \<Rightarrow> False)"

definition enables_writeback :: "dbcall \<Rightarrow> bool" where
  "enables_writeback c \<longleftrightarrow> (case c of CSetWritebackDisabled _ \<Rightarrow> True | _ \<Rightarrow> False)"

definition edits_kept :: "db \<Rightarrow> db \<Rightarrow> bool" where
  "edits_kept d d' \<longleftrightarrow> (\<forall>i. dirty_kept i d d')"

lemma reaches_edits_kept:
  assumes "reaches allowed d d'" "db_ok d" "\<And>c. allowed c \<Longrightarrow> \<not> marks_synced c"
  shows "edits_kept d d'"
  using assms(1)
proof (induction rule: reaches_induct)
  case refl
  then show ?case using dirty_kept_refl [OF assms(2)] by (simp add: edits_kept_def)
next
  case (step c e)
  have ok: "db_ok e" by (rule reaches_db_ok [OF step(2) assms(2)])
  have ns: "c \<noteq> CMarkSynced i etag" for i etag using assms(3) [OF step(1)] by (auto simp: marks_synced_def)
  show ?case
    unfolding edits_kept_def dirty_kept_def
  proof (intro allI ballI impI)
    fix i r r'
    assume r: "r \<in> set (inodes d)" "iID r = i \<and> iDirty r" and r': "r' \<in> set (inodes (db_call c e))" "iID r' = i"
    show "iDirty r'"
    proof (cases "i \<in> iID ` set (inodes e)")
      case True
      then obtain y where y: "y \<in> set (inodes e)" "iID y = i" by auto
      then have "iDirty y" using step(3) r by (auto simp: edits_kept_def dirty_kept_def)
      then show ?thesis using dirty_kept_call [OF ok ns, of i] y r' by (auto simp: dirty_kept_def)
    next
      case False
      have "i < nextInode e"
      proof (rule ccontr)
        assume "\<not> i < nextInode e"
        moreover have "nextInode d \<le> nextInode e" using step(2)
        proof (induction rule: reaches_induct)
          case (step c e)
          then show ?case using call_ids [of c e] by linarith
        qed simp
        moreover have "i < nextInode d" using assms(2) r by (auto simp: db_ok_def)
        ultimately show False by simp
      qed
      then show ?thesis using absent_step [of i e c] False r' by auto
    qed
  qed
qed

lemma reaches_read_only:
  assumes "reaches allowed d d'" "writebackDisabled d" "\<And>c. allowed c \<Longrightarrow> \<not> enables_writeback c"
  shows "wID ` set (wbqueue d') \<subseteq> wID ` set (wbqueue d) \<and> writebackDisabled d'"
  using assms(1)
proof (induction rule: reaches_induct)
  case (step c e)
  have "c \<noteq> CSetWritebackDisabled v" for v using assms(3) [OF step(1)] by (auto simp: enables_writeback_def)
  then show ?case using read_only_step [of e c] step(3) by blast
qed (simp add: assms(2))

section \<open>Client contracts\<close>

text \<open>The calls of an editor: all but those that declare an edit uploaded or re-enable write-back.\<close>

definition edit_call :: "dbcall \<Rightarrow> bool" where
  "edit_call c \<longleftrightarrow> \<not> marks_synced c \<and> \<not> enables_writeback c"

locale db_client =
  fixes db_of :: "'s \<Rightarrow> db"
    and op :: "'c \<Rightarrow> 's \<Rightarrow> 's"
    and allowed :: "dbcall \<Rightarrow> bool"
  assumes op_reaches: "db_ok (db_of s) \<Longrightarrow> reaches allowed (db_of s) (db_of (op c s))"
begin

lemma run_reaches: "db_ok (db_of s) \<Longrightarrow> reaches allowed (db_of s) (db_of (fold op cs s))"
proof (induction cs arbitrary: s)
  case (Cons c cs)
  have step: "reaches allowed (db_of s) (db_of (op c s))" by (rule op_reaches [OF Cons.prems])
  then have "reaches allowed (db_of (op c s)) (db_of (fold op cs (op c s)))"
    using Cons.prems by (intro Cons.IH) (rule reaches_db_ok)
  with step show ?case using reaches_trans by (metis fold_Cons o_apply)
qed simp

lemma run_db_ok: "db_ok (db_of s) \<Longrightarrow> db_ok (db_of (fold op cs s))"
  using reaches_db_ok run_reaches by blast

end

text \<open>An editor produces local edits and never declares one uploaded.\<close>

locale db_editor = db_client +
  assumes allowed_edits: "allowed c \<Longrightarrow> \<not> marks_synced c \<and> \<not> enables_writeback c"
begin

lemma run_edits_kept: "db_ok (db_of s) \<Longrightarrow> edits_kept (db_of s) (db_of (fold op cs s))"
  using allowed_edits by (intro reaches_edits_kept [OF run_reaches]) auto

lemma run_read_only:
  "db_ok (db_of s) \<Longrightarrow> writebackDisabled (db_of s) \<Longrightarrow> wID ` set (wbqueue (db_of (fold op cs s))) \<subseteq> wID ` set (wbqueue (db_of s)) \<and>
     writebackDisabled (db_of (fold op cs s))"
  using allowed_edits by (intro reaches_read_only [OF run_reaches]) auto

end

end
