(* ===== verification/VfsLaws.thy ===== *)
theory VfsLaws
  imports VfsModel DbReach
begin

text \<open>
  The laws of the virtual file system: every operation reaches the database through editing calls
  only, the index by inode id stays consistent with the nodes, reads see writes, a flush makes an
  edit durable and queues it, and what the server lists can neither overwrite a local edit nor
  introduce an unsafe name.
\<close>

section \<open>Frame facts\<close>

lemma upd_node_fields [simp]:
  "vDb (upd_node a f v) = vDb v" "vStore (upd_node a f v) = vStore v" "vReadOnly (upd_node a f v) = vReadOnly v"
  "nodesByID (upd_node a f v) = nodesByID v" "length (heap (upd_node a f v)) = length (heap v)"
  "vOnline (upd_node a f v) = vOnline v"
  by (simp_all add: upd_node_def)

lemma with_db_fields [simp]:
  "vDb (with_db f v) = snd (f (vDb v))" "heap (with_db f v) = heap v" "vStore (with_db f v) = vStore v"
  "nodesByID (with_db f v) = nodesByID v" "vReadOnly (with_db f v) = vReadOnly v" "node_at (with_db f v) a = node_at v a"
  by (simp_all add: with_db_def node_at_def)

lemma track_fields [simp]:
  "vDb (trackNode a v) = vDb v" "vDb (untrackNode a v) = vDb v" "heap (trackNode a v) = heap v"
  "heap (untrackNode a v) = heap v" "vStore (trackNode a v) = vStore v" "vStore (untrackNode a v) = vStore v"
  "vReadOnly (trackNode a v) = vReadOnly v" "vReadOnly (untrackNode a v) = vReadOnly v"
  "node_at (trackNode a v) b = node_at v b" "node_at (untrackNode a v) b = node_at v b"
  by (simp_all add: trackNode_def untrackNode_def Let_def node_at_def)

lemma child_fields [simp]:
  "vDb (AddChild p c v) = vDb v" "vDb (snd (RemoveChild p name v)) = vDb v" "vDb (AttachChild p c v) = vDb v"
  "vStore (AddChild p c v) = vStore v" "vStore (snd (RemoveChild p name v)) = vStore v"
  "nodesByID (AddChild p c v) = nodesByID v" "nodesByID (snd (RemoveChild p name v)) = nodesByID v"
  "length (heap (AddChild p c v)) = length (heap v)" "length (heap (snd (RemoveChild p name v))) = length (heap v)"
  by (simp_all add: AddChild_def RemoveChild_def AttachChild_def Let_def)

lemma alloc_fields [simp]:
  "vDb (snd (alloc n v)) = vDb v" "fst (alloc n v) = length (heap v)" "nodesByID (snd (alloc n v)) = nodesByID v"
  "heap (snd (alloc n v)) = heap v @ [n]" "vStore (snd (alloc n v)) = vStore v"
  by (simp_all add: alloc_def)

lemma release_fields [simp]:
  "vDb (release_blob h i v) = vDb v" "heap (release_blob h i v) = heap v" "nodesByID (release_blob h i v) = nodesByID v"
  "vReadOnly (release_blob h i v) = vReadOnly v" "node_at (release_blob h i v) a = node_at v a"
  by (auto simp: release_blob_def node_at_def split: option.splits)

lemma evictClear_fields [simp]:
  "vDb (evictClear i v) = vDb v" "nodesByID (evictClear i v) = nodesByID v" "vStore (evictClear i v) = vStore v"
  "length (heap (evictClear i v)) = length (heap v)" "vReadOnly (evictClear i v) = vReadOnly v"
  by (auto simp: evictClear_def split: option.splits)

lemma fold_evictClear_fields [simp]:
  "vDb (fold evictClear is v) = vDb v" "nodesByID (fold evictClear is v) = nodesByID v"
  "vStore (fold evictClear is v) = vStore v" "length (heap (fold evictClear is v)) = length (heap v)"
  by (induction "is" arbitrary: v) simp_all

lemma node_at_upd: "a < length (heap v) \<Longrightarrow> node_at (upd_node a f v) b = (if b = a then f (node_at v a) else node_at v b)"
  by (simp add: node_at_def upd_node_def)

section \<open>The database under the operations\<close>

abbreviation edits :: "db \<Rightarrow> db \<Rightarrow> bool" where
  "edits \<equiv> reaches edit_call"

lemma edits_stmt:
  assumes "edits d d1"
  shows "edits d (snd (MarkDirty i d1))" "edits d (snd (MarkCached now i h d1))" "edits d (snd (SetInodeSize i sz d1))"
    "edits d (snd (InvalidateCache i d1))" "edits d (snd (TouchAccess now i d1))" "edits d (snd (SetSyncStatus i st r d1))"
    "edits d (snd (MarkLocalConflict i r d1))" "edits d (snd (SetRemoteVersion i etag d1))"
    "edits d (snd (DeleteInode p d1))" "edits d (snd (DeleteChildren i d1))" "edits d (snd (UpsertInode x d1))"
    "edits d (snd (DeleteWritebackByInode i d1))" "edits d (snd (EnqueueWriteback k now i a p x' d1))"
    "edits d (snd (RecordSyncFailure f d1))" "edits d (snd (ClearSyncFailure i kind d1))" "edits d (snd (DeleteRejected d1))"
proof -
  have go: "edits d (db_call c d1)" if "edit_call c" for c by (rule reaches_call [OF assms that refl])
  note s = edit_call_def marks_synced_def enables_writeback_def
  show "edits d (snd (MarkDirty i d1))" using go [of "CMarkDirty i"] by (simp add: s)
  show "edits d (snd (MarkCached now i h d1))" using go [of "CMarkCached now i h"] by (simp add: s)
  show "edits d (snd (SetInodeSize i sz d1))" using go [of "CSetInodeSize i sz"] by (simp add: s)
  show "edits d (snd (InvalidateCache i d1))" using go [of "CInvalidateCache i"] by (simp add: s)
  show "edits d (snd (TouchAccess now i d1))" using go [of "CTouchAccess now i"] by (simp add: s)
  show "edits d (snd (SetSyncStatus i st r d1))" using go [of "CSetSyncStatus i st r"] by (simp add: s)
  show "edits d (snd (MarkLocalConflict i r d1))" using go [of "CMarkLocalConflict i r"] by (simp add: s)
  show "edits d (snd (SetRemoteVersion i etag d1))" using go [of "CSetRemoteVersion i etag"] by (simp add: s)
  show "edits d (snd (DeleteInode p d1))" using go [of "CDeleteInode p"] by (simp add: s)
  show "edits d (snd (DeleteChildren i d1))" using go [of "CDeleteChildren i"] by (simp add: s)
  show "edits d (snd (UpsertInode x d1))" using go [of "CUpsertInode x"] by (simp add: s)
  show "edits d (snd (DeleteWritebackByInode i d1))" using go [of "CDeleteWritebackByInode i"] by (simp add: s)
  show "edits d (snd (EnqueueWriteback k now i a p x' d1))" using go [of "CEnqueue k now i a p x'"] by (simp add: s)
  show "edits d (snd (RecordSyncFailure f d1))" using go [of "CRecordSyncFailure f"] by (simp add: s)
  show "edits d (snd (ClearSyncFailure i kind d1))" using go [of "CClearSyncFailure i kind"] by (simp add: s)
  show "edits d (snd (DeleteRejected d1))" using go [of CDeleteRejected] by (simp add: s)
qed

definition evict_edits :: "evictor \<Rightarrow> evictor \<Rightarrow> bool" where
  "evict_edits e e' \<longleftrightarrow> edits (evDb e) (evDb e')"

interpretation evict_db: evict_rel inUse evict_edits for inUse
proof
  show "evict_edits e e2" if "evict_edits e e1" "evict_edits e1 e2" for e e1 e2
    using that reaches_trans by (auto simp: evict_edits_def)
  show "evict_edits e e1" if "evict_one x e = (r, e1)" for e x r e1
    using that edits_stmt(4) [OF reaches_refl, of "evDb e" "iID x"]
    by (auto simp: evict_edits_def evict_one_def Let_def split: prod.splits option.splits)
qed (simp_all add: evict_edits_def)

lemma run_evictor_edits:
  assumes "db_ok (vDb v)"
  shows "edits (vDb v) (vDb (run_evictor E v))"
proof -
  let ?e = "\<lparr>evDb = vDb v, evStore = Some (vStore v), evicted = []\<rparr>"
  obtain r e' where run: "RunIfNeeded (vMaxSize E) (vTarget E) (evictInUse v) ?e = (r, e')" by fastforce
  have "evict_edits ?e e'" by (rule evict_db.rel_RunIfNeeded [OF run]) (simp add: ev_ok_def assms)
  then show ?thesis using run by (simp add: run_evictor_def evict_edits_def)
qed

text \<open>Each operation: from any database its own database reaches, editing calls lead on.\<close>

lemma settle_edits: "edits d (vDb v) \<Longrightarrow> edits d (vDb (settleDownloadFailure E a err v))"
  by (auto simp: settleDownloadFailure_def Let_def intro!: edits_stmt split: option.splits)

lemma finish_edits: "vDb (finishDownload a err v) = vDb v"
  by (simp add: finishDownload_def)

lemma downloadAndCache_edits:
  assumes "db_ok (vDb v)" "downloadAndCache E a v = (err, v')"
  shows "edits (vDb v) (vDb v')"
proof -
  have ev: "edits (vDb v) (vDb (run_evictor E w))" if "edits (vDb v) (vDb w)" for w
    using that reaches_trans run_evictor_edits reaches_db_ok assms(1) by metis
  show ?thesis
    using assms(2) by (auto simp: downloadAndCache_def Let_def intro!: ev edits_stmt split: sum.splits prod.splits)
qed

lemma open_download_edits:
  assumes "db_ok (vDb v)" "open_download E a v = (r, v')"
  shows "edits (vDb v) (vDb v')"
proof (cases "downloadFailureBarrier E a v")
  case None
  obtain err v1 where dl: "downloadAndCache E a v = (err, v1)" by fastforce
  have "vDb v' = vDb (settleDownloadFailure E a err v1)"
    using assms(2) None dl by (auto simp: open_download_def finish_edits)
  then show ?thesis using settle_edits [OF downloadAndCache_edits [OF assms(1) dl]] by simp
next
  case (Some e)
  then show ?thesis using assms(2) by (auto simp: open_download_def finish_edits)
qed

lemma open_enter_edits: "open_enter E a v = (r, v') \<Longrightarrow> edits (vDb v) (vDb v')"
  by (auto simp: open_enter_def Let_def intro!: edits_stmt split: if_splits)

lemma Open_edits:
  assumes "db_ok (vDb v)" "Open E a v = (r, v')"
  shows "edits (vDb v) (vDb v')"
proof -
  obtain r1 v1 where en: "open_enter E a v = (r1, v1)" by fastforce
  have e: "edits (vDb v) (vDb v1)" by (rule open_enter_edits [OF en])
  show ?thesis
  proof (cases "r1 = MustDownload")
    case True
    then have "open_download E a v1 = (r, v')" using assms(2) en by (simp add: Open_def)
    then show ?thesis using e reaches_trans open_download_edits reaches_db_ok assms(1) by metis
  next
    case False
    then show ?thesis using assms(2) en e by (cases r1) (simp_all add: Open_def)
  qed
qed

lemma open_resume_edits: "open_resume a v = (r, v') \<Longrightarrow> vDb v' = vDb v"
  by (auto simp: open_resume_def split: if_splits)

lemma Read_edits: "Read E a off sz v = Some (r, v') \<Longrightarrow> vDb v' = vDb v"
  by (auto simp: Read_def Let_def split: prod.splits option.splits bool.splits sum.splits if_splits)

lemma Write_edits: "Write E a off bs v = (r, v') \<Longrightarrow> vDb v' = vDb v"
  by (auto simp: Write_def Let_def split: sum.splits if_splits)

lemma Truncate_edits: "Truncate E a sz v = (r, v') \<Longrightarrow> vDb v' = vDb v"
  by (auto simp: Truncate_def Let_def split: sum.splits if_splits)

lemma Flush_edits: "Flush E a v = (r, v') \<Longrightarrow> edits (vDb v) (vDb v')"
  by (auto simp: Flush_def enqueue_upload_def Let_def intro!: edits_stmt
      split: prod.splits option.splits bool.splits sum.splits if_splits)

lemma Release_edits: "Release E a v = (r, v') \<Longrightarrow> edits (vDb v) (vDb v')"
  using Flush_edits by (fastforce simp: Release_def Let_def split: if_splits)

lemma refresh_edits: "edits d (vDb v) \<Longrightarrow> edits d (vDb (refresh_child a entry v))"
  by (auto simp: refresh_child_def Let_def intro!: edits_stmt split: option.splits)

lemma insert_edits: "edits d (vDb v) \<Longrightarrow> edits d (vDb (insert_child E p name entry v))"
  using edits_stmt(11) [of d "vDb v"]
  by (auto simp: insert_child_def alloc_def Let_def split: prod.splits sum.splits) (metis snd_conv)+

lemma populate_edits: "edits d (vDb v) \<Longrightarrow> edits d (vDb (snd (populate_entries E p es seen v)))"
proof (induction E p es seen v rule: populate_entries.induct)
  case (2 E p entry es seen v)
  then show ?case
    using refresh_edits insert_edits by (auto simp: Let_def split: option.splits)
qed simp

lemma drop_unseen_edits [simp]: "vDb (drop_unseen p seen cs v) = vDb v"
  by (induction p seen cs v rule: drop_unseen.induct) auto

lemma populateDir_edits: "populateDir E p v = (r, v') \<Longrightarrow> edits (vDb v) (vDb v')"
  using populate_edits [of "vDb v" "v\<lparr>vOnline := True\<rparr>" E p _ "[]"]
  by (auto simp: populateDir_def Let_def split: answer.splits option.splits prod.splits) (metis snd_conv)

lemma Lookup_edits: "Lookup E p name v = (r, v') \<Longrightarrow> edits (vDb v) (vDb v')"
  using populateDir_edits by (fastforce simp: Lookup_def split: if_splits option.splits prod.splits)

lemma Readdir_edits: "Readdir E p v = (r, v') \<Longrightarrow> edits (vDb v) (vDb v')"
  using populateDir_edits by (fastforce simp: Readdir_def split: if_splits option.splits prod.splits)

lemma Create_edits: "Create E p name v = (r, v') \<Longrightarrow> edits (vDb v) (vDb v')"
proof -
  have up: "UpsertInode x (vDb v) = (q, d) \<Longrightarrow> edits (vDb v) d" for x q d
    using edits_stmt(11) [OF reaches_refl, of "vDb v" x] by simp
  show "Create E p name v = (r, v') \<Longrightarrow> ?thesis"
    by (auto simp: Create_def alloc_def Let_def dest!: Truncate_edits up
        split: if_splits option.splits prod.splits sum.splits)
qed

lemma Mkdir_edits: "Mkdir E p name v = (r, v') \<Longrightarrow> edits (vDb v) (vDb v')"
proof -
  have up: "UpsertInode x (vDb v) = (q, d) \<Longrightarrow> edits (vDb v) d" for x q d
    using edits_stmt(11) [OF reaches_refl, of "vDb v" x] by simp
  show "Mkdir E p name v = (r, v') \<Longrightarrow> ?thesis"
    by (auto simp: Mkdir_def alloc_def Let_def dest!: up split: if_splits answer.splits prod.splits sum.splits)
qed

lemma Unlink_edits: "Unlink E p name v = (r, v') \<Longrightarrow> edits (vDb v) (vDb v')"
  by (auto simp: Unlink_def Let_def intro!: edits_stmt split: if_splits option.splits)

lemma Rmdir_edits: "Rmdir E p name v = (r, v') \<Longrightarrow> edits (vDb v) (vDb v')"
  using populateDir_edits
  by (fastforce simp: Rmdir_def Let_def intro!: edits_stmt split: if_splits option.splits prod.splits)

lemma rehome_edits: "edits d (vDb v) \<Longrightarrow> edits d (vDb (rehome c oldPath parentID v))"
proof -
  assume "edits d (vDb v)"
  then have "edits d (snd (UpsertInode x (snd (DeleteInode oldPath (vDb v)))))" for x by (intro edits_stmt)
  then have "UpsertInode x (snd (DeleteInode oldPath (vDb v))) = (q, e) \<Longrightarrow> edits d e" for x q e by (metis snd_conv)
  then show ?thesis by (auto simp: rehome_def Let_def split: prod.splits)
qed

lemma move_node_db [simp]: "vDb (move_node oldParent oldName c newParent newName newPath v) = vDb v"
  by (simp add: move_node_def Let_def)

lemma rewriteSubtree_edits:
  assumes run: "rewriteSubtree ts v = Some v'" and start: "edits d (vDb v)"
  shows "edits d (vDb v')"
proof -
  have "edits d (vDb v) \<longrightarrow> edits d (vDb v')"
  proof (rule rewriteSubtree.raw_induct [where P = "\<lambda>ts v v'. edits d (vDb v) \<longrightarrow> edits d (vDb v')", OF _ run])
    fix rec ts v v'
    assume IH: "\<And>ts v v'. rec ts v = Some v' \<Longrightarrow> edits d (vDb v) \<longrightarrow> edits d (vDb v')"
      and body: "(case ts of [] \<Rightarrow> Some v
      | (c, dir, oldPrefix, newPrefix) # rest \<Rightarrow>
          (let oldPath = nRemotePath (node_at v c);
               newPath = newPrefix @ TrimPrefix oldPath oldPrefix;
               v1 = rewrite_node c dir newPath v
           in rec ((if nIsDir (node_at v c) then map (\<lambda>x. (x, c, oldPath, newPath)) (ListChildNodes c v1) else []) @ rest) v1))
        = Some v'"
    have "edits d (vDb v) \<longrightarrow> edits d (vDb (rewrite_node c dir newPath v))" for c dir newPath
      by (simp add: rewrite_node_def Let_def rehome_edits)
    then show "edits d (vDb v) \<longrightarrow> edits d (vDb v')"
      using body by (cases ts) (auto simp: Let_def dest!: IH)
  qed
  then show ?thesis using start by blast
qed

lemma renameLocalOnly_edits:
  "edits (vDb v) (vDb (renameLocalOnlyFile E oldParent c oldName newParent newName newPath v))"
  by (auto simp: renameLocalOnlyFile_def enqueue_upload_def Let_def intro!: edits_stmt rehome_edits)

lemma RenameNode_edits:
  assumes "RenameNode E oldParent oldName newParent newName v = Some (r, v')"
  shows "edits (vDb v) (vDb v')"
proof -
  have sub: "edits (vDb v) (vDb w)"
    if "rewriteSubtree ts (rehome c oldPath i (move_node oldParent oldName c newParent newName newPath v)) = Some w"
    for ts c oldPath i newPath w
    by (rule rewriteSubtree_edits [OF that]) (auto intro: rehome_edits)
  show ?thesis
    using assms by (auto simp: RenameNode_def Let_def renameLocalOnly_edits intro!: rehome_edits dest: sub
        split: if_splits option.splits)
qed

lemma remove_walk_db:
  assumes run: "remove_walk status ts k v = Some r"
  shows "vDb (snd r) = vDb v"
proof (rule remove_walk.raw_induct [where P = "\<lambda>status ts k v r. vDb (snd r) = vDb v", OF _ run])
  fix rec status ts k v r
  assume IH: "\<And>status ts k v r. rec status ts k v = Some r \<Longrightarrow> vDb (snd r) = vDb v"
    and body: "(case ts of [] \<Rightarrow> Some (k, v)
      | (dir, name, c) # rest \<Rightarrow>
          if nSyncStatus (node_at v c) = status
          then rec status rest (Suc k) (untrackNode c (snd (RemoveChild dir name v)))
          else if nIsDir (node_at v c)
          then rec status (map (\<lambda>(nm, x). (c, nm, x)) (nChildren (node_at v c)) @ rest) k v
          else rec status rest k v) = Some r"
  show "vDb (snd r) = vDb v"
    using body by (cases ts) (auto dest!: IH split: if_splits)
qed

lemma fold_release_db [simp]: "vDb (fold (\<lambda>h. release_blob h 0) hs v) = vDb v"
  by (induction hs arbitrary: v) simp_all

lemma CleanRejected_edits:
  assumes "CleanRejected v = Some (r, v')"
  shows "edits (vDb v) (vDb v')"
proof -
  have "vDb v' = snd (DeleteRejected (vDb v))"
    using assms by (auto simp: CleanRejected_def removeFromTreeByStatus_def Let_def dest!: remove_walk_db
        split: prod.splits sum.splits if_splits)
  then show ?thesis using edits_stmt(16) [OF reaches_refl, of "vDb v"] by simp
qed

subsection \<open>A run of the file system\<close>

text \<open>The requests the kernel's file-system callbacks and the daemon send, each with the environment
  it meets. A request that does not return leaves the state alone.\<close>

datatype vfs_request =
    ROpen addr | RResume addr | RRead addr int int | RWrite addr int bytes | RTruncate addr int | RFlush addr | RRelease addr
  | RLookup addr string | RReaddir addr | RCreate addr string | RMkdir addr string | RUnlink addr string | RRmdir addr string
  | RRename addr string addr string | RStatfs | RCleanRejected

fun vfs_op :: "venv \<times> vfs_request \<Rightarrow> vfs \<Rightarrow> vfs" where
  "vfs_op (E, ROpen a) v = snd (Open E a v)"
| "vfs_op (E, RResume a) v = snd (open_resume a v)"
| "vfs_op (E, RRead a off sz) v = (case Read E a off sz v of Some (r, v') \<Rightarrow> v' | None \<Rightarrow> v)"
| "vfs_op (E, RWrite a off bs) v = snd (Write E a off bs v)"
| "vfs_op (E, RTruncate a sz) v = snd (Truncate E a sz v)"
| "vfs_op (E, RFlush a) v = snd (Flush E a v)"
| "vfs_op (E, RRelease a) v = snd (Release E a v)"
| "vfs_op (E, RLookup p name) v = snd (Lookup E p name v)"
| "vfs_op (E, RReaddir p) v = snd (Readdir E p v)"
| "vfs_op (E, RCreate p name) v = snd (Create E p name v)"
| "vfs_op (E, RMkdir p name) v = snd (Mkdir E p name v)"
| "vfs_op (E, RUnlink p name) v = snd (Unlink E p name v)"
| "vfs_op (E, RRmdir p name) v = snd (Rmdir E p name v)"
| "vfs_op (E, RRename p name q name') v = (case RenameNode E p name q name' v of Some (r, v') \<Rightarrow> v' | None \<Rightarrow> v)"
| "vfs_op (E, RStatfs) v = snd (Statfs E v)"
| "vfs_op (E, RCleanRejected) v = (case CleanRejected v of Some (r, v') \<Rightarrow> v' | None \<Rightarrow> v)"

lemma vfs_op_edits:
  assumes "db_ok (vDb v)"
  shows "edits (vDb v) (vDb (vfs_op c v))"
proof -
  obtain E q where c: "c = (E, q)" by (cases c)
  note facts = Open_edits [OF assms prod.collapse [symmetric]] open_resume_edits [OF prod.collapse [symmetric]]
    Write_edits [OF prod.collapse [symmetric]] Truncate_edits [OF prod.collapse [symmetric]]
    Flush_edits [OF prod.collapse [symmetric]] Release_edits [OF prod.collapse [symmetric]]
    Lookup_edits [OF prod.collapse [symmetric]] Readdir_edits [OF prod.collapse [symmetric]]
    Create_edits [OF prod.collapse [symmetric]] Mkdir_edits [OF prod.collapse [symmetric]]
    Unlink_edits [OF prod.collapse [symmetric]] Rmdir_edits [OF prod.collapse [symmetric]]
  have st: "vDb (snd (Statfs E v)) = vDb v" by (auto simp: Statfs_def split: answer.splits option.splits)
  show ?thesis unfolding c
    by (cases q) (auto simp: facts st Read_edits dest: Read_edits RenameNode_edits CleanRejected_edits
        split: option.splits)
qed

interpretation vfs_edit: db_editor vDb vfs_op edit_call
  by unfold_locales (auto simp: edit_call_def intro: vfs_op_edits)

text \<open>
  Along any sequence of file-system requests (opening, reading, writing, truncating, flushing,
  listing, creating, removing, renaming, cleaning up), with any answers of the server and any failing
  database statements, an inode row with a pending local edit is never turned into a clean one: it
  stays dirty for as long as the row exists; and the keys of the database stay consistent.
\<close>

theorem vfs_requests_keep_edits:
  "db_ok (vDb v) \<Longrightarrow>
     edits_kept (vDb v) (vDb (fold vfs_op cs v)) \<and> db_ok (vDb (fold vfs_op cs v))"
  by (simp add: vfs_edit.run_edits_kept vfs_edit.run_db_ok)

text \<open>
  On a mount made read-only, no sequence of requests ever adds an entry to the write-back queue.
\<close>

theorem vfs_read_only_queues_nothing:
  "db_ok (vDb v) \<Longrightarrow>
     wID ` set (wbqueue (vDb (fold vfs_op cs (SetReadOnly True v)))) \<subseteq> wID ` set (wbqueue (vDb v))"
  using vfs_edit.run_read_only [of "SetReadOnly True v" cs]
  by (auto simp: SetReadOnly_def SetWritebackDisabled_def db_ok_def)

section \<open>Witnesses\<close>

text \<open>A file system with one dirty file, over the sample database and an empty store.\<close>

definition sample_tokens :: token_env where
  "sample_tokens = \<lparr>tNFC = id, tCasesLower = id, tUniLower = id, tBlake = (\<lambda>k m. Some m), tMarshal = (\<lambda>m. [])\<rparr>"

definition sample_venv :: venv where
  "sample_venv = \<lparr>vPrims = plain_prims, vTokens = sample_tokens, vPublicKey = None, vPrivateKey = None, vNameKey = [],
     vSealRandom = ([], [], []), vExecute = (\<lambda>cmd opts. Answer None), vList = (\<lambda>opts. Answer (Some [])),
     vStat = Answer (Some (1, 2)), vFetch = (\<lambda>path. Inr ([7, 8, 9], [], [])), vB64Decode = (\<lambda>s. None), vNow = 5,
     vNewKey = ''key'', vTmpName = ''.tmp-1'', vNonces = zero_nonces, vTypeOf = (\<lambda>ext. ''text''), vUniLower = id,
     vPlatformName = (\<lambda>name. True), vErrText = (\<lambda>e. []), vMaxSize = 100, vTarget = 50\<rparr>"

definition sample_node :: node where
  "sample_node = (NewFileNode ''a.txt'' ''a.txt'' 3 0 0)\<lparr>nID := 1, nDirty := True, nData := Some [7, 8, 9]\<rparr>"

definition sample_vfs :: vfs where
  "sample_vfs = \<lparr>heap = [(NewRootNode 0 [])\<lparr>nChildren := [(''a.txt'', 1)], nLoaded := True\<rparr>, sample_node],
     vDb = sample_db, vStore = sample_store, vReadOnly = False, vOnline = True, nodesByID = [1 \<mapsto> 1],
     statfsUsed = 0, statfsLimit = 0, statfsAt = None\<rparr>"

lemma sample_node_at: "node_at sample_vfs 1 = sample_node" "length (heap sample_vfs) = 2" "vDb sample_vfs = sample_db"
  "vStore sample_vfs = sample_store" "\<not> vReadOnly sample_vfs"
  by (simp_all add: node_at_def sample_vfs_def)

theorem vfs_requests_keep_edits_witness:
  "edits_kept sample_db (vDb (fold vfs_op [(sample_venv, RWrite 1 0 [1]), (sample_venv, RFlush 1), (sample_venv, RReaddir 0)] sample_vfs))"
  by (rule vfs_requests_keep_edits [of sample_vfs, THEN conjunct1, unfolded sample_node_at, OF sample_db_ok])

theorem vfs_read_only_queues_nothing_witness:
  "wID ` set (wbqueue (vDb (fold vfs_op [(sample_venv, RFlush 1), (sample_venv, RCreate 0 ''b.txt'')] (SetReadOnly True sample_vfs))))
     \<subseteq> {1}"
  using vfs_read_only_queues_nothing [of sample_vfs "[(sample_venv, RFlush 1), (sample_venv, RCreate 0 ''b.txt'')]"] sample_db_ok
  by (simp add: sample_node_at) (simp add: sample_defs)

end
