(* ===== verification/VfsContent.thy ===== *)
theory VfsContent
  imports VfsLaws BlobLaws
begin

text \<open>
  File content through the virtual file system: a read after a write or a truncation sees the file
  as POSIX describes it, and a flush leaves the content in the blob store, referenced by a dirty and
  cached row, with exactly one upload queued.
\<close>

section \<open>Reference semantics of a write\<close>

definition posix_write :: "nat \<Rightarrow> bytes \<Rightarrow> bytes \<Rightarrow> bytes" where
  "posix_write off bs data =
     map (\<lambda>i. if off \<le> i \<and> i < off + length bs then bs ! (i - off) else if i < length data then data ! i else 0)
       [0..<max (length data) (off + length bs)]"

definition posix_truncate :: "nat \<Rightarrow> bytes \<Rightarrow> bytes" where
  "posix_truncate n data = map (\<lambda>i. if i < length data then data ! i else 0) [0..<n]"

definition slice :: "int \<Rightarrow> int \<Rightarrow> bytes \<Rightarrow> bytes" where
  "slice off sz data = take (nat sz) (drop (nat off) data)"

lemma length_zero_extend [simp]: "length (zero_extend n data) = max n (length data)"
  by (simp add: zero_extend_def)

lemma nth_zero_extend: "i < max n (length data) \<Longrightarrow> zero_extend n data ! i = (if i < length data then data ! i else 0)"
  by (simp add: zero_extend_def nth_append)

lemma length_overwrite [simp]: "off + length bs \<le> length data \<Longrightarrow> length (overwrite off bs data) = length data"
  by (simp add: overwrite_def)

lemma nth_overwrite:
  assumes "off + length bs \<le> length data" "i < length data"
  shows "overwrite off bs data ! i = (if off \<le> i \<and> i < off + length bs then bs ! (i - off) else data ! i)"
proof -
  have "overwrite off bs data ! i = (take off data @ bs @ drop (off + length bs) data) ! i"
    using assms by (simp add: overwrite_def)
  also have "\<dots> = (if off \<le> i \<and> i < off + length bs then bs ! (i - off) else data ! i)"
    using assms by (cases "i < off"; cases "i < off + length bs") (auto simp: nth_append min_def)
  finally show ?thesis .
qed

lemma overwrite_posix: "overwrite off bs (zero_extend (off + length bs) data) = posix_write off bs data"
proof (rule nth_equalityI)
  show "length (overwrite off bs (zero_extend (off + length bs) data)) = length (posix_write off bs data)"
    by (simp add: posix_write_def max.commute)
  fix i
  assume "i < length (overwrite off bs (zero_extend (off + length bs) data))"
  then have i: "i < max (off + length bs) (length data)" by simp
  then show "overwrite off bs (zero_extend (off + length bs) data) ! i = posix_write off bs data ! i"
    by (simp add: nth_overwrite nth_zero_extend posix_write_def max.commute)
qed

lemma truncate_posix:
  "posix_truncate n data = (if n < length data then take n data else zero_extend n data)"
  by (rule nth_equalityI) (auto simp: posix_truncate_def nth_zero_extend)

lemma zero_extend_id: "n \<le> length data \<Longrightarrow> zero_extend n data = data"
  by (simp add: zero_extend_def)

section \<open>Reads see writes\<close>

text \<open>What a node holds for reads once it has a dirty buffer.\<close>

lemma Read_dirty:
  assumes "nDirty (node_at v a)" "nData (node_at v a) = Some data" "0 \<le> off" "0 \<le> sz" "off + sz < 2 ^ 63"
  shows "Read E a off sz v = Some (Inr (slice off sz data), v)"
proof -
  have e: "int64 (off + sz) = off + sz" using assms by (simp add: int64_nonneg)
  show ?thesis
  proof (cases "off \<ge> int (length data)")
    case True
    then have "length data \<le> nat off" by simp
    with True show ?thesis using assms by (simp add: Read_def e slice_def)
  next
    case False
    then show ?thesis
      using assms by (auto simp: Read_def e slice_def Let_def min_def nat_diff_distrib nat_add_distrib)
  qed
qed

lemma Write_buffer:
  assumes "\<not> vReadOnly v" "load_buffer E (node_at v a) v = Inr data" "0 \<le> off" "off + int (length bs) < 2 ^ 63"
  shows "Write E a off bs v = (Inr (length bs),
     upd_node a (\<lambda>n. n\<lparr>nData := Some (posix_write (nat off) bs data), nSize := int (length (posix_write (nat off) bs data)),
       nMtime := vNow E, nDirty := True, nWriteGen := nWriteGen n + 1, nSyncStatus := StatusPending\<rparr>) v)"
proof -
  let ?fin = "nat off + length bs"
  have e: "int64 (off + int (length bs)) = off + int (length bs)" "nat (off + int (length bs)) = ?fin"
    using assms by (simp_all add: int64_nonneg nat_add_distrib)
  have len: "length (posix_write (nat off) bs data) = max (length data) ?fin" by (simp add: posix_write_def)
  show ?thesis
  proof (cases "int (length data) < off + int (length bs)")
    case True
    then show ?thesis using assms by (simp add: Write_def e Let_def overwrite_posix len)
  next
    case False
    then have "overwrite (nat off) bs data = posix_write (nat off) bs data"
      using overwrite_posix [of "nat off" bs data] assms(3) by (simp add: zero_extend_id)
    with False show ?thesis using assms by (simp add: Write_def e Let_def len)
  qed
qed

lemma Truncate_buffer:
  assumes "\<not> vReadOnly v" "load_buffer E (node_at v a) v = Inr data" "0 \<le> sz"
  shows "Truncate E a sz v = (None,
     upd_node a (\<lambda>n. n\<lparr>nData := Some (posix_truncate (nat sz) data), nSize := sz, nMtime := vNow E, nDirty := True,
       nWriteGen := nWriteGen n + 1, nSyncStatus := StatusPending\<rparr>) v)"
proof -
  have "(if sz < int (length data) then take (nat sz) data
         else if sz > int (length data) then zero_extend (nat sz) data else data) = posix_truncate (nat sz) data"
    using assms(3) by (auto simp: truncate_posix zero_extend_id)
  then show ?thesis using assms by (simp add: Truncate_def Let_def)
qed


section \<open>A flush is durable\<close>

lemma stored_Put:
  assumes "Put P now tmpName nonces data s = (Inr h, s')" "sha_ok P"
  shows "h \<in> stored s' \<and> ioFails s' = ioFails s \<and> h = hash_of P data"
  using Put_cases [OF assms(1)] is_hash_of [OF assms(2)] by (auto simp: stored_def)

lemma stored_release:
  assumes "h \<in> stored (vStore v)" "h \<noteq> old"
  shows "h \<in> stored (vStore (release_blob old i v))"
  using assms ReleaseBlob_stored [of old i "vDb v" "vStore v"]
  by (auto simp: release_blob_def split: option.splits)

lemma store_ok_release: "store_ok P c (vStore v) \<Longrightarrow> store_ok P c (vStore (release_blob old i v))"
  by (auto simp: release_blob_def ReleaseBlob_def intro: RemoveBlob_ok split: option.splits sum.splits if_splits)

lemma ioFails_release [simp]: "ioFails (vStore (release_blob old i v)) = ioFails (vStore v)"
  by (auto simp: release_blob_def ReleaseBlob_def split: option.splits sum.splits if_splits)

lemma Get_stored:
  assumes "aead_ok P" "store_ok P c s" "h \<in> stored s" "\<not> ioFails s IoOpen"
  shows "Get P h s = Inr (c h)"
  using Get_content [OF assms(1,2), of h] assms(3,4) by (auto simp: stored_def open_blob_def)

text \<open>The row after a flush's two statements.\<close>

lemma flushed_row:
  assumes "\<not> sqlFails d OpMarkCached" "\<not> sqlFails d OpMarkDirty" "r \<in> set (inodes d)" "iID r = i"
  shows "\<exists>x \<in> set (inodes (snd (MarkDirty i (snd (MarkCached now i h d))))).
     iID x = i \<and> iRemotePath x = iRemotePath r \<and> iDirty x \<and> iCached x \<and> iContentHash x = h \<and> iSyncStatus x = StatusPending"
proof -
  let ?row = "r\<lparr>iCached := True, iContentHash := h, iLastAccess := now, iDirty := True, iSyncStatus := StatusPending\<rparr>"
  have "?row \<in> set (inodes (snd (MarkDirty i (snd (MarkCached now i h d)))))"
    using assms by (simp add: MarkDirty_def MarkCached_def exec_def upd_inodes_def sql_update_def image_image)
  then show ?thesis by (rule bexI [rotated]) (simp add: assms(4))
qed

lemma enqueued_once:
  assumes "\<not> writebackDisabled d" "\<not> sqlFails d OpEnqueueDelete" "\<not> sqlFails d OpEnqueueInsert"
  shows "inodes (snd (EnqueueWriteback k now i Upload path x d)) = inodes d"
    "filter (\<lambda>e. wInodeID e = i \<and> wAction e = Upload \<and> wStatus e = WbPending) (wbqueue (snd (EnqueueWriteback k now i Upload path x d))) =
       [\<lparr>wID = nextWb d, wInodeID = i, wAction = Upload, wRemotePath = path,
         wExtraJSON = (if UploadKeyFromExtra x = [] then MarshalUploadExtra k else x), wEnqueuedAt = now, wAttempts = 0,
         wLastError = [], wStatus = WbPending\<rparr>]"
  using assms by (auto simp: EnqueueWriteback_def Let_def sql_delete_def filter_empty_conv)

lemma MarkCached_frame [simp]:
  "sqlFails (snd (MarkCached now i h d)) = sqlFails d" "writebackDisabled (snd (MarkCached now i h d)) = writebackDisabled d"
  "sqlFails (snd (MarkDirty i d)) = sqlFails d" "writebackDisabled (snd (MarkDirty i d)) = writebackDisabled d"
  by (simp_all add: MarkCached_def MarkDirty_def exec_def upd_inodes_def)

text \<open>
  A flush makes an edit durable. When a dirty buffer of a valid name and size is flushed, the blob
  store accepts it and the database statements succeed, then the content can be read back from the
  store by its hash, the node and its row carry that hash and are marked cached and dirty, the
  superseded blob's release cannot take the new blob with it, and exactly one upload of the inode is
  pending, for the file's path.
\<close>

theorem Flush_durable:
  assumes n: "a < length (heap v)" "node_at v a = n" "nDirty n" "nData n = Some data"
    and valid: "fst (ValidateFile (vUniLower E) (vTypeOf E) (nName n) (nSize n))"
    and store: "aead_ok (vPrims E)" "sha_ok (vPrims E)" "store_ok (vPrims E) c (vStore v)" "nonces_ok (vNonces E)"
      "fresh_temp (vTmpName E) (hash_of (vPrims E) data) (vStore v)" "c (hash_of (vPrims E) data) = data"
      "\<not> ioFails (vStore v) IoOpen"
    and put: "Put (vPrims E) (vNow E) (vTmpName E) (vNonces E) data (vStore v) = (Inr h, s)"
    and db: "\<not> writebackDisabled (vDb v)"
      "\<forall>x \<in> {OpMarkCached, OpMarkDirty, OpEnqueueDelete, OpEnqueueInsert}. \<not> sqlFails (vDb v) x"
      "r \<in> set (inodes (vDb v))" "iID r = nID n"
  shows "\<exists>v'. Flush E a v = (None, v') \<and> Get (vPrims E) h (vStore v') = Inr data \<and>
     node_at v' a = n\<lparr>nContentHash := h, nCached := True\<rparr> \<and>
     (\<exists>x \<in> set (inodes (vDb v')). iID x = nID n \<and> iRemotePath x = iRemotePath r \<and> iDirty x \<and> iCached x \<and>
        iContentHash x = h \<and> iSyncStatus x = StatusPending) \<and>
     (\<exists>e. filter (\<lambda>e. wInodeID e = nID n \<and> wAction e = Upload \<and> wStatus e = WbPending) (wbqueue (vDb v')) = [e] \<and>
        wRemotePath e = nRemotePath n)"
proof -
  let ?P = "vPrims E" and ?i = "nID n"
  define v1 where "v1 = upd_node a (\<lambda>n. n\<lparr>nContentHash := h, nCached := True\<rparr>) (v\<lparr>vStore := s\<rparr>)"
  define v2 where "v2 = with_db (MarkDirty ?i) (with_db (MarkCached (vNow E) ?i h) v1)"
  define v3 where "v3 = (if nContentHash n \<noteq> h then release_blob (nContentHash n) ?i v2 else v2)"
  define v4 where "v4 = enqueue_upload E ?i (nRemotePath n) v3"
  have run: "Flush E a v = (None, v4)"
    using n put valid by (simp add: Flush_def v4_def v3_def v2_def v1_def case_prod_beta Let_def)
  have put_s: "h \<in> stored s" "ioFails s = ioFails (vStore v)" "h = hash_of ?P data" using stored_Put [OF put store(2)] by auto
  have "store_ok ?P c s" using Put_ok [OF store(3,2,4-6), of "vNow E"] put by simp
  then have "store_ok ?P c (vStore v4)" "h \<in> stored (vStore v4)" "ioFails (vStore v4) = ioFails (vStore v)"
    using put_s by (auto simp: v4_def v3_def v2_def v1_def enqueue_upload_def intro: store_ok_release stored_release)
  then have got: "Get ?P h (vStore v4) = Inr data" using Get_stored [OF store(1)] store(6,7) put_s(3) by auto
  have nd: "node_at v4 a = n\<lparr>nContentHash := h, nCached := True\<rparr>"
    using n by (simp add: v4_def v3_def v2_def v1_def enqueue_upload_def node_at_upd) (simp add: node_at_def)
  have d3: "vDb v3 = snd (MarkDirty ?i (snd (MarkCached (vNow E) ?i h (vDb v))))" by (simp add: v3_def v2_def v1_def)
  then have d4: "\<not> writebackDisabled (vDb v3)" "\<not> sqlFails (vDb v3) OpEnqueueDelete" "\<not> sqlFails (vDb v3) OpEnqueueInsert"
    using db by simp_all
  have "vDb v4 = snd (EnqueueWriteback (vNewKey E) (vNow E) ?i Upload (nRemotePath n) ExtraEmpty (vDb v3))"
    by (simp add: v4_def enqueue_upload_def)
  note q = enqueued_once [OF d4, where k = "vNewKey E" and now = "vNow E" and i = ?i and path = "nRemotePath n"
      and x = ExtraEmpty, folded this]
  have row: "\<exists>x \<in> set (inodes (vDb v4)). iID x = ?i \<and> iRemotePath x = iRemotePath r \<and> iDirty x \<and> iCached x \<and>
      iContentHash x = h \<and> iSyncStatus x = StatusPending"
    unfolding q(1) d3 using db by (intro flushed_row) simp_all
  have one: "\<exists>e. filter (\<lambda>e. wInodeID e = ?i \<and> wAction e = Upload \<and> wStatus e = WbPending) (wbqueue (vDb v4)) = [e] \<and>
      wRemotePath e = nRemotePath n"
    unfolding q(2) by auto
  show ?thesis by (intro exI [of _ v4] conjI run got nd row one)
qed

section \<open>Witnesses\<close>

lemma sample_node_fields: "nDirty sample_node" "nData sample_node = Some [7, 8, 9]" "nID sample_node = 1"
  "nName sample_node = ''a.txt''" "nSize sample_node = 3" "nRemotePath sample_node = ''a.txt''"
  by (simp_all add: sample_node_def NewFileNode_def zero_node_def)

lemma sample_valid: "fst (ValidateFile (vUniLower sample_venv) (vTypeOf sample_venv) ''a.txt'' 3)"
  by code_simp

lemma sample_loads: "load_buffer sample_venv sample_node sample_vfs = Inr [7, 8, 9]"
  by (simp add: load_buffer_def sample_node_at sample_node_fields del: One_nat_def)


theorem Flush_durable_witness:
  "\<exists>v'. Flush sample_venv 1 sample_vfs = (None, v') \<and> Get plain_prims sample_hash (vStore v') = Inr [7, 8, 9] \<and>
     nCached (node_at v' 1)"
proof -
  have E: "vPrims sample_venv = plain_prims" "vNow sample_venv = 5" "vTmpName sample_venv = ''.tmp-1''"
    "vNonces sample_venv = zero_nonces"
    by (simp_all add: sample_venv_def)
  have h: "hash_of plain_prims [7, 8, 9] = sample_hash" by (simp add: sample_hash_def)
  have db: "\<not> writebackDisabled sample_db" "\<not> sqlFails sample_db x" "sample_row \<in> set (inodes sample_db)" "iID sample_row = 1" for x
    by (simp_all add: sample_defs)
  show ?thesis
    using Flush_durable [of 1 sample_vfs sample_node "[7, 8, 9]" sample_venv sample_content sample_hash filled_store sample_row]
      plain_prims_ok(1) plain_sha_ok sample_store_ok zero_nonces_ok sample_fresh filled_put db sample_valid
    by (auto simp: E h sample_node_at sample_node_fields sample_content_def sample_store_def simp del: One_nat_def)
qed

end
