(* ===== verification/VfsTree.thy ===== *)
theory VfsTree
  imports VfsLaws
begin

text \<open>
  The node tree of the virtual file system: the shape of the heap (ids, child tables and the index by
  inode id) stays well formed along every sequence of requests; listings add safe names only and
  drop no dirty child; opening counts its handles and leaves the file readable.
\<close>

section \<open>The shape of the heap\<close>

definition vfs_wf :: "vfs \<Rightarrow> bool" where
  "vfs_wf v \<longleftrightarrow> rootAddr < length (heap v) \<and>
     (\<forall>a < length (heap v). \<forall>c \<in> snd ` set (nChildren (node_at v a)). c < length (heap v)) \<and>
     (\<forall>a < length (heap v). distinct (map fst (nChildren (node_at v a)))) \<and>
     (\<forall>i a. nodesByID v i = Some a \<longrightarrow> a < length (heap v) \<and> nID (node_at v a) = i \<and> i \<noteq> 0)"

definition shape :: "vfs \<Rightarrow> int list \<times> (string \<times> addr) list list \<times> (int \<rightharpoonup> addr)" where
  "shape v = (map nID (heap v), map nChildren (heap v), nodesByID v)"

lemma shape_length: "shape v = shape w \<Longrightarrow> length (heap v) = length (heap w)"
  unfolding shape_def by (metis length_map prod.inject)

lemma shape_nth:
  assumes "shape v = shape w" "a < length (heap w)"
  shows "nID (node_at v a) = nID (node_at w a)" "nChildren (node_at v a) = nChildren (node_at w a)"
  using assms shape_length [OF assms(1)] unfolding shape_def node_at_def by (metis nth_map prod.inject)+

lemma wf_shape: "shape v = shape w \<Longrightarrow> vfs_wf v = vfs_wf w"
proof -
  assume s: "shape v = shape w"
  then have m: "nodesByID v = nodesByID w" by (simp add: shape_def)
  show ?thesis
    unfolding vfs_wf_def m shape_length [OF s] by (simp add: shape_nth [OF s] cong: conj_cong)
qed

definition keeps_shape :: "(node \<Rightarrow> node) \<Rightarrow> bool" where
  "keeps_shape f \<longleftrightarrow> (\<forall>n. nID (f n) = nID n \<and> nChildren (f n) = nChildren n)"

lemma shape_upd: "keeps_shape f \<Longrightarrow> shape (upd_node a f v) = shape v"
  by (cases "a < length (heap v)") (simp_all add: shape_def upd_node_def keeps_shape_def map_update list_update_same_conv list_update_beyond)

lemma shape_fields [simp]:
  "shape (v\<lparr>vDb := d\<rparr>) = shape v" "shape (v\<lparr>vStore := s\<rparr>) = shape v" "shape (v\<lparr>vOnline := b\<rparr>) = shape v"
  "shape (with_db f v) = shape v" "shape (release_blob h i v) = shape v"
  "shape (v\<lparr>statfsUsed := u, statfsLimit := l, statfsAt := t\<rparr>) = shape v"
  by (auto simp: shape_def with_db_def release_blob_def split: option.splits)

lemma shape_evictClear [simp]: "shape (evictClear i v) = shape v"
  by (auto simp: evictClear_def shape_upd keeps_shape_def split: option.splits)

lemma shape_evict_fold [simp]: "shape (fold evictClear is v) = shape v"
  by (induction "is" arbitrary: v) simp_all

lemma shape_run_evictor [simp]: "shape (run_evictor E v) = shape v"
  by (simp add: run_evictor_def Let_def)

lemmas shape_rules = shape_upd keeps_shape_def Let_def

lemma shape_download: "shape (snd (open_download E a v)) = shape v"
  by (auto simp: open_download_def downloadAndCache_def settleDownloadFailure_def finishDownload_def shape_rules
      split: prod.splits sum.splits option.splits if_splits)

lemma shape_Open: "shape (snd (Open E a v)) = shape v"
  using shape_download by (auto simp: Open_def open_enter_def shape_rules split: open_outcome.splits)

lemma shape_resume: "shape (snd (open_resume a v)) = shape v"
  by (auto simp: open_resume_def shape_rules)

lemma shape_Read: "Read E a off sz v = Some (r, v') \<Longrightarrow> shape v' = shape v"
  by (auto simp: Read_def Let_def split: prod.splits option.splits bool.splits sum.splits if_splits)

lemma shape_Write: "shape (snd (Write E a off bs v)) = shape v"
  by (auto simp: Write_def shape_rules split: sum.splits)

lemma shape_Truncate: "shape (snd (Truncate E a sz v)) = shape v"
  by (auto simp: Truncate_def shape_rules split: sum.splits)

lemma shape_Flush: "shape (snd (Flush E a v)) = shape v"
  by (auto simp: Flush_def enqueue_upload_def shape_rules split: prod.splits option.splits bool.splits sum.splits if_splits)

lemma shape_Release: "shape (snd (Release E a v)) = shape v"
  by (auto simp: Release_def shape_Flush shape_rules)

lemma shape_refresh: "shape (refresh_child a entry v) = shape v"
  by (auto simp: refresh_child_def shape_rules split: option.splits)

section \<open>Well-formedness along requests\<close>

text \<open>A node no index entry points to; its id may change.\<close>

definition untracked :: "addr \<Rightarrow> vfs \<Rightarrow> bool" where
  "untracked c v \<longleftrightarrow> (\<forall>i. nodesByID v i \<noteq> Some c)"

lemma node_at_upd_if: "node_at (upd_node a f v) b = (if b = a \<and> a < length (heap v) then f (node_at v a) else node_at v b)"
  by (auto simp: node_at_def upd_node_def list_update_beyond)

lemma node_at_db: "node_at (v\<lparr>vDb := d\<rparr>) b = node_at v b"
  by (simp add: node_at_def)

lemma wf_child: "vfs_wf v \<Longrightarrow> a < length (heap v) \<Longrightarrow> c \<in> snd ` set (nChildren (node_at v a)) \<Longrightarrow> c < length (heap v)"
  by (auto simp: vfs_wf_def)

lemma wf_distinct: "vfs_wf v \<Longrightarrow> a < length (heap v) \<Longrightarrow> distinct (map fst (nChildren (node_at v a)))"
  by (auto simp: vfs_wf_def)

lemma wf_index: "vfs_wf v \<Longrightarrow> nodesByID v i = Some a \<Longrightarrow> a < length (heap v) \<and> nID (node_at v a) = i \<and> i \<noteq> 0"
  by (simp add: vfs_wf_def)

lemma wf_upd_children:
  assumes "vfs_wf v" "\<And>n. nID (f n) = nID n"
    and "snd ` set (nChildren (f (node_at v a))) \<subseteq> snd ` set (nChildren (node_at v a)) \<union> {c. c < length (heap v)}"
    and "distinct (map fst (nChildren (node_at v a))) \<Longrightarrow> distinct (map fst (nChildren (f (node_at v a))))"
  shows "vfs_wf (upd_node a f v)"
  unfolding vfs_wf_def
proof (intro conjI allI ballI impI)
  show "rootAddr < length (heap (upd_node a f v))" using assms(1) by (simp add: vfs_wf_def)
next
  fix b c
  assume "b < length (heap (upd_node a f v))" "c \<in> snd ` set (nChildren (node_at (upd_node a f v) b))"
  then show "c < length (heap (upd_node a f v))"
    using wf_child [OF assms(1), of b c] assms(3) by (auto simp: node_at_upd_if split: if_splits)
next
  fix b
  assume "b < length (heap (upd_node a f v))"
  then show "distinct (map fst (nChildren (node_at (upd_node a f v) b)))"
    using wf_distinct [OF assms(1), of b] assms(4) by (auto simp: node_at_upd_if)
next
  fix i b
  assume "nodesByID (upd_node a f v) i = Some b"
  then have "b < length (heap v) \<and> nID (node_at v b) = i \<and> i \<noteq> 0" using wf_index [OF assms(1)] by simp
  then show "b < length (heap (upd_node a f v))" "nID (node_at (upd_node a f v) b) = i" "i \<noteq> 0"
    by (auto simp: node_at_upd_if assms(2))
qed

lemma snd_AList_update: "snd ` set (AList.update k x al) \<subseteq> insert x (snd ` set al)"
  by (induction al) auto

lemma snd_AList_delete: "snd ` set (AList.delete k al) \<subseteq> snd ` set al"
  by (induction al) auto

lemma wf_upd_keep: "keeps_shape f \<Longrightarrow> vfs_wf (upd_node a f v) = vfs_wf v"
  by (intro wf_shape shape_upd)

lemma wf_AddChild: "vfs_wf v \<Longrightarrow> c < length (heap v) \<Longrightarrow> vfs_wf (AddChild p c v)"
  using snd_AList_update [of "nName (node_at v c)" c "nChildren (node_at v p)"]
  by (simp add: AddChild_def Let_def wf_upd_keep keeps_shape_def) (intro wf_upd_children, auto simp: distinct_update)

lemma wf_RemoveChild: "vfs_wf v \<Longrightarrow> vfs_wf (snd (RemoveChild p name v))"
  using snd_AList_delete [of name "nChildren (node_at v p)"] unfolding RemoveChild_def snd_conv
  by (intro wf_upd_children) (simp_all add: le_supI1 distinct_delete)

lemma wf_untrackNode: "vfs_wf v \<Longrightarrow> vfs_wf (untrackNode c v)"
  by (auto simp: untrackNode_def Let_def vfs_wf_def node_at_def)

lemma wf_trackNode: "vfs_wf v \<Longrightarrow> c < length (heap v) \<Longrightarrow> vfs_wf (trackNode c v)"
  by (auto simp: trackNode_def Let_def vfs_wf_def node_at_def)

lemma untracked_untrackNode: "vfs_wf v \<Longrightarrow> untracked c (untrackNode c v)"
  by (auto simp: untracked_def untrackNode_def Let_def vfs_wf_def)

lemma untracked_frame [simp]:
  "untracked c (upd_node a f v) = untracked c v" "untracked c (with_db g v) = untracked c v"
  "untracked c (AddChild p b v) = untracked c v" "untracked c (v\<lparr>vDb := d\<rparr>) = untracked c v"
  by (simp_all add: untracked_def)

lemma wf_alloc:
  assumes "vfs_wf v" "nChildren n = []"
  shows "vfs_wf (snd (alloc n v))"
  unfolding vfs_wf_def
proof (intro conjI allI ballI impI)
  have at: "node_at (snd (alloc n v)) b = (if b < length (heap v) then node_at v b else n)" if "b \<le> length (heap v)" for b
    using that by (auto simp: node_at_def nth_append)
  show "rootAddr < length (heap (snd (alloc n v)))" using assms(1) by (auto simp: vfs_wf_def)
  show "c < length (heap (snd (alloc n v)))"
    if "b < length (heap (snd (alloc n v)))" "c \<in> snd ` set (nChildren (node_at (snd (alloc n v)) b))" for b c
    using that wf_child [OF assms(1), of b c] assms(2) at [of b] by (auto split: if_splits)
  show "distinct (map fst (nChildren (node_at (snd (alloc n v)) b)))" if "b < length (heap (snd (alloc n v)))" for b
    using that wf_distinct [OF assms(1), of b] assms(2) at [of b] by auto
  show "b < length (heap (snd (alloc n v)))" "nID (node_at (snd (alloc n v)) b) = i" "i \<noteq> 0"
    if "nodesByID (snd (alloc n v)) i = Some b" for i b
    using that wf_index [OF assms(1), of i b] at [of b] by auto
qed

lemma wf_renumber:
  assumes "vfs_wf v" "untracked c v"
  shows "vfs_wf (upd_node c (\<lambda>n. n\<lparr>nID := i\<rparr>) v)"
  using assms by (auto simp: vfs_wf_def untracked_def node_at_upd_if dest: wf_child [OF assms(1)])

lemma rehome_wf:
  assumes "vfs_wf v" "untracked c v" "c < length (heap v)"
  shows "vfs_wf (rehome c oldPath p v) \<and> length (heap (rehome c oldPath p v)) = length (heap v)"
proof -
  have "vfs_wf (upd_node c (\<lambda>n. n\<lparr>nID := i\<rparr>) ((with_db (DeleteInode oldPath) v)\<lparr>vDb := d\<rparr>))" for i d
    using assms(1,2) wf_shape [of "(with_db (DeleteInode oldPath) v)\<lparr>vDb := d\<rparr>" v]
    by (intro wf_renumber) (simp_all add: untracked_def)
  then show ?thesis
    using assms(3) by (auto simp: rehome_def Let_def intro!: wf_trackNode split: prod.splits)
qed

lemma move_node_wf:
  assumes "vfs_wf v" "c < length (heap v)"
  shows "vfs_wf (move_node oldParent oldName c newParent newName newPath v) \<and>
    untracked c (move_node oldParent oldName c newParent newName newPath v) \<and>
    length (heap (move_node oldParent oldName c newParent newName newPath v)) = length (heap v)"
  using assms wf_RemoveChild [OF assms(1)] unfolding move_node_def Let_def
  by (intro conjI wf_AddChild) (simp_all add: wf_upd_keep keeps_shape_def wf_untrackNode untracked_untrackNode)

lemma rewrite_node_wf:
  assumes "vfs_wf v" "c < length (heap v)"
  shows "vfs_wf (rewrite_node c dir newPath v) \<and> length (heap (rewrite_node c dir newPath v)) = length (heap v)"
proof -
  let ?v1 = "upd_node c (\<lambda>n. n\<lparr>nRemotePath := newPath\<rparr>) (untrackNode c v)"
  have "vfs_wf ?v1" using assms by (simp add: wf_upd_keep keeps_shape_def wf_untrackNode)
  then show ?thesis
    using rehome_wf [of ?v1 c] assms by (simp add: rewrite_node_def Let_def untracked_untrackNode)
qed

lemma ListChildNodes_wf: "vfs_wf v \<Longrightarrow> a < length (heap v) \<Longrightarrow> c \<in> set (ListChildNodes a v) \<Longrightarrow> c < length (heap v)"
  using wf_child by (simp add: ListChildNodes_def)

lemma rewriteSubtree_wf:
  assumes run: "rewriteSubtree ts v = Some v'" and start: "vfs_wf v" "fst ` set ts \<subseteq> {c. c < length (heap v)}"
  shows "vfs_wf v' \<and> length (heap v') = length (heap v)"
proof -
  have "vfs_wf v \<and> fst ` set ts \<subseteq> {c. c < length (heap v)} \<longrightarrow> vfs_wf v' \<and> length (heap v') = length (heap v)"
  proof (rule rewriteSubtree.raw_induct [where P = "\<lambda>ts v v'. vfs_wf v \<and> fst ` set ts \<subseteq> {c. c < length (heap v)} \<longrightarrow>
        vfs_wf v' \<and> length (heap v') = length (heap v)", OF _ run], intro impI)
    fix rec ts v v'
    assume IH: "\<And>ts v v'. rec ts v = Some v' \<Longrightarrow> vfs_wf v \<and> fst ` set ts \<subseteq> {c. c < length (heap v)} \<longrightarrow>
        vfs_wf v' \<and> length (heap v') = length (heap v)"
      and body: "(case ts of [] \<Rightarrow> Some v
      | (c, dir, oldPrefix, newPrefix) # rest \<Rightarrow>
          (let oldPath = nRemotePath (node_at v c);
               newPath = newPrefix @ TrimPrefix oldPath oldPrefix;
               v1 = rewrite_node c dir newPath v
           in rec ((if nIsDir (node_at v c) then map (\<lambda>x. (x, c, oldPath, newPath)) (ListChildNodes c v1) else []) @ rest) v1))
        = Some v'"
      and ok: "vfs_wf v \<and> fst ` set ts \<subseteq> {c. c < length (heap v)}"
    show "vfs_wf v' \<and> length (heap v') = length (heap v)"
    proof (cases ts)
      case (Cons t rest)
      obtain c dir oldP newP where t: "t = (c, dir, oldP, newP)" by (cases t)
      let ?newPath = "newP @ TrimPrefix (nRemotePath (node_at v c)) oldP"
      let ?v1 = "rewrite_node c dir ?newPath v"
      have c: "c < length (heap v)" using ok Cons t by auto
      note w = rewrite_node_wf [OF conjunct1 [OF ok] c, of dir ?newPath]
      let ?ts = "(if nIsDir (node_at v c) then map (\<lambda>x. (x, c, nRemotePath (node_at v c), ?newPath)) (ListChildNodes c ?v1) else []) @ rest"
      have "rec ?ts ?v1 = Some v'" using body by (simp add: Cons t Let_def)
      moreover have "fst ` set ?ts \<subseteq> {c. c < length (heap ?v1)}"
        using ListChildNodes_wf [of ?v1 c] w c ok by (auto simp: Cons t image_image)
      ultimately show ?thesis using IH w by metis
    qed (use body ok in simp)
  qed
  then show ?thesis using start by blast
qed

lemma insert_child_wf:
  assumes "vfs_wf v"
  shows "vfs_wf (insert_child E p name entry v) \<and> length (heap v) \<le> length (heap (insert_child E p name entry v))"
proof -
  have no: "nChildren (listed_node E p name path entry v) = []" for path
    by (auto simp: listed_node_def Let_def NewDirNode_def NewFileNode_def zero_node_def split: sum.splits)
  have "vfs_wf (snd (alloc n (v\<lparr>vDb := d\<rparr>)))" if "nChildren n = []" for n d
    using assms wf_alloc [OF _ that] wf_shape [of "v\<lparr>vDb := d\<rparr>" v] by simp
  then have grown: "vfs_wf (upd_node p (\<lambda>q. q\<lparr>nChildren := AList.update name (length (heap v)) (nChildren q)\<rparr>)
      (snd (alloc n (v\<lparr>vDb := d\<rparr>))))" if "nChildren n = []" for n d
    using that snd_AList_update [of name "length (heap v)" "nChildren (node_at (snd (alloc n (v\<lparr>vDb := d\<rparr>))) p)"]
    by (intro wf_upd_children) (auto simp: distinct_update)
  show ?thesis
    using no by (auto simp: insert_child_def Let_def case_prod_beta intro!: wf_trackNode grown split: sum.splits)
qed

lemma populate_entries_wf:
  "vfs_wf v \<Longrightarrow> vfs_wf (snd (populate_entries E p es seen v)) \<and> length (heap v) \<le> length (heap (snd (populate_entries E p es seen v)))"
proof (induction E p es seen v rule: populate_entries.induct)
  case (2 E p entry es seen v)
  have step: "vfs_wf (case GetChild p name v of Some a \<Rightarrow> refresh_child a entry v | None \<Rightarrow> insert_child E p name entry v) \<and>
    length (heap v) \<le> length (heap (case GetChild p name v of Some a \<Rightarrow> refresh_child a entry v | None \<Rightarrow> insert_child E p name entry v))"
    for name
    using 2(3) insert_child_wf [OF 2(3)] wf_shape [OF shape_refresh] shape_length [OF shape_refresh]
    by (auto split: option.split)
  show ?case
    using 2 step order_trans by (simp add: Let_def) blast
qed simp

lemma drop_unseen_wf: "vfs_wf v \<Longrightarrow> vfs_wf (drop_unseen p seen cs v) \<and> length (heap (drop_unseen p seen cs v)) = length (heap v)"
  by (induction p seen cs v rule: drop_unseen.induct) (auto intro: wf_RemoveChild wf_untrackNode)

lemma populateDir_wf:
  assumes "vfs_wf v" "populateDir E p v = (r, v')"
  shows "vfs_wf v' \<and> length (heap v) \<le> length (heap v')"
proof -
  have on: "vfs_wf (v\<lparr>vOnline := b\<rparr>)" for b using assms(1) wf_shape [of "v\<lparr>vOnline := b\<rparr>" v] by simp
  show ?thesis
    using assms(2) on populate_entries_wf [OF on [of True], of E p] drop_unseen_wf
    by (auto simp: populateDir_def Let_def wf_upd_keep keeps_shape_def case_prod_beta split: answer.splits option.splits)
qed

lemma GetChild_wf: "vfs_wf v \<Longrightarrow> p < length (heap v) \<Longrightarrow> GetChild p name v = Some c \<Longrightarrow> c < length (heap v)"
  using wf_child [of v p c] by (force simp: GetChild_def dest: map_of_SomeD)

definition grows :: "vfs \<Rightarrow> vfs \<Rightarrow> bool" where
  "grows v v' \<longleftrightarrow> vfs_wf v' \<and> length (heap v) \<le> length (heap v')"

lemma grows_shape: "vfs_wf v \<Longrightarrow> shape v' = shape v \<Longrightarrow> grows v v'"
  using wf_shape [of v' v] shape_length [of v' v] by (simp add: grows_def)

lemma grows_attach:
  assumes "vfs_wf v" "nChildren n = []"
  shows "grows v (AttachChild p (length (heap v)) (snd (alloc n (v\<lparr>vDb := d\<rparr>))))"
proof -
  have "vfs_wf (snd (alloc n (v\<lparr>vDb := d\<rparr>)))" using assms wf_shape [of "v\<lparr>vDb := d\<rparr>" v] by (intro wf_alloc) simp_all
  then show ?thesis by (auto simp: AttachChild_def grows_def intro!: wf_trackNode wf_AddChild)
qed

lemma grows_refl [simp]: "vfs_wf v \<Longrightarrow> grows v v" "vfs_wf v \<Longrightarrow> grows v (v\<lparr>vDb := d\<rparr>)"
  by (auto intro: grows_shape)

lemma grows_Create:
  assumes "vfs_wf v"
  shows "grows v (snd (Create E p name v))"
proof (cases "GetChild p name v")
  case None
  then show ?thesis
    using assms by (auto simp: Create_def Let_def case_prod_beta NewFileNode_def zero_node_def
        intro!: grows_attach split: sum.splits)
next
  case (Some a)
  then show ?thesis
    using assms shape_Truncate by (auto simp: Create_def case_prod_beta intro!: grows_shape split: option.splits)
qed

lemma grows_Mkdir: "vfs_wf v \<Longrightarrow> grows v (snd (Mkdir E p name v))"
  by (auto simp: Mkdir_def Let_def case_prod_beta NewDirNode_def zero_node_def
      intro!: grows_attach split: sum.splits answer.splits)

lemma grows_unlinked:
  assumes "vfs_wf v"
  shows "vfs_wf (untrackNode c (with_db g (release_blob h i (with_db f (snd (RemoveChild p name v))))))"
    "vfs_wf (untrackNode c (with_db g (with_db f (snd (RemoveChild p name v)))))"
  using wf_RemoveChild [OF assms, of p name] wf_shape [of "with_db g (release_blob h i (with_db f (snd (RemoveChild p name v))))" "snd (RemoveChild p name v)"]
    wf_shape [of "with_db g (with_db f (snd (RemoveChild p name v)))" "snd (RemoveChild p name v)"]
  by (auto intro!: wf_untrackNode)

lemma grows_Unlink: "vfs_wf v \<Longrightarrow> grows v (snd (Unlink E p name v))"
  by (auto simp: Unlink_def Let_def grows_def intro: grows_unlinked split: option.splits)

lemma grows_populate: "vfs_wf v \<Longrightarrow> populateDir E p v = (r, v') \<Longrightarrow> grows v v'"
  using populateDir_wf by (simp add: grows_def)

lemma grows_Rmdir:
  assumes "vfs_wf v"
  shows "grows v (snd (Rmdir E p name v))"
proof (cases "GetChild p name v")
  case (Some c)
  obtain r v1 where load: "(if nLoaded (node_at v c) then (None, v) else populateDir E c v) = (r, v1)" by fastforce
  then have g: "grows v v1" using assms grows_populate by (auto split: if_splits)
  then have "grows v (untrackNode c (with_db f (with_db f' (snd (RemoveChild p name v1)))))" for f f'
    using grows_unlinked(2) by (simp add: grows_def)
  with g show ?thesis
    using assms by (simp add: Rmdir_def Some load Let_def del: if_split split: option.split)
qed (use assms in \<open>simp add: Rmdir_def\<close>)

lemma grows_Rename:
  assumes "vfs_wf v" "p < length (heap v)" "RenameNode E p name q name' v = Some (r, v')"
  shows "grows v v'"
proof (cases "vReadOnly v \<or> GetChild p name v = None")
  case True
  then show ?thesis using assms by (auto simp: RenameNode_def grows_def split: if_splits)
next
  case False
  then obtain c where gc: "GetChild p name v = Some c" and ro: "\<not> vReadOnly v" by auto
  let ?path = "joinPath (nRemotePath (node_at v q)) name'" and ?old = "nRemotePath (node_at v c)"
  let ?m = "move_node p name c q name' ?path v"
  have c: "c < length (heap v)" by (rule GetChild_wf [OF assms(1,2) gc])
  note m = move_node_wf [OF assms(1) c, of p name q name' ?path]
  have local: "grows v (renameLocalOnlyFile E p c name q name' ?path v)"
  proof -
    let ?v2 = "with_db (DeleteWritebackByInode (nID (node_at v c))) ?m"
    have "vfs_wf ?v2" using m wf_shape [of ?v2 ?m] by simp
    then have "vfs_wf (rehome c ?old i ?v2) \<and> length (heap (rehome c ?old i ?v2)) = length (heap v)" for i
      using rehome_wf [of ?v2 c ?old i] m c by simp
    then show ?thesis
      by (simp add: renameLocalOnlyFile_def Let_def grows_def enqueue_upload_def wf_shape [OF shape_fields(4)])
  qed
  have rh: "vfs_wf (rehome c ?old i ?m) \<and> length (heap (rehome c ?old i ?m)) = length (heap v)" for i
    using rehome_wf [of ?m c ?old i] m c by simp
  have sub: "grows v w" if "rewriteSubtree (map (\<lambda>x. (x, c, ?old, ?path)) (ListChildNodes c (rehome c ?old i ?m))) (rehome c ?old i ?m) = Some w" for i w
  proof -
    have "vfs_wf w \<and> length (heap w) = length (heap v)"
      using rewriteSubtree_wf [OF that] rh [of i] c ListChildNodes_wf [of "rehome c ?old i ?m" c]
      by (simp add: image_image subset_iff)
    then show ?thesis by (simp add: grows_def)
  qed
  show ?thesis
    using assms(1,3) local rh sub by (auto simp: RenameNode_def gc ro Let_def grows_def split: if_splits option.splits)
qed

lemma remove_walk_wf:
  assumes run: "remove_walk status ts k v = Some r" and start: "vfs_wf v"
  shows "vfs_wf (snd r) \<and> length (heap (snd r)) = length (heap v)"
proof -
  have "vfs_wf v \<longrightarrow> vfs_wf (snd r) \<and> length (heap (snd r)) = length (heap v)"
  proof (rule remove_walk.raw_induct [where P = "\<lambda>status ts k v r. vfs_wf v \<longrightarrow> vfs_wf (snd r) \<and>
      length (heap (snd r)) = length (heap v)", OF _ run])
    fix rec status ts k v r
    assume IH: "\<And>status ts k v r. rec status ts k v = Some r \<Longrightarrow> vfs_wf v \<longrightarrow> vfs_wf (snd r) \<and> length (heap (snd r)) = length (heap v)"
      and body: "(case ts of [] \<Rightarrow> Some (k, v)
      | (dir, name, c) # rest \<Rightarrow>
          if nSyncStatus (node_at v c) = status
          then rec status rest (Suc k) (untrackNode c (snd (RemoveChild dir name v)))
          else if nIsDir (node_at v c)
          then rec status (map (\<lambda>(nm, x). (c, nm, x)) (nChildren (node_at v c)) @ rest) k v
          else rec status rest k v) = Some r"
    show "vfs_wf v \<longrightarrow> vfs_wf (snd r) \<and> length (heap (snd r)) = length (heap v)"
      using body by (cases ts) (auto simp: wf_untrackNode wf_RemoveChild dest!: IH split: if_splits)
  qed
  then show ?thesis using start by blast
qed

lemma shape_fold_release [simp]: "shape (fold (\<lambda>h. release_blob h 0) hs v) = shape v"
  by (induction hs arbitrary: v) simp_all

lemma grows_CleanRejected:
  assumes "vfs_wf v" "CleanRejected v = Some (r, v')"
  shows "grows v v'"
proof -
  have "grows v w" if "removeFromTreeByStatus s u = Some (k, w)" "grows v u" for s u k w
    using that remove_walk_wf by (fastforce simp: removeFromTreeByStatus_def grows_def split: if_splits)
  moreover have "grows v (fold (\<lambda>h. release_blob h 0) hs (v\<lparr>vDb := d\<rparr>))" for hs d
    by (rule grows_shape [OF assms(1)]) simp
  ultimately show ?thesis
    using assms by (auto simp: CleanRejected_def split: prod.splits sum.splits)
qed

subsection \<open>Reachable file systems\<close>

text \<open>A request names nodes by handles the file system has given out.\<close>

fun request_addrs :: "vfs_request \<Rightarrow> addr list" where
  "request_addrs (ROpen a) = [a]"
| "request_addrs (RResume a) = [a]"
| "request_addrs (RRead a off sz) = [a]"
| "request_addrs (RWrite a off bs) = [a]"
| "request_addrs (RTruncate a sz) = [a]"
| "request_addrs (RFlush a) = [a]"
| "request_addrs (RRelease a) = [a]"
| "request_addrs (RLookup p name) = [p]"
| "request_addrs (RReaddir p) = [p]"
| "request_addrs (RCreate p name) = [p]"
| "request_addrs (RMkdir p name) = [p]"
| "request_addrs (RUnlink p name) = [p]"
| "request_addrs (RRmdir p name) = [p]"
| "request_addrs (RRename p name q name') = [p, q]"
| "request_addrs RStatfs = []"
| "request_addrs RCleanRejected = []"

inductive vfs_reach :: "vfs \<Rightarrow> vfs \<Rightarrow> bool" for v0 where
  start: "vfs_reach v0 v0"
| request: "vfs_reach v0 v \<Longrightarrow> \<forall>a \<in> set (request_addrs q). a < length (heap v) \<Longrightarrow> vfs_reach v0 (vfs_op (E, q) v)"

lemma vfs_op_grows:
  assumes "vfs_wf v" "\<forall>a \<in> set (request_addrs q). a < length (heap v)"
  shows "grows v (vfs_op (E, q) v)"
proof -
  note same = grows_shape [OF assms(1)]
  note rename = grows_Rename [OF assms(1)] and clean = grows_CleanRejected [OF assms(1)]
  note pop = grows_populate [OF assms(1)]
  have "grows v (snd (Lookup E p name v))" "grows v (snd (Readdir E p v))" for p name
    using assms(1) pop by (auto simp: Lookup_def Readdir_def split: option.splits prod.splits)
  moreover have "shape (snd (Statfs E v)) = shape v" by (auto simp: Statfs_def split: answer.splits option.splits)
  ultimately show ?thesis
    using assms shape_Open shape_resume shape_Read shape_Write shape_Truncate shape_Flush shape_Release
      grows_Create grows_Mkdir grows_Unlink grows_Rmdir
    by (cases q) (auto intro: same rename clean split: option.splits)
qed

text \<open>
  C38: every reachable file system is well formed: child tables hold live nodes only, and the index
  by inode id, through which eviction learns whether a file is open or edited, maps an id only to a
  node that carries this id; no request ever frees a node handle.
\<close>

theorem reachable_vfs_wf:
  assumes "vfs_reach (newVFS now base d s) v"
  shows "vfs_wf v \<and> (\<forall>i a. NodeByID i v = Some a \<longrightarrow> a < length (heap v) \<and> nID (node_at v a) = i) \<and>
    (\<forall>E q. (\<forall>a \<in> set (request_addrs q). a < length (heap v)) \<longrightarrow> length (heap v) \<le> length (heap (vfs_op (E, q) v)))"
proof -
  have "vfs_wf v" using assms
  proof (induction rule: vfs_reach.induct)
    case start
    show ?case by (simp add: newVFS_def Let_def vfs_wf_def node_at_def NewRootNode_def zero_node_def rootAddr_def)
  next
    case (request v q E)
    then show ?case using vfs_op_grows [of v q E] by (simp add: grows_def)
  qed
  then show ?thesis using wf_index vfs_op_grows by (auto simp: grows_def NodeByID_def)
qed

section \<open>Listings\<close>

text \<open>The names a listing contributes: those that decrypt to a safe name, less the server's own
  directories.\<close>

definition listed_names :: "venv \<Rightarrow> ls_entry list \<Rightarrow> string set" where
  "listed_names E es = {name. \<exists>entry \<in> set es. name = decryptName E (eDisplayName entry) \<and> name \<noteq> [] \<and>
     name \<noteq> ''(encrypted)'' \<and> \<not> IsExcludedDir name}"

definition child_names :: "addr \<Rightarrow> vfs \<Rightarrow> string set" where
  "child_names p v = fst ` set (nChildren (node_at v p))"

lemma listed_names_simps [simp]:
  "listed_names E [] = {}"
  "listed_names E (entry # es) = (let name = decryptName E (eDisplayName entry) in
     (if name = [] \<or> name = ''(encrypted)'' \<or> IsExcludedDir name then {} else {name}) \<union> listed_names E es)"
  by (auto simp: listed_names_def Let_def)

lemma decryptName_safe:
  "decryptName E b64 = name \<Longrightarrow> name \<noteq> [] \<Longrightarrow> name \<noteq> ''(encrypted)'' \<Longrightarrow> IsSafeName (vPlatformName E) name"
  by (auto simp: decryptName_def split: option.splits sum.splits if_splits)

lemma listed_names_safe: "name \<in> listed_names E es \<Longrightarrow> IsSafeName (vPlatformName E) name \<and> \<not> IsExcludedDir name"
  using decryptName_safe by (auto simp: listed_names_def)

text \<open>What a listing keeps of the nodes that exist: everything that makes up a local edit.\<close>

definition edits_same :: "vfs \<Rightarrow> vfs \<Rightarrow> bool" where
  "edits_same v v' \<longleftrightarrow> length (heap v) \<le> length (heap v') \<and> (\<forall>c < length (heap v).
     nDirty (node_at v' c) = nDirty (node_at v c) \<and> nData (node_at v' c) = nData (node_at v c) \<and>
     nWriteGen (node_at v' c) = nWriteGen (node_at v c) \<and> nContentHash (node_at v' c) = nContentHash (node_at v c))"

lemma edits_same_trans: "edits_same u v \<Longrightarrow> edits_same v w \<Longrightarrow> edits_same u w"
  by (auto simp: edits_same_def)

lemma edits_same_refl [simp]: "edits_same v v"
  by (simp add: edits_same_def)

lemma edits_same_upd:
  assumes "\<And>n. nDirty (f n) = nDirty n \<and> nData (f n) = nData n \<and> nWriteGen (f n) = nWriteGen n \<and> nContentHash (f n) = nContentHash n"
  shows "edits_same v w \<Longrightarrow> edits_same v (upd_node a f w)"
  using assms by (auto simp: edits_same_def node_at_upd_if)

lemma edits_same_frame [simp]:
  "edits_same v (with_db g w) = edits_same v w" "edits_same v (trackNode a w) = edits_same v w"
  "edits_same v (untrackNode a w) = edits_same v w"
  by (simp_all add: edits_same_def)

lemma refresh_edits_same: "edits_same v (refresh_child a entry v)"
  by (auto simp: refresh_child_def Let_def intro!: edits_same_upd split: option.split)

lemma insert_edits_same: "edits_same v (insert_child E p name entry v)"
proof -
  have "edits_same v (snd (alloc n (v\<lparr>vDb := d\<rparr>)))" for n d
    by (auto simp: edits_same_def alloc_def node_at_def nth_append)
  then show ?thesis by (auto simp: insert_child_def Let_def case_prod_beta intro!: edits_same_upd)
qed

lemma insert_children:
  assumes "p < length (heap v)"
  shows "\<exists>a. nChildren (node_at (insert_child E p name entry v) p) = AList.update name a (nChildren (node_at v p))"
proof -
  have "node_at (snd (alloc n (v\<lparr>vDb := d\<rparr>))) p = node_at v p" for n d
    using assms by (simp add: node_at_def nth_append)
  then show ?thesis
    using assms by (auto simp: insert_child_def Let_def case_prod_beta node_at_upd_if)
qed

lemma populate_entries_names:
  assumes "vfs_wf v" "p < length (heap v)"
  shows "set (fst (populate_entries E p es seen v)) = set seen \<union> listed_names E es \<and>
    child_names p (snd (populate_entries E p es seen v)) = child_names p v \<union> listed_names E es \<and>
    (\<forall>name c. GetChild p name v = Some c \<longrightarrow> GetChild p name (snd (populate_entries E p es seen v)) = Some c) \<and>
    edits_same v (snd (populate_entries E p es seen v))"
  using assms
proof (induction E p es seen v rule: populate_entries.induct)
  case (2 E p entry es seen v)
  let ?name = "decryptName E (eDisplayName entry)"
  show ?case
  proof (cases "?name = [] \<or> ?name = ''(encrypted)'' \<or> IsExcludedDir ?name")
    case True
    then show ?thesis using 2(1) [OF refl True 2(3,4)] by (auto simp: Let_def)
  next
    case False
    define v1 where "v1 = (case GetChild p ?name v of Some a \<Rightarrow> refresh_child a entry v | None \<Rightarrow> insert_child E p ?name entry v)"
    have wf1: "vfs_wf v1" and ed: "edits_same v v1"
      using 2(3,4) insert_child_wf [OF 2(3)] wf_shape [OF shape_refresh] refresh_edits_same insert_edits_same
      by (auto simp: v1_def split: option.split)
    have len: "p < length (heap v1)" using ed 2(4) by (auto simp: edits_same_def)
    have ch: "child_names p v1 = insert ?name (child_names p v) \<and> (\<forall>name c. GetChild p name v = Some c \<longrightarrow> GetChild p name v1 = Some c)"
    proof (cases "GetChild p ?name v")
      case None
      then obtain a where "nChildren (node_at v1 p) = AList.update ?name a (nChildren (node_at v p))"
        using insert_children [OF 2(4), of E ?name entry] by (auto simp: v1_def)
      then show ?thesis using None by (auto simp: child_names_def GetChild_def dom_update update_conv' simp flip: dom_map_of_conv_image_fst)
    next
      case (Some a)
      then have "nChildren (node_at v1 p) = nChildren (node_at v p)"
        using shape_nth(2) [OF shape_refresh 2(4)] by (simp add: v1_def)
      then show ?thesis using Some by (force simp: child_names_def GetChild_def dest: map_of_SomeD)
    qed
    note IH = 2(2) [OF refl False v1_def wf1 len]
    have eq: "populate_entries E p (entry # es) seen v = populate_entries E p es (?name # seen) v1"
      using False by (simp add: v1_def Let_def)
    show ?thesis unfolding eq using IH ch ed False edits_same_trans by (auto simp: Let_def)
  qed
qed simp

lemma drop_unseen_children:
  assumes "p < length (heap v)"
  shows "nChildren (node_at (drop_unseen p seen cs v) p) =
      fold (\<lambda>(name, c) al. if name \<notin> set seen \<and> \<not> nDirty (node_at v c) then AList.delete name al else al) cs (nChildren (node_at v p)) \<and>
    edits_same v (drop_unseen p seen cs v)"
  using assms
proof (induction p seen cs v rule: drop_unseen.induct)
  case (2 p seen name c cs v)
  define w where "w = untrackNode c (snd (RemoveChild p name v))"
  have ed: "edits_same v w" by (auto simp: w_def RemoveChild_def intro: edits_same_upd)
  have d: "nDirty (node_at w b) = nDirty (node_at v b)" for b
    by (auto simp: w_def RemoveChild_def node_at_upd_if)
  have ch: "nChildren (node_at w p) = AList.delete name (nChildren (node_at v p))"
    using 2(3) by (simp add: w_def RemoveChild_def node_at_upd_if)
  show ?case
  proof (cases "name \<notin> set seen \<and> \<not> nDirty (node_at v c)")
    case True
    have "p < length (heap w)" using 2(3) by (simp add: w_def)
    then show ?thesis
      using 2(1) [OF True, folded w_def] True ed edits_same_trans [of v w] by (simp add: d ch w_def [symmetric])
  next
    case False
    then show ?thesis using 2(2) [OF False 2(3)] by auto
  qed
qed simp

lemma map_of_drop:
  assumes "distinct (map fst cs)"
  shows "map_of (fold (\<lambda>(name, c) al. if P name c then AList.delete name al else al) cs al) k =
    (case map_of cs k of Some c \<Rightarrow> if P k c then None else map_of al k | None \<Rightarrow> map_of al k)"
  using assms
proof (induction cs arbitrary: al)
  case (Cons x cs)
  have "fst x \<notin> fst ` set cs" using Cons.prems by simp
  then have "map_of cs (fst x) = None" by (simp add: map_of_eq_None_iff)
  then show ?case using Cons by (cases x) (auto simp: delete_conv' split: option.split)
qed simp

lemma GetChild_names: "name \<in> child_names p v \<longleftrightarrow> (\<exists>c. GetChild p name v = Some c)"
  by (metis GetChild_def child_names_def domD domI dom_map_of_conv_image_fst)

text \<open>
  A listing is exact and safe. After a successful listing of a directory, its child names are
  precisely the names the server lists that decrypt to a safe file name (no separator, no dot-dot,
  nothing the platform reserves) outside the server's own directories, together with the names of
  the children that have local edits; such a child keeps its node, its buffer, its content hash and
  its write generation.
\<close>

theorem populateDir_exact:
  assumes "vfs_wf v" "p < length (heap v)" "populateDir E p v = (None, v')"
  shows "\<exists>opts es. vList E opts = Answer (Some es) \<and>
    child_names p v' = listed_names E es \<union> {name. \<exists>c. GetChild p name v = Some c \<and> nDirty (node_at v c)} \<and>
    (\<forall>name \<in> listed_names E es. IsSafeName (vPlatformName E) name \<and> \<not> IsExcludedDir name) \<and>
    (\<forall>name c. GetChild p name v = Some c \<and> nDirty (node_at v c) \<longrightarrow> GetChild p name v' = Some c \<and>
       nDirty (node_at v' c) \<and> nData (node_at v' c) = nData (node_at v c) \<and>
       nWriteGen (node_at v' c) = nWriteGen (node_at v c) \<and> nContentHash (node_at v' c) = nContentHash (node_at v c)) \<and>
    nLoaded (node_at v' p)"
proof -
  let ?v = "v\<lparr>vOnline := True\<rparr>"
  obtain opts es where ans: "vList E opts = Answer (Some es)"
    and v': "v' = (let (seen, v1) = populate_entries E p es [] ?v in
       upd_node p (\<lambda>n. n\<lparr>nLoaded := True\<rparr>) (drop_unseen p seen (nChildren (node_at v1 p)) v1))"
    using assms(3) by (auto simp: populateDir_def Let_def split: answer.splits option.splits prod.splits)
  obtain seen v1 where pop: "populate_entries E p es [] ?v = (seen, v1)" by fastforce
  have wf: "vfs_wf ?v" "p < length (heap ?v)" using assms(1,2) wf_shape [of ?v v] by auto
  have at: "node_at ?v b = node_at v b" "GetChild b name ?v = GetChild b name v" for b name by (simp_all add: node_at_def GetChild_def)
  note pe = populate_entries_names [OF wf, of E es "[]", unfolded pop fst_conv snd_conv]
  have p1: "vfs_wf v1" "p < length (heap v1)"
    using populate_entries_wf [OF wf(1), of E p es "[]"] pop wf(2) by auto
  let ?v2 = "drop_unseen p seen (nChildren (node_at v1 p)) v1"
  note dr = drop_unseen_children [OF p1(2), of seen "nChildren (node_at v1 p)"]
  have v'2: "v' = upd_node p (\<lambda>n. n\<lparr>nLoaded := True\<rparr>) ?v2" using v' pop by simp
  have len2: "p < length (heap ?v2)" using drop_unseen_wf [OF p1(1)] p1(2) by simp
  have get: "GetChild p k v' = (case GetChild p k v1 of Some c \<Rightarrow> if k \<notin> set seen \<and> \<not> nDirty (node_at v1 c) then None else Some c | None \<Rightarrow> None)" for k
    using map_of_drop [OF wf_distinct [OF p1], where al = "nChildren (node_at v1 p)" and k = k
        and P = "\<lambda>name c. name \<notin> set seen \<and> \<not> nDirty (node_at v1 c)"] dr len2
    by (simp add: GetChild_def v'2 node_at_upd_if split: option.splits)
  have seen: "set seen = listed_names E es" and names1: "child_names p v1 = child_names p v \<union> listed_names E es"
    and kept: "\<And>k c. GetChild p k v = Some c \<Longrightarrow> GetChild p k v1 = Some c" and ed1: "edits_same ?v v1"
    using pe by (auto simp: at child_names_def)
  have old: "c < length (heap v)" if "GetChild p k v = Some c" for k c by (rule GetChild_wf [OF assms(1,2) that])
  have ed2: "edits_same ?v v'" using edits_same_trans [OF ed1 conjunct2 [OF dr]] by (simp add: v'2 edits_same_upd)
  have dirty1: "nDirty (node_at v1 c) = nDirty (node_at v c)" if "GetChild p k v = Some c" for k c
    using ed1 old [OF that] by (simp add: edits_same_def at)
  have "k \<in> child_names p v' \<longleftrightarrow> k \<in> listed_names E es \<or> (\<exists>c. GetChild p k v = Some c \<and> nDirty (node_at v c))" for k
  proof (cases "GetChild p k v")
    case None
    then have "(\<exists>c. GetChild p k v1 = Some c) \<longleftrightarrow> k \<in> listed_names E es"
      using names1 by (auto simp: GetChild_names set_eq_iff)
    then show ?thesis using None by (auto simp: GetChild_names get seen split: option.splits)
  next
    case (Some c)
    then show ?thesis using kept [OF Some] dirty1 [OF Some] by (simp add: GetChild_names get seen)
  qed
  then have names: "child_names p v' = listed_names E es \<union> {name. \<exists>c. GetChild p name v = Some c \<and> nDirty (node_at v c)}"
    by blast
  have edited: "GetChild p k v' = Some c \<and> nDirty (node_at v' c) \<and> nData (node_at v' c) = nData (node_at v c) \<and>
      nWriteGen (node_at v' c) = nWriteGen (node_at v c) \<and> nContentHash (node_at v' c) = nContentHash (node_at v c)"
    if "GetChild p k v = Some c \<and> nDirty (node_at v c)" for k c
    using that kept [of k c] dirty1 [of k c] old [of k c] ed2 by (simp add: get edits_same_def at)
  have loaded: "nLoaded (node_at v' p)" using len2 by (simp add: v'2 node_at_upd_if)
  show ?thesis
    by (rule exI [of _ opts], rule exI [of _ es], intro conjI ballI allI impI ans names loaded)
       (use listed_names_safe edited in \<open>blast+\<close>)
qed

section \<open>Opening\<close>

text \<open>Eviction clears only nodes that are neither open nor dirty.\<close>

lemma fold_evictClear_keeps:
  assumes "\<forall>i \<in> set is. \<not> evictInUse v0 i" "nOpenCount (node_at v0 a) > 0 \<or> nDirty (node_at v0 a)"
    and "nodesByID v = nodesByID v0"
  shows "node_at (fold evictClear is v) a = node_at v a"
  using assms
proof (induction "is" arbitrary: v)
  case (Cons i js)
  have "nodesByID v0 i \<noteq> Some a" using Cons.prems by (auto simp: evictInUse_def NodeByID_def)
  then have "node_at (evictClear i v) a = node_at v a"
    using Cons.prems(3) by (auto simp: evictClear_def NodeByID_def node_at_upd_if split: option.splits)
  then show ?case using Cons by simp
qed simp

lemma run_evictor_keeps:
  assumes "db_ok (vDb v)" "nOpenCount (node_at v a) > 0 \<or> nDirty (node_at v a)"
  shows "node_at (run_evictor E v) a = node_at v a"
proof -
  let ?e = "\<lparr>evDb = vDb v, evStore = Some (vStore v), evicted = []\<rparr>"
  obtain r e' where run: "RunIfNeeded (vMaxSize E) (vTarget E) (evictInUse v) ?e = (r, e')" by fastforce
  have "protected_kept (evictInUse v) ?e e'"
    by (rule protect.rel_RunIfNeeded [OF run]) (simp add: ev_ok_def assms(1))
  then have "\<forall>i \<in> set (evicted e'). \<not> evictInUse v i" by (auto simp: protected_kept_def)
  then show ?thesis
    using run fold_evictClear_keeps [of "evicted e'" v a] assms(2) by (simp add: run_evictor_def Let_def) (simp add: node_at_def)
qed

lemma settle_node [simp]: "node_at (settleDownloadFailure E a err v) b = node_at v b"
  by (auto simp: settleDownloadFailure_def Let_def split: option.split)

lemma download_node:
  assumes "db_ok (vDb v)" "a < length (heap v)" "nOpenCount (node_at v a) > 0" "downloadAndCache E a v = (err, v')"
  shows "nOpenCount (node_at v' a) = nOpenCount (node_at v a) \<and> nDirty (node_at v' a) = nDirty (node_at v a) \<and>
     (err = None \<longrightarrow> nCached (node_at v' a)) \<and> a < length (heap v') \<and>
     (\<forall>b. b \<noteq> a \<and> (nOpenCount (node_at v b) > 0 \<or> nDirty (node_at v b)) \<longrightarrow> node_at v' b = node_at v b)"
proof (cases "vFetch E (nRemotePath (node_at v a))")
  case fetch: (Inr x)
  obtain pt sk em where x: "x = (pt, sk, em)" by (cases x)
  obtain pr s where put: "Put (vPrims E) (vNow E) (vTmpName E) (vNonces E) pt (vStore v) = (pr, s)" by fastforce
  show ?thesis
  proof (cases pr)
    case (Inl e)
    then have "err \<noteq> None" "v' = v\<lparr>vStore := s\<rparr>" using assms(4) put by (auto simp: downloadAndCache_def fetch x)
    then show ?thesis using assms(2) by (auto simp: node_at_def)
  next
    case (Inr hash)
    define v1 where "v1 = upd_node a (\<lambda>n. n\<lparr>nContentHash := hash, nCached := True, nSize := int (length pt),
        nSealedKey := sk, nEncMeta := em\<rparr>) (v\<lparr>vStore := s\<rparr>)"
    define v3 where "v3 = with_db (SetInodeSize (nID (node_at v1 a)) (int (length pt)))
        (with_db (MarkCached (vNow E) (nID (node_at v1 a)) hash) v1)"
    have run: "err = None" "v' = run_evictor E v3"
      using assms(4) put Inr by (simp_all add: downloadAndCache_def fetch x v3_def v1_def Let_def)
    have ok: "db_ok (vDb v3)"
      by (rule reaches_db_ok [OF _ assms(1), of edit_call]) (simp add: v3_def v1_def edits_stmt)
    have n3: "node_at v3 b = (if b = a then (node_at v a)\<lparr>nContentHash := hash, nCached := True, nSize := int (length pt),
        nSealedKey := sk, nEncMeta := em\<rparr> else node_at v b)" for b
      using assms(2) by (simp add: v3_def v1_def node_at_upd_if) (simp add: node_at_def)
    have len: "length (heap v') = length (heap v)"
      using shape_length [OF shape_run_evictor] by (simp add: run v3_def v1_def)
    show ?thesis
      using run_evictor_keeps [OF ok] assms(2,3) len by (auto simp: run n3)
  qed
qed (use assms in \<open>auto simp: downloadAndCache_def\<close>)

text \<open>
  Opening. An open that succeeds adds one handle and leaves the file readable from the cache or
  from its buffer (an eviction the download triggers cannot take it away again); one that must wait
  holds its handle and resumes later; one that fails leaves the handle count as it was. Files that are
  open or edited are not changed by an eviction the download triggers.
\<close>

theorem Open_outcome:
  assumes "db_ok (vDb v)" "a < length (heap v)" "0 \<le> nOpenCount (node_at v a)" "Open E a v = (r, v')"
  shows "(case r of
        Opened \<Rightarrow> nOpenCount (node_at v' a) = nOpenCount (node_at v a) + 1 \<and> (nCached (node_at v' a) \<or> nDirty (node_at v' a))
      | MustWait \<Rightarrow> nOpenCount (node_at v' a) = nOpenCount (node_at v a) + 1 \<and> nDownloading (node_at v' a)
      | OpenFailed e \<Rightarrow> nOpenCount (node_at v' a) = nOpenCount (node_at v a) \<and> \<not> nDownloading (node_at v' a)
      | MustDownload \<Rightarrow> False) \<and>
    (\<forall>b. b \<noteq> a \<and> (nOpenCount (node_at v b) > 0 \<or> nDirty (node_at v b)) \<longrightarrow> node_at v' b = node_at v b)"
proof -
  obtain r1 v1 where en: "open_enter E a v = (r1, v1)" by fastforce
  have db1: "db_ok (vDb v1)" using open_enter_edits [OF en] reaches_db_ok assms(1) by blast
  have e1: "a < length (heap v1) \<and> nOpenCount (node_at v1 a) = nOpenCount (node_at v a) + 1 \<and> (\<forall>b. b \<noteq> a \<longrightarrow> node_at v1 b = node_at v b) \<and>
      (r1 = Opened \<and> (nCached (node_at v1 a) \<or> nDirty (node_at v1 a)) \<or> r1 = MustWait \<and> nDownloading (node_at v1 a) \<or> r1 = MustDownload)"
    using en assms(2) by (auto simp: open_enter_def Let_def node_at_upd_if split: if_splits)
  show ?thesis
  proof (cases "r1 = MustDownload")
    case False
    then show ?thesis using assms(4) en e1 by (cases r1) (auto simp: Open_def)
  next
    case True
    then have od: "open_download E a v1 = (r, v')" using assms(4) en by (simp add: Open_def)
    show ?thesis
    proof (cases "downloadFailureBarrier E a v1")
      case (Some e)
      then show ?thesis using od e1 by (auto simp: open_download_def finishDownload_def node_at_upd_if)
    next
      case None
      obtain err v2 where dl: "downloadAndCache E a v1 = (err, v2)" by fastforce
      note d = download_node [OF db1 conjunct1 [OF e1] _ dl]
      have len: "length (heap (settleDownloadFailure E a e v2)) = length (heap v2)" for e
        by (auto simp: settleDownloadFailure_def Let_def split: option.split)
      have res: "r = (case err of None \<Rightarrow> Opened | Some e \<Rightarrow> OpenFailed (DownloadText e))"
        "v' = finishDownload a err (settleDownloadFailure E a err v2)"
        using od None dl by (auto simp: open_download_def)
      have d2: "nOpenCount (node_at v2 a) = nOpenCount (node_at v a) + 1" "err = None \<Longrightarrow> nCached (node_at v2 a)"
        "a < length (heap v2)" "\<And>b. b \<noteq> a \<Longrightarrow> nOpenCount (node_at v b) > 0 \<or> nDirty (node_at v b) \<Longrightarrow> node_at v2 b = node_at v b"
        using d e1 assms(3) by auto
      show ?thesis
        by (cases err) (simp_all add: res finishDownload_def node_at_upd_if len d2)
    qed
  qed
qed

section \<open>Deviations\<close>

text \<open>
  Renaming a directory gives every file below it a new row and with it a new inode id, but leaves the
  write-back queue alone: the queued upload of an edited file stays under the old id, and none is
  queued under the new one.
\<close>

lemma directory_rename_orphans_uploads:
  assumes "c < length (heap v)" "\<not> sqlFails (vDb v) OpDeleteInode" "\<not> sqlFails (vDb v) OpUpsertInode"
    and "\<forall>r \<in> set (inodes (vDb v)). iRemotePath r \<noteq> newPath" "\<forall>e \<in> set (wbqueue (vDb v)). wInodeID e < nextInode (vDb v)"
  shows "nID (node_at (rewrite_node c dir newPath v) c) = nextInode (vDb v) \<and>
    nDirty (node_at (rewrite_node c dir newPath v) c) = nDirty (node_at v c) \<and>
    wbqueue (vDb (rewrite_node c dir newPath v)) = wbqueue (vDb v) \<and>
    (\<forall>e \<in> set (wbqueue (vDb (rewrite_node c dir newPath v))). wInodeID e \<noteq> nID (node_at (rewrite_node c dir newPath v) c))"
proof -
  let ?d = "snd (DeleteInode (nRemotePath (node_at v c)) (vDb v))"
  have d: "\<not> sqlFails ?d OpUpsertInode" "\<forall>r \<in> set (inodes ?d). iRemotePath r \<noteq> newPath" "nextInode ?d = nextInode (vDb v)"
    "wbqueue ?d = wbqueue (vDb v)"
    using assms(2-4) by (auto simp: DeleteInode_def exec_def sql_delete_def)
  have none: "find (\<lambda>r. iRemotePath r = newPath) (inodes ?d) = None" using d(2) by (simp add: find_None_iff)
  have up: "fst (UpsertInode x ?d) = Inr (nextInode (vDb v))" "wbqueue (snd (UpsertInode x ?d)) = wbqueue (vDb v)"
    if "iRemotePath x = newPath" for x
    using that d none by (simp_all add: UpsertInode_def Let_def)
  have path: "iRemotePath (nodeToInode n i) = nRemotePath n" for n i by (simp add: nodeToInode_def)
  show ?thesis
    using assms(1,5) by (auto simp: rewrite_node_def rehome_def Let_def node_at_upd_if node_at_db case_prod_beta up path)
qed

text \<open>A listing that finds an edited file unchanged on the server still sets the node's size to the
  server's, although the buffer holds another content.\<close>

lemma listing_overwrites_edited_size:
  assumes "a < length (heap v)" "nDirty (node_at v a)" "nEtag (node_at v a) = eETag entry" "ePlaintextSize entry = Some sz"
  shows "nSize (node_at (refresh_child a entry v) a) = sz \<and> nData (node_at (refresh_child a entry v) a) = nData (node_at v a)"
  using assms by (auto simp: refresh_child_def Let_def node_at_upd_if split: option.split)

text \<open>A file the server has (it carries a version), edited and not yet uploaded again, is renamed
  without telling the server: whatever the server would answer, the outcome is the same.\<close>

lemma rename_of_edited_file_is_local:
  assumes "GetChild p name v = Some c" "\<not> nIsDir (node_at v c)" "nSyncStatus (node_at v c) = StatusPending"
    and "\<not> vReadOnly v" "IsSafeName (vPlatformName E) name'" "validNameRegex name'"
  shows "RenameNode (E\<lparr>vExecute := f\<rparr>) p name q name' v = RenameNode (E\<lparr>vExecute := g\<rparr>) p name q name' v \<and>
    (\<exists>v'. RenameNode E p name q name' v = Some (None, v'))"
  using assms by (simp add: RenameNode_def uploaded_status_def renameLocalOnlyFile_def enqueue_upload_def Let_def)

section \<open>Witnesses\<close>

lemma sample_vfs_wf: "vfs_wf sample_vfs"
proof -
  have "node_at sample_vfs a = (if a = 0 then (NewRootNode 0 [])\<lparr>nChildren := [(''a.txt'', 1)], nLoaded := True\<rparr> else sample_node)"
    if "a < 2" for a
    using that by (auto simp: node_at_def sample_vfs_def less_2_cases_iff)
  moreover have "length (heap sample_vfs) = 2" "nodesByID sample_vfs = [1 \<mapsto> 1]" by (simp_all add: sample_vfs_def)
  ultimately show ?thesis
    by (auto simp: vfs_wf_def rootAddr_def sample_node_def NewFileNode_def zero_node_def)
qed

theorem reachable_vfs_wf_witness:
  "vfs_wf (vfs_op (sample_venv, RReaddir 0) (newVFS 5 ''/'' sample_db sample_store))"
proof -
  let ?v = "newVFS 5 ''/'' sample_db sample_store"
  have "vfs_reach ?v (vfs_op (sample_venv, RReaddir 0) ?v)"
    by (rule vfs_reach.request [OF vfs_reach.start]) (simp add: newVFS_def)
  from reachable_vfs_wf [OF this] show ?thesis by blast
qed

theorem populateDir_exact_witness:
  "\<exists>v'. populateDir sample_venv 0 sample_vfs = (None, v') \<and> child_names 0 v' = {''a.txt''}"
proof -
  obtain v' where run: "populateDir sample_venv 0 sample_vfs = (None, v')"
    by (simp add: populateDir_def Let_def case_prod_beta sample_venv_def)
  have "GetChild 0 name sample_vfs = (if name = ''a.txt'' then Some 1 else None)" for name
    by (simp add: GetChild_def node_at_def sample_vfs_def)
  moreover have "nDirty (node_at sample_vfs 1)" by (simp add: node_at_def sample_vfs_def sample_node_def)
  moreover have "vList sample_venv opts = Answer (Some es) \<Longrightarrow> listed_names sample_venv es = {}" for opts es
    by (simp add: sample_venv_def)
  ultimately show ?thesis
    using populateDir_exact [OF sample_vfs_wf _ run] run by (auto simp: sample_node_at split: if_splits)
qed

theorem Open_outcome_witness:
  "\<exists>r v'. Open sample_venv 1 sample_vfs = (r, v') \<and> r = Opened \<and> nOpenCount (node_at v' 1) = 1"
proof -
  have n: "nOpenCount (node_at sample_vfs 1) = 0" "nDirty (node_at sample_vfs 1)"
    by (simp_all add: sample_node_at sample_node_def NewFileNode_def zero_node_def del: One_nat_def)
  obtain r v' where run: "Open sample_venv 1 sample_vfs = (r, v')" by fastforce
  have "r = Opened"
    using run n by (auto simp: Open_def open_enter_def Let_def node_at_upd_if sample_node_at simp del: One_nat_def split: if_splits)
  then show ?thesis
    using Open_outcome [OF _ _ _ run] run n sample_db_ok by (auto simp: sample_node_at simp del: One_nat_def)
qed

end
