(* ===== verification/LocalPath.thy ===== *)
theory LocalPath
  imports Names
begin

text \<open>
  Paths of the local sync folder: \<open>internal/mount/syncer/local_path.go\<close> with the Unix and the Windows
  link test, and \<open>WritebackProcessor.localPath\<close> of \<open>writeback.go\<close>. The separator is the slash
  (Unix); the file system's answer to \<open>Lstat\<close> is a parameter.
\<close>

section \<open>Relative paths\<close>

definition path_segs :: "string \<Rightarrow> string list" where
  "path_segs p = clean_segs (HasPrefix p ''/'') [] (split_slash p)"

fun drop_common :: "string list \<Rightarrow> string list \<Rightarrow> string list \<times> string list" where
  "drop_common (b # bs) (t # ts) = (if b = t then drop_common bs ts else (b # bs, t # ts))"
| "drop_common bs ts = (bs, ts)"

text \<open>\<open>filepath.Rel\<close>, on the segments of the cleaned paths; a cleaned empty target is a dot.\<close>

definition filepath_Rel :: "string \<Rightarrow> string \<Rightarrow> string option" where
  "filepath_Rel base targ =
     (if path_Clean base = path_Clean targ then Some ''.''
      else if HasPrefix base ''/'' \<noteq> HasPrefix targ ''/'' then None
      else
        let ts = path_segs targ;
            (bs', ts') = drop_common (path_segs base) (if ts = [] \<and> \<not> HasPrefix targ ''/'' then [''.''] else ts)
        in if bs' \<noteq> [] \<and> hd bs' = ''..'' \<and> ts' \<noteq> [] then None
           else Some (join_slash (replicate (length bs') ''..'' @ ts')))"

datatype lstat = LNotExist | LFails | LInfo (lSymlink: bool) (lReparse: "bool option")

text \<open>The link test of the two platforms: on Windows a reparse point counts too, where the system
  information has attributes.\<close>

definition isLocalLinkUnix :: "lstat \<Rightarrow> bool" where
  "isLocalLinkUnix info = lSymlink info"

definition isLocalLinkWindows :: "lstat \<Rightarrow> bool" where
  "isLocalLinkWindows info \<longleftrightarrow> lSymlink info \<or> lReparse info = Some True"

fun walk_parts :: "(lstat \<Rightarrow> bool) \<Rightarrow> (string \<Rightarrow> lstat) \<Rightarrow> string \<Rightarrow> string list \<Rightarrow> bool" where
  "walk_parts isLink lst current [] = True"
| "walk_parts isLink lst current (part # parts) =
     (let cur = (if part \<noteq> [] then path_Join current part else current) in
      case lst cur of
        LNotExist \<Rightarrow> True
      | LFails \<Rightarrow> False
      | info \<Rightarrow> if isLink info then False else walk_parts isLink lst cur parts)"

definition safeSyncPath :: "(lstat \<Rightarrow> bool) \<Rightarrow> (string \<Rightarrow> lstat) \<Rightarrow> string \<Rightarrow> string \<Rightarrow> bool" where
  "safeSyncPath isLink lst root localPath =
     (case filepath_Rel root localPath of
        None \<Rightarrow> False
      | Some rel \<Rightarrow>
          if rel = ''..'' \<or> HasPrefix rel ''../'' then False
          else walk_parts isLink lst root ([] # split_slash rel))"

definition localPath :: "(lstat \<Rightarrow> bool) \<Rightarrow> (string \<Rightarrow> lstat) \<Rightarrow> string \<Rightarrow> string \<Rightarrow> string \<Rightarrow> string option" where
  "localPath isLink lst syncDir remoteBase remotePath =
     (if syncDir = [] \<or> remotePath = [] then None
      else
        let rel = (if remoteBase \<noteq> [] then TrimPrefix remotePath (remoteBase @ ''/'') else remotePath);
            p = path_Join syncDir rel
        in if \<not> safeSyncPath isLink lst syncDir p then None else Some p)"

section \<open>Containment\<close>

lemma drop_common_split: "drop_common bs ts = (bs', ts') \<Longrightarrow> \<exists>cs. bs = cs @ bs' \<and> ts = cs @ ts'"
proof (induction bs ts rule: drop_common.induct)
  case (1 b bs t ts)
  show ?case
  proof (cases "b = t")
    case True
    then obtain cs where "bs = cs @ bs'" "ts = cs @ ts'" using 1 by auto
    then show ?thesis using True by (intro exI [of _ "b # cs"]) simp
  qed (use 1 in auto)
qed auto

lemma set_clean_segs: "set (clean_segs r st ss) \<subseteq> set st \<union> set ss"
proof (induction r st ss rule: clean_segs.induct)
  case (2 rooted st s ss)
  show ?case
  proof (cases "s = [] \<or> s = ''.''")
    case True
    then show ?thesis using 2(1) by auto
  next
    case plain: False
    show ?thesis
    proof (cases "s = ''..''")
      case True
      then show ?thesis using 2(2-4) plain by (cases st) (auto split: if_splits)
    next
      case False
      then show ?thesis using 2(5) plain by auto
    qed
  qed
qed simp

lemma path_segs_no_slash: "s \<in> set (path_segs p) \<Longrightarrow> CHR ''/'' \<notin> set s"
  using set_clean_segs [of "HasPrefix p ''/''" "[]" "split_slash p"] set_split_slash_no_slash
  by (auto simp: path_segs_def)

lemma join_dotdot: "HasPrefix (join_slash (''..'' # ss)) ''../'' \<or> join_slash (''..'' # ss) = ''..''"
  by (cases ss) (auto simp: HasPrefix_def)

text \<open>The components the walk visits below the root.\<close>

definition component :: "string \<Rightarrow> string list \<Rightarrow> nat \<Rightarrow> string" where
  "component root rs k = foldl path_Join root (take k rs)"

lemma walk_parts_checked:
  assumes "walk_parts isLink lst current parts" "[] \<notin> set parts" "k \<le> length parts" "0 < k"
    and "\<forall>j < k. 0 < j \<longrightarrow> lst (component current parts j) \<noteq> LNotExist"
  shows "lst (component current parts k) = LNotExist \<or>
    lst (component current parts k) \<noteq> LFails \<and> \<not> isLink (lst (component current parts k))"
  using assms
proof (induction isLink lst current parts arbitrary: k rule: walk_parts.induct)
  case (2 isLink lst current part parts)
  let ?cur = "path_Join current part"
  have comp: "component current (part # parts) (Suc j) = component ?cur parts j" for j by (simp add: component_def)
  obtain j where k: "k = Suc j" using 2(5) by (cases k) auto
  show ?case
  proof (cases j)
    case 0
    then have "component current (part # parts) k = ?cur" by (simp add: k comp) (simp add: component_def)
    then show ?thesis using 2(2,3) by (auto simp: Let_def split: lstat.splits if_splits)
  next
    case (Suc i)
    have "component current (part # parts) 1 = ?cur" by (simp add: component_def)
    then have "lst ?cur \<noteq> LNotExist" using 2(6) Suc k by (metis One_nat_def Suc_less_eq zero_less_Suc)
    then obtain x y where info: "lst ?cur = LInfo x y" "\<not> isLink (LInfo x y)" "walk_parts isLink lst ?cur parts"
      using 2(2,3) by (auto simp: Let_def split: lstat.splits if_splits)
    have later: "\<forall>i < j. 0 < i \<longrightarrow> lst (component ?cur parts i) \<noteq> LNotExist"
      using 2(6) by (auto simp: k comp [symmetric])
    have len: "j \<le> length parts" using 2(4) k by simp
    show ?thesis
      unfolding k comp
      by (rule 2(1) [of ?cur x y]) (use 2(3) info later len Suc in \<open>auto\<close>)
  qed
qed simp

text \<open>
  A path the sync folder accepts stays inside it. If \<open>safeSyncPath\<close> accepts a path, its cleaned
  segments are those of the root followed by others, none of which climbs up; and going down from the
  root along them, every component is either absent (and then nothing below it exists) or can be
  examined and is not a link, so that no symbolic link or reparse point redirects the access.
\<close>

theorem safeSyncPath_contained:
  assumes "safeSyncPath isLink lst root p" "path_Clean root \<noteq> path_Clean p" "path_segs p \<noteq> [] \<or> HasPrefix p ''/''"
  shows "\<exists>rs. path_segs p = path_segs root @ rs \<and> rs \<noteq> [] \<and>
    (lst root = LNotExist \<or> (lst root \<noteq> LFails \<and> \<not> isLink (lst root) \<and>
      (\<forall>k \<le> length rs. 0 < k \<longrightarrow> (\<forall>j < k. 0 < j \<longrightarrow> lst (component root rs j) \<noteq> LNotExist) \<longrightarrow>
        lst (component root rs k) = LNotExist \<or> lst (component root rs k) \<noteq> LFails \<and> \<not> isLink (lst (component root rs k)))))"
proof -
  obtain bs' ts' where dc: "drop_common (path_segs root) (path_segs p) = (bs', ts')" by fastforce
  have ps: "(if path_segs p = [] \<and> \<not> HasPrefix p ''/'' then [''.''] else path_segs p) = path_segs p" using assms(3) by auto
  have rel: "filepath_Rel root p = Some (join_slash (replicate (length bs') ''..'' @ ts'))"
    and acc: "\<not> (join_slash (replicate (length bs') ''..'' @ ts') = ''..'' \<or> HasPrefix (join_slash (replicate (length bs') ''..'' @ ts')) ''../'')"
    and walk: "walk_parts isLink lst root ([] # split_slash (join_slash (replicate (length bs') ''..'' @ ts')))"
    using assms(1,2) by (auto simp: safeSyncPath_def filepath_Rel_def Let_def ps dc simp del: walk_parts.simps split: if_splits)
  have bs: "bs' = []"
  proof (rule ccontr)
    assume "bs' \<noteq> []"
    then obtain ss where "replicate (length bs') ''..'' @ ts' = ''..'' # ss" by (cases bs') auto
    with acc join_dotdot [of ss] show False by auto
  qed
  have split: "path_segs p = path_segs root @ ts'" using drop_common_split [OF dc] bs by auto
  have ne: "ts' \<noteq> []"
  proof
    assume "ts' = []"
    then have "path_segs p = path_segs root" using split by simp
    moreover have "HasPrefix root ''/'' = HasPrefix p ''/''"
      using rel assms(2) by (auto simp: filepath_Rel_def split: if_splits)
    ultimately have "path_Clean root = path_Clean p"
      by (cases "HasPrefix p ''/''") (simp_all add: path_Clean_def path_segs_def Let_def)
    with assms(2) show False by simp
  qed
  have no: "\<forall>s \<in> set ts'. CHR ''/'' \<notin> set s" "[] \<notin> set ts'"
    using path_segs_no_slash [of _ p] clean_segs_nonempty [of "[]"] by (auto simp: split path_segs_def [of p, symmetric]) (metis Un_iff path_segs_def set_append split emptyE list.set(1))
  have parts: "walk_parts isLink lst root ([] # ts')" using walk bs split_join_slash [OF ne no(1)] by simp
  have "lst root = LNotExist \<or> lst root \<noteq> LFails \<and> \<not> isLink (lst root) \<and> walk_parts isLink lst root ts'"
    using parts by (auto simp: Let_def split: lstat.splits if_splits)
  then show ?thesis
    using walk_parts_checked [OF _ no(2)] split ne by blast
qed

text \<open>On a file system without links, the folder's own file is accepted.\<close>

definition flat_lstat :: "string \<Rightarrow> lstat" where
  "flat_lstat p = (if p = ''/s'' then LInfo False None else if p = ''/s/a'' then LInfo False None else LNotExist)"

theorem safeSyncPath_contained_witness:
  "\<exists>rs. path_segs ''/s/a'' = path_segs ''/s'' @ rs \<and> rs \<noteq> []"
proof -
  have "safeSyncPath isLocalLinkUnix flat_lstat ''/s'' ''/s/a''" "path_Clean ''/s'' \<noteq> path_Clean ''/s/a''" "path_segs ''/s/a'' \<noteq> []"
    by code_simp+
  then show ?thesis using safeSyncPath_contained [of isLocalLinkUnix flat_lstat "''/s''" "''/s/a''"] by blast
qed

end
