(* ===== verification/ApiErrors.thy ===== *)
theory ApiErrors
  imports CacheLaws
begin

text \<open>
  Classification of request errors and retry delays: \<open>internal/api/errors.go\<close>,
  \<open>internal/mount/syncer/failures.go\<close> and the error wrappers of
  \<open>internal/mount/cache/failures.go\<close>. Durations are 64-bit counts of nanoseconds, so products may
  wrap around.
\<close>

section \<open>Errors\<close>

datatype ErrorKind = KindPermanent | KindTransient | KindRateLimited

record RequestError =
  reKind :: ErrorKind
  reStatus :: int
  reRetryAfter :: "64 word"

text \<open>What the callers read off an error chain: its text, the first \<open>RequestError\<close> in it, the code
  of the first \<open>APIError\<close>, whether it is wrapped as permanent or as a stale scanner seal, and the
  transport conditions.\<close>

record api_err =
  aeText :: string
  aeRequest :: "RequestError option"
  aeCode :: "string option"
  aePermanentWrap :: bool
  aeStaleSeal :: bool
  aeCanceled :: bool
  aeTimeout :: bool
  aeReset :: bool

definition plain_api_err :: "string \<Rightarrow> api_err" where
  "plain_api_err t = \<lparr>aeText = t, aeRequest = None, aeCode = None, aePermanentWrap = False, aeStaleSeal = False,
     aeCanceled = False, aeTimeout = False, aeReset = False\<rparr>"

text \<open>\<open>fmt.Errorf("prefix: %w", err)\<close>.\<close>

definition wrap_err :: "string \<Rightarrow> api_err \<Rightarrow> api_err" where
  "wrap_err what e = e\<lparr>aeText := what @ '': '' @ aeText e\<rparr>"

definition has_kind :: "ErrorKind \<Rightarrow> api_err \<Rightarrow> bool" where
  "has_kind k e = (case aeRequest e of Some r \<Rightarrow> reKind r = k | None \<Rightarrow> False)"

definition IsRateLimited :: "api_err \<Rightarrow> bool" where "IsRateLimited = has_kind KindRateLimited"
definition IsTransient :: "api_err \<Rightarrow> bool" where "IsTransient = has_kind KindTransient"
definition IsPermanentRequest :: "api_err \<Rightarrow> bool" where "IsPermanentRequest = has_kind KindPermanent"

definition RetryAfterHint :: "api_err \<Rightarrow> 64 word" where
  "RetryAfterHint e = (case aeRequest e of Some r \<Rightarrow> reRetryAfter r | None \<Rightarrow> 0)"

definition permanent :: "api_err \<Rightarrow> api_err" where "permanent e = e\<lparr>aePermanentWrap := True\<rparr>"
definition isPermanent :: "api_err \<Rightarrow> bool" where "isPermanent e = aePermanentWrap e"

section \<open>Delays\<close>

definition second :: "64 word" where "second = 1000000000"
definition MaxRateLimitDelay :: "64 word" where "MaxRateLimitDelay = 15 * 60 * second"
definition MaxScanBudgetDelay :: "64 word" where "MaxScanBudgetDelay = 3600 * second"

definition smin :: "64 word \<Rightarrow> 64 word \<Rightarrow> 64 word" where
  "smin a b = (if sint b < sint a then b else a)"

definition RateLimitDelay :: "int \<Rightarrow> 64 word \<Rightarrow> 64 word" where
  "RateLimitDelay attempt hint =
     (if sint hint > 0 then smin hint MaxRateLimitDelay else word_of_int (15 * (attempt + 1)) * second)"

definition ScanBudgetWait :: "api_err \<Rightarrow> 64 word option" where
  "ScanBudgetWait e =
     (if \<not> IsRateLimited e \<or> aeCode e \<noteq> Some ''rate_limited'' then None
      else if sint (RetryAfterHint e) > 0 then Some (smin (RetryAfterHint e) MaxScanBudgetDelay)
      else Some (60 * second))"

definition RateLimitExceedsInlineWait :: "64 word \<Rightarrow> bool" where
  "RateLimitExceedsInlineWait hint \<longleftrightarrow> sint hint > sint MaxRateLimitDelay"

definition classifyStatus :: "int \<Rightarrow> ErrorKind" where
  "classifyStatus statusCode =
     (if statusCode = 429 then KindRateLimited
      else if statusCode \<ge> 500 \<and> statusCode \<noteq> 501 then KindTransient
      else KindPermanent)"

text \<open>\<open>strconv.Atoi\<close> on a 64-bit platform: an optional sign and decimal digits, in range.\<close>

fun digits_value :: "nat \<Rightarrow> string \<Rightarrow> nat option" where
  "digits_value acc [] = Some acc"
| "digits_value acc (c # cs) =
     (let n = (of_char c :: nat) in if 48 \<le> n \<and> n \<le> 57 then digits_value (acc * 10 + (n - 48)) cs else None)"

definition Atoi :: "string \<Rightarrow> int option" where
  "Atoi s =
     (let (neg, ds) = (case s of c # cs \<Rightarrow> if c = CHR ''-'' then (True, cs) else if c = CHR ''+'' then (False, cs) else (False, s)
                       | [] \<Rightarrow> (False, []))
      in if ds = [] then None
         else case digits_value 0 ds of
                None \<Rightarrow> None
              | Some n \<Rightarrow> (let x = (if neg then - int n else int n) in
                          if - (2 ^ 63) \<le> x \<and> x < 2 ^ 63 then Some x else None))"

definition retryAfterHeader :: "string \<Rightarrow> 64 word" where
  "retryAfterHeader v =
     (if v = [] then 0
      else case Atoi v of
             None \<Rightarrow> 0
           | Some secs \<Rightarrow> if secs \<le> 0 then 0 else word_of_int secs * second)"

definition statusError :: "int \<Rightarrow> string \<Rightarrow> api_err \<Rightarrow> api_err" where
  "statusError statusCode retryAfter e =
     e\<lparr>aeRequest := Some \<lparr>reKind = classifyStatus statusCode, reStatus = statusCode, reRetryAfter = retryAfterHeader retryAfter\<rparr>\<rparr>"

definition transportRetryable :: "api_err \<Rightarrow> bool" where
  "transportRetryable e = (if aeCanceled e then False else if aeTimeout e then True else aeReset e)"

definition writebackRetryDelay :: "api_err \<Rightarrow> int \<Rightarrow> 64 word" where
  "writebackRetryDelay e attempts =
     (case ScanBudgetWait e of
        Some wait \<Rightarrow> wait
      | None \<Rightarrow> if IsRateLimited e then RateLimitDelay (attempts - 1) (RetryAfterHint e) else TransferBackoff attempts)"

section \<open>Bounds\<close>

lemma sint_second [simp]: "sint second = 1000000000" "sint MaxRateLimitDelay = 900000000000" "sint MaxScanBudgetDelay = 3600000000000"
  by (simp_all add: second_def MaxRateLimitDelay_def MaxScanBudgetDelay_def)

lemma smin_bounds: "sint (smin a b) \<le> sint a" "sint (smin a b) \<le> sint b" "0 < sint a \<Longrightarrow> 0 < sint b \<Longrightarrow> 0 < sint (smin a b)"
  by (auto simp: smin_def)

lemma RateLimitDelay_bounds:
  assumes "0 \<le> attempt" "attempt \<le> 240"
  shows "0 < sint (RateLimitDelay attempt hint) \<and> sint (RateLimitDelay attempt hint) \<le> 3615 * 1000000000"
proof (cases "sint hint > 0")
  case True
  then show ?thesis using smin_bounds [of hint MaxRateLimitDelay] by (simp add: RateLimitDelay_def)
next
  case False
  let ?n = "15 * (attempt + 1) * 1000000000"
  have "RateLimitDelay attempt hint = word_of_int ?n" using False by (simp add: RateLimitDelay_def second_def)
  moreover have "sint (word_of_int ?n :: 64 word) = ?n" using assms by (simp only: signed_of_int) (simp add: signed_take_bit_int_eq_self)
  ultimately show ?thesis using assms by simp
qed

lemma TransferBackoff_bounds: "0 < sint (TransferBackoff n) \<and> sint (TransferBackoff n) \<le> 3600 * 1000000000"
  by (auto simp: TransferBackoff_def TransferRetryCap_def Let_def)

lemma ScanBudgetWait_bounds: "ScanBudgetWait e = Some w \<Longrightarrow> 0 < sint w \<and> sint w \<le> 3600 * 1000000000"
  using smin_bounds [of "RetryAfterHint e" MaxScanBudgetDelay]
  by (auto simp: ScanBudgetWait_def second_def split: if_splits)

text \<open>
  A failed write-back is never retried at once and never put off for more than about an hour: for
  every error the server or the transport can produce, whatever delay it suggests, the delay before
  the next of the first 240 attempts is positive and at most 3615 seconds; and the request kinds are
  told apart by their status exactly (429 is a rate limit, 5xx but 501 is transient, all others are
  permanent).
\<close>

theorem writebackRetryDelay_bounds:
  assumes "1 \<le> attempts" "attempts \<le> 240"
  shows "0 < sint (writebackRetryDelay e attempts) \<and> sint (writebackRetryDelay e attempts) \<le> 3615 * 1000000000 \<and>
    (aeRequest e = Some \<lparr>reKind = classifyStatus code, reStatus = code, reRetryAfter = retryAfterHeader h\<rparr> \<longrightarrow>
       IsRateLimited e = (code = 429) \<and> IsTransient e = (500 \<le> code \<and> code \<noteq> 501) \<and>
       (IsPermanentRequest e \<longleftrightarrow> \<not> IsRateLimited e \<and> \<not> IsTransient e))"
proof -
  have "0 < sint (writebackRetryDelay e attempts) \<and> sint (writebackRetryDelay e attempts) \<le> 3615 * 1000000000"
    using ScanBudgetWait_bounds [of e] RateLimitDelay_bounds [of "attempts - 1" "RetryAfterHint e"]
      TransferBackoff_bounds [of attempts] assms
    by (auto simp: writebackRetryDelay_def split: option.split)
  moreover have "aeRequest e = Some \<lparr>reKind = classifyStatus code, reStatus = code, reRetryAfter = retryAfterHeader h\<rparr> \<longrightarrow>
       IsRateLimited e = (code = 429) \<and> IsTransient e = (500 \<le> code \<and> code \<noteq> 501) \<and>
       (IsPermanentRequest e \<longleftrightarrow> \<not> IsRateLimited e \<and> \<not> IsTransient e)"
    by (auto simp: IsRateLimited_def IsTransient_def IsPermanentRequest_def has_kind_def classifyStatus_def)
  ultimately show ?thesis by blast
qed

text \<open>A large \<open>Retry-After\<close> wraps around: 18446744074 seconds become less than a third of a second,
  and 9300000000 seconds become a negative duration, which counts as no hint.\<close>

lemma retryAfterHeader_wraps:
  "sint (retryAfterHeader ''18446744074'') = 290448384" "sint (retryAfterHeader ''9300000000'') < 0"
  by (simp_all add: retryAfterHeader_def Atoi_def second_def Let_def)

theorem writebackRetryDelay_bounds_witness:
  "0 < sint (writebackRetryDelay (plain_api_err ''offline'') 2) \<and> sint (writebackRetryDelay (plain_api_err ''offline'') 2) \<le> 3615 * 1000000000"
  using writebackRetryDelay_bounds [of 2 "plain_api_err ''offline''"] by simp

end
