(* ===== verification/Writeback.thy ===== *)
theory Writeback
  imports VfsModel FileCrypt LocalPath ApiErrors
begin

text \<open>
  The write-back processor: \<open>internal/mount/syncer/writeback.go\<close>, with \<open>upload_content.go\<close> and
  \<open>upload_identity.go\<close>. It claims entries of the queue, uploads, creates, removes or renames on the
  server, and settles the outcome in the database and in the node tree.

  The world outside the sources is the record \<open>wenv\<close>: the local file system, the scanner's keys, the
  signature, fresh random values, the server's answers. Local temporary files are taken to work, and
  within one attempt the local file system stands still, so the second link test before encryption
  answers as the first did. An
  upload takes long, and other threads work on the file system meanwhile: \<open>processEntry\<close> takes the
  upload as a function that returns the outcome and the state others have left when it ends.
\<close>

section \<open>Environment\<close>

datatype local_file = FileMissing | FileUnreadable int | FileContent bytes int

definition file_mtime :: "local_file \<Rightarrow> int option" where
  "file_mtime f = (case f of FileMissing \<Rightarrow> None | FileUnreadable m \<Rightarrow> Some m | FileContent bs m \<Rightarrow> Some m)"

record upload_reply =
  rSuccess :: bool
  rMessage :: string
  rETag :: "string option"

record wenv =
  wE :: venv
  wSyncDir :: string
  wRemoteBase :: string
  wIsLink :: "lstat \<Rightarrow> bool"
  wLstat :: "string \<Rightarrow> lstat"
  wFile :: "string \<Rightarrow> local_file"
  wActivity :: bool
  wDataKey :: "bytes option"
  wFileNonce :: bytes
  wKeyRandom :: "bytes \<times> bytes \<times> bytes"
  wTeeRandom :: "bytes \<times> bytes \<times> bytes"
  wMarshalMeta :: "EncryptionMetadata \<Rightarrow> bytes option"
  wSignPub :: "(bytes \<times> bytes) option"
  wSign :: "(bytes \<Rightarrow> string + bytes \<times> bytes) option"
  wTeeKeys :: "PublicKeySet option"
  wTeeDisabled :: bool
  wTeeRefusal :: "string option"
  wTeeStale :: "api_err \<Rightarrow> bool \<times> string option"
  wUploadFile :: "bytes \<Rightarrow> string \<Rightarrow> options \<Rightarrow> api_err + upload_reply option"
  wExecute :: "string \<Rightarrow> options \<Rightarrow> api_err + upload_reply"
  wHybridText :: "hybridError \<Rightarrow> string"
  wFileText :: "fileError \<Rightarrow> string"

record uploadedContent =
  ucDigest :: string
  ucEtag :: string

definition noContent :: uploadedContent where "noContent = \<lparr>ucDigest = [], ucEtag = []\<rparr>"

definition maxRetries :: int where "maxRetries = 3"
definition processBatchSize :: nat where "processBatchSize = 10"
definition debounceDelay :: int where "debounceDelay = 2"

definition wbLocalPath :: "wenv \<Rightarrow> string \<Rightarrow> string option" where
  "wbLocalPath W remotePath = localPath (wIsLink W) (wLstat W) (wSyncDir W) (wRemoteBase W) remotePath"

definition hashLocalFile :: "wenv \<Rightarrow> string \<Rightarrow> string option" where
  "hashLocalFile W p = (case wFile W p of FileContent bs m \<Rightarrow> Some (hash_of (vPrims (wE W)) bs) | _ \<Rightarrow> None)"

section \<open>Uploading\<close>

definition confirmedUploadContent :: "upload_reply option \<Rightarrow> string \<Rightarrow> uploadedContent" where
  "confirmedUploadContent resp digest =
     (let result = \<lparr>ucDigest = digest, ucEtag = []\<rparr> in
      case resp of
        None \<Rightarrow> result
      | Some r \<Rightarrow>
          if \<not> rSuccess r then result
          else case rETag r of
                 None \<Rightarrow> result
               | Some etag \<Rightarrow>
                   (case hex_decode etag of
                      Some decoded \<Rightarrow> if length decoded = 32 then result\<lparr>ucEtag := etag\<rparr> else result
                    | None \<Rightarrow> result))"

definition uploadIdentityKey :: "prims \<Rightarrow> bytes \<Rightarrow> string \<Rightarrow> string \<Rightarrow> string \<Rightarrow> string option" where
  "uploadIdentityKey P nameKey operationKey remotePath plaintextDigest =
     (case hex_decode plaintextDigest of
        None \<Rightarrow> None
      | Some digest \<Rightarrow>
          if length nameKey \<noteq> 32 \<or> operationKey = [] \<or> remotePath = [] \<or> length digest \<noteq> 32 then None
          else Some (hex_encode (pHmac P nameKey
                 (bytes_of_string ''pigcloud-sync-upload-v1'' @ [0] @ bytes_of_string operationKey @ [0] @
                  bytes_of_string remotePath @ [0] @ digest))))"

definition addPathTokensTo :: "venv \<Rightarrow> string \<Rightarrow> options \<Rightarrow> options" where
  "addPathTokensTo E remotePath opts =
     (if remotePath = [] \<or> vNameKey E = [] then opts
      else AddPathTokenOptions (vTokens E) opts (vNameKey E) (PathTokenPaths remotePath PathTokenSelfAndAncestors))"

definition classifyUploadError :: "api_err \<Rightarrow> api_err" where
  "classifyUploadError e =
     (if IsPermanentRequest e then permanent (wrap_err ''upload'' e) else wrap_err ''upload'' e)"

text \<open>The name, path and plaintext an upload starts from; a plaintext file that is there but cannot
  be read is \<open>None\<close>.\<close>

definition upload_source :: "wenv \<Rightarrow> WritebackEntry \<Rightarrow> vfs \<Rightarrow> api_err + string \<times> string \<times> bytes option" where
  "upload_source W entry v =
     (if wSyncDir W \<noteq> [] \<and> wbLocalPath W (wRemotePath entry) = None
      then Inl (permanent (plain_api_err ''upload path leaves the selected sync folder through a link''))
      else
        let n = map_option (node_at v) (NodeByID (wInodeID entry) v);
            name0 = (case n of Some n \<Rightarrow> nName n | None \<Rightarrow> []);
            path0 = (case n of Some n \<Rightarrow> nRemotePath n | None \<Rightarrow> []);
            buf = (case n of Some n \<Rightarrow> if wSyncDir W = [] then nData n else None | None \<Rightarrow> None);
            hash0 = (case n of
                       Some n \<Rightarrow> if wSyncDir W = [] \<and> nData n = None \<and> nCached n then nContentHash n else []
                     | None \<Rightarrow> [])
        in case (if buf = None \<and> hash0 = []
                 then (case GetInode (wInodeID entry) (vDb v) of
                         Inl _ \<Rightarrow> Inl (plain_api_err (''inode '' @ show_int (wInodeID entry) @ '' not found''))
                       | Inr x \<Rightarrow> Inr (if name0 = [] then iDisplayName x else name0,
                                      if path0 = [] then iRemotePath x else path0, iContentHash x))
                 else Inr (name0, path0, hash0)) of
             Inl e \<Rightarrow> Inl e
           | Inr (name, path, hash) \<Rightarrow>
               (case buf of
                  Some data \<Rightarrow> Inr (name, path, Some data)
                | None \<Rightarrow>
                    let live = (case wbLocalPath W path of
                                  None \<Rightarrow> Inl (plain_api_err ''no content to upload'')
                                | Some lp \<Rightarrow>
                                    (case wFile W lp of
                                       FileMissing \<Rightarrow> Inl (plain_api_err ''no content to upload'')
                                     | FileUnreadable m \<Rightarrow> Inr (name, path, None)
                                     | FileContent bs m \<Rightarrow> Inr (name, path, Some bs)))
                    in if hash = [] then live
                       else case WriteTo (vPrims (wE W)) hash None (vStore v) of
                              (data, None) \<Rightarrow> Inr (name, path, Some data)
                            | (_, Some e) \<Rightarrow>
                                if wSyncDir W = [] then Inl (plain_api_err (''read cache: '' @ vErrText (wE W) e)) else live))"

definition upload_dir :: "string \<Rightarrow> string" where
  "upload_dir remotePath =
     (if CHR ''/'' \<in> set remotePath then ''/'' @ butlast (rev (dropWhile (\<lambda>c. c \<noteq> CHR ''/'') (rev remotePath))) else ''/'')"

text \<open>The options that go with the ciphertext.\<close>

definition upload_options ::
  "wenv \<Rightarrow> string \<Rightarrow> string \<Rightarrow> bytes \<Rightarrow> bytes \<Rightarrow> bytes \<times> bytes \<Rightarrow> bytes \<times> bytes \<Rightarrow> bytes option \<Rightarrow> string \<Rightarrow> options" where
  "upload_options W name remotePath sealedKey metaJSON sigs pubs teeSealed sha =
     (let E = wE W; (eph, coins, nonce) = vSealRandom E;
          o1 = [''sealed_key'' \<mapsto> b64_encode sealedKey, ''encryption_meta'' \<mapsto> b64_encode metaJSON, ''_original_name'' \<mapsto> name,
                ''signature_ed25519'' \<mapsto> b64_encode (fst sigs), ''signature_mldsa'' \<mapsto> b64_encode (snd sigs),
                ''signing_pk_ed25519'' \<mapsto> b64_encode (fst pubs), ''signing_pk_mldsa'' \<mapsto> b64_encode (snd pubs)];
          o2 = (case teeSealed of Some s \<Rightarrow> o1(''tee_sealed_key'' \<mapsto> b64_encode s) | None \<Rightarrow> o1);
          o3 = (if vNameKey E \<noteq> [] then
                  (case ComputePlaintextHmac (vPrims E) sha (vNameKey E) of
                     Inr h \<Rightarrow> o2(''plaintext_hmac'' \<mapsto> h) | Inl _ \<Rightarrow> o2)
                else o2);
          o4 = (case SealDisplayName (vPrims E) eph coins nonce name (vPublicKey E) of
                  Inr s \<Rightarrow> o3(''e2ee_display_name'' \<mapsto> b64_encode s) | Inl _ \<Rightarrow> o3);
          o5 = (case ComputePathToken (vTokens E) (vNameKey E) remotePath of
                  Some t \<Rightarrow> o4(''e2ee_path_token'' \<mapsto> hex_encode t) | None \<Rightarrow> o4)
      in addPathTokensTo E remotePath o5)"

text \<open>Sending the ciphertext and reading the server's answer.\<close>

definition send_upload :: "wenv \<Rightarrow> bytes \<Rightarrow> string \<Rightarrow> options \<Rightarrow> string \<Rightarrow> api_err + uploadedContent" where
  "send_upload W ct remotePath opts sha =
     (case wUploadFile W ct (upload_dir remotePath) opts of
        Inl e \<Rightarrow>
          (case (wTeeKeys W, wTeeStale W e) of
             (Some _, (_, Some refusal)) \<Rightarrow> Inl (plain_api_err (''TEE enclave key refused: '' @ refusal))
           | (Some _, (True, None)) \<Rightarrow>
               Inl ((wrap_err ''upload was sealed to a retired scanner key'' (classifyUploadError e))\<lparr>aeStaleSeal := True\<rparr>)
           | _ \<Rightarrow> Inl (classifyUploadError e))
      | Inr resp \<Rightarrow>
          (case resp of
             Some r \<Rightarrow> if rSuccess r then Inr (confirmedUploadContent resp sha)
                       else Inl (plain_api_err (''upload rejected: '' @ (if rMessage r \<noteq> [] then rMessage r else ''unknown error'')))
           | None \<Rightarrow> Inl (plain_api_err ''upload rejected: unknown error'')))"

definition seal_key_for :: "wenv \<Rightarrow> bytes \<times> bytes \<times> bytes \<Rightarrow> string \<Rightarrow> bytes \<Rightarrow> PublicKeySet option \<Rightarrow> api_err + bytes" where
  "seal_key_for W rnd what key recipient =
     (let (eph, coins, nonce) = rnd in
      case SealDataKey (vPrims (wE W)) eph coins nonce key recipient of
        Inl e \<Rightarrow> Inl (plain_api_err (what @ wHybridText W e)) | Inr s \<Rightarrow> Inr s)"

definition tee_seal :: "wenv \<Rightarrow> bytes \<Rightarrow> api_err + bytes option" where
  "tee_seal W dataKey =
     (case wTeeKeys W of
        None \<Rightarrow>
          if \<not> wTeeDisabled W then
            (case wTeeRefusal W of
               Some r \<Rightarrow> Inl (plain_api_err (''TEE enclave key refused: '' @ r))
             | None \<Rightarrow> Inl (plain_api_err ''TEE enclave key unavailable; scanner cannot decrypt the upload''))
          else Inr None
      | Some keys \<Rightarrow>
          (case seal_key_for W (wTeeRandom W) ''seal data key to enclave: '' dataKey (Some keys) of
             Inl e \<Rightarrow> Inl e | Inr s \<Rightarrow> Inr (Some s)))"

definition processUpload :: "wenv \<Rightarrow> WritebackEntry \<Rightarrow> vfs \<Rightarrow> api_err + uploadedContent" where
  "processUpload W entry v =
     (let E = wE W; P = vPrims E in
      case upload_source W entry v of
        Inl e \<Rightarrow> Inl e
      | Inr (name, remotePath, plain) \<Rightarrow>
     (case wDataKey W of
        None \<Rightarrow> Inl (plain_api_err ''generate data key: failed'')
      | Some dataKey \<Rightarrow>
     (case plain of
        None \<Rightarrow> Inl (plain_api_err ''encrypt: unreadable'')
      | Some data \<Rightarrow>
     (case EncryptFile P (wFileNonce W) data dataKey of
        Inl e \<Rightarrow> Inl (plain_api_err (''encrypt: '' @ wFileText W e))
      | Inr (meta, ct) \<Rightarrow>
     (case seal_key_for W (wKeyRandom W) ''seal data key: '' dataKey (vPublicKey E) of
        Inl e \<Rightarrow> Inl e
      | Inr sealedKey \<Rightarrow>
     (case wMarshalMeta W (wire_meta meta) of
        None \<Rightarrow> Inl (plain_api_err ''marshal encryption meta: failed'')
      | Some metaJSON \<Rightarrow>
     (case (wSignPub W, wSign W) of
        (Some pubs, Some sign) \<Rightarrow>
     (case sign ct of
        Inl e \<Rightarrow> Inl (plain_api_err (''sign upload: '' @ e))
      | Inr sigs \<Rightarrow>
     (case tee_seal W dataKey of
        Inl e \<Rightarrow> Inl e
      | Inr teeSealed \<Rightarrow>
          let opts = upload_options W name remotePath sealedKey metaJSON sigs pubs teeSealed (mPlaintextSHA256 meta) in
     (case uploadIdentityKey P (vNameKey E) (UploadKeyFromExtra (wExtraJSON entry)) remotePath (mPlaintextSHA256 meta) of
        None \<Rightarrow> Inl (permanent (plain_api_err ''upload content identity is unavailable; retry this file after unlocking''))
      | Some identity \<Rightarrow>
          send_upload W ct remotePath (opts(''upload_idempotency_key'' \<mapsto> identity)) (mPlaintextSHA256 meta))))
      | _ \<Rightarrow> Inl (plain_api_err ''signing keys unavailable; unlock with 'pc uk' and restart the mount''))))))))"

section \<open>Other actions\<close>

definition server_result :: "string \<Rightarrow> api_err + upload_reply \<Rightarrow> api_err option" where
  "server_result what r =
     (case r of
        Inl e \<Rightarrow> Some (wrap_err what e)
      | Inr resp \<Rightarrow> if rSuccess resp then None else Some (plain_api_err (what @ '': '' @ rMessage resp)))"

definition processMkdir :: "wenv \<Rightarrow> WritebackEntry \<Rightarrow> api_err option" where
  "processMkdir W entry =
     (let E = wE W; p = wRemotePath entry; (eph, coins, nonce) = vSealRandom E;
          o1 = addPathTokensTo E p [''source'' \<mapsto> ''/'' @ p];
          o2 = (case SealDisplayName (vPrims E) eph coins nonce (last_elem p) (vPublicKey E) of
                  Inr s \<Rightarrow> o1(''e2ee_display_name'' \<mapsto> b64_encode s) | Inl _ \<Rightarrow> o1);
          o3 = (case ComputePathToken (vTokens E) (vNameKey E) p of
                  Some t \<Rightarrow> o2(''e2ee_path_token'' \<mapsto> hex_encode t) | None \<Rightarrow> o2)
      in server_result ''mkdir'' (wExecute W ''mk'' o3))"

definition processDelete :: "wenv \<Rightarrow> WritebackEntry \<Rightarrow> api_err option" where
  "processDelete W entry =
     server_result ''delete'' (wExecute W ''rm''
       (addPathTokensTo (wE W) (wRemotePath entry) [''source'' \<mapsto> ''/'' @ wRemotePath entry]))"

definition rename_options :: "wenv \<Rightarrow> string \<Rightarrow> string \<Rightarrow> options" where
  "rename_options W source target =
     addPathTokensTo (wE W) target (addPathTokensTo (wE W) source
       [''source'' \<mapsto> ''/'' @ source, ''target'' \<mapsto> ''/'' @ target])"

definition processRename :: "wenv \<Rightarrow> WritebackEntry \<Rightarrow> api_err option" where
  "processRename W entry =
     (let target = (case wExtraJSON entry of ExtraObject key tgt \<Rightarrow> tgt | _ \<Rightarrow> []) in
      if target = [] then Some (plain_api_err ''rename: missing target'')
      else server_result ''rename'' (wExecute W ''mv'' (rename_options W (wRemotePath entry) target)))"

section \<open>One entry\<close>

text \<open>What the activity callback is told: path, bytes and error.\<close>

type_synonym activity = "string \<times> int \<times> string option"

definition emitUpload :: "wenv \<Rightarrow> WritebackEntry \<Rightarrow> int \<Rightarrow> string option \<Rightarrow> activity list" where
  "emitUpload W entry n err = (if \<not> wActivity W \<or> wAction entry \<noteq> Upload then [] else [(wRemotePath entry, n, err)])"

definition recordUploaded :: "wenv \<Rightarrow> WritebackEntry \<Rightarrow> uploadedContent \<Rightarrow> vfs \<Rightarrow> vfs" where
  "recordUploaded W entry up v =
     (if ucDigest up = [] then v
      else
        let mtime = (case wbLocalPath W (wRemotePath entry) of
                       None \<Rightarrow> 0
                     | Some lp \<Rightarrow> (case file_mtime (wFile W lp) of Some m \<Rightarrow> m | None \<Rightarrow> 0))
        in with_db (SetLocalContentForVersion (wInodeID entry) (ucDigest up) mtime (ucEtag up))
             (with_db (SetRemoteVersion (wInodeID entry) (ucEtag up)) v))"

text \<open>Whether the local file differs from what was uploaded, and whether it is gone.\<close>

definition local_changed :: "wenv \<Rightarrow> WritebackEntry \<Rightarrow> uploadedContent \<Rightarrow> bool \<times> bool" where
  "local_changed W entry up =
     (if wAction entry = Upload \<and> wSyncDir W \<noteq> [] then
        (case wbLocalPath W (wRemotePath entry) of
           None \<Rightarrow> (True, False)
         | Some lp \<Rightarrow> (hashLocalFile W lp \<noteq> Some (ucDigest up), wFile W lp = FileMissing))
      else (False, False))"

definition entry_failed :: "wenv \<Rightarrow> WritebackEntry \<Rightarrow> int \<Rightarrow> api_err \<Rightarrow> vfs \<Rightarrow> activity list \<times> vfs" where
  "entry_failed W entry uploadBytes err v =
     (let attempts = wAttempts entry + 1; i = wInodeID entry; now = vNow (wE W) in
      if attempts \<ge> maxRetries \<or> isPermanent err then
        let v1 = with_db (SetSyncStatus i StatusFailed (aeText err))
                   (with_db (UpdateWriteback (wID entry) WbFailed (aeText err) attempts) v);
            f = \<lparr>fInodeID = i, fKind = FailureUpload, fPermanent = isPermanent err, fAttempts = attempts,
                 fNextRetryAt = (if isPermanent err then 0 else add_delay now (writebackRetryDelay err attempts)),
                 fLastError = aeText err\<rparr>;
            v2 = (if wAction entry = Upload then with_db (RecordSyncFailure f) v1 else v1);
            v3 = (case NodeByID i v2 of
                    Some a \<Rightarrow> upd_node a (\<lambda>n. n\<lparr>nSyncStatus := StatusFailed, nStatusReason := aeText err\<rparr>) v2
                  | None \<Rightarrow> v2)
        in (emitUpload W entry uploadBytes (Some (aeText err)), v3)
      else
        ([], with_db (DeferWriteback (wID entry) (aeText err) attempts (add_delay now (writebackRetryDelay err attempts)))
               (with_db (SetSyncStatus i StatusPending (aeText err)) v)))"

text \<open>A change that came in while the upload ran is queued again.\<close>

definition requeue_changed :: "wenv \<Rightarrow> int \<Rightarrow> string \<Rightarrow> bool \<Rightarrow> vfs \<Rightarrow> bool \<times> vfs" where
  "requeue_changed W i path missing v =
     (let v1 = with_db (MarkDirty i) v;
          (err, d) = EnqueueWriteback (vNewKey (wE W)) (vNow (wE W)) i (if missing then Delete else Upload) path ExtraEmpty (vDb v1);
          v2 = v1\<lparr>vDb := d\<rparr>
      in if err \<noteq> None then (True, with_db (SetSyncStatus i StatusPending ''re-enqueue failed'') v2) else (False, v2))"

definition entry_done :: "wenv \<Rightarrow> WritebackEntry \<Rightarrow> int \<Rightarrow> (addr \<times> 64 word) option \<Rightarrow> uploadedContent \<Rightarrow> vfs \<Rightarrow> activity list \<times> vfs" where
  "entry_done W entry uploadBytes pre up v =
     (let i = wInodeID entry;
          v1 = with_db (DeleteWriteback (wID entry)) v;
          v2 = (if wAction entry = Upload then recordUploaded W entry up (with_db (ClearSyncFailure i FailureUpload) v1) else v1);
          ev = emitUpload W entry uploadBytes None;
          (changed, missing) = local_changed W entry up
      in case pre of
           Some (a, gen) \<Rightarrow>
             (let v3 = upd_node a (\<lambda>n. n\<lparr>nEtag := ucEtag up\<rparr>) v2 in
              if nWriteGen (node_at v3 a) \<noteq> gen \<or> changed then
                let path = nRemotePath (node_at v3 a);
                    v4 = upd_node a (\<lambda>n. n\<lparr>nDirty := True, nSyncStatus := StatusPending, nStatusReason := []\<rparr>) v3;
                    (failed, v5) = requeue_changed W i path missing v4
                in (ev, if failed then upd_node a (\<lambda>n. n\<lparr>nDirty := True, nSyncStatus := StatusPending,
                                                           nStatusReason := ''re-enqueue failed''\<rparr>) v5 else v5)
              else
                (ev, with_db (MarkSynced i (ucEtag up))
                       (upd_node a (\<lambda>n. n\<lparr>nDirty := False, nSyncStatus := StatusSynced, nStatusReason := [], nData := None\<rparr>) v3)))
         | None \<Rightarrow>
             if changed then (ev, snd (requeue_changed W i (wRemotePath entry) missing v2))
             else (ev, with_db (MarkSynced i (ucEtag up)) v2))"

type_synonym uploader = "WritebackEntry \<Rightarrow> vfs \<Rightarrow> (api_err + uploadedContent) \<times> vfs"

definition run_action :: "wenv \<Rightarrow> uploader \<Rightarrow> WritebackEntry \<Rightarrow> vfs \<Rightarrow> (api_err + uploadedContent) \<times> vfs" where
  "run_action W upload entry v =
     (let settle = (\<lambda>err. case err of Some e \<Rightarrow> (Inl e, v) | None \<Rightarrow> (Inr noContent, v)) in
      case wAction entry of
        Upload \<Rightarrow>
          (case upload entry v of
             (Inl e, v1) \<Rightarrow> if aeStaleSeal e then upload entry v1 else (Inl e, v1)
           | r \<Rightarrow> r)
      | wb_action.Mkdir \<Rightarrow> settle (processMkdir W entry)
      | Delete \<Rightarrow> settle (processDelete W entry)
      | Rename \<Rightarrow> settle (processRename W entry)
      | UnknownAction a \<Rightarrow> (Inl (plain_api_err (''unknown action: '' @ a)), v))"

definition processEntry :: "wenv \<Rightarrow> uploader \<Rightarrow> WritebackEntry \<Rightarrow> vfs \<Rightarrow> bool \<times> activity list \<times> vfs" where
  "processEntry W upload entry v =
     (let pre = (if wAction entry = Upload
                 then map_option (\<lambda>a. (a, nWriteGen (node_at v a))) (NodeByID (wInodeID entry) v) else None);
          uploadBytes = (if wAction entry = Upload
                         then (case GetInode (wInodeID entry) (vDb v) of Inr x \<Rightarrow> iSize x | Inl _ \<Rightarrow> 0) else 0)
      in case run_action W upload entry v of
           (Inl err, v1) \<Rightarrow> (False, entry_failed W entry uploadBytes err v1)
         | (Inr up, v1) \<Rightarrow> (True, entry_done W entry uploadBytes pre up v1))"

section \<open>Batches\<close>

definition heldByConflict :: "WritebackEntry \<Rightarrow> vfs \<Rightarrow> bool" where
  "heldByConflict entry v =
     (if wAction entry \<noteq> Upload then False
      else case GetInode (wInodeID entry) (vDb v) of Inr x \<Rightarrow> iSyncStatus x = StatusConflict | Inl _ \<Rightarrow> False)"

definition requeue :: "WritebackEntry list \<Rightarrow> vfs \<Rightarrow> vfs" where
  "requeue es v = fold (\<lambda>e. with_db (UpdateWriteback (wID e) WbPending (wLastError e) (wAttempts e))) es v"

text \<open>The world at the \<open>k\<close>-th look at the clock: whether the deadline has passed, the environment and
  what an upload does then.\<close>

record world =
  wdExpired :: bool
  wdEnv :: wenv
  wdUpload :: uploader

fun run_entries :: "(nat \<Rightarrow> world) \<Rightarrow> nat \<Rightarrow> WritebackEntry list \<Rightarrow> WritebackEntry list \<Rightarrow> nat \<Rightarrow> vfs \<Rightarrow>
    bool \<times> nat \<times> WritebackEntry list \<times> nat \<times> vfs" where
  "run_entries wd k [] held flushed v = (False, k, held, flushed, requeue held v)"
| "run_entries wd k (e # es) held flushed v =
     (if wdExpired (wd k) then (True, Suc k, held, flushed, requeue held (requeue (e # es) v))
      else if heldByConflict e v then run_entries wd (Suc k) es (held @ [e]) flushed v
      else case processEntry (wdEnv (wd k)) (wdUpload (wd k)) e v of
             (ok, ev, v1) \<Rightarrow> run_entries wd (Suc k) es held (if ok then Suc flushed else flushed) v1)"

definition processBatch :: "(nat \<Rightarrow> world) \<Rightarrow> nat \<Rightarrow> vfs \<Rightarrow> vfs" where
  "processBatch wd k v =
     (let now = vNow (wE (wdEnv (wd k))) in
      case DequeueWriteback now processBatchSize (now - debounceDelay) (vDb v) of
        (Inl e, d) \<Rightarrow> v\<lparr>vDb := d\<rparr>
      | (Inr entries, d) \<Rightarrow>
          if entries = [] then v\<lparr>vDb := d\<rparr>
          else (case run_entries wd k entries [] 0 (v\<lparr>vDb := d\<rparr>) of (exp, k', held, n, v') \<Rightarrow> v'))"

record FlushResult =
  frFlushed :: nat
  frDeferred :: nat
  frNextDue :: "64 word"

definition withDeferred :: "int \<Rightarrow> db \<Rightarrow> FlushResult \<Rightarrow> FlushResult" where
  "withDeferred now d res =
     (let horizon = now + 1 in
      case DeferredWritebackCount horizon d of
        Inl _ \<Rightarrow> res
      | Inr (n, nxt) \<Rightarrow>
          (let res1 = res\<lparr>frDeferred := n\<rparr> in
           if nxt > horizon then res1\<lparr>frNextDue := word_of_int (nxt - horizon) * second\<rparr> else res1))"

datatype flushError = FlushReadOnly | FlushDb dbError | FlushTimeout

partial_function (option) flush_loop :: "(nat \<Rightarrow> world) \<Rightarrow> nat \<Rightarrow> nat \<Rightarrow> vfs \<Rightarrow> ((FlushResult \<times> flushError option) \<times> vfs) option" where
  "flush_loop wd k flushed v =
     (let now = vNow (wE (wdEnv (wd k)));
          res = (\<lambda>n d. withDeferred now d \<lparr>frFlushed = n, frDeferred = 0, frNextDue = 0\<rparr>)
      in case DequeueWriteback now processBatchSize 0 (vDb v) of
           (Inl e, d) \<Rightarrow> Some ((res flushed d, Some (FlushDb e)), v\<lparr>vDb := d\<rparr>)
         | (Inr entries, d) \<Rightarrow>
             if entries = [] then Some ((res flushed d, None), v\<lparr>vDb := d\<rparr>)
             else (case run_entries wd k entries [] flushed (v\<lparr>vDb := d\<rparr>) of
                     (exp, k', held, n, v') \<Rightarrow>
                       if exp then Some ((res n (vDb v'), Some FlushTimeout), v')
                       else if length held = length entries then Some ((res n (vDb v'), None), v')
                       else flush_loop wd k' n v'))"

definition FlushAll :: "(nat \<Rightarrow> world) \<Rightarrow> vfs \<Rightarrow> ((FlushResult \<times> flushError option) \<times> vfs) option" where
  "FlushAll wd v =
     (if WritebackDisabled (vDb v)
      then Some ((\<lparr>frFlushed = 0, frDeferred = 0, frNextDue = 0\<rparr>, Some FlushReadOnly), v)
      else flush_loop wd 0 0 v)"

end
