(* ===== verification/WritebackLaws.thy ===== *)
theory WritebackLaws
  imports Writeback VfsContent
begin

text \<open>
  The laws of the write-back processor: no local change is lost to an upload that ran while it came
  in, a failing entry is retried a bounded number of times and then reported, every claimed entry is
  settled, and a flush ends when its deadline has passed.
\<close>

section \<open>Frame facts\<close>

lemma recordUploaded_frame [simp]:
  "heap (recordUploaded W entry up v) = heap v" "node_at (recordUploaded W entry up v) a = node_at v a"
  "vStore (recordUploaded W entry up v) = vStore v" "nodesByID (recordUploaded W entry up v) = nodesByID v"
  by (simp_all add: recordUploaded_def Let_def)

lemma row_calls_frame [simp]:
  "sqlFails (snd (SetRemoteVersion i etag d)) = sqlFails d"
  "sqlFails (snd (SetLocalContentForVersion i h m etag d)) = sqlFails d"
  "sqlFails (snd (ClearSyncFailure i kind d)) = sqlFails d" "sqlFails (snd (DeleteWriteback i d)) = sqlFails d"
  "writebackDisabled (snd (SetRemoteVersion i etag d)) = writebackDisabled d"
  "writebackDisabled (snd (SetLocalContentForVersion i h m etag d)) = writebackDisabled d"
  "writebackDisabled (snd (ClearSyncFailure i kind d)) = writebackDisabled d"
  "writebackDisabled (snd (DeleteWriteback i d)) = writebackDisabled d"
  by (simp_all add: db_defs exec_def upd_inodes_def)

lemma recordUploaded_db [simp]:
  "sqlFails (vDb (recordUploaded W entry up v)) = sqlFails (vDb v)"
  "writebackDisabled (vDb (recordUploaded W entry up v)) = writebackDisabled (vDb v)"
  by (simp_all add: recordUploaded_def Let_def)

text \<open>The ids of the rows are never touched by these calls.\<close>

lemma ids_calls [simp]:
  "iID ` set (inodes (snd (SetRemoteVersion i etag d))) = iID ` set (inodes d)"
  "iID ` set (inodes (snd (SetLocalContentForVersion i h m etag d))) = iID ` set (inodes d)"
  "iID ` set (inodes (snd (ClearSyncFailure i kind d))) = iID ` set (inodes d)"
  "iID ` set (inodes (snd (DeleteWriteback i d))) = iID ` set (inodes d)"
proof -
  have upd: "iID ` set (inodes (upd_inodes P f d)) = iID ` set (inodes d)" if "keeps_inode_keys f" for P f
    using ids_upd_inodes [OF that, of P d] by (metis list.set_map)
  show "iID ` set (inodes (snd (SetRemoteVersion i etag d))) = iID ` set (inodes d)"
    "iID ` set (inodes (snd (SetLocalContentForVersion i h m etag d))) = iID ` set (inodes d)"
    by (simp_all add: db_defs exec_def upd keeps_inode_keys_def)
qed (simp_all add: db_defs exec_def)

lemma ids_recordUploaded [simp]: "iID ` set (inodes (vDb (recordUploaded W entry up v))) = iID ` set (inodes (vDb v))"
  by (simp add: recordUploaded_def Let_def)

section \<open>No lost update\<close>

text \<open>What \<open>requeue_changed\<close> leaves behind when the statements succeed.\<close>

lemma MarkDirty_row:
  assumes "\<not> sqlFails d OpMarkDirty" "i \<in> iID ` set (inodes d)"
  shows "\<exists>r \<in> set (inodes (snd (MarkDirty i d))). iID r = i \<and> iDirty r"
proof -
  obtain r where r: "r \<in> set (inodes d)" "iID r = i" using assms(2) by auto
  then have "r\<lparr>iDirty := True, iSyncStatus := StatusPending\<rparr> \<in> set (inodes (snd (MarkDirty i d)))"
    using assms(1) by (simp add: MarkDirty_def exec_def upd_inodes_def sql_update_def)
  then show ?thesis by (rule bexI [rotated]) (simp add: r)
qed

lemma enqueue_one:
  assumes "\<not> writebackDisabled d" "\<not> sqlFails d OpEnqueueDelete" "\<not> sqlFails d OpEnqueueInsert" "act \<noteq> Rename"
  shows "fst (EnqueueWriteback k now i act path x d) = None \<and> inodes (snd (EnqueueWriteback k now i act path x d)) = inodes d \<and>
    (\<exists>e. filter (\<lambda>e. wInodeID e = i \<and> wAction e = act \<and> wStatus e = WbPending)
          (wbqueue (snd (EnqueueWriteback k now i act path x d))) = [e] \<and> wRemotePath e = path)"
  using assms by (auto simp: EnqueueWriteback_def Let_def sql_delete_def filter_empty_conv)

lemma requeue_changed_spec:
  assumes "\<not> writebackDisabled (vDb v)" "\<not> sqlFails (vDb v) OpMarkDirty" "\<not> sqlFails (vDb v) OpEnqueueDelete"
    "\<not> sqlFails (vDb v) OpEnqueueInsert" "i \<in> iID ` set (inodes (vDb v))"
  shows "\<exists>v'. requeue_changed W i path missing v = (False, v') \<and> heap v' = heap v \<and>
    (\<exists>r \<in> set (inodes (vDb v')). iID r = i \<and> iDirty r) \<and>
    (\<exists>e. filter (\<lambda>e. wInodeID e = i \<and> wAction e = (if missing then Delete else Upload) \<and> wStatus e = WbPending)
        (wbqueue (vDb v')) = [e] \<and> wRemotePath e = path)"
proof -
  let ?d = "snd (MarkDirty i (vDb v))"
  have d: "\<not> writebackDisabled ?d" "\<not> sqlFails ?d OpEnqueueDelete" "\<not> sqlFails ?d OpEnqueueInsert" using assms by simp_all
  have act: "(if missing then Delete else Upload) \<noteq> Rename" by simp
  let ?en = "EnqueueWriteback (vNewKey (wE W)) (vNow (wE W)) i (if missing then Delete else Upload) path ExtraEmpty ?d"
  note en = enqueue_one [OF d act, of "vNewKey (wE W)" "vNow (wE W)" i path ExtraEmpty]
  have "requeue_changed W i path missing v = (False, (with_db (MarkDirty i) v)\<lparr>vDb := snd ?en\<rparr>)"
    using en by (simp add: requeue_changed_def Let_def case_prod_beta del: if_split)
  then show ?thesis using en MarkDirty_row [OF assms(2,5)] by (simp del: if_split)
qed

lemma requeue_changed_heap: "heap (snd (requeue_changed W i path missing v)) = heap v"
  by (simp add: requeue_changed_def Let_def case_prod_beta)

text \<open>The state when an upload has succeeded and its entry is removed.\<close>

definition recorded :: "wenv \<Rightarrow> WritebackEntry \<Rightarrow> uploadedContent \<Rightarrow> addr \<Rightarrow> vfs \<Rightarrow> vfs" where
  "recorded W entry up a v = upd_node a (\<lambda>n. n\<lparr>nEtag := ucEtag up\<rparr>) (recordUploaded W entry up
     (with_db (ClearSyncFailure (wInodeID entry) FailureUpload) (with_db (DeleteWriteback (wID entry)) v)))"

lemma recorded_fields:
  "writebackDisabled (vDb (recorded W entry up a v)) = writebackDisabled (vDb v)"
  "sqlFails (vDb (recorded W entry up a v)) = sqlFails (vDb v)"
  "iID ` set (inodes (vDb (recorded W entry up a v))) = iID ` set (inodes (vDb v))"
  "length (heap (recorded W entry up a v)) = length (heap v)"
  "a < length (heap v) \<Longrightarrow> node_at (recorded W entry up a v) a = (node_at v a)\<lparr>nEtag := ucEtag up\<rparr>"
  by (simp_all add: recorded_def node_at_upd)

lemma entry_done_changed:
  assumes "wAction entry = Upload" "a < length (heap v1)" "local_changed W entry up = (ch, mi)"
    and "nWriteGen (node_at v1 a) \<noteq> gen \<or> ch" "entry_done W entry n (Some (a, gen)) up v1 = (ev, v')"
  shows "nDirty (node_at v' a) \<and> nData (node_at v' a) = nData (node_at v1 a) \<and> nSyncStatus (node_at v' a) = StatusPending \<and>
    (\<not> writebackDisabled (vDb v1) \<and> (\<forall>x. \<not> sqlFails (vDb v1) x) \<and> wInodeID entry \<in> iID ` set (inodes (vDb v1)) \<longrightarrow>
       (\<exists>r \<in> set (inodes (vDb v')). iID r = wInodeID entry \<and> iDirty r) \<and>
       (\<exists>e. filter (\<lambda>e. wInodeID e = wInodeID entry \<and> wAction e = (if mi then Delete else Upload) \<and>
            wStatus e = WbPending) (wbqueue (vDb v')) = [e] \<and> wRemotePath e = nRemotePath (node_at v1 a)))"
proof -
  let ?v3 = "recorded W entry up a v1"
  note r3 = recorded_fields [where W = W and entry = entry and up = up and a = a and v = v1]
  define v4 where "v4 = upd_node a (\<lambda>n. n\<lparr>nDirty := True, nSyncStatus := StatusPending, nStatusReason := []\<rparr>) ?v3"
  obtain failed v5 where rq: "requeue_changed W (wInodeID entry) (nRemotePath (node_at ?v3 a)) mi v4 = (failed, v5)" by fastforce
  have n4: "node_at v4 a = (node_at ?v3 a)\<lparr>nDirty := True, nSyncStatus := StatusPending, nStatusReason := []\<rparr>" "a < length (heap v4)"
    using assms(2) by (simp_all add: v4_def node_at_upd r3)
  have n5: "node_at v5 a = node_at v4 a" "a < length (heap v5)"
    using requeue_changed_heap [of W "wInodeID entry" "nRemotePath (node_at ?v3 a)" mi v4] rq n4(2) by (auto simp: node_at_def)
  have v': "v' = (if failed then upd_node a (\<lambda>n. n\<lparr>nDirty := True, nSyncStatus := StatusPending, nStatusReason := ''re-enqueue failed''\<rparr>) v5 else v5)"
    using assms(1-5) rq by (auto simp: entry_done_def Let_def recorded_def [symmetric] v4_def [symmetric] r3(5) [OF assms(2)])
  have node: "nDirty (node_at v' a) \<and> nData (node_at v' a) = nData (node_at v1 a) \<and> nSyncStatus (node_at v' a) = StatusPending"
    using n5 n4 r3(5) [OF assms(2)] by (simp add: v' node_at_upd)
  have db4: "vDb v4 = vDb ?v3" by (simp add: v4_def)
  show ?thesis
    using node requeue_changed_spec [of v4 "wInodeID entry" W "nRemotePath (node_at ?v3 a)" mi] rq r3(5) [OF assms(2)]
    by (auto simp: v' db4 r3 simp del: if_split)
qed

lemma entry_done_unchanged:
  assumes "wAction entry = Upload" "a < length (heap v1)" "local_changed W entry up = (False, mi)"
    and "nWriteGen (node_at v1 a) = gen" "entry_done W entry n (Some (a, gen)) up v1 = (ev, v')"
  shows "\<not> nDirty (node_at v' a) \<and> nData (node_at v' a) = None \<and> nSyncStatus (node_at v' a) = StatusSynced"
proof -
  have "v' = with_db (MarkSynced (wInodeID entry) (ucEtag up))
      (upd_node a (\<lambda>n. n\<lparr>nDirty := False, nSyncStatus := StatusSynced, nStatusReason := [], nData := None\<rparr>) (recorded W entry up a v1))"
    using assms by (auto simp: entry_done_def Let_def recorded_def [symmetric] recorded_fields(5) [OF assms(2)])
  then show ?thesis using assms(2) by (simp add: node_at_upd recorded_fields)
qed

text \<open>
  C26: no local change is lost to an upload. While an upload runs, other threads may write to the file.
  If by its end the node's write generation is not the one the upload started from, or the local file
  is not what was uploaded (or cannot be shown to be), then the node stays dirty with the buffer that
  was written, whatever statements fail; and while the statements work, the row is dirty and exactly
  one new upload (or, if the local file is gone, one removal) of the inode is pending. Only if neither
  changed is the node marked clean.
\<close>

theorem upload_no_lost_update:
  assumes "wAction entry = Upload" "NodeByID (wInodeID entry) v = Some a"
    and "run_action W upload entry v = (Inr up, v1)" "a < length (heap v1)"
    and "processEntry W upload entry v = (ok, ev, v')"
  shows "ok \<and>
    (if nWriteGen (node_at v1 a) \<noteq> nWriteGen (node_at v a) \<or> fst (local_changed W entry up)
     then nDirty (node_at v' a) \<and> nData (node_at v' a) = nData (node_at v1 a) \<and> nSyncStatus (node_at v' a) = StatusPending \<and>
       (\<not> writebackDisabled (vDb v1) \<and> (\<forall>x. \<not> sqlFails (vDb v1) x) \<and> wInodeID entry \<in> iID ` set (inodes (vDb v1)) \<longrightarrow>
          (\<exists>r \<in> set (inodes (vDb v')). iID r = wInodeID entry \<and> iDirty r) \<and>
          (\<exists>e. filter (\<lambda>e. wInodeID e = wInodeID entry \<and> wAction e = (if snd (local_changed W entry up) then Delete else Upload) \<and>
               wStatus e = WbPending) (wbqueue (vDb v')) = [e] \<and> wRemotePath e = nRemotePath (node_at v1 a)))
     else \<not> nDirty (node_at v' a) \<and> nData (node_at v' a) = None \<and> nSyncStatus (node_at v' a) = StatusSynced)"
proof -
  obtain ch mi where lc: "local_changed W entry up = (ch, mi)" by fastforce
  obtain n where pe: "ok" "entry_done W entry n (Some (a, nWriteGen (node_at v a))) up v1 = (ev, v')"
    using assms(1-3,5) by (auto simp: processEntry_def Let_def)
  show ?thesis
  proof (cases "nWriteGen (node_at v1 a) \<noteq> nWriteGen (node_at v a) \<or> ch")
    case True
    then show ?thesis using entry_done_changed [OF assms(1,4) lc True pe(2)] pe(1) lc by simp
  next
    case False
    then show ?thesis using entry_done_unchanged [OF assms(1,4) _ _ pe(2), of mi] pe(1) lc by simp
  qed
qed

section \<open>Claimed entries are settled\<close>

primrec claimed :: "WritebackEntry list \<Rightarrow> int set" where
  "claimed [] = {}"
| "claimed (e # es) = (if wStatus e = WbInProgress then insert (wID e) (claimed es) else claimed es)"

definition in_progress :: "db \<Rightarrow> int set" where
  "in_progress d = claimed (wbqueue d)"

lemma claimed_sql_update:
  "(\<And>e. wID (f e) = wID e \<and> wStatus (f e) \<noteq> WbInProgress) \<Longrightarrow> claimed (sql_update (\<lambda>e. wID e = j) f rows) = claimed rows - {j}"
  by (induction rows) (auto simp: sql_update_def)

lemma claimed_sql_delete:
  "claimed (sql_delete (\<lambda>e. wID e = j) rows) = claimed rows - {j}" "claimed (sql_delete Q rows) \<subseteq> claimed rows"
  by (induction rows) (auto simp: sql_delete_def)

lemma claimed_append [simp]: "claimed (es @ es') = claimed es \<union> claimed es'"
  by (induction es) auto

lemma queue_untouched [simp]:
  "wbqueue (snd (MarkDirty i d)) = wbqueue d" "wbqueue (snd (SetSyncStatus i st r d)) = wbqueue d"
  "wbqueue (snd (RecordSyncFailure f d)) = wbqueue d" "wbqueue (snd (ClearSyncFailure i kind d)) = wbqueue d"
  "wbqueue (snd (SetRemoteVersion i etag d)) = wbqueue d" "wbqueue (snd (SetLocalContentForVersion i h m etag d)) = wbqueue d"
  "wbqueue (snd (MarkSynced i etag d)) = wbqueue d"
  by (simp_all add: db_defs RecordSyncFailure_def exec_def upd_inodes_def)

lemma fails_untouched [simp]:
  "sqlFails (snd (SetSyncStatus i st r d)) = sqlFails d" "sqlFails (snd (RecordSyncFailure f d)) = sqlFails d"
  "sqlFails (snd (MarkSynced i etag d)) = sqlFails d" "sqlFails (snd (UpdateWriteback j ws le at d)) = sqlFails d"
  "sqlFails (snd (DeferWriteback j le at t d)) = sqlFails d" "sqlFails (snd (EnqueueWriteback k now i act p x d)) = sqlFails d"
  "sqlFails (snd (DequeueWriteback now lim cb d)) = sqlFails d"
  by (simp_all add: db_defs RecordSyncFailure_def EnqueueWriteback_def DequeueWriteback_def Let_def exec_def upd_inodes_def upd_queue_def)

lemma in_progress_untouched [simp]:
  "in_progress (snd (MarkDirty i d)) = in_progress d" "in_progress (snd (SetSyncStatus i st r d)) = in_progress d"
  "in_progress (snd (RecordSyncFailure f d)) = in_progress d" "in_progress (snd (ClearSyncFailure i kind d)) = in_progress d"
  "in_progress (snd (SetRemoteVersion i etag d)) = in_progress d" "in_progress (snd (MarkSynced i etag d)) = in_progress d"
  "in_progress (snd (SetLocalContentForVersion i h m etag d)) = in_progress d"
  by (simp_all add: in_progress_def)

lemma in_progress_settle:
  "\<not> sqlFails d OpUpdateWriteback \<Longrightarrow> ws \<noteq> WbInProgress \<Longrightarrow> in_progress (snd (UpdateWriteback j ws le at d)) = in_progress d - {j}"
  "\<not> sqlFails d OpDeferWriteback \<Longrightarrow> in_progress (snd (DeferWriteback j le at t d)) = in_progress d - {j}"
  "\<not> sqlFails d OpDeleteWriteback \<Longrightarrow> in_progress (snd (DeleteWriteback j d)) = in_progress d - {j}"
  by (simp_all add: in_progress_def db_defs exec_def upd_queue_def claimed_sql_update claimed_sql_delete)

lemma in_progress_enqueue: "in_progress (snd (EnqueueWriteback k now i act p x d)) \<subseteq> in_progress d"
  using claimed_sql_delete(2) by (simp add: in_progress_def EnqueueWriteback_def Let_def)

definition sql_works :: "db \<Rightarrow> bool" where
  "sql_works d \<longleftrightarrow> (\<forall>x. \<not> sqlFails d x)"

text \<open>From one state to another, the entries in progress lose at least \<open>ids\<close> and gain none.\<close>

definition settles :: "int set \<Rightarrow> vfs \<Rightarrow> vfs \<Rightarrow> bool" where
  "settles ids v v' \<longleftrightarrow> in_progress (vDb v') \<subseteq> in_progress (vDb v) - ids \<and> sqlFails (vDb v') = sqlFails (vDb v)"

lemma settles_trans: "settles i v v1 \<Longrightarrow> settles j v1 v2 \<Longrightarrow> settles (i \<union> j) v v2"
  by (auto simp: settles_def)

lemma settles_refl [simp]: "settles {} v v"
  by (simp add: settles_def)

lemma settles_failed: "sql_works (vDb v) \<Longrightarrow> settles {wID entry} v (snd (entry_failed W entry n err v))"
  by (simp add: settles_def entry_failed_def Let_def sql_works_def in_progress_settle split: option.split)

lemma settles_requeue_changed: "settles {} v (snd (requeue_changed W i path missing v))"
  using in_progress_enqueue [of "vNewKey (wE W)" "vNow (wE W)" i "if missing then Delete else Upload" path ExtraEmpty "snd (MarkDirty i (vDb v))"]
  by (simp add: settles_def requeue_changed_def Let_def case_prod_beta)

lemma settles_frame [simp]:
  "settles ids v (upd_node a f w) = settles ids v w" "settles ids (upd_node a f v) w = settles ids v w"
  by (simp_all add: settles_def)

lemma settles_recorded:
  assumes "sql_works (vDb v)"
  shows "settles {wID entry} v (recordUploaded W entry up (with_db (ClearSyncFailure i FailureUpload) (with_db (DeleteWriteback (wID entry)) v)))"
    "settles {wID entry} v (with_db (DeleteWriteback (wID entry)) v)"
  using assms in_progress_settle(3) [of "vDb v" "wID entry"] by (simp_all add: settles_def sql_works_def recordUploaded_def Let_def)

lemma settles_synced: "settles ids v w \<Longrightarrow> settles ids v (with_db (MarkSynced i etag) w)"
  by (simp add: settles_def)

lemma settles_then_requeue: "settles ids v w \<Longrightarrow> settles ids v (snd (requeue_changed W i path missing w))"
  using settles_trans [OF _ settles_requeue_changed] by force

lemma settles_done:
  assumes "sql_works (vDb v)"
  shows "settles {wID entry} v (snd (entry_done W entry n pre up v))"
  using settles_recorded [OF assms, of entry]
  by (auto simp: entry_done_def Let_def case_prod_beta intro!: settles_synced settles_then_requeue split: option.split)

text \<open>Other threads never claim entries, and they do not change which statements fail: an upload
  during which they work adds no entry in progress.\<close>

definition tame :: "uploader \<Rightarrow> bool" where
  "tame up \<longleftrightarrow> (\<forall>entry v. settles {} v (snd (up entry v)))"

lemma settles_works: "settles ids v v' \<Longrightarrow> sql_works (vDb v') = sql_works (vDb v)"
  by (simp add: settles_def sql_works_def)

lemma settles_action: "tame up \<Longrightarrow> settles {} v (snd (run_action W up entry v))"
proof -
  assume t: "tame up"
  have once: "settles {} w (snd (up entry w))" for w using t by (simp add: tame_def)
  have twice: "settles {} v (snd (up entry (snd (up entry v))))" using settles_trans [OF once once] by simp
  show ?thesis
  proof (cases "wAction entry = Upload")
    case True
    then show ?thesis using once [of v] twice by (cases "up entry v") (auto simp: run_action_def Let_def split: sum.split)
  qed (simp add: run_action_def Let_def split: wb_action.split option.split)
qed

lemma settles_entry:
  assumes "tame up" "sql_works (vDb v)"
  shows "settles {wID e} v (snd (snd (processEntry W up e v)))"
proof -
  obtain r v1 where run: "run_action W up e v = (r, v1)" by fastforce
  have s1: "settles {} v v1" using settles_action [OF assms(1), of v W e] run by simp
  then have w1: "sql_works (vDb v1)" using assms(2) settles_works by blast
  show ?thesis
  proof (cases r)
    case (Inl err)
    then show ?thesis using settles_trans [OF s1 settles_failed [OF w1]] by (simp add: processEntry_def Let_def run)
  next
    case (Inr u)
    then show ?thesis using settles_trans [OF s1 settles_done [OF w1]] by (simp add: processEntry_def Let_def run)
  qed
qed

lemma settles_requeue: "sql_works (vDb v) \<Longrightarrow> settles (wID ` set es) v (requeue es v)"
proof (induction es arbitrary: v)
  case (Cons e es)
  let ?w = "with_db (UpdateWriteback (wID e) WbPending (wLastError e) (wAttempts e)) v"
  have s: "settles {wID e} v ?w" using Cons.prems by (simp add: settles_def sql_works_def in_progress_settle)
  have "sql_works (vDb ?w)" using s Cons.prems settles_works by blast
  from settles_trans [OF s Cons.IH [OF this]] show ?case by (simp add: requeue_def)
qed (simp add: requeue_def)

lemma run_entries_settles:
  assumes "\<forall>k. tame (wdUpload (wd k))"
  shows "sql_works (vDb v) \<Longrightarrow> run_entries wd k es held n v = (x, k', held', n', v') \<Longrightarrow> settles (wID ` (set es \<union> set held)) v v'"
proof (induction es arbitrary: k held n v)
  case Nil
  then show ?case using settles_requeue by auto
next
  case (Cons e es)
  consider "wdExpired (wd k)" | "\<not> wdExpired (wd k)" "heldByConflict e v" | "\<not> wdExpired (wd k)" "\<not> heldByConflict e v" by blast
  then show ?case
  proof cases
    case 1
    have s: "settles (wID ` set (e # es)) v (requeue (e # es) v)" using Cons.prems(1) by (rule settles_requeue)
    then have "sql_works (vDb (requeue (e # es) v))" using Cons.prems(1) settles_works by blast
    from settles_trans [OF s settles_requeue [OF this, of held]] show ?thesis using 1 Cons.prems(2) by (auto simp: image_Un)
  next
    case 2
    then show ?thesis using Cons.IH [OF Cons.prems(1), of "Suc k" "held @ [e]" n] Cons.prems(2) by (simp add: Un_commute)
  next
    case 3
    obtain ok ev v1 where pe: "processEntry (wdEnv (wd k)) (wdUpload (wd k)) e v = (ok, ev, v1)" by (metis prod_cases3)
    have s: "settles {wID e} v v1" using settles_entry [OF assms [rule_format] Cons.prems(1)] pe by (metis snd_conv)
    then have "sql_works (vDb v1)" using Cons.prems(1) settles_works by blast
    from settles_trans [OF s Cons.IH [OF this]] show ?thesis using 3 pe Cons.prems(2) by auto
  qed
qed

lemma claimed_mark:
  "claimed (sql_update (\<lambda>e. wID e \<in> I) (\<lambda>e. e\<lparr>wStatus := WbInProgress\<rparr>) q)
     \<subseteq> claimed q \<union> wID ` set (filter (\<lambda>e. wID e \<in> I) (sql_update (\<lambda>e. wID e \<in> I) (\<lambda>e. e\<lparr>wStatus := WbInProgress\<rparr>) q))"
  by (induction q) (auto simp: sql_update_def)

lemma dequeue_claims:
  "DequeueWriteback now lim b d = (Inr es, d') \<Longrightarrow> in_progress d' \<subseteq> in_progress d \<union> wID ` set es"
  "DequeueWriteback now lim b d = (Inl er, d') \<Longrightarrow> d' = d"
  using claimed_mark [of "set (claim_ids lim (if b \<le> 0 then now + 1 else b) (wbqueue d))" "wbqueue d"]
  by (auto simp: DequeueWriteback_def Let_def in_progress_def upd_queue_def split: if_splits)

text \<open>One round: claim, run, and nothing of the claim is left.\<close>

lemma round_settles:
  assumes "\<forall>k. tame (wdUpload (wd k))" "sql_works (vDb v)" "DequeueWriteback now lim b (vDb v) = (Inr es, d)"
    and "run_entries wd k es [] n (v\<lparr>vDb := d\<rparr>) = (x, k', held, n', v')"
  shows "settles {} v v'"
proof -
  have f: "sqlFails d = sqlFails (vDb v)" using fails_untouched(7) [of now lim b "vDb v"] assms(3) by simp
  then have "sql_works (vDb (v\<lparr>vDb := d\<rparr>))" using assms(2) by (simp add: sql_works_def)
  from run_entries_settles [OF assms(1) this assms(4)] show ?thesis
    using dequeue_claims(1) [OF assms(3)] f by (auto simp: settles_def)
qed

lemma batch_settled:
  assumes "\<forall>k. tame (wdUpload (wd k))" "sql_works (vDb v)"
  shows "settles {} v (processBatch wd k v)"
proof -
  let ?now = "vNow (wE (wdEnv (wd k)))"
  obtain r d where dq: "DequeueWriteback ?now processBatchSize (?now - debounceDelay) (vDb v) = (r, d)" by fastforce
  show ?thesis
  proof (cases r)
    case (Inl er)
    then have "d = vDb v" using dequeue_claims(2) dq by blast
    then show ?thesis using Inl dq by (simp add: processBatch_def Let_def)
  next
    case (Inr es)
    obtain x k' held n' v' where re: "run_entries wd k es [] 0 (v\<lparr>vDb := d\<rparr>) = (x, k', held, n', v')" by (metis prod_cases5)
    have rs: "settles {} v v'" by (rule round_settles [OF assms dq [unfolded Inr] re])
    show ?thesis
    proof (cases "es = []")
      case True
      then have "v' = v\<lparr>vDb := d\<rparr>" using re by (simp add: requeue_def)
      then show ?thesis using rs True dq Inr by (simp add: processBatch_def Let_def)
    qed (use rs dq Inr re in \<open>simp add: processBatch_def Let_def\<close>)
  qed
qed

section \<open>A flush ends\<close>

lemma run_entries_clock:
  "run_entries wd k es held n v = (x, k', held', n', v') \<Longrightarrow> k \<le> k' \<and> (es \<noteq> [] \<longrightarrow> k < k') \<and> (\<not> x \<longrightarrow> (\<forall>j. k \<le> j \<and> j < k' \<longrightarrow> \<not> wdExpired (wd j)))"
proof (induction es arbitrary: k held n v)
  case (Cons e es)
  obtain ok ev v1 where pe: "processEntry (wdEnv (wd k)) (wdUpload (wd k)) e v = (ok, ev, v1)" by (metis prod_cases3)
  show ?case
  proof (cases "wdExpired (wd k)")
    case False
    then obtain h m w where "run_entries wd (Suc k) es h m w = (x, k', held', n', v')"
      using Cons.prems pe by (auto split: if_splits)
    from Cons.IH [OF this] show ?thesis using False by (metis Suc_leD Suc_le_eq le_neq_implies_less)
  qed (use Cons.prems in auto)
qed auto

text \<open>Once the deadline has passed for good, the loop returns: every round takes at least one look at
  the clock, and a round that sees the deadline is the last.\<close>

lemma flush_loop_ends:
  assumes "\<And>k. K \<le> k \<Longrightarrow> wdExpired (wd k)"
  shows "\<exists>r v'. flush_loop wd k n v = Some (r, v')"
proof (induction "Suc K - k" arbitrary: k n v rule: less_induct)
  case less
  let ?now = "vNow (wE (wdEnv (wd k)))"
  obtain r d where dq: "DequeueWriteback ?now processBatchSize 0 (vDb v) = (r, d)" by fastforce
  show ?case
  proof (cases r)
    case (Inl er)
    then show ?thesis using dq by (subst flush_loop.simps) (simp add: Let_def)
  next
    case (Inr es)
    obtain x k' held n' v' where re: "run_entries wd k es [] n (v\<lparr>vDb := d\<rparr>) = (x, k', held, n', v')" by (metis prod_cases5)
    show ?thesis
    proof (cases "es = [] \<or> x \<or> length held = length es")
      case True
      then show ?thesis using dq Inr re by (subst flush_loop.simps) (auto simp: Let_def)
    next
      case False
      then have "k < k'" "\<not> wdExpired (wd k)" using run_entries_clock [OF re] by auto
      then have "Suc K - k' < Suc K - k" using assms [of k] by (cases "K \<le> k") auto
      from less [OF this, of n' v'] show ?thesis
        using False dq Inr re by (subst flush_loop.simps) (simp add: Let_def)
    qed
  qed
qed

text \<open>
  \<open>FlushAll\<close> ends. If from some look at the clock on the deadline has passed, it returns, whatever
  the server answers, whatever statements fail and however the queue grows meanwhile.
\<close>

theorem FlushAll_ends:
  assumes "\<And>k. K \<le> k \<Longrightarrow> wdExpired (wd k)"
  shows "\<exists>res err v'. FlushAll wd v = Some ((res, err), v')"
  using flush_loop_ends [OF assms, where k = 0 and n = 0 and v = v] by (auto simp: FlushAll_def)

lemma flush_loop_settles:
  assumes "flush_loop wd k n v = Some rv" "\<forall>k. tame (wdUpload (wd k))" "sql_works (vDb v)"
  shows "settles {} v (snd rv)"
  using assms
proof (induction rule: flush_loop.raw_induct [rotated, consumes 1, case_names round])
  case (round loop wd k n v rv)
  note 1 = round
  let ?now = "vNow (wE (wdEnv (wd k)))"
  obtain r d where dq: "DequeueWriteback ?now processBatchSize 0 (vDb v) = (r, d)" by fastforce
  show ?case
  proof (cases r)
    case (Inl er)
    then have "d = vDb v" using dequeue_claims(2) dq by blast
    then show ?thesis using 1(2) dq Inl by (auto simp: Let_def settles_def)
  next
    case (Inr es)
    obtain x k' held n' v' where re: "run_entries wd k es [] n (v\<lparr>vDb := d\<rparr>) = (x, k', held, n', v')" by (metis prod_cases5)
    have rs: "settles {} v v'" by (rule round_settles [OF 1(3,4) dq [unfolded Inr] re])
    show ?thesis
    proof (cases "es = [] \<or> x \<or> length held = length es")
      case True
      then show ?thesis using 1(2) rs dq Inr re by (auto simp: Let_def requeue_def split: if_splits)
    next
      case False
      then have "loop wd k' n' v' = Some rv" using 1(2) dq Inr re by (simp add: Let_def)
      from 1(1) [OF this 1(3)] show ?thesis using settles_trans [OF rs, of "{}"] rs 1(4) settles_works by auto
    qed
  qed
qed

text \<open>
  No entry stays claimed. While the statements work and other threads claim nothing, the entries
  in progress after a batch, and after a flush that returned for whatever reason, are among those
  in progress before: each claimed entry was removed, given back, deferred or marked failed, also when
  the deadline passed in the middle of the batch or entries were held for a conflict.
\<close>

theorem claims_settled:
  assumes "\<forall>k. tame (wdUpload (wd k))" "sql_works (vDb v)"
  shows "in_progress (vDb (processBatch wd k v)) \<subseteq> in_progress (vDb v) \<and>
    (\<forall>r v'. FlushAll wd v = Some (r, v') \<longrightarrow> in_progress (vDb v') \<subseteq> in_progress (vDb v))"
  using batch_settled [OF assms, where k = k] flush_loop_settles [OF _ assms, where k = 0 and n = 0]
  by (auto simp: settles_def FlushAll_def split: if_splits)

section \<open>A failing entry\<close>

definition gives_up :: "WritebackEntry \<Rightarrow> api_err \<Rightarrow> bool" where
  "gives_up entry err \<longleftrightarrow> wAttempts entry + 1 \<ge> maxRetries \<or> isPermanent err"

lemma queue_after_failure:
  assumes "sql_works (vDb v)"
  shows "wbqueue (vDb (snd (entry_failed W entry n err v))) =
    sql_update (\<lambda>e. wID e = wID entry)
      (if gives_up entry err
       then (\<lambda>e. e\<lparr>wStatus := WbFailed, wLastError := aeText err, wAttempts := wAttempts entry + 1\<rparr>)
       else (\<lambda>e. e\<lparr>wStatus := WbPending, wLastError := aeText err, wAttempts := wAttempts entry + 1,
               wEnqueuedAt := add_delay (vNow (wE W)) (writebackRetryDelay err (wAttempts entry + 1))\<rparr>))
      (wbqueue (vDb v))"
proof -
  have w: "\<not> sqlFails (vDb v) x" for x using assms by (simp add: sql_works_def)
  show ?thesis
    using w by (simp add: entry_failed_def Let_def gives_up_def [symmetric] UpdateWriteback_def DeferWriteback_def exec_def upd_queue_def
        split: option.split)
qed

lemma RecordSyncFailure_stored:
  assumes "\<not> sqlFails d OpRecordSyncFailure"
  shows "f \<in> set (failures (snd (RecordSyncFailure f d)))"
proof (cases "find (\<lambda>g. fInodeID g = fInodeID f \<and> fKind g = fKind f) (failures d)")
  case None
  then show ?thesis using assms by (simp add: RecordSyncFailure_def exec_def)
next
  case (Some g)
  then have g: "g \<in> set (failures d)" "fInodeID g = fInodeID f" "fKind g = fKind f" by (auto simp: find_Some_iff)
  let ?h = "g\<lparr>fPermanent := fPermanent f, fAttempts := fAttempts f, fNextRetryAt := fNextRetryAt f, fLastError := fLastError f\<rparr>"
  have "?h = f" using g by (cases f) (cases g, simp)
  moreover have "?h \<in> set (failures (snd (RecordSyncFailure f d)))"
    using assms Some g by (force simp: RecordSyncFailure_def exec_def sql_update_def)
  ultimately show ?thesis by simp
qed

text \<open>
  A failed entry is kept. When an action fails while the statements work, the entry stays in the
  queue with the error and one more attempt, and every other entry is as it was. It waits for another
  turn only with fewer than three attempts, not before the delay of the error has passed; otherwise,
  or after a permanent refusal, it is marked failed, and for an upload the failure is in the ledger:
  permanent ones without a retry time.
\<close>

theorem failed_entry_kept:
  assumes "run_action W up entry v = (Inl err, v1)" "sql_works (vDb v1)" "processEntry W up entry v = (ok, ev, v')"
  shows "\<not> ok \<and> map wID (wbqueue (vDb v')) = map wID (wbqueue (vDb v1)) \<and>
    (\<forall>e. wID e \<noteq> wID entry \<longrightarrow> (e \<in> set (wbqueue (vDb v')) \<longleftrightarrow> e \<in> set (wbqueue (vDb v1)))) \<and>
    (\<forall>e \<in> set (wbqueue (vDb v')). wID e = wID entry \<longrightarrow>
       wLastError e = aeText err \<and> wAttempts e = wAttempts entry + 1 \<and>
       (if gives_up entry err then wStatus e = WbFailed
        else wStatus e = WbPending \<and> wAttempts e < 3 \<and>
          wEnqueuedAt e = add_delay (vNow (wE W)) (writebackRetryDelay err (wAttempts e)))) \<and>
    (gives_up entry err \<and> wAction entry = Upload \<longrightarrow>
       (\<exists>f \<in> set (failures (vDb v')). fInodeID f = wInodeID entry \<and> fKind f = FailureUpload \<and> fAttempts f = wAttempts entry + 1 \<and>
          fLastError f = aeText err \<and> fPermanent f = isPermanent err \<and> (isPermanent err \<longrightarrow> fNextRetryAt f = 0)))"
proof -
  obtain n where run: "\<not> ok" "entry_failed W entry n err v1 = (ev, v')" using assms(1,3) by (auto simp: processEntry_def Let_def)
  then have v': "v' = snd (entry_failed W entry n err v1)" by (metis snd_conv)
  note q = queue_after_failure [OF assms(2), of W entry n err, folded v']
  have keep: "wAttempts entry + 1 < 3" if "\<not> gives_up entry err" using that by (simp add: gives_up_def maxRetries_def)
  have "map wID (wbqueue (vDb v')) = map wID (wbqueue (vDb v1))" by (simp add: q sql_update_def comp_def)
  moreover have "\<forall>e. wID e \<noteq> wID entry \<longrightarrow> (e \<in> set (wbqueue (vDb v')) \<longleftrightarrow> e \<in> set (wbqueue (vDb v1)))"
    by (auto simp: q sql_update_def image_iff)
  moreover have "\<forall>e \<in> set (wbqueue (vDb v')). wID e = wID entry \<longrightarrow> wLastError e = aeText err \<and> wAttempts e = wAttempts entry + 1 \<and>
      (if gives_up entry err then wStatus e = WbFailed
       else wStatus e = WbPending \<and> wAttempts e < 3 \<and> wEnqueuedAt e = add_delay (vNow (wE W)) (writebackRetryDelay err (wAttempts e)))"
    using keep by (auto simp: q sql_update_def)
  moreover have "\<exists>f \<in> set (failures (vDb v')). fInodeID f = wInodeID entry \<and> fKind f = FailureUpload \<and> fAttempts f = wAttempts entry + 1 \<and>
      fLastError f = aeText err \<and> fPermanent f = isPermanent err \<and> (isPermanent err \<longrightarrow> fNextRetryAt f = 0)"
    if "gives_up entry err" "wAction entry = Upload"
  proof -
    let ?f = "\<lparr>fInodeID = wInodeID entry, fKind = FailureUpload, fPermanent = isPermanent err, fAttempts = wAttempts entry + 1,
      fNextRetryAt = (if isPermanent err then 0 else add_delay (vNow (wE W)) (writebackRetryDelay err (wAttempts entry + 1))),
      fLastError = aeText err\<rparr>"
    have "vDb v' = snd (RecordSyncFailure ?f (snd (SetSyncStatus (wInodeID entry) StatusFailed (aeText err)
        (snd (UpdateWriteback (wID entry) WbFailed (aeText err) (wAttempts entry + 1) (vDb v1))))))"
      using that by (simp add: v' entry_failed_def Let_def gives_up_def [symmetric] del: if_split split: option.split)
    then have "?f \<in> set (failures (vDb v'))" using RecordSyncFailure_stored assms(2) by (simp add: sql_works_def)
    then show ?thesis by (rule bexI [rotated]) simp
  qed
  ultimately show ?thesis using run(1) by blast
qed

section \<open>The processor as a client of the database\<close>

text \<open>One step of the processor on its own: an entry with the real upload.\<close>

definition process_op :: "wenv \<times> WritebackEntry \<Rightarrow> vfs \<Rightarrow> vfs" where
  "process_op = (\<lambda>(W, entry) v. snd (snd (processEntry W (\<lambda>e w. (processUpload W e w, w)) entry v)))"

definition process_call :: "dbcall \<Rightarrow> bool" where
  "process_call c \<longleftrightarrow> \<not> enables_writeback c"

abbreviation works_on :: "db \<Rightarrow> db \<Rightarrow> bool" where
  "works_on \<equiv> reaches process_call"

lemma works_on_stmt:
  assumes "works_on d d1"
  shows "works_on d (snd (MarkDirty i d1))" "works_on d (snd (SetSyncStatus i st r d1))" "works_on d (snd (MarkSynced i etag d1))"
    "works_on d (snd (SetRemoteVersion i etag d1))" "works_on d (snd (SetLocalContentForVersion i h m etag d1))"
    "works_on d (snd (EnqueueWriteback k now i a p x d1))" "works_on d (snd (UpdateWriteback j ws le at d1))"
    "works_on d (snd (DeferWriteback j le at t d1))" "works_on d (snd (DeleteWriteback j d1))"
    "works_on d (snd (RecordSyncFailure f d1))" "works_on d (snd (ClearSyncFailure i kind d1))"
proof -
  have go: "works_on d (db_call c d1)" if "\<not> enables_writeback c" for c
    by (rule reaches_call [OF assms _ refl]) (simp add: process_call_def that)
  note s = enables_writeback_def
  show "works_on d (snd (MarkDirty i d1))" using go [of "CMarkDirty i"] by (simp add: s)
  show "works_on d (snd (SetSyncStatus i st r d1))" using go [of "CSetSyncStatus i st r"] by (simp add: s)
  show "works_on d (snd (MarkSynced i etag d1))" using go [of "CMarkSynced i etag"] by (simp add: s)
  show "works_on d (snd (SetRemoteVersion i etag d1))" using go [of "CSetRemoteVersion i etag"] by (simp add: s)
  show "works_on d (snd (SetLocalContentForVersion i h m etag d1))" using go [of "CSetLocalContentForVersion i h m etag"] by (simp add: s)
  show "works_on d (snd (EnqueueWriteback k now i a p x d1))" using go [of "CEnqueue k now i a p x"] by (simp add: s)
  show "works_on d (snd (UpdateWriteback j ws le at d1))" using go [of "CUpdateWriteback j ws le at"] by (simp add: s)
  show "works_on d (snd (DeferWriteback j le at t d1))" using go [of "CDeferWriteback j le at t"] by (simp add: s)
  show "works_on d (snd (DeleteWriteback j d1))" using go [of "CDeleteWriteback j"] by (simp add: s)
  show "works_on d (snd (RecordSyncFailure f d1))" using go [of "CRecordSyncFailure f"] by (simp add: s)
  show "works_on d (snd (ClearSyncFailure i kind d1))" using go [of "CClearSyncFailure i kind"] by (simp add: s)
qed

lemma works_on_failed: "works_on d (vDb v) \<Longrightarrow> works_on d (vDb (snd (entry_failed W entry n err v)))"
  by (auto simp: entry_failed_def Let_def intro!: works_on_stmt split: option.split)

lemma works_on_requeue: "works_on d (vDb v) \<Longrightarrow> works_on d (vDb (snd (requeue_changed W i path missing v)))"
  by (auto simp: requeue_changed_def Let_def case_prod_beta intro!: works_on_stmt)

lemma works_on_recorded: "works_on d (vDb v) \<Longrightarrow> works_on d (vDb (recordUploaded W entry up v))"
  by (auto simp: recordUploaded_def Let_def intro!: works_on_stmt)

lemma works_on_done: "works_on d (vDb v) \<Longrightarrow> works_on d (vDb (snd (entry_done W entry n pre up v)))"
  by (auto simp: entry_done_def Let_def case_prod_beta intro!: works_on_stmt works_on_requeue works_on_recorded split: option.split)

lemma action_still: "snd (run_action W (\<lambda>e w. (processUpload W e w, w)) entry v) = v"
  by (simp add: run_action_def Let_def split: wb_action.split option.split sum.split)

interpretation processor_db: db_client vDb process_op process_call
proof
  fix s :: vfs and c :: "wenv \<times> WritebackEntry"
  obtain W entry where c: "c = (W, entry)" by fastforce
  show "works_on (vDb s) (vDb (process_op c s))"
    using action_still [of W entry s]
    by (auto simp: c process_op_def processEntry_def Let_def intro!: works_on_failed works_on_done split: prod.splits sum.splits)
qed

text \<open>The mount as a whole: requests of the file system and steps of the processor in any order.\<close>

datatype mount_step = Request "venv \<times> vfs_request" | Process "wenv \<times> WritebackEntry"

definition mount_op :: "mount_step \<Rightarrow> vfs \<Rightarrow> vfs" where
  "mount_op st = (case st of Request r \<Rightarrow> vfs_op r | Process p \<Rightarrow> process_op p)"

interpretation mount_db: db_client vDb mount_op process_call
proof
  fix s :: vfs and c :: mount_step
  assume ok: "db_ok (vDb s)"
  have weaker: "works_on d d'" if "reaches edit_call d d'" for d d'
    using that by (auto simp: reaches_def process_call_def edit_call_def)
  show "works_on (vDb s) (vDb (mount_op c s))"
    using weaker [OF vfs_edit.op_reaches [OF ok]] processor_db.op_reaches [OF ok] by (cases c) (auto simp: mount_op_def)
qed

text \<open>
  Requests and write-back steps in any order, with any server answers and any failing statements,
  keep the keys of the database unique and its counters ahead; on a read-only mount they add no entry
  to the queue and write-back stays disabled.
\<close>

theorem mount_runs_keep_database:
  assumes "db_ok (vDb v)"
  shows "db_ok (vDb (fold mount_op cs v)) \<and>
    (writebackDisabled (vDb v) \<longrightarrow> writebackDisabled (vDb (fold mount_op cs v)) \<and>
       wID ` set (wbqueue (vDb (fold mount_op cs v))) \<subseteq> wID ` set (wbqueue (vDb v)))"
  using mount_db.run_db_ok [OF assms, of cs] reaches_read_only [OF mount_db.run_reaches [OF assms, of cs]]
  by (auto simp: process_call_def)

section \<open>What success does not check\<close>

text \<open>A removal, a new directory or a rename that succeeds ends in \<open>MarkSynced\<close> with the empty version,
  also when an upload of the same inode is still pending: the row loses its dirty mark and its version.\<close>

lemma rename_success_clears_dirty:
  assumes "wAction entry \<in> {wb_action.Mkdir, Rename}" "run_action W up entry v = (Inr u, v1)"
    and "\<not> sqlFails (vDb v1) OpMarkSynced" "processEntry W up entry v = (ok, ev, v')"
    and "r \<in> set (inodes (vDb v'))" "iID r = wInodeID entry"
  shows "\<not> iDirty r \<and> iEtag r = []"
proof -
  have u: "u = noContent" using assms(1,2) by (auto simp: run_action_def Let_def split: option.splits)
  have "v' = with_db (MarkSynced (wInodeID entry) []) (with_db (DeleteWriteback (wID entry)) v1)"
    using assms(1,2,4) u by (auto simp: processEntry_def entry_done_def Let_def local_changed_def noContent_def)
  then show ?thesis using assms(3,5,6) by (auto simp: MarkSynced_def exec_def upd_inodes_def sql_update_def)
qed

text \<open>A rename computes path tokens for the source and for the target, but both are stored under the same
  option: with a name key only those of the target, and their ancestors, are sent.\<close>

lemma rename_sends_target_tokens_only:
  assumes "vNameKey (wE W) \<noteq> []" "target \<noteq> []" "canonical \<noteq> []"
    and "fst (PathTokenOptionJSON (vTokens (wE W)) (vNameKey (wE W)) (PathTokenPaths target PathTokenSelfAndAncestors)) = canonical"
  shows "rename_options W source target ''path_tokens'' = Some canonical"
  using assms by (auto simp: rename_options_def addPathTokensTo_def AddPathTokenOptions_def Let_def case_prod_beta)

section \<open>Witnesses\<close>

definition sample_wenv :: wenv where
  "sample_wenv = \<lparr>wE = sample_venv, wSyncDir = [], wRemoteBase = [], wIsLink = (\<lambda>l. False), wLstat = (\<lambda>p. LNotExist),
     wFile = (\<lambda>p. FileMissing), wActivity = False, wDataKey = None, wFileNonce = [], wKeyRandom = ([], [], []),
     wTeeRandom = ([], [], []), wMarshalMeta = (\<lambda>m. None), wSignPub = None, wSign = None, wTeeKeys = None, wTeeDisabled = True,
     wTeeRefusal = None, wTeeStale = (\<lambda>e. (False, None)), wUploadFile = (\<lambda>bs p opts. Inr None),
     wExecute = (\<lambda>c opts. Inl (plain_api_err ''offline'')), wHybridText = (\<lambda>e. []), wFileText = (\<lambda>e. [])\<rparr>"

text \<open>An upload during which the file is written again.\<close>

definition sample_up :: uploader where
  "sample_up entry v = (Inr \<lparr>ucDigest = [], ucEtag = ''v2''\<rparr>, upd_node 1 (\<lambda>n. n\<lparr>nWriteGen := nWriteGen n + 1\<rparr>) v)"

definition sample_fail :: uploader where
  "sample_fail entry v = (Inl (plain_api_err ''offline''), v)"

lemma sample_upload_run:
  "NodeByID 1 sample_vfs = Some 1" "wInodeID sample_entry = 1" "wAction sample_entry = Upload" "wID sample_entry = 1" "wAttempts sample_entry = 0"
  "run_action sample_wenv sample_up sample_entry sample_vfs =
     (Inr \<lparr>ucDigest = [], ucEtag = ''v2''\<rparr>, upd_node 1 (\<lambda>n. n\<lparr>nWriteGen := nWriteGen n + 1\<rparr>) sample_vfs)"
  "run_action sample_wenv sample_fail sample_entry sample_vfs = (Inl (plain_api_err ''offline''), sample_vfs)"
  by (simp_all add: NodeByID_def sample_vfs_def sample_entry_def run_action_def Let_def sample_up_def sample_fail_def plain_api_err_def)

theorem upload_no_lost_update_witness:
  "\<exists>ev v'. processEntry sample_wenv sample_up sample_entry sample_vfs = (True, ev, v') \<and> nDirty (node_at v' 1) \<and>
     nData (node_at v' 1) = Some [7, 8, 9] \<and> (\<exists>r \<in> set (inodes (vDb v')). iID r = 1 \<and> iDirty r)"
proof -
  let ?v1 = "upd_node 1 (\<lambda>n. n\<lparr>nWriteGen := nWriteGen n + 1\<rparr>) sample_vfs"
  obtain ok ev v' where run: "processEntry sample_wenv sample_up sample_entry sample_vfs = (ok, ev, v')" by (metis prod_cases3)
  have a: "1 < length (heap ?v1)" by (simp add: sample_node_at)
  have n: "node_at ?v1 1 = sample_node\<lparr>nWriteGen := nWriteGen sample_node + 1\<rparr>"
    using node_at_upd [of 1 sample_vfs] by (simp add: sample_node_at del: One_nat_def)
  have d: "\<not> writebackDisabled (vDb ?v1)" "\<forall>x. \<not> sqlFails (vDb ?v1) x" "1 \<in> iID ` set (inodes (vDb ?v1))"
    by (simp_all add: sample_node_at sample_defs)
  show ?thesis
    using upload_no_lost_update [OF sample_upload_run(3) sample_upload_run(1) [folded sample_upload_run(2)] sample_upload_run(6) a run] run d
    by (auto simp: n sample_node_at sample_node_fields sample_upload_run(2) simp del: One_nat_def)
qed

theorem failed_entry_kept_witness:
  "\<exists>ev v'. processEntry sample_wenv sample_fail sample_entry sample_vfs = (False, ev, v') \<and> map wID (wbqueue (vDb v')) = [1]"
proof -
  obtain ok ev v' where run: "processEntry sample_wenv sample_fail sample_entry sample_vfs = (ok, ev, v')" by (metis prod_cases3)
  have d: "sql_works (vDb sample_vfs)" "map wID (wbqueue (vDb sample_vfs)) = [1]" by (simp_all add: sql_works_def sample_node_at sample_defs)
  show ?thesis using failed_entry_kept [OF sample_upload_run(7) d(1) run] run d(2) by auto
qed

definition sample_world :: "nat \<Rightarrow> world" where
  "sample_world k = \<lparr>wdExpired = 3 \<le> k, wdEnv = sample_wenv, wdUpload = sample_fail\<rparr>"

theorem FlushAll_ends_witness:
  "\<exists>res err v'. FlushAll sample_world sample_vfs = Some ((res, err), v')"
  using FlushAll_ends [of 3 sample_world sample_vfs] by (simp add: sample_world_def)

theorem claims_settled_witness:
  "in_progress (vDb (processBatch sample_world 0 sample_vfs)) = {}"
proof -
  have "\<forall>k. tame (wdUpload (sample_world k))" by (simp add: tame_def sample_world_def sample_fail_def)
  moreover have "sql_works (vDb sample_vfs)" "in_progress (vDb sample_vfs) = {}"
    by (simp_all add: sql_works_def sample_node_at in_progress_def sample_defs)
  ultimately show ?thesis using claims_settled [of sample_world sample_vfs 0] by blast
qed

theorem mount_runs_keep_database_witness:
  "db_ok (vDb (fold mount_op [Request (sample_venv, RFlush 1), Process (sample_wenv, sample_entry)] sample_vfs))"
  by (rule mount_runs_keep_database [of sample_vfs, THEN conjunct1, unfolded sample_node_at, OF sample_db_ok])

end
