(* ===== verification/TreeModel.thy ===== *)
theory TreeModel
  imports ParentRef Names
begin

text \<open>
  The tree of remote nodes: \<open>internal/tree/tree.go\<close>, \<open>fetch.go\<close> and \<open>cache.go\<close>. The server knows the
  nodes only as shells with sealed names and sealed parent references; the client decodes them and
  builds the tree.

  Parameters are what the sources leave open: Unicode lower case and case folding, the order in which
  a Go map is ranged over, and the order \<open>sort.Slice\<close> gives to equal elements.
\<close>

section \<open>Nodes and trees\<close>

record tnode =
  tnID :: string
  tnName :: string
  tnParentID :: string
  tnIsDir :: bool
  tnSize :: int
  tnCreatedAt :: int
  tnModifiedAt :: int
  tnHidden :: bool
  tnTrashed :: bool

record Shell =
  shNodeID :: string
  shItemType :: string
  shFileSize :: int
  shCreatedAt :: int
  shModifiedAt :: int
  shIsHidden :: bool
  shIsTrashed :: bool
  shDisplayName :: string
  shSealedParent :: string
  shPlaintextParent :: string

record Tree =
  byID :: "(string \<times> tnode) list"
  childIDs :: "(string \<times> string list) list"
  Orphans :: "string list"

record tree_env =
  trLower :: "string \<Rightarrow> string"
  trEqualFold :: "string \<Rightarrow> string \<Rightarrow> bool"
  trSortSlice :: "(string \<Rightarrow> string \<Rightarrow> bool) \<Rightarrow> string list \<Rightarrow> string list"
  trRangeKeys :: "string list \<Rightarrow> string list"

definition GetNode :: "string \<Rightarrow> Tree \<Rightarrow> tnode option" where
  "GetNode i t = map_of (byID t) i"

definition kids :: "Tree \<Rightarrow> string \<Rightarrow> string list" where
  "kids t p = (case map_of (childIDs t) p of Some ids \<Rightarrow> ids | None \<Rightarrow> [])"

definition push_kid :: "string \<Rightarrow> string \<Rightarrow> Tree \<Rightarrow> Tree" where
  "push_kid p i t = t\<lparr>childIDs := AList.update p (kids t p @ [i]) (childIDs t)\<rparr>"

section \<open>Building the tree\<close>

definition attach_node :: "tnode \<Rightarrow> Tree \<Rightarrow> Tree" where
  "attach_node n t =
     (if tnParentID n \<noteq> [] \<and> GetNode (tnParentID n) t = None
      then push_kid [] (tnID n) (t\<lparr>Orphans := Orphans t @ [tnID n]\<rparr>)
      else push_kid (tnParentID n) (tnID n) t)"

definition reroot :: "string \<Rightarrow> Tree \<Rightarrow> Tree" where
  "reroot i t =
     (case GetNode i t of
        None \<Rightarrow> t
      | Some n \<Rightarrow>
          if tnParentID n = [] then t
          else
            let p = tnParentID n;
                t1 = (if i \<in> set (kids t p) then t\<lparr>childIDs := AList.update p (remove1 i (kids t p)) (childIDs t)\<rparr> else t);
                t2 = t1\<lparr>byID := AList.update i (n\<lparr>tnParentID := []\<rparr>) (byID t1)\<rparr>;
                t3 = push_kid [] i t2
            in t3\<lparr>Orphans := Orphans t3 @ [i]\<rparr>)"

text \<open>The walk up from a node: the ids passed, or \<open>None\<close> when it comes to one it has passed before.\<close>

function chase :: "Tree \<Rightarrow> string list \<Rightarrow> string list \<Rightarrow> string \<Rightarrow> string list option" where
  "chase t reachable chain cur =
     (if cur = [] \<or> cur \<in> set reachable then Some chain
      else if cur \<in> set chain then None
      else case GetNode cur t of
             None \<Rightarrow> Some (chain @ [cur])
           | Some n \<Rightarrow> chase t reachable (chain @ [cur]) (tnParentID n))"
  by pat_completeness auto
termination
proof (relation "measure (\<lambda>(t, reachable, chain, cur). card (fst ` set (byID t) - set chain))")
  fix t reachable chain cur n
  assume "\<not> (cur = [] \<or> cur \<in> set reachable)" "cur \<notin> set chain" "GetNode cur t = Some n"
  then have "cur \<in> fst ` set (byID t) - set chain" by (force simp: GetNode_def dest: map_of_SomeD)
  then have "fst ` set (byID t) - set (chain @ [cur]) \<subset> fst ` set (byID t) - set chain" by auto
  then show "((t, reachable, chain @ [cur], tnParentID n), t, reachable, chain, cur)
      \<in> measure (\<lambda>(t, reachable, chain, cur). card (fst ` set (byID t) - set chain))"
    by (simp add: psubset_card_mono)
qed simp

fun detach_from :: "string list \<Rightarrow> string list \<Rightarrow> Tree \<Rightarrow> Tree" where
  "detach_from [] reachable t = t"
| "detach_from (i # ids) reachable t =
     (if i \<in> set reachable then detach_from ids reachable t
      else case chase t reachable [] i of
             Some chain \<Rightarrow> detach_from ids (chain @ reachable) t
           | None \<Rightarrow> detach_from ids reachable (reroot i t))"

definition detachCycles :: "tree_env \<Rightarrow> Tree \<Rightarrow> Tree" where
  "detachCycles R t = detach_from (trRangeKeys R (map fst (byID t))) [] t"

fun string_less :: "string \<Rightarrow> string \<Rightarrow> bool" where
  "string_less a [] = False"
| "string_less [] (d # ds) = True"
| "string_less (c # cs) (d # ds) = ((of_char c :: nat) < of_char d \<or> c = d \<and> string_less cs ds)"

definition child_less :: "tree_env \<Rightarrow> Tree \<Rightarrow> string \<Rightarrow> string \<Rightarrow> bool" where
  "child_less R t i j =
     (case (GetNode i t, GetNode j t) of
        (Some a, Some b) \<Rightarrow>
          if tnIsDir a \<noteq> tnIsDir b then tnIsDir a else string_less (trLower R (tnName a)) (trLower R (tnName b))
      | _ \<Rightarrow> False)"

definition index_nodes :: "tnode list \<Rightarrow> (string \<times> tnode) list" where
  "index_nodes ns = fold (\<lambda>n. AList.update (tnID n) n) ns []"

definition NewTree :: "tree_env \<Rightarrow> tnode list \<Rightarrow> Tree" where
  "NewTree R ns =
     (let t1 = fold attach_node ns \<lparr>byID = index_nodes ns, childIDs = [], Orphans = []\<rparr>;
          t2 = detachCycles R t1
      in t2\<lparr>childIDs := map (\<lambda>(p, ids). (p, trSortSlice R (child_less R t2) ids)) (childIDs t2)\<rparr>)"

section \<open>Questions to the tree\<close>

definition Children :: "string \<Rightarrow> Tree \<Rightarrow> tnode list" where
  "Children p t = List.map_filter (\<lambda>i. GetNode i t) (kids t p)"

definition mentioned :: "Tree \<Rightarrow> string set" where
  "mentioned t = (\<Union>(p, ids) \<in> set (childIDs t). set ids)"

lemma kids_mentioned: "set (kids t p) \<subseteq> mentioned t"
  by (cases "map_of (childIDs t) p") (auto simp: kids_def mentioned_def dest!: map_of_SomeD)

lemma finite_mentioned [simp]: "finite (mentioned t)"
  by (auto simp: mentioned_def)

text \<open>One level of the breadth-first walk: the ids seen, the ids found and the next frontier.\<close>

fun visit_level :: "Tree \<Rightarrow> string list \<Rightarrow> string list \<Rightarrow> string list \<Rightarrow> string list \<Rightarrow> string list \<times> string list \<times> string list" where
  "visit_level t [] seen found next_ids = (seen, found, next_ids)"
| "visit_level t (i # ids) seen found next_ids =
     (if i \<in> set seen then visit_level t ids seen found next_ids
      else visit_level t ids (i # seen) (found @ [i]) (next_ids @ kids t i))"

lemma visit_level_spec:
  "visit_level t ids seen found next_ids = (seen', found', next') \<Longrightarrow>
     (\<exists>new. set seen' = set seen \<union> set new \<and> found' = found @ new \<and> distinct new \<and> set new = set ids - set seen \<and>
        set next' = set next_ids \<union> (\<Union>i \<in> set new. set (kids t i)) \<and> (new = [] \<longrightarrow> next' = next_ids))"
proof (induction t ids seen found next_ids arbitrary: seen' found' next' rule: visit_level.induct)
  case (2 t i ids seen found next_ids)
  show ?case
  proof (cases "i \<in> set seen")
    case True
    then obtain new where "set seen' = set seen \<union> set new \<and> found' = found @ new \<and> distinct new \<and> set new = set ids - set seen \<and>
        set next' = set next_ids \<union> (\<Union>i \<in> set new. set (kids t i)) \<and> (new = [] \<longrightarrow> next' = next_ids)"
      using 2 by auto
    then show ?thesis using True by (intro exI [of _ new]) auto
  next
    case False
    then have "visit_level t ids (i # seen) (found @ [i]) (next_ids @ kids t i) = (seen', found', next')" using 2(3) by simp
    from 2(2) [OF False this] obtain new where "set seen' = set (i # seen) \<union> set new" "found' = (found @ [i]) @ new" "distinct new"
        "set new = set ids - set (i # seen)" "set next' = set (next_ids @ kids t i) \<union> (\<Union>i \<in> set new. set (kids t i))"
      by blast
    then show ?thesis using False by (intro exI [of _ "i # new"]) auto
  qed
qed simp

function descend :: "Tree \<Rightarrow> string list \<Rightarrow> string list \<Rightarrow> string list \<Rightarrow> string list" where
  "descend t frontier seen out =
     (if frontier = [] then out
      else case visit_level t frontier seen out [] of (seen', out', next') \<Rightarrow> descend t next' seen' out')"
  by pat_completeness auto
termination
proof (relation "measures [\<lambda>(t, frontier, seen, out). card ((mentioned t \<union> set frontier) - set seen),
    \<lambda>(t, frontier, seen, out). length frontier]")
  fix t frontier seen out seen' y out' next'
  assume ne: "frontier \<noteq> []" and x: "(seen', y) = visit_level t frontier seen out []" "(out', next') = y"
  then have "visit_level t frontier seen out [] = (seen', out', next')" by simp
  from visit_level_spec [OF this] obtain new where
    n: "set seen' = set seen \<union> set new" "set new = set frontier - set seen" "set next' = (\<Union>i \<in> set new. set (kids t i))"
      "new = [] \<longrightarrow> next' = []" by auto
  have sub: "(mentioned t \<union> set next') - set seen' \<subseteq> (mentioned t \<union> set frontier) - set seen - set new"
    using n kids_mentioned [of t] by blast
  show "((t, next', seen', out'), t, frontier, seen, out) \<in> measures [\<lambda>(t, frontier, seen, out).
      card ((mentioned t \<union> set frontier) - set seen), \<lambda>(t, frontier, seen, out). length frontier]"
  proof (cases "new = []")
    case True
    then show ?thesis using n ne sub by (simp add: card_mono le_imp_less_or_eq)
  next
    case False
    then have "(mentioned t \<union> set frontier) - set seen - set new \<subset> (mentioned t \<union> set frontier) - set seen"
      using n(2) by (cases new) auto
    then have "card ((mentioned t \<union> set next') - set seen') < card ((mentioned t \<union> set frontier) - set seen)"
      using sub by (intro psubset_card_mono) auto
    then show ?thesis by simp
  qed
qed simp

definition Descendants :: "string \<Rightarrow> Tree \<Rightarrow> string list" where
  "Descendants p t = descend t (kids t p) [p] []"

definition node_ids :: "Tree \<Rightarrow> string set" where
  "node_ids t = tnID ` snd ` set (byID t)"

lemma Children_ids: "tnID ` set (Children p t) \<subseteq> node_ids t"
  by (force simp: Children_def node_ids_def GetNode_def map_filter_def dest: map_of_SomeD)

text \<open>The recursive walk of \<open>Subtree\<close> as a stack of nodes still to visit; the children of a directory
  go on top.\<close>

function subtree_walk :: "Tree \<Rightarrow> bool \<Rightarrow> tnode list \<Rightarrow> string list \<Rightarrow> string list \<Rightarrow> string list" where
  "subtree_walk t includeHidden [] seen out = out"
| "subtree_walk t includeHidden (c # cs) seen out =
     (if tnID c \<in> set seen \<or> tnTrashed c then subtree_walk t includeHidden cs seen out
      else if \<not> includeHidden \<and> tnHidden c then subtree_walk t includeHidden cs seen out
      else subtree_walk t includeHidden ((if tnIsDir c then Children (tnID c) t else []) @ cs)
             (tnID c # seen) (out @ [tnID c]))"
  by pat_completeness auto
termination
proof (relation "measures [\<lambda>(t, hid, cs, seen, out). card ((node_ids t \<union> tnID ` set cs) - set seen), \<lambda>(t, hid, cs, seen, out). length cs]")
  fix t :: Tree and hid :: bool and c :: tnode and cs seen and out :: "string list"
  have "card ((node_ids t \<union> tnID ` set cs) - set seen) \<le> card ((node_ids t \<union> tnID ` set (c # cs)) - set seen)"
    by (intro card_mono) (auto simp: node_ids_def)
  then show "((t, hid, cs, seen, out), t, hid, c # cs, seen, out) \<in> measures [\<lambda>(t, hid, cs, seen, out).
      card ((node_ids t \<union> tnID ` set cs) - set seen), \<lambda>(t, hid, cs, seen, out). length cs]"
    "((t, hid, cs, seen, out), t, hid, c # cs, seen, out) \<in> measures [\<lambda>(t, hid, cs, seen, out).
      card ((node_ids t \<union> tnID ` set cs) - set seen), \<lambda>(t, hid, cs, seen, out). length cs]"
    by auto
  assume "\<not> (tnID c \<in> set seen \<or> tnTrashed c)"
  then have "(node_ids t \<union> tnID ` set ((if tnIsDir c then Children (tnID c) t else []) @ cs)) - set (tnID c # seen)
      \<subset> (node_ids t \<union> tnID ` set (c # cs)) - set seen"
    using Children_ids [of "tnID c" t] by auto
  then have "card ((node_ids t \<union> tnID ` set ((if tnIsDir c then Children (tnID c) t else []) @ cs)) - set (tnID c # seen))
      < card ((node_ids t \<union> tnID ` set (c # cs)) - set seen)"
    by (intro psubset_card_mono) (auto simp: node_ids_def)
  then show "((t, hid, (if tnIsDir c then Children (tnID c) t else []) @ cs, tnID c # seen, out @ [tnID c]), t, hid, c # cs, seen, out)
      \<in> measures [\<lambda>(t, hid, cs, seen, out). card ((node_ids t \<union> tnID ` set cs) - set seen), \<lambda>(t, hid, cs, seen, out). length cs]"
    by simp
qed simp

definition Subtree :: "string \<Rightarrow> bool \<Rightarrow> Tree \<Rightarrow> string list" where
  "Subtree p includeHidden t = subtree_walk t includeHidden (Children p t) [p] []"

datatype treeError = PathNotFound

fun resolve_from :: "tree_env \<Rightarrow> Tree \<Rightarrow> string list \<Rightarrow> string \<Rightarrow> tnode option \<Rightarrow> treeError + tnode" where
  "resolve_from R t [] parent found = (case found of Some n \<Rightarrow> Inr n | None \<Rightarrow> Inl PathNotFound)"
| "resolve_from R t (segment # segs) parent found =
     (if segment = [] \<or> segment = ''.'' then resolve_from R t segs parent found
      else case find (\<lambda>c. trEqualFold R (tnName c) segment \<and> \<not> tnTrashed c) (Children parent t) of
             Some c \<Rightarrow> resolve_from R t segs (tnID c) (Some c)
           | None \<Rightarrow> Inl PathNotFound)"

text \<open>The root is no node: \<open>None\<close> stands for the nil result.\<close>

definition Resolve :: "tree_env \<Rightarrow> string \<Rightarrow> Tree \<Rightarrow> treeError + tnode option" where
  "Resolve R path t =
     (let trimmed = Trim (CHR ''/'') (ReplaceChar (CHR 0x5C) (CHR ''/'') path) in
      if trimmed = [] then Inr None
      else case resolve_from R t (split_slash trimmed) [] None of Inl e \<Rightarrow> Inl e | Inr n \<Rightarrow> Inr (Some n))"

function path_parts :: "Tree \<Rightarrow> string list \<Rightarrow> string list \<Rightarrow> string \<Rightarrow> string list option" where
  "path_parts t seen parts cur =
     (if cur = [] then Some parts
      else if cur \<in> set seen then None
      else case GetNode cur t of
             None \<Rightarrow> None
           | Some n \<Rightarrow> path_parts t (cur # seen) (parts @ [tnName n]) (tnParentID n))"
  by pat_completeness auto
termination
proof (relation "measure (\<lambda>(t, seen, parts, cur). card (fst ` set (byID t) - set seen))")
  fix t seen and parts :: "string list" and cur n
  assume "cur \<notin> set seen" "GetNode cur t = Some n"
  then have "cur \<in> fst ` set (byID t) - set seen" by (force simp: GetNode_def dest: map_of_SomeD)
  then have "fst ` set (byID t) - set (cur # seen) \<subset> fst ` set (byID t) - set seen" by auto
  then show "((t, cur # seen, parts @ [tnName n], tnParentID n), t, seen, parts, cur)
      \<in> measure (\<lambda>(t, seen, parts, cur). card (fst ` set (byID t) - set seen))"
    by (simp add: psubset_card_mono)
qed simp

definition PathOf :: "string \<Rightarrow> Tree \<Rightarrow> string" where
  "PathOf i t = (case path_parts t [] [] i of Some parts \<Rightarrow> join_slash (rev parts) | None \<Rightarrow> [])"

definition LenTree :: "Tree \<Rightarrow> nat" where "LenTree t = length (byID t)"

definition IDBytes :: "string \<Rightarrow> bytes option" where
  "IDBytes hexID = (case hex_decode hexID of None \<Rightarrow> None | Some raw \<Rightarrow> if length raw \<noteq> 16 then None else Some raw)"

declare chase.simps [simp del] descend.simps [simp del] path_parts.simps [simp del]

section \<open>Fetching\<close>

record TreeKeys =
  tkPriv :: "PrivateKeySet option"
  tkParentKey :: "bytes option"

record shellPage =
  spShells :: "Shell list"
  spNextCursor :: "string option"
  spDone :: bool

datatype fetchError =
    PrivateKeySetRequired | WalkDidNotTerminate | ListShellsFailed string | ListShellsRefused | ParseShells | BadNodeID string

text \<open>The outside of a fetch: the decoded answers of the server, base64, the cache file's key, JSON of a
  snapshot, a fresh nonce and whether the cache file can be written.\<close>

record snapshot =
  snDigest :: string
  snNodes :: "tnode list"

record fetch_env =
  fePrims :: prims
  feListShells :: "options \<Rightarrow> fetchError + shellPage"
  feShellDigest :: "string option"
  feB64Decode :: "string \<Rightarrow> bytes option"
  feCacheKey :: "bytes option"
  feUnmarshal :: "bytes \<Rightarrow> snapshot option"
  feMarshal :: "snapshot \<Rightarrow> bytes option"
  feNonce :: "bytes option"
  feCanWrite :: bool

definition decodeShell :: "fetch_env \<Rightarrow> TreeKeys \<Rightarrow> Shell \<Rightarrow> fetchError + tnode" where
  "decodeShell F keys sh =
     (case IDBytes (shNodeID sh) of
        None \<Rightarrow> Inl (BadNodeID (shNodeID sh))
      | Some nodeID \<Rightarrow>
          (let name = (case feB64Decode F (shDisplayName sh) of
                         None \<Rightarrow> ''(encrypted)''
                       | Some sealed \<Rightarrow>
                           (case UnsealDisplayName (fePrims F) sealed (tkPriv keys) of
                              Inl _ \<Rightarrow> ''(encrypted)'' | Inr nm \<Rightarrow> nm));
               parent = (if shSealedParent sh = [] then shPlaintextParent sh
                         else case feB64Decode F (shSealedParent sh) of
                                None \<Rightarrow> shPlaintextParent sh
                              | Some blob \<Rightarrow>
                                  (case OpenParentRef (fePrims F) blob nodeID (tkParentKey keys) (tkPriv keys) of
                                     Inl _ \<Rightarrow> shPlaintextParent sh
                                   | Inr None \<Rightarrow> []
                                   | Inr (Some bs) \<Rightarrow> hex_encode bs))
           in Inr \<lparr>tnID = shNodeID sh, tnName = name, tnParentID = parent,
                 tnIsDir = (shItemType sh = ''directory'' \<or> shItemType sh = ''folder''), tnSize = shFileSize sh,
                 tnCreatedAt = shCreatedAt sh, tnModifiedAt = shModifiedAt sh, tnHidden = shIsHidden sh,
                 tnTrashed = shIsTrashed sh\<rparr>))"

fun decode_shells :: "fetch_env \<Rightarrow> TreeKeys \<Rightarrow> Shell list \<Rightarrow> fetchError + tnode list" where
  "decode_shells F keys [] = Inr []"
| "decode_shells F keys (sh # shs) =
     (case decodeShell F keys sh of
        Inl e \<Rightarrow> Inl e
      | Inr n \<Rightarrow> (case decode_shells F keys shs of Inl e \<Rightarrow> Inl e | Inr ns \<Rightarrow> Inr (n # ns)))"

text \<open>The pages that may still be asked for: the walk gives up after 10001.\<close>

definition maxShellPages :: nat where "maxShellPages = 10001"

fun fetch_pages :: "fetch_env \<Rightarrow> TreeKeys \<Rightarrow> nat \<Rightarrow> string \<Rightarrow> tnode list \<Rightarrow> fetchError + tnode list" where
  "fetch_pages F keys 0 cursor nodes = Inl WalkDidNotTerminate"
| "fetch_pages F keys (Suc k) cursor nodes =
     (case feListShells F (if cursor \<noteq> [] then [''cursor'' \<mapsto> cursor] else Map.empty) of
        Inl e \<Rightarrow> Inl e
      | Inr page \<Rightarrow>
          (case decode_shells F keys (spShells page) of
             Inl e \<Rightarrow> Inl e
           | Inr ns \<Rightarrow>
               (case (spDone page, spNextCursor page) of
                  (False, Some c) \<Rightarrow> if c = [] then Inr (nodes @ ns) else fetch_pages F keys k c (nodes @ ns)
                | _ \<Rightarrow> Inr (nodes @ ns))))"

definition FetchTree :: "tree_env \<Rightarrow> fetch_env \<Rightarrow> TreeKeys \<Rightarrow> fetchError + Tree" where
  "FetchTree R F keys =
     (if tkPriv keys = None then Inl PrivateKeySetRequired
      else case fetch_pages F keys maxShellPages [] [] of Inl e \<Rightarrow> Inl e | Inr ns \<Rightarrow> Inr (NewTree R ns))"

definition serverDigest :: "fetch_env \<Rightarrow> string option" where
  "serverDigest F = (case feShellDigest F of Some d \<Rightarrow> if d = [] then None else Some d | None \<Rightarrow> None)"

definition readSnapshot :: "fetch_env \<Rightarrow> bytes \<Rightarrow> bytes option \<Rightarrow> snapshot option" where
  "readSnapshot F cacheKey cacheFile =
     (case cacheFile of
        None \<Rightarrow> None
      | Some blob \<Rightarrow>
          if \<not> newX_ok cacheKey \<or> length blob < NonceSize then None
          else case pOpen (fePrims F) cacheKey (take NonceSize blob) (drop NonceSize blob) [] of
                 None \<Rightarrow> None
               | Some plain \<Rightarrow> feUnmarshal F plain)"

definition writeSnapshot :: "fetch_env \<Rightarrow> bytes \<Rightarrow> snapshot \<Rightarrow> bytes option \<Rightarrow> bytes option" where
  "writeSnapshot F cacheKey snap cacheFile =
     (case feMarshal F snap of
        None \<Rightarrow> cacheFile
      | Some plain \<Rightarrow>
          if \<not> newX_ok cacheKey then cacheFile
          else case feNonce F of
                 None \<Rightarrow> cacheFile
               | Some nonce \<Rightarrow>
                   if feCanWrite F then Some (nonce @ pSeal (fePrims F) cacheKey nonce plain []) else cacheFile)"

text \<open>The state of \<open>Load\<close> is the cache file, absent or with its bytes.\<close>

definition LoadTree :: "tree_env \<Rightarrow> fetch_env \<Rightarrow> TreeKeys \<Rightarrow> bytes option \<Rightarrow> (fetchError + Tree) \<times> bytes option" where
  "LoadTree R F keys cacheFile =
     (if tkPriv keys = None then (Inl PrivateKeySetRequired, cacheFile)
      else
        let cached = (case (serverDigest F, feCacheKey F) of
                        (Some digest, Some key) \<Rightarrow>
                          (case readSnapshot F key cacheFile of
                             Some snap \<Rightarrow> if snDigest snap = digest then Some (snNodes snap) else None
                           | None \<Rightarrow> None)
                      | _ \<Rightarrow> None)
        in case cached of
             Some ns \<Rightarrow> (Inr (NewTree R ns), cacheFile)
           | None \<Rightarrow>
               (case FetchTree R F keys of
                  Inl e \<Rightarrow> (Inl e, cacheFile)
                | Inr built \<Rightarrow>
                    (case (serverDigest F, feCacheKey F) of
                       (Some digest, Some key) \<Rightarrow>
                         (let ns = List.map_filter (\<lambda>i. GetNode i built) (trRangeKeys R (map fst (byID built)))
                          in (Inr built, writeSnapshot F key \<lparr>snDigest = digest, snNodes = ns\<rparr> cacheFile))
                     | _ \<Rightarrow> (Inr built, cacheFile))))"

end
