(* ===== verification/TreeLaws.thy ===== *)
theory TreeLaws
  imports TreeModel "HOL-Library.Multiset"
begin

text \<open>
  The laws of the tree: whatever parents the shells name, missing ones and cycles included, every node
  has exactly one place and is found from the root; the path of a node resolves to it; and a snapshot
  written to the cache file loads as the same nodes.
\<close>

section \<open>Order and case folding\<close>

text \<open>What Go documents: ranging over a map visits every key once, sorting permutes, and folding is
  reflexive.\<close>

definition tree_env_ok :: "tree_env \<Rightarrow> bool" where
  "tree_env_ok R \<longleftrightarrow> (\<forall>lt ids. mset (trSortSlice R lt ids) = mset ids) \<and> (\<forall>ks. mset (trRangeKeys R ks) = mset ks) \<and>
     (\<forall>s. trEqualFold R s s)"

lemma range_keys_set: "tree_env_ok R \<Longrightarrow> set (trRangeKeys R ks) = set ks"
  by (metis tree_env_ok_def set_mset_mset)

lemma sort_slice_set: "tree_env_ok R \<Longrightarrow> set (trSortSlice R lt ids) = set ids"
  by (metis tree_env_ok_def set_mset_mset)

lemma sort_slice_distinct: "tree_env_ok R \<Longrightarrow> distinct (trSortSlice R lt ids) = distinct ids"
  by (metis tree_env_ok_def mset_eq_imp_distinct_iff)

section \<open>Places\<close>

definition keys :: "Tree \<Rightarrow> string set" where
  "keys t = fst ` set (byID t)"

lemma GetNode_None: "GetNode i t = None \<longleftrightarrow> i \<notin> keys t"
  by (simp add: GetNode_def keys_def map_of_eq_None_iff)

lemma GetNode_Some_key: "GetNode i t = Some n \<Longrightarrow> i \<in> keys t"
  using GetNode_None [of i t] by force

text \<open>Where a node hangs: under its parent, or under the root if that is missing.\<close>

definition place :: "Tree \<Rightarrow> string \<Rightarrow> string" where
  "place t i = (case GetNode i t of Some n \<Rightarrow> if tnParentID n \<in> keys t then tnParentID n else [] | None \<Rightarrow> [])"

definition linked :: "Tree \<Rightarrow> bool" where
  "linked t \<longleftrightarrow> [] \<notin> keys t \<and> (\<forall>i n. GetNode i t = Some n \<longrightarrow> tnID n = i) \<and>
     (\<forall>p. distinct (kids t p)) \<and> (\<forall>p i. i \<in> set (kids t p) \<longleftrightarrow> i \<in> keys t \<and> place t i = p)"

lemma kids_push [simp]: "kids (push_kid p i t) q = (if q = p then kids t p @ [i] else kids t q)"
  by (simp add: kids_def push_kid_def update_conv')

lemma push_frame [simp]: "byID (push_kid p i t) = byID t" "GetNode j (push_kid p i t) = GetNode j t" "keys (push_kid p i t) = keys t"
  by (simp_all add: push_kid_def GetNode_def keys_def)

lemma orphan_frame [simp]:
  "kids (t\<lparr>Orphans := os\<rparr>) p = kids t p" "GetNode j (t\<lparr>Orphans := os\<rparr>) = GetNode j t" "keys (t\<lparr>Orphans := os\<rparr>) = keys t"
  by (simp_all add: kids_def GetNode_def keys_def)

lemma attach_frame [simp]: "byID (attach_node n t) = byID t" "GetNode j (attach_node n t) = GetNode j t" "keys (attach_node n t) = keys t"
  by (simp_all add: attach_node_def)

lemma kids_attach:
  assumes "GetNode (tnID n) t = Some n" "[] \<notin> keys t"
  shows "kids (attach_node n t) q = (if q = place t (tnID n) then kids t q @ [tnID n] else kids t q)"
  using assms by (auto simp: attach_node_def place_def GetNode_None)

lemma place_cong: "(\<And>i. GetNode i t' = GetNode i t) \<Longrightarrow> place t' i = place t i"
  by (simp add: place_def GetNode_None [symmetric] not_None_eq [symmetric] del: not_None_eq split: option.split) (metis GetNode_None)

lemma place_attach [simp]: "place (attach_node n t) i = place t i"
  by (rule place_cong) simp

subsection \<open>Attaching\<close>

lemma map_of_index: "map_of (fold (\<lambda>n. AList.update (tnID n) n) ns al) = map_of al ++ map_of (map (\<lambda>n. (tnID n, n)) (rev ns))"
proof (induction ns arbitrary: al)
  case (Cons n ns)
  then show ?case by (auto simp: update_conv' map_add_def fun_eq_iff split: option.splits)
qed simp

lemma index_nodes_get:
  assumes "distinct (map tnID ns)"
  shows "map_of (index_nodes ns) i = Some n \<longleftrightarrow> n \<in> set ns \<and> tnID n = i"
proof -
  have "distinct (map fst (map (\<lambda>n. (tnID n, n)) (rev ns)))" using assms by (simp add: comp_def rev_map [symmetric])
  then show ?thesis
    using map_of_index [of ns "[]"] by (auto simp: index_nodes_def map_of_eq_Some_iff simp del: map_of_map_restrict)
qed

lemma attach_all:
  assumes "set ms \<subseteq> set ns" "\<And>n. n \<in> set ns \<Longrightarrow> GetNode (tnID n) t = Some n" "[] \<notin> keys t" "distinct (map tnID ms)"
    and "\<And>p. distinct (kids t p) \<and> (set (kids t p) \<inter> tnID ` set ms = {})"
  shows "byID (fold attach_node ms t) = byID t \<and> (\<forall>p. distinct (kids (fold attach_node ms t) p)) \<and>
    (\<forall>p i. i \<in> set (kids (fold attach_node ms t) p) \<longleftrightarrow> i \<in> set (kids t p) \<or> i \<in> tnID ` set ms \<and> place t i = p)"
  using assms
proof (induction ms arbitrary: t)
  case (Cons m ms)
  let ?t = "attach_node m t"
  have k: "kids ?t q = (if q = place t (tnID m) then kids t q @ [tnID m] else kids t q)" for q
    using Cons.prems by (intro kids_attach) auto
  have "byID (fold attach_node ms ?t) = byID ?t \<and> (\<forall>p. distinct (kids (fold attach_node ms ?t) p)) \<and>
    (\<forall>p i. i \<in> set (kids (fold attach_node ms ?t) p) \<longleftrightarrow> i \<in> set (kids ?t p) \<or> i \<in> tnID ` set ms \<and> place ?t i = p)"
  proof (rule Cons.IH)
    show "distinct (kids ?t p) \<and> (set (kids ?t p) \<inter> tnID ` set ms = {})" for p
      using Cons.prems(4) Cons.prems(5) [of p] by (auto simp: k)
  qed (use Cons.prems in auto)
  then show ?case by (auto simp: k)
qed simp

lemma linked_attached:
  assumes "distinct (map tnID ns)" "[] \<notin> tnID ` set ns"
  shows "linked (fold attach_node ns \<lparr>byID = index_nodes ns, childIDs = [], Orphans = []\<rparr>) \<and>
    keys (fold attach_node ns \<lparr>byID = index_nodes ns, childIDs = [], Orphans = []\<rparr>) = tnID ` set ns"
proof -
  let ?base = "\<lparr>byID = index_nodes ns, childIDs = [], Orphans = []\<rparr> :: Tree"
  let ?t = "fold attach_node ns ?base"
  have get: "GetNode i ?base = Some n \<longleftrightarrow> n \<in> set ns \<and> tnID n = i" for i n
    using index_nodes_get [OF assms(1)] by (simp add: GetNode_def)
  have keys0: "keys ?base = tnID ` set ns"
  proof -
    have "i \<in> keys ?base \<longleftrightarrow> (\<exists>n. GetNode i ?base = Some n)" for i using GetNode_None [of i ?base] by auto
    then show ?thesis using get by auto
  qed
  have kids0: "kids ?base p = []" for p by (simp add: kids_def)
  have all: "byID ?t = byID ?base \<and> (\<forall>p. distinct (kids ?t p)) \<and> (\<forall>p i. i \<in> set (kids ?t p) \<longleftrightarrow> i \<in> tnID ` set ns \<and> place ?base i = p)"
    using attach_all [of ns ns ?base] assms get keys0 kids0 by auto
  then have same: "GetNode i ?t = GetNode i ?base" "keys ?t = keys ?base" for i by (simp_all add: GetNode_def keys_def)
  then have "place ?t i = place ?base i" for i by (intro place_cong)
  then show ?thesis using all same get keys0 assms(2) by (simp add: linked_def)
qed

section \<open>Cutting cycles\<close>

inductive grounded :: "Tree \<Rightarrow> string \<Rightarrow> bool" for t where
  top: "GetNode i t = Some n \<Longrightarrow> tnParentID n \<notin> keys t \<Longrightarrow> grounded t i"
| step: "GetNode i t = Some n \<Longrightarrow> grounded t (tnParentID n) \<Longrightarrow> grounded t i"

lemma chase_grounds:
  assumes "\<And>x. x \<in> set reachable \<Longrightarrow> x \<in> keys t \<Longrightarrow> grounded t x" "[] \<notin> keys t"
  shows "chase t reachable chain cur = Some chain' \<Longrightarrow>
    (cur \<in> keys t \<longrightarrow> grounded t cur) \<and> (\<forall>x \<in> set chain' - set chain. x \<in> keys t \<longrightarrow> grounded t x)"
  using assms
proof (induction t reachable chain cur rule: chase.induct)
  case (1 t reachable chain cur)
  show ?case
  proof (cases "cur = [] \<or> cur \<in> set reachable")
    case True
    then have "chain' = chain" using 1(2) by (subst (asm) chase.simps) simp
    then show ?thesis using True 1(3,4) by auto
  next
    case False
    then have nc: "cur \<notin> set chain" using 1(2) by (subst (asm) chase.simps) (auto split: if_splits)
    show ?thesis
    proof (cases "GetNode cur t")
      case None
      then have "chain' = chain @ [cur]" using False nc 1(2) by (subst (asm) chase.simps) simp
      then show ?thesis using None by (auto simp: GetNode_None)
    next
      case (Some n)
      then have "chase t reachable (chain @ [cur]) (tnParentID n) = Some chain'" using False nc 1(2) by (subst (asm) chase.simps) simp
      from 1(1) [OF False nc Some this 1(3,4)]
      have ih: "tnParentID n \<in> keys t \<longrightarrow> grounded t (tnParentID n)"
        "\<forall>x \<in> set chain' - set (chain @ [cur]). x \<in> keys t \<longrightarrow> grounded t x" by auto
      then have "grounded t cur" using Some top step by blast
      then show ?thesis using ih(2) by auto
    qed
  qed
qed

lemma chase_cycle_parent:
  assumes "chase t reachable [] i = None" "GetNode i t = Some n"
  shows "tnParentID n \<in> keys t \<and> tnParentID n \<noteq> []"
proof -
  have "chase t reachable [i] (tnParentID n) = None" "tnParentID n = i \<longrightarrow> tnParentID n \<in> keys t"
    using assms GetNode_Some_key [OF assms(2)] chase.simps [of t reachable "[]" i] by (auto split: if_splits)
  then show ?thesis
    using chase.simps [of t reachable "[i]" "tnParentID n"] by (auto simp: GetNode_None dest: GetNode_Some_key split: if_splits option.splits)
qed

lemma reroot_frame:
  assumes "GetNode i t = Some n" "tnParentID n \<noteq> []"
  shows "GetNode j (reroot i t) = (if j = i then Some (n\<lparr>tnParentID := []\<rparr>) else GetNode j t)" "keys (reroot i t) = keys t"
    "kids (reroot i t) q = (if q = [] then kids t q @ [i] else if q = tnParentID n then remove1 i (kids t q) else kids t q)"
proof -
  show "GetNode j (reroot i t) = (if j = i then Some (n\<lparr>tnParentID := []\<rparr>) else GetNode j t)"
    using assms by (simp add: reroot_def Let_def GetNode_def update_conv' push_kid_def)
  show "keys (reroot i t) = keys t"
    using assms GetNode_Some_key [OF assms(1)] by (auto simp: reroot_def Let_def keys_def dom_update push_kid_def)
  show "kids (reroot i t) q = (if q = [] then kids t q @ [i] else if q = tnParentID n then remove1 i (kids t q) else kids t q)"
    using assms by (auto simp: reroot_def Let_def kids_def update_conv' push_kid_def remove1_idem)
qed

lemma reroot_ok:
  assumes "linked t" "GetNode i t = Some n" "tnParentID n \<in> keys t"
  shows "linked (reroot i t) \<and> keys (reroot i t) = keys t \<and> grounded (reroot i t) i \<and> (\<forall>x. grounded t x \<longrightarrow> grounded (reroot i t) x)"
proof -
  have ne: "tnParentID n \<noteq> []" using assms(1,3) by (auto simp: linked_def)
  note fr = reroot_frame [OF assms(2) ne]
  have i: "i \<in> keys t" using assms(2) by (rule GetNode_Some_key)
  have pl: "place (reroot i t) x = (if x = i then [] else place t x)" for x
    using assms(1) by (auto simp: place_def fr linked_def split: option.split)
  have pi: "place t i = tnParentID n" using assms(2,3) by (simp add: place_def)
  have "i \<notin> set (kids t [])" using assms(1) pi ne by (simp add: linked_def)
  then have "linked (reroot i t)"
    using assms(1,2) i pl pi ne unfolding linked_def by (auto simp: fr)
  moreover have g: "grounded (reroot i t) i" using assms(1) by (intro grounded.top [of i _ "n\<lparr>tnParentID := []\<rparr>"]) (simp_all add: fr linked_def)
  moreover have "grounded (reroot i t) x" if "grounded t x" for x
    using that
  proof (induction rule: grounded.induct)
    case (top j m)
    then show ?case using g by (cases "j = i") (auto simp: fr intro: grounded.top)
  next
    case (step j m)
    then show ?case using g by (cases "j = i") (auto simp: fr intro: grounded.step)
  qed
  ultimately show ?thesis by (simp add: fr)
qed

lemma detach_from_ok:
  "linked t \<Longrightarrow> (\<And>x. x \<in> set reachable \<Longrightarrow> x \<in> keys t \<Longrightarrow> grounded t x) \<Longrightarrow> set ids \<subseteq> keys t \<Longrightarrow> \<forall>x \<in> D. grounded t x \<Longrightarrow>
   linked (detach_from ids reachable t) \<and> keys (detach_from ids reachable t) = keys t \<and>
   (\<forall>x \<in> set ids \<union> D. grounded (detach_from ids reachable t) x)"
proof (induction ids reachable t arbitrary: D rule: detach_from.induct)
  case (2 i ids reachable t)
  show ?case
  proof (cases "i \<in> set reachable")
    case True
    then have "grounded t i" using 2 by simp
    then show ?thesis using 2(1) [OF True 2(4,5), of "insert i D"] 2(6,7) True by auto
  next
    case False
    have nk: "[] \<notin> keys t" using 2(4) by (simp add: linked_def)
    show ?thesis
    proof (cases "chase t reachable [] i")
      case None
      obtain n where n: "GetNode i t = Some n" using 2(6) GetNode_None [of i t] by fastforce
      have ok: "linked (reroot i t)" "keys (reroot i t) = keys t" "grounded (reroot i t) i" "\<And>x. grounded t x \<Longrightarrow> grounded (reroot i t) x"
        using reroot_ok [OF 2(4) n] chase_cycle_parent [OF None n] by auto
      have "linked (detach_from ids reachable (reroot i t)) \<and> keys (detach_from ids reachable (reroot i t)) = keys (reroot i t) \<and>
          (\<forall>x \<in> set ids \<union> insert i D. grounded (detach_from ids reachable (reroot i t)) x)"
        by (rule 2(2) [OF False None]) (use ok 2(5,6,7) in auto)
      then show ?thesis using False None ok(2) by auto
    next
      case (Some chain)
      note g = chase_grounds [OF 2(5) nk Some]
      have "linked (detach_from ids (chain @ reachable) t) \<and> keys (detach_from ids (chain @ reachable) t) = keys t \<and>
          (\<forall>x \<in> set ids \<union> insert i D. grounded (detach_from ids (chain @ reachable) t) x)"
        by (rule 2(3) [OF False Some 2(4)]) (use g 2(5,6,7) in auto)
      then show ?thesis using False Some by auto
    qed
  qed
qed simp

lemma kids_sorted:
  assumes "tree_env_ok R"
  shows "set (kids (t\<lparr>childIDs := map (\<lambda>(p, ids). (p, trSortSlice R lt ids)) (childIDs t)\<rparr>) p) = set (kids t p)"
    "distinct (kids (t\<lparr>childIDs := map (\<lambda>(p, ids). (p, trSortSlice R lt ids)) (childIDs t)\<rparr>) p) = distinct (kids t p)"
proof -
  have "map_of (map (\<lambda>(p, ids). (p, trSortSlice R lt ids)) al) p = map_option (trSortSlice R lt) (map_of al p)" for al
    by (induction al) auto
  then show "set (kids (t\<lparr>childIDs := map (\<lambda>(p, ids). (p, trSortSlice R lt ids)) (childIDs t)\<rparr>) p) = set (kids t p)"
    "distinct (kids (t\<lparr>childIDs := map (\<lambda>(p, ids). (p, trSortSlice R lt ids)) (childIDs t)\<rparr>) p) = distinct (kids t p)"
    using sort_slice_set [OF assms] sort_slice_distinct [OF assms] by (auto simp: kids_def split: option.splits)
qed

lemma NewTree_ok:
  assumes "tree_env_ok R" "distinct (map tnID ns)" "[] \<notin> tnID ` set ns"
  shows "linked (NewTree R ns) \<and> keys (NewTree R ns) = tnID ` set ns \<and> (\<forall>i \<in> tnID ` set ns. grounded (NewTree R ns) i)"
proof -
  define t1 where "t1 = fold attach_node ns \<lparr>byID = index_nodes ns, childIDs = [], Orphans = []\<rparr>"
  define t2 where "t2 = detachCycles R t1"
  have l1: "linked t1" "keys t1 = tnID ` set ns" using linked_attached [OF assms(2,3)] by (auto simp: t1_def)
  have "set (trRangeKeys R (map fst (byID t1))) = keys t1" using range_keys_set [OF assms(1)] by (simp add: keys_def)
  then have l2: "linked t2" "keys t2 = keys t1" "\<forall>x \<in> keys t1. grounded t2 x"
    using detach_from_ok [OF l1(1), of "[]" "trRangeKeys R (map fst (byID t1))" "{}"] by (auto simp: t2_def detachCycles_def)
  define t3 where "t3 = t2\<lparr>childIDs := map (\<lambda>(p, ids). (p, trSortSlice R (child_less R t2) ids)) (childIDs t2)\<rparr>"
  have new: "NewTree R ns = t3" by (simp add: NewTree_def t1_def t2_def t3_def Let_def)
  have same: "GetNode i t3 = GetNode i t2" "keys t3 = keys t2" for i by (simp_all add: t3_def GetNode_def keys_def)
  then have "place t3 i = place t2 i" for i by (intro place_cong)
  then have "linked t3" using l2(1) kids_sorted [OF assms(1), where t = t2 and lt = "child_less R t2", folded t3_def] same by (simp add: linked_def)
  moreover have "grounded t3 x" if "grounded t2 x" for x
    using that by (induction rule: grounded.induct) (auto simp: same intro: grounded.intros)
  ultimately show ?thesis using new same l1 l2 by auto
qed

section \<open>Every node is found\<close>

inductive below :: "Tree \<Rightarrow> string \<Rightarrow> string \<Rightarrow> bool" for t p where
  kid: "i \<in> set (kids t p) \<Longrightarrow> below t p i"
| deeper: "below t p j \<Longrightarrow> i \<in> set (kids t j) \<Longrightarrow> below t p i"

lemma descend_all:
  "set seen = insert p (set out) \<Longrightarrow> p \<notin> set out \<Longrightarrow> distinct out \<Longrightarrow> (\<And>y. y \<in> set seen \<Longrightarrow> set (kids t y) \<subseteq> set seen \<union> set frontier) \<Longrightarrow>
   (\<And>x. x \<in> set frontier \<union> set out \<Longrightarrow> below t p x) \<Longrightarrow>
   set (descend t frontier seen out) = {x. below t p x} - {p} \<and> distinct (descend t frontier seen out)"
proof (induction t frontier seen out rule: descend.induct)
  case (1 t frontier seen out)
  show ?case
  proof (cases "frontier = []")
    case True
    have "x \<in> set seen" if "below t p x" for x using that 1(5) True 1(2) by (induction rule: below.induct) auto
    then have "set out = {x. below t p x} - {p}" using 1(2,3,6) by auto
    then show ?thesis using True 1(4) by (simp add: descend.simps)
  next
    case False
    obtain seen' out' next' where v: "visit_level t frontier seen out [] = (seen', out', next')" by (metis prod_cases3)
    from visit_level_spec [OF v] obtain new where
      n: "set seen' = set seen \<union> set new" "out' = out @ new" "distinct new" "set new = set frontier - set seen"
        "set next' = (\<Union>i \<in> set new. set (kids t i))" by auto
    have "set (descend t next' seen' out') = {x. below t p x} - {p} \<and> distinct (descend t next' seen' out')"
    proof (rule 1(1) [OF False v [symmetric] refl])
      show "set seen' = insert p (set out')" "p \<notin> set out'" "distinct out'" using 1(2,3,4) n by auto
      show "set (kids t y) \<subseteq> set seen' \<union> set next'" if "y \<in> set seen'" for y using that 1(5) [of y] n by auto
      show "below t p x" if "x \<in> set next' \<union> set out'" for x using that 1(6) n by (auto intro: below.deeper)
    qed
    then show ?thesis using False v by (subst (1 2) descend.simps) simp
  qed
qed

lemma Descendants_below: "set (Descendants p t) = {x. below t p x} - {p} \<and> distinct (Descendants p t)"
  unfolding Descendants_def by (rule descend_all) (auto intro: below.kid)

lemma grounded_below:
  assumes "linked t" "grounded t i"
  shows "below t [] i"
  using assms(2)
proof (induction rule: grounded.induct)
  case (top i n)
  then have "i \<in> set (kids t [])" using assms(1) GetNode_Some_key [of i t n] by (simp add: linked_def place_def)
  then show ?case by (rule below.kid)
next
  case (step i n)
  have "grounded t (tnParentID n) \<Longrightarrow> tnParentID n \<in> keys t" by (erule grounded.cases) (auto dest: GetNode_Some_key)
  then have "i \<in> set (kids t (tnParentID n))" using step assms(1) GetNode_Some_key [of i t n] by (simp add: linked_def place_def)
  then show ?case by (rule below.deeper [OF step.IH])
qed

text \<open>
  C29: no node is lost. Whatever parents the nodes name, missing ones, themselves or cycles included, the
  tree built of nodes with distinct ids has all of them, each exactly once in exactly one list of children,
  and all are found from the root, once each. No order of ranging over the map and no order of equal
  names changes that.
\<close>

theorem NewTree_complete:
  assumes "tree_env_ok R" "distinct (map tnID ns)" "[] \<notin> tnID ` set ns"
  shows "set (Descendants [] (NewTree R ns)) = tnID ` set ns \<and> distinct (Descendants [] (NewTree R ns)) \<and>
    (\<forall>i \<in> tnID ` set ns. \<exists>!p. i \<in> set (kids (NewTree R ns) p)) \<and> (\<forall>p. distinct (kids (NewTree R ns) p))"
proof -
  let ?t = "NewTree R ns"
  have t: "linked ?t" "keys ?t = tnID ` set ns" "\<forall>i \<in> tnID ` set ns. grounded ?t i" using NewTree_ok [OF assms] by auto
  have "x \<in> keys ?t" if "below ?t [] x" for x using that t(1) by (cases rule: below.cases) (auto simp: linked_def)
  then have "{x. below ?t [] x} - {[]} = tnID ` set ns" using t grounded_below assms(3) by auto
  then show ?thesis using Descendants_below [of "[]" ?t] t(1,2) by (auto simp: linked_def)
qed

section \<open>Paths\<close>

definition plain_name :: "string \<Rightarrow> bool" where
  "plain_name s \<longleftrightarrow> s \<noteq> [] \<and> s \<noteq> ''.'' \<and> CHR ''/'' \<notin> set s \<and> CHR 0x5C \<notin> set s"

text \<open>The nodes from one up to the top.\<close>

inductive lineage :: "Tree \<Rightarrow> string \<Rightarrow> tnode list \<Rightarrow> bool" for t where
  top: "GetNode i t = Some n \<Longrightarrow> i \<noteq> [] \<Longrightarrow> tnParentID n = [] \<Longrightarrow> lineage t i [n]"
| child: "GetNode i t = Some n \<Longrightarrow> i \<noteq> [] \<Longrightarrow> tnParentID n \<noteq> [] \<Longrightarrow> lineage t (tnParentID n) ns \<Longrightarrow> lineage t i (n # ns)"

lemma lineage_unique: "lineage t i ns \<Longrightarrow> lineage t i ms \<Longrightarrow> ms = ns"
proof (induction arbitrary: ms rule: lineage.induct)
  case (top i n)
  from top(4) show ?case by (cases rule: lineage.cases) (use top in auto)
next
  case (child i n ns)
  from child(6) show ?case
  proof (cases rule: lineage.cases)
    case (child m ms')
    then show ?thesis using child.IH [of ms'] child.hyps(1) by simp
  qed (use child.hyps in simp)
qed

lemma lineage_suffix:
  "lineage t i ns \<Longrightarrow> (\<And>j m. GetNode j t = Some m \<Longrightarrow> tnID m = j) \<Longrightarrow> m \<in> set ns \<Longrightarrow> \<exists>ms. lineage t (tnID m) ms \<and> length ms \<le> length ns"
proof (induction rule: lineage.induct)
  case (top i n)
  then have "lineage t (tnID m) [n]" using lineage.top [of i t n] by auto
  then show ?case by force
next
  case (child i n ns)
  show ?case
  proof (cases "m = n")
    case True
    then have "lineage t (tnID m) (n # ns)" using child lineage.child [of i t n ns] by auto
    then show ?thesis by force
  next
    case False
    then obtain ms where "lineage t (tnID m) ms" "length ms \<le> length ns" using child by auto
    then show ?thesis by (intro exI [of _ ms]) simp
  qed
qed

lemma lineage_distinct:
  assumes ids: "\<And>j m. GetNode j t = Some m \<Longrightarrow> tnID m = j"
  shows "lineage t i ns \<Longrightarrow> distinct (map tnID ns)"
proof (induction rule: lineage.induct)
  case (child i n ns)
  have "tnID n \<notin> tnID ` set ns"
  proof
    assume "tnID n \<in> tnID ` set ns"
    then obtain m where m: "m \<in> set ns" "tnID m = i" using ids [OF child(1)] by auto
    then obtain ms where "lineage t i ms" "length ms \<le> length ns" using lineage_suffix [OF child(4) ids m(1)] by auto
    moreover have "lineage t i (n # ns)" using child by (intro lineage.child)
    ultimately show False using lineage_unique by fastforce
  qed
  then show ?case using child by simp
qed simp

lemma path_parts_lineage:
  assumes ids: "\<And>j m. GetNode j t = Some m \<Longrightarrow> tnID m = j"
  shows "lineage t i ns \<Longrightarrow> set seen \<inter> tnID ` set ns = {} \<Longrightarrow> path_parts t seen parts i = Some (parts @ map tnName ns)"
proof (induction arbitrary: seen parts rule: lineage.induct)
  case (top i n)
  then have "i \<notin> set seen" using ids [OF top(1)] by auto
  then show ?case using top by (simp add: path_parts.simps)
next
  case (child i n ns)
  have d: "distinct (map tnID (n # ns))" using child by (intro lineage_distinct [OF ids] lineage.child)
  have "i \<notin> set seen" using child ids [OF child(1)] by auto
  moreover have "path_parts t (i # seen) (parts @ [tnName n]) (tnParentID n) = Some ((parts @ [tnName n]) @ map tnName ns)"
    using child d ids [OF child(1)] by (intro child.IH) auto
  ultimately show ?case using child by (simp add: path_parts.simps [of t seen parts i])
qed

text \<open>No sibling that is not in the trash has a name that folds to the same.\<close>

definition only_name :: "tree_env \<Rightarrow> Tree \<Rightarrow> tnode \<Rightarrow> bool" where
  "only_name R t n \<longleftrightarrow> plain_name (tnName n) \<and> \<not> tnTrashed n \<and>
     (\<forall>c \<in> set (Children (tnParentID n) t). trEqualFold R (tnName c) (tnName n) \<and> \<not> tnTrashed c \<longrightarrow> tnID c = tnID n)"

lemma find_only:
  assumes "linked t" "GetNode i t = Some n" "place t i = tnParentID n" "only_name R t n" "\<And>s. trEqualFold R s s"
  shows "find (\<lambda>c. trEqualFold R (tnName c) (tnName n) \<and> \<not> tnTrashed c) (Children (tnParentID n) t) = Some n"
proof -
  have n: "n \<in> set (Children (tnParentID n) t)"
    using assms(1-3) GetNode_Some_key [OF assms(2)] by (force simp: Children_def map_filter_def linked_def)
  obtain c where c: "find (\<lambda>c. trEqualFold R (tnName c) (tnName n) \<and> \<not> tnTrashed c) (Children (tnParentID n) t) = Some c"
    using n assms(4,5) by (cases "find (\<lambda>c. trEqualFold R (tnName c) (tnName n) \<and> \<not> tnTrashed c) (Children (tnParentID n) t)")
      (auto simp: find_None_iff only_name_def)
  then have cc: "c \<in> set (Children (tnParentID n) t)" "trEqualFold R (tnName c) (tnName n)" "\<not> tnTrashed c"
    by (auto simp: find_Some_iff)
  then have "tnID c = tnID n" using assms(4) by (auto simp: only_name_def)
  moreover obtain j where "GetNode j t = Some c" using cc(1) by (auto simp: Children_def map_filter_def)
  ultimately have "c = n" using assms(1,2) by (metis linked_def option.inject)
  then show ?thesis using c by simp
qed

lemma resolve_lineage:
  assumes "linked t" "\<And>s. trEqualFold R s s"
  shows "lineage t i ns \<Longrightarrow> \<forall>m \<in> set ns. only_name R t m \<Longrightarrow>
    resolve_from R t (rev (map tnName ns) @ segs) [] found = resolve_from R t segs i (Some (hd ns))"
proof (induction arbitrary: segs found rule: lineage.induct)
  case (top i n)
  have "tnID n = i" using assms(1) top(1) by (simp add: linked_def)
  moreover have "place t i = tnParentID n" using top assms(1) by (simp add: place_def)
  ultimately show ?case
    using find_only [OF assms(1) top(1) _ _ assms(2)] top by (auto simp: only_name_def plain_name_def)
next
  case (child i n ns)
  have id: "tnID n = i" using assms(1) child(1) by (simp add: linked_def)
  have "tnParentID n \<in> keys t" using child(4) by (cases rule: lineage.cases) (auto dest: GetNode_Some_key)
  then have pl: "place t i = tnParentID n" using child(1) by (simp add: place_def)
  have "resolve_from R t (tnName n # segs) (tnParentID n) (Some (hd ns)) = resolve_from R t segs i (Some n)"
    using find_only [OF assms(1) child(1) pl _ assms(2)] child(6) id by (auto simp: only_name_def plain_name_def)
  then show ?case using child by simp
qed

lemma Trim_plain: "s \<noteq> [] \<Longrightarrow> hd s \<noteq> c \<Longrightarrow> last s \<noteq> c \<Longrightarrow> Trim c s = s"
  by (cases s rule: rev_cases) (auto simp: Trim_def TrimLeft_def TrimRight_def hd_append neq_Nil_conv split: if_splits)

lemma join_slash_ends:
  "ss \<noteq> [] \<Longrightarrow> \<forall>s \<in> set ss. plain_name s \<Longrightarrow> join_slash ss \<noteq> [] \<and> hd (join_slash ss) \<noteq> CHR ''/'' \<and> last (join_slash ss) \<noteq> CHR ''/'' \<and>
     CHR 0x5C \<notin> set (join_slash ss)"
proof (induction ss rule: join_slash.induct)
  case (2 s)
  then have "s \<noteq> []" "CHR ''/'' \<notin> set s" "CHR 0x5C \<notin> set s" by (auto simp: plain_name_def)
  then show ?case using hd_in_set [of s] last_in_set [of s] by (metis join_slash.simps(2))
next
  case (3 s t ss)
  then have s: "s \<noteq> []" "CHR ''/'' \<notin> set s" "CHR 0x5C \<notin> set s" by (auto simp: plain_name_def)
  have "hd s \<noteq> CHR ''/''" using hd_in_set [OF s(1)] s(2) by metis
  then show ?case using 3 s by auto
qed simp

text \<open>
  A path leads back to its node. In a tree built of nodes with distinct ids, for a node whose lineage
  ends at the root with plain names, none of it in the trash and none sharing its folded name with another
  child of the same directory, \<open>Resolve\<close> of \<open>PathOf\<close> is the node.
\<close>

theorem Resolve_PathOf:
  assumes "tree_env_ok R" "distinct (map tnID ns)" "[] \<notin> tnID ` set ns"
    and "lineage (NewTree R ns) i ms" "\<forall>m \<in> set ms. only_name R (NewTree R ns) m"
  shows "GetNode i (NewTree R ns) = Some (hd ms) \<and>
    Resolve R (PathOf i (NewTree R ns)) (NewTree R ns) = Inr (Some (hd ms))"
proof -
  let ?t = "NewTree R ns"
  have l: "linked ?t" using NewTree_ok [OF assms(1-3)] by blast
  then have ids: "\<And>j m. GetNode j ?t = Some m \<Longrightarrow> tnID m = j" by (simp add: linked_def)
  have fold: "\<And>s. trEqualFold R s s" using assms(1) by (simp add: tree_env_ok_def)
  have get: "GetNode i ?t = Some (hd ms)" "ms \<noteq> []" using assms(4) by (auto elim: lineage.cases)
  let ?names = "rev (map tnName ms)"
  have path: "PathOf i ?t = join_slash ?names" using path_parts_lineage [OF ids assms(4), of "[]" "[]"] by (simp add: PathOf_def)
  have plain: "\<forall>s \<in> set ?names. plain_name s" using assms(5) by (auto simp: only_name_def)
  note e = join_slash_ends [OF _ plain]
  have ne: "?names \<noteq> []" using get by simp
  have same: "ReplaceChar (CHR 0x5C) (CHR ''/'') (join_slash ?names) = join_slash ?names"
    using e [OF ne] by (auto simp: ReplaceChar_def intro!: map_idI)
  have "Trim (CHR ''/'') (join_slash ?names) = join_slash ?names" using e [OF ne] by (intro Trim_plain) auto
  moreover have "split_slash (join_slash ?names) = ?names" using plain ne by (intro split_join_slash) (auto simp: plain_name_def)
  ultimately show ?thesis
    using resolve_lineage [OF l fold assms(4,5), of "[]" None] e [OF ne] get same by (simp add: path Resolve_def)
qed

section \<open>The cache file\<close>

lemma readSnapshot_writeSnapshot:
  assumes "aead_ok (fePrims F)" "length cacheKey = KeySize" "feNonce F = Some nonce" "length nonce = NonceSize"
    and "feMarshal F snap = Some plain" "feUnmarshal F plain = Some snap" "feCanWrite F"
  shows "readSnapshot F cacheKey (writeSnapshot F cacheKey snap old) = Some snap"
  using assms by (simp add: writeSnapshot_def readSnapshot_def newX_ok_def aead_ok_def)


section \<open>What the tree does not do\<close>

text \<open>A node with a missing parent hangs under the root but keeps the parent's id, so it has no path;
  and a node that only leads into a cycle is cut from its own parent when it is ranged over first.\<close>

definition sample_tree_env :: tree_env where
  "sample_tree_env = \<lparr>trLower = id, trEqualFold = (=), trSortSlice = (\<lambda>lt ids. ids), trRangeKeys = id\<rparr>"

definition sample_tnode :: "string \<Rightarrow> string \<Rightarrow> string \<Rightarrow> tnode" where
  "sample_tnode i name parent = \<lparr>tnID = i, tnName = name, tnParentID = parent, tnIsDir = True, tnSize = 0, tnCreatedAt = 0,
     tnModifiedAt = 0, tnHidden = False, tnTrashed = False\<rparr>"

lemma orphan_has_no_path:
  "PathOf ''1'' (NewTree sample_tree_env [sample_tnode ''1'' ''docs'' ''9'']) = [] \<and>
   kids (NewTree sample_tree_env [sample_tnode ''1'' ''docs'' ''9'']) [] = [''1'']"
  by code_simp

lemma tail_of_cycle_is_cut:
  "kids (NewTree sample_tree_env [sample_tnode ''1'' ''a'' ''2'', sample_tnode ''2'' ''b'' ''3'', sample_tnode ''3'' ''c'' ''2'']) ''2'' = [''3'']"
  "kids (NewTree (sample_tree_env\<lparr>trRangeKeys := rev\<rparr>) [sample_tnode ''1'' ''a'' ''2'', sample_tnode ''2'' ''b'' ''3'', sample_tnode ''3'' ''c'' ''2'']) ''2'' = [''1'']"
  by code_simp+

section \<open>Witnesses\<close>

lemma sample_tree_env_ok: "tree_env_ok sample_tree_env"
  by (simp add: tree_env_ok_def sample_tree_env_def)

theorem NewTree_complete_witness:
  "set (Descendants [] (NewTree sample_tree_env [sample_tnode ''1'' ''a'' ''2'', sample_tnode ''2'' ''b'' ''1''])) = {''1'', ''2''}"
  using NewTree_complete [OF sample_tree_env_ok, of "[sample_tnode ''1'' ''a'' ''2'', sample_tnode ''2'' ''b'' ''1'']"]
  by (simp add: sample_tnode_def)

theorem Resolve_PathOf_witness:
  "Resolve sample_tree_env (PathOf ''2'' (NewTree sample_tree_env [sample_tnode ''1'' ''a'' [], sample_tnode ''2'' ''b'' ''1'']))
     (NewTree sample_tree_env [sample_tnode ''1'' ''a'' [], sample_tnode ''2'' ''b'' ''1'']) = Inr (Some (sample_tnode ''2'' ''b'' ''1''))"
proof -
  let ?a = "sample_tnode ''1'' ''a'' []" and ?b = "sample_tnode ''2'' ''b'' ''1''"
  let ?t = "NewTree sample_tree_env [?a, ?b]"
  have g: "GetNode ''1'' ?t = Some ?a" "GetNode ''2'' ?t = Some ?b" "Children [] ?t = [?a]" "Children ''1'' ?t = [?b]" by code_simp+
  have p: "tnParentID ?a = []" "tnParentID ?b = ''1''" "tnName ?a = ''a''" "tnName ?b = ''b''" "\<not> tnTrashed ?a" "\<not> tnTrashed ?b"
    "tnID ?a = ''1''" "tnID ?b = ''2''" by (simp_all add: sample_tnode_def)
  have "lineage ?t ''1'' [?a]" using lineage.top [OF g(1) _ p(1)] by simp
  then have "lineage ?t ''2'' [?b, ?a]" using lineage.child [OF g(2), of "[?a]"] p(2) by simp
  moreover have "\<forall>m \<in> set [?b, ?a]. only_name sample_tree_env ?t m" using g p by (simp add: only_name_def plain_name_def)
  ultimately show ?thesis
    using Resolve_PathOf [OF sample_tree_env_ok, of "[?a, ?b]" "''2''" "[?b, ?a]"] p by simp
qed

definition sample_fetch :: fetch_env where
  "sample_fetch = \<lparr>fePrims = plain_prims, feListShells = (\<lambda>opts. Inr \<lparr>spShells = [], spNextCursor = None, spDone = True\<rparr>),
     feShellDigest = Some ''d'', feB64Decode = (\<lambda>s. None), feCacheKey = Some (replicate 32 0), feUnmarshal = (\<lambda>bs. Some \<lparr>snDigest = ''d'', snNodes = []\<rparr>),
     feMarshal = (\<lambda>s. Some []), feNonce = Some (replicate 24 0), feCanWrite = True\<rparr>"


end
