(* ===== verification/Poller.thy ===== *)
theory Poller
  imports VfsTree TreeModel Writeback
begin

text \<open>
  The poller: \<open>internal/mount/syncer/poller.go\<close>. It lists every loaded directory again, refreshes or
  invalidates what the server has changed, marks conflicts, adds what is new and removes what is gone.

  The environment of a poll is the record \<open>poll_env\<close>: the file system's environment, the tree of shells
  (\<open>None\<close> when it could not be loaded), where the context is found cancelled, the order in which maps are
  ranged over, and whether a callback for local deletion is set. The callback is the downloader's
  \<open>RemoveLocal\<close>; the paths it is called with are part of the result.
\<close>

section \<open>One directory\<close>

record poll_env =
  pE :: venv
  pTreeEnv :: tree_env
  pCycleTree :: "Tree option"
  pCanceled :: "string \<Rightarrow> bool"
  pRange :: "string list \<Rightarrow> string list"
  pMarshalIDs :: "string list \<Rightarrow> string option"
  pLocalDelete :: bool

datatype pollError = PollCanceled | PollFailed string string | PollRefused string string | PollParse

definition plainJoin :: "string \<Rightarrow> string \<Rightarrow> string" where
  "plainJoin parent child = (if parent = [] then child else parent @ ''/'' @ child)"

definition addScope :: "poll_env \<Rightarrow> string \<Rightarrow> options \<Rightarrow> options" where
  "addScope Q remotePath opts =
     (case pCycleTree Q of
        None \<Rightarrow> opts
      | Some t \<Rightarrow>
          (let trimmed = Trim (CHR ''/'') remotePath;
               parentID = (if trimmed = [] then Some []
                           else case Resolve (pTreeEnv Q) trimmed t of
                                  Inr (Some n) \<Rightarrow> if tnIsDir n then Some (tnID n) else None
                                | _ \<Rightarrow> None)
           in case parentID of
                None \<Rightarrow> opts
              | Some i \<Rightarrow>
                  (case pMarshalIDs Q (map tnID (Children i t)) of
                     None \<Rightarrow> opts
                   | Some enc \<Rightarrow> opts(''scope_node_ids'' \<mapsto> enc))))"

definition poll_options :: "poll_env \<Rightarrow> string \<Rightarrow> options" where
  "poll_options Q remotePath =
     addScope Q remotePath (addPathTokensTo (pE Q) remotePath
       [''source'' \<mapsto> (if remotePath \<noteq> [] then ''/'' @ remotePath else ''/'')])"

text \<open>The listing as a map from names to entries, a later entry replacing an earlier one, and whether an
  entry could not be decrypted.\<close>

fun remote_entries :: "venv \<Rightarrow> ls_entry list \<Rightarrow> (string \<times> ls_entry) list \<Rightarrow> bool \<Rightarrow> (string \<times> ls_entry) list \<times> bool" where
  "remote_entries E [] m failed = (m, failed)"
| "remote_entries E (entry # es) m failed =
     (let name = decryptName E (eDisplayName entry) in
      if name = ''(encrypted)'' \<or> (name = [] \<and> eDisplayName entry \<noteq> []) then remote_entries E es m True
      else if name = [] \<or> IsExcludedDir name then remote_entries E es m failed
      else remote_entries E es (AList.update name entry m) failed)"

definition row_dirty :: "int \<Rightarrow> vfs \<Rightarrow> bool" where
  "row_dirty i v = (case GetInode i (vDb v) of Inr x \<Rightarrow> iDirty x | Inl _ \<Rightarrow> False)"

definition remote_changed :: "node \<Rightarrow> ls_entry \<Rightarrow> bool" where
  "remote_changed n entry =
     (let sizeChanged = (case ePlaintextSize entry of Some sz \<Rightarrow> sz \<noteq> nSize n | None \<Rightarrow> False);
          mtimeAdvanced = (case eModified entry of Some t \<Rightarrow> t > nMtime n | None \<Rightarrow> False);
          etagChanged = (nEtag n \<noteq> eETag entry)
      in if nEtag n \<noteq> [] \<and> eETag entry \<noteq> [] then etagChanged else sizeChanged \<or> mtimeAdvanced \<or> etagChanged)"

definition poll_existing :: "addr \<Rightarrow> ls_entry \<Rightarrow> vfs \<Rightarrow> vfs" where
  "poll_existing a entry v =
     (let n = node_at v a; i = nID n;
          locallyDirty = (nDirty n \<or> row_dirty i v);
          changed = remote_changed n entry;
          conflict = (locallyDirty \<and> changed);
          v1 = (if conflict then
                  (if nSyncStatus n \<noteq> StatusConflict
                   then with_db (SetSyncStatus i StatusConflict conflict_reason)
                          (upd_node a (\<lambda>n. n\<lparr>nSyncStatus := StatusConflict, nStatusReason := conflict_reason\<rparr>) v)
                   else v)
                else if \<not> locallyDirty \<and> changed then
                  with_db (ClearSyncFailure i FailureDownload)
                    (release_blob (nContentHash n) i
                      (with_db (InvalidateCache i)
                        (upd_node a (\<lambda>n. n\<lparr>nSize := (case ePlaintextSize entry of Some sz \<Rightarrow> sz | None \<Rightarrow> nSize n),
                                            nCached := False, nContentHash := []\<rparr>) v)))
                else v);
          v2 = (case eModified entry of
                  Some t \<Rightarrow> if conflict then v1 else upd_node a (\<lambda>n. n\<lparr>nMtime := t\<rparr>) v1
                | None \<Rightarrow> v1)
      in if conflict then v2
         else with_db (SetRemoteVersion i (eETag entry)) (upd_node a (\<lambda>n. n\<lparr>nEtag := eETag entry\<rparr>) v2))"

definition poll_new :: "venv \<Rightarrow> addr \<Rightarrow> string \<Rightarrow> ls_entry \<Rightarrow> vfs \<Rightarrow> vfs" where
  "poll_new E parent name entry v =
     (let isDir = (eType entry = ''directory'');
          childPath = plainJoin (nRemotePath (node_at v parent)) name;
          n = (if isDir then NewDirNode (vNow E) name childPath parent
               else NewFileNode name childPath (case ePlaintextSize entry of Some sz \<Rightarrow> sz | None \<Rightarrow> 0)
                      (case eModified entry of Some t \<Rightarrow> t | None \<Rightarrow> vNow E) parent)\<lparr>nEtag := eETag entry\<rparr>;
          inode = zero_inode\<lparr>iRemotePath := childPath, iDisplayName := name, iIsDir := isDir, iSize := nSize n,
                    iMtime := nMtime n, iSyncStatus := StatusSynced, iEtag := eETag entry, iParentID := nID (node_at v parent)\<rparr>;
          (r, d) = UpsertInode inode (vDb v);
          (a, v1) = alloc (n\<lparr>nID := (case r of Inr i \<Rightarrow> i | Inl _ \<Rightarrow> 0)\<rparr>) (v\<lparr>vDb := d\<rparr>);
          v2 = AttachChild parent a v1
      in if isDir then snd (Readdir E a v2) else v2)"

fun poll_entries :: "venv \<Rightarrow> addr \<Rightarrow> (string \<times> addr) list \<Rightarrow> (string \<times> ls_entry) list \<Rightarrow> string list \<Rightarrow> vfs \<Rightarrow> vfs" where
  "poll_entries E parent children remote [] v = v"
| "poll_entries E parent children remote (name # names) v =
     (case map_of remote name of
        None \<Rightarrow> poll_entries E parent children remote names v
      | Some entry \<Rightarrow>
          poll_entries E parent children remote names
            (case map_of children name of
               Some a \<Rightarrow> poll_existing a entry v
             | None \<Rightarrow> poll_new E parent name entry v))"

fun prune :: "bool \<Rightarrow> addr \<Rightarrow> (string \<times> addr) list \<Rightarrow> string set \<Rightarrow> string list \<Rightarrow> string list \<Rightarrow> vfs \<Rightarrow> string list \<times> vfs" where
  "prune hook parent children listed [] deleted v = (deleted, v)"
| "prune hook parent children listed (name # names) deleted v =
     (case map_of children name of
        None \<Rightarrow> prune hook parent children listed names deleted v
      | Some c \<Rightarrow>
          (let n = node_at v c in
           if name \<in> listed \<or> nDirty n \<or> row_dirty (nID n) v then prune hook parent children listed names deleted v
           else
             prune hook parent children listed names (if hook then deleted @ [nRemotePath n] else deleted)
               (with_db (DeleteInode (nRemotePath n)) (release_blob (nContentHash n) (nID n) (DetachChild parent name v)))))"

text \<open>One directory: the error, or the names to descend into; and the paths deleted locally.\<close>

definition poll_dir :: "poll_env \<Rightarrow> addr \<Rightarrow> vfs \<Rightarrow> (pollError + string list) \<times> string list \<times> vfs" where
  "poll_dir Q parent v =
     (let E = pE Q; path = nRemotePath (node_at v parent); source = (if path \<noteq> [] then ''/'' @ path else ''/'') in
      if pCanceled Q path then (Inl PollCanceled, [], v)
      else if \<not> nLoaded (node_at v parent) then (Inr [], [], v)
      else case vList E (poll_options Q path) of
             ApiError e \<Rightarrow> (Inl (PollFailed source e), [], v)
           | Refused m \<Rightarrow> (Inl (PollRefused source m), [], v)
           | Answer None \<Rightarrow> (Inl PollParse, [], v)
           | Answer (Some entries) \<Rightarrow>
               (let (remote, failed) = remote_entries E entries [] False;
                    children = nChildren (node_at v parent);
                    names = pRange Q (map fst remote);
                    v1 = poll_entries E parent children remote names v;
                    (deleted, v2) = (if failed then ([], v1)
                                     else prune (pLocalDelete Q) parent children (set (map fst remote))
                                            (pRange Q (map fst children)) [] v1)
                in (Inr (pRange Q (map fst remote)), deleted, v2)))"

section \<open>The whole tree\<close>

text \<open>The recursion of \<open>pollRecursive\<close> as a stack: a directory to poll, or a name of a directory, looked up
  when its turn comes.\<close>

datatype poll_item = PollDir addr | PollName addr string

partial_function (option) pollRecursive ::
  "poll_env \<Rightarrow> poll_item list \<Rightarrow> string list \<Rightarrow> vfs \<Rightarrow> (pollError option \<times> string list \<times> vfs) option" where
  "pollRecursive Q items deleted v =
     (case items of
        [] \<Rightarrow> Some (None, deleted, v)
      | it # rest \<Rightarrow>
          (case (case it of
                   PollDir a \<Rightarrow> Some a
                 | PollName p name \<Rightarrow>
                     (case GetChild p name v of
                        Some c \<Rightarrow> if nIsDir (node_at v c) \<and> nLoaded (node_at v c) then Some c else None
                      | None \<Rightarrow> None)) of
             None \<Rightarrow> pollRecursive Q rest deleted v
           | Some a \<Rightarrow>
               (case poll_dir Q a v of
                  (Inl e, dels, v1) \<Rightarrow> Some (Some e, deleted @ dels, v1)
                | (Inr names, dels, v1) \<Rightarrow> pollRecursive Q (map (PollName a) names @ rest) (deleted @ dels) v1)))"

record Poller =
  poOnline :: bool
  poLastPoll :: "int option"

definition loadCycleTree :: "tree_env \<Rightarrow> fetch_env \<Rightarrow> venv \<Rightarrow> bytes option \<Rightarrow> bytes option \<Rightarrow> Tree option \<times> bytes option" where
  "loadCycleTree R F E parentKey cacheFile =
     (if vPrivateKey E = None then (None, cacheFile)
      else case parentKey of
             None \<Rightarrow> (None, cacheFile)
           | Some key \<Rightarrow>
               (case LoadTree R F \<lparr>tkPriv = vPrivateKey E, tkParentKey = Some key\<rparr> cacheFile of
                  (Inl e, f) \<Rightarrow> (None, f)
                | (Inr t, f) \<Rightarrow> (Some t, f)))"

definition poll :: "poll_env \<Rightarrow> Poller \<times> vfs \<Rightarrow> (string list \<times> Poller \<times> vfs) option" where
  "poll Q pv =
     (case pv of (p, v) \<Rightarrow>
        (case pollRecursive Q [PollDir rootAddr] [] v of
           None \<Rightarrow> None
         | Some (Some e, dels, v1) \<Rightarrow> Some (dels, p\<lparr>poOnline := False\<rparr>, v1\<lparr>vOnline := False\<rparr>)
         | Some (None, dels, v1) \<Rightarrow>
             Some (dels, p\<lparr>poOnline := True, poLastPoll := Some (vNow (pE Q))\<rparr>, v1\<lparr>vOnline := True\<rparr>)))"

end
