(* ===== verification/PollerLaws.thy ===== *)
theory PollerLaws
  imports Poller WritebackLaws
begin

text \<open>
  The laws of the poller: whatever the server lists and whatever statements fail, polling never touches
  a local edit; a directory's poll settles each entry as unchanged, changed or in conflict.
\<close>

section \<open>The database under a poll\<close>

lemma release_edits: "edits d (vDb v) \<Longrightarrow> edits d (vDb (release_blob h i v))"
  by simp

lemma poll_existing_edits: "edits d (vDb v) \<Longrightarrow> edits d (vDb (poll_existing a entry v))"
  by (auto simp: poll_existing_def Let_def intro!: edits_stmt split: option.split)

lemma poll_new_edits:
  assumes "edits d (vDb v)"
  shows "edits d (vDb (poll_new E p name entry v))"
proof -
  have rd: "edits d (vDb (snd (Readdir E a w)))" if "edits d (vDb w)" for a w
    using that Readdir_edits [of E a w] reaches_trans by (metis prod.collapse)
  show ?thesis
    by (auto simp: poll_new_def Let_def case_prod_beta AttachChild_def intro!: rd edits_stmt assms)
qed

lemma poll_entries_edits: "edits d (vDb v) \<Longrightarrow> edits d (vDb (poll_entries E p cs remote names v))"
proof (induction names arbitrary: v)
  case (Cons name names)
  then show ?case
    using poll_existing_edits [OF Cons.prems] poll_new_edits [OF Cons.prems] by (auto intro!: Cons.IH split: option.split)
qed simp

lemma DetachChild_db [simp]: "vDb (DetachChild p name v) = vDb v"
  by (auto simp: DetachChild_def RemoveChild_def split: prod.splits option.splits)

lemma prune_edits: "edits d (vDb v) \<Longrightarrow> edits d (vDb (snd (prune hook p cs listed names dels v)))"
proof (induction names arbitrary: v dels hook)
  case (Cons name names)
  have "edits d (vDb (with_db (DeleteInode q) (release_blob h i (DetachChild p name v))))" for q h i
    using Cons.prems by (auto intro: edits_stmt)
  then show ?case using Cons.prems by (auto simp: Let_def intro!: Cons.IH split: option.split)
qed simp

lemma poll_dir_edits: "edits (vDb v) (vDb (snd (snd (poll_dir Q a v))))"
  by (auto simp: poll_dir_def Let_def case_prod_beta intro!: prune_edits poll_entries_edits split: answer.split option.split)

definition poll_op :: "poll_env \<times> addr \<Rightarrow> vfs \<Rightarrow> vfs" where
  "poll_op = (\<lambda>(Q, a) v. snd (snd (poll_dir Q a v)))"

interpretation poll_edit: db_editor vDb poll_op edit_call
  by unfold_locales (auto simp: edit_call_def poll_op_def poll_dir_edits)

section \<open>The tree under a poll\<close>

text \<open>Every node with a local edit keeps its mark, its buffer, its generation and its content.\<close>

definition keeps_dirty :: "vfs \<Rightarrow> vfs \<Rightarrow> bool" where
  "keeps_dirty v v' \<longleftrightarrow> length (heap v) \<le> length (heap v') \<and> (\<forall>c < length (heap v). nDirty (node_at v c) \<longrightarrow>
     nDirty (node_at v' c) \<and> nData (node_at v' c) = nData (node_at v c) \<and>
     nWriteGen (node_at v' c) = nWriteGen (node_at v c) \<and> nContentHash (node_at v' c) = nContentHash (node_at v c))"

lemma keeps_dirty_refl [simp]: "keeps_dirty v v"
  by (simp add: keeps_dirty_def)

lemma keeps_dirty_trans: "keeps_dirty u v \<Longrightarrow> keeps_dirty v w \<Longrightarrow> keeps_dirty u w"
  by (auto simp: keeps_dirty_def)

lemma same_keeps_dirty: "edits_same v v' \<Longrightarrow> keeps_dirty v v'"
  by (simp add: edits_same_def keeps_dirty_def)

lemma populateDir_edits_same:
  assumes "vfs_wf v" "p < length (heap v)"
  shows "edits_same v (snd (populateDir E p v))"
proof -
  let ?v = "v\<lparr>vOnline := True\<rparr>"
  have on: "edits_same v (v\<lparr>vOnline := b\<rparr>)" for b by (simp add: edits_same_def node_at_def)
  have wf: "vfs_wf ?v" "p < length (heap ?v)" using assms wf_shape [of ?v v] by auto
  have "edits_same v (snd (case populate_entries E p es [] ?v of
      (seen, v1) \<Rightarrow> (None, upd_node p (\<lambda>n. n\<lparr>nLoaded := True\<rparr>) (drop_unseen p seen (nChildren (node_at v1 p)) v1))))" for es
  proof -
    obtain seen v1 where pop: "populate_entries E p es [] ?v = (seen, v1)" by fastforce
    have e1: "edits_same ?v v1" using populate_entries_names [OF wf, of E es "[]"] pop by simp
    then have "p < length (heap v1)" using wf(2) by (simp add: edits_same_def)
    from edits_same_trans [OF e1 conjunct2 [OF drop_unseen_children [OF this]]] on [of True] edits_same_trans
    show ?thesis by (auto simp: pop intro!: edits_same_upd)
  qed
  then show ?thesis using on by (auto simp: populateDir_def Let_def split: answer.split option.split)
qed

lemma Readdir_same:
  assumes "vfs_wf v" "a < length (heap v)"
  shows "keeps_dirty v (snd (Readdir E a v)) \<and> vfs_wf (snd (Readdir E a v))"
proof -
  obtain r v1 where p: "populateDir E a v = (r, v1)" by fastforce
  then show ?thesis
    using same_keeps_dirty [OF populateDir_edits_same [OF assms, of E]] populateDir_wf [OF assms(1) p] assms(1)
    by (auto simp: Readdir_def split: option.split)
qed

lemma poll_existing_tree:
  assumes "vfs_wf v"
  shows "keeps_dirty v (poll_existing a entry v) \<and> vfs_wf (poll_existing a entry v)"
proof -
  have shape: "shape (poll_existing a entry v) = shape v"
    by (auto simp: poll_existing_def Let_def shape_rules split: option.splits)
  have "keeps_dirty v (poll_existing a entry v)"
    by (auto simp: poll_existing_def Let_def keeps_dirty_def node_at_upd_if split: option.split)
  then show ?thesis using wf_shape [OF shape] assms by simp
qed

lemma alloc_keeps: "keeps_dirty v (snd (alloc n (v\<lparr>vDb := d\<rparr>)))"
  by (auto simp: keeps_dirty_def alloc_def node_at_def nth_append)

lemma attach_keeps: "keeps_dirty v w \<Longrightarrow> keeps_dirty v (AttachChild p c w)"
  by (auto simp: AttachChild_def AddChild_def Let_def keeps_dirty_def node_at_upd_if)

lemma poll_new_tree:
  assumes "vfs_wf v"
  shows "keeps_dirty v (poll_new E p name entry v) \<and> vfs_wf (poll_new E p name entry v)"
proof -
  define n0 where "n0 = (if eType entry = ''directory'' then NewDirNode (vNow E) name (plainJoin (nRemotePath (node_at v p)) name) p
    else NewFileNode name (plainJoin (nRemotePath (node_at v p)) name) (case ePlaintextSize entry of Some sz \<Rightarrow> sz | None \<Rightarrow> 0)
      (case eModified entry of Some t \<Rightarrow> t | None \<Rightarrow> vNow E) p)\<lparr>nEtag := eETag entry\<rparr>"
  define up where "up = UpsertInode (zero_inode\<lparr>iRemotePath := plainJoin (nRemotePath (node_at v p)) name, iDisplayName := name,
    iIsDir := eType entry = ''directory'', iSize := nSize n0, iMtime := nMtime n0, iSyncStatus := StatusSynced, iEtag := eETag entry,
    iParentID := nID (node_at v p)\<rparr>) (vDb v)"
  define n where "n = n0\<lparr>nID := (case fst up of Inr i \<Rightarrow> i | Inl _ \<Rightarrow> 0)\<rparr>"
  define w where "w = AttachChild p (length (heap v)) (snd (alloc n (v\<lparr>vDb := snd up\<rparr>)))"
  have eq: "poll_new E p name entry v = (if eType entry = ''directory'' then snd (Readdir E (length (heap v)) w) else w)"
    unfolding poll_new_def Let_def case_prod_beta n0_def [symmetric] up_def [symmetric] n_def [symmetric] by (simp add: w_def)
  have no: "nChildren n = []" by (simp add: n_def n0_def NewDirNode_def NewFileNode_def zero_node_def)
  have new: "keeps_dirty v w \<and> vfs_wf w \<and> length (heap v) < length (heap w)"
    using grows_attach [OF assms no, of p "snd up"] attach_keeps [OF alloc_keeps]
    by (auto simp: w_def grows_def AttachChild_def AddChild_def Let_def)
  then have "keeps_dirty v (snd (Readdir E (length (heap v)) w)) \<and> vfs_wf (snd (Readdir E (length (heap v)) w))"
    using Readdir_same [of w "length (heap v)" E] keeps_dirty_trans by blast
  then show ?thesis using new by (simp add: eq)
qed

lemma poll_entries_tree: "vfs_wf v \<Longrightarrow> keeps_dirty v (poll_entries E p cs remote names v) \<and> vfs_wf (poll_entries E p cs remote names v)"
proof (induction E p cs remote names v rule: poll_entries.induct)
  case (2 E p cs remote name names v)
  show ?case
  proof (cases "map_of remote name")
    case (Some entry)
    let ?w = "case map_of cs name of Some a \<Rightarrow> poll_existing a entry v | None \<Rightarrow> poll_new E p name entry v"
    have w: "keeps_dirty v ?w \<and> vfs_wf ?w"
      using poll_existing_tree [OF 2(3)] poll_new_tree [OF 2(3)] by (auto split: option.split)
    then show ?thesis using 2(2) [OF Some] keeps_dirty_trans Some by fastforce
  qed (use 2 in simp)
qed simp

lemma Detach_tree: "vfs_wf v \<Longrightarrow> keeps_dirty v (DetachChild p name v) \<and> vfs_wf (DetachChild p name v)"
proof -
  assume wf: "vfs_wf v"
  have "DetachChild p name v = (case GetChild p name v of Some c \<Rightarrow> untrackNode c (snd (RemoveChild p name v)) | None \<Rightarrow> snd (RemoveChild p name v))"
    by (simp add: DetachChild_def RemoveChild_def split: option.split)
  moreover have "keeps_dirty v (snd (RemoveChild p name v))" by (simp add: RemoveChild_def keeps_dirty_def node_at_upd_if)
  then have "keeps_dirty v (untrackNode c (snd (RemoveChild p name v)))" for c by (simp add: keeps_dirty_def)
  ultimately show ?thesis
    using wf_RemoveChild [OF wf, of p name] wf_untrackNode \<open>keeps_dirty v (snd (RemoveChild p name v))\<close> by (simp split: option.split)
qed

lemma prune_tree:
  "vfs_wf v \<Longrightarrow> keeps_dirty v (snd (prune hook p cs listed names dels v)) \<and> vfs_wf (snd (prune hook p cs listed names dels v))"
proof (induction names arbitrary: v dels hook)
  case (Cons name names)
  have w: "vfs_wf (with_db (DeleteInode q) (release_blob h i (DetachChild p name v)))"
    "keeps_dirty v (with_db (DeleteInode q) (release_blob h i (DetachChild p name v)))" for q h i
    using Detach_tree [OF Cons.prems, of p name] wf_shape [of "with_db (DeleteInode q) (release_blob h i (DetachChild p name v))" "DetachChild p name v"]
    by (simp_all add: keeps_dirty_def shape_rules)
  have "keeps_dirty v (snd (prune hook' p cs listed names dels' (with_db (DeleteInode q) (release_blob h i (DetachChild p name v))))) \<and>
    vfs_wf (snd (prune hook' p cs listed names dels' (with_db (DeleteInode q) (release_blob h i (DetachChild p name v)))))" for q h i hook' dels'
    using Cons.IH [OF w(1)] keeps_dirty_trans [OF w(2)] by blast
  then show ?case using Cons.IH [OF Cons.prems] by (simp add: Let_def split: option.split)
qed simp

lemma poll_dir_tree: "vfs_wf v \<Longrightarrow> keeps_dirty v (snd (snd (poll_dir Q a v))) \<and> vfs_wf (snd (snd (poll_dir Q a v)))"
proof -
  assume wf: "vfs_wf v"
  have "keeps_dirty v (snd (if b then ([], w) else prune h p cs l ns [] w)) \<and> vfs_wf (snd (if b then ([], w) else prune h p cs l ns [] w))"
    if "keeps_dirty v w \<and> vfs_wf w" for b w h p cs l ns
    using that prune_tree [of w h p cs l ns "[]"] keeps_dirty_trans by auto
  then show ?thesis
    using wf poll_entries_tree [OF wf] by (auto simp: poll_dir_def Let_def case_prod_beta split: answer.split option.split)
qed

text \<open>
  Polling keeps local edits. Through any sequence of directory polls, with any listings, undecryptable
  or unsafe names, and any failing statements, every node with a local edit keeps its mark, buffer, write
  generation and content, no dirty row turns clean, and tree and database stay well formed.
\<close>

theorem polls_keep_edits:
  assumes "vfs_wf v" "db_ok (vDb v)"
  shows "keeps_dirty v (fold poll_op qs v) \<and> vfs_wf (fold poll_op qs v) \<and>
    edits_kept (vDb v) (vDb (fold poll_op qs v)) \<and> db_ok (vDb (fold poll_op qs v))"
proof -
  have "keeps_dirty v (fold poll_op qs v) \<and> vfs_wf (fold poll_op qs v)"
    using assms(1)
  proof (induction qs arbitrary: v)
    case (Cons q qs)
    have "keeps_dirty v (poll_op q v) \<and> vfs_wf (poll_op q v)" using poll_dir_tree [OF Cons.prems] by (cases q) (simp add: poll_op_def)
    then show ?case using Cons.IH [of "poll_op q v"] keeps_dirty_trans by auto
  qed simp
  then show ?thesis using poll_edit.run_edits_kept [OF assms(2), of qs] poll_edit.run_db_ok [OF assms(2), of qs] by simp
qed

text \<open>A recursive poll is such a sequence.\<close>

lemma pollRecursive_polls:
  assumes "pollRecursive Q items dels v = Some (err, dels', v')"
  shows "\<exists>as. v' = fold poll_op (map (Pair Q) as) v"
proof -
  have "\<exists>as. v' = fold poll_op (map (Pair Q) as) v" if "pollRecursive Q items dels v = Some r" "r = (err, dels', v')" for r
    using that
  proof (induction arbitrary: err dels' v' rule: pollRecursive.raw_induct [rotated, consumes 1, case_names step])
    case (step rec Q items dels v r)
    show ?case
    proof (cases items)
      case Nil
      then show ?thesis using step(2,3) by (intro exI [of _ "[]"]) simp
    next
      case (Cons it rest)
      define target where "target = (case it of PollDir a \<Rightarrow> Some a | PollName p name \<Rightarrow>
        (case GetChild p name v of Some c \<Rightarrow> if nIsDir (node_at v c) \<and> nLoaded (node_at v c) then Some c else None | None \<Rightarrow> None))"
      show ?thesis
      proof (cases target)
        case None
        then have "rec Q rest dels v = Some r" using step(2) Cons by (simp add: target_def)
        then show ?thesis using step(1,3) by blast
      next
        case (Some a)
        obtain res ds v1 where pd: "poll_dir Q a v = (res, ds, v1)" by (metis prod_cases3)
        have one: "v1 = poll_op (Q, a) v" using pd by (simp add: poll_op_def)
        show ?thesis
        proof (cases res)
          case (Inl e)
          then have "v' = v1" using step(2,3) Cons Some pd by (simp add: target_def)
          then show ?thesis using one by (intro exI [of _ "[a]"]) simp
        next
          case (Inr names)
          then have "rec Q (map (PollName a) names @ rest) (dels @ ds) v1 = Some r" using step(2) Cons Some pd by (simp add: target_def)
          from step(1) [OF this step(3)] obtain as where "v' = fold poll_op (map (Pair Q) as) v1" by blast
          then show ?thesis using one by (intro exI [of _ "a # as"]) simp
        qed
      qed
    qed
  qed
  then show ?thesis using assms by blast
qed

section \<open>One entry\<close>

text \<open>
  How a poll settles an entry that is already known. If the file is edited locally and the server's
  version changed, it is marked as a conflict and neither its version nor its time or size is touched;
  if it is not edited and changed, its cached content is given up and the new version recorded, so the
  next opening downloads it; otherwise only version and time are taken over. Two non-empty versions
  decide alone; without them size or time count.
\<close>

theorem poll_existing_outcome:
  assumes "a < length (heap v)"
  shows "let n = node_at v a; n' = node_at (poll_existing a entry v) a; dirty = nDirty n \<or> row_dirty (nID n) v in
    nDirty n' = nDirty n \<and> nData n' = nData n \<and>
    (if dirty \<and> remote_changed n entry
     then nSyncStatus n' = StatusConflict \<and> nEtag n' = nEtag n \<and> nMtime n' = nMtime n \<and> nSize n' = nSize n \<and> nCached n' = nCached n
     else nEtag n' = eETag entry \<and> nSyncStatus n' = nSyncStatus n \<and>
       (if remote_changed n entry then \<not> nCached n' \<and> nContentHash n' = [] else nCached n' = nCached n \<and> nContentHash n' = nContentHash n)) \<and>
    (nEtag n \<noteq> [] \<and> eETag entry \<noteq> [] \<longrightarrow> remote_changed n entry = (nEtag n \<noteq> eETag entry))"
proof -
  let ?n = "node_at v a"
  have tags: "nEtag ?n \<noteq> [] \<and> eETag entry \<noteq> [] \<longrightarrow> remote_changed ?n entry = (nEtag ?n \<noteq> eETag entry)"
    by (simp add: remote_changed_def Let_def)
  consider (conflict) "(nDirty ?n \<or> row_dirty (nID ?n) v) \<and> remote_changed ?n entry"
    | (stale) "\<not> (nDirty ?n \<or> row_dirty (nID ?n) v)" "remote_changed ?n entry" | (same) "\<not> remote_changed ?n entry" by blast
  then show ?thesis
  proof cases
    case conflict
    then show ?thesis using assms tags by (simp add: poll_existing_def Let_def node_at_upd_if split: option.split)
  next
    case stale
    then show ?thesis using assms tags by (simp add: poll_existing_def Let_def node_at_upd_if split: option.split)
  next
    case same
    then show ?thesis using assms tags by (simp add: poll_existing_def Let_def node_at_upd_if split: option.split)
  qed
qed

text \<open>A read of the row that fails counts as not dirty: an unlisted file whose edit is known only to the
  database is then removed with its local copy.\<close>

lemma failed_read_prunes_edit:
  assumes "sqlFails (vDb v) OpGetInode" "\<not> nDirty (node_at v c)" "\<not> sqlFails (vDb v) OpDeleteInode"
  shows "fst (prune True p [(name, c)] {} [name] [] v) = [nRemotePath (node_at v c)] \<and>
    (\<forall>r \<in> set (inodes (vDb (snd (prune True p [(name, c)] {} [name] [] v)))). iRemotePath r \<noteq> nRemotePath (node_at v c))"
  using assms by (auto simp: row_dirty_def GetInode_def first_row_def DeleteInode_def exec_def sql_delete_def Let_def)

section \<open>Witnesses\<close>

definition sample_poll :: poll_env where
  "sample_poll = \<lparr>pE = sample_venv, pTreeEnv = \<lparr>trLower = id, trEqualFold = (=), trSortSlice = (\<lambda>lt ids. ids), trRangeKeys = id\<rparr>,
     pCycleTree = None, pCanceled = (\<lambda>p. False), pRange = id, pMarshalIDs = (\<lambda>ids. None), pLocalDelete = True\<rparr>"

theorem polls_keep_edits_witness:
  "nDirty (node_at (fold poll_op [(sample_poll, 0), (sample_poll, 0)] sample_vfs) 1) \<and>
   nData (node_at (fold poll_op [(sample_poll, 0), (sample_poll, 0)] sample_vfs) 1) = Some [7, 8, 9]"
proof -
  have "keeps_dirty sample_vfs (fold poll_op [(sample_poll, 0), (sample_poll, 0)] sample_vfs)"
    by (rule polls_keep_edits [OF sample_vfs_wf, THEN conjunct1]) (simp add: sample_node_at sample_db_ok)
  moreover have "1 < length (heap sample_vfs)" by (simp add: sample_node_at)
  ultimately show ?thesis by (metis keeps_dirty_def sample_node_at(1) sample_node_fields(1,2))
qed

theorem poll_existing_outcome_witness:
  "nDirty (node_at (poll_existing 1 \<lparr>eDisplayName = [], eType = [], eETag = ''v9'', ePlaintextSize = None, eModified = None\<rparr> sample_vfs) 1)"
  using poll_existing_outcome [of 1 sample_vfs] by (simp add: sample_node_at sample_node_fields Let_def del: One_nat_def)

end
