(* ===== verification/SyncFolder.thy ===== *)
theory SyncFolder
  imports Poller
begin

text \<open>
  The local side of a sync folder, shared by the downloader, the watcher and the reconciler: the local
  file system as a map from paths to what \<open>Lstat\<close> finds there, the state the three work on, the
  translation between local and remote paths, and which names are ignored
  (\<open>internal/mount/syncer/watcher.go\<close>).
\<close>

section \<open>Local files\<close>

record lreg =
  lrData :: bytes
  lrMtime :: int
  lrIno :: int
  lrReadable :: bool

text \<open>What is at a path; a link knows what following it leads to.\<close>

datatype fentry = FNone | FFails | FDir | FReg lreg | FOther | FLink fentry

type_synonym lfs = "string \<Rightarrow> fentry"

definition lstat_of :: "fentry \<Rightarrow> lstat" where
  "lstat_of e = (case e of FNone \<Rightarrow> LNotExist | FFails \<Rightarrow> LFails | FLink t \<Rightarrow> LInfo True (Some True) | _ \<Rightarrow> LInfo False (Some False))"

text \<open>\<open>os.Stat\<close> follows links; an entry that cannot be looked at is an error.\<close>

fun stat_of :: "fentry \<Rightarrow> fentry" where
  "stat_of (FLink t) = stat_of t"
| "stat_of e = e"

definition stat_ok :: "fentry \<Rightarrow> bool" where
  "stat_ok e \<longleftrightarrow> stat_of e \<noteq> FNone \<and> stat_of e \<noteq> FFails"

definition entry_size :: "fentry \<Rightarrow> int" where
  "entry_size e = (case stat_of e of FReg r \<Rightarrow> int (length (lrData r)) | _ \<Rightarrow> 0)"

definition entry_mtime :: "fentry \<Rightarrow> int" where
  "entry_mtime e = (case stat_of e of FReg r \<Rightarrow> lrMtime r | _ \<Rightarrow> 0)"

definition is_dir :: "fentry \<Rightarrow> bool" where
  "is_dir e \<longleftrightarrow> stat_of e = FDir"

definition hash_entry :: "prims \<Rightarrow> fentry \<Rightarrow> string option" where
  "hash_entry P e = (case stat_of e of FReg r \<Rightarrow> if lrReadable r then Some (hash_of P (lrData r)) else None | _ \<Rightarrow> None)"

section \<open>State and environment\<close>

record senv =
  sE :: venv
  sSyncDir :: string
  sRemotePath :: string
  sIsLink :: "lstat \<Rightarrow> bool"

record sstate =
  sV :: vfs
  sFs :: lfs
  sSuppress :: "string set"
  sLog :: "(string \<times> string \<times> int \<times> bool) list"

definition on_vfs :: "(vfs \<Rightarrow> vfs) \<Rightarrow> sstate \<Rightarrow> sstate" where
  "on_vfs f s = s\<lparr>sV := f (sV s)\<rparr>"

definition safe_in :: "senv \<Rightarrow> lfs \<Rightarrow> string \<Rightarrow> bool" where
  "safe_in S fs p = safeSyncPath (sIsLink S) (\<lambda>q. lstat_of (fs q)) (sSyncDir S) p"

definition toLocalPath :: "senv \<Rightarrow> string \<Rightarrow> string" where
  "toLocalPath S remotePath =
     path_Join (sSyncDir S)
       (if sRemotePath S \<noteq> [] \<and> sRemotePath S \<noteq> ''/'' then TrimPrefix remotePath (sRemotePath S @ ''/'') else remotePath)"

definition localPathWithin :: "senv \<Rightarrow> lfs \<Rightarrow> string \<Rightarrow> string option" where
  "localPathWithin S fs remotePath =
     (let p = toLocalPath S remotePath in if safe_in S fs p then Some p else None)"

text \<open>\<open>filepath.Base\<close> of a non-empty clean path.\<close>

definition path_Base :: "string \<Rightarrow> string" where
  "path_Base p = (if p = [] then ''.'' else
     let q = TrimRight (CHR ''/'') p in if q = [] then ''/'' else last_elem q)"

definition pathToRemote :: "senv \<Rightarrow> string \<Rightarrow> string" where
  "pathToRemote S lp =
     (case filepath_Rel (sSyncDir S) lp of
        None \<Rightarrow> path_Base lp
      | Some rel \<Rightarrow>
          if rel = ''.'' then sRemotePath S
          else if sRemotePath S = [] \<or> sRemotePath S = ''/'' then rel
          else sRemotePath S @ ''/'' @ rel)"

definition toRemote :: "senv \<Rightarrow> string \<Rightarrow> string" where
  "toRemote S lp =
     (case filepath_Rel (sSyncDir S) lp of
        None \<Rightarrow> []
      | Some rel \<Rightarrow>
          if rel = ''.'' then sRemotePath S
          else if sRemotePath S = [] \<or> sRemotePath S = ''/'' then rel
          else sRemotePath S @ ''/'' @ rel)"

definition toRemotePath :: "senv \<Rightarrow> string \<Rightarrow> string" where
  "toRemotePath S lp =
     (case filepath_Rel (sSyncDir S) lp of
        None \<Rightarrow> path_Base lp
      | Some rel \<Rightarrow> if sRemotePath S = [] \<or> sRemotePath S = ''/'' then rel else sRemotePath S @ ''/'' @ rel)"

section \<open>Ignored names\<close>

definition ignoredNames :: "string list" where
  "ignoredNames = [''.DS_Store'', ''Thumbs.db'', ''desktop.ini'']"

definition ignoredPrefixes :: "string list" where "ignoredPrefixes = [''~$'', ''.pig'']"
definition ignoredSuffixes :: "string list" where "ignoredSuffixes = [''.swp'', ''.tmp'', ''.crdownload'', ''.part'']"

definition HasSuffix :: "string \<Rightarrow> string \<Rightarrow> bool" where
  "HasSuffix s suf = HasPrefix (rev s) (rev suf)"

definition shouldIgnore :: "string \<Rightarrow> bool" where
  "shouldIgnore name =
     (if name \<in> set ignoredNames then True
      else if list_ex (HasPrefix name) ignoredPrefixes then True
      else if list_ex (HasSuffix name) ignoredSuffixes then True
      else HasPrefix name ''.'' \<and> name \<noteq> ''.'' \<and> name \<noteq> ''..'')"

section \<open>Walking the folder\<close>

text \<open>The folder as \<open>filepath.WalkDir\<close> meets it: entries with their names, a file with what \<open>Info\<close>
  answers, a directory with its entries in order.\<close>

datatype walk_tree = WFile string fentry | WDir string "walk_tree list"

definition wname :: "walk_tree \<Rightarrow> string" where
  "wname t = (case t of WFile nm e \<Rightarrow> nm | WDir nm ts \<Rightarrow> nm)"

definition wentry :: "walk_tree \<Rightarrow> fentry" where
  "wentry t = (case t of WFile nm e \<Rightarrow> e | WDir nm ts \<Rightarrow> FDir)"

definition wisdir :: "walk_tree \<Rightarrow> bool" where
  "wisdir t = (case t of WFile nm e \<Rightarrow> False | WDir nm ts \<Rightarrow> True)"

text \<open>What the callback answers: go on, skip this directory, or stop the walk.\<close>

datatype walk_step = WGo | WSkipDir | WStop

fun walk_dir :: "(string \<Rightarrow> walk_tree \<Rightarrow> 's \<Rightarrow> walk_step \<times> 's) \<Rightarrow> string \<Rightarrow> walk_tree \<Rightarrow> 's \<Rightarrow> bool \<times> 's"
and walk_list :: "(string \<Rightarrow> walk_tree \<Rightarrow> 's \<Rightarrow> walk_step \<times> 's) \<Rightarrow> string \<Rightarrow> walk_tree list \<Rightarrow> 's \<Rightarrow> bool \<times> 's" where
  "walk_dir f path (WFile nm e) s =
     (case f path (WFile nm e) s of (WStop, s1) \<Rightarrow> (False, s1) | (_, s1) \<Rightarrow> (True, s1))"
| "walk_dir f path (WDir nm ts) s =
     (case f path (WDir nm ts) s of
        (WStop, s1) \<Rightarrow> (False, s1)
      | (WSkipDir, s1) \<Rightarrow> (True, s1)
      | (WGo, s1) \<Rightarrow> walk_list f path ts s1)"
| "walk_list f path [] s = (True, s)"
| "walk_list f path (t # ts) s =
     (case walk_dir f (path_Join path (wname t)) t s of
        (False, s1) \<Rightarrow> (False, s1)
      | (True, s1) \<Rightarrow> walk_list f path ts s1)"

text \<open>An invariant of the callback is an invariant of the walk.\<close>

lemma walk_keeps:
  "(\<And>path t s. P s \<Longrightarrow> P (snd (f path t s))) \<Longrightarrow> P s \<Longrightarrow> P (snd (walk_dir f path t s))"
  "(\<And>path t s. P s \<Longrightarrow> P (snd (f path t s))) \<Longrightarrow> P s \<Longrightarrow> P (snd (walk_list f path ts s))"
proof (induction f path t s and f path ts s rule: walk_dir_walk_list.induct)
  case (1 f path nm e s)
  then have "P (snd (f path (WFile nm e) s))" by blast
  then show ?case by (auto split: prod.splits walk_step.splits)
next
  case (2 f path nm ts s)
  obtain w s1 where w: "f path (WDir nm ts) s = (w, s1)" by fastforce
  have "P s1" using 2(2) [OF 2(3), of path "WDir nm ts"] w by simp
  then show ?case using 2(1) [OF w [symmetric] _ 2(2)] w by (cases w) auto
next
  case (4 f path t ts s)
  obtain b s1 where w: "walk_dir f (path_Join path (wname t)) t s = (b, s1)" by fastforce
  have "P s1" using 4(1) [OF 4(3,4)] w by simp
  then show ?case using 4(2) [OF w [symmetric] _ 4(3)] w by (cases b) auto
qed simp

end
