(* ===== verification/Downloader.thy ===== *)
theory Downloader
  imports SyncFolder
begin

text \<open>
  The downloader of a sync folder: \<open>internal/mount/syncer/downloader.go\<close> and \<open>downloader_local.go\<close>.

  A download takes long, and the user, the watcher and other downloads work meanwhile: fetching is a
  function that returns its result and the state the others have left, and so is the moment between the
  rename of the new file and the update of the node. Four downloads run at a time; here they run one
  after the other, each with whatever the others do in between.
\<close>

section \<open>Environment\<close>

record denv =
  dS :: senv
  dFetch :: "string \<Rightarrow> sstate \<Rightarrow> (dl_error + bytes \<times> string \<times> string) \<times> sstate"
  dAfterRename :: "sstate \<Rightarrow> sstate"
  dMkdirAll :: "string \<Rightarrow> lfs \<Rightarrow> lfs option"
  dTempFile :: bool
  dTempRename :: bool
  dRename :: "string \<Rightarrow> string \<Rightarrow> lfs \<Rightarrow> lfs option"
  dNewIno :: int
  dChtimes :: bool
  dWriteTime :: int
  dActivity :: bool

definition MaxInMemoryDownloadSize :: int where "MaxInMemoryDownloadSize = 600 * 1024 * 1024"

datatype dl_fail = LocalChanged | RemoteChanged | Failed dl_error

definition fail_text :: "string \<Rightarrow> dl_fail" where "fail_text t = Failed (plain_err t)"

definition permanent_text :: "string \<Rightarrow> dl_fail" where
  "permanent_text t = Failed ((plain_err t)\<lparr>dePermanent := True\<rparr>)"

section \<open>Questions to the database\<close>

definition inodeDirty :: "int \<Rightarrow> vfs \<Rightarrow> bool" where
  "inodeDirty i v = (if i = 0 then False else case GetInode i (vDb v) of Inr x \<Rightarrow> iDirty x | Inl _ \<Rightarrow> False)"

definition localBaseline :: "int \<Rightarrow> vfs \<Rightarrow> string" where
  "localBaseline i v = (case LocalContentState i (vDb v) of Inr (cur, base, ver) \<Rightarrow> base | Inl _ \<Rightarrow> [])"

definition localCopyMatches :: "senv \<Rightarrow> int \<Rightarrow> fentry \<Rightarrow> int \<Rightarrow> string \<Rightarrow> vfs \<Rightarrow> bool" where
  "localCopyMatches S i e remoteSize remoteEtag v =
     (if entry_size e \<noteq> remoteSize then False
      else if i = 0 \<or> remoteEtag = [] then False
      else case GetInode i (vDb v) of
             Inl _ \<Rightarrow> False
           | Inr x \<Rightarrow>
               if iLocalHash x = [] then False
               else case LocalContentState i (vDb v) of
                      Inl _ \<Rightarrow> False
                    | Inr (cur, base, ver) \<Rightarrow>
                        if ver \<noteq> remoteEtag then False
                        else hash_entry (vPrims (sE S)) e = Some (iLocalHash x))"

definition downloadDue :: "venv \<Rightarrow> int \<Rightarrow> vfs \<Rightarrow> bool" where
  "downloadDue E i v =
     (if i = 0 then True
      else case GetSyncFailure i FailureDownload (vDb v) of
             Inr (Some f) \<Rightarrow> if fPermanent f then False else vNow E \<ge> fNextRetryAt f
           | _ \<Rightarrow> True)"

definition recordDownloadFailure :: "venv \<Rightarrow> addr \<Rightarrow> dl_fail \<Rightarrow> vfs \<Rightarrow> vfs" where
  "recordDownloadFailure E a err v =
     (let i = nID (node_at v a) in
      if i = 0 then v
      else case err of
             LocalChanged \<Rightarrow> v
           | RemoteChanged \<Rightarrow> v
           | Failed e \<Rightarrow>
               if deCanceled e then v
               else
                 let attempts = (case GetSyncFailure i FailureDownload (vDb v) of Inr (Some prev) \<Rightarrow> fAttempts prev + 1 | _ \<Rightarrow> 1);
                     f = \<lparr>fInodeID = i, fKind = FailureDownload, fPermanent = dePermanent e, fAttempts = attempts,
                          fNextRetryAt = (if dePermanent e then 0 else add_delay (vNow E) (TransferBackoff attempts)),
                          fLastError = deText e\<rparr>;
                     v1 = (if dePermanent e then with_db (SetSyncStatus i StatusFailed (deText e)) v else v)
                 in with_db (RecordSyncFailure f) v1)"

section \<open>Protecting the local file\<close>

text \<open>The state of the local target: \<open>None\<close> is an error, \<open>Some None\<close> a missing file.\<close>

definition readLocalDownloadState :: "prims \<Rightarrow> fentry \<Rightarrow> (lreg \<times> string) option option" where
  "readLocalDownloadState P e =
     (case e of
        FNone \<Rightarrow> Some None
      | FReg r \<Rightarrow> if lrReadable r then Some (Some (r, hash_of P (lrData r))) else None
      | _ \<Rightarrow> None)"

definition sameLocalDownloadState :: "(lreg \<times> string) option \<Rightarrow> (lreg \<times> string) option \<Rightarrow> bool" where
  "sameLocalDownloadState before after =
     (case (before, after) of
        (Some (b, hb), Some (a, ha)) \<Rightarrow>
          lrIno b = lrIno a \<and> hb = ha \<and> lrMtime b = lrMtime a \<and> length (lrData b) = length (lrData a)
      | (None, None) \<Rightarrow> True
      | _ \<Rightarrow> False)"

definition markLocalConflict :: "addr \<Rightarrow> string \<Rightarrow> vfs \<Rightarrow> dl_fail \<times> vfs" where
  "markLocalConflict a reason v =
     (let i = nID (node_at v a) in
      case MarkLocalConflict i reason (vDb v) of
        (Some e, d) \<Rightarrow> (fail_text ''mark local conflict'', v\<lparr>vDb := d\<rparr>)
      | (None, d) \<Rightarrow>
          (LocalChanged,
           with_db (ClearSyncFailure i FailureDownload)
             (upd_node a (\<lambda>n. n\<lparr>nDirty := True, nCached := False, nSyncStatus := StatusConflict, nStatusReason := reason\<rparr>)
               (v\<lparr>vDb := d\<rparr>))))"

definition enqueueLocalUpload :: "venv \<Rightarrow> addr \<Rightarrow> string \<Rightarrow> fentry \<Rightarrow> vfs \<Rightarrow> vfs" where
  "enqueueLocalUpload E a lp e v =
     (let (ok, reason) = ValidateFile (vUniLower E) (vTypeOf E) (path_Base lp) (entry_size e);
          status = (if ok then StatusPending else StatusRejected);
          parentID = (case nParent (node_at v a) of Some p \<Rightarrow> nID (node_at v p) | None \<Rightarrow> 0);
          v1 = upd_node a (\<lambda>n. n\<lparr>nDirty := True, nCached := False, nSize := entry_size e\<rparr>) v;
          n = node_at v1 a;
          inode = zero_inode\<lparr>iRemotePath := nRemotePath n, iDisplayName := nName n, iSize := entry_size e, iMtime := entry_mtime e,
                    iDirty := True, iSyncStatus := status, iStatusReason := reason, iParentID := parentID\<rparr>
      in case UpsertInode inode (vDb v1) of
           (Inl er, d) \<Rightarrow> v1\<lparr>vDb := d\<rparr>
         | (Inr i, d) \<Rightarrow>
             (let v2 = with_db (SetLocalContent i [] 0) (upd_node a (\<lambda>n. n\<lparr>nID := i\<rparr>) (v1\<lparr>vDb := d\<rparr>)) in
              if \<not> ok then v2 else enqueue_upload E i (nRemotePath n) v2))"

definition collision_reason :: string where
  "collision_reason = ''local and remote files share a name without a synchronized content baseline''"

definition protectLocalCollision :: "senv \<Rightarrow> addr \<Rightarrow> string \<Rightarrow> fentry \<Rightarrow> vfs \<Rightarrow> bool \<times> vfs" where
  "protectLocalCollision S a lp e v =
     (let i = nID (node_at v a); baseline = localBaseline i v in
      if inodeDirty i v then (True, v)
      else if baseline = [] then (True, snd (markLocalConflict a collision_reason v))
      else case hash_entry (vPrims (sE S)) e of
             None \<Rightarrow> (True, snd (markLocalConflict a ''local file could not be verified before downloading'' v))
           | Some h \<Rightarrow>
               if h \<noteq> baseline then
                 (case LocalContentState i (vDb v) of
                    Inr (cur, base, ver) \<Rightarrow>
                      if nEtag (node_at v a) \<noteq> [] \<and> ver = nEtag (node_at v a) then (True, enqueueLocalUpload (sE S) a lp e v)
                      else (True, snd (markLocalConflict a ''local and remote content both differ from the synchronized baseline'' v))
                  | Inl _ \<Rightarrow> (True, snd (markLocalConflict a ''local and remote content both differ from the synchronized baseline'' v)))
               else (False, v))"

definition validateDownloadPublication ::
  "senv \<Rightarrow> addr \<Rightarrow> string \<Rightarrow> (lreg \<times> string) option \<Rightarrow> string \<Rightarrow> sstate \<Rightarrow> dl_fail option \<times> sstate" where
  "validateDownloadPublication S a lp before remoteEtag s =
     (let v = sV s; conflict = (\<lambda>reason. case markLocalConflict a reason v of (er, v1) \<Rightarrow> (Some er, s\<lparr>sV := v1\<rparr>)) in
      if nEtag (node_at v a) \<noteq> remoteEtag then (Some RemoteChanged, s)
      else if localPathWithin S (sFs s) (nRemotePath (node_at v a)) \<noteq> Some lp
      then conflict ''local folder changed while remote content was downloading''
      else case readLocalDownloadState (vPrims (sE S)) (sFs s lp) of
             None \<Rightarrow> conflict ''local file changed while remote content was downloading''
           | Some after \<Rightarrow>
               if \<not> sameLocalDownloadState before after \<or> inodeDirty (nID (node_at v a)) v
               then conflict ''local file changed while remote content was downloading''
               else (None, s))"

section \<open>One download\<close>

definition commitDownload :: "venv \<Rightarrow> int \<Rightarrow> int \<Rightarrow> string \<Rightarrow> int \<Rightarrow> string \<Rightarrow> vfs \<Rightarrow> vfs" where
  "commitDownload E i sz hash mtime remoteEtag v =
     (let superseded = (case GetInode i (vDb v) of Inr x \<Rightarrow> iContentHash x | Inl _ \<Rightarrow> []);
          v1 = with_db (SetInodeSize i sz) (with_db (MarkCached (vNow E) i []) v);
          v2 = with_db (SetLocalContentForVersion i hash mtime remoteEtag) v1;
          v3 = with_db (SetSyncStatus i StatusSynced []) v2
      in release_blob superseded i v3)"

text \<open>The checks before the fetch: an outcome at once, or the local path with its state.\<close>

definition download_begin :: "denv \<Rightarrow> addr \<Rightarrow> sstate \<Rightarrow> (dl_fail \<times> sstate) + string \<times> (lreg \<times> string) option" where
  "download_begin D a s =
     (let S = dS D; v = sV s; n = node_at v a; i = nID n;
          conflict = (\<lambda>reason. case markLocalConflict a reason v of (er, v1) \<Rightarrow> Inl (er, s\<lparr>sV := v1\<rparr>)) in
      case localPathWithin S (sFs s) (nRemotePath n) of
        None \<Rightarrow> Inl (fail_text (''refusing unsafe local path for '' @ nRemotePath n), s)
      | Some lp \<Rightarrow>
          (case readLocalDownloadState (vPrims (sE S)) (sFs s lp) of
             None \<Rightarrow> conflict ''local file cannot be replaced while local changes are pending''
           | Some before \<Rightarrow>
               if inodeDirty i v then conflict ''local file cannot be replaced while local changes are pending''
               else if (case before of Some (r, h) \<Rightarrow> localBaseline i v = [] \<or> h \<noteq> localBaseline i v | None \<Rightarrow> False)
               then conflict ''local content differs from the synchronized baseline''
               else Inr (lp, before)))"

text \<open>Publishing what was fetched: \<open>WriteFileAtomicGuarded\<close> writes a temporary file beside the target,
  asks the guard, and renames.\<close>

definition publish :: "denv \<Rightarrow> addr \<Rightarrow> string \<Rightarrow> (lreg \<times> string) option \<Rightarrow> string \<Rightarrow> bytes \<Rightarrow> sstate \<Rightarrow> dl_fail option \<times> sstate" where
  "publish D a lp before remoteEtag plaintext s =
     (case dMkdirAll D (path_Dir lp) (sFs s) of
        None \<Rightarrow> (Some (fail_text ''create parent dir''), s)
      | Some fs \<Rightarrow>
          (let s1 = s\<lparr>sFs := fs\<rparr> in
           if \<not> dTempFile D then (Some (fail_text ''commit''), s1)
           else case validateDownloadPublication (dS D) a lp before remoteEtag s1 of
                  (Some er, s2) \<Rightarrow> (Some er, s2)
                | (None, s2) \<Rightarrow>
                    if \<not> dTempRename D then (Some (fail_text ''commit''), s2)
                    else (None, s2\<lparr>sFs := (sFs s2)(lp := FReg \<lparr>lrData = plaintext, lrMtime = dWriteTime D, lrIno = dNewIno D,
                                                          lrReadable = True\<rparr>)\<rparr>)))"

definition set_mtime :: "bool \<Rightarrow> int \<Rightarrow> fentry \<Rightarrow> fentry" where
  "set_mtime ok t e = (case e of FReg r \<Rightarrow> if ok then FReg (r\<lparr>lrMtime := t\<rparr>) else e | _ \<Rightarrow> e)"

definition download_end :: "denv \<Rightarrow> addr \<Rightarrow> string \<Rightarrow> (lreg \<times> string) option \<Rightarrow> node \<Rightarrow> dl_error + bytes \<times> string \<times> string \<Rightarrow> sstate \<Rightarrow>
    (int \<times> dl_fail option) \<times> sstate" where
  "download_end D a lp before n0 fetched s =
     (case fetched of
        Inl e \<Rightarrow> ((0, Some (Failed e)), s)
      | Inr (plaintext, sealedKey, encMeta) \<Rightarrow>
          (let got = int (length plaintext); S = dS D; E = sE S in
           if localPathWithin S (sFs s) (nRemotePath n0) \<noteq> Some lp
           then (case markLocalConflict a ''local folder changed while remote content was downloading'' (sV s) of
                   (er, v1) \<Rightarrow> ((got, Some er), s\<lparr>sV := v1\<rparr>))
           else
             case publish D a lp before (nEtag n0) plaintext (s\<lparr>sSuppress := insert lp (sSuppress s)\<rparr>) of
               (Some er, s1) \<Rightarrow> ((got, Some er), s1)
             | (None, s1) \<Rightarrow>
                 (let s2 = dAfterRename D (s1\<lparr>sFs := (sFs s1)(lp := set_mtime (dChtimes D) (nMtime n0) (sFs s1 lp))\<rparr>);
                      remoteChanged = (nEtag (node_at (sV s2) a) \<noteq> nEtag n0);
                      v1 = upd_node a (\<lambda>n. n\<lparr>nCached := \<not> remoteChanged, nSealedKey := sealedKey, nEncMeta := encMeta, nSize := got\<rparr>) (sV s2);
                      i = nID (node_at v1 a);
                      mtime = (if stat_ok (sFs s2 lp) then entry_mtime (sFs s2 lp) else 0);
                      v2 = commitDownload E i got (hash_of (vPrims E) plaintext) mtime (nEtag n0) v1
                  in if remoteChanged
                     then ((got, Some RemoteChanged), s2\<lparr>sV := with_db (InvalidateCache i) v2\<rparr>)
                     else ((got, None), s2\<lparr>sV := v2\<rparr>))))"

definition downloadFile :: "denv \<Rightarrow> addr \<Rightarrow> sstate \<Rightarrow> dl_fail option \<times> sstate" where
  "downloadFile D a s =
     (case download_begin D a s of
        Inl (er, s1) \<Rightarrow> (Some er, s1)
      | Inr (lp, before) \<Rightarrow>
          (let n0 = node_at (sV s) a;
               ((got, err), s1) =
                 (if nSize n0 > MaxInMemoryDownloadSize
                  then ((0, Some (permanent_text (''download '' @ nRemotePath n0 @ '': exceeds the in-memory limit''))), s)
                  else case dFetch D (nRemotePath n0) s of (fetched, s') \<Rightarrow> download_end D a lp before n0 fetched s')
           in (err, if dActivity D then s1\<lparr>sLog := sLog s1 @ [(nRemotePath n0, ''download'', got, err = None)]\<rparr> else s1)))"

section \<open>Walking the tree\<close>

definition settle_download :: "venv \<Rightarrow> addr \<Rightarrow> dl_fail option \<times> sstate \<Rightarrow> sstate" where
  "settle_download E a r =
     (case r of
        (Some er, s) \<Rightarrow> on_vfs (recordDownloadFailure E a er) s
      | (None, s) \<Rightarrow> on_vfs (\<lambda>v. with_db (ClearSyncFailure (nID (node_at v a)) FailureDownload) v) s)"

text \<open>A file in the periodic walk.\<close>

definition pending_file :: "denv \<Rightarrow> addr \<Rightarrow> sstate \<Rightarrow> sstate" where
  "pending_file D a s =
     (let S = dS D; E = sE S; v = sV s; n = node_at v a; i = nID n;
          needs = (\<not> nCached n \<and> \<not> nDirty n \<and> \<not> inodeDirty i v);
          lp = toLocalPath S (nRemotePath n); e = sFs s lp
      in if \<not> needs then s
         else if stat_ok e \<and> localCopyMatches S i e (nSize n) (nEtag n) v
         then s\<lparr>sV := with_db (SetSyncStatus i StatusSynced []) (with_db (ClearSyncFailure i FailureDownload)
                         (upd_node a (\<lambda>n. n\<lparr>nCached := True\<rparr>) v))\<rparr>
         else
           let (held, v1) = (if stat_ok e then protectLocalCollision S a lp e v else (False, v)) in
           if held then s\<lparr>sV := v1\<rparr>
           else if \<not> downloadDue E i v1 then s\<lparr>sV := v1\<rparr>
           else settle_download E a (downloadFile D a (s\<lparr>sV := v1\<rparr>)))"

text \<open>The recursions over the tree as stacks of nodes; the children go on top.\<close>

partial_function (option) walkForDownloads :: "denv \<Rightarrow> addr list \<Rightarrow> sstate \<Rightarrow> sstate option" where
  "walkForDownloads D as s =
     (case as of
        [] \<Rightarrow> Some s
      | a # rest \<Rightarrow>
          if \<not> nIsDir (node_at (sV s) a) then walkForDownloads D rest (pending_file D a s)
          else if \<not> nLoaded (node_at (sV s) a) then walkForDownloads D rest s
          else walkForDownloads D (ListChildNodes a (sV s) @ rest) s)"

definition downloadPending :: "denv \<Rightarrow> sstate \<Rightarrow> sstate option" where
  "downloadPending D s = walkForDownloads D [rootAddr] s"

text \<open>A file in the initial walk.\<close>

definition initial_file :: "denv \<Rightarrow> addr \<Rightarrow> sstate \<Rightarrow> sstate" where
  "initial_file D a s =
     (let S = dS D; E = sE S; v = sV s; n = node_at v a; i = nID n; lp = toLocalPath S (nRemotePath n); e = sFs s lp in
      if \<not> stat_ok e then settle_download E a (downloadFile D a s)
      else if inodeDirty i v
      then (if localBaseline i v = [] then s\<lparr>sV := snd (markLocalConflict a collision_reason v)\<rparr> else s)
      else if localCopyMatches S i e (nSize n) (nEtag n) v
      then s\<lparr>sV := with_db (ClearSyncFailure i FailureDownload) (with_db (SetSyncStatus i StatusSynced [])
                      (upd_node a (\<lambda>n. n\<lparr>nCached := True\<rparr>) v))\<rparr>
      else
        let (held, v1) = protectLocalCollision S a lp e v in
        if held then s\<lparr>sV := v1\<rparr> else settle_download E a (downloadFile D a (s\<lparr>sV := v1\<rparr>)))"

definition initial_dir :: "denv \<Rightarrow> addr \<Rightarrow> sstate \<Rightarrow> bool \<times> sstate" where
  "initial_dir D a s =
     (if a = rootAddr then (True, s)
      else case localPathWithin (dS D) (sFs s) (nRemotePath (node_at (sV s) a)) of
             None \<Rightarrow> (False, s)
           | Some ld \<Rightarrow>
               (True, s\<lparr>sSuppress := insert ld (sSuppress s),
                        sFs := (case dMkdirAll D ld (sFs s) of Some fs \<Rightarrow> fs | None \<Rightarrow> sFs s)\<rparr>))"

partial_function (option) walkAndSync :: "denv \<Rightarrow> addr list \<Rightarrow> sstate \<Rightarrow> sstate option" where
  "walkAndSync D as s =
     (case as of
        [] \<Rightarrow> Some s
      | a # rest \<Rightarrow>
          if nIsDir (node_at (sV s) a) then
            (case initial_dir D a s of
               (enter, s1) \<Rightarrow> walkAndSync D (if enter then ListChildNodes a (sV s1) @ rest else rest) s1)
          else walkAndSync D rest (initial_file D a s))"

partial_function (option) populateRemoteTree :: "venv \<Rightarrow> addr list \<Rightarrow> vfs \<Rightarrow> (vfsError option \<times> vfs) option" where
  "populateRemoteTree E as v =
     (case as of
        [] \<Rightarrow> Some (None, v)
      | a # rest \<Rightarrow>
          (case Readdir E a v of
             (Inl er, v1) \<Rightarrow> Some (Some er, v1)
           | (Inr children, v1) \<Rightarrow>
               populateRemoteTree E (filter (\<lambda>c. nIsDir (node_at v1 c)) (ListChildNodes a v1) @ rest) v1))"

section \<open>Housekeeping\<close>

definition drop_row :: "Inode \<Rightarrow> vfs \<Rightarrow> vfs" where
  "drop_row x v = with_db (DeleteInode (iRemotePath x)) (with_db (DeleteSyncFailures (iID x)) (with_db (DeleteWritebackByInode (iID x)) v))"

definition stale_row :: "senv \<Rightarrow> lfs \<Rightarrow> Inode \<Rightarrow> bool" where
  "stale_row S fs x =
     (iRemotePath x = [] \<or>
      (iSyncStatus x = StatusFailed \<or> iSyncStatus x = StatusRejected) \<and> \<not> stat_ok (fs (toLocalPath S (iRemotePath x))))"

definition cleanupStaleEntries :: "senv \<Rightarrow> sstate \<Rightarrow> nat \<times> sstate" where
  "cleanupStaleEntries S s =
     (let v = (sV s)\<lparr>vDb := snd (DeleteFailedWritebacks (vDb (sV s)))\<rparr> in
      case ListIssues (vDb v) of
        Inl _ \<Rightarrow> (0, s\<lparr>sV := v\<rparr>)
      | Inr issues \<Rightarrow>
          (let stale = filter (stale_row S (sFs s)) issues in (length stale, s\<lparr>sV := fold drop_row stale v\<rparr>)))"

text \<open>The search for a free name in the trash.\<close>

partial_function (option) free_name :: "lfs \<Rightarrow> string \<Rightarrow> int \<Rightarrow> string \<Rightarrow> string option" where
  "free_name fs trashPath k dst =
     (if fs dst = FNone \<or> fs dst = FFails then Some dst
      else free_name fs trashPath (k + 1) (trashPath @ ''.'' @ show_int k))"

definition RemoveLocal :: "denv \<Rightarrow> string \<Rightarrow> sstate \<Rightarrow> sstate option" where
  "RemoveLocal D remotePath s =
     (let S = dS D in
      case localPathWithin S (sFs s) remotePath of
        None \<Rightarrow> Some s
      | Some lp \<Rightarrow>
          if sFs s lp = FNone \<or> sFs s lp = FFails then Some s
          else
            let delBytes = (if is_dir (sFs s lp) then 0 else entry_size (sFs s lp));
                rel = (if sRemotePath S \<noteq> [] \<and> sRemotePath S \<noteq> ''/'' then TrimPrefix remotePath (sRemotePath S @ ''/'') else remotePath);
                trashPath = path_Join (path_Join (path_Join (sSyncDir S) ''.pigcloud'') ''trash'') rel;
                s1 = s\<lparr>sSuppress := insert lp (sSuppress s)\<rparr>
            in case dMkdirAll D (path_Dir trashPath) (sFs s1) of
                 None \<Rightarrow> Some s1
               | Some fs \<Rightarrow>
                   (case free_name fs trashPath 1 trashPath of
                      None \<Rightarrow> None
                    | Some dst \<Rightarrow>
                        (case dRename D lp dst fs of
                           None \<Rightarrow> Some (s1\<lparr>sFs := fs\<rparr>)
                         | Some fs2 \<Rightarrow>
                             Some (s1\<lparr>sFs := fs2,
                                      sLog := (if dActivity D then sLog s1 @ [(remotePath, ''delete'', delBytes, True)] else sLog s1)\<rparr>))))"

definition queueWriteback :: "venv \<Rightarrow> int \<Rightarrow> wb_action \<Rightarrow> string \<Rightarrow> vfs \<Rightarrow> bool \<times> vfs" where
  "queueWriteback E i action remotePath v =
     (case EnqueueWriteback (vNewKey E) (vNow E) i action remotePath ExtraEmpty (vDb v) of
        (None, d) \<Rightarrow> (True, v\<lparr>vDb := d\<rparr>)
      | (Some er, d) \<Rightarrow> (False, v\<lparr>vDb := d\<rparr>))"

text \<open>A path of the local walk that the database does not know.\<close>

definition scan_new :: "senv \<Rightarrow> string \<Rightarrow> walk_tree \<Rightarrow> nat \<times> vfs \<Rightarrow> nat \<times> vfs" where
  "scan_new S remotePath t kv =
     (case kv of (k, v) \<Rightarrow>
        let E = sE S; nm = wname t; e = wentry t in
        if (case GetInodeByPath remotePath (vDb v) of Inr x \<Rightarrow> True | Inl _ \<Rightarrow> False) then (k, v)
        else if wisdir t then
          (case UpsertInode (zero_inode\<lparr>iRemotePath := remotePath, iDisplayName := nm, iIsDir := True, iMtime := vNow E,
                              iSyncStatus := StatusPending\<rparr>) (vDb v) of
             (Inl er, d) \<Rightarrow> (k, v\<lparr>vDb := d\<rparr>)
           | (Inr i, d) \<Rightarrow>
               (case queueWriteback E i wb_action.Mkdir remotePath (v\<lparr>vDb := d\<rparr>) of
                  (queued, v1) \<Rightarrow> (if queued then k + 1 else k, v1)))
        else if e = FNone \<or> e = FFails then (k, v)
        else
          let (ok, reason) = ValidateFile (vUniLower E) (vTypeOf E) nm (entry_size e) in
          case UpsertInode (zero_inode\<lparr>iRemotePath := remotePath, iDisplayName := nm, iSize := entry_size e, iMtime := entry_mtime e,
                              iDirty := True, iSyncStatus := (if ok then StatusPending else StatusRejected), iStatusReason := reason\<rparr>) (vDb v) of
            (Inl er, d) \<Rightarrow> (k, v\<lparr>vDb := d\<rparr>)
          | (Inr i, d) \<Rightarrow>
              if \<not> ok then (k, v\<lparr>vDb := d\<rparr>)
              else (case queueWriteback E i Upload remotePath (v\<lparr>vDb := d\<rparr>) of
                      (queued, v1) \<Rightarrow> (if queued then k + 1 else k, v1)))"

definition skip_entry :: "walk_tree \<Rightarrow> walk_step" where
  "skip_entry t = (if wisdir t then WSkipDir else WGo)"

definition scan_visit :: "senv \<Rightarrow> lfs \<Rightarrow> string \<Rightarrow> walk_tree \<Rightarrow> nat \<times> vfs \<Rightarrow> walk_step \<times> nat \<times> vfs" where
  "scan_visit S fs path t kv =
     (if \<not> safe_in S fs path then (skip_entry t, kv)
      else if shouldIgnore (wname t) \<or> wname t = ''.pigcloud'' then (skip_entry t, kv)
      else
        let remotePath = pathToRemote S path in
        if remotePath = [] \<or> remotePath = sRemotePath S then (WGo, kv) else (WGo, scan_new S remotePath t kv))"

definition scanLocalNewFiles :: "senv \<Rightarrow> walk_tree \<Rightarrow> sstate \<Rightarrow> nat \<times> sstate" where
  "scanLocalNewFiles S folder s =
     (case walk_dir (scan_visit S (sFs s)) (sSyncDir S) folder (0, sV s) of (_, k, v) \<Rightarrow> (k, s\<lparr>sV := v\<rparr>))"

definition InitialSync :: "denv \<Rightarrow> walk_tree \<Rightarrow> sstate \<Rightarrow> ((vfsError + nat) \<times> sstate) option" where
  "InitialSync D folder s =
     (let s1 = snd (cleanupStaleEntries (dS D) s) in
      case populateRemoteTree (sE (dS D)) [rootAddr] (sV s1) of
        None \<Rightarrow> None
      | Some (Some er, v) \<Rightarrow> Some (Inl er, s1\<lparr>sV := v\<rparr>)
      | Some (None, v) \<Rightarrow>
          (case walkAndSync D [rootAddr] (s1\<lparr>sV := v\<rparr>) of
             None \<Rightarrow> None
           | Some s2 \<Rightarrow> (case scanLocalNewFiles (dS D) folder s2 of (k, s3) \<Rightarrow> Some (Inr k, s3))))"

end
