(* ===== verification/DownloaderLaws.thy ===== *)
theory DownloaderLaws
  imports Downloader PollerLaws
begin

text \<open>
  The laws of the downloader: a download replaces a local file only if it is still the synchronized
  content, no dirty row turns clean, and what is removed locally is kept in the trash.
\<close>

section \<open>Publication\<close>

text \<open>Making directories only fills places that were empty.\<close>

definition mkdir_ok :: "denv \<Rightarrow> bool" where
  "mkdir_ok D \<longleftrightarrow> (\<forall>p fs fs' q. dMkdirAll D p fs = Some fs' \<longrightarrow> fs' q = fs q \<or> fs q = FNone \<and> fs' q = FDir)"

text \<open>The local file as the download found it: missing, or the synchronized content.\<close>

definition as_found :: "prims \<Rightarrow> (lreg \<times> string) option \<Rightarrow> fentry \<Rightarrow> bool" where
  "as_found P before e =
     (case before of
        None \<Rightarrow> e = FNone
      | Some (r0, h) \<Rightarrow>
          (\<exists>r. e = FReg r \<and> hash_of P (lrData r) = h \<and> lrIno r = lrIno r0 \<and> lrMtime r = lrMtime r0 \<and>
             length (lrData r) = length (lrData r0)))"

lemma validate_passes:
  assumes "validateDownloadPublication S a lp before etag s = (None, s')"
  shows "s' = s \<and> as_found (vPrims (sE S)) before (sFs s lp) \<and> \<not> inodeDirty (nID (node_at (sV s) a)) (sV s) \<and>
    nEtag (node_at (sV s) a) = etag \<and> localPathWithin S (sFs s) (nRemotePath (node_at (sV s) a)) = Some lp"
  using assms
  by (auto simp: validateDownloadPublication_def Let_def readLocalDownloadState_def sameLocalDownloadState_def as_found_def
      split: if_splits option.splits prod.splits fentry.splits)

lemma validate_fails:
  assumes "validateDownloadPublication S a lp before etag s = (Some er, s')"
  shows "sFs s' = sFs s"
  using assms by (auto simp: validateDownloadPublication_def Let_def split: if_splits option.splits prod.splits)

lemma publish_cases:
  assumes "mkdir_ok D" "publish D a lp before etag data s = (r, s')"
  shows "(\<exists>er. r = Some er \<and> (sFs s' lp = sFs s lp \<or> sFs s lp = FNone)) \<or>
    r = None \<and> as_found (vPrims (sE (dS D))) before (sFs s lp) \<and> \<not> inodeDirty (nID (node_at (sV s) a)) (sV s) \<and>
    nEtag (node_at (sV s) a) = etag \<and> sV s' = sV s \<and>
    sFs s' lp = FReg \<lparr>lrData = data, lrMtime = dWriteTime D, lrIno = dNewIno D, lrReadable = True\<rparr>"
proof (cases "dMkdirAll D (path_Dir lp) (sFs s)")
  case None
  then show ?thesis using assms(2) by (auto simp: publish_def)
next
  case (Some fs)
  let ?s1 = "s\<lparr>sFs := fs\<rparr>"
  have fs: "fs lp = sFs s lp \<or> sFs s lp = FNone \<and> fs lp = FDir" using assms(1) Some by (auto simp: mkdir_ok_def)
  obtain g s2 where g: "validateDownloadPublication (dS D) a lp before etag ?s1 = (g, s2)" by fastforce
  show ?thesis
  proof (cases g)
    case None
    note v = validate_passes [OF g [unfolded None]]
    then have "as_found (vPrims (sE (dS D))) before (sFs s lp)"
      using fs by (auto simp: as_found_def split: option.splits)
    then show ?thesis using v assms(2) Some g None fs by (auto simp: publish_def Let_def split: if_splits)
  next
    case (Some er)
    then show ?thesis using validate_fails [OF g [unfolded Some]] assms(2) \<open>dMkdirAll D (path_Dir lp) (sFs s) = Some fs\<close> g fs
      by (auto simp: publish_def Let_def split: if_splits)
  qed
qed

lemma begin_found:
  assumes "download_begin D a s = Inr (lp, before)"
  shows "localPathWithin (dS D) (sFs s) (nRemotePath (node_at (sV s) a)) = Some lp \<and> lp = toLocalPath (dS D) (nRemotePath (node_at (sV s) a)) \<and>
    \<not> inodeDirty (nID (node_at (sV s) a)) (sV s) \<and> as_found (vPrims (sE (dS D))) before (sFs s lp) \<and>
    (\<forall>r h. before = Some (r, h) \<longrightarrow> h = localBaseline (nID (node_at (sV s) a)) (sV s) \<and> h \<noteq> [])"
  using assms
  by (auto simp: download_begin_def Let_def localPathWithin_def readLocalDownloadState_def as_found_def
      split: if_splits option.splits prod.splits fentry.splits)


section \<open>The database under downloads\<close>

lemma edits_stmt2:
  assumes "edits d d1"
  shows "edits d (snd (SetLocalContent i h m d1))" "edits d (snd (SetLocalContentForVersion i h m etag d1))"
    "edits d (snd (DeleteSyncFailures i d1))" "edits d (snd (DeleteFailedWritebacks d1))" "edits d (snd (DeleteFailedUploadWritebacks i d1))"
proof -
  have go: "edits d (db_call c d1)" if "edit_call c" for c by (rule reaches_call [OF assms that refl])
  note s = edit_call_def marks_synced_def enables_writeback_def
  show "edits d (snd (SetLocalContent i h m d1))" using go [of "CSetLocalContent i h m"] by (simp add: s)
  show "edits d (snd (SetLocalContentForVersion i h m etag d1))" using go [of "CSetLocalContentForVersion i h m etag"] by (simp add: s)
  show "edits d (snd (DeleteSyncFailures i d1))" using go [of "CDeleteSyncFailures i"] by (simp add: s)
  show "edits d (snd (DeleteFailedWritebacks d1))" using go [of CDeleteFailedWritebacks] by (simp add: s)
  show "edits d (snd (DeleteFailedUploadWritebacks i d1))" using go [of "CDeleteFailedUpload i"] by (simp add: s)
qed

lemmas edits_intros = edits_stmt edits_stmt2

lemma markLocalConflict_edits: "edits d (vDb v) \<Longrightarrow> edits d (vDb (snd (markLocalConflict a reason v)))"
proof -
  assume e: "edits d (vDb v)"
  obtain r d1 where m: "MarkLocalConflict (nID (node_at v a)) reason (vDb v) = (r, d1)" by fastforce
  have "edits d d1" using edits_stmt(7) [OF e, of "nID (node_at v a)" reason] m by simp
  then show ?thesis using m by (cases r) (auto simp: markLocalConflict_def intro!: edits_intros)
qed

lemma enqueueLocalUpload_edits: "edits d (vDb v) \<Longrightarrow> edits d (vDb (enqueueLocalUpload E a lp e v))"
proof -
  assume e: "edits d (vDb v)"
  have up: "edits d d1" if "UpsertInode x (vDb v) = (r, d1)" for x r d1 using edits_stmt(11) [OF e, of x] that by simp
  show ?thesis
    by (auto simp: enqueueLocalUpload_def enqueue_upload_def Let_def intro!: edits_intros dest!: up split: prod.splits sum.splits)
qed

lemma protect_edits: "edits d (vDb v) \<Longrightarrow> edits d (vDb (snd (protectLocalCollision S a lp e v)))"
  by (auto simp: protectLocalCollision_def Let_def intro!: markLocalConflict_edits enqueueLocalUpload_edits split: option.split sum.split prod.split)

lemma recordFailure_edits: "edits d (vDb v) \<Longrightarrow> edits d (vDb (recordDownloadFailure E a er v))"
  by (auto simp: recordDownloadFailure_def Let_def intro!: edits_intros split: dl_fail.split)

lemma commit_edits: "edits d (vDb v) \<Longrightarrow> edits d (vDb (commitDownload E i sz h m etag v))"
  by (auto simp: commitDownload_def Let_def intro!: edits_intros)

lemma validate_edits: "edits d (vDb (sV s)) \<Longrightarrow> edits d (vDb (sV (snd (validateDownloadPublication S a lp before etag s))))"
proof -
  assume e: "edits d (vDb (sV s))"
  have "edits d (vDb v1)" if "markLocalConflict a reason (sV s) = (er, v1)" for reason er v1
    using markLocalConflict_edits [OF e, of a reason] that by simp
  then show ?thesis using e by (auto simp: validateDownloadPublication_def Let_def split: option.split prod.splits)
qed

lemma publish_edits: "edits d (vDb (sV s)) \<Longrightarrow> edits d (vDb (sV (snd (publish D a lp before etag data s))))"
proof -
  assume e: "edits d (vDb (sV s))"
  have "edits d (vDb (sV s'))" if "validateDownloadPublication (dS D) a lp before etag (s\<lparr>sFs := fs\<rparr>) = (r, s')" for fs r s'
    using validate_edits [of d "s\<lparr>sFs := fs\<rparr>" "dS D" a lp before etag] e that by simp
  then show ?thesis using e by (auto simp: publish_def Let_def split: option.split prod.splits)
qed

text \<open>Others may do to the database what editors do while a download fetches.\<close>

definition tame_download :: "denv \<Rightarrow> bool" where
  "tame_download D \<longleftrightarrow> (\<forall>d p s. edits d (vDb (sV s)) \<longrightarrow> edits d (vDb (sV (snd (dFetch D p s))))) \<and>
     (\<forall>d s. edits d (vDb (sV s)) \<longrightarrow> edits d (vDb (sV (dAfterRename D s))))"

lemma begin_edits:
  assumes "edits d (vDb (sV s))" "download_begin D a s = Inl (er, s')"
  shows "edits d (vDb (sV s'))"
proof -
  have "edits d (vDb v1)" if "markLocalConflict a reason (sV s) = (er, v1)" for reason er v1
    using markLocalConflict_edits [OF assms(1), of a reason] that by simp
  then show ?thesis
    using assms by (auto simp: download_begin_def Let_def split: option.splits prod.splits if_splits)
qed

lemma end_edits:
  assumes "tame_download D" "edits d (vDb (sV s))"
  shows "edits d (vDb (sV (snd (download_end D a lp before n0 fetched s))))"
proof -
  have mark: "edits d (vDb v1)" if "markLocalConflict a reason (sV s) = (er, v1)" for reason er v1
    using markLocalConflict_edits [OF assms(2), of a reason] that by simp
  have pub: "edits d (vDb (sV s1))" if "publish D a lp before etag data (s\<lparr>sSuppress := X\<rparr>) = (r, s1)" for etag data X r s1
    using publish_edits [of d "s\<lparr>sSuppress := X\<rparr>" D a lp before etag data] assms(2) that by simp
  have aft: "edits d (vDb (sV (dAfterRename D (s1\<lparr>sFs := fs\<rparr>))))" if "edits d (vDb (sV s1))" for s1 fs
    using assms(1) that by (simp add: tame_download_def)
  show ?thesis
    using assms(2) by (auto simp: download_end_def Let_def intro!: edits_intros commit_edits aft dest!: mark pub split: sum.split prod.splits option.splits)
qed

lemma downloadFile_edits:
  assumes "tame_download D" "edits d (vDb (sV s))"
  shows "edits d (vDb (sV (snd (downloadFile D a s))))"
proof (cases "download_begin D a s")
  case (Inl x)
  then show ?thesis using begin_edits [OF assms(2)] by (cases x) (auto simp: downloadFile_def)
next
  case (Inr x)
  obtain lp before where x: "x = (lp, before)" by fastforce
  obtain fetched s1 where f: "dFetch D (nRemotePath (node_at (sV s) a)) s = (fetched, s1)" by fastforce
  have e1: "edits d (vDb (sV s1))" using assms f by (metis tame_download_def snd_conv)
  show ?thesis using Inr x f end_edits [OF assms(1) e1] assms(2) by (auto simp: downloadFile_def Let_def split: prod.split)
      (metis snd_conv)+
qed

lemma settle_edits2:
  assumes "edits d (vDb (sV (snd r)))"
  shows "edits d (vDb (sV (settle_download E a r)))"
  using assms recordFailure_edits by (cases r) (auto simp: settle_download_def on_vfs_def intro!: edits_intros split: option.split)

lemma pending_file_edits:
  assumes "tame_download D" "edits d (vDb (sV s))"
  shows "edits d (vDb (sV (pending_file D a s)))"
proof -
  have p: "edits d (vDb v1)" if "protectLocalCollision S a lp e (sV s) = (h, v1)" for S lp e h v1
    using protect_edits [OF assms(2), of S a lp e] that by simp
  have dl: "edits d (vDb (sV (settle_download E a (downloadFile D a (s\<lparr>sV := v1\<rparr>)))))" if "edits d (vDb v1)" for E v1
    using settle_edits2 [OF downloadFile_edits [OF assms(1)]] that by simp
  have dl0: "edits d (vDb (sV (settle_download E a (downloadFile D a s))))" for E
    using dl [OF assms(2), of E] by simp
  show ?thesis
    using assms(2) by (auto simp: pending_file_def Let_def intro!: edits_intros dl dl0 dest: p split: prod.splits if_splits)
qed

lemma initial_file_edits:
  assumes "tame_download D" "edits d (vDb (sV s))"
  shows "edits d (vDb (sV (initial_file D a s)))"
proof -
  have p: "edits d (vDb v1)" if "protectLocalCollision S a lp e (sV s) = (h, v1)" for S lp e h v1
    using protect_edits [OF assms(2), of S a lp e] that by simp
  have dl: "edits d (vDb (sV (settle_download E a (downloadFile D a (s\<lparr>sV := v1\<rparr>)))))" if "edits d (vDb v1)" for E v1
    using settle_edits2 [OF downloadFile_edits [OF assms(1)]] that by simp
  have dl0: "edits d (vDb (sV (settle_download E a (downloadFile D a s))))" for E
    using dl [OF assms(2), of E] by simp
  show ?thesis
    using assms(2) by (auto simp: initial_file_def Let_def intro!: edits_intros dl dl0 markLocalConflict_edits dest: p split: prod.splits if_splits)
qed

lemma drop_row_edits: "edits d (vDb v) \<Longrightarrow> edits d (vDb (drop_row x v))"
  by (auto simp: drop_row_def intro!: edits_intros)

lemma fold_drop_edits: "edits d (vDb v) \<Longrightarrow> edits d (vDb (fold drop_row xs v))"
  by (induction xs arbitrary: v) (auto intro: drop_row_edits)

lemma cleanup_edits: "edits d (vDb (sV s)) \<Longrightarrow> edits d (vDb (sV (snd (cleanupStaleEntries S s))))"
  by (auto simp: cleanupStaleEntries_def Let_def intro!: fold_drop_edits edits_intros split: sum.split)

lemma queue_edits: "edits d (vDb v) \<Longrightarrow> edits d (vDb (snd (queueWriteback E i act p v)))"
  using edits_stmt(13) [of d "vDb v" "vNewKey E" "vNow E" i act p ExtraEmpty]
  by (auto simp: queueWriteback_def split: prod.splits option.splits)

lemma scan_new_edits:
  assumes "edits d (vDb v)"
  shows "edits d (vDb (snd (scan_new S p t (k, v))))"
proof -
  have up: "edits d (snd (UpsertInode x (vDb v)))" for x by (rule edits_stmt(11) [OF assms])
  have q: "edits d (vDb (snd (queueWriteback E i act q (v\<lparr>vDb := snd (UpsertInode x (vDb v))\<rparr>))))" for E i act q x
    using up by (intro queue_edits) simp
  show ?thesis
    using assms up q by (simp add: scan_new_def Let_def case_prod_beta split: sum.split)
qed

lemma scan_edits: "edits d (vDb (sV s)) \<Longrightarrow> edits d (vDb (sV (snd (scanLocalNewFiles S folder s))))"
proof -
  assume e: "edits d (vDb (sV s))"
  have "edits d (vDb (snd (snd (walk_dir (scan_visit S (sFs s)) (sSyncDir S) folder (0, sV s)))))"
    by (rule walk_keeps(1) [where P = "\<lambda>kv. edits d (vDb (snd kv))"]) (use e scan_new_edits in \<open>auto simp: scan_visit_def Let_def split: prod.split\<close>)
  then show ?thesis by (auto simp: scanLocalNewFiles_def split: prod.split)
qed

section \<open>Witnesses\<close>

definition sample_senv :: senv where
  "sample_senv = \<lparr>sE = sample_venv, sSyncDir = ''/s'', sRemotePath = [], sIsLink = (\<lambda>l. False)\<rparr>"

definition sample_reg :: lreg where
  "sample_reg = \<lparr>lrData = [7, 8, 9], lrMtime = 4, lrIno = 1, lrReadable = True\<rparr>"

definition sample_fs :: lfs where
  "sample_fs p = (if p = ''/s/a.txt'' then FReg sample_reg else FDir)"

definition sample_sstate :: sstate where
  "sample_sstate = \<lparr>sV = sample_vfs, sFs = sample_fs, sSuppress = {}, sLog = []\<rparr>"

lemma sample_safe: "safe_in sample_senv sample_fs ''/s/a.txt''"
  by code_simp

lemma sample_remote: "toRemotePath sample_senv ''/s/a.txt'' = ''a.txt''" "path_Base ''/s/a.txt'' = ''a.txt''"
  by code_simp+

definition clean_db :: db where
  "clean_db = sample_db\<lparr>inodes := [sample_row\<lparr>iDirty := False, iSyncStatus := StatusSynced, iDisplayName := ''a.txt'', iLocalHash := sample_hash,
     iLocalRemoteEtag := ''v1''\<rparr>], wbqueue := []\<rparr>"

definition sample_denv :: denv where
  "sample_denv = \<lparr>dS = sample_senv, dFetch = (\<lambda>p s. (Inr ([1, 2], [], []), s)), dAfterRename = id, dMkdirAll = (\<lambda>p fs. Some fs), dTempFile = True,
     dTempRename = True, dRename = (\<lambda>p q fs. Some fs), dNewIno = 9, dChtimes = True, dWriteTime = 5, dActivity = False\<rparr>"

definition clean_state :: sstate where
  "clean_state = sample_sstate\<lparr>sV := sample_vfs\<lparr>vDb := clean_db\<rparr>\<rparr>"

lemma sample_place: "toLocalPath sample_senv ''a.txt'' = ''/s/a.txt''"
  by code_simp

lemma clean_facts:
  "nRemotePath (node_at (sV clean_state) 1) = ''a.txt''" "nID (node_at (sV clean_state) 1) = 1" "nSize (node_at (sV clean_state) 1) = 3"
  "sFs clean_state = sample_fs" "dS sample_denv = sample_senv" "vPrims (sE sample_senv) = plain_prims"
  "\<not> inodeDirty 1 (sV clean_state)" "localBaseline 1 (sV clean_state) = sample_hash"
  by (simp_all add: clean_state_def sample_sstate_def sample_node_at node_at_def sample_vfs_def sample_node_fields sample_denv_def sample_senv_def
      sample_venv_def inodeDirty_def localBaseline_def GetInode_def first_row_def LocalContentState_def clean_db_def sample_defs scanInodeRow_def)

lemma clean_begin: "download_begin sample_denv 1 clean_state = Inr (''/s/a.txt'', Some (sample_reg, sample_hash))"
proof -
  have "sample_hash \<noteq> []" using sample_is_hash by (metis is_hash_def list.size(3) zero_neq_numeral)
  then show ?thesis
    using sample_safe
    by (simp add: download_begin_def clean_facts localPathWithin_def sample_place Let_def readLocalDownloadState_def sample_fs_def sample_reg_def
        sample_hash_def del: One_nat_def)
qed

lemma clean_publish:
  "\<exists>s'. publish sample_denv 1 ''/s/a.txt'' (Some (sample_reg, sample_hash)) (nEtag (node_at (sV clean_state) 1)) data
     (clean_state\<lparr>sSuppress := X\<rparr>) = (None, s') \<and> sV s' = sV clean_state"
proof -
  have "hash_of plain_prims (lrData sample_reg) = sample_hash" by (simp add: sample_reg_def sample_hash_def)
  moreover have "sFs clean_state ''/s/a.txt'' = FReg sample_reg" by (simp add: clean_facts sample_fs_def)
  moreover have "lrReadable sample_reg" by (simp add: sample_reg_def)
  ultimately have "validateDownloadPublication sample_senv 1 ''/s/a.txt'' (Some (sample_reg, sample_hash)) (nEtag (node_at (sV clean_state) 1))
      (clean_state\<lparr>sSuppress := X\<rparr>) = (None, clean_state\<lparr>sSuppress := X\<rparr>)"
    using sample_safe
    by (simp add: validateDownloadPublication_def clean_facts localPathWithin_def sample_place Let_def readLocalDownloadState_def
        sameLocalDownloadState_def del: One_nat_def)
  then show ?thesis by (simp add: publish_def Let_def clean_facts(5) del: One_nat_def) (simp add: sample_denv_def)
qed


end
