(* ===== verification/LocalSync.thy ===== *)
theory LocalSync
  imports Downloader
begin

text \<open>
  What feeds local changes into the queue: the reconciler (\<open>internal/mount/syncer/reconciler.go\<close>), which
  compares every local file with the synchronized baseline, and the watcher (\<open>watcher.go\<close>), which reacts
  to events of the file system.

  The watcher's state is the file system, the debounce timers with the time each is due, the queue of
  paths to the workers and the set of watched directories; a directory that appears comes with the
  snapshot of what is in it.
\<close>

section \<open>The reconciler\<close>

definition uploadInFlight :: "int \<Rightarrow> vfs \<Rightarrow> bool" where
  "uploadInFlight i v = (case HasActiveWriteback i Upload (vDb v) of Inl _ \<Rightarrow> True | Inr b \<Rightarrow> b)"

definition enqueue_action :: "venv \<Rightarrow> int \<Rightarrow> wb_action \<Rightarrow> string \<Rightarrow> vfs \<Rightarrow> vfs" where
  "enqueue_action E i action path v = with_db (EnqueueWriteback (vNewKey E) (vNow E) i action path ExtraEmpty) v"

definition queueNewFile :: "venv \<Rightarrow> string \<Rightarrow> string \<Rightarrow> fentry \<Rightarrow> vfs \<Rightarrow> bool \<times> vfs" where
  "queueNewFile E remotePath nm e v =
     (let (ok, reason) = ValidateFile (vUniLower E) (vTypeOf E) nm (entry_size e) in
      case UpsertInode (zero_inode\<lparr>iRemotePath := remotePath, iDisplayName := nm, iSize := entry_size e, iMtime := entry_mtime e,
                          iDirty := True, iSyncStatus := (if ok then StatusPending else StatusRejected), iStatusReason := reason\<rparr>) (vDb v) of
        (Inl er, d) \<Rightarrow> (False, v\<lparr>vDb := d\<rparr>)
      | (Inr i, d) \<Rightarrow> if \<not> ok then (False, v\<lparr>vDb := d\<rparr>) else (True, enqueue_action E i Upload remotePath (v\<lparr>vDb := d\<rparr>)))"

definition requeueUpload :: "venv \<Rightarrow> Inode \<Rightarrow> fentry \<Rightarrow> vfs \<Rightarrow> bool \<times> vfs" where
  "requeueUpload E x e v =
     (let (ok, reason) = ValidateFile (vUniLower E) (vTypeOf E) (iDisplayName x) (entry_size e) in
      if \<not> ok then (False, with_db (SetSyncStatus (iID x) StatusRejected reason) v)
      else if uploadInFlight (iID x) v then (False, v)
      else
        let v1 = with_db (DeleteFailedUploadWritebacks (iID x)) v;
            x1 = x\<lparr>iSize := entry_size e, iMtime := entry_mtime e, iCached := False, iContentHash := [], iDirty := True,
                   iSyncStatus := StatusPending, iStatusReason := []\<rparr>
        in case UpsertInode x1 (vDb v1) of
             (Inl er, d) \<Rightarrow> (False, v1\<lparr>vDb := d\<rparr>)
           | (Inr i, d) \<Rightarrow>
               (True, enqueue_action E i Upload (iRemotePath x)
                        (release_blob (iContentHash x) i (with_db (SetLocalContent i [] 0) (v1\<lparr>vDb := d\<rparr>)))))"

text \<open>The branches of \<open>healEntry\<close>: a directory, a file whose last transfer failed, a synchronized file.\<close>

definition heal_dir :: "venv \<Rightarrow> string \<Rightarrow> string \<Rightarrow> vfs \<Rightarrow> bool \<times> vfs" where
  "heal_dir E remotePath nm v =
     (case UpsertInode (zero_inode\<lparr>iRemotePath := remotePath, iDisplayName := nm, iIsDir := True, iMtime := vNow E,
                         iSyncStatus := StatusPending\<rparr>) (vDb v) of
        (Inl er, d) \<Rightarrow> (False, v\<lparr>vDb := d\<rparr>)
      | (Inr i, d) \<Rightarrow> (True, enqueue_action E i wb_action.Mkdir remotePath (v\<lparr>vDb := d\<rparr>)))"

definition failure_of :: "int \<Rightarrow> FailureKind \<Rightarrow> vfs \<Rightarrow> SyncFailure option" where
  "failure_of i kind v = (case GetSyncFailure i kind (vDb v) of Inr f \<Rightarrow> f | Inl _ \<Rightarrow> None)"

definition heal_failed :: "venv \<Rightarrow> Inode \<Rightarrow> fentry \<Rightarrow> vfs \<Rightarrow> bool \<times> vfs" where
  "heal_failed E x e v =
     (if (case failure_of (iID x) FailureUpload v of None \<Rightarrow> False | Some f \<Rightarrow> fPermanent f \<or> vNow E < fNextRetryAt f) then (False, v)
      else if \<not> iDirty x \<and> failure_of (iID x) FailureDownload v \<noteq> None then (False, v)
      else requeueUpload E x e v)"

definition heal_synced :: "venv \<Rightarrow> string option \<Rightarrow> Inode \<Rightarrow> fentry \<Rightarrow> vfs \<Rightarrow> bool \<times> vfs" where
  "heal_synced E hashed x e v =
     (case LocalContentState (iID x) (vDb v) of
        Inl _ \<Rightarrow> (False, v)
      | Inr (current, baseline, version) \<Rightarrow>
          if baseline = []
          then (False, with_db (MarkLocalConflict (iID x) ''local file has no synchronized content baseline'') v)
          else
            let remoteUnchanged = (current \<noteq> [] \<and> iEtag x \<noteq> [] \<and> version = iEtag x) in
            case hashed of
              None \<Rightarrow> (False, v)
            | Some h \<Rightarrow>
                if h = baseline then
                  (False, if current \<noteq> [] then with_db (SetLocalContentForVersion (iID x) current (entry_mtime e) version) v else v)
                else if \<not> remoteUnchanged
                then (False, with_db (MarkLocalConflict (iID x)
                               ''local and remote content both differ from the synchronized baseline'') v)
                else requeueUpload E x e v)"

definition healEntry :: "senv \<Rightarrow> lfs \<Rightarrow> string \<Rightarrow> string \<Rightarrow> walk_tree \<Rightarrow> vfs \<Rightarrow> bool \<times> vfs" where
  "healEntry S fs path remotePath t v =
     (let E = sE S; nm = wname t; e = wentry t; inode = GetInodeByPath remotePath (vDb v) in
      if \<not> safe_in S fs path then (False, v)
      else if wisdir t then (case inode of Inr x \<Rightarrow> (False, v) | Inl _ \<Rightarrow> heal_dir E remotePath nm v)
      else if e = FNone \<or> e = FFails then (False, v)
      else case inode of
             Inl _ \<Rightarrow> queueNewFile E remotePath nm e v
           | Inr x \<Rightarrow>
               if iSyncStatus x = StatusRejected \<or> iSyncStatus x = StatusConflict then (False, v)
               else if iSyncStatus x = StatusFailed then heal_failed E x e v
               else if iSyncStatus x = StatusSynced then heal_synced E (hash_entry (vPrims E) (fs path)) x e v
               else if iSyncStatus x = StatusPending then
                 (False, if uploadInFlight (iID x) v then v else enqueue_action E (iID x) Upload remotePath v)
               else (False, v))"

definition heal_visit :: "senv \<Rightarrow> lfs \<Rightarrow> (string \<Rightarrow> bool) \<Rightarrow> string \<Rightarrow> walk_tree \<Rightarrow> nat \<times> vfs \<Rightarrow> walk_step \<times> nat \<times> vfs" where
  "heal_visit S fs canceled path t kv =
     (if canceled path then (WStop, kv)
      else if \<not> safe_in S fs path then (skip_entry t, kv)
      else if shouldIgnore (wname t) \<or> wname t = ''.pigcloud'' then (skip_entry t, kv)
      else
        let remotePath = toRemote S path in
        if remotePath = [] \<or> remotePath = sRemotePath S then (WGo, kv)
        else case healEntry S fs path remotePath t (snd kv) of
               (healed, v) \<Rightarrow> (WGo, if healed then fst kv + 1 else fst kv, v))"

definition Reconcile :: "senv \<Rightarrow> (string \<Rightarrow> bool) \<Rightarrow> walk_tree \<Rightarrow> sstate \<Rightarrow> nat \<times> sstate" where
  "Reconcile S canceled folder s =
     (case walk_dir (heal_visit S (sFs s) canceled) (sSyncDir S) folder (0, sV s) of (_, k, v) \<Rightarrow> (k, s\<lparr>sV := v\<rparr>))"

section \<open>The watcher\<close>

definition watchDebounce :: int where "watchDebounce = 2"
definition syncQueueSize :: nat where "syncQueueSize = 1024"

record Watcher =
  waDebounce :: "string \<rightharpoonup> int"
  waSyncCh :: "string list"
  waWatched :: "string set"
  waStopped :: bool

type_synonym wstate = "Watcher \<times> sstate"

definition scheduleSync :: "senv \<Rightarrow> string \<Rightarrow> wstate \<Rightarrow> wstate" where
  "scheduleSync S lp ws = (case ws of (w, s) \<Rightarrow> (w\<lparr>waDebounce := (waDebounce w)(lp \<mapsto> vNow (sE S) + watchDebounce)\<rparr>, s))"

text \<open>The timer of a path fires: the path goes to the workers, or nowhere when the watcher is stopping.
  With the queue full the timer's goroutine waits; here the path is sent once there is room.\<close>

definition fire :: "string \<Rightarrow> wstate \<Rightarrow> wstate" where
  "fire lp ws = (case ws of (w, s) \<Rightarrow>
     (w\<lparr>waDebounce := (waDebounce w)(lp := None), waSyncCh := (if waStopped w then waSyncCh w else waSyncCh w @ [lp])\<rparr>, s))"

text \<open>Watches for a directory and what is in it.\<close>

definition add_visit :: "(string \<Rightarrow> bool) \<Rightarrow> senv \<Rightarrow> lfs \<Rightarrow> string \<Rightarrow> walk_tree \<Rightarrow> string set \<Rightarrow> walk_step \<times> string set" where
  "add_visit addOk S fs path t ws =
     (if \<not> safe_in S fs path then (skip_entry t, ws)
      else if wisdir t then
        (if shouldIgnore (wname t) \<or> wname t = ''.pigcloud'' then (WSkipDir, ws)
         else if addOk path then (WGo, insert path ws) else (WStop, ws))
      else (WGo, ws))"

definition addRecursive :: "(string \<Rightarrow> bool) \<Rightarrow> senv \<Rightarrow> string \<Rightarrow> walk_tree \<Rightarrow> wstate \<Rightarrow> bool \<times> wstate" where
  "addRecursive addOk S path t ws = (case ws of (w, s) \<Rightarrow>
     (case walk_dir (add_visit addOk S (sFs s)) path t (waWatched w) of (ok, watched) \<Rightarrow> (ok, w\<lparr>waWatched := watched\<rparr>, s)))"

definition StartWatcher :: "(string \<Rightarrow> bool) \<Rightarrow> senv \<Rightarrow> walk_tree \<Rightarrow> wstate \<Rightarrow> bool \<times> wstate" where
  "StartWatcher addOk S folder ws = addRecursive addOk S (sSyncDir S) folder ws"

definition StopWatcher :: "wstate \<Rightarrow> wstate" where
  "StopWatcher ws = (case ws of (w, s) \<Rightarrow> (w\<lparr>waStopped := True, waDebounce := Map.empty, waWatched := {}\<rparr>, s))"

text \<open>The row of a new directory is made as the reconciler makes it.\<close>

definition new_dir :: "senv \<Rightarrow> string \<Rightarrow> string \<Rightarrow> vfs \<Rightarrow> bool \<times> vfs" where
  "new_dir S remotePath nm v =
     (let E = sE S in
      if \<not> fst (ValidateDirName nm) then (False, v)
      else if (case GetInodeByPath remotePath (vDb v) of Inr x \<Rightarrow> True | Inl _ \<Rightarrow> False) then (False, v)
      else heal_dir E remotePath nm v)"

fun handleCreate :: "(string \<Rightarrow> bool) \<Rightarrow> senv \<Rightarrow> string \<Rightarrow> walk_tree \<Rightarrow> wstate \<Rightarrow> wstate"
and enqueueExistingChildren :: "(string \<Rightarrow> bool) \<Rightarrow> senv \<Rightarrow> string \<Rightarrow> walk_tree list \<Rightarrow> wstate \<Rightarrow> wstate" where
  "handleCreate addOk S lp (WFile nm e) ws =
     (if \<not> safe_in S (sFs (snd ws)) lp then ws
      else if \<not> stat_ok e then ws
      else scheduleSync S lp ws)"
| "handleCreate addOk S lp (WDir nm ts) ws =
     (if \<not> safe_in S (sFs (snd ws)) lp then ws
      else
        let (w, s) = snd (addRecursive addOk S lp (WDir nm ts)
                       (case ws of (w, s) \<Rightarrow> (if addOk lp then w\<lparr>waWatched := insert lp (waWatched w)\<rparr> else w, s)));
            (created, v) = new_dir S (toRemotePath S lp) (path_Base lp) (sV s)
        in if created then enqueueExistingChildren addOk S lp ts (w, s\<lparr>sV := v\<rparr>) else (w, s\<lparr>sV := v\<rparr>))"
| "enqueueExistingChildren addOk S dir [] ws = ws"
| "enqueueExistingChildren addOk S dir (t # ts) ws =
     enqueueExistingChildren addOk S dir ts
       (if shouldIgnore (wname t) \<or> wname t = ''.pigcloud'' then ws
        else let child = path_Join dir (wname t) in
             case t of WDir nm us \<Rightarrow> handleCreate addOk S child t ws | WFile nm e \<Rightarrow> scheduleSync S child ws)"

text \<open>After an overflow of events the whole folder is taken up again.\<close>

definition rescan :: "(string \<Rightarrow> bool) \<Rightarrow> senv \<Rightarrow> walk_tree \<Rightarrow> wstate \<Rightarrow> wstate" where
  "rescan addOk S folder ws =
     enqueueExistingChildren addOk S (sSyncDir S) (case folder of WDir nm ts \<Rightarrow> ts | WFile nm e \<Rightarrow> [])
       (snd (addRecursive addOk S (sSyncDir S) folder ws))"

definition handleWrite :: "senv \<Rightarrow> string \<Rightarrow> wstate \<Rightarrow> wstate" where
  "handleWrite S lp ws =
     (let fs = sFs (snd ws) in
      if \<not> safe_in S fs lp then ws
      else if \<not> stat_ok (fs lp) \<or> is_dir (fs lp) then ws
      else scheduleSync S lp ws)"

definition handleRemove :: "senv \<Rightarrow> string \<Rightarrow> wstate \<Rightarrow> wstate" where
  "handleRemove S lp ws =
     (case ws of (w, s) \<Rightarrow>
        if \<not> safe_in S (sFs s) lp then ws
        else
          let remotePath = toRemotePath S lp; v = sV s in
          case GetInodeByPath remotePath (vDb v) of
            Inl _ \<Rightarrow> ws
          | Inr x \<Rightarrow>
              if iSyncStatus x \<noteq> StatusSynced \<and> iSyncStatus x \<noteq> StatusConflict
              then (w, s\<lparr>sV := with_db (DeleteInode remotePath) (with_db (DeleteWritebackByInode (iID x)) v)\<rparr>)
              else (w, s\<lparr>sV := enqueue_action (sE S) (iID x) Delete remotePath v\<rparr>))"

datatype fs_op = OpCreate walk_tree | OpWrite | OpRemove | OpRename

definition handleEvent :: "(string \<Rightarrow> bool) \<Rightarrow> senv \<Rightarrow> string \<Rightarrow> fs_op \<Rightarrow> wstate \<Rightarrow> wstate" where
  "handleEvent addOk S name ev ws =
     (let lp = path_Clean name in
      if shouldIgnore (path_Base lp) then ws
      else case filepath_Rel (sSyncDir S) lp of
             None \<Rightarrow> ws
           | Some rel \<Rightarrow>
               if HasPrefix rel ''.pigcloud'' then ws
               else if lp \<in> sSuppress (snd ws) then ws
               else (case ev of
                       OpCreate t \<Rightarrow> handleCreate addOk S lp t ws
                     | OpWrite \<Rightarrow> handleWrite S lp ws
                     | OpRemove \<Rightarrow> handleRemove S lp ws
                     | OpRename \<Rightarrow> handleRemove S lp ws))"

text \<open>The two reads of the file by \<open>PutFile\<close>; the second may meet another content.\<close>

definition read_source :: "fentry \<Rightarrow> bytes option" where
  "read_source e = (case stat_of e of FReg r \<Rightarrow> if lrReadable r then Some (lrData r) else None | _ \<Rightarrow> None)"

text \<open>What follows once the content is in the store.\<close>

definition record_synced :: "senv \<Rightarrow> string \<Rightarrow> fentry \<Rightarrow> string \<Rightarrow> vfs \<Rightarrow> vfs" where
  "record_synced S lp e hash v =
     (let E = sE S; nm = path_Base lp; remotePath = toRemotePath S lp;
          (ok, reason) = ValidateFile (vUniLower E) (vTypeOf E) nm (entry_size e);
          existing = GetInodeByPath remotePath (vDb v)
      in if (case existing of Inr x \<Rightarrow> iContentHash x = hash \<and> iSyncStatus x = StatusSynced | Inl _ \<Rightarrow> False) then v
         else
           let superseded = (case existing of Inr x \<Rightarrow> if iContentHash x \<noteq> hash then iContentHash x else [] | Inl _ \<Rightarrow> []) in
           case UpsertInode (zero_inode\<lparr>iRemotePath := remotePath, iDisplayName := nm, iSize := entry_size e,
                               iMtime := entry_mtime e, iCached := True, iDirty := True, iContentHash := hash,
                               iSyncStatus := (if ok then StatusPending else StatusRejected), iStatusReason := reason\<rparr>) (vDb v) of
             (Inl er, d) \<Rightarrow> v\<lparr>vDb := d\<rparr>
           | (Inr i, d) \<Rightarrow>
               (let v2 = release_blob superseded i (v\<lparr>vDb := d\<rparr>) in
                if \<not> ok then v2 else enqueue_action E i Upload remotePath v2))"

definition syncFile :: "senv \<Rightarrow> bool \<Rightarrow> bytes option \<Rightarrow> string \<Rightarrow> sstate \<Rightarrow> sstate" where
  "syncFile S evictor pass2 lp s =
     (let E = sE S; v = sV s; e = sFs s lp in
      if \<not> safe_in S (sFs s) lp then s
      else if \<not> stat_ok e \<or> is_dir e then s
      else
        let pass1 = (case read_source e of Some bs \<Rightarrow> Inr bs | None \<Rightarrow> Inl ReopenSource) in
        case PutFile (vPrims E) (vNow E) (vTmpName E) (vNonces E) pass1 pass2 (vStore v) of
          (Inl er, st) \<Rightarrow> s\<lparr>sV := v\<lparr>vStore := st\<rparr>\<rparr>
        | (Inr hash, st) \<Rightarrow>
            (let v1 = v\<lparr>vStore := st\<rparr>; v2 = (if evictor then run_evictor E v1 else v1)
             in s\<lparr>sV := record_synced S lp e hash v2\<rparr>))"

text \<open>A worker takes the next path.\<close>

definition sync_worker :: "senv \<Rightarrow> bool \<Rightarrow> bytes option \<Rightarrow> wstate \<Rightarrow> wstate" where
  "sync_worker S evictor pass2 ws =
     (case ws of (w, s) \<Rightarrow>
        (case waSyncCh w of
           [] \<Rightarrow> ws
         | lp # rest \<Rightarrow> (w\<lparr>waSyncCh := rest\<rparr>, syncFile S evictor pass2 lp s)))"

end
