(* ===== verification/LocalSyncLaws.thy ===== *)
theory LocalSyncLaws
  imports LocalSync DownloaderLaws
begin

text \<open>
  The laws of the sync folder's local side: what the reconciler does with a file that drifted from the
  synchronized baseline, that the watcher's hand-over to the queue is durable, and that all parts of the
  folder together, in any order, keep local edits.
\<close>

section \<open>The database under the reconciler and the watcher\<close>

lemma enqueue_action_edits: "edits d (vDb v) \<Longrightarrow> edits d (vDb (enqueue_action E i act p v))"
  by (auto simp: enqueue_action_def intro!: edits_intros)

lemma upsert_edits: "edits d (vDb v) \<Longrightarrow> UpsertInode x (vDb v) = (r, d1) \<Longrightarrow> edits d d1"
  using edits_stmt(11) [of d "vDb v" x] by simp

lemma queueNewFile_edits: "edits d (vDb v) \<Longrightarrow> edits d (vDb (snd (queueNewFile E p nm e v)))"
  by (auto simp: queueNewFile_def Let_def intro!: enqueue_action_edits dest: upsert_edits split: prod.splits sum.splits)

lemma requeueUpload_edits:
  assumes "edits d (vDb v)"
  shows "edits d (vDb (snd (requeueUpload E x e v)))"
proof -
  have d1: "edits d (vDb (with_db (DeleteFailedUploadWritebacks (iID x)) v))" using assms by (simp add: edits_intros)
  show ?thesis
    using assms d1 upsert_edits [OF d1]
    by (auto simp: requeueUpload_def Let_def intro!: enqueue_action_edits edits_intros split: prod.splits sum.splits)
qed

lemma heal_dir_edits: "edits d (vDb v) \<Longrightarrow> edits d (vDb (snd (heal_dir E p nm v)))"
  by (auto simp: heal_dir_def intro!: enqueue_action_edits dest: upsert_edits split: prod.splits sum.splits)

lemma heal_failed_edits: "edits d (vDb v) \<Longrightarrow> edits d (vDb (snd (heal_failed E x e v)))"
  by (simp add: heal_failed_def requeueUpload_edits)

lemma heal_synced_edits: "edits d (vDb v) \<Longrightarrow> edits d (vDb (snd (heal_synced E h x e v)))"
  by (auto simp: heal_synced_def Let_def intro!: requeueUpload_edits edits_intros split: sum.split option.split)

lemma healEntry_edits: "edits d (vDb v) \<Longrightarrow> edits d (vDb (snd (healEntry S fs p q t v)))"
  by (simp add: healEntry_def Let_def heal_dir_edits heal_failed_edits heal_synced_edits queueNewFile_edits enqueue_action_edits
      split: sum.split)

lemma Reconcile_edits: "edits d (vDb (sV s)) \<Longrightarrow> edits d (vDb (sV (snd (Reconcile S canceled folder s))))"
proof -
  assume e: "edits d (vDb (sV s))"
  have visit: "edits d (vDb (snd (snd (heal_visit S (sFs s) canceled p t kv))))" if "edits d (vDb (snd kv))" for p t kv
    using that healEntry_edits [OF that, of S "sFs s" p "toRemote S p" t]
    by (auto simp: heal_visit_def Let_def split: prod.split)
  have "edits d (vDb (snd (snd (walk_dir (heal_visit S (sFs s) canceled) (sSyncDir S) folder (0, sV s)))))"
    by (rule walk_keeps(1) [where P = "\<lambda>kv. edits d (vDb (snd kv))"]) (use e visit in auto)
  then show ?thesis by (auto simp: Reconcile_def split: prod.split)
qed

lemma addRecursive_state: "addRecursive addOk S p t (w, s) = (ok, w', s') \<Longrightarrow> s' = s"
  by (auto simp: addRecursive_def split: prod.splits)

lemma new_dir_edits: "edits d (vDb v) \<Longrightarrow> new_dir S p nm v = (b, v1) \<Longrightarrow> edits d (vDb v1)"
  using heal_dir_edits [of d v "sE S" p nm] by (auto simp: new_dir_def Let_def split: if_splits)

lemma scheduleSync_state [simp]: "snd (scheduleSync S lp ws) = snd ws"
  by (simp add: scheduleSync_def split: prod.split)

lemma create_edits:
  "edits d (vDb (sV (snd ws))) \<Longrightarrow> edits d (vDb (sV (snd (handleCreate addOk S lp t ws))))"
  "edits d (vDb (sV (snd ws))) \<Longrightarrow> edits d (vDb (sV (snd (enqueueExistingChildren addOk S lp ts ws))))"
proof (induction addOk S lp t ws and addOk S lp ts ws rule: handleCreate_enqueueExistingChildren.induct)
  case (2 addOk S lp nm ts ws)
  obtain w s where ws: "ws = (w, s)" by fastforce
  obtain ok w1 s1 where a: "addRecursive addOk S lp (WDir nm ts) (if addOk lp then w\<lparr>waWatched := insert lp (waWatched w)\<rparr> else w, s) = (ok, w1, s1)"
    by (metis prod_cases3)
  obtain created v where n: "new_dir S (toRemotePath S lp) (path_Base lp) (sV s) = (created, v)" by fastforce
  have e: "s1 = s" "edits d (vDb v)" using addRecursive_state [OF a] new_dir_edits [OF _ n] 2(2) ws by auto
  then show ?case using 2 ws a n by (auto simp: Let_def split: if_splits)
qed (auto simp: Let_def split: walk_tree.splits if_splits)

lemma handleRemove_edits: "edits d (vDb (sV (snd ws))) \<Longrightarrow> edits d (vDb (sV (snd (handleRemove S lp ws))))"
  by (auto simp: handleRemove_def Let_def intro!: enqueue_action_edits edits_intros split: prod.split sum.split)

lemma handleEvent_edits: "edits d (vDb (sV (snd ws))) \<Longrightarrow> edits d (vDb (sV (snd (handleEvent addOk S name ev ws))))"
  by (auto simp: handleEvent_def handleWrite_def Let_def intro: create_edits handleRemove_edits split: option.split fs_op.split)

lemma rescan_edits:
  assumes "edits d (vDb (sV (snd ws)))"
  shows "edits d (vDb (sV (snd (rescan addOk S folder ws))))"
proof -
  have "snd (snd (addRecursive addOk S p folder ws)) = snd ws" for p
    by (auto simp: addRecursive_def split: prod.split)
  then show ?thesis unfolding rescan_def using assms by (intro create_edits) simp
qed

lemma record_synced_edits:
  assumes "edits d (vDb v)"
  shows "edits d (vDb (record_synced S lp e hash v))"
proof -
  have up: "edits d (snd (UpsertInode x (vDb v)))" for x by (rule edits_stmt(11) [OF assms])
  have q: "edits d (vDb (enqueue_action E i act q (release_blob h i (v\<lparr>vDb := snd (UpsertInode x (vDb v))\<rparr>))))" for E i act q h x
    by (rule enqueue_action_edits) (simp add: up)
  show ?thesis by (simp add: record_synced_def Let_def case_prod_beta up q assms split: sum.split)
qed

lemma syncFile_edits:
  assumes "db_ok (vDb (sV s))"
  shows "edits (vDb (sV s)) (vDb (sV (syncFile S ev pass2 lp s)))"
proof -
  have ev: "edits (vDb (sV s)) (vDb (run_evictor E ((sV s)\<lparr>vStore := st\<rparr>)))" for E st
    using run_evictor_edits [of "(sV s)\<lparr>vStore := st\<rparr>" E] assms by simp
  show ?thesis
    by (auto simp: syncFile_def Let_def intro!: record_synced_edits ev split: prod.split sum.split)
qed

section \<open>The folder as a whole\<close>

text \<open>Everything that acts on a sync folder between two uploads: events, timers and workers of the watcher,
  the reconciler, the poller, the initial scan, and downloads during which anything else of the kind may
  happen.\<close>

datatype folder_step =
  FsEvent "string \<Rightarrow> bool" senv string fs_op
| FsTimer string
| FsWorker senv bool "bytes option"
| FsRescan "string \<Rightarrow> bool" senv walk_tree
| FsReconcile senv "string \<Rightarrow> bool" walk_tree
| FsPoll poll_env addr
| FsRequest venv vfs_request
| FsDownload denv addr
| FsInitial denv addr
| FsScan senv walk_tree
| FsCleanup senv

definition folder_op :: "folder_step \<Rightarrow> wstate \<Rightarrow> wstate" where
  "folder_op st ws =
     (case st of
        FsEvent addOk S name ev \<Rightarrow> handleEvent addOk S name ev ws
      | FsTimer lp \<Rightarrow> fire lp ws
      | FsWorker S evictor pass2 \<Rightarrow> sync_worker S evictor pass2 ws
      | FsRescan addOk S folder \<Rightarrow> rescan addOk S folder ws
      | FsReconcile S canceled folder \<Rightarrow> (fst ws, snd (Reconcile S canceled folder (snd ws)))
      | FsPoll Q a \<Rightarrow> (fst ws, on_vfs (poll_op (Q, a)) (snd ws))
      | FsRequest E r \<Rightarrow> (fst ws, on_vfs (vfs_op (E, r)) (snd ws))
      | FsDownload D a \<Rightarrow> if tame_download D then (fst ws, pending_file D a (snd ws)) else ws
      | FsInitial D a \<Rightarrow> if tame_download D then (fst ws, initial_file D a (snd ws)) else ws
      | FsScan S folder \<Rightarrow> (fst ws, snd (scanLocalNewFiles S folder (snd ws)))
      | FsCleanup S \<Rightarrow> (fst ws, snd (cleanupStaleEntries S (snd ws))))"

interpretation folder_edit: db_editor "\<lambda>ws. vDb (sV (snd ws))" folder_op edit_call
proof
  fix ws :: wstate and st :: folder_step
  assume ok: "db_ok (vDb (sV (snd ws)))"
  note r = reaches_refl [of edit_call "vDb (sV (snd ws))"]
  have w: "edits (vDb (sV (snd ws))) (vDb (sV (snd (sync_worker S ev pass2 ws))))" for S ev pass2
    using syncFile_edits [OF ok, of S ev pass2] by (auto simp: sync_worker_def split: prod.splits list.splits)
  show "reaches edit_call (vDb (sV (snd ws))) (vDb (sV (snd (folder_op st ws))))"
    using handleEvent_edits [OF r] w rescan_edits [OF r] Reconcile_edits [OF r] poll_edit.op_reaches [OF ok]
      vfs_edit.op_reaches [OF ok] pending_file_edits [OF _ r] initial_file_edits [OF _ r] scan_edits [OF r] cleanup_edits [OF r]
    by (cases st) (auto simp: folder_op_def on_vfs_def fire_def split: prod.splits)
qed (simp add: edit_call_def)

text \<open>
  C24: nothing that acts on a sync folder loses a local edit. Events, timers and workers of the watcher,
  overflow rescans, reconciliation, polls, requests through the mount, initial and periodic downloads,
  the scan for new files and the cleanup, in any order, with any server answers and failing statements:
  the keys of the database stay unique, a row that is dirty stays dirty as long as it is there, and with
  write-back disabled nothing enters the queue.
\<close>

theorem folder_steps_keep_edits:
  assumes "db_ok (vDb (sV (snd ws)))"
  shows "db_ok (vDb (sV (snd (fold folder_op steps ws)))) \<and>
    edits_kept (vDb (sV (snd ws))) (vDb (sV (snd (fold folder_op steps ws)))) \<and>
    (writebackDisabled (vDb (sV (snd ws))) \<longrightarrow>
       wID ` set (wbqueue (vDb (sV (snd (fold folder_op steps ws))))) \<subseteq> wID ` set (wbqueue (vDb (sV (snd ws)))))"
  using folder_edit.run_db_ok [OF assms] folder_edit.run_edits_kept [OF assms] folder_edit.run_read_only [OF assms] by blast

section \<open>Rows and entries\<close>

abbreviation pending_uploads :: "int \<Rightarrow> db \<Rightarrow> WritebackEntry list" where
  "pending_uploads i d \<equiv> filter (\<lambda>e. wInodeID e = i \<and> wAction e = Upload \<and> wStatus e = WbPending) (wbqueue d)"

lemma upsert_row:
  assumes "UpsertInode x d = (Inr i, d')"
  shows "\<exists>r \<in> set (inodes d'). iID r = i \<and> iRemotePath r = iRemotePath x \<and> iCached r = iCached x \<and> iContentHash r = iContentHash x \<and>
      iSyncStatus r = iSyncStatus x \<and> iSize r = iSize x \<and> (iDirty x \<longrightarrow> iDirty r)"
    and "sqlFails d' = sqlFails d" "writebackDisabled d' = writebackDisabled d" "wbqueue d' = wbqueue d" "nextWb d' = nextWb d"
proof -
  show "\<exists>r \<in> set (inodes d'). iID r = i \<and> iRemotePath r = iRemotePath x \<and> iCached r = iCached x \<and> iContentHash r = iContentHash x \<and>
      iSyncStatus r = iSyncStatus x \<and> iSize r = iSize x \<and> (iDirty x \<longrightarrow> iDirty r)"
  proof (cases "find (\<lambda>r. iRemotePath r = iRemotePath x) (inodes d)")
    case None
    then show ?thesis using assms by (auto simp: UpsertInode_def fresh_row_def Inode.defs inode_row.defs split: if_splits)
  next
    case (Some r0)
    then have r0: "r0 \<in> set (inodes d)" "iRemotePath r0 = iRemotePath x" by (auto simp: find_Some_iff)
    then have "conflict_row x r0 \<in> set (inodes d')" "i = iID r0"
      using assms Some by (force simp: UpsertInode_def upd_inodes_def set_sql_update split: if_splits)+
    then show ?thesis using r0 by (intro bexI [of _ "conflict_row x r0"]) (auto simp: conflict_row_def)
  qed
qed (use assms in \<open>auto simp: UpsertInode_def upd_inodes_def split: if_splits option.splits\<close>)

lemma upsert_works: "\<not> sqlFails d OpUpsertInode \<Longrightarrow> \<exists>i d'. UpsertInode x d = (Inr i, d')"
  by (auto simp: UpsertInode_def split: option.split)

lemma enqueue_action_upload: "enqueue_action E i Upload path v = enqueue_upload E i path v"
  by (simp add: enqueue_action_def enqueue_upload_def)

text \<open>An upload that is queued is the only pending one.\<close>

lemma queued_once:
  assumes "\<not> writebackDisabled (vDb v)" "\<not> sqlFails (vDb v) OpEnqueueDelete" "\<not> sqlFails (vDb v) OpEnqueueInsert"
  shows "inodes (vDb (enqueue_action E i Upload path v)) = inodes (vDb v)"
    "\<exists>e. pending_uploads i (vDb (enqueue_action E i Upload path v)) = [e] \<and> wRemotePath e = path"
  using enqueued_once [OF assms] by (simp_all add: enqueue_action_def)

section \<open>The reconciler settles drift\<close>

lemma found_row:
  assumes "GetInodeByPath p d = Inr x"
  shows "\<exists>r \<in> set (inodes d). x = scanInodeRow r \<and> iRemotePath r = p \<and> find (\<lambda>r. iRemotePath r = p) (inodes d) = Some r"
  using assms by (auto simp: GetInodeByPath_def first_row_def find_Some_iff split: if_splits option.splits)

lemma requeueUpload_queues:
  assumes "sql_works (vDb v)" "\<not> writebackDisabled (vDb v)" "\<not> uploadInFlight (iID x) v"
    and "fst (ValidateFile (vUniLower E) (vTypeOf E) (iDisplayName x) (entry_size e))"
    and "r \<in> set (inodes (vDb v))" "find (\<lambda>r. iRemotePath r = iRemotePath x) (inodes (vDb v)) = Some r" "iID r = iID x"
  shows "\<exists>v'. requeueUpload E x e v = (True, v') \<and> (\<exists>en. pending_uploads (iID x) (vDb v') = [en] \<and> wRemotePath en = iRemotePath x) \<and>
    (\<exists>y \<in> set (inodes (vDb v')). iID y = iID x \<and> iRemotePath y = iRemotePath x \<and> iDirty y \<and> iSyncStatus y = StatusPending \<and>
       iSize y = entry_size e \<and> iLocalHash y = [] \<and> iBaselineHash y = [])"
proof -
  let ?v1 = "with_db (DeleteFailedUploadWritebacks (iID x)) v"
  let ?x = "x\<lparr>iSize := entry_size e, iMtime := entry_mtime e, iCached := False, iContentHash := [], iDirty := True,
    iSyncStatus := StatusPending, iStatusReason := []\<rparr>"
  have d1: "sqlFails (vDb ?v1) = sqlFails (vDb v)" "writebackDisabled (vDb ?v1) = writebackDisabled (vDb v)"
    "inodes (vDb ?v1) = inodes (vDb v)"
    by (simp_all add: DeleteFailedUploadWritebacks_def exec_def)
  have works: "\<not> sqlFails (vDb v) c" for c using assms(1) by (simp add: sql_works_def)
  obtain i d where up: "UpsertInode ?x (vDb ?v1) = (Inr i, d)" using upsert_works [of "vDb ?v1" ?x] d1 works by auto
  have i: "i = iID x" using up assms(6,7) by (auto simp: UpsertInode_def d1 [simplified] works)
  obtain y where y: "y \<in> set (inodes d)" "iID y = iID x" "iRemotePath y = iRemotePath x" "iDirty y" "iSyncStatus y = StatusPending"
    "iSize y = entry_size e"
    using upsert_row(1) [OF up] i by auto
  let ?y = "y\<lparr>iLocalHash := [], iLocalMtime := 0, iBaselineHash := [], iLocalRemoteEtag := []\<rparr>"
  let ?v2 = "with_db (SetLocalContent i [] 0) (?v1\<lparr>vDb := d\<rparr>)"
  have d2: "sqlFails (vDb ?v2) = sqlFails (vDb v)" "writebackDisabled (vDb ?v2) = writebackDisabled (vDb v)" "?y \<in> set (inodes (vDb ?v2))"
    using upsert_row(2,3) [OF up] d1 works y(1,2) i
    by (auto simp: SetLocalContent_def exec_def upd_inodes_def sql_update_def)
  let ?v3 = "release_blob (iContentHash x) i ?v2"
  have d3: "\<not> writebackDisabled (vDb ?v3)" "\<not> sqlFails (vDb ?v3) OpEnqueueDelete" "\<not> sqlFails (vDb ?v3) OpEnqueueInsert"
    using d2 assms(2) works by simp_all
  note q = queued_once [OF d3, where E = E and i = "iID x" and path = "iRemotePath x"]
  have run: "requeueUpload E x e v = (True, enqueue_action E i Upload (iRemotePath x) ?v3)"
    using assms(3,4) up by (auto simp: requeueUpload_def Let_def case_prod_beta)
  have "?y \<in> set (inodes (vDb (enqueue_action E i Upload (iRemotePath x) ?v3)))" using q(1) d2(3) i by simp
  moreover have "iID ?y = iID x" "iRemotePath ?y = iRemotePath x" "iDirty ?y" "iSyncStatus ?y = StatusPending" "iSize ?y = entry_size e"
    "iLocalHash ?y = []" "iBaselineHash ?y = []"
    using y by simp_all
  ultimately show ?thesis using run q(2) i by blast
qed


section \<open>The watcher hands over\<close>

text \<open>Eviction keeps the store consistent.\<close>

definition store_kept :: "prims \<Rightarrow> (string \<Rightarrow> bytes) \<Rightarrow> evictor \<Rightarrow> evictor \<Rightarrow> bool" where
  "store_kept P c e e' \<longleftrightarrow> (\<forall>s. evStore e = Some s \<longrightarrow> (\<exists>s'. evStore e' = Some s' \<and> ioFails s' = ioFails s \<and> (store_ok P c s \<longrightarrow> store_ok P c s')))"

lemma ReleaseBlob_keeps: "\<exists>s'. ReleaseBlob h i d (Some s) = Some s' \<and> ioFails s' = ioFails s \<and> (store_ok P c s \<longrightarrow> store_ok P c s')"
  by (auto simp: ReleaseBlob_def intro: RemoveBlob_ok split: sum.split)

interpretation evict_store: evict_rel inUse "store_kept P c" for inUse P c
proof
  show "store_kept P c e e2" if "store_kept P c e e1" "store_kept P c e1 e2" for e e1 e2
    using that by (fastforce simp: store_kept_def)
  show "store_kept P c e e1" if "evict_one x e = (r, e1)" for e x r e1
    using that ReleaseBlob_keeps [of "iContentHash x" "iID x" "evDb e"]
    by (auto simp: store_kept_def evict_one_eq Let_def split: if_splits)
  show "store_kept P c e (e\<lparr>evStore := st\<rparr>)" if "CacheBytes (evDb e) (evStore e) = (n, st)" for e n st
  proof -
    have "ioFails s' = ioFails s" "store_ok P c s \<Longrightarrow> store_ok P c s'" if "Bytes s = (n, s')" for s s'
      using that Bytes_ok [of P c s] by (auto simp: Bytes_def ResyncBytes_def Let_def split: if_splits)
    then show ?thesis using that by (auto simp: store_kept_def CacheBytes_def split: option.splits prod.splits)
  qed
qed (auto simp: store_kept_def)

lemma evictClear_store [simp]: "vStore (evictClear i v) = vStore v"
  by (simp add: evictClear_def split: option.split)

lemma fold_evictClear_store [simp]: "vStore (fold evictClear is v) = vStore v"
  by (induction "is" arbitrary: v) simp_all

lemma run_evictor_store:
  assumes "db_ok (vDb v)"
  shows "ioFails (vStore (run_evictor E v)) = ioFails (vStore v)" "store_ok P c (vStore v) \<Longrightarrow> store_ok P c (vStore (run_evictor E v))"
proof -
  let ?e = "\<lparr>evDb = vDb v, evStore = Some (vStore v), evicted = []\<rparr>"
  obtain r e' where run: "RunIfNeeded (vMaxSize E) (vTarget E) (evictInUse v) ?e = (r, e')" by fastforce
  have "store_kept P c ?e e'" by (rule evict_store.rel_RunIfNeeded [OF run]) (simp add: ev_ok_def assms)
  then obtain s' where "evStore e' = Some s'" "ioFails s' = ioFails (vStore v)" "store_ok P c (vStore v) \<longrightarrow> store_ok P c s'"
    by (auto simp: store_kept_def)
  then show "ioFails (vStore (run_evictor E v)) = ioFails (vStore v)" "store_ok P c (vStore v) \<Longrightarrow> store_ok P c (vStore (run_evictor E v))"
    using run by (simp_all add: run_evictor_def)
qed

lemma record_synced_durable:
  assumes "sql_works (vDb v)" "\<not> writebackDisabled (vDb v)"
    and "fst (ValidateFile (vUniLower (sE S)) (vTypeOf (sE S)) (path_Base lp) (entry_size e))"
    and "\<forall>x. GetInodeByPath (toRemotePath S lp) (vDb v) = Inr x \<longrightarrow> iContentHash x \<noteq> h \<or> iSyncStatus x \<noteq> StatusSynced"
    and "h \<in> stored (vStore v)" "h \<noteq> []" "store_ok P c (vStore v)"
  shows "\<exists>i. h \<in> stored (vStore (record_synced S lp e h v)) \<and> store_ok P c (vStore (record_synced S lp e h v)) \<and>
    ioFails (vStore (record_synced S lp e h v)) = ioFails (vStore v) \<and>
    (\<exists>r \<in> set (inodes (vDb (record_synced S lp e h v))). iID r = i \<and> iRemotePath r = toRemotePath S lp \<and> iDirty r \<and> iCached r \<and>
       iContentHash r = h \<and> iSyncStatus r = StatusPending) \<and>
    (\<exists>en. pending_uploads i (vDb (record_synced S lp e h v)) = [en] \<and> wRemotePath en = toRemotePath S lp)"
proof -
  let ?E = "sE S" and ?p = "toRemotePath S lp"
  have works: "\<not> sqlFails (vDb v) c" for c using assms(1) by (simp add: sql_works_def)
  let ?old = "case GetInodeByPath ?p (vDb v) of Inr x \<Rightarrow> if iContentHash x \<noteq> h then iContentHash x else [] | Inl _ \<Rightarrow> []"
  obtain reason where val: "ValidateFile (vUniLower ?E) (vTypeOf ?E) (path_Base lp) (entry_size e) = (True, reason)"
    using assms(3) by (cases "ValidateFile (vUniLower ?E) (vTypeOf ?E) (path_Base lp) (entry_size e)") auto
  let ?x = "zero_inode\<lparr>iRemotePath := ?p, iDisplayName := path_Base lp, iSize := entry_size e,
    iMtime := entry_mtime e, iCached := True, iDirty := True, iContentHash := h, iSyncStatus := StatusPending, iStatusReason := reason\<rparr>"
  obtain i d where up: "UpsertInode ?x (vDb v) = (Inr i, d)" using upsert_works works by blast
  define v2 where "v2 = release_blob ?old i (v\<lparr>vDb := d\<rparr>)"
  have run: "record_synced S lp e h v = enqueue_action ?E i Upload ?p v2"
    using assms(4) up val by (auto simp: record_synced_def v2_def Let_def split: sum.splits)
  have "h \<noteq> ?old" using assms(6) by (auto split: sum.split)
  then have st: "h \<in> stored (vStore v2)" "store_ok P c (vStore v2)" "ioFails (vStore v2) = ioFails (vStore v)"
    using assms(5,7) stored_release [of h "v\<lparr>vDb := d\<rparr>"] store_ok_release [of P c "v\<lparr>vDb := d\<rparr>"] by (simp_all add: v2_def)
  have d2: "\<not> writebackDisabled (vDb v2)" "\<not> sqlFails (vDb v2) OpEnqueueDelete" "\<not> sqlFails (vDb v2) OpEnqueueInsert" "vDb v2 = d"
    using upsert_row(2,3) [OF up] assms(2) works by (simp_all add: v2_def)
  note q = queued_once [OF d2(1-3), where E = ?E and i = i and path = ?p]
  have "\<exists>r \<in> set (inodes d). iID r = i \<and> iRemotePath r = ?p \<and> iDirty r \<and> iCached r \<and> iContentHash r = h \<and> iSyncStatus r = StatusPending"
    using upsert_row(1) [OF up] by auto
  then show ?thesis using run q d2(4) st by (auto simp: enqueue_action_def)
qed


section \<open>What a removal does not check\<close>

text \<open>A file that was uploaded before and edited since is pending. When it is removed locally, the watcher
  takes it for one the server does not know: its row and its queue entries go and no deletion is queued, so
  the server keeps the file.\<close>

lemma removed_pending_is_forgotten:
  assumes "safe_in S (sFs s) lp" "GetInodeByPath (toRemotePath S lp) (vDb (sV s)) = Inr x" "iSyncStatus x = StatusPending" "iEtag x \<noteq> []"
    and "sql_works (vDb (sV s))" "handleRemove S lp (w, s) = (w', s')"
  shows "GetInodeByPath (toRemotePath S lp) (vDb (sV s')) = Inl NoRows \<and> (\<forall>e \<in> set (wbqueue (vDb (sV s'))). wInodeID e \<noteq> iID x)"
proof -
  have "s' = s\<lparr>sV := with_db (DeleteInode (toRemotePath S lp)) (with_db (DeleteWritebackByInode (iID x)) (sV s))\<rparr>"
    using assms(1-3,6) by (simp add: handleRemove_def Let_def)
  then show ?thesis
    using assms(5) by (auto simp: sql_works_def DeleteInode_def DeleteWritebackByInode_def exec_def GetInodeByPath_def first_row_def sql_delete_def find_None_iff split: option.split)
qed

section \<open>Witnesses\<close>

theorem folder_steps_keep_edits_witness:
  "edits_kept sample_db (vDb (sV (snd (fold folder_op [FsTimer ''/s/a.txt'', FsWorker sample_senv False (Some [7, 8, 9]), FsCleanup sample_senv]
     (\<lparr>waDebounce = [''/s/a.txt'' \<mapsto> 4], waSyncCh = [], waWatched = {}, waStopped = False\<rparr>, sample_sstate)))))"
proof -
  have d: "vDb (sV (snd (w, sample_sstate))) = sample_db" for w :: Watcher by (simp add: sample_sstate_def sample_node_at)
  show ?thesis by (rule folder_steps_keep_edits [THEN conjunct2, THEN conjunct1, of "(_, sample_sstate)", unfolded d]) (rule sample_db_ok)
qed

definition drifted_db :: db where
  "drifted_db = sample_db\<lparr>inodes := [sample_row\<lparr>iDirty := False, iSyncStatus := StatusSynced, iDisplayName := ''a.txt'', iLocalHash := ''h'',
     iLocalRemoteEtag := ''v1''\<rparr>], wbqueue := []\<rparr>"



end
