(* ===== verification/ApiClient.thy ===== *)
theory ApiClient
  imports ApiErrors FileCrypt
begin

text \<open>
  The client of the server: \<open>internal/api/client.go\<close> and \<open>internal/api/upload_chunked.go\<close>.

  The server, the network and the clock are one function of what has happened so far: the answer to a
  request may depend on all earlier requests, answers and waits, so every server behaviour is some such
  function. The history is the state, together with the upload session of the client. Parsing and
  rendering of JSON are parameters. Progress callbacks and headers are left out.
\<close>

section \<open>Requests, answers, history\<close>

datatype request =
  ReqCli string options
| ReqBody options bytes
| ReqForm options "bytes option"
| ReqSession
| ReqAttest
| ReqDownload string options
| ReqAction string options

text \<open>A response with its status, the \<open>Retry-After\<close> header, whether the type is JSON, the metadata header and
  the body; reading the body may fail after a part of it, and the stall guard may have cut it.\<close>

record http_resp =
  hStatus :: int
  hRetryAfter :: string
  hJson :: bool
  hMeta :: string
  hPartial :: bytes
  hBody :: "api_err \<times> bool + bytes"

type_synonym answer = "api_err \<times> bool + http_resp"

datatype event = Sent request answer | Waited "64 word"

type_synonym history = "event list"

text \<open>An error of the client: what callers read off it, the status of a rejection by a proxy, the wait of a
  pending scan.\<close>

record cerr =
  ceApi :: api_err
  ceProxy :: "int option"
  cePending :: "64 word option"
  ceTooLarge :: bool

definition cerr_of :: "api_err \<Rightarrow> cerr" where
  "cerr_of e = \<lparr>ceApi = e, ceProxy = None, cePending = None, ceTooLarge = False\<rparr>"

definition text_err :: "string \<Rightarrow> cerr" where
  "text_err t = cerr_of (plain_api_err t)"

definition wrap_cerr :: "string \<Rightarrow> cerr \<Rightarrow> cerr" where
  "wrap_cerr what e = e\<lparr>ceApi := wrap_err what (ceApi e)\<rparr>"

definition canceled_err :: cerr where
  "canceled_err = cerr_of ((plain_api_err ''context canceled'')\<lparr>aeCanceled := True\<rparr>)"

section \<open>Environment and state\<close>

record Response =
  rsSuccess :: bool
  rsMessage :: string
  rsErrorCode :: string
  rsStatus :: int
  rsRaw :: bytes

record webUploadResult =
  wuSuccess :: bool
  wuError :: string
  wuErrorCode :: string
  wuNodeID :: string
  wuETag :: string
  wuRetryAfterMs :: int

record DownloadResult =
  drE2EE :: bool
  drSealedKey :: string
  drEncryptionMeta :: string
  drSignatureEd25519 :: string
  drSignatureMldsa :: string
  drSigningPkEd25519 :: string
  drSigningPkMldsa :: string
  drSignedBy :: string
  drTEESignatureEd25519 :: string
  drTEESignatureMldsa :: string
  drTEESigningPkEd25519 :: string
  drTEESigningPkMldsa :: string

record receipt =
  rcStoredPath :: string
  rcName :: string
  rcSize :: int
  rcNodeID :: string
  rcETag :: "string option"

record TeeAttestationResponse =
  atSuccess :: bool
  atEnabled :: bool
  atAvailable :: bool
  atEnclavePublicKey :: string
  atEnclavePublicKeyKyber :: string
  atEnclaveSigningPkEd25519 :: string
  atEnclaveSigningPkMldsa :: string
  atAttestationMode :: string
  atSgxQuote :: string
  atMrenclave :: string
  atVerificationStatus :: string
  atBusy :: bool
  atRetryAfterMs :: int

record DeviceAuthorizeResult =
  daSuccess :: bool
  daError :: string
  daDeviceCode :: string
  daUserCode :: string
  daVerificationURI :: string
  daVerificationURIComplete :: string
  daInterval :: int
  daExpiresIn :: int

record DeviceTokenResult =
  dtSuccess :: bool
  dtError :: string
  dtAPIKey :: string
  dtKeyIdentifier :: string
  dtSealedKey :: string
  dtKeyEpoch :: int

record cenv =
  cAnswer :: "history \<Rightarrow> request \<Rightarrow> answer"
  cCanceled :: "history \<Rightarrow> bool"
  cNow :: "history \<Rightarrow> int"
  cFile :: "history \<Rightarrow> string \<Rightarrow> bytes option"
  cToLower :: "string \<Rightarrow> string"
  cRand16 :: "bytes option"
  cDisk :: "history \<Rightarrow> string \<Rightarrow> api_err option"
  cChunkID :: "string option"
  cWaitOutScanBudget :: bool
  cParkScanBudget :: bool
  jResponse :: "bytes \<Rightarrow> Response option"
  jUpload :: "bytes \<Rightarrow> webUploadResult option"
  jSession :: "bytes \<Rightarrow> (bool \<times> string) option"
  jMeta :: "string \<Rightarrow> DownloadResult option"
  jAttest :: "bytes \<Rightarrow> TeeAttestationResponse option"
  jFailure :: "bytes \<Rightarrow> (string \<times> string) option"
  jAuthorize :: "bytes \<Rightarrow> DeviceAuthorizeResult option"
  jToken :: "bytes \<Rightarrow> DeviceTokenResult option"
  jSuccess :: "bytes \<Rightarrow> bool option"
  jRename :: "bytes \<Rightarrow> string \<Rightarrow> string \<Rightarrow> bytes option"
  jReceipt :: "receipt \<Rightarrow> bytes option"
  jDetail :: "bytes \<Rightarrow> string"
  jHexOk :: "string \<Rightarrow> bool"

record cstate =
  csSession :: "string option"
  csLocal :: "string \<rightharpoonup> bytes"
  csHist :: history

definition send :: "cenv \<Rightarrow> request \<Rightarrow> cstate \<Rightarrow> answer \<times> cstate" where
  "send C r s = (let a = cAnswer C (csHist s) r in (a, s\<lparr>csHist := csHist s @ [Sent r a]\<rparr>))"

text \<open>A wait ends early when the context is done.\<close>

definition wait_for :: "cenv \<Rightarrow> 64 word \<Rightarrow> cstate \<Rightarrow> bool \<times> cstate" where
  "wait_for C d s = (let h = csHist s @ [Waited d] in (\<not> cCanceled C h, s\<lparr>csHist := h\<rparr>))"

definition opt :: "options \<Rightarrow> string \<Rightarrow> string" where
  "opt m k = (case m k of Some v \<Rightarrow> v | None \<Rightarrow> [])"

definition ResponseSizeLimit :: nat where "ResponseSizeLimit = 10 * 1024 * 1024"

section \<open>Errors of a response\<close>

text \<open>The stall guard turns an error it caused into a transient one.\<close>

definition classify :: "bool \<Rightarrow> cerr \<Rightarrow> cerr" where
  "classify tripped e =
     (if \<not> tripped then e
      else cerr_of ((plain_api_err ''transfer stalled'')\<lparr>aeRequest := Some \<lparr>reKind = KindTransient, reStatus = 0, reRetryAfter = 0\<rparr>\<rparr>))"

definition status_err :: "http_resp \<Rightarrow> cerr \<Rightarrow> cerr" where
  "status_err r e = e\<lparr>ceApi := statusError (hStatus r) (hRetryAfter r) (ceApi e)\<rparr>"

definition api_error_of :: "string \<Rightarrow> string \<Rightarrow> cerr" where
  "api_error_of code message = cerr_of ((plain_api_err message)\<lparr>aeCode := Some code\<rparr>)"

definition rejectionError :: "cenv \<Rightarrow> int \<Rightarrow> bytes \<Rightarrow> cerr" where
  "rejectionError C status body = (text_err (jDetail C body))\<lparr>ceProxy := Some status\<rparr>"

definition bodyTooLarge :: "cerr \<Rightarrow> bool" where
  "bodyTooLarge e \<longleftrightarrow> ceProxy e = Some 413"

definition bodyRejection :: "cerr \<Rightarrow> bool" where
  "bodyRejection e = (case aeRequest (ceApi e) of Some r \<Rightarrow> reStatus r = 200 | None \<Rightarrow> False)"

definition isTransient :: "cerr \<Rightarrow> int \<Rightarrow> bool" where
  "isTransient e statusCode =
     (case aeRequest (ceApi e) of
        Some r \<Rightarrow> reKind r = KindTransient
      | None \<Rightarrow> if transportRetryable (ceApi e) then True else classifyStatus statusCode = KindTransient)"

section \<open>Retrying\<close>

definition retryDelays :: "64 word list" where "retryDelays = [second, 2 * second]"

type_synonym 'a attempt = "cstate \<Rightarrow> ((int \<times> cerr) + 'a) \<times> cstate"

text \<open>One attempt more than there are delays.\<close>

fun withRetry :: "cenv \<Rightarrow> 'a attempt \<Rightarrow> 64 word list \<Rightarrow> cstate \<Rightarrow> (cerr + 'a) \<times> cstate" where
  "withRetry C fn [] s =
     (case fn s of (Inr r, s1) \<Rightarrow> (Inr r, s1) | (Inl (code, e), s1) \<Rightarrow> (Inl e, s1))"
| "withRetry C fn (d # ds) s =
     (case fn s of
        (Inr r, s1) \<Rightarrow> (Inr r, s1)
      | (Inl (code, e), s1) \<Rightarrow>
          if \<not> isTransient e code then (Inl e, s1)
          else (case wait_for C d s1 of
                  (True, s2) \<Rightarrow> withRetry C fn ds s2
                | (False, s2) \<Rightarrow> (Inl canceled_err, s2)))"

definition read_body :: "http_resp \<Rightarrow> api_err \<times> bool + bytes" where
  "read_body r = (case hBody r of Inl e \<Rightarrow> Inl e | Inr b \<Rightarrow> Inr (take ResponseSizeLimit b))"

definition execute_once :: "cenv \<Rightarrow> string \<Rightarrow> options \<Rightarrow> Response attempt" where
  "execute_once C cmd opts s =
     (case send C (ReqCli cmd opts) s of
        (Inl (e, tripped), s1) \<Rightarrow> (Inl (0, wrap_cerr ''request failed'' (cerr_of e)), s1)
      | (Inr r, s1) \<Rightarrow>
          (case read_body r of
             Inl (e, tripped) \<Rightarrow> (Inl (hStatus r, wrap_cerr ''failed to read response'' (cerr_of e)), s1)
           | Inr body \<Rightarrow>
               if body = [] then (Inl (hStatus r, text_err ''empty response from server''), s1)
               else case jResponse C body of
                      None \<Rightarrow> (Inl (hStatus r, text_err ''failed to parse response''), s1)
                    | Some resp \<Rightarrow> (Inr (resp\<lparr>rsStatus := hStatus r, rsRaw := body\<rparr>), s1)))"

definition Execute :: "cenv \<Rightarrow> string \<Rightarrow> options \<Rightarrow> cstate \<Rightarrow> (cerr + Response) \<times> cstate" where
  "Execute C cmd opts s = withRetry C (execute_once C cmd opts) retryDelays s"

section \<open>Uploads in one body\<close>

definition uploadSingleBodyMaxBytes :: int where "uploadSingleBodyMaxBytes = 90 * 1024 * 1024"
definition uploadChunkSize :: int where "uploadChunkSize = 16 * 1024 * 1024"

definition UploadIsChunked :: "int \<Rightarrow> bool" where
  "UploadIsChunked sz \<longleftrightarrow> sz > uploadSingleBodyMaxBytes"

definition uploadWireName :: "cenv \<Rightarrow> string \<Rightarrow> string" where
  "uploadWireName C name =
     (if CHR ''.'' \<notin> set name then ''f''
      else
        let ext = rev (takeWhile (\<lambda>c. c \<noteq> CHR ''.'') (rev name)); dot = length name - length ext - 1 in
        if dot = 0 then ''f'' else CHR ''f'' # cToLower C (drop dot name))"

definition joinRemotePath :: "string \<Rightarrow> string \<Rightarrow> string" where
  "joinRemotePath dir name =
     (let trimmed = TrimRight (CHR ''/'') dir in if trimmed = [] then ''/'' @ name else trimmed @ ''/'' @ name)"

definition whole_once :: "cenv \<Rightarrow> string \<Rightarrow> options \<Rightarrow> Response attempt" where
  "whole_once C lp opts s =
     (case cFile C (csHist s) lp of
        None \<Rightarrow> (Inl (0, text_err ''failed to open file''), s)
      | Some data \<Rightarrow>
          (case send C (ReqBody opts data) s of
             (Inl (e, tripped), s1) \<Rightarrow> (Inl (0, classify tripped (wrap_cerr ''request failed'' (cerr_of e))), s1)
           | (Inr r, s1) \<Rightarrow>
               (case read_body r of
                  Inl (e, tripped) \<Rightarrow> (Inl (hStatus r, classify tripped (wrap_cerr ''failed to read response'' (cerr_of e))), s1)
                | Inr body \<Rightarrow>
                    if body = [] then
                      (Inl (hStatus r, if hStatus r \<noteq> 200 then status_err r (rejectionError C (hStatus r) [])
                                       else text_err ''empty response from server''), s1)
                    else case jResponse C body of
                           None \<Rightarrow>
                             (Inl (hStatus r, if hStatus r \<noteq> 200 then status_err r (rejectionError C (hStatus r) body)
                                              else text_err ''failed to parse response''), s1)
                         | Some resp \<Rightarrow>
                             if hStatus r \<noteq> 200 \<and> \<not> rsSuccess resp then
                               (Inl (hStatus r, status_err r (api_error_of (rsErrorCode resp)
                                  (if rsMessage resp = [] then ''upload failed'' else rsMessage resp))), s1)
                             else (Inr (resp\<lparr>rsStatus := hStatus r, rsRaw := body\<rparr>), s1))))"

text \<open>An encrypted upload sends a stub for the name, and the reply gets the real one back.\<close>

definition uploadWholeBody :: "cenv \<Rightarrow> string \<Rightarrow> options \<Rightarrow> cstate \<Rightarrow> (cerr + Response) \<times> cstate" where
  "uploadWholeBody C lp opts s =
     (let realName = opt opts ''source''; stubbed = (opt opts ''sealed_key'' \<noteq> []);
          wireOptions = (if stubbed then opts(''source'' \<mapsto> uploadWireName C realName) else opts)
      in case withRetry C (whole_once C lp wireOptions) retryDelays s of
           (Inl e, s1) \<Rightarrow> (Inl e, s1)
         | (Inr resp, s1) \<Rightarrow>
             if \<not> stubbed \<or> \<not> rsSuccess resp \<or> rsRaw resp = [] then (Inr resp, s1)
             else (Inr (case jRename C (rsRaw resp) realName (joinRemotePath (opt opts ''target'') realName) of
                          Some raw \<Rightarrow> resp\<lparr>rsRaw := raw\<rparr>
                        | None \<Rightarrow> resp), s1))"

section \<open>Uploads in chunks\<close>

definition chunkUploadRetries :: nat where "chunkUploadRetries = 3"
definition scanPendingMaxWait :: "64 word" where "scanPendingMaxWait = 15 * 60 * second"
definition scanPendingDefaultWait :: "64 word" where "scanPendingDefaultWait = 2 * second"
definition scanBudgetMaxWaits :: nat where "scanBudgetMaxWaits = 2"

definition scannerShedWait :: "cerr \<Rightarrow> 64 word option" where
  "scannerShedWait e =
     (if aeCode (ceApi e) \<noteq> Some ''scanner_busy'' then None
      else if sint (RetryAfterHint (ceApi e)) > 0 then Some (RetryAfterHint (ceApi e))
      else Some scanPendingDefaultWait)"

definition scanPendingWait :: "http_resp \<Rightarrow> webUploadResult \<Rightarrow> 64 word" where
  "scanPendingWait r u =
     (if wuRetryAfterMs u > 0 then word_of_int (wuRetryAfterMs u) * 1000000
      else if sint (retryAfterHeader (hRetryAfter r)) > 0 then retryAfterHeader (hRetryAfter r)
      else scanPendingDefaultWait)"

definition permanentUploadCodes :: "string list" where "permanentUploadCodes = [''duplicate'']"

definition uploadRejectionKind :: "int \<Rightarrow> string \<Rightarrow> ErrorKind" where
  "uploadRejectionKind status errorCode =
     (if status \<noteq> 200 then classifyStatus status
      else if errorCode \<in> set permanentUploadCodes then KindPermanent
      else KindTransient)"

definition uploadSession :: "cenv \<Rightarrow> bool \<Rightarrow> cstate \<Rightarrow> (cerr + string) \<times> cstate" where
  "uploadSession C refresh s =
     (case (csSession s, refresh) of
        (Some csrf, False) \<Rightarrow> (Inr csrf, s)
      | _ \<Rightarrow>
          (case send C ReqSession s of
             (Inl (e, tripped), s1) \<Rightarrow> (Inl (wrap_cerr ''failed to open an upload session'' (cerr_of e)), s1)
           | (Inr r, s1) \<Rightarrow>
               (case read_body r of
                  Inl (e, tripped) \<Rightarrow> (Inl (wrap_cerr ''failed to read response'' (cerr_of e)), s1)
                | Inr body \<Rightarrow>
                    (case jSession C body of
                       None \<Rightarrow> (Inl (status_err r (rejectionError C (hStatus r) body)), s1)
                     | Some (ok, token) \<Rightarrow>
                         if \<not> ok \<or> token = [] then (Inl (status_err r (text_err ''server issued no upload token'')), s1)
                         else (Inr token, s1\<lparr>csSession := Some token\<rparr>)))))"

text \<open>The form of a chunk reads the file anew; a read past its end is an error.\<close>

definition buildChunkForm :: "cenv \<Rightarrow> options \<Rightarrow> string option \<Rightarrow> int \<Rightarrow> int \<Rightarrow> cstate \<Rightarrow> cerr + request" where
  "buildChunkForm C fs lp offset len s =
     (case lp of
        None \<Rightarrow> Inr (ReqForm fs None)
      | Some p \<Rightarrow>
          (case cFile C (csHist s) p of
             None \<Rightarrow> Inl (text_err ''failed to open file'')
           | Some data \<Rightarrow>
               if nat offset + nat len > length data then Inl (text_err ''failed to read chunk'')
               else Inr (ReqForm fs (Some (take (nat len) (drop (nat offset) data))))))"

definition postUploadForm :: "cenv \<Rightarrow> request \<Rightarrow> (http_resp \<times> webUploadResult) attempt" where
  "postUploadForm C form s =
     (case send C form s of
        (Inl (e, tripped), s1) \<Rightarrow> (Inl (0, classify tripped (wrap_cerr ''request failed'' (cerr_of e))), s1)
      | (Inr r, s1) \<Rightarrow>
          (case read_body r of
             Inl (e, tripped) \<Rightarrow> (Inl (hStatus r, classify tripped (wrap_cerr ''failed to read response'' (cerr_of e))), s1)
           | Inr body \<Rightarrow>
               if body = [] then (Inl (hStatus r, status_err r (text_err ''empty response from server'')), s1)
               else case jUpload C body of
                      None \<Rightarrow> (Inl (hStatus r, status_err r (rejectionError C (hStatus r) body)), s1)
                    | Some u \<Rightarrow>
                        if hStatus r = 202 \<and> wuErrorCode u = ''scan_pending''
                        then (Inl (hStatus r, (text_err ''upload accepted, security scan still running'')\<lparr>cePending := Some (scanPendingWait r u)\<rparr>), s1)
                        else if \<not> wuSuccess u then
                          (Inl (hStatus r,
                             cerr_of ((plain_api_err (if wuError u = [] then ''upload rejected'' else wuError u))\<lparr>
                               aeCode := Some (wuErrorCode u),
                               aeRequest := Some \<lparr>reKind = uploadRejectionKind (hStatus r) (wuErrorCode u), reStatus = hStatus r,
                                                  reRetryAfter = retryAfterHeader (hRetryAfter r)\<rparr>\<rparr>)), s1)
                        else (Inr (r, u), s1)))"

text \<open>Whether and how long to wait before another attempt.\<close>

definition upload_retry_delay :: "nat \<Rightarrow> cerr \<Rightarrow> 64 word option" where
  "upload_retry_delay attempt e =
     (if scannerShedWait e \<noteq> None then None
      else if ScanBudgetWait (ceApi e) \<noteq> None then None
      else if IsRateLimited (ceApi e) then Some (RateLimitDelay (int attempt) (RetryAfterHint (ceApi e)))
      else if bodyRejection e then None
      else if IsTransient (ceApi e) \<or> transportRetryable (ceApi e) then Some (retryDelays ! min attempt (length retryDelays - 1))
      else None)"

text \<open>\<open>left\<close> counts the attempts still allowed after this one.\<close>

fun upload_retry :: "cenv \<Rightarrow> 'a attempt \<Rightarrow> nat \<Rightarrow> nat \<Rightarrow> cstate \<Rightarrow> ((int \<times> cerr) + 'a) \<times> cstate" where
  "upload_retry C fn attempt 0 s = fn s"
| "upload_retry C fn attempt (Suc left) s =
     (case fn s of
        (Inr r, s1) \<Rightarrow> (Inr r, s1)
      | (Inl (code, e), s1) \<Rightarrow>
          (case upload_retry_delay attempt e of
             None \<Rightarrow> (Inl (code, e), s1)
           | Some d \<Rightarrow>
               (case wait_for C d s1 of
                  (True, s2) \<Rightarrow> upload_retry C fn (Suc attempt) left s2
                | (False, s2) \<Rightarrow> (Inl (code, canceled_err), s2))))"

definition withUploadRetryStatus :: "cenv \<Rightarrow> 'a attempt \<Rightarrow> 'a attempt" where
  "withUploadRetryStatus C fn s = upload_retry C fn 0 (chunkUploadRetries - 1) s"

definition withUploadRetry :: "cenv \<Rightarrow> 'a attempt \<Rightarrow> cstate \<Rightarrow> (cerr + 'a) \<times> cstate" where
  "withUploadRetry C fn s =
     (case withUploadRetryStatus C fn s of (Inl (code, e), s1) \<Rightarrow> (Inl e, s1) | (Inr r, s1) \<Rightarrow> (Inr r, s1))"

record uploadChunkRequest =
  ucrLocalPath :: string
  ucrRemotePath :: string
  ucrChunkID :: string
  ucrIndex :: nat
  ucrTotalChunks :: nat
  ucrOffset :: int
  ucrLength :: int
  ucrTotalSize :: int
  ucrOptions :: options

definition wire_name :: "cenv \<Rightarrow> options \<Rightarrow> string" where
  "wire_name C opts = (if opt opts ''sealed_key'' \<noteq> [] then uploadWireName C (opt opts ''source'') else opt opts ''source'')"

definition copy_field :: "options \<Rightarrow> string \<Rightarrow> string \<Rightarrow> options \<Rightarrow> options" where
  "copy_field opts k f m = (if opt opts k \<noteq> [] then m(f \<mapsto> opt opts k) else m)"

definition chunk_fields :: "cenv \<Rightarrow> string \<Rightarrow> uploadChunkRequest \<Rightarrow> options" where
  "chunk_fields C csrf part =
     copy_field (ucrOptions part) ''path_tokens_legacy'' ''path_tokens_legacy''
       (copy_field (ucrOptions part) ''path_tokens'' ''path_tokens''
         [''action'' \<mapsto> ''upload'', ''csrf_token'' \<mapsto> csrf, ''path'' \<mapsto> ucrRemotePath part, ''chunkUploadId'' \<mapsto> ucrChunkID part,
          ''chunkIndex'' \<mapsto> show_nat (ucrIndex part), ''totalChunks'' \<mapsto> show_nat (ucrTotalChunks part),
          ''originalName'' \<mapsto> wire_name C (ucrOptions part), ''totalSize'' \<mapsto> show_int (ucrTotalSize part),
          ''chunkSize'' \<mapsto> show_int (ucrLength part)])"

definition putUploadChunk :: "cenv \<Rightarrow> string \<Rightarrow> uploadChunkRequest \<Rightarrow> (http_resp \<times> webUploadResult) attempt" where
  "putUploadChunk C csrf part s =
     (case buildChunkForm C (chunk_fields C csrf part) (Some (ucrLocalPath part)) (ucrOffset part) (ucrLength part) s of
        Inl e \<Rightarrow> (Inl (0, e), s)
      | Inr form \<Rightarrow> postUploadForm C form s)"

definition webUploadFields :: "(string \<times> string) list" where
  "webUploadFields =
     [(''sealed_key'', ''e2ee_sealed_key''), (''encryption_meta'', ''e2ee_encryption_meta''), (''tee_sealed_key'', ''e2ee_tee_sealed_key''),
      (''plaintext_hmac'', ''e2ee_plaintext_hmac''), (''e2ee_display_name'', ''e2ee_display_name''), (''e2ee_path_token'', ''e2ee_path_token''),
      (''path_tokens'', ''path_tokens''), (''path_tokens_legacy'', ''path_tokens_legacy''), (''signature_ed25519'', ''signature_ed25519''),
      (''signature_mldsa'', ''signature_mldsa''), (''signing_pk_ed25519'', ''signing_pk_ed25519''), (''signing_pk_mldsa'', ''signing_pk_mldsa''),
      (''source_mtime'', ''source_mtime''), (''captured_at'', ''captured_at''), (''upload_idempotency_key'', ''upload_idempotency_key'')]"

definition final_fields :: "cenv \<Rightarrow> string \<Rightarrow> string \<Rightarrow> string \<Rightarrow> nat \<Rightarrow> int \<Rightarrow> options \<Rightarrow> options" where
  "final_fields C csrf remotePath chunkID totalChunks sz opts =
     fold (\<lambda>(k, f). copy_field opts k f) webUploadFields
       [''action'' \<mapsto> ''upload'', ''csrf_token'' \<mapsto> csrf, ''path'' \<mapsto> remotePath, ''chunkUploadId'' \<mapsto> chunkID, ''finalize'' \<mapsto> ''1'',
        ''totalChunks'' \<mapsto> show_nat totalChunks, ''originalName'' \<mapsto> wire_name C opts, ''totalSize'' \<mapsto> show_int sz,
        ''conflict_strategy'' \<mapsto> (if opt opts ''force'' = ''true'' then ''block'' else ''replace'')]"

definition duplicateUnderForce :: "cerr \<Rightarrow> options \<Rightarrow> cerr" where
  "duplicateUnderForce e opts =
     (if opt opts ''force'' \<noteq> ''true'' then e
      else if aeCode (ceApi e) \<noteq> Some ''duplicate'' then e
      else cerr_of ((plain_api_err ''a file with that name already exists'')\<lparr>aeCode := Some ''duplicate'', aeRequest := aeRequest (ceApi e)\<rparr>))"

text \<open>How the loop of the final request goes on after an answer: not at all, or after a wait, with the deadline
  and the count of waits for the scan budget.\<close>

definition scan_wait :: "cenv \<Rightarrow> int \<Rightarrow> nat \<Rightarrow> cerr \<Rightarrow> (64 word \<times> int \<times> nat) option" where
  "scan_wait C deadline budgetWaits e =
     (case cePending e of
        Some w \<Rightarrow> Some (w, deadline, budgetWaits)
      | None \<Rightarrow>
          (case ScanBudgetWait (ceApi e) of
             Some budget \<Rightarrow>
               if \<not> cParkScanBudget C \<and> budgetWaits < scanBudgetMaxWaits \<and> (cWaitOutScanBudget C \<or> sint budget \<le> sint scanPendingMaxWait)
               then Some (budget, deadline + sint budget, budgetWaits + 1)
               else map_option (\<lambda>w. (w, deadline, budgetWaits)) (scannerShedWait e)
           | None \<Rightarrow> map_option (\<lambda>w. (w, deadline, budgetWaits)) (scannerShedWait e)))"

text \<open>One round: the outcome, or the deadline, the count and the state of the next round.\<close>

definition finalize_round ::
  "cenv \<Rightarrow> request \<Rightarrow> int \<Rightarrow> nat \<Rightarrow> cstate \<Rightarrow> ((cerr + http_resp \<times> webUploadResult) \<times> cstate) + int \<times> nat \<times> cstate" where
  "finalize_round C form deadline budgetWaits s =
     (case withUploadRetryStatus C (postUploadForm C form) s of
        (Inr r, s1) \<Rightarrow> Inl (Inr r, s1)
      | (Inl (code, e), s1) \<Rightarrow>
          (case scan_wait C deadline budgetWaits e of
             None \<Rightarrow> Inl (Inl e, s1)
           | Some (w, deadline1, waits1) \<Rightarrow>
               if cNow C (csHist s1) > deadline1
               then Inl (Inl (cerr_of ((plain_api_err ''security scan did not finish'')\<lparr>
                       aeRequest := Some \<lparr>reKind = KindTransient, reStatus = code, reRetryAfter = 0\<rparr>\<rparr>)), s1)
               else (case wait_for C w s1 of
                       (True, s2) \<Rightarrow> Inr (deadline1, waits1, s2)
                     | (False, s2) \<Rightarrow> Inl (Inl canceled_err, s2))))"

partial_function (option) finalize_loop ::
  "cenv \<Rightarrow> request \<Rightarrow> int \<Rightarrow> nat \<Rightarrow> cstate \<Rightarrow> ((cerr + http_resp \<times> webUploadResult) \<times> cstate) option" where
  "finalize_loop C form deadline budgetWaits s =
     (case finalize_round C form deadline budgetWaits s of
        Inl r \<Rightarrow> Some r
      | Inr (deadline1, waits1, s1) \<Rightarrow> finalize_loop C form deadline1 waits1 s1)"

definition finalizeChunkedUpload ::
  "cenv \<Rightarrow> string \<Rightarrow> string \<Rightarrow> string \<Rightarrow> nat \<Rightarrow> int \<Rightarrow> options \<Rightarrow> cstate \<Rightarrow> ((cerr + Response) \<times> cstate) option" where
  "finalizeChunkedUpload C csrf remotePath chunkID totalChunks sz opts s =
     (let name = opt opts ''source'';
          form = ReqForm (final_fields C csrf remotePath chunkID totalChunks sz opts) None;
          deadline = cNow C (csHist s) + sint scanPendingMaxWait
      in case finalize_loop C form deadline 0 s of
           None \<Rightarrow> None
         | Some (Inl e, s1) \<Rightarrow> Some (Inl (duplicateUnderForce e opts), s1)
         | Some (Inr (r, u), s1) \<Rightarrow>
             (case jReceipt C \<lparr>rcStoredPath = joinRemotePath remotePath name, rcName = name, rcSize = sz, rcNodeID = wuNodeID u,
                               rcETag = (if jHexOk C (wuETag u) then Some (wuETag u) else None)\<rparr> of
                None \<Rightarrow> Some (Inl (text_err ''failed to render upload result''), s1)
              | Some payload \<Rightarrow>
                  Some (Inr \<lparr>rsSuccess = True, rsMessage = [], rsErrorCode = [], rsStatus = hStatus r, rsRaw = payload\<rparr>, s1)))"

definition chunk_part :: "string \<Rightarrow> string \<Rightarrow> string \<Rightarrow> nat \<Rightarrow> int \<Rightarrow> options \<Rightarrow> nat \<Rightarrow> uploadChunkRequest" where
  "chunk_part lp remotePath chunkID totalChunks sz opts k =
     (let offset = int k * uploadChunkSize; len = (if sz - offset < uploadChunkSize then sz - offset else uploadChunkSize) in
      \<lparr>ucrLocalPath = lp, ucrRemotePath = remotePath, ucrChunkID = chunkID, ucrIndex = k, ucrTotalChunks = totalChunks,
       ucrOffset = offset, ucrLength = len, ucrTotalSize = sz, ucrOptions = opts\<rparr>)"

text \<open>One chunk: a permanent rejection of the first one renews the session once.\<close>

definition put_chunk :: "cenv \<Rightarrow> uploadChunkRequest \<Rightarrow> string \<Rightarrow> cstate \<Rightarrow> (cerr + string) \<times> cstate" where
  "put_chunk C part csrf s =
     (let failed = (\<lambda>e. wrap_cerr (''chunk '' @ show_nat (Suc (ucrIndex part))) e) in
      case withUploadRetry C (putUploadChunk C csrf part) s of
        (Inr _, s1) \<Rightarrow> (Inr csrf, s1)
      | (Inl e, s1) \<Rightarrow>
          if ucrIndex part = 0 \<and> IsPermanentRequest (ceApi e) then
            (case uploadSession C True s1 of
               (Inl e2, s2) \<Rightarrow> (Inl e2, s2)
             | (Inr csrf2, s2) \<Rightarrow>
                 (case withUploadRetry C (putUploadChunk C csrf2 part) s2 of
                    (Inr _, s3) \<Rightarrow> (Inr csrf2, s3)
                  | (Inl e3, s3) \<Rightarrow> (Inl (failed e3), s3)))
          else (Inl (failed e), s1))"

fun put_chunks :: "cenv \<Rightarrow> (nat \<Rightarrow> uploadChunkRequest) \<Rightarrow> nat list \<Rightarrow> string \<Rightarrow> cstate \<Rightarrow> (cerr + string) \<times> cstate" where
  "put_chunks C part [] csrf s = (Inr csrf, s)"
| "put_chunks C part (k # ks) csrf s =
     (case put_chunk C (part k) csrf s of
        (Inl e, s1) \<Rightarrow> (Inl e, s1)
      | (Inr csrf1, s1) \<Rightarrow> put_chunks C part ks csrf1 s1)"

definition total_chunks :: "int \<Rightarrow> nat" where
  "total_chunks sz = nat (max ((sz + uploadChunkSize - 1) div uploadChunkSize) 1)"

definition uploadChunked :: "cenv \<Rightarrow> string \<Rightarrow> string \<Rightarrow> int \<Rightarrow> options \<Rightarrow> cstate \<Rightarrow> ((cerr + Response) \<times> cstate) option" where
  "uploadChunked C lp remotePath sz opts s =
     (case uploadSession C False s of
        (Inl e, s1) \<Rightarrow> Some (Inl e, s1)
      | (Inr csrf, s1) \<Rightarrow>
          (case cChunkID C of
             None \<Rightarrow> Some (Inl (text_err ''failed to mint chunk upload id''), s1)
           | Some chunkID \<Rightarrow>
               (let n = total_chunks sz in
                case put_chunks C (chunk_part lp remotePath chunkID n sz opts) [0..<n] csrf s1 of
                  (Inl e, s2) \<Rightarrow> Some (Inl e, s2)
                | (Inr csrf2, s2) \<Rightarrow> finalizeChunkedUpload C csrf2 remotePath chunkID n sz opts s2)))"

section \<open>Upload\<close>

text \<open>A random UUID of version 4; without random bytes, the time.\<close>

definition NewUploadIdempotencyKey :: "cenv \<Rightarrow> history \<Rightarrow> string" where
  "NewUploadIdempotencyKey C h =
     (case cRand16 C of
        None \<Rightarrow> ''ul-'' @ show_int (cNow C h)
      | Some b \<Rightarrow>
          (let b1 = b[6 := or (and (b ! 6) 0x0f) 0x40]; b2 = b1[8 := or (and (b1 ! 8) 0x3f) 0x80];
               part = (\<lambda>i j. hex_encode (take (j - i) (drop i b2)))
           in part 0 4 @ ''-'' @ part 4 6 @ ''-'' @ part 6 8 @ ''-'' @ part 8 10 @ ''-'' @ part 10 16))"

definition upload_options_of :: "cenv \<Rightarrow> history \<Rightarrow> string \<Rightarrow> string \<Rightarrow> options option \<Rightarrow> options" where
  "upload_options_of C h base remotePath extra =
     (let m0 = [''source'' \<mapsto> base, ''target'' \<mapsto> remotePath];
          m1 = (case extra of
                  None \<Rightarrow> m0
                | Some x \<Rightarrow>
                    (let x1 = x(''_original_name'' := None) in
                     (case x ''_original_name'' of Some nm \<Rightarrow> m0(''source'' \<mapsto> nm) | None \<Rightarrow> m0) ++ x1))
      in if opt m1 ''upload_idempotency_key'' = [] then m1(''upload_idempotency_key'' \<mapsto> NewUploadIdempotencyKey C h) else m1)"

definition UploadFile :: "cenv \<Rightarrow> string \<Rightarrow> string \<Rightarrow> string \<Rightarrow> options option \<Rightarrow> cstate \<Rightarrow> ((cerr + Response) \<times> cstate) option" where
  "UploadFile C lp base remotePath extra s =
     (let opts = upload_options_of C (csHist s) base remotePath extra in
      case cFile C (csHist s) lp of
        None \<Rightarrow> Some (Inl (text_err ''failed to stat file''), s)
      | Some data \<Rightarrow>
          (let sz = int (length data) in
           if sz > uploadSingleBodyMaxBytes then uploadChunked C lp remotePath sz opts s
           else case uploadWholeBody C lp opts s of
                  (Inl e, s1) \<Rightarrow> if bodyTooLarge e then uploadChunked C lp remotePath sz opts s1 else Some (Inl e, s1)
                | (Inr resp, s1) \<Rightarrow> Some (Inr resp, s1)))"

section \<open>Downloads\<close>

definition no_metadata :: DownloadResult where
  "no_metadata = \<lparr>drE2EE = False, drSealedKey = [], drEncryptionMeta = [], drSignatureEd25519 = [], drSignatureMldsa = [],
     drSigningPkEd25519 = [], drSigningPkMldsa = [], drSignedBy = [], drTEESignatureEd25519 = [], drTEESignatureMldsa = [],
     drTEESigningPkEd25519 = [], drTEESigningPkMldsa = []\<rparr>"

text \<open>\<open>jMeta\<close> decodes base64 and JSON.\<close>

definition parseDownloadMetadata :: "cenv \<Rightarrow> string \<Rightarrow> DownloadResult" where
  "parseDownloadMetadata C metaHeader =
     (if metaHeader = [] then no_metadata
      else case jMeta C metaHeader of None \<Rightarrow> no_metadata | Some r \<Rightarrow> r)"

definition downloadRejection :: "cenv \<Rightarrow> http_resp \<Rightarrow> bytes \<Rightarrow> cerr" where
  "downloadRejection C r body =
     (if body = [] then status_err r (text_err ''download failed'')
      else case jResponse C body of
             Some resp \<Rightarrow> status_err r (api_error_of (rsErrorCode resp) (if rsMessage resp = [] then ''download failed'' else rsMessage resp))
           | None \<Rightarrow> status_err r (rejectionError C (hStatus r) body))"

text \<open>A sink takes the body of the response and says how it went.\<close>

type_synonym sink = "http_resp \<Rightarrow> cstate \<Rightarrow> ((int \<times> cerr) + bytes) \<times> cstate"

definition tripped_of :: "http_resp \<Rightarrow> bool" where
  "tripped_of r = (case hBody r of Inl (e, t) \<Rightarrow> t | Inr _ \<Rightarrow> False)"

definition stream_once :: "cenv \<Rightarrow> string \<Rightarrow> options \<Rightarrow> sink \<Rightarrow> (DownloadResult \<times> bytes) attempt" where
  "stream_once C cmd opts sink s =
     (case send C (ReqDownload cmd opts) s of
        (Inl (e, tripped), s1) \<Rightarrow> (Inl (0, classify tripped (wrap_cerr ''request failed'' (cerr_of e))), s1)
      | (Inr r, s1) \<Rightarrow>
          if hStatus r \<noteq> 200 \<or> hJson r then
            (let body = (case hBody r of Inl _ \<Rightarrow> take ResponseSizeLimit (hPartial r) | Inr b \<Rightarrow> take ResponseSizeLimit b) in
             (Inl (hStatus r, classify (tripped_of r) (downloadRejection C r body)), s1))
          else (case sink r s1 of
                  (Inl (status, e), s2) \<Rightarrow> (Inl (status, classify (tripped_of r) e), s2)
                | (Inr data, s2) \<Rightarrow> (Inr (parseDownloadMetadata C (hMeta r), data), s2)))"

definition streamDownload :: "cenv \<Rightarrow> string \<Rightarrow> options \<Rightarrow> sink \<Rightarrow> cstate \<Rightarrow> (cerr + DownloadResult \<times> bytes) \<times> cstate" where
  "streamDownload C cmd opts sink s = withRetry C (stream_once C cmd opts sink) retryDelays s"

text \<open>The data goes to a temporary file beside the target, which replaces the target when it is complete.\<close>

definition fileSink :: "cenv \<Rightarrow> string \<Rightarrow> sink" where
  "fileSink C lp r s =
     (let h = csHist s;
          got = (case hBody r of Inl _ \<Rightarrow> hPartial r | Inr b \<Rightarrow> b);
          failed = (\<lambda>what e. (Inl (0, wrap_cerr what (cerr_of e)), s)) in
      case cDisk C h ''create'' of
        Some e \<Rightarrow> failed ''failed to create temp file'' e
      | None \<Rightarrow>
          if cCanceled C h then (Inl (0, wrap_cerr ''download cancelled'' canceled_err), s)
          else if got \<noteq> [] \<and> cDisk C h ''write'' \<noteq> None then failed ''failed to write file'' (the (cDisk C h ''write''))
          else (case hBody r of
                  Inl (e, t) \<Rightarrow> failed ''failed to read response'' e
                | Inr data \<Rightarrow>
                    (case cDisk C h ''close'' of
                       Some e \<Rightarrow> failed ''failed to finalize download'' e
                     | None \<Rightarrow>
                         (case cDisk C h ''rename'' of
                            Some e \<Rightarrow> failed ''failed to move downloaded file'' e
                          | None \<Rightarrow> (Inr data, s\<lparr>csLocal := (csLocal s)(lp \<mapsto> data)\<rparr>)))))"

definition download_options :: "string \<Rightarrow> options option \<Rightarrow> options" where
  "download_options remotePath extra = [''source'' \<mapsto> remotePath] ++ (case extra of None \<Rightarrow> Map.empty | Some x \<Rightarrow> x)"

definition fst_result :: "(cerr + 'a \<times> 'b) \<times> cstate \<Rightarrow> (cerr + 'a) \<times> cstate" where
  "fst_result y = (case y of (Inl e, s) \<Rightarrow> (Inl e, s) | (Inr (a, b), s) \<Rightarrow> (Inr a, s))"

definition DownloadFile :: "cenv \<Rightarrow> string \<Rightarrow> string \<Rightarrow> options option \<Rightarrow> cstate \<Rightarrow> (cerr + DownloadResult) \<times> cstate" where
  "DownloadFile C remotePath lp extra s =
     fst_result (streamDownload C ''dl'' (download_options remotePath extra) (fileSink C lp) s)"

definition DownloadCommand :: "cenv \<Rightarrow> string \<Rightarrow> options \<Rightarrow> string \<Rightarrow> cstate \<Rightarrow> (cerr + DownloadResult) \<times> cstate" where
  "DownloadCommand C command opts lp s = fst_result (streamDownload C command opts (fileSink C lp) s)"

definition memory_limit :: nat where "memory_limit = 600 * 1024 * 1024"

definition memory_sink :: sink where
  "memory_sink r s =
     (case hBody r of
        Inl (e, t) \<Rightarrow>
          if length (hPartial r) > memory_limit then (Inl (200, (text_err ''file exceeds in-memory download limit'')\<lparr>ceTooLarge := True\<rparr>), s)
          else (Inl (0, wrap_cerr ''failed to read response body'' (cerr_of e)), s)
      | Inr body \<Rightarrow>
          (let got = take (memory_limit + 1) body in
           if length got > memory_limit then (Inl (200, (text_err ''file exceeds in-memory download limit'')\<lparr>ceTooLarge := True\<rparr>), s)
           else (Inr got, s)))"

definition DownloadToMemory :: "cenv \<Rightarrow> string \<Rightarrow> options option \<Rightarrow> cstate \<Rightarrow> (cerr + bytes \<times> DownloadResult) \<times> cstate" where
  "DownloadToMemory C remotePath extra s =
     (case streamDownload C ''dl'' (download_options remotePath extra) memory_sink s of
        (Inl e, s1) \<Rightarrow> (Inl e, s1)
      | (Inr (r, data), s1) \<Rightarrow> (Inr (data, r), s1))"

section \<open>Actions\<close>

text \<open>The body of a reply comes back even when its status is an error.\<close>

definition postAction :: "cenv \<Rightarrow> string \<Rightarrow> options \<Rightarrow> cstate \<Rightarrow> bytes \<times> cerr option \<times> cstate" where
  "postAction C act body s =
     (case send C (ReqAction act body) s of
        (Inl (e, tripped), s1) \<Rightarrow> ([], Some (cerr_of e), s1)
      | (Inr r, s1) \<Rightarrow>
          (case read_body r of
             Inl (e, tripped) \<Rightarrow> ([], Some (cerr_of e), s1)
           | Inr b \<Rightarrow>
               if hStatus r \<ge> 400 then (b, Some (text_err (''action '' @ act @ '' returned '' @ show_int (hStatus r))), s1)
               else (b, None, s1)))"

definition DeviceAuthorize :: "cenv \<Rightarrow> string \<Rightarrow> string \<Rightarrow> bool \<Rightarrow> cstate \<Rightarrow> (cerr + DeviceAuthorizeResult) \<times> cstate" where
  "DeviceAuthorize C deviceLabel ephPubkey background s =
     (let b0 = [''device_label'' \<mapsto> deviceLabel];
          b1 = (if ephPubkey \<noteq> [] then b0(''eph_pubkey'' \<mapsto> ephPubkey) else b0);
          b2 = (if background then b1(''background'' \<mapsto> ''1'') else b1)
      in case postAction C ''device-authorize'' b2 s of
           (raw, postErr, s1) \<Rightarrow>
             (case if raw \<noteq> [] then jAuthorize C raw else None of
                Some r \<Rightarrow> (Inr r, s1)
              | None \<Rightarrow> (Inl (case postErr of Some e \<Rightarrow> e | None \<Rightarrow> text_err ''empty device-authorize response''), s1)))"

definition DeviceToken :: "cenv \<Rightarrow> string \<Rightarrow> cstate \<Rightarrow> (cerr + DeviceTokenResult) \<times> cstate" where
  "DeviceToken C deviceCode s =
     (case postAction C ''device-token'' [''device_code'' \<mapsto> deviceCode] s of
        (raw, postErr, s1) \<Rightarrow>
          (case if raw \<noteq> [] then jToken C raw else None of
             Some r \<Rightarrow> (Inr r, s1)
           | None \<Rightarrow> (Inl (case postErr of Some e \<Rightarrow> e | None \<Rightarrow> text_err ''empty device-token response''), s1)))"

definition RevokeDeviceKey :: "cenv \<Rightarrow> string \<Rightarrow> cstate \<Rightarrow> (cerr + unit) \<times> cstate" where
  "RevokeDeviceKey C identifier s =
     (case postAction C ''account-revoke-cli-device'' [''identifier'' \<mapsto> identifier] s of
        (raw, Some e, s1) \<Rightarrow> (Inl e, s1)
      | (raw, None, s1) \<Rightarrow>
          (case jSuccess C raw of
             None \<Rightarrow> (Inl (text_err ''invalid reply''), s1)
           | Some ok \<Rightarrow> if ok then (Inr (), s1) else (Inl (text_err ''device key revoke refused''), s1)))"

section \<open>Attestation of the scanner\<close>

definition TeeAttestationRetryDelays :: "64 word list" where "TeeAttestationRetryDelays = [second, 2 * second, 4 * second]"
definition maxTeeAttestationWait :: "64 word" where "maxTeeAttestationWait = 30 * second"

definition smax :: "64 word \<Rightarrow> 64 word \<Rightarrow> 64 word" where
  "smax a b = (if sint a < sint b then b else a)"

definition attestationFailureDetail :: "cenv \<Rightarrow> bytes \<Rightarrow> string" where
  "attestationFailureDetail C body =
     (case jFailure C body of
        None \<Rightarrow> []
      | Some (err, errorCode) \<Rightarrow>
          (let code = (if errorCode = [] then err else errorCode) in
           if code = [] \<or> length code > 64 \<or> list_ex (\<lambda>c. c = CHR '' '' \<or> c = CHR ''\<newline>'' \<or> c = CHR 0x0D \<or> c = CHR 0x09) code then []
           else '' ('' @ code @ '')''))"

definition request_err :: "ErrorKind \<Rightarrow> int \<Rightarrow> 64 word \<Rightarrow> cerr \<Rightarrow> cerr" where
  "request_err k status retryAfter e = e\<lparr>ceApi := (ceApi e)\<lparr>aeRequest := Some \<lparr>reKind = k, reStatus = status, reRetryAfter = retryAfter\<rparr>\<rparr>\<rparr>"

definition fetchTeeAttestationOnce :: "cenv \<Rightarrow> cstate \<Rightarrow> (cerr + TeeAttestationResponse) \<times> cstate" where
  "fetchTeeAttestationOnce C s =
     (case send C ReqAttest s of
        (Inl (e, tripped), s1) \<Rightarrow>
          (Inl (if transportRetryable e then request_err KindTransient 0 0 (wrap_cerr ''tee attestation request failed'' (cerr_of e))
                else cerr_of e), s1)
      | (Inr r, s1) \<Rightarrow>
          (case read_body r of
             Inl (e, tripped) \<Rightarrow> (Inl (request_err KindTransient (hStatus r) 0 (wrap_cerr ''tee attestation read failed'' (cerr_of e))), s1)
           | Inr body \<Rightarrow>
               if hStatus r < 200 \<or> hStatus r > 299 then
                 (Inl (status_err r (text_err (''tee_attestation_unanswered'' @ attestationFailureDetail C body))), s1)
               else (case jAttest C body of
                       None \<Rightarrow> (Inl (request_err KindTransient (hStatus r) 0 (text_err ''tee_attestation_unanswered'')), s1)
                     | Some a \<Rightarrow>
                         if \<not> atSuccess a then
                           (Inl (request_err KindTransient (hStatus r) 0 (text_err (''tee_attestation_unanswered'' @ attestationFailureDetail C body))), s1)
                         else if atAvailable a \<and> atBusy a then
                           (Inl (request_err KindTransient (hStatus r) (word_of_int (max (atRetryAfterMs a) 0) * 1000000)
                              (text_err ''tee_attestation_unanswered'')), s1)
                         else (Inr a, s1))))"

definition attestation_wait :: "64 word \<Rightarrow> cerr \<Rightarrow> 64 word" where
  "attestation_wait d e = smax d (smin (RetryAfterHint (ceApi e)) maxTeeAttestationWait)"

text \<open>One attempt more than there are delays.\<close>

fun fetch_attestation :: "cenv \<Rightarrow> 64 word list \<Rightarrow> cstate \<Rightarrow> (cerr + TeeAttestationResponse) \<times> cstate" where
  "fetch_attestation C [] s = fetchTeeAttestationOnce C s"
| "fetch_attestation C (d # ds) s =
     (case fetchTeeAttestationOnce C s of
        (Inr a, s1) \<Rightarrow> (Inr a, s1)
      | (Inl e, s1) \<Rightarrow>
          if \<not> (IsTransient (ceApi e) \<or> IsRateLimited (ceApi e)) \<or> cCanceled C (csHist s1) then (Inl e, s1)
          else (case wait_for C (attestation_wait d e) s1 of
                  (True, s2) \<Rightarrow> fetch_attestation C ds s2
                | (False, s2) \<Rightarrow> (Inl canceled_err, s2)))"

definition FetchTeeAttestation :: "cenv \<Rightarrow> cstate \<Rightarrow> (cerr + TeeAttestationResponse) \<times> cstate" where
  "FetchTeeAttestation C s = fetch_attestation C TeeAttestationRetryDelays s"

definition MayBeStaleTeeSeal :: "cerr \<Rightarrow> bool" where
  "MayBeStaleTeeSeal e \<longleftrightarrow> aeCode (ceApi e) = Some ''scanner_unavailable''"

end
