(* ===== verification/ApiClientLaws.thy ===== *)
theory ApiClientLaws
  imports ApiClient
begin

text \<open>
  The laws of the client's uploads: which requests an upload sends, what the server has accepted when it
  reports success, how often a request is repeated, and that waiting for the security scan ends.
\<close>

section \<open>Attempts and repetition\<close>

text \<open>
  A relation between the states before and after, which composes and which a wait satisfies: if every
  attempt satisfies it, so do the loops that repeat attempts.
\<close>

locale client_rel =
  fixes rel :: "cstate \<Rightarrow> cstate \<Rightarrow> bool"
  assumes rel_refl: "rel s s"
    and rel_trans: "rel s s1 \<Longrightarrow> rel s1 s2 \<Longrightarrow> rel s s2"
    and rel_wait: "rel s (snd (wait_for C d s))"
begin

lemma rel_withRetry:
  assumes "\<And>s. rel s (snd (fn s))"
  shows "rel s (snd (withRetry C fn ds s))"
proof (induction ds arbitrary: s)
  case Nil
  obtain r s1 where f: "fn s = (r, s1)" by fastforce
  then show ?case using assms [of s] by (cases r) (auto split: prod.split)
next
  case (Cons d ds)
  obtain r s1 where f: "fn s = (r, s1)" by fastforce
  obtain b s2 where w: "wait_for C d s1 = (b, s2)" by fastforce
  have "rel s s1" "rel s s2" "rel s (snd (withRetry C fn ds s2))"
    using assms [of s] rel_wait [of s1 C d] Cons [of s2] rel_trans f w by (metis snd_conv)+
  then show ?case using f w by (cases r; cases b) (auto split: prod.split)
qed

text \<open>If only failed attempts are known to satisfy the relation: the outcome is a failure, or that of an attempt
  made after such failures.\<close>

lemma withRetry_outcome:
  assumes "\<And>s x s1. fn s = (Inl x, s1) \<Longrightarrow> rel s s1"
  shows "case withRetry C fn ds s of
      (Inl e, s') \<Rightarrow> rel s s'
    | (Inr r, s') \<Rightarrow> \<exists>s0. rel s s0 \<and> fn s0 = (Inr r, s')"
proof (induction ds arbitrary: s)
  case Nil
  show ?case using assms [of s] rel_refl [of s] by (auto split: prod.split sum.split)
next
  case (Cons d ds)
  obtain r s1 where f: "fn s = (r, s1)" by fastforce
  show ?case
  proof (cases r)
    case (Inr x)
    then show ?thesis using f rel_refl by auto
  next
    case (Inl x)
    obtain code e where x: "x = (code, e)" by fastforce
    obtain b s2 where w: "wait_for C d s1 = (b, s2)" by fastforce
    have s1: "rel s s1" "rel s s2" using assms f Inl rel_wait [of s1 C d] rel_trans w by (metis snd_conv)+
    have "case withRetry C fn ds s2 of (Inl e, s') \<Rightarrow> rel s s' | (Inr r, s') \<Rightarrow> \<exists>s0. rel s s0 \<and> fn s0 = (Inr r, s')"
      using Cons [of s2] s1(2) rel_trans by (fastforce split: prod.splits sum.splits)
    then show ?thesis using f Inl x w s1 by (cases b) auto
  qed
qed

lemma rel_upload_retry:
  assumes "\<And>s. rel s (snd (fn s))"
  shows "rel s (snd (upload_retry C fn k left s))"
proof (induction left arbitrary: k s)
  case 0
  then show ?case using assms by simp
next
  case (Suc left)
  obtain r s1 where f: "fn s = (r, s1)" by fastforce
  have s1: "rel s s1" using assms [of s] f by simp
  have wait: "rel s s2 \<and> rel s (snd (upload_retry C fn j left s2))" if "wait_for C d s1 = (b, s2)" for d b s2 j
    using s1 rel_wait [of s1 C d] Suc.IH rel_trans that by (metis snd_conv)
  show ?case
  proof (cases r)
    case (Inl x)
    show ?thesis using f Inl s1 wait by (auto split: prod.split option.split bool.split)
  qed (use f s1 in auto)
qed

lemma rel_withUploadRetry:
  assumes "\<And>s. rel s (snd (fn s))"
  shows "rel s (snd (withUploadRetry C fn s))"
  using rel_upload_retry [OF assms, of s C 0 "chunkUploadRetries - 1"]
  by (auto simp: withUploadRetry_def withUploadRetryStatus_def split: prod.split sum.split)

lemma rel_finalize_round:
  assumes "\<And>s. rel s (snd (postUploadForm C form s))"
  shows "case finalize_round C form dl k s of Inl y \<Rightarrow> rel s (snd y) | Inr (dl1, k1, s1) \<Rightarrow> rel s s1"
proof -
  obtain r s1 where u: "withUploadRetryStatus C (postUploadForm C form) s = (r, s1)" by fastforce
  have s1: "rel s s1" using rel_upload_retry [OF assms, of s C 0] u by (metis withUploadRetryStatus_def snd_conv)
  have s2: "rel s s2" if "wait_for C w s1 = (b, s2)" for w b s2 using s1 rel_wait [of s1 C w] rel_trans that by (metis snd_conv)
  show ?thesis
    using u s1 s2 by (cases r) (auto simp: finalize_round_def split: prod.split option.split bool.split)
qed

lemma rel_finalize_loop:
  assumes post: "\<And>s. rel s (snd (postUploadForm C form s))" and run: "finalize_loop C form dl k s = Some y"
  shows "rel s (snd y)"
proof -
  have "C' = C \<longrightarrow> form' = form \<longrightarrow> rel s (snd y)" if "finalize_loop C' form' dl k s = Some y" for C' form' dl k s y
    using that
  proof (induction rule: finalize_loop.raw_induct [rotated, consumes 1, case_names step])
    case (step rec C' form' dl k s y)
    show ?case
    proof (intro impI)
      assume eq: "C' = C" "form' = form"
      note round = rel_finalize_round [OF post, where dl = dl and k = k and s = s]
      show "rel s (snd y)"
      proof (cases "finalize_round C form dl k s")
        case (Inl r)
        then show ?thesis using step(2) round eq by simp
      next
        case (Inr r)
        then obtain dl1 k1 s1 where r: "finalize_round C form dl k s = Inr (dl1, k1, s1)" by (cases r) auto
        then have "rec C form dl1 k1 s1 = Some y" "rel s s1" using step(2) round eq by simp_all
        then show ?thesis using step(1) rel_trans by blast
      qed
    qed
  qed
  with run show ?thesis by blast
qed

end

text \<open>The requests of a history, and those an operation sends.\<close>

fun asks :: "history \<Rightarrow> request list" where
  "asks [] = []"
| "asks (Sent r a # h) = r # asks h"
| "asks (Waited d # h) = asks h"

lemma asks_append [simp]: "asks (h @ h') = asks h @ asks h'"
  by (induction h rule: asks.induct) auto

definition sends :: "(request \<Rightarrow> bool) \<Rightarrow> cstate \<Rightarrow> cstate \<Rightarrow> bool" where
  "sends Q s s' \<longleftrightarrow> (\<exists>ev. csHist s' = csHist s @ ev \<and> list_all Q (asks ev))"

interpretation sending: client_rel "sends Q" for Q
proof
  show "sends Q s s2" if "sends Q s s1" "sends Q s1 s2" for s s1 s2
    using that by (auto simp: sends_def)
qed (auto simp: sends_def wait_for_def Let_def)

lemma sends_send: "Q r \<Longrightarrow> sends Q s (snd (send C r s))"
  by (simp add: send_def sends_def Let_def)

lemma post_state: "snd (postUploadForm C form s) = snd (send C form s)"
  by (simp add: postUploadForm_def Let_def split: prod.split sum.split option.split)

section \<open>What the server accepted\<close>

definition form_ok :: "cenv \<Rightarrow> answer \<Rightarrow> bool" where
  "form_ok C a =
     (case a of
        Inl _ \<Rightarrow> False
      | Inr r \<Rightarrow>
          (case read_body r of
             Inl _ \<Rightarrow> False
           | Inr body \<Rightarrow>
               body \<noteq> [] \<and> (case jUpload C body of
                               None \<Rightarrow> False
                             | Some u \<Rightarrow> wuSuccess u \<and> \<not> (hStatus r = 202 \<and> wuErrorCode u = ''scan_pending''))))"

definition is_form :: "request \<Rightarrow> bool" where
  "is_form r = (case r of ReqForm f d \<Rightarrow> True | _ \<Rightarrow> False)"

fun accepted :: "cenv \<Rightarrow> history \<Rightarrow> request list" where
  "accepted C [] = []"
| "accepted C (Sent r a # h) = (if is_form r \<and> form_ok C a then r # accepted C h else accepted C h)"
| "accepted C (Waited d # h) = accepted C h"

lemma accepted_append [simp]: "accepted C (h @ h') = accepted C h @ accepted C h'"
  by (induction C h rule: accepted.induct) auto

text \<open>An attempt to have a form accepted, with at most \<open>n\<close> requests.\<close>

definition delivers :: "cenv \<Rightarrow> request \<Rightarrow> nat \<Rightarrow> 'a attempt \<Rightarrow> bool" where
  "delivers C form n fn \<longleftrightarrow> (\<forall>s. \<exists>ev. csHist (snd (fn s)) = csHist s @ ev \<and> length (asks ev) \<le> n \<and> csSession (snd (fn s)) = csSession s \<and>
     accepted C ev = (case fst (fn s) of Inr _ \<Rightarrow> [form] | Inl _ \<Rightarrow> []))"

lemma post_delivers:
  assumes "is_form form"
  shows "delivers C form 1 (postUploadForm C form)"
  unfolding delivers_def
proof
  fix s :: cstate
  let ?a = "cAnswer C (csHist s) form"
  have "csHist (snd (postUploadForm C form s)) = csHist s @ [Sent form ?a] \<and> csSession (snd (postUploadForm C form s)) = csSession s"
    by (simp add: post_state send_def Let_def)
  moreover have "form_ok C ?a = (case fst (postUploadForm C form s) of Inr _ \<Rightarrow> True | Inl _ \<Rightarrow> False)"
    by (auto simp: postUploadForm_def form_ok_def send_def Let_def split: sum.split option.split)
  ultimately show "\<exists>ev. csHist (snd (postUploadForm C form s)) = csHist s @ ev \<and> length (asks ev) \<le> 1 \<and>
      csSession (snd (postUploadForm C form s)) = csSession s \<and>
      accepted C ev = (case fst (postUploadForm C form s) of Inr _ \<Rightarrow> [form] | Inl _ \<Rightarrow> [])"
    using assms by (intro exI [of _ "[Sent form ?a]"]) (auto split: sum.splits)
qed

lemma retry_delivers:
  assumes "delivers C form n fn"
  shows "delivers C form (n * Suc left) (upload_retry C fn k left)"
proof (induction left arbitrary: k)
  case 0
  then show ?case using assms by (simp add: delivers_def)
next
  case (Suc left)
  show ?case
    unfolding delivers_def
  proof
    fix s
    obtain r s1 where f: "fn s = (r, s1)" by fastforce
    obtain ev where ev: "csHist s1 = csHist s @ ev" "length (asks ev) \<le> n" "csSession s1 = csSession s"
      "accepted C ev = (case r of Inr _ \<Rightarrow> [form] | Inl _ \<Rightarrow> [])"
      using assms f by (auto simp: delivers_def dest: spec [of _ s])
    let ?goal = "\<lambda>res s'. \<exists>ev. csHist s' = csHist s @ ev \<and> length (asks ev) \<le> n * Suc (Suc left) \<and> csSession s' = csSession s \<and>
      accepted C ev = (case res of Inr _ \<Rightarrow> [form] | Inl _ \<Rightarrow> [])"
    have stop: "?goal r s1" using ev by (intro exI [of _ ev]) auto
    have again: "?goal (fst (upload_retry C fn (Suc k) left s2)) (snd (upload_retry C fn (Suc k) left s2)) \<and> ?goal (Inl x) s2"
      if "wait_for C d s1 = (b, s2)" "r = Inl y" for d b s2 x y
    proof -
      have s2: "csHist s2 = csHist s @ ev @ [Waited d]" "csSession s2 = csSession s"
        using that(1) ev by (auto simp: wait_for_def Let_def)
      obtain ev2 where "csHist (snd (upload_retry C fn (Suc k) left s2)) = csHist s2 @ ev2" "length (asks ev2) \<le> n * Suc left"
        "csSession (snd (upload_retry C fn (Suc k) left s2)) = csSession s2"
        "accepted C ev2 = (case fst (upload_retry C fn (Suc k) left s2) of Inr _ \<Rightarrow> [form] | Inl _ \<Rightarrow> [])"
        using Suc.IH [of "Suc k"] by (auto simp: delivers_def dest: spec [of _ s2])
      then have "?goal (fst (upload_retry C fn (Suc k) left s2)) (snd (upload_retry C fn (Suc k) left s2))"
        using s2 ev that(2) by (intro exI [of _ "ev @ [Waited d] @ ev2"]) auto
      moreover have "?goal (Inl x) s2" using s2 ev that(2) by (intro exI [of _ "ev @ [Waited d]"]) auto
      ultimately show ?thesis by blast
    qed
    show "?goal (fst (upload_retry C fn k (Suc left) s)) (snd (upload_retry C fn k (Suc left) s))"
    proof (cases r)
      case (Inl y)
      obtain code e where y: "y = (code, e)" by fastforce
      show ?thesis
      proof (cases "upload_retry_delay k e")
        case None
        then show ?thesis using f Inl y stop by simp
      next
        case (Some d)
        obtain b s2 where w: "wait_for C d s1 = (b, s2)" by fastforce
        show ?thesis using again [OF w Inl, of "(code, canceled_err)"] f Inl y Some w by (cases b) auto
      qed
    qed (use f stop in auto)
  qed
qed

lemma withUploadRetryStatus_delivers: "delivers C form 1 fn \<Longrightarrow> delivers C form 3 (withUploadRetryStatus C fn)"
  using retry_delivers [of C form 1 fn 2 0] by (simp add: withUploadRetryStatus_def [abs_def] chunkUploadRetries_def delivers_def)

lemma withUploadRetry_delivers:
  assumes "delivers C form 1 fn"
  shows "\<exists>ev. csHist (snd (withUploadRetry C fn s)) = csHist s @ ev \<and> length (asks ev) \<le> 3 \<and> csSession (snd (withUploadRetry C fn s)) = csSession s \<and>
     accepted C ev = (case fst (withUploadRetry C fn s) of Inr _ \<Rightarrow> [form] | Inl _ \<Rightarrow> [])"
proof -
  obtain ev where ev: "csHist (snd (withUploadRetryStatus C fn s)) = csHist s @ ev" "length (asks ev) \<le> 3"
    "csSession (snd (withUploadRetryStatus C fn s)) = csSession s"
    "accepted C ev = (case fst (withUploadRetryStatus C fn s) of Inr _ \<Rightarrow> [form] | Inl _ \<Rightarrow> [])"
    using withUploadRetryStatus_delivers [OF assms] by (auto simp: delivers_def dest: spec [of _ s])
  obtain r s1 where r: "withUploadRetryStatus C fn s = (r, s1)" by fastforce
  show ?thesis using ev r by (intro exI [of _ ev]) (cases r; auto simp: withUploadRetry_def split: prod.split)
qed

section \<open>A chunked upload is complete\<close>

definition chunk_data :: "uploadChunkRequest \<Rightarrow> bytes \<Rightarrow> bytes" where
  "chunk_data part data = take (nat (ucrLength part)) (drop (nat (ucrOffset part)) data)"

definition chunk_form :: "cenv \<Rightarrow> string \<Rightarrow> uploadChunkRequest \<Rightarrow> bytes \<Rightarrow> request" where
  "chunk_form C csrf part data = ReqForm (chunk_fields C csrf part) (Some (chunk_data part data))"

lemma put_delivers:
  assumes "\<And>h. cFile C h (ucrLocalPath part) = Some data"
  shows "delivers C (chunk_form C csrf part data) 1 (putUploadChunk C csrf part)"
proof (cases "nat (ucrOffset part) + nat (ucrLength part) > length data")
  case True
  then show ?thesis using assms by (auto simp: delivers_def putUploadChunk_def buildChunkForm_def intro!: exI [of _ "[]"])
next
  case False
  then have "putUploadChunk C csrf part = postUploadForm C (chunk_form C csrf part data)"
    using assms by (auto simp: putUploadChunk_def buildChunkForm_def chunk_form_def chunk_data_def)
  then show ?thesis using post_delivers [of "chunk_form C csrf part data" C] by (simp add: chunk_form_def is_form_def)
qed

lemma session_events:
  "\<exists>ev. csHist (snd (uploadSession C b s)) = csHist s @ ev \<and> length (asks ev) \<le> 1 \<and> accepted C ev = [] \<and> (\<forall>r \<in> set (asks ev). r = ReqSession)"
proof (cases "csSession s \<noteq> None \<and> \<not> b")
  case True
  then show ?thesis by (intro exI [of _ "[]"]) (auto simp: uploadSession_def split: bool.split)
next
  case False
  let ?a = "cAnswer C (csHist s) ReqSession"
  have "csHist (snd (uploadSession C b s)) = csHist s @ [Sent ReqSession ?a]"
    using False by (auto simp: uploadSession_def send_def Let_def split: option.splits bool.splits sum.split prod.split)
  then show ?thesis by (intro exI [of _ "[Sent ReqSession ?a]"]) (auto simp: is_form_def)
qed

lemma put_chunk_accepted:
  assumes "\<And>h. cFile C h (ucrLocalPath part) = Some data" "put_chunk C part csrf s = (res, s')"
  shows "\<exists>ev. csHist s' = csHist s @ ev \<and> length (asks ev) \<le> (if ucrIndex part = 0 then 7 else 3) \<and>
    (\<forall>csrf'. res = Inr csrf' \<longrightarrow> accepted C ev = [chunk_form C csrf' part data] \<and> (ucrIndex part \<noteq> 0 \<longrightarrow> csrf' = csrf))"
proof -
  obtain r1 s1 where p1: "withUploadRetry C (putUploadChunk C csrf part) s = (r1, s1)" by fastforce
  obtain ev1 where ev1: "csHist s1 = csHist s @ ev1" "length (asks ev1) \<le> 3"
    "accepted C ev1 = (case r1 of Inr _ \<Rightarrow> [chunk_form C csrf part data] | Inl _ \<Rightarrow> [])"
    using withUploadRetry_delivers [OF put_delivers [OF assms(1)], of csrf s] p1 by auto
  show ?thesis
  proof (cases "\<exists>e. r1 = Inl e \<and> ucrIndex part = 0 \<and> IsPermanentRequest (ceApi e)")
    case False
    then show ?thesis using assms(2) p1 ev1 by (intro exI [of _ ev1]) (cases r1; auto simp: put_chunk_def Let_def)
  next
    case True
    then obtain e where e: "r1 = Inl e" "ucrIndex part = 0" "IsPermanentRequest (ceApi e)" by blast
    obtain r2 s2 where p2: "uploadSession C True s1 = (r2, s2)" by fastforce
    obtain ev2 where ev2: "csHist s2 = csHist s1 @ ev2" "length (asks ev2) \<le> 1" "accepted C ev2 = []"
      using session_events [of C True s1] p2 by auto
    show ?thesis
    proof (cases r2)
      case (Inl e2)
      then show ?thesis using assms(2) p1 p2 e ev1 ev2 by (intro exI [of _ "ev1 @ ev2"]) (auto simp: put_chunk_def Let_def)
    next
      case (Inr csrf2)
      obtain r3 s3 where p3: "withUploadRetry C (putUploadChunk C csrf2 part) s2 = (r3, s3)" by fastforce
      obtain ev3 where ev3: "csHist s3 = csHist s2 @ ev3" "length (asks ev3) \<le> 3"
        "accepted C ev3 = (case r3 of Inr _ \<Rightarrow> [chunk_form C csrf2 part data] | Inl _ \<Rightarrow> [])"
        using withUploadRetry_delivers [OF put_delivers [OF assms(1)], of csrf2 s2] p3 by auto
      show ?thesis using assms(2) p1 p2 p3 e ev1 ev2 ev3 Inr
        by (intro exI [of _ "ev1 @ ev2 @ ev3"]) (cases r3; auto simp: put_chunk_def Let_def)
    qed
  qed
qed

lemma put_chunks_accepted:
  assumes "\<And>h k. cFile C h (ucrLocalPath (part k)) = Some data" "\<And>k. ucrIndex (part k) = k" "0 \<notin> set ks"
    and "put_chunks C part ks csrf s = (Inr csrf', s')"
  shows "csrf' = csrf \<and> (\<exists>ev. csHist s' = csHist s @ ev \<and> length (asks ev) \<le> 3 * length ks \<and>
    accepted C ev = map (\<lambda>k. chunk_form C csrf (part k) data) ks)"
  using assms(3,4)
proof (induction ks arbitrary: s)
  case (Cons k ks)
  obtain r s1 where p: "put_chunk C (part k) csrf s = (r, s1)" by fastforce
  with Cons.prems(2) obtain c1 where r: "r = Inr c1" by (cases r) auto
  obtain ev where ev: "csHist s1 = csHist s @ ev" "length (asks ev) \<le> 3" "accepted C ev = [chunk_form C csrf (part k) data]" "c1 = csrf"
    using put_chunk_accepted [OF assms(1) p] r Cons.prems(1) assms(2) [of k] by auto
  obtain ev2 where "csrf' = csrf" "csHist s' = csHist s1 @ ev2" "length (asks ev2) \<le> 3 * length ks"
    "accepted C ev2 = map (\<lambda>k. chunk_form C csrf (part k) data) ks"
    using Cons.IH [of s1] Cons.prems p r ev(4) by auto
  then show ?case using ev by (intro conjI exI [of _ "ev @ ev2"]) auto
qed simp

text \<open>All chunks, the first one included.\<close>

lemma all_chunks_accepted:
  assumes "\<And>h k. cFile C h (ucrLocalPath (part k)) = Some data" "\<And>k. ucrIndex (part k) = k"
    and "put_chunks C part [0..<n] csrf s = (Inr csrf', s')" "0 < n"
  shows "\<exists>ev. csHist s' = csHist s @ ev \<and> length (asks ev) \<le> 3 * n + 4 \<and> accepted C ev = map (\<lambda>k. chunk_form C csrf' (part k) data) [0..<n]"
proof -
  have ks: "[0..<n] = 0 # [1..<n]" using assms(4) by (simp add: upt_rec)
  obtain r s1 where p: "put_chunk C (part 0) csrf s = (r, s1)" by fastforce
  with assms(3) obtain c1 where r: "r = Inr c1" by (cases r) (auto simp: ks)
  obtain ev where ev: "csHist s1 = csHist s @ ev" "length (asks ev) \<le> 7" "accepted C ev = [chunk_form C c1 (part 0) data]"
    using put_chunk_accepted [OF assms(1) p] r assms(2) [of 0] by auto
  have "put_chunks C part [1..<n] c1 s1 = (Inr csrf', s')" using assms(3) p r by (simp add: ks)
  from put_chunks_accepted [OF assms(1,2) _ this] obtain ev2 where "csrf' = c1" "csHist s' = csHist s1 @ ev2" "length (asks ev2) \<le> 3 * (n - 1)"
    "accepted C ev2 = map (\<lambda>k. chunk_form C c1 (part k) data) [1..<n]" by auto
  then show ?thesis using ev assms(4) ks by (intro exI [of _ "ev @ ev2"]) auto
qed

lemma finalize_round_accepted:
  assumes "is_form form"
  shows "\<exists>ev. (case finalize_round C form dl k s of
     Inl (r, s1) \<Rightarrow> csHist s1 = csHist s @ ev \<and> accepted C ev = (case r of Inr _ \<Rightarrow> [form] | Inl _ \<Rightarrow> [])
   | Inr (dl1, k1, s1) \<Rightarrow> csHist s1 = csHist s @ ev \<and> accepted C ev = [])"
proof -
  obtain r s1 where u: "withUploadRetryStatus C (postUploadForm C form) s = (r, s1)" by fastforce
  obtain ev where ev: "csHist s1 = csHist s @ ev" "accepted C ev = (case r of Inr _ \<Rightarrow> [form] | Inl _ \<Rightarrow> [])"
    using withUploadRetryStatus_delivers [OF post_delivers [OF assms, of C]] u by (auto simp: delivers_def dest: spec [of _ s])
  show ?thesis
  proof (cases r)
    case (Inr x)
    then show ?thesis using u ev by (intro exI [of _ ev]) (auto simp: finalize_round_def)
  next
    case (Inl x)
    obtain code e where x: "x = (code, e)" by fastforce
    show ?thesis
    proof (cases "scan_wait C dl k e")
      case None
      then show ?thesis using u ev Inl x by (intro exI [of _ ev]) (auto simp: finalize_round_def)
    next
      case (Some w)
      obtain d dl1 k1 where w: "w = (d, dl1, k1)" by (metis prod_cases3)
      obtain b s2 where wt: "wait_for C d s1 = (b, s2)" by fastforce
      then have s2: "csHist s2 = csHist s1 @ [Waited d]" by (auto simp: wait_for_def Let_def)
      show ?thesis
      proof (cases "cNow C (csHist s1) > dl1")
        case True
        then show ?thesis using u ev Inl x Some w by (intro exI [of _ ev]) (auto simp: finalize_round_def)
      next
        case False
        then show ?thesis using u ev Inl x Some w wt s2 by (intro exI [of _ "ev @ [Waited d]"]) (cases b; auto simp: finalize_round_def)
      qed
    qed
  qed
qed

lemma finalize_loop_accepted:
  assumes "is_form form" "finalize_loop C form dl k s = Some (Inr r, s')"
  shows "\<exists>ev. csHist s' = csHist s @ ev \<and> accepted C ev = [form]"
proof -
  have "C' = C \<longrightarrow> form' = form \<longrightarrow> (\<forall>r s'. y = (Inr r, s') \<longrightarrow> (\<exists>ev. csHist s' = csHist s @ ev \<and> accepted C ev = [form]))"
    if "finalize_loop C' form' dl k s = Some y" for C' form' dl k s y
    using that
  proof (induction rule: finalize_loop.raw_induct [rotated, consumes 1, case_names step])
    case (step rec C' form' dl k s y)
    show ?case
    proof (intro impI allI)
      fix r s' assume eq: "C' = C" "form' = form" and y: "y = (Inr r, s')"
      obtain ev where ev: "case finalize_round C form dl k s of
         Inl (r, s1) \<Rightarrow> csHist s1 = csHist s @ ev \<and> accepted C ev = (case r of Inr _ \<Rightarrow> [form] | Inl _ \<Rightarrow> [])
       | Inr (dl1, k1, s1) \<Rightarrow> csHist s1 = csHist s @ ev \<and> accepted C ev = []"
        using finalize_round_accepted [OF assms(1)] by blast
      show "\<exists>ev. csHist s' = csHist s @ ev \<and> accepted C ev = [form]"
      proof (cases "finalize_round C form dl k s")
        case (Inl z)
        then show ?thesis using step(2) ev eq y by auto
      next
        case (Inr z)
        then obtain dl1 k1 s1 where z: "finalize_round C form dl k s = Inr (dl1, k1, s1)" by (cases z) auto
        then have "rec C form dl1 k1 s1 = Some y" using step(2) eq by simp
        then obtain ev2 where "csHist s' = csHist s1 @ ev2" "accepted C ev2 = [form]" using step(1) y by blast
        then show ?thesis using ev z by (intro exI [of _ "ev @ ev2"]) auto
      qed
    qed
  qed
  with assms(2) show ?thesis by blast
qed

lemma concat_slices: "0 < c \<Longrightarrow> concat (map (\<lambda>k. take c (drop (k * c) data)) [0..<n]) = take (n * c) data"
proof (induction n)
  case (Suc n)
  then show ?case using take_add [of "n * c" c data] by (simp add: add.commute)
qed simp

lemma total_chunks_enough:
  assumes "0 \<le> sz"
  shows "sz \<le> int (total_chunks sz) * uploadChunkSize" "0 < total_chunks sz"
  using assms by (auto simp: total_chunks_def uploadChunkSize_def)

lemma chunk_part_data:
  assumes "sz = int (length data)"
  shows "chunk_data (chunk_part lp rp cid n sz opts k) data = take (16 * 1024 * 1024) (drop (k * (16 * 1024 * 1024)) data)"
proof -
  have "nat (int k * (16 * 1024 * 1024)) = k * (16 * 1024 * 1024)" by (simp add: nat_mult_distrib)
  then show ?thesis
    using assms by (auto simp: chunk_data_def chunk_part_def Let_def uploadChunkSize_def nat_diff_distrib)
qed

text \<open>
  C21: a chunked upload that reports success is complete. If the file does not change meanwhile, then whatever
  the network does and however often requests are repeated, the forms the server has accepted are exactly
  the chunks of the file in order, each once, under one upload id and one token, and then the final request;
  the contents of the chunks put together are the file, none is larger than 16 MiB, and all chunks together
  took at most three requests each and four more.
\<close>

theorem uploadChunked_complete:
  assumes "\<And>h. cFile C h lp = Some data" "uploadChunked C lp rp (int (length data)) opts s = Some (Inr resp, s')"
  shows "\<exists>cid csrf ev1 ev2. let n = total_chunks (int (length data)); part = chunk_part lp rp cid n (int (length data)) opts in
    csHist s' = csHist s @ ev1 @ ev2 \<and>
    accepted C ev1 = map (\<lambda>k. ReqForm (chunk_fields C csrf (part k)) (Some (chunk_data (part k) data))) [0..<n] \<and>
    accepted C ev2 = [ReqForm (final_fields C csrf rp cid n (int (length data)) opts) None] \<and>
    concat (map (\<lambda>k. chunk_data (part k) data) [0..<n]) = data \<and> (\<forall>k. length (chunk_data (part k) data) \<le> 16 * 1024 * 1024) \<and>
    length (asks ev1) \<le> 3 * n + 5 \<and> rsSuccess resp"
proof -
  let ?sz = "int (length data)"
  let ?n = "total_chunks ?sz"
  obtain r0 s0 where p0: "uploadSession C False s = (r0, s0)" by fastforce
  with assms(2) obtain csrf0 where r0: "r0 = Inr csrf0" by (cases r0) (auto simp: uploadChunked_def)
  obtain ev0 where ev0: "csHist s0 = csHist s @ ev0" "length (asks ev0) \<le> 1" "accepted C ev0 = []" using session_events [of C False s] p0 by auto
  obtain cid where cid: "cChunkID C = Some cid" using assms(2) p0 r0 by (auto simp: uploadChunked_def split: option.splits)
  let ?part = "chunk_part lp rp cid ?n ?sz opts"
  obtain r1 s1 where p1: "put_chunks C ?part [0..<?n] csrf0 s0 = (r1, s1)" by fastforce
  with assms(2) obtain csrf where r1: "r1 = Inr csrf" using p0 r0 cid by (cases r1) (auto simp: uploadChunked_def)
  have same: "\<And>h k. cFile C h (ucrLocalPath (?part k)) = Some data" "\<And>k. ucrIndex (?part k) = k"
    using assms(1) by (simp_all add: chunk_part_def Let_def)
  obtain ev1 where ev1: "csHist s1 = csHist s0 @ ev1" "length (asks ev1) \<le> 3 * ?n + 4"
    "accepted C ev1 = map (\<lambda>k. chunk_form C csrf (?part k) data) [0..<?n]"
    using all_chunks_accepted [OF same, of ?n csrf0 s0 csrf s1] p1 r1 total_chunks_enough(2) [of ?sz] by auto
  let ?form = "ReqForm (final_fields C csrf rp cid ?n ?sz opts) None"
  have fin: "finalizeChunkedUpload C csrf rp cid ?n ?sz opts s1 = Some (Inr resp, s')"
    using assms(2) p0 r0 cid p1 r1 by (simp add: uploadChunked_def)
  then obtain x where x: "finalize_loop C ?form (cNow C (csHist s1) + sint scanPendingMaxWait) 0 s1 = Some (Inr x, s')"
    by (auto simp: finalizeChunkedUpload_def Let_def split: option.splits sum.splits prod.splits)
  obtain ev2 where ev2: "csHist s' = csHist s1 @ ev2" "accepted C ev2 = [?form]"
    using finalize_loop_accepted [OF _ x] by (auto simp: is_form_def)
  have ok: "rsSuccess resp" using fin by (auto simp: finalizeChunkedUpload_def Let_def split: option.splits sum.splits prod.splits)
  have len: "length data \<le> ?n * (16 * 1024 * 1024)"
    using total_chunks_enough(1) [of ?sz] by (simp add: uploadChunkSize_def)
  have parts: "chunk_data (?part k) data = take (16 * 1024 * 1024) (drop (k * (16 * 1024 * 1024)) data)" for k
    by (rule chunk_part_data) simp
  have "concat (map (\<lambda>k. chunk_data (?part k) data) [0..<?n]) = data"
    unfolding parts using concat_slices [of "16 * 1024 * 1024" data ?n] len by simp
  then show ?thesis
    using ev0 ev1 ev2 ok parts unfolding Let_def
    by (intro exI [of _ cid] exI [of _ csrf] exI [of _ "ev0 @ ev1"] exI [of _ ev2]) (simp add: chunk_form_def)
qed

section \<open>What an upload reveals\<close>

text \<open>The requests an upload may send: whole bodies and final requests with the idempotency key \<open>K\<close>, and
  everything under the name \<open>nm\<close>.\<close>

definition upload_request :: "string \<Rightarrow> string \<Rightarrow> request \<Rightarrow> bool" where
  "upload_request K nm r =
     (case r of
        ReqBody m d \<Rightarrow> m ''upload_idempotency_key'' = Some K \<and> m ''source'' = Some nm
      | ReqForm f (Some d) \<Rightarrow> f ''originalName'' = Some nm
      | ReqForm f None \<Rightarrow> f ''originalName'' = Some nm \<and> f ''upload_idempotency_key'' = Some K
      | ReqSession \<Rightarrow> True
      | _ \<Rightarrow> False)"

lemma copy_field_other [simp]: "g \<noteq> f \<Longrightarrow> copy_field opts k f m g = m g"
  by (simp add: copy_field_def)

lemma chunk_fields_name: "chunk_fields C csrf part ''originalName'' = Some (wire_name C (ucrOptions part))"
  by (simp add: chunk_fields_def)

lemma copied_other: "g \<notin> snd ` set ps \<Longrightarrow> fold (\<lambda>(k, f). copy_field opts k f) ps m g = m g"
  by (induction ps arbitrary: m) auto

lemma copied_field:
  "(k, f) \<in> set ps \<Longrightarrow> distinct (map snd ps) \<Longrightarrow> opt opts k \<noteq> [] \<Longrightarrow> fold (\<lambda>(k, f). copy_field opts k f) ps m f = Some (opt opts k)"
proof (induction ps arbitrary: m)
  case (Cons p ps)
  show ?case
  proof (cases "p = (k, f)")
    case True
    moreover have "copy_field opts k f m f = Some (opt opts k)" using Cons.prems by (simp add: copy_field_def)
    ultimately show ?thesis using Cons.prems copied_other [of f ps opts "copy_field opts k f m"] by simp
  next
    case False
    then show ?thesis using Cons by (cases p) auto
  qed
qed simp

lemma web_fields: "distinct (map snd webUploadFields)" "''originalName'' \<notin> snd ` set webUploadFields"
  "(''upload_idempotency_key'', ''upload_idempotency_key'') \<in> set webUploadFields"
  by code_simp+

lemma final_fields_key:
  assumes "opt opts ''upload_idempotency_key'' = K" "K \<noteq> []"
  shows "final_fields C csrf rp cid n sz opts ''originalName'' = Some (wire_name C opts)"
    "final_fields C csrf rp cid n sz opts ''upload_idempotency_key'' = Some K"
  using assms copied_field [OF web_fields(3,1)] by (simp_all add: final_fields_def copied_other [OF web_fields(2)])

lemma put_sends:
  assumes "\<And>h d. cFile C h (ucrLocalPath part) = Some d \<Longrightarrow> Q (ReqForm (chunk_fields C csrf part) (Some (take (nat (ucrLength part)) (drop (nat (ucrOffset part)) d))))"
  shows "sends Q s (snd (putUploadChunk C csrf part s))"
proof (cases "buildChunkForm C (chunk_fields C csrf part) (Some (ucrLocalPath part)) (ucrOffset part) (ucrLength part) s")
  case (Inl e)
  then show ?thesis by (simp add: putUploadChunk_def sending.rel_refl)
next
  case (Inr form)
  then have "Q form" using assms by (auto simp: buildChunkForm_def split: option.splits if_splits)
  then show ?thesis using Inr sends_send by (simp add: putUploadChunk_def post_state)
qed

lemma session_sends: "Q ReqSession \<Longrightarrow> sends Q s (snd (uploadSession C b s))"
  using session_events [of C b s] by (auto simp: sends_def list_all_iff)

lemma put_chunk_sends:
  assumes "\<And>c s. sends Q s (snd (putUploadChunk C c part s))" "Q ReqSession"
  shows "sends Q s (snd (put_chunk C part csrf s))"
proof -
  have put: "sends Q s (snd (withUploadRetry C (putUploadChunk C c part) s))" for c s by (rule sending.rel_withUploadRetry) (rule assms(1))
  obtain r1 s1 where p1: "withUploadRetry C (putUploadChunk C csrf part) s = (r1, s1)" by fastforce
  obtain r2 s2 where p2: "uploadSession C True s1 = (r2, s2)" by fastforce
  have s2: "sends Q s s1" "sends Q s s2"
    using put [where c = csrf and s = s] session_sends [where Q = Q, OF assms(2), where s = s1 and C = C and b = True] p1 p2 sending.rel_trans by (metis snd_conv)+
  have s3: "sends Q s (snd (withUploadRetry C (putUploadChunk C c part) s2))" for c
    using put [where c = c and s = s2] s2 sending.rel_trans by blast
  show ?thesis using s2 s3 p1 p2 by (auto simp: put_chunk_def Let_def split: sum.split prod.split) (metis snd_conv)+
qed

lemma put_chunks_sends:
  assumes "\<And>k c s. sends Q s (snd (putUploadChunk C c (part k) s))" "Q ReqSession"
  shows "sends Q s (snd (put_chunks C part ks csrf s))"
proof (induction ks arbitrary: csrf s)
  case Nil
  then show ?case by (simp add: sending.rel_refl)
next
  case (Cons k ks)
  obtain r s1 where p: "put_chunk C (part k) csrf s = (r, s1)" by fastforce
  have "sends Q s s1" using put_chunk_sends [where part = "part k" and s = s and C = C and csrf = csrf, OF assms] p by simp
  then show ?case using p Cons sending.rel_trans by (cases r) auto
qed

lemma uploadChunked_sends:
  assumes "\<And>cid k c s. sends Q s (snd (putUploadChunk C c (chunk_part lp rp cid (total_chunks sz) sz opts k) s))" "Q ReqSession"
    "\<And>csrf cid. Q (ReqForm (final_fields C csrf rp cid (total_chunks sz) sz opts) None)" "uploadChunked C lp rp sz opts s = Some (res, s')"
  shows "sends Q s s'"
proof -
  obtain r0 s0 where p0: "uploadSession C False s = (r0, s0)" by fastforce
  have s0: "sends Q s s0" using session_sends [where Q = Q, OF assms(2), where s = s and C = C and b = False] p0 by simp
  have chunks: "sends Q s (snd (put_chunks C (chunk_part lp rp cid (total_chunks sz) sz opts) [0..<total_chunks sz] c s0))" for cid c
    by (rule sending.rel_trans [OF s0], rule put_chunks_sends) (rule assms(1), rule assms(2))
  show ?thesis
  proof (cases "\<exists>csrf0 cid csrf s1. r0 = Inr csrf0 \<and> cChunkID C = Some cid \<and>
      put_chunks C (chunk_part lp rp cid (total_chunks sz) sz opts) [0..<total_chunks sz] csrf0 s0 = (Inr csrf, s1)")
    case False
    then show ?thesis using assms(4) p0 s0 chunks
      by (auto simp: uploadChunked_def Let_def split: sum.splits option.splits prod.splits) (metis snd_conv)+
  next
    case True
    then obtain csrf0 cid csrf s1 where e: "r0 = Inr csrf0" "cChunkID C = Some cid"
      "put_chunks C (chunk_part lp rp cid (total_chunks sz) sz opts) [0..<total_chunks sz] csrf0 s0 = (Inr csrf, s1)" by blast
    have s1: "sends Q s s1" using chunks [of cid csrf0] e(3) by simp
    let ?form = "ReqForm (final_fields C csrf rp cid (total_chunks sz) sz opts) None"
    have "finalizeChunkedUpload C csrf rp cid (total_chunks sz) sz opts s1 = Some (res, s')"
      using assms(4) p0 e by (simp add: uploadChunked_def Let_def)
    then obtain y where y: "finalize_loop C ?form (cNow C (csHist s1) + sint scanPendingMaxWait) 0 s1 = Some y" "snd y = s'"
      by (auto simp: finalizeChunkedUpload_def Let_def split: option.splits sum.splits prod.splits)
    have "sends Q s (snd (postUploadForm C ?form s))" for s using sends_send [of Q ?form] assms(3) by (simp add: post_state)
    then have "sends Q s1 s'" using sending.rel_finalize_loop y by metis
    then show ?thesis using s1 sending.rel_trans by blast
  qed
qed

lemma whole_sends:
  assumes "\<And>h d. cFile C h lp = Some d \<Longrightarrow> Q (ReqBody opts d)"
  shows "sends Q s (snd (whole_once C lp opts s))"
proof (cases "cFile C (csHist s) lp")
  case None
  then show ?thesis by (simp add: whole_once_def sending.rel_refl)
next
  case (Some data)
  then have "snd (whole_once C lp opts s) = snd (send C (ReqBody opts data) s)"
    by (auto simp: whole_once_def Let_def split: prod.split sum.split option.split)
  then show ?thesis using sends_send [of Q "ReqBody opts data" s C] assms Some by auto
qed

lemma sends_mono: "sends Q s s' \<Longrightarrow> (\<And>r. Q r \<Longrightarrow> Q' r) \<Longrightarrow> sends Q' s s'"
  by (auto simp: sends_def list_all_iff)

definition wire_options :: "cenv \<Rightarrow> options \<Rightarrow> options" where
  "wire_options C opts = (if opt opts ''sealed_key'' \<noteq> [] then opts(''source'' \<mapsto> uploadWireName C (opt opts ''source'')) else opts)"

lemma uploadWholeBody_sends:
  assumes "\<And>h d. cFile C h lp = Some d \<Longrightarrow> Q (ReqBody (wire_options C opts) d)"
  shows "sends Q s (snd (uploadWholeBody C lp opts s))"
proof -
  have "sends Q s (snd (withRetry C (whole_once C lp (wire_options C opts)) retryDelays s))"
    by (rule sending.rel_withRetry) (rule whole_sends, rule assms)
  moreover have "snd (uploadWholeBody C lp opts s) = snd (withRetry C (whole_once C lp (wire_options C opts)) retryDelays s)"
    by (auto simp: uploadWholeBody_def wire_options_def Let_def split: prod.split sum.split)
  ultimately show ?thesis by simp
qed

text \<open>What every request of an upload satisfies: the whole body, the chunks, the token and the final request.\<close>

lemma UploadFile_sends:
  assumes "UploadFile C lp base rp extra s = Some (res, s')" "opts = upload_options_of C (csHist s) base rp extra"
    "\<And>h d. cFile C h lp = Some d \<Longrightarrow> Q (ReqBody (wire_options C opts) d)" "Q ReqSession"
    "\<And>h d csrf n part. cFile C h lp = Some d \<Longrightarrow> ucrOptions part = opts \<Longrightarrow> Q (ReqForm (chunk_fields C csrf part) (Some (take n (drop (nat (ucrOffset part)) d))))"
    "\<And>csrf cid n sz. Q (ReqForm (final_fields C csrf rp cid n sz opts) None)"
  shows "sends Q s s'"
proof (cases "cFile C (csHist s) lp")
  case None
  then show ?thesis using assms(1) by (simp add: UploadFile_def Let_def sending.rel_refl)
next
  case (Some data)
  let ?sz = "int (length data)"
  have chunked: "sends Q s1 s2" if "uploadChunked C lp rp ?sz opts s1 = Some (res, s2)" for s1 s2
    by (rule uploadChunked_sends [where Q = Q, OF _ assms(4,6) that], rule put_sends, rule assms(5)) (auto simp: chunk_part_def Let_def)
  obtain r1 s1 where w: "uploadWholeBody C lp opts s = (r1, s1)" by fastforce
  have s1: "sends Q s s1" using uploadWholeBody_sends [where C = C and lp = lp and Q = Q and opts = opts and s = s, OF assms(3)] w by simp
  show ?thesis
  proof (cases "uploadChunked C lp rp ?sz opts s = Some (res, s')")
    case False
    then consider "s' = s1" | "uploadChunked C lp rp ?sz opts s1 = Some (res, s')"
      using assms(1) Some w unfolding UploadFile_def assms(2) [symmetric] by (auto simp: Let_def split: if_splits sum.splits)
    then show ?thesis using s1 chunked sending.rel_trans by cases blast+
  qed (rule chunked)
qed

lemma key_not_empty: "NewUploadIdempotencyKey C h \<noteq> []"
  by (auto simp: NewUploadIdempotencyKey_def Let_def split: option.split)

lemma upload_options_facts:
  assumes "opts = upload_options_of C h base rp extra"
  shows "opts ''source'' \<noteq> None" "opt opts ''upload_idempotency_key'' \<noteq> []"
    "opts ''upload_idempotency_key'' = Some (opt opts ''upload_idempotency_key'')"
    "extra = Some x \<Longrightarrow> x ''upload_idempotency_key'' = Some K \<Longrightarrow> K \<noteq> [] \<Longrightarrow> opt opts ''upload_idempotency_key'' = K"
proof -
  let ?m = "(case extra of
                  None \<Rightarrow> [''source'' \<mapsto> base, ''target'' \<mapsto> rp]
                | Some x \<Rightarrow> (case x ''_original_name'' of Some nm \<Rightarrow> [''source'' \<mapsto> base, ''target'' \<mapsto> rp](''source'' \<mapsto> nm) | None \<Rightarrow> [''source'' \<mapsto> base, ''target'' \<mapsto> rp])
                            ++ x(''_original_name'' := None))"
  have opts: "opts = (if opt ?m ''upload_idempotency_key'' = [] then ?m(''upload_idempotency_key'' \<mapsto> NewUploadIdempotencyKey C h) else ?m)"
    unfolding assms upload_options_of_def Let_def by (cases extra) (simp_all only: option.case)
  have "?m ''source'' \<noteq> None" by (auto simp: map_add_def split: option.split)
  then show "opts ''source'' \<noteq> None" using opts by auto
  show "opt opts ''upload_idempotency_key'' \<noteq> []" using opts key_not_empty [of C h] by (auto simp: opt_def)
  then show "opts ''upload_idempotency_key'' = Some (opt opts ''upload_idempotency_key'')" by (simp add: opt_def split: option.splits)
  show "opt opts ''upload_idempotency_key'' = K" if "extra = Some x" "x ''upload_idempotency_key'' = Some K" "K \<noteq> []"
  proof -
    have "?m ''upload_idempotency_key'' = Some K" using that by (auto simp: map_add_def split: option.split)
    then show ?thesis using opts that(3) by (simp add: opt_def)
  qed
qed

lemma upload_request_forms:
  assumes "opts ''source'' \<noteq> None" "opts ''upload_idempotency_key'' = Some (opt opts ''upload_idempotency_key'')" "opt opts ''upload_idempotency_key'' = K" "K \<noteq> []"
  shows "upload_request K (wire_name C opts) (ReqBody (wire_options C opts) d)" "upload_request K (wire_name C opts) ReqSession"
    "ucrOptions part = opts \<Longrightarrow> upload_request K (wire_name C opts) (ReqForm (chunk_fields C csrf part) (Some x))"
    "upload_request K (wire_name C opts) (ReqForm (final_fields C csrf rp cid n sz opts) None)"
proof -
  have "opts ''source'' = Some (opt opts ''source'')" using assms(1) by (auto simp: opt_def)
  then show "upload_request K (wire_name C opts) (ReqBody (wire_options C opts) d)"
    using assms(2,3) by (simp add: upload_request_def wire_options_def wire_name_def)
  show "upload_request K (wire_name C opts) (ReqForm (final_fields C csrf rp cid n sz opts) None)"
    using final_fields_key [OF assms(3,4)] by (simp add: upload_request_def)
qed (simp_all add: upload_request_def chunk_fields_name)

lemma wire_name_extension:
  assumes "stem \<noteq> []" "CHR ''.'' \<notin> set ext"
  shows "uploadWireName C (stem @ ''.'' @ ext) = CHR ''f'' # cToLower C (CHR ''.'' # ext)"
proof -
  have "takeWhile (\<lambda>c. c \<noteq> CHR ''.'') (rev ext @ CHR ''.'' # rev stem) = rev ext"
    using assms(2) by (subst takeWhile_append2) auto
  then show ?thesis using assms(1) by (simp add: uploadWireName_def Let_def)
qed

text \<open>
  What an upload sends. Every request an upload makes - whole bodies, chunks, final requests, the token -
  shows the server one name for the file, and every whole body and final request, however often it is repeated
  and whichever way the upload goes, carries one and the same non-empty idempotency key, the caller's if the
  caller gave one. The name is the real one only if the upload is not sealed: for a sealed upload it is the
  letter \<open>f\<close> with the extension in lower case, so files with the same extension look alike.
\<close>

theorem upload_requests_sealed:
  assumes "UploadFile C lp base rp extra s = Some (res, s')" "opts = upload_options_of C (csHist s) base rp extra"
    "K = opt opts ''upload_idempotency_key''"
  shows "sends (upload_request K (wire_name C opts)) s s' \<and> K \<noteq> [] \<and>
    (\<forall>x K'. extra = Some x \<and> x ''upload_idempotency_key'' = Some K' \<and> K' \<noteq> [] \<longrightarrow> K = K') \<and>
    (opt opts ''sealed_key'' \<noteq> [] \<longrightarrow>
       (\<forall>stem ext. opt opts ''source'' = stem @ ''.'' @ ext \<and> stem \<noteq> [] \<and> CHR ''.'' \<notin> set ext \<longrightarrow>
          wire_name C opts = CHR ''f'' # cToLower C (CHR ''.'' # ext)) \<and>
       (CHR ''.'' \<notin> set (opt opts ''source'') \<longrightarrow> wire_name C opts = ''f''))"
proof -
  note facts = upload_options_facts [OF assms(2)]
  let ?Q = "sends (upload_request K (wire_name C opts))"
  have key: "opt opts ''upload_idempotency_key'' = K" "K \<noteq> []" using facts(2) assms(3) by simp_all
  have "?Q s s'" using upload_request_forms [OF facts(1,3)] key assms(1,2) by (intro UploadFile_sends [OF assms(1,2)]) auto
  moreover have "wire_name C opts = CHR ''f'' # cToLower C (CHR ''.'' # ext)"
    if "opt opts ''sealed_key'' \<noteq> []" "opt opts ''source'' = stem @ ''.'' @ ext" "stem \<noteq> []" "CHR ''.'' \<notin> set ext" for stem ext
    using that wire_name_extension by (simp only: wire_name_def if_True not_False_eq_True)
  moreover have "wire_name C opts = ''f''" if "opt opts ''sealed_key'' \<noteq> []" "CHR ''.'' \<notin> set (opt opts ''source'')"
    using that by (simp add: wire_name_def uploadWireName_def)
  moreover have "K = K'" if "extra = Some x" "x ''upload_idempotency_key'' = Some K'" "K' \<noteq> []" for x K'
    using facts(4) [OF that] key by simp
  ultimately show ?thesis using key(2) by blast
qed

section \<open>The wait for the scan ends\<close>

text \<open>A clock that moves with every request and never goes back.\<close>

definition ticking :: "cenv \<Rightarrow> bool" where
  "ticking C \<longleftrightarrow> (\<forall>h e. cNow C h \<le> cNow C (h @ [e])) \<and> (\<forall>h r a. cNow C h < cNow C (h @ [Sent r a]))"

definition not_before :: "cenv \<Rightarrow> cstate \<Rightarrow> cstate \<Rightarrow> bool" where
  "not_before C s s' \<longleftrightarrow> cNow C (csHist s) \<le> cNow C (csHist s')"

lemma sent_later:
  assumes "ticking C" shows "cNow C (csHist s) < cNow C (csHist (snd (send C r s)))"
  using assms by (simp add: ticking_def send_def Let_def)

lemma wait_not_before: "ticking C \<Longrightarrow> not_before C s (snd (wait_for C d s))"
  by (simp add: ticking_def not_before_def wait_for_def Let_def)

lemma retry_later:
  assumes "ticking C"
  shows "cNow C (csHist s) < cNow C (csHist (snd (upload_retry C (postUploadForm C form) k n s)))"
proof (induction n arbitrary: k s)
  case 0
  then show ?case using sent_later [OF assms] by (simp add: post_state)
next
  case (Suc n)
  obtain r s1 where p: "postUploadForm C form s = (r, s1)" by fastforce
  have s1: "cNow C (csHist s) < cNow C (csHist s1)" using sent_later [OF assms, of s form] post_state [of C form s] p by simp
  have s2: "cNow C (csHist s) < cNow C (csHist s2) \<and> cNow C (csHist s) < cNow C (csHist (snd (upload_retry C (postUploadForm C form) j n s2)))"
    if "wait_for C d s1 = (b, s2)" for d b s2 j
    using s1 wait_not_before [OF assms, of s1 d] Suc [of s2 j] that by (simp add: not_before_def)
  show ?case using p s1 s2 by (cases r) (auto split: prod.split option.split bool.split)
qed

text \<open>What is left of the wait: every wait for the budget may put the deadline off by up to an hour.\<close>

definition scan_time_left :: "cenv \<Rightarrow> int \<Rightarrow> nat \<Rightarrow> cstate \<Rightarrow> int" where
  "scan_time_left C dl k s = dl + (2 - int k) * (3600 * 1000000000) - cNow C (csHist s)"

lemma scan_wait_budget:
  assumes "scan_wait C dl k e = Some (w, dl1, k1)" "k \<le> 2"
  shows "k1 \<le> 2 \<and> dl1 + (2 - int k1) * (3600 * 1000000000) \<le> dl + (2 - int k) * (3600 * 1000000000)"
proof (cases "cePending e")
  case None
  show ?thesis
  proof (cases "ScanBudgetWait (ceApi e)")
    case (Some budget)
    then show ?thesis
      using assms None ScanBudgetWait_bounds [OF Some]
      by (auto simp: scan_wait_def scanBudgetMaxWaits_def split: if_splits)
  qed (use assms None in \<open>auto simp: scan_wait_def\<close>)
qed (use assms in \<open>auto simp: scan_wait_def\<close>)

lemma finalize_round_progress:
  assumes "ticking C" "k \<le> 2" "finalize_round C form dl k s = Inr (dl1, k1, s1)"
  shows "k1 \<le> 2 \<and> scan_time_left C dl1 k1 s1 < scan_time_left C dl k s \<and> 0 < scan_time_left C dl k s"
proof -
  obtain r s2 where u: "withUploadRetryStatus C (postUploadForm C form) s = (r, s2)" by fastforce
  then obtain code e where r: "r = Inl (code, e)" using assms(3) by (cases r) (auto simp: finalize_round_def)
  then obtain w where sw: "scan_wait C dl k e = Some (w, dl1, k1)" and now: "cNow C (csHist s2) \<le> dl1" and s1: "s1 = snd (wait_for C w s2)"
    using assms(3) u by (auto simp: finalize_round_def split: option.splits if_splits prod.splits bool.splits)
  have "cNow C (csHist s) < cNow C (csHist s2)"
    using retry_later [OF assms(1), of s form 0 "chunkUploadRetries - 1"] u by (simp add: withUploadRetryStatus_def)
  moreover have "cNow C (csHist s2) \<le> cNow C (csHist s1)" using wait_not_before [OF assms(1)] s1 by (simp add: not_before_def)
  moreover have "k1 \<le> 2 \<and> dl1 + (2 - int k1) * (3600 * 1000000000) \<le> dl + (2 - int k) * (3600 * 1000000000)"
    by (rule scan_wait_budget [OF sw assms(2)])
  moreover from this have "0 \<le> (2 - int k1) * (3600 * 1000000000)" by simp
  ultimately show ?thesis using now unfolding scan_time_left_def by linarith
qed

lemma finalize_loop_ends:
  assumes "ticking C" "k \<le> 2" "nat (scan_time_left C dl k s) = m"
  shows "\<exists>y. finalize_loop C form dl k s = Some y"
  using assms(2,3)
proof (induction m arbitrary: dl k s rule: less_induct)
  case (less m)
  show ?case
  proof (cases "finalize_round C form dl k s")
    case (Inl y)
    then show ?thesis by (subst finalize_loop.simps) simp
  next
    case (Inr z)
    then obtain dl1 k1 s1 where z: "finalize_round C form dl k s = Inr (dl1, k1, s1)" by (cases z) auto
    note step = finalize_round_progress [OF assms(1) less.prems(1) z]
    then have "nat (scan_time_left C dl1 k1 s1) < nat (scan_time_left C dl k s)" by linarith
    then have "nat (scan_time_left C dl1 k1 s1) < m" by (simp only: less.prems(2))
    then obtain y where "finalize_loop C form dl1 k1 s1 = Some y" using less.IH step by blast
    then show ?thesis using z by (subst finalize_loop.simps) simp
  qed
qed

lemma uploadChunked_ends:
  assumes "ticking C"
  shows "\<exists>y. uploadChunked C lp rp sz opts s = Some y"
proof -
  have "\<exists>y. finalizeChunkedUpload C csrf rp cid n sz opts s1 = Some y" for csrf cid n s1
    using finalize_loop_ends [OF assms, of 0 "cNow C (csHist s1) + sint scanPendingMaxWait" s1 _ "ReqForm (final_fields C csrf rp cid n sz opts) None"]
    by (auto simp: finalizeChunkedUpload_def Let_def split: sum.split option.split)
  then show ?thesis by (auto simp: uploadChunked_def Let_def split: sum.split option.split prod.split)
qed

text \<open>
  C22: an upload ends. Whatever the server answers - it may report a running scan, a shed scanner or an
  exhausted budget for ever - an upload returns, as long as the clock moves with every request and never goes
  back: the deadline for the scan is put off at most twice, by at most an hour each time.
\<close>

theorem upload_ends:
  assumes "ticking C"
  shows "\<exists>res s'. UploadFile C lp base rp extra s = Some (res, s')"
proof -
  have "\<exists>y. UploadFile C lp base rp extra s = Some y"
    using uploadChunked_ends [OF assms, of lp rp]
    by (auto simp: UploadFile_def Let_def split: option.split sum.split prod.split)
  then show ?thesis by auto
qed

section \<open>Downloads\<close>

interpretation placed: client_rel "\<lambda>s s'. csLocal s' = csLocal s"
  by unfold_locales (simp_all add: wait_for_def Let_def)

lemma withRetry_requests:
  assumes "\<And>s. \<exists>ev. csHist (snd (fn s)) = csHist s @ ev \<and> length (asks ev) \<le> 1"
  shows "\<exists>ev. csHist (snd (withRetry C fn ds s)) = csHist s @ ev \<and> length (asks ev) \<le> Suc (length ds)"
proof (induction ds arbitrary: s)
  case Nil
  then show ?case using assms [of s] by (auto split: prod.split sum.split)
next
  case (Cons d ds)
  obtain r s1 where f: "fn s = (r, s1)" by fastforce
  obtain ev1 where ev1: "csHist s1 = csHist s @ ev1" "length (asks ev1) \<le> 1" using assms [of s] f by auto
  obtain b s2 where w: "wait_for C d s1 = (b, s2)" by fastforce
  then have s2: "csHist s2 = csHist s @ ev1 @ [Waited d]" using ev1 by (auto simp: wait_for_def Let_def)
  obtain ev2 where ev2: "csHist (snd (withRetry C fn ds s2)) = csHist s2 @ ev2" "length (asks ev2) \<le> Suc (length ds)"
    using Cons [of s2] by blast
  have first: "\<exists>ev. csHist s1 = csHist s @ ev \<and> length (asks ev) \<le> Suc (length (d # ds))" using ev1 by (intro exI [of _ ev1]) simp
  have waited: "\<exists>ev. csHist s2 = csHist s @ ev \<and> length (asks ev) \<le> Suc (length (d # ds))"
    using ev1 s2 by (intro exI [of _ "ev1 @ [Waited d]"]) simp
  have later: "\<exists>ev. csHist (snd (withRetry C fn ds s2)) = csHist s @ ev \<and> length (asks ev) \<le> Suc (length (d # ds))"
    using ev1 ev2 s2 by (intro exI [of _ "ev1 @ [Waited d] @ ev2"]) simp
  show ?case using f w first waited later by (cases r; cases b) (auto split: prod.split)
qed

text \<open>A sink makes no requests, and changes no local file when it fails.\<close>

definition quiet_sink :: "sink \<Rightarrow> bool" where
  "quiet_sink sink \<longleftrightarrow> (\<forall>r s. csHist (snd (sink r s)) = csHist s \<and> (\<forall>x. fst (sink r s) = Inl x \<longrightarrow> csLocal (snd (sink r s)) = csLocal s))"

lemma fileSink_quiet: "quiet_sink (fileSink C lp)"
  by (auto simp: quiet_sink_def fileSink_def Let_def split: option.split sum.split)

lemma memory_sink_quiet: "quiet_sink memory_sink"
  by (auto simp: quiet_sink_def memory_sink_def Let_def split: option.split sum.split)

lemma stream_once_requests:
  assumes "quiet_sink sink"
  shows "csHist (snd (stream_once C cmd opts sink s)) = csHist s @ [Sent (ReqDownload cmd opts) (cAnswer C (csHist s) (ReqDownload cmd opts))]"
proof -
  have "csHist (snd (sink r s0)) = csHist s0" for r s0 using assms by (simp add: quiet_sink_def)
  then have "csHist s2 = csHist s0" if "sink r s0 = (x, s2)" for r s0 x s2 using that by (metis snd_conv)
  from this show ?thesis by (auto simp: stream_once_def send_def Let_def split: sum.split prod.split)
qed

lemma stream_once_failed:
  assumes "quiet_sink sink" "stream_once C cmd opts sink s = (Inl x, s1)"
  shows "csLocal s1 = csLocal s"
proof -
  have keep: "csLocal s2 = csLocal s0" if "sink r s0 = (Inl y, s2)" for r s0 y s2
    using assms(1) that unfolding quiet_sink_def by (metis fst_conv snd_conv)
  show ?thesis
    using assms(2) by (auto simp: stream_once_def send_def Let_def split: sum.splits prod.splits if_splits dest!: keep)
qed

lemma stream_once_done:
  assumes "stream_once C cmd opts sink s = (Inr (d, data), s1)"
  shows "\<exists>r. cAnswer C (csHist s) (ReqDownload cmd opts) = Inr r \<and> hStatus r = 200 \<and> \<not> hJson r \<and>
    d = parseDownloadMetadata C (hMeta r) \<and> sink r (snd (send C (ReqDownload cmd opts) s)) = (Inr data, s1)"
  using assms by (auto simp: stream_once_def send_def Let_def split: sum.splits prod.splits if_splits)

lemma streamDownload_outcome:
  assumes "quiet_sink sink" "streamDownload C cmd opts sink s = (res, s')"
  shows "(\<exists>ev. csHist s' = csHist s @ ev \<and> length (asks ev) \<le> 3) \<and>
    (case res of
       Inl e \<Rightarrow> csLocal s' = csLocal s
     | Inr (d, data) \<Rightarrow> \<exists>s0 r. csLocal s0 = csLocal s \<and> csHist s' = csHist s0 @ [Sent (ReqDownload cmd opts) (Inr r)] \<and>
         hStatus r = 200 \<and> \<not> hJson r \<and> d = parseDownloadMetadata C (hMeta r) \<and>
         sink r (snd (send C (ReqDownload cmd opts) s0)) = (Inr data, s'))"
proof -
  note once = stream_once_requests [OF assms(1), where C = C and cmd = cmd and opts = opts]
  have "\<exists>ev. csHist (snd (stream_once C cmd opts sink s)) = csHist s @ ev \<and> length (asks ev) \<le> 1" for s
    using once [of s] by (intro exI conjI, assumption) simp
  then have "\<exists>ev. csHist s' = csHist s @ ev \<and> length (asks ev) \<le> 3"
    using withRetry_requests [of "stream_once C cmd opts sink" C retryDelays s] assms(2) unfolding streamDownload_def
    by (simp del: withRetry.simps) (simp add: retryDelays_def numeral_3_eq_3 del: withRetry.simps)
  moreover have "case (res, s') of
      (Inl e, s') \<Rightarrow> csLocal s' = csLocal s
    | (Inr r, s') \<Rightarrow> \<exists>s0. csLocal s0 = csLocal s \<and> stream_once C cmd opts sink s0 = (Inr r, s')"
    using placed.withRetry_outcome [where fn = "stream_once C cmd opts sink" and C = C and ds = retryDelays and s = s] stream_once_failed [OF assms(1)] assms(2)
    by (metis (no_types, lifting) streamDownload_def)
  moreover have "\<exists>r. csHist s' = csHist s0 @ [Sent (ReqDownload cmd opts) (Inr r)] \<and> hStatus r = 200 \<and> \<not> hJson r \<and>
      d = parseDownloadMetadata C (hMeta r) \<and> sink r (snd (send C (ReqDownload cmd opts) s0)) = (Inr data, s')"
    if "stream_once C cmd opts sink s0 = (Inr (d, data), s')" for s0 d data
    using stream_once_done [OF that] once [of s0] that by auto
  ultimately show ?thesis by (auto split: sum.splits)
qed

lemma fileSink_done:
  assumes "fileSink C lp r s = (Inr data, s')"
  shows "hBody r = Inr data \<and> csLocal s' = (csLocal s)(lp \<mapsto> data)"
  using assms by (auto simp: fileSink_def Let_def split: option.splits sum.splits if_splits)

text \<open>
  C23: a download to a file is all or nothing. It sends at most three requests. If it fails, no local file has
  changed, however much of the data had arrived; if it succeeds, exactly the target file has changed, and holds
  the whole body of the last answer, which had status 200 and was not JSON; the metadata is that of the same
  answer, so never that of an attempt before it.
\<close>

theorem download_all_or_nothing:
  assumes "DownloadFile C rp lp extra s = (res, s')"
  shows "(\<exists>ev. csHist s' = csHist s @ ev \<and> length (asks ev) \<le> 3) \<and>
    (case res of
       Inl e \<Rightarrow> csLocal s' = csLocal s
     | Inr d \<Rightarrow> \<exists>h r data. csHist s' = h @ [Sent (ReqDownload ''dl'' (download_options rp extra)) (Inr r)] \<and>
         hStatus r = 200 \<and> \<not> hJson r \<and> hBody r = Inr data \<and> d = parseDownloadMetadata C (hMeta r) \<and>
         csLocal s' = (csLocal s)(lp \<mapsto> data))"
proof -
  let ?o = "download_options rp extra"
  obtain res0 where run: "streamDownload C ''dl'' ?o (fileSink C lp) s = (res0, s')"
    and res: "res = (case res0 of Inl e \<Rightarrow> Inl e | Inr x \<Rightarrow> Inr (fst x))"
    using assms by (auto simp: DownloadFile_def fst_result_def split: prod.splits sum.splits)
  note out = streamDownload_outcome [OF fileSink_quiet run]
  show ?thesis
  proof (cases res0)
    case (Inr x)
    obtain d data where x: "x = (d, data)" by fastforce
    obtain s0 r where r: "csLocal s0 = csLocal s" "csHist s' = csHist s0 @ [Sent (ReqDownload ''dl'' ?o) (Inr r)]" "hStatus r = 200" "\<not> hJson r"
      "d = parseDownloadMetadata C (hMeta r)" "fileSink C lp r (snd (send C (ReqDownload ''dl'' ?o) s0)) = (Inr data, s')"
      using out Inr x by auto
    have "csLocal s' = (csLocal s)(lp \<mapsto> data)" "hBody r = Inr data"
      using fileSink_done [OF r(6)] r(1) by (simp_all add: send_def Let_def)
    then show ?thesis using out res Inr x r by auto
  qed (use out res in auto)
qed

text \<open>
  A download to memory never holds more than 600 MiB, changes no local file, and returns the whole body of
  the answer it came from.
\<close>

theorem memory_download_bounded:
  assumes "DownloadToMemory C rp extra s = (res, s')"
  shows "csLocal s' = csLocal s \<and>
    (\<forall>data d. res = Inr (data, d) \<longrightarrow> length data \<le> 600 * 1024 * 1024 \<and>
       (\<exists>h r. csHist s' = h @ [Sent (ReqDownload ''dl'' (download_options rp extra)) (Inr r)] \<and> hStatus r = 200 \<and> hBody r = Inr data \<and>
          d = parseDownloadMetadata C (hMeta r)))"
proof -
  let ?o = "download_options rp extra"
  obtain res0 where run: "streamDownload C ''dl'' ?o memory_sink s = (res0, s')"
    and res: "res = (case res0 of Inl e \<Rightarrow> Inl e | Inr x \<Rightarrow> Inr (snd x, fst x))"
    using assms by (auto simp: DownloadToMemory_def split: prod.splits sum.splits)
  note out = streamDownload_outcome [OF memory_sink_quiet run]
  have got: "hBody r = Inr data \<and> length data \<le> 600 * 1024 * 1024 \<and> s2 = s1" if "memory_sink r s1 = (Inr data, s2)" for r s1 data s2
    using that by (auto simp: memory_sink_def Let_def memory_limit_def min_def split: sum.splits if_splits)
  show ?thesis
  proof (cases res0)
    case (Inr x)
    obtain d data where x: "x = (d, data)" by fastforce
    obtain s0 r where r: "csLocal s0 = csLocal s" "csHist s' = csHist s0 @ [Sent (ReqDownload ''dl'' ?o) (Inr r)]" "hStatus r = 200"
      "d = parseDownloadMetadata C (hMeta r)" "memory_sink r (snd (send C (ReqDownload ''dl'' ?o) s0)) = (Inr data, s')"
      using out Inr x by auto
    have "csLocal s' = csLocal s" using got [OF r(5)] r(1) by (simp add: send_def Let_def)
    then show ?thesis using got [OF r(5)] res Inr x r by auto
  qed (use out res in auto)
qed

section \<open>Attestation\<close>

text \<open>The waits of a history.\<close>

fun waits :: "history \<Rightarrow> 64 word list" where
  "waits [] = []"
| "waits (Sent r a # h) = waits h"
| "waits (Waited d # h) = d # waits h"

lemma waits_append [simp]: "waits (h @ h') = waits h @ waits h'"
  by (induction h rule: waits.induct) auto

lemma attestation_once:
  assumes "fetchTeeAttestationOnce C s = (res, s1)"
  shows "csHist s1 = csHist s @ [Sent ReqAttest (cAnswer C (csHist s) ReqAttest)] \<and>
    (\<forall>a. res = Inr a \<longrightarrow> atSuccess a \<and> \<not> (atAvailable a \<and> atBusy a))"
  using assms by (auto simp: fetchTeeAttestationOnce_def send_def Let_def split: sum.splits option.splits prod.splits if_splits)

definition short_wait :: "64 word \<Rightarrow> bool" where
  "short_wait d \<longleftrightarrow> 1000000000 \<le> sint d \<and> sint d \<le> 30 * 1000000000"

lemma attestation_wait_bounds:
  assumes "short_wait d" shows "short_wait (attestation_wait d e)"
  using assms smin_bounds(2) [of "RetryAfterHint (ceApi e)" maxTeeAttestationWait]
  by (auto simp: short_wait_def attestation_wait_def smax_def maxTeeAttestationWait_def second_def)

lemma fetch_attestation_outcome:
  assumes "list_all short_wait ds" "fetch_attestation C ds s = (res, s')"
  shows "(\<exists>ev. csHist s' = csHist s @ ev \<and> length (asks ev) \<le> Suc (length ds) \<and> list_all short_wait (waits ev)) \<and>
    (\<forall>a. res = Inr a \<longrightarrow> atSuccess a \<and> \<not> (atAvailable a \<and> atBusy a))"
  using assms
proof (induction ds arbitrary: s)
  case Nil
  then show ?case using attestation_once [of C s res s'] by auto
next
  case (Cons d ds)
  obtain r s1 where f: "fetchTeeAttestationOnce C s = (r, s1)" by fastforce
  note once = attestation_once [OF f]
  show ?case
  proof (cases r)
    case (Inr a)
    then show ?thesis using f once Cons.prems(2) by auto
  next
    case (Inl e)
    obtain b s2 where w: "wait_for C (attestation_wait d e) s1 = (b, s2)" by fastforce
    have s2: "csHist s2 = csHist s1 @ [Waited (attestation_wait d e)]" using w by (auto simp: wait_for_def Let_def)
    have short: "short_wait (attestation_wait d e)" using attestation_wait_bounds Cons.prems(1) by simp
    have "fetch_attestation C (d # ds) s =
        (if \<not> (IsTransient (ceApi e) \<or> IsRateLimited (ceApi e)) \<or> cCanceled C (csHist s1) then (Inl e, s1)
         else if b then fetch_attestation C ds s2 else (Inl canceled_err, s2))"
      using f Inl w by (cases b) simp_all
    then consider "s' = s1 \<and> res = Inl e" | "s' = s2 \<and> res = Inl canceled_err" | "fetch_attestation C ds s2 = (res, s')"
      using Cons.prems(2) by (metis prod.inject)
    then show ?thesis
    proof cases
      case 3
      then obtain ev where "csHist s' = csHist s2 @ ev" "length (asks ev) \<le> Suc (length ds)" "list_all short_wait (waits ev)"
        "\<forall>a. res = Inr a \<longrightarrow> atSuccess a \<and> \<not> (atAvailable a \<and> atBusy a)"
        using Cons.IH [of s2] Cons.prems(1) by auto
      then show ?thesis using once s2 short
        by (intro conjI exI [of _ "[Sent ReqAttest (cAnswer C (csHist s) ReqAttest), Waited (attestation_wait d e)] @ ev"]) auto
    qed (use once s2 short in auto)
  qed
qed

text \<open>
  The attestation of the scanner is asked for at most four times, with pauses of at least one and at most
  thirty seconds whatever delay the server suggests, and what comes back is an answer: never one the server
  calls unsuccessful, and never one of a busy scanner.
\<close>

theorem attestation_bounded:
  assumes "FetchTeeAttestation C s = (res, s')"
  shows "(\<exists>ev. csHist s' = csHist s @ ev \<and> length (asks ev) \<le> 4 \<and>
      (\<forall>d \<in> set (waits ev). 1000000000 \<le> sint d \<and> sint d \<le> 30 * 1000000000)) \<and>
    (\<forall>a. res = Inr a \<longrightarrow> atSuccess a \<and> \<not> (atAvailable a \<and> atBusy a))"
proof -
  have "list_all short_wait TeeAttestationRetryDelays" by (simp add: TeeAttestationRetryDelays_def short_wait_def second_def)
  moreover have "Suc (length TeeAttestationRetryDelays) = 4" by (simp add: TeeAttestationRetryDelays_def)
  ultimately have "(\<exists>ev. csHist s' = csHist s @ ev \<and> length (asks ev) \<le> 4 \<and> list_all short_wait (waits ev)) \<and>
    (\<forall>a. res = Inr a \<longrightarrow> atSuccess a \<and> \<not> (atAvailable a \<and> atBusy a))"
    using fetch_attestation_outcome [of TeeAttestationRetryDelays C s res s'] assms unfolding FetchTeeAttestation_def by metis
  then show ?thesis unfolding list_all_iff short_wait_def by blast
qed

section \<open>Concrete runs\<close>

text \<open>A server that accepts everything, a scan that never ends, and a file of three bytes.\<close>

definition ok_resp :: http_resp where
  "ok_resp = \<lparr>hStatus = 200, hRetryAfter = [], hJson = False, hMeta = [], hPartial = [], hBody = Inr [7]\<rparr>"

definition pending_resp :: http_resp where "pending_resp = ok_resp\<lparr>hStatus := 202\<rparr>"

definition ok_upload :: webUploadResult where
  "ok_upload = \<lparr>wuSuccess = True, wuError = [], wuErrorCode = [], wuNodeID = ''n1'', wuETag = ''e'', wuRetryAfterMs = 0\<rparr>"

definition ok_attestation :: TeeAttestationResponse where
  "ok_attestation = \<lparr>atSuccess = True, atEnabled = True, atAvailable = True, atEnclavePublicKey = [], atEnclavePublicKeyKyber = [],
     atEnclaveSigningPkEd25519 = [], atEnclaveSigningPkMldsa = [], atAttestationMode = [], atSgxQuote = [], atMrenclave = [],
     atVerificationStatus = [], atBusy = False, atRetryAfterMs = 0\<rparr>"

definition demo_env :: cenv where
  "demo_env = \<lparr>cAnswer = (\<lambda>h r. Inr ok_resp), cCanceled = (\<lambda>h. False), cNow = (\<lambda>h. int (length h)), cFile = (\<lambda>h p. Some [1, 2, 3]),
     cToLower = (\<lambda>x. x), cRand16 = Some (replicate 16 0), cDisk = (\<lambda>h p. None), cChunkID = Some ''c1'', cWaitOutScanBudget = False,
     cParkScanBudget = False,
     jResponse = (\<lambda>b. Some \<lparr>rsSuccess = True, rsMessage = [], rsErrorCode = [], rsStatus = 0, rsRaw = []\<rparr>), jUpload = (\<lambda>b. Some ok_upload),
     jSession = (\<lambda>b. Some (True, ''t'')), jMeta = (\<lambda>m. None), jAttest = (\<lambda>b. Some ok_attestation), jFailure = (\<lambda>b. None),
     jAuthorize = (\<lambda>b. None), jToken = (\<lambda>b. None), jSuccess = (\<lambda>b. Some True), jRename = (\<lambda>b n p. None), jReceipt = (\<lambda>r. Some [1]),
     jDetail = (\<lambda>b. []), jHexOk = (\<lambda>e. True)\<rparr>"

definition pending_env :: cenv where
  "pending_env = demo_env\<lparr>cAnswer := (\<lambda>h r. Inr (case r of ReqForm f d \<Rightarrow> pending_resp | _ \<Rightarrow> ok_resp)),
     cFile := (\<lambda>h p. Some (replicate 95000000 0)), jUpload := (\<lambda>b. Some (ok_upload\<lparr>wuErrorCode := ''scan_pending''\<rparr>))\<rparr>"

definition demo_client :: cstate where
  "demo_client = \<lparr>csSession = None, csLocal = Map.empty, csHist = []\<rparr>"

definition demo_extra :: "options option" where
  "demo_extra = Some [''_original_name'' \<mapsto> ''Tax return.pdf'', ''sealed_key'' \<mapsto> ''k'']"

lemma small_bodies [simp]:
  "read_body ok_resp = Inr [7]" "memory_sink ok_resp s = (Inr [7], s)" "hStatus ok_resp = 200" "\<not> hJson ok_resp"
  by (simp_all add: read_body_def ResponseSizeLimit_def ok_resp_def memory_sink_def memory_limit_def Let_def)

lemma demo_env_simps [simp]:
  "cAnswer demo_env h r = Inr ok_resp" "cFile demo_env h p = Some [1, 2, 3]" "cChunkID demo_env = Some ''c1''"
  "jSession demo_env b = Some (True, ''t'')" "jUpload demo_env b = Some ok_upload" "jReceipt demo_env r1 = Some [1]"
  "jResponse demo_env b = Some \<lparr>rsSuccess = True, rsMessage = [], rsErrorCode = [], rsStatus = 0, rsRaw = []\<rparr>"
  by (simp_all add: demo_env_def)

lemma demo_post: "\<exists>u s'. postUploadForm demo_env form s = (Inr u, s')"
  by (simp add: postUploadForm_def send_def Let_def ok_upload_def)

lemma demo_retry: "\<exists>u s'. withUploadRetryStatus demo_env (postUploadForm demo_env form) s = (Inr u, s')"
  using demo_post [of form s] by (auto simp: withUploadRetryStatus_def chunkUploadRetries_def numeral_2_eq_2)

lemma demo_finalize: "\<exists>r s'. finalizeChunkedUpload demo_env csrf rp cid n sz opts s = Some (Inr r, s')"
proof -
  let ?form = "ReqForm (final_fields demo_env csrf rp cid n sz opts) None"
  obtain u s1 where "withUploadRetryStatus demo_env (postUploadForm demo_env ?form) s = (Inr u, s1)" using demo_retry by blast
  then have "finalize_loop demo_env ?form dl 0 s = Some (Inr u, s1)" for dl
    by (subst finalize_loop.simps) (simp add: finalize_round_def)
  then show ?thesis by (cases u) (simp add: finalizeChunkedUpload_def Let_def)
qed

lemma demo_chunked_runs:
  "case uploadChunked demo_env ''/tmp/x'' ''/docs'' 3 [''source'' \<mapsto> ''x'', ''upload_idempotency_key'' \<mapsto> ''i''] demo_client of
     Some (Inr r, s') \<Rightarrow> True | _ \<Rightarrow> False"
proof -
  let ?part = "chunk_part ''/tmp/x'' ''/docs'' ''c1'' (total_chunks 3) 3 [''source'' \<mapsto> ''x'', ''upload_idempotency_key'' \<mapsto> ''i'']"
  have one: "total_chunks 3 = 1" by (simp add: total_chunks_def uploadChunkSize_def)
  have form: "buildChunkForm demo_env (chunk_fields demo_env ''t'' (?part 0)) (Some (ucrLocalPath (?part 0))) (ucrOffset (?part 0))
      (ucrLength (?part 0)) s = Inr (ReqForm (chunk_fields demo_env ''t'' (?part 0)) (Some [1, 2, 3]))" for s
    by (simp add: buildChunkForm_def chunk_part_def uploadChunkSize_def Let_def)
  have "putUploadChunk demo_env ''t'' (?part 0) = postUploadForm demo_env (ReqForm (chunk_fields demo_env ''t'' (?part 0)) (Some [1, 2, 3]))"
    unfolding putUploadChunk_def form by simp
  then have first: "\<exists>s1. put_chunk demo_env (?part 0) ''t'' s = (Inr ''t'', s1)" for s
    using demo_retry [of "ReqForm (chunk_fields demo_env ''t'' (?part 0)) (Some [1, 2, 3])" s]
    by (auto simp: put_chunk_def withUploadRetry_def Let_def)
  let ?s = "snd (send demo_env ReqSession demo_client)\<lparr>csSession := Some ''t''\<rparr>"
  obtain s1 where "put_chunk demo_env (?part 0) ''t'' ?s = (Inr ''t'', s1)" using first by blast
  then have "put_chunks demo_env ?part [0] ''t'' ?s = (Inr ''t'', s1)" by (simp del: One_nat_def)
  moreover have "[0..<total_chunks 3] = [0]" by (simp add: one)
  ultimately have "put_chunks demo_env ?part [0..<total_chunks 3] ''t'' ?s = (Inr ''t'', s1)" by (simp only:)
  then have "uploadChunked demo_env ''/tmp/x'' ''/docs'' 3 [''source'' \<mapsto> ''x'', ''upload_idempotency_key'' \<mapsto> ''i''] demo_client =
      finalizeChunkedUpload demo_env ''t'' ''/docs'' ''c1'' (total_chunks 3) 3 [''source'' \<mapsto> ''x'', ''upload_idempotency_key'' \<mapsto> ''i''] s1"
    by (simp add: uploadChunked_def uploadSession_def send_def Let_def demo_client_def)
  then show ?thesis using demo_finalize by (fastforce split: option.split)
qed

theorem uploadChunked_complete_witness:
  "\<exists>resp s' cid csrf ev1 ev2. let n = total_chunks 3; part = chunk_part ''/tmp/x'' ''/docs'' cid n 3 [''source'' \<mapsto> ''x'', ''upload_idempotency_key'' \<mapsto> ''i''] in
    uploadChunked demo_env ''/tmp/x'' ''/docs'' 3 [''source'' \<mapsto> ''x'', ''upload_idempotency_key'' \<mapsto> ''i''] demo_client = Some (Inr resp, s') \<and>
    accepted demo_env ev1 = map (\<lambda>k. ReqForm (chunk_fields demo_env csrf (part k)) (Some (chunk_data (part k) [1, 2, 3]))) [0..<n] \<and>
    concat (map (\<lambda>k. chunk_data (part k) [1, 2, 3]) [0..<n]) = [1, 2, 3] \<and> rsSuccess resp"
proof -
  obtain resp s' where run: "uploadChunked demo_env ''/tmp/x'' ''/docs'' (int (length [1, 2, 3 :: 8 word]))
      [''source'' \<mapsto> ''x'', ''upload_idempotency_key'' \<mapsto> ''i''] demo_client = Some (Inr resp, s')"
    using demo_chunked_runs by (auto split: option.splits prod.splits sum.splits)
  have "\<And>h. cFile demo_env h ''/tmp/x'' = Some [1, 2, 3]" by (simp add: demo_env_def)
  from uploadChunked_complete [OF this run] run show ?thesis unfolding Let_def by fastforce
qed

lemma demo_upload_runs:
  "case UploadFile demo_env ''/tmp/x'' ''x'' ''/docs'' demo_extra demo_client of Some (Inr r, s') \<Rightarrow> True | _ \<Rightarrow> False"
proof -
  show ?thesis
    by (simp add: UploadFile_def Let_def uploadSingleBodyMaxBytes_def uploadWholeBody_def whole_once_def send_def retryDelays_def)
qed

lemma demo_options:
  "let opts = upload_options_of demo_env [] ''x'' ''/docs'' demo_extra in
   opt opts ''sealed_key'' \<noteq> [] \<and> opt opts ''source'' = ''Tax return'' @ ''.'' @ ''pdf''"
  by code_simp

theorem upload_requests_sealed_witness:
  "\<exists>s' K. (\<exists>res. UploadFile demo_env ''/tmp/x'' ''x'' ''/docs'' demo_extra demo_client = Some (Inr res, s')) \<and>
     sends (upload_request K ''f.pdf'') demo_client s' \<and> K \<noteq> []"
proof -
  obtain res s' where run: "UploadFile demo_env ''/tmp/x'' ''x'' ''/docs'' demo_extra demo_client = Some (Inr res, s')"
    using demo_upload_runs by (auto split: option.splits prod.splits sum.splits)
  let ?opts = "upload_options_of demo_env (csHist demo_client) ''x'' ''/docs'' demo_extra"
  have o: "opt ?opts ''sealed_key'' \<noteq> []" "opt ?opts ''source'' = ''Tax return'' @ ''.'' @ ''pdf''"
    using demo_options by (simp_all add: Let_def demo_client_def)
  have "CHR ''.'' \<notin> set ''pdf''" "''Tax return'' \<noteq> []" by simp_all
  then have "wire_name demo_env ?opts = CHR ''f'' # cToLower demo_env (CHR ''.'' # ''pdf'')"
    using upload_requests_sealed [OF run refl refl] o by blast
  then have "wire_name demo_env ?opts = ''f.pdf''" by (simp only:) (simp add: demo_env_def)
  then show ?thesis using upload_requests_sealed [OF run refl refl] run by metis
qed

theorem upload_ends_witness:
  "ticking pending_env \<and> (\<exists>res s'. UploadFile pending_env ''/tmp/x'' ''x'' ''/docs'' demo_extra demo_client = Some (res, s'))"
proof -
  have t: "ticking pending_env" by (simp add: ticking_def pending_env_def demo_env_def)
  then show ?thesis using upload_ends [OF t] by blast
qed

theorem download_all_or_nothing_witness:
  "case DownloadFile demo_env ''/docs/x'' ''/tmp/x'' None demo_client of
     (Inl e, s') \<Rightarrow> False | (Inr d, s') \<Rightarrow> csLocal s' = [''/tmp/x'' \<mapsto> [7]]"
proof -
  obtain res s' where run: "DownloadFile demo_env ''/docs/x'' ''/tmp/x'' None demo_client = (res, s')" by fastforce
  have "case fst (DownloadFile demo_env ''/docs/x'' ''/tmp/x'' None demo_client) of Inl e \<Rightarrow> False | Inr d \<Rightarrow> True" by code_simp
  then obtain d where d: "res = Inr d" using run by (cases res) auto
  have "last (csHist (snd (DownloadFile demo_env ''/docs/x'' ''/tmp/x'' None demo_client))) =
      Sent (ReqDownload ''dl'' (download_options ''/docs/x'' None)) (Inr ok_resp)"
    by (simp add: DownloadFile_def streamDownload_def retryDelays_def stream_once_def send_def Let_def demo_env_def demo_client_def ok_resp_def
        fileSink_def fst_result_def)
  then show ?thesis using download_all_or_nothing [OF run] run d by (auto simp: demo_client_def ok_resp_def)
qed

theorem memory_download_bounded_witness:
  "case DownloadToMemory demo_env ''/docs/x'' None demo_client of (Inl e, s') \<Rightarrow> False | (Inr (data, d), s') \<Rightarrow> length data \<le> 600 * 1024 * 1024"
proof -
  obtain res s' where run: "DownloadToMemory demo_env ''/docs/x'' None demo_client = (res, s')" by fastforce
  have "case fst (DownloadToMemory demo_env ''/docs/x'' None demo_client) of Inl e \<Rightarrow> False | Inr d \<Rightarrow> True"
    by (simp add: DownloadToMemory_def streamDownload_def retryDelays_def stream_once_def send_def Let_def)
  then show ?thesis using memory_download_bounded [OF run] run by (cases res) auto
qed

theorem attestation_bounded_witness:
  "case FetchTeeAttestation demo_env demo_client of (Inl e, s') \<Rightarrow> False | (Inr a, s') \<Rightarrow> length (asks (csHist s')) \<le> 4 \<and> atSuccess a"
proof -
  obtain res s' where run: "FetchTeeAttestation demo_env demo_client = (res, s')" by fastforce
  have "jAttest demo_env b = Some ok_attestation" for b by (simp add: demo_env_def)
  then have "case fst (FetchTeeAttestation demo_env demo_client) of Inl e \<Rightarrow> False | Inr d \<Rightarrow> True"
    by (simp add: FetchTeeAttestation_def TeeAttestationRetryDelays_def fetchTeeAttestationOnce_def send_def Let_def ok_attestation_def)
  then show ?thesis using attestation_bounded [OF run] run by (cases res) (auto simp: demo_client_def)
qed

end
