(* ===== verification/Signing.thy ===== *)
theory Signing
  imports HybridSeal FileCrypt Names
begin

text \<open>
  Hybrid signatures (Ed25519 and ML-DSA-44 together): \<open>internal/crypto/sign.go\<close>, the transfer of keys to
  a device, \<open>internal/crypto/device_transfer.go\<close> and \<open>internal/crypto/background_transfer.go\<close>, and the
  account fingerprint, \<open>internal/crypto/account.go\<close>.

  The signature schemes are parameters: a record of functions, with the sizes of ML-DSA. What the code
  relies on is that verification accepts what signing produced with the matching private key (\<open>signing_pair\<close>).
\<close>

section \<open>Base64 decoding\<close>

text \<open>The standard encoding of Go: line breaks are skipped, padding is required, spare bits are ignored.\<close>

definition b64_value :: "char \<Rightarrow> nat option" where
  "b64_value c =
     (let n = of_char c :: nat in
      if 65 \<le> n \<and> n \<le> 90 then Some (n - 65)
      else if 97 \<le> n \<and> n \<le> 122 then Some (n - 71)
      else if 48 \<le> n \<and> n \<le> 57 then Some (n + 4)
      else if n = 43 then Some 62
      else if n = 47 then Some 63
      else None)"

fun b64_groups :: "string \<Rightarrow> bytes option" where
  "b64_groups [] = Some []"
| "b64_groups (a # b # c # d # rest) =
     (case (b64_value a, b64_value b) of
        (Some x, Some y) \<Rightarrow>
          (if c = CHR ''='' then
             if d = CHR ''='' \<and> rest = [] then Some [word_of_nat (x * 4 + y div 16)] else None
           else case b64_value c of
                  None \<Rightarrow> None
                | Some z \<Rightarrow>
                    if d = CHR ''='' then
                      if rest = [] then Some [word_of_nat (x * 4 + y div 16), word_of_nat (y mod 16 * 16 + z div 4)] else None
                    else case b64_value d of
                           None \<Rightarrow> None
                         | Some w \<Rightarrow>
                             map_option (\<lambda>bs. word_of_nat (x * 4 + y div 16) # word_of_nat (y mod 16 * 16 + z div 4) #
                                              word_of_nat (z mod 4 * 64 + w) # bs) (b64_groups rest))
      | _ \<Rightarrow> None)"
| "b64_groups _ = None"

definition b64_decode :: "string \<Rightarrow> bytes option" where
  "b64_decode s = b64_groups (filter (\<lambda>c. c \<noteq> CHR 0x0A \<and> c \<noteq> CHR 0x0D) s)"

section \<open>Signature schemes\<close>

record sig_prims =
  gEdGen :: "bytes \<Rightarrow> (bytes \<times> bytes) option"
  gEdSign :: "bytes \<Rightarrow> bytes \<Rightarrow> bytes"
  gEdVerify :: "bytes \<Rightarrow> bytes \<Rightarrow> bytes \<Rightarrow> bool"
  gMlGen :: "bytes \<Rightarrow> (bytes \<times> bytes) option"
  gMlSign :: "bytes \<Rightarrow> bytes \<Rightarrow> bytes option"
  gMlVerify :: "bytes \<Rightarrow> bytes \<Rightarrow> bytes \<Rightarrow> bool option"
  gMlPublic :: "bytes \<Rightarrow> bytes option"
  gKyberPublic :: "bytes \<Rightarrow> bytes option"
  Mldsa44SigSize :: nat
  Mldsa44PKSize :: nat
  Mldsa44SKSize :: nat

definition SignatureDomain :: string where "SignatureDomain = ''pigcloud-file-signature-v1''"
definition TEESignatureDomain :: string where "TEESignatureDomain = ''pigcloud-tee-file-signature-v1''"
definition Ed25519SigSize :: nat where "Ed25519SigSize = 64"
definition Ed25519PKSize :: nat where "Ed25519PKSize = 32"
definition Ed25519SKSize :: nat where "Ed25519SKSize = 64"

lemmas sign_sizes = Ed25519SigSize_def Ed25519PKSize_def Ed25519SKSize_def

record SigningPublicKeySet =
  spkEd25519 :: bytes
  spkMldsa :: bytes

record SigningPrivateKeySet =
  sskEd25519 :: bytes
  sskMldsa :: bytes

definition valid_signing_private :: "sig_prims \<Rightarrow> SigningPrivateKeySet \<Rightarrow> bool" where
  "valid_signing_private G priv \<longleftrightarrow> length (sskEd25519 priv) = Ed25519SKSize \<and> length (sskMldsa priv) = Mldsa44SKSize G"

definition GenerateSigningKeyPair :: "sig_prims \<Rightarrow> bytes \<Rightarrow> bytes \<Rightarrow> string + SigningPublicKeySet \<times> SigningPrivateKeySet" where
  "GenerateSigningKeyPair G edSeed mlSeed =
     (case gEdGen G edSeed of
        None \<Rightarrow> Inl ''ed25519 keygen''
      | Some (edPub, edPriv) \<Rightarrow>
          (case gMlGen G mlSeed of
             None \<Rightarrow> Inl ''mldsa44 keygen''
           | Some (mlPub, mlPriv) \<Rightarrow>
               Inr (\<lparr>spkEd25519 = edPub, spkMldsa = mlPub\<rparr>, \<lparr>sskEd25519 = edPriv, sskMldsa = mlPriv\<rparr>)))"

record EncryptedSigningPrivateKeySet =
  esEd25519Ciphertext :: bytes
  esEd25519Nonce :: bytes
  esMldsaCiphertext :: bytes
  esMldsaNonce :: bytes

definition EncryptSigningPrivateKeys ::
  "prims \<Rightarrow> sig_prims \<Rightarrow> SigningPrivateKeySet option \<Rightarrow> bytes \<Rightarrow> bytes \<Rightarrow> bytes \<Rightarrow> string + EncryptedSigningPrivateKeySet" where
  "EncryptSigningPrivateKeys P G privo pdk edNonce mlNonce =
     (case privo of
        None \<Rightarrow> Inl ''invalid signing private key set''
      | Some priv \<Rightarrow>
          if \<not> valid_signing_private G priv then Inl ''invalid signing private key set''
          else if length pdk \<noteq> KeySize then Inl ''pdk must be 32 bytes''
          else Inr \<lparr>esEd25519Ciphertext = pSeal P pdk edNonce (sskEd25519 priv) [], esEd25519Nonce = edNonce,
                    esMldsaCiphertext = pSeal P pdk mlNonce (sskMldsa priv) [], esMldsaNonce = mlNonce\<rparr>)"

definition DecryptSigningPrivateKeys ::
  "prims \<Rightarrow> sig_prims \<Rightarrow> EncryptedSigningPrivateKeySet option \<Rightarrow> bytes \<Rightarrow> string + SigningPrivateKeySet" where
  "DecryptSigningPrivateKeys P G enco pdk =
     (case enco of
        None \<Rightarrow> Inl ''encrypted signing key set is nil''
      | Some enc \<Rightarrow>
          if length pdk \<noteq> KeySize then Inl ''pdk must be 32 bytes''
          else if length (esEd25519Nonce enc) \<noteq> NonceSize then Inl ''ed25519 nonce must be 24 bytes''
          else if length (esMldsaNonce enc) \<noteq> NonceSize then Inl ''mldsa nonce must be 24 bytes''
          else case pOpen P pdk (esEd25519Nonce enc) (esEd25519Ciphertext enc) [] of
                 None \<Rightarrow> Inl ''wrong key or corrupted ed25519 sk''
               | Some edPlain \<Rightarrow>
                   if length edPlain \<noteq> Ed25519SKSize then Inl ''unexpected ed25519 sk length''
                   else (case pOpen P pdk (esMldsaNonce enc) (esMldsaCiphertext enc) [] of
                           None \<Rightarrow> Inl ''wrong key or corrupted mldsa sk''
                         | Some mlPlain \<Rightarrow>
                             if length mlPlain \<noteq> Mldsa44SKSize G then Inl ''unexpected mldsa sk length''
                             else Inr \<lparr>sskEd25519 = edPlain, sskMldsa = mlPlain\<rparr>))"

section \<open>Signatures of files\<close>

text \<open>A digest of any other length is a panic.\<close>

definition signingInput :: "string \<Rightarrow> bytes \<Rightarrow> bytes option" where
  "signingInput domain digest = (if length digest \<noteq> 32 then None else Some (bytes_of_string domain @ digest))"

text \<open>A reader that fails is \<open>None\<close>.\<close>

definition hashCiphertext :: "prims \<Rightarrow> bytes option \<Rightarrow> string + bytes" where
  "hashCiphertext P r = (case r of None \<Rightarrow> Inl ''hash ciphertext'' | Some data \<Rightarrow> Inr (pSha256 P data))"

definition SignFileBytes :: "prims \<Rightarrow> sig_prims \<Rightarrow> bytes option \<Rightarrow> SigningPrivateKeySet option \<Rightarrow> string + bytes \<times> bytes" where
  "SignFileBytes P G r privo =
     (case privo of
        None \<Rightarrow> Inl ''invalid signing private key set''
      | Some priv \<Rightarrow>
          if \<not> valid_signing_private G priv then Inl ''invalid signing private key set''
          else case hashCiphertext P r of
                 Inl e \<Rightarrow> Inl e
               | Inr digest \<Rightarrow>
                   (case signingInput SignatureDomain digest of
                      None \<Rightarrow> Inl ''panic''
                    | Some inp \<Rightarrow>
                        (case gMlSign G (sskMldsa priv) inp of
                           None \<Rightarrow> Inl ''mldsa44 sign''
                         | Some mlSig \<Rightarrow> Inr (gEdSign G (sskEd25519 priv) inp, mlSig))))"

definition verifySignaturePair ::
  "prims \<Rightarrow> sig_prims \<Rightarrow> bytes option \<Rightarrow> string \<Rightarrow> bytes \<Rightarrow> bytes \<Rightarrow> SigningPublicKeySet option \<Rightarrow> string \<Rightarrow> string option" where
  "verifySignaturePair P G r domain sigEd sigMldsa pubo errPrefix =
     (if length sigEd \<noteq> Ed25519SigSize \<or> length sigMldsa \<noteq> Mldsa44SigSize G then Some (errPrefix @ ''_missing'')
      else case pubo of
             None \<Rightarrow> Some (errPrefix @ ''_public_key_missing'')
           | Some pub \<Rightarrow>
               if length (spkMldsa pub) \<noteq> Mldsa44PKSize G then Some (errPrefix @ ''_public_key_missing'')
               else case hashCiphertext P r of
                      Inl e \<Rightarrow> Some e
                    | Inr digest \<Rightarrow>
                        (case signingInput domain digest of
                           None \<Rightarrow> Some ''panic''
                         | Some inp \<Rightarrow>
                             if \<not> gEdVerify G (spkEd25519 pub) inp sigEd then Some (errPrefix @ ''_invalid_ed25519'')
                             else (case gMlVerify G (spkMldsa pub) inp sigMldsa of
                                     None \<Rightarrow> Some ''mldsa44 pub unmarshal''
                                   | Some ok \<Rightarrow> if ok then None else Some (errPrefix @ ''_invalid_mldsa''))))"

definition VerifyFileSignatures ::
  "prims \<Rightarrow> sig_prims \<Rightarrow> bytes option \<Rightarrow> bytes \<Rightarrow> bytes \<Rightarrow> SigningPublicKeySet option \<Rightarrow> string option" where
  "VerifyFileSignatures P G r sigEd sigMldsa pub = verifySignaturePair P G r SignatureDomain sigEd sigMldsa pub ''file_signature''"

definition VerifyTEEFileSignatures ::
  "prims \<Rightarrow> sig_prims \<Rightarrow> bytes option \<Rightarrow> bytes \<Rightarrow> bytes \<Rightarrow> SigningPublicKeySet option \<Rightarrow> string option" where
  "VerifyTEEFileSignatures P G r sigEd sigMldsa pub = verifySignaturePair P G r TEESignatureDomain sigEd sigMldsa pub ''tee_file_signature''"

section \<open>Signed key bundles\<close>

definition KeyBundleDomain :: string where "KeyBundleDomain = ''pigcloud-key-bundle-v1''"

record KeyBundle =
  kbX25519 :: bytes
  kbKyber :: bytes
  kbEd25519 :: bytes
  kbMldsa :: bytes

definition keyBundleInput :: "sig_prims \<Rightarrow> KeyBundle \<Rightarrow> bytes option" where
  "keyBundleInput G b =
     (if length (kbX25519 b) \<noteq> 32 \<or> length (kbKyber b) \<noteq> KyberPublicKeySize \<or> length (kbEd25519 b) \<noteq> Ed25519PKSize \<or>
         length (kbMldsa b) \<noteq> Mldsa44PKSize G then None
      else Some (bytes_of_string KeyBundleDomain @ kbX25519 b @ kbKyber b @ kbEd25519 b @ kbMldsa b))"

definition SignKeyBundle :: "sig_prims \<Rightarrow> KeyBundle \<Rightarrow> SigningPrivateKeySet \<Rightarrow> string + bytes \<times> bytes" where
  "SignKeyBundle G b priv =
     (case keyBundleInput G b of
        None \<Rightarrow> Inl ''key bundle field size mismatch''
      | Some inp \<Rightarrow>
          (case gMlSign G (sskMldsa priv) inp of
             None \<Rightarrow> Inl ''mldsa44 sign''
           | Some sigMldsa \<Rightarrow> Inr (gEdSign G (sskEd25519 priv) inp, sigMldsa)))"

definition VerifyKeyBundle :: "sig_prims \<Rightarrow> KeyBundle \<Rightarrow> bytes \<Rightarrow> bytes \<Rightarrow> bool" where
  "VerifyKeyBundle G b sigEd sigMldsa =
     (case keyBundleInput G b of
        None \<Rightarrow> False
      | Some inp \<Rightarrow>
          if length sigEd \<noteq> Ed25519SigSize \<or> length sigMldsa \<noteq> Mldsa44SigSize G then False
          else if \<not> gEdVerify G (kbEd25519 b) inp sigEd then False
          else gMlVerify G (kbMldsa b) inp sigMldsa = Some True)"

section \<open>Keys handed to a device\<close>

definition DeviceKeyTransferVersion :: byte where "DeviceKeyTransferVersion = 1"
definition BackgroundKeyTransferVersion :: byte where "BackgroundKeyTransferVersion = 2"
definition NameKeySize :: nat where "NameKeySize = 32"

definition DeviceKeyTransferSize :: "sig_prims \<Rightarrow> nat" where
  "DeviceKeyTransferSize G = 1 + 32 + KyberSeedSize + Ed25519SKSize + Mldsa44SKSize G"

definition BackgroundKeyTransferSize :: "sig_prims \<Rightarrow> nat" where
  "BackgroundKeyTransferSize G = 1 + NameKeySize + NameKeySize + Ed25519SKSize + Mldsa44SKSize G + 32 + KyberPublicKeySize"

definition ParseDeviceKeyTransfer :: "sig_prims \<Rightarrow> bytes \<Rightarrow> string + PrivateKeySet \<times> SigningPrivateKeySet" where
  "ParseDeviceKeyTransfer G payload =
     (if length payload \<noteq> DeviceKeyTransferSize G then Inl ''device transfer: wrong size''
      else if payload ! 0 \<noteq> DeviceKeyTransferVersion then Inl ''device transfer: unsupported version''
      else
        let r1 = drop 1 payload; r2 = drop 32 r1; r3 = drop KyberSeedSize r2; r4 = drop Ed25519SKSize r3 in
        Inr (\<lparr>privX25519 = take 32 r1, privKyber = take KyberSeedSize r2\<rparr>,
             \<lparr>sskEd25519 = take Ed25519SKSize r3, sskMldsa = take (Mldsa44SKSize G) r4\<rparr>))"

definition DeriveHybridPublic :: "prims \<Rightarrow> sig_prims \<Rightarrow> PrivateKeySet option \<Rightarrow> string + PublicKeySet" where
  "DeriveHybridPublic P G privo =
     (case privo of
        None \<Rightarrow> Inl ''invalid private key set''
      | Some priv \<Rightarrow>
          if length (privKyber priv) \<noteq> KyberSeedSize then Inl ''invalid private key set''
          else case gKyberPublic G (privKyber priv) of
                 None \<Rightarrow> Inl ''mlkem decapsulation key''
               | Some ek \<Rightarrow>
                   if length ek \<noteq> KyberPublicKeySize then Inl ''unexpected mlkem encapsulation key length''
                   else Inr \<lparr>pubX25519 = pBase P (privX25519 priv), pubKyber = ek\<rparr>)"

definition DeriveSigningPublic :: "sig_prims \<Rightarrow> SigningPrivateKeySet option \<Rightarrow> string + SigningPublicKeySet" where
  "DeriveSigningPublic G privo =
     (case privo of
        None \<Rightarrow> Inl ''invalid signing private key set''
      | Some priv \<Rightarrow>
          if \<not> valid_signing_private G priv then Inl ''invalid signing private key set''
          else case gMlPublic G (sskMldsa priv) of
                 None \<Rightarrow> Inl ''mldsa44 priv unmarshal''
               | Some mlPub \<Rightarrow> Inr \<lparr>spkEd25519 = drop 32 (sskEd25519 priv), spkMldsa = mlPub\<rparr>)"

record BackgroundKeyMaterial =
  bgNameKey :: bytes
  bgParentKey :: bytes
  bgSigningPriv :: "SigningPrivateKeySet option"
  bgSigningPub :: "SigningPublicKeySet option"
  bgPub :: "PublicKeySet option"

definition ParseBackgroundKeyTransfer :: "sig_prims \<Rightarrow> bytes \<Rightarrow> string + BackgroundKeyMaterial" where
  "ParseBackgroundKeyTransfer G payload =
     (if payload \<noteq> [] \<and> payload ! 0 = DeviceKeyTransferVersion then Inl ''background transfer: refusing a device-login payload''
      else if length payload \<noteq> BackgroundKeyTransferSize G then Inl ''background transfer: wrong size''
      else if payload ! 0 \<noteq> BackgroundKeyTransferVersion then Inl ''background transfer: unsupported version''
      else
        let r1 = drop 1 payload; r2 = drop NameKeySize r1; r3 = drop NameKeySize r2; r4 = drop Ed25519SKSize r3;
            r5 = drop (Mldsa44SKSize G) r4; r6 = drop 32 r5;
            signPriv = \<lparr>sskEd25519 = take Ed25519SKSize r3, sskMldsa = take (Mldsa44SKSize G) r4\<rparr>
        in case DeriveSigningPublic G (Some signPriv) of
             Inl e \<Rightarrow> Inl (''background transfer: '' @ e)
           | Inr signPub \<Rightarrow>
               Inr \<lparr>bgNameKey = take NameKeySize r1, bgParentKey = take NameKeySize r2, bgSigningPriv = Some signPriv,
                    bgSigningPub = Some signPub, bgPub = Some \<lparr>pubX25519 = take 32 r5, pubKyber = take KyberPublicKeySize r6\<rparr>\<rparr>)"

definition AccountFingerprint :: "prims \<Rightarrow> bytes \<Rightarrow> string" where
  "AccountFingerprint P pub = (if pub = [] then [] else hex_encode (take 8 (pSha256 P pub)))"

end
