(* ===== verification/Pins.thy ===== *)
theory Pins
  imports Signing ApiClient
begin

text \<open>
  Pinned keys, package \<open>internal/e2ee\<close>: the own signing keys (\<open>signing_pin.go\<close>), the signing keys of
  peers (\<open>peer_signing_pin.go\<close>), the encryption keys of peers (\<open>peer_seal_pin.go\<close>), the keys and the
  posture of the scanner (\<open>tee_signing_pin.go\<close>), and the check of a download against them
  (\<open>verify_download.go\<close>).

  The state is the four pin files, as the JSON values they hold, and the variables of the package that
  remember what was asked of the server. The environment says what the server answers, what time it is and
  whether a file can be written, as functions of a counter that advances with every such event.
\<close>

section \<open>Files\<close>

text \<open>A pin file: not there, not readable, not JSON of any known shape, the list of the first format of the own
  keys, or a version with the buckets of the accounts.\<close>

datatype 'a pin_file = Absent | Unreadable | Malformed | LegacyList "string list" | Stored int "(string \<rightharpoonup> 'a) option"

record peerSealPk =
  psFp :: string
  psEd :: string
  psMl :: string

record teeAttestationPosture =
  poMode :: string
  poMrenclave :: string
  poSealingPk :: string
  poSealingPkKyber :: string

record retiredTeeSigningPk =
  rtEd :: string
  rtMl :: string
  rtRetiredAt :: string

record teeSigningPk =
  tsEd :: string
  tsMl :: string
  tsPosture :: "teeAttestationPosture option"
  tsRetired :: "retiredTeeSigningPk list"

record PeerKeyBundle =
  pbX25519 :: bytes
  pbKyber :: bytes
  pbEd25519 :: bytes
  pbMldsa :: bytes
  pbBundleSig :: bytes

record signingPkHistoryBlob =
  hbV :: int
  hbEds :: "string list"
  hbSigEd :: string
  hbSigMl :: string

record keyBundleSigBlob =
  bsV :: int
  bsSigEd :: string
  bsSigMl :: string

record E2EEPubkeyPayload =
  ppPublicKey :: string
  ppPublicKeyKyber :: string
  ppSigningPublicKeyEd25519 :: string
  ppSigningPublicKeyMldsa :: string
  ppKeyBundleSig :: string

section \<open>Environment and state\<close>

record pin_env =
  pvPrims :: prims
  pvSig :: sig_prims
  pvPublicKey :: string
  pvDir :: bool
  pvNow :: "nat \<Rightarrow> int"
  pvStamp :: "nat \<Rightarrow> string"
  pvWrite :: "nat \<Rightarrow> bool"
  pvMkdir :: "nat \<Rightarrow> bool"
  pvLock :: "nat \<Rightarrow> bool"
  pvRename :: "nat \<Rightarrow> bool"
  pvHistory :: "nat \<Rightarrow> string option"
  pvFriends :: "nat \<Rightarrow> string list option"
  pvPubkey :: "nat \<Rightarrow> string \<Rightarrow> E2EEPubkeyPayload option"
  pvAttest :: "nat \<Rightarrow> string + TeeAttestationResponse"
  jHistoryBlob :: "bytes \<Rightarrow> signingPkHistoryBlob option"
  jBundleSig :: "bytes \<Rightarrow> keyBundleSigBlob option"

record pins =
  pnTick :: nat
  pnOwn :: "string list pin_file"
  pnPeer :: "(string \<rightharpoonup> string) pin_file"
  pnSeal :: "(string \<rightharpoonup> peerSealPk) pin_file"
  pnTee :: "teeSigningPk pin_file"
  ownSigningHistorySeeded :: bool
  ownSigningHistoryNextTry :: int
  friendSet :: "string list option"
  friendSetAt :: int
  friendSetNextTry :: int
  peerBundles :: "string \<rightharpoonup> PeerKeyBundle"
  peerBundleNextTry :: "string \<rightharpoonup> int"
  teeSigningAtt :: "(string \<times> string) option"
  teeSigningAttNextTry :: int

definition minute :: int where "minute = 60 * 1000000000"

definition tick :: "pins \<Rightarrow> pins" where "tick s = s\<lparr>pnTick := Suc (pnTick s)\<rparr>"

definition now :: "pin_env \<Rightarrow> pins \<Rightarrow> int" where "now E s = pvNow E (pnTick s)"

definition signingPinOwner :: "pin_env \<Rightarrow> string" where
  "signingPinOwner E = (case b64_decode (pvPublicKey E) of None \<Rightarrow> [] | Some raw \<Rightarrow> AccountFingerprint (pvPrims E) raw)"

section \<open>The own signing keys\<close>

definition ownSigningPksMax :: nat where "ownSigningPksMax = 16"

definition loadSigningPkFile :: "pin_env \<Rightarrow> pins \<Rightarrow> string \<rightharpoonup> string list" where
  "loadSigningPkFile E s =
     (if \<not> pvDir E then Map.empty
      else case pnOwn s of
             Stored v (Some owners) \<Rightarrow> if v = 2 then owners else Map.empty
           | LegacyList xs \<Rightarrow> if xs \<noteq> [] \<and> signingPinOwner E \<noteq> [] then [signingPinOwner E \<mapsto> xs] else Map.empty
           | _ \<Rightarrow> Map.empty)"

definition loadSigningPkSet :: "pin_env \<Rightarrow> pins \<Rightarrow> string list" where
  "loadSigningPkSet E s =
     (if signingPinOwner E = [] then []
      else case loadSigningPkFile E s (signingPinOwner E) of None \<Rightarrow> [] | Some xs \<Rightarrow> xs)"

definition rememberSigningEdPub :: "pin_env \<Rightarrow> bytes \<Rightarrow> pins \<Rightarrow> pins" where
  "rememberSigningEdPub E pub s =
     (let owner = signingPinOwner E in
      if \<not> pvDir E \<or> owner = [] then s
      else
        let b64 = b64_encode pub; f = loadSigningPkFile E s;
            set0 = (case f owner of None \<Rightarrow> [] | Some xs \<Rightarrow> xs)
        in if b64 \<in> set set0 then s
           else
             let set1 = set0 @ [b64];
                 set2 = (if length set1 > ownSigningPksMax then drop (length set1 - ownSigningPksMax) set1 else set1)
             in if pvWrite E (pnTick s) then (tick s)\<lparr>pnOwn := Stored 2 (Some (f(owner \<mapsto> set2)))\<rparr> else tick s)"

definition SigningPinCount :: "pin_env \<Rightarrow> pins \<Rightarrow> nat" where
  "SigningPinCount E s = length (loadSigningPkSet E s)"

definition signingEdPubTrusted :: "pin_env \<Rightarrow> bytes \<Rightarrow> pins \<Rightarrow> bool" where
  "signingEdPubTrusted E pub s \<longleftrightarrow> b64_encode pub \<in> set (loadSigningPkSet E s)"

definition signingPkHistoryDomain :: string where "signingPkHistoryDomain = ''pigcloud-signing-pk-history-v1''"

fun decode_all :: "string list \<Rightarrow> bytes list option" where
  "decode_all [] = Some []"
| "decode_all (x # xs) =
     (case b64_decode x of None \<Rightarrow> None | Some raw \<Rightarrow> map_option (\<lambda>rs. raw # rs) (decode_all xs))"

definition verifySigningPkHistory :: "pin_env \<Rightarrow> bytes \<Rightarrow> bytes \<Rightarrow> bytes \<Rightarrow> bytes list" where
  "verifySigningPkHistory E blobJSON ownEdPub ownMldsaPub =
     (case jHistoryBlob E blobJSON of
        None \<Rightarrow> []
      | Some blob \<Rightarrow>
          if hbV blob \<noteq> 1 \<or> hbEds blob = [] \<or> hbSigEd blob = [] \<or> hbSigMl blob = [] then []
          else (case decode_all (hbEds blob) of
                  None \<Rightarrow> []
                | Some decoded \<Rightarrow>
                    (let inp = bytes_of_string signingPkHistoryDomain @ concat decoded in
                     case b64_decode (hbSigEd blob) of
                       None \<Rightarrow> []
                     | Some sigEd \<Rightarrow>
                         if length ownEdPub \<noteq> Ed25519PKSize then []
                         else if \<not> gEdVerify (pvSig E) ownEdPub inp sigEd then []
                         else (case b64_decode (hbSigMl blob) of
                                 None \<Rightarrow> []
                               | Some sigMl \<Rightarrow>
                                   if length ownMldsaPub \<noteq> Mldsa44PKSize (pvSig E) then []
                                   else if gMlVerify (pvSig E) ownMldsaPub inp sigMl \<noteq> Some True then []
                                   else decoded))))"

definition seedOwnSigningPkHistory :: "pin_env \<Rightarrow> bytes \<Rightarrow> bytes \<Rightarrow> pins \<Rightarrow> pins" where
  "seedOwnSigningPkHistory E ownEdPub ownMldsaPub s =
     (if ownSigningHistorySeeded s \<or> now E s < ownSigningHistoryNextTry s then s
      else
        let s1 = s\<lparr>ownSigningHistoryNextTry := now E s + minute\<rparr>; s2 = tick s1 in
        case pvHistory E (pnTick s1) of
          None \<Rightarrow> s2
        | Some h \<Rightarrow>
            if h = [] then s2\<lparr>ownSigningHistorySeeded := True\<rparr>
            else (case b64_decode h of
                    None \<Rightarrow> s2
                  | Some blobJSON \<Rightarrow>
                      (fold (rememberSigningEdPub E) (verifySigningPkHistory E blobJSON ownEdPub ownMldsaPub) s2)
                        \<lparr>ownSigningHistorySeeded := True\<rparr>))"

section \<open>The signing keys of peers\<close>

definition peerSigningPinVersion :: int where "peerSigningPinVersion = 1"
definition maxPeerNameLen :: nat where "maxPeerNameLen = 64"

definition loadPeerSigningPkFile :: "pin_env \<Rightarrow> pins \<Rightarrow> string \<rightharpoonup> (string \<rightharpoonup> string)" where
  "loadPeerSigningPkFile E s =
     (if \<not> pvDir E then Map.empty
      else case pnPeer s of
             Stored v (Some owners) \<Rightarrow> if v = peerSigningPinVersion then owners else Map.empty
           | _ \<Rightarrow> Map.empty)"

definition validPeerName :: "string \<Rightarrow> bool" where
  "validPeerName peer \<longleftrightarrow> peer \<noteq> [] \<and> length peer \<le> maxPeerNameLen \<and>
     list_all (\<lambda>c. (of_char c :: nat) \<ge> 0x20 \<and> (of_char c :: nat) \<noteq> 0x7f) peer \<and> CHR ''/'' \<notin> set peer \<and> CHR 0x5C \<notin> set peer"

definition peerSigningPkSeen :: "pin_env \<Rightarrow> string \<Rightarrow> pins \<Rightarrow> string option" where
  "peerSigningPkSeen E peer s =
     (if signingPinOwner E = [] \<or> \<not> validPeerName peer then None
      else case loadPeerSigningPkFile E s (signingPinOwner E) of None \<Rightarrow> None | Some bucket \<Rightarrow> bucket peer)"

definition recordPeerSigningPk :: "pin_env \<Rightarrow> string \<Rightarrow> string \<Rightarrow> pins \<Rightarrow> pins" where
  "recordPeerSigningPk E peer edB64 s =
     (let owner = signingPinOwner E in
      if \<not> pvDir E \<or> owner = [] \<or> \<not> validPeerName peer then s
      else
        let f = loadPeerSigningPkFile E s;
            bucket = (case f owner of None \<Rightarrow> Map.empty | Some b \<Rightarrow> b)
        in if pvWrite E (pnTick s)
           then (tick s)\<lparr>pnPeer := Stored peerSigningPinVersion (Some (f(owner \<mapsto> bucket(peer \<mapsto> edB64))))\<rparr>
           else tick s)"

definition friend_known :: "pins \<Rightarrow> string \<Rightarrow> bool" where
  "friend_known s peer = (case friendSet s of None \<Rightarrow> False | Some xs \<Rightarrow> peer \<in> set xs)"

definition friendSetTTL :: int where "friendSetTTL = 5 * minute"

definition peerHasFriendEdge :: "pin_env \<Rightarrow> string \<Rightarrow> pins \<Rightarrow> bool \<times> pins" where
  "peerHasFriendEdge E peer s =
     (if friendSet s \<noteq> None \<and> now E s - friendSetAt s < friendSetTTL then (friend_known s peer, s)
      else if now E s < friendSetNextTry s then (friend_known s peer, s)
      else
        let s1 = s\<lparr>friendSetNextTry := now E s + minute\<rparr>; s2 = tick s1 in
        case pvFriends E (pnTick s1) of
          None \<Rightarrow> (friend_known s2 peer, s2)
        | Some names \<Rightarrow>
            (let s3 = s2\<lparr>friendSet := Some (filter (\<lambda>n. n \<noteq> []) names), friendSetAt := now E s2\<rparr> in (friend_known s3 peer, s3)))"

text \<open>What a check leaves to be done once the signatures have been verified.\<close>

datatype commit = NoCommit | PinPeer string string | PinTee string string

definition checkForeignSignerOnOwnNode :: "pin_env \<Rightarrow> string \<Rightarrow> bytes \<Rightarrow> pins \<Rightarrow> (string + commit) \<times> pins" where
  "checkForeignSignerOnOwnNode E signedBy servedEd s =
     (if \<not> validPeerName signedBy then (Inl ''owner_signing_pk_untrusted'', s)
      else
        let servedB64 = b64_encode servedEd in
        case peerSigningPkSeen E signedBy s of
          None \<Rightarrow>
            (case peerHasFriendEdge E signedBy s of
               (False, s1) \<Rightarrow> (Inl ''owner_signing_pk_untrusted'', s1)
             | (True, s1) \<Rightarrow> (Inr (PinPeer signedBy servedB64), s1))
        | Some seen \<Rightarrow> if seen \<noteq> servedB64 then (Inl ''owner_signing_pk_changed'', s) else (Inr NoCommit, s))"

section \<open>The encryption keys of peers\<close>

definition peerSealPinVersion :: int where "peerSealPinVersion = 1"

definition anchored :: "peerSealPk \<Rightarrow> bool" where
  "anchored r \<longleftrightarrow> psEd r \<noteq> [] \<and> psMl r \<noteq> []"

text \<open>A store that is there but cannot be understood is an error, not an empty store.\<close>

definition loadPeerSealPkFile :: "pin_env \<Rightarrow> pins \<Rightarrow> string + (string \<rightharpoonup> (string \<rightharpoonup> peerSealPk))" where
  "loadPeerSealPkFile E s =
     (if \<not> pvDir E then Inl ''no CLI config directory''
      else case pnSeal s of
             Absent \<Rightarrow> Inr Map.empty
           | Stored v (Some owners) \<Rightarrow> if v = peerSealPinVersion then Inr owners else Inl ''unknown pin-store version''
           | Stored v None \<Rightarrow> Inl ''unknown pin-store version''
           | _ \<Rightarrow> Inl ''not readable as a pin store'')"

definition peerSealRecord :: "pin_env \<Rightarrow> string \<Rightarrow> pins \<Rightarrow> string + peerSealPk option" where
  "peerSealRecord E peer s =
     (let owner = signingPinOwner E in
      if owner = [] \<or> \<not> validPeerName peer then Inl ''no account key set is configured''
      else case loadPeerSealPkFile E s of
             Inl e \<Rightarrow> Inl e
           | Inr f \<Rightarrow>
               (case f owner of
                  None \<Rightarrow> Inr None
                | Some bucket \<Rightarrow>
                    (case bucket peer of
                       None \<Rightarrow> Inr None
                     | Some rec \<Rightarrow> Inr (if psFp rec \<noteq> [] then Some rec else None))))"

definition writePeerSealRecord :: "pin_env \<Rightarrow> string \<Rightarrow> peerSealPk \<Rightarrow> pins \<Rightarrow> string option \<times> pins" where
  "writePeerSealRecord E peer rec s =
     (let owner = signingPinOwner E; s1 = tick s in
      if \<not> pvDir E \<or> owner = [] \<or> \<not> validPeerName peer then (Some ''no account key set is configured'', s)
      else if \<not> pvMkdir E (pnTick s) then (Some ''mkdir'', s1)
      else if \<not> pvLock E (pnTick s) then (Some ''lock'', s1)
      else case loadPeerSealPkFile E s of
             Inl e \<Rightarrow> (Some e, s1)
           | Inr f \<Rightarrow>
               (let bucket = (case f owner of None \<Rightarrow> Map.empty | Some b \<Rightarrow> b) in
                if pvWrite E (pnTick s)
                then (None, s1\<lparr>pnSeal := Stored peerSealPinVersion (Some (f(owner \<mapsto> bucket(peer \<mapsto> rec))))\<rparr>)
                else (Some ''write'', s1)))"

definition PinnedPeerSealFingerprint :: "pin_env \<Rightarrow> string \<Rightarrow> pins \<Rightarrow> string" where
  "PinnedPeerSealFingerprint E peer s =
     (case peerSealRecord E peer s of Inr (Some rec) \<Rightarrow> psFp rec | _ \<Rightarrow> [])"

definition sealKeyFingerprint :: "pin_env \<Rightarrow> bytes \<Rightarrow> bytes \<Rightarrow> string" where
  "sealKeyFingerprint E x25519 kyber = b64_encode (pSha256 (pvPrims E) (x25519 @ kyber))"

text \<open>Groups of four characters, as many as are complete, separated by spaces.\<close>

fun groups4 :: "string \<Rightarrow> string list" where
  "groups4 (a # b # c # d # rest) = [a, b, c, d] # groups4 rest"
| "groups4 _ = []"

fun join_spaces :: "string list \<Rightarrow> string" where
  "join_spaces [] = []"
| "join_spaces [x] = x"
| "join_spaces (x # y # ys) = x @ '' '' @ join_spaces (y # ys)"

definition FingerprintDisplay :: "string \<Rightarrow> string" where
  "FingerprintDisplay fpB64 =
     (case b64_decode fpB64 of
        None \<Rightarrow> ''none''
      | Some raw \<Rightarrow> if raw = [] then ''none'' else join_spaces (groups4 (hex_encode raw)))"

definition usableSealKey :: "PeerKeyBundle \<Rightarrow> bool" where
  "usableSealKey b \<longleftrightarrow> length (pbX25519 b) = 32 \<and> length (pbKyber b) = KyberPublicKeySize"

definition signingAnchors :: "pin_env \<Rightarrow> PeerKeyBundle \<Rightarrow> string \<times> string" where
  "signingAnchors E b =
     (if length (pbEd25519 b) = Ed25519PKSize \<and> length (pbMldsa b) = Mldsa44PKSize (pvSig E)
      then (b64_encode (pbEd25519 b), b64_encode (pbMldsa b)) else ([], []))"

definition SealKeySet :: "PeerKeyBundle \<Rightarrow> string + PublicKeySet" where
  "SealKeySet b =
     (if \<not> usableSealKey b then Inl ''peer_seal_pk_missing'' else Inr \<lparr>pubX25519 = pbX25519 b, pubKyber = pbKyber b\<rparr>)"

definition bundle_keys :: "PeerKeyBundle \<Rightarrow> KeyBundle" where
  "bundle_keys b = \<lparr>kbX25519 = pbX25519 b, kbKyber = pbKyber b, kbEd25519 = pbEd25519 b, kbMldsa = pbMldsa b\<rparr>"

definition bundleSelfSigned :: "pin_env \<Rightarrow> PeerKeyBundle \<Rightarrow> bool" where
  "bundleSelfSigned E b =
     (if \<not> usableSealKey b \<or> length (pbEd25519 b) \<noteq> Ed25519PKSize \<or> length (pbMldsa b) \<noteq> Mldsa44PKSize (pvSig E) \<or> pbBundleSig b = []
      then False
      else case jBundleSig E (pbBundleSig b) of
             None \<Rightarrow> False
           | Some blob \<Rightarrow>
               if bsV blob \<noteq> 1 then False
               else (case (b64_decode (bsSigEd blob), b64_decode (bsSigMl blob)) of
                       (Some sigEd, Some sigMl) \<Rightarrow> VerifyKeyBundle (pvSig E) (bundle_keys b) sigEd sigMl
                     | _ \<Rightarrow> False))"

definition sealRotationAttributable :: "pin_env \<Rightarrow> peerSealPk \<Rightarrow> PeerKeyBundle \<Rightarrow> bool" where
  "sealRotationAttributable E rec b =
     (if \<not> anchored rec then False
      else case signingAnchors E b of
             (edB64, mlB64) \<Rightarrow> if edB64 \<noteq> psEd rec \<or> mlB64 \<noteq> psMl rec then False else bundleSelfSigned E b)"

definition seal_record :: "pin_env \<Rightarrow> PeerKeyBundle \<Rightarrow> peerSealPk" where
  "seal_record E b = (case signingAnchors E b of (edB64, mlB64) \<Rightarrow>
     \<lparr>psFp = sealKeyFingerprint E (pbX25519 b) (pbKyber b), psEd = edB64, psMl = mlB64\<rparr>)"

definition store_failure :: "string option \<times> pins \<Rightarrow> string option \<times> pins" where
  "store_failure r = (case r of (None, s) \<Rightarrow> (None, s) | (Some e, s) \<Rightarrow> (Some ''peer_seal_pk_store_unusable'', s))"

definition PinPeerSealKey :: "pin_env \<Rightarrow> string \<Rightarrow> PeerKeyBundle \<Rightarrow> pins \<Rightarrow> string option \<times> pins" where
  "PinPeerSealKey E peer b s =
     (if \<not> validPeerName peer then (Some ''peer_seal_pk_missing'', s)
      else if \<not> usableSealKey b then (Some ''peer_seal_pk_missing'', s)
      else case peerSealRecord E peer s of
             Inl e \<Rightarrow> (Some ''peer_seal_pk_store_unusable'', s)
           | Inr None \<Rightarrow> store_failure (writePeerSealRecord E peer (seal_record E b) s)
           | Inr (Some rec) \<Rightarrow>
               if psFp rec = sealKeyFingerprint E (pbX25519 b) (pbKyber b) then (None, s)
               else if sealRotationAttributable E rec b then store_failure (writePeerSealRecord E peer (seal_record E b) s)
               else (Some ''peer_seal_pk_changed'', s))"

definition RepinPeerSealKey :: "pin_env \<Rightarrow> string \<Rightarrow> PeerKeyBundle \<Rightarrow> pins \<Rightarrow> string option \<times> pins" where
  "RepinPeerSealKey E peer b s =
     (if \<not> validPeerName peer then (Some ''that username cannot be pinned'', s)
      else if \<not> usableSealKey b then (Some ''no usable key pair'', s)
      else case peerSealRecord E peer s of
             Inl e \<Rightarrow> (Some ''peer_seal_pk_store_unusable'', s)
           | Inr rec \<Rightarrow>
               if (case rec of None \<Rightarrow> False | Some r \<Rightarrow> psFp r = sealKeyFingerprint E (pbX25519 b) (pbKyber b))
               then (Some ''that key is already the pinned one'', s)
               else store_failure (writePeerSealRecord E peer (seal_record E b) s))"

definition decode_or_nil :: "string \<Rightarrow> bytes" where
  "decode_or_nil x = (case b64_decode x of None \<Rightarrow> [] | Some raw \<Rightarrow> raw)"

definition bundleFromPubkeyPayload :: "E2EEPubkeyPayload \<Rightarrow> PeerKeyBundle" where
  "bundleFromPubkeyPayload p =
     \<lparr>pbX25519 = decode_or_nil (ppPublicKey p), pbKyber = decode_or_nil (ppPublicKeyKyber p),
      pbEd25519 = decode_or_nil (ppSigningPublicKeyEd25519 p), pbMldsa = decode_or_nil (ppSigningPublicKeyMldsa p),
      pbBundleSig = decode_or_nil (ppKeyBundleSig p)\<rparr>"

definition FetchPeerKeyBundle :: "pin_env \<Rightarrow> string \<Rightarrow> pins \<Rightarrow> PeerKeyBundle option \<times> pins" where
  "FetchPeerKeyBundle E peer s =
     (case pvPubkey E (pnTick s) peer of
        None \<Rightarrow> (None, tick s)
      | Some p \<Rightarrow> (let b = bundleFromPubkeyPayload p in (if usableSealKey b then Some b else None, tick s)))"

definition PinPeerSealKeyFromPubkey :: "pin_env \<Rightarrow> string \<Rightarrow> E2EEPubkeyPayload \<Rightarrow> pins \<Rightarrow> (string + PublicKeySet) \<times> pins" where
  "PinPeerSealKeyFromPubkey E peer p s =
     (let b = bundleFromPubkeyPayload p in
      case PinPeerSealKey E peer b s of
        (Some e, s1) \<Rightarrow> (Inl e, s1)
      | (None, s1) \<Rightarrow> (SealKeySet b, s1))"

definition peerSigningIdentity :: "pin_env \<Rightarrow> string \<Rightarrow> pins \<Rightarrow> PeerKeyBundle option \<times> pins" where
  "peerSigningIdentity E peer s =
     (case peerBundles s peer of
        Some b \<Rightarrow> (Some b, s)
      | None \<Rightarrow>
          if (case peerBundleNextTry s peer of Some until \<Rightarrow> now E s < until | None \<Rightarrow> False) then (None, s)
          else case FetchPeerKeyBundle E peer s of
                 (None, s1) \<Rightarrow> (None, s1\<lparr>peerBundleNextTry := (peerBundleNextTry s1)(peer \<mapsto> now E s1 + minute)\<rparr>)
               | (Some b, s1) \<Rightarrow>
                   (Some b, s1\<lparr>peerBundles := (peerBundles s1)(peer \<mapsto> b), peerBundleNextTry := (peerBundleNextTry s1)(peer := None)\<rparr>))"

record ShareRecipientWithKey =
  srUserID :: int
  srUsername :: string
  srPublicKey :: string
  srPublicKeyKyber :: string

definition decodeRecipient :: "ShareRecipientWithKey \<Rightarrow> string + PublicKeySet" where
  "decodeRecipient r =
     (if srPublicKey r = [] \<or> srPublicKeyKyber r = [] then Inl ''recipient missing one or both public keys''
      else case b64_decode (srPublicKey r) of
             None \<Rightarrow> Inl ''invalid x25519 pubkey''
           | Some x \<Rightarrow>
               if length x \<noteq> 32 then Inl ''invalid x25519 pubkey''
               else (case b64_decode (srPublicKeyKyber r) of
                       None \<Rightarrow> Inl ''invalid kyber pubkey''
                     | Some k \<Rightarrow>
                         if length k \<noteq> KyberPublicKeySize then Inl ''invalid kyber pubkey''
                         else Inr \<lparr>pubX25519 = x, pubKyber = k\<rparr>))"

definition PinShareRecipientSealKey :: "pin_env \<Rightarrow> ShareRecipientWithKey \<Rightarrow> pins \<Rightarrow> (string + PublicKeySet) \<times> pins" where
  "PinShareRecipientSealKey E r s =
     (case decodeRecipient r of
        Inl e \<Rightarrow> (Inl e, s)
      | Inr ks \<Rightarrow>
          (case peerSigningIdentity E (srUsername r) s of
             (identity, s1) \<Rightarrow>
               (let b0 = \<lparr>pbX25519 = pubX25519 ks, pbKyber = pubKyber ks, pbEd25519 = [], pbMldsa = [], pbBundleSig = []\<rparr>;
                    b = (case identity of
                           None \<Rightarrow> b0
                         | Some i \<Rightarrow> b0\<lparr>pbEd25519 := pbEd25519 i, pbMldsa := pbMldsa i, pbBundleSig := pbBundleSig i\<rparr>)
                in case PinPeerSealKey E (srUsername r) b s1 of
                     (Some e, s2) \<Rightarrow> (Inl e, s2)
                   | (None, s2) \<Rightarrow> (Inr ks, s2))))"

text \<open>The number two people compare: both key sets in the order of their bytes, hashed, as eight groups of five
  digits.\<close>

fun bytes_greater :: "bytes \<Rightarrow> bytes \<Rightarrow> bool" where
  "bytes_greater [] b = False"
| "bytes_greater (x # xs) [] = True"
| "bytes_greater (x # xs) (y # ys) = (if x = y then bytes_greater xs ys else x > y)"

definition pad5 :: "nat \<Rightarrow> string" where
  "pad5 n = (let d = show_nat n in replicate (5 - length d) (CHR ''0'') @ d)"

fun safety_groups :: "bytes \<Rightarrow> string list" where
  "safety_groups (a # b # c # d # rest) =
     pad5 ((unat a * 16777216 + unat b * 65536 + unat c * 256 + unat d) mod 100000) # safety_groups rest"
| "safety_groups _ = []"

definition PeerSafetyNumber :: "pin_env \<Rightarrow> PublicKeySet \<Rightarrow> bytes \<Rightarrow> bytes \<Rightarrow> PeerKeyBundle \<Rightarrow> string + string" where
  "PeerSafetyNumber E mine myEd myMl peer =
     (if \<not> usableSealKey peer then Inl ''the served key set has no usable X25519 + ML-KEM pair''
      else
        let signing = (myEd \<noteq> [] \<and> myMl \<noteq> [] \<and> pbEd25519 peer \<noteq> [] \<and> pbMldsa peer \<noteq> []);
            a = pubX25519 mine @ pubKyber mine @ (if signing then myEd @ myMl else []);
            b = pbX25519 peer @ pbKyber peer @ (if signing then pbEd25519 peer @ pbMldsa peer else []);
            (a1, b1) = (if bytes_greater a b then (b, a) else (a, b))
        in Inr (join_spaces (safety_groups (pSha256 (pvPrims E) (a1 @ b1)))))"

end
