(* ===== verification/TeePins.thy ===== *)
theory TeePins
  imports Pins
begin

text \<open>
  The pinned keys of the scanner, \<open>internal/e2ee/tee_signing_pin.go\<close>, the check of a download,
  \<open>internal/e2ee/verify_download.go\<close> and \<open>internal/e2ee/plaintext_guard.go\<close>. State and environment are those of the pins.
\<close>

section \<open>The record of an account\<close>

definition teeSigningPinVersion :: int where "teeSigningPinVersion = 1"
definition teeRetiredPkLimit :: nat where "teeRetiredPkLimit = 8"

definition TeeSigningKeyFingerprint :: "pin_env \<Rightarrow> string \<Rightarrow> string \<Rightarrow> string" where
  "TeeSigningKeyFingerprint E edB64 mlB64 =
     (case (b64_decode edB64, b64_decode mlB64) of
        (Some ed, Some ml) \<Rightarrow> join_spaces (groups4 (hex_encode (pSha256 (pvPrims E) (ed @ ml))))
      | _ \<Rightarrow> [])"

definition loadTeeSigningPkFile :: "pin_env \<Rightarrow> pins \<Rightarrow> string + (string \<rightharpoonup> teeSigningPk)" where
  "loadTeeSigningPkFile E s =
     (if \<not> pvDir E then Inr Map.empty
      else case pnTee s of
             Absent \<Rightarrow> Inr Map.empty
           | Stored v owners \<Rightarrow>
               if v \<noteq> teeSigningPinVersion then Inl ''tee_pin_store_unreadable''
               else Inr (case owners of None \<Rightarrow> Map.empty | Some f \<Rightarrow> f)
           | _ \<Rightarrow> Inl ''tee_pin_store_unreadable'')"

definition no_tee_record :: teeSigningPk where
  "no_tee_record = \<lparr>tsEd = [], tsMl = [], tsPosture = None, tsRetired = []\<rparr>"

definition owner_record :: "(string \<rightharpoonup> teeSigningPk) \<Rightarrow> string \<Rightarrow> teeSigningPk" where
  "owner_record f owner = (case f owner of None \<Rightarrow> no_tee_record | Some r \<Rightarrow> r)"

definition teeSigningRecord :: "pin_env \<Rightarrow> pins \<Rightarrow> string + teeSigningPk" where
  "teeSigningRecord E s =
     (if signingPinOwner E = [] then Inr no_tee_record
      else case loadTeeSigningPkFile E s of
             Inl e \<Rightarrow> Inl e
           | Inr f \<Rightarrow> Inr (owner_record f (signingPinOwner E)))"

definition pinned :: "teeSigningPk \<Rightarrow> bool" where
  "pinned r \<longleftrightarrow> tsEd r \<noteq> [] \<and> tsMl r \<noteq> []"

definition accepts :: "teeSigningPk \<Rightarrow> string \<Rightarrow> string \<Rightarrow> bool" where
  "accepts r edB64 mlB64 \<longleftrightarrow> pinned r \<and> tsEd r = edB64 \<and> tsMl r = mlB64 \<or> list_ex (\<lambda>x. rtEd x = edB64 \<and> rtMl x = mlB64) (tsRetired r)"

definition teeSigningPkPinned :: "pin_env \<Rightarrow> pins \<Rightarrow> bool" where
  "teeSigningPkPinned E s = (case teeSigningRecord E s of Inl e \<Rightarrow> False | Inr r \<Rightarrow> pinned r)"

definition dropRetired :: "retiredTeeSigningPk list \<Rightarrow> string \<Rightarrow> string \<Rightarrow> retiredTeeSigningPk list" where
  "dropRetired xs edB64 mlB64 = filter (\<lambda>r. \<not> (rtEd r = edB64 \<and> rtMl r = mlB64)) xs"

record TeeAttestationOffer =
  ofEd25519 :: string
  ofMldsa :: string
  ofPosture :: teeAttestationPosture

definition validateTeeSigningPair :: "pin_env \<Rightarrow> string \<Rightarrow> string \<Rightarrow> string option" where
  "validateTeeSigningPair E edB64 mlB64 =
     (if (case b64_decode edB64 of None \<Rightarrow> True | Some ed \<Rightarrow> length ed \<noteq> Ed25519PKSize) then Some ''tee_signing_pk_wrong_size''
      else if (case b64_decode mlB64 of None \<Rightarrow> True | Some ml \<Rightarrow> length ml \<noteq> Mldsa44PKSize (pvSig E)) then Some ''tee_signing_pk_wrong_size''
      else None)"

definition writeTeeSigningPkFile :: "pin_env \<Rightarrow> (string \<rightharpoonup> teeSigningPk) \<Rightarrow> pins \<Rightarrow> pins" where
  "writeTeeSigningPkFile E f s =
     (if pvWrite E (pnTick s) then (tick s)\<lparr>pnTee := Stored teeSigningPinVersion (Some f)\<rparr> else tick s)"

section \<open>Moving and forgetting pins\<close>

text \<open>The record after a move to the offered key: the superseded key is retired, the offered one is not, and at
  most eight retired keys are kept.\<close>

definition superseded_record :: "string \<Rightarrow> TeeAttestationOffer \<Rightarrow> teeSigningPk \<Rightarrow> teeSigningPk" where
  "superseded_record stamp offer r =
     (let old = (if tsEd r \<noteq> [] \<and> tsMl r \<noteq> []
                 then dropRetired (tsRetired r) (tsEd r) (tsMl r) @ [\<lparr>rtEd = tsEd r, rtMl = tsMl r, rtRetiredAt = stamp\<rparr>]
                 else tsRetired r);
          kept = dropRetired old (ofEd25519 offer) (ofMldsa offer);
          capped = (if length kept > teeRetiredPkLimit then drop (length kept - teeRetiredPkLimit) kept else kept)
      in r\<lparr>tsEd := ofEd25519 offer, tsMl := ofMldsa offer, tsRetired := capped\<rparr>)"

text \<open>The pin file as \<open>pc te repin\<close> takes it: an unreadable one is set aside.\<close>

definition repin_file :: "pin_env \<Rightarrow> pins \<Rightarrow> string + (string \<rightharpoonup> teeSigningPk) \<times> pins" where
  "repin_file E s =
     (case loadTeeSigningPkFile E s of
        Inr f \<Rightarrow> Inr (f, s)
      | Inl e \<Rightarrow> if pvRename E (pnTick s) then Inr (Map.empty, (tick s)\<lparr>pnTee := Absent\<rparr>) else Inl e)"

text \<open>The part under the lock of the file; what is remembered of the last attestation is cleared after it.\<close>

definition repin_locked :: "pin_env \<Rightarrow> TeeAttestationOffer option \<Rightarrow> pins \<Rightarrow> string option \<times> pins" where
  "repin_locked E offero s =
     (let owner = signingPinOwner E in
      if \<not> pvDir E \<or> owner = [] then (Some ''no account key set is configured'', s)
      else case offero of
             None \<Rightarrow> (Some ''no attestation answer to pin'', s)
           | Some offer \<Rightarrow>
               (case validateTeeSigningPair E (ofEd25519 offer) (ofMldsa offer) of
                  Some e \<Rightarrow> (Some e, s)
                | None \<Rightarrow>
                    if TeeSigningKeyFingerprint E (ofEd25519 offer) (ofMldsa offer) = [] then (Some ''tee_signing_pk_unfingerprintable'', s)
                    else (case repin_file E s of
                            Inl e \<Rightarrow> (Some e, tick s)
                          | Inr (f, s1) \<Rightarrow>
                              (let r = owner_record f owner;
                                   keySame = (tsEd r = ofEd25519 offer \<and> tsMl r = ofMldsa offer);
                                   postureSame = (tsPosture r = Some (ofPosture offer))
                               in if keySame \<and> postureSame then (Some ''that attestation is already the pinned one'', s1)
                                  else
                                    let r1 = (if keySame then r else superseded_record (pvStamp E (pnTick s1)) offer r);
                                        r2 = r1\<lparr>tsPosture := Some (ofPosture offer)\<rparr>
                                    in (None, writeTeeSigningPkFile E (f(owner \<mapsto> r2)) s1)))))"

definition RepinTeeSigningPk :: "pin_env \<Rightarrow> TeeAttestationOffer option \<Rightarrow> pins \<Rightarrow> string option \<times> pins" where
  "RepinTeeSigningPk E offero s =
     (case repin_locked E offero s of
        (Some e, s1) \<Rightarrow> (Some e, s1)
      | (None, s1) \<Rightarrow> (None, s1\<lparr>teeSigningAtt := None, teeSigningAttNextTry := 0\<rparr>))"

definition ForgetRetiredTeeSigningPk :: "pin_env \<Rightarrow> string \<Rightarrow> pins \<Rightarrow> bool \<times> pins" where
  "ForgetRetiredTeeSigningPk E fingerprint s =
     (let owner = signingPinOwner E in
      if \<not> pvDir E \<or> owner = [] \<or> fingerprint = [] then (False, s)
      else case loadTeeSigningPkFile E s of
             Inl e \<Rightarrow> (False, s)
           | Inr f \<Rightarrow>
               (let r = owner_record f owner;
                    kept = filter (\<lambda>x. TeeSigningKeyFingerprint E (rtEd x) (rtMl x) \<noteq> fingerprint) (tsRetired r)
                in if length kept = length (tsRetired r) then (False, s)
                   else (True, writeTeeSigningPkFile E (f(owner \<mapsto> r\<lparr>tsRetired := kept\<rparr>)) s)))"

definition recordTeeSigningPk :: "pin_env \<Rightarrow> string \<Rightarrow> string \<Rightarrow> pins \<Rightarrow> pins" where
  "recordTeeSigningPk E edB64 mlB64 s =
     (let owner = signingPinOwner E in
      if \<not> pvDir E \<or> owner = [] \<or> edB64 = [] \<or> mlB64 = [] then s
      else case loadTeeSigningPkFile E s of
             Inl e \<Rightarrow> s
           | Inr f \<Rightarrow> writeTeeSigningPkFile E (f(owner \<mapsto> (owner_record f owner)\<lparr>tsEd := edB64, tsMl := mlB64\<rparr>)) s)"

definition recordTeeAttestationPosture :: "pin_env \<Rightarrow> teeAttestationPosture \<Rightarrow> pins \<Rightarrow> pins" where
  "recordTeeAttestationPosture E p s =
     (let owner = signingPinOwner E in
      if \<not> pvDir E \<or> owner = [] \<or> poMode p = [] then s
      else case loadTeeSigningPkFile E s of
             Inl e \<Rightarrow> s
           | Inr f \<Rightarrow> writeTeeSigningPkFile E (f(owner \<mapsto> (owner_record f owner)\<lparr>tsPosture := Some p\<rparr>)) s)"

section \<open>The posture of the scanner\<close>

record servedAttestation =
  svMode :: string
  svMrenclave :: string
  svQuote :: string
  svStatus :: string
  svSealingPk :: string
  svSealingPkKyber :: string

definition sgx :: "servedAttestation \<Rightarrow> bool" where
  "sgx a \<longleftrightarrow> svMode a = ''epid'' \<and> svMrenclave a \<noteq> [] \<and> svQuote a \<noteq> []"

definition postureFor :: "servedAttestation \<Rightarrow> string + teeAttestationPosture" where
  "postureFor a =
     (if (case b64_decode (svSealingPk a) of None \<Rightarrow> True | Some raw \<Rightarrow> length raw \<noteq> 32) then Inl ''tee_enclave_key_malformed''
      else if (case b64_decode (svSealingPkKyber a) of None \<Rightarrow> True | Some k \<Rightarrow> length k \<noteq> KyberPublicKeySize) then Inl ''tee_enclave_key_malformed''
      else Inr \<lparr>poMode = (if sgx a then ''epid'' else ''none''), poMrenclave = (if sgx a then svMrenclave a else []),
                poSealingPk = svSealingPk a, poSealingPkKyber = svSealingPkKyber a\<rparr>)"

definition pinnedTeeAttestationPosture :: "pin_env \<Rightarrow> pins \<Rightarrow> string + teeAttestationPosture option" where
  "pinnedTeeAttestationPosture E s =
     (if signingPinOwner E = [] then Inr None
      else case loadTeeSigningPkFile E s of
             Inl e \<Rightarrow> Inl e
           | Inr f \<Rightarrow>
               (case f (signingPinOwner E) of
                  None \<Rightarrow> Inr None
                | Some r \<Rightarrow>
                    (case tsPosture r of
                       None \<Rightarrow> Inr None
                     | Some p \<Rightarrow> if poMode p \<noteq> ''epid'' \<and> poMode p \<noteq> ''none'' then Inl ''tee_pin_store_unreadable'' else Inr (Some p))))"

text \<open>Accepted: with the posture to record once the keys have been decoded, if any.\<close>

definition checkTeeAttestationPosture :: "pin_env \<Rightarrow> servedAttestation \<Rightarrow> pins \<Rightarrow> string + teeAttestationPosture option" where
  "checkTeeAttestationPosture E a s =
     (if svStatus a = ''untrusted'' then Inl ''tee_attestation_untrusted''
      else if sgx a \<and> svStatus a \<noteq> ''trusted'' then Inl ''tee_attestation_unverified''
      else case postureFor a of
             Inl e \<Rightarrow> Inl e
           | Inr offered \<Rightarrow>
               (case pinnedTeeAttestationPosture E s of
                  Inl e \<Rightarrow> Inl e
                | Inr None \<Rightarrow> Inr (Some offered)
                | Inr (Some p) \<Rightarrow>
                    if poMode p = ''epid'' \<and> poMode offered \<noteq> ''epid'' then Inl ''tee_attestation_downgraded''
                    else if poMode p \<noteq> poMode offered then Inl ''tee_attestation_mode_changed''
                    else if poMode offered = ''epid'' \<and> poMrenclave offered \<noteq> poMrenclave p then Inl ''tee_mrenclave_changed''
                    else if poSealingPk offered \<noteq> poSealingPk p then Inl ''tee_enclave_pk_changed''
                    else if poSealingPkKyber p = [] then Inr (Some offered)
                    else if poSealingPkKyber offered \<noteq> poSealingPkKyber p then Inl ''tee_enclave_pk_changed''
                    else Inr None))"

definition teeKeySetMatchesPin :: "pin_env \<Rightarrow> PublicKeySet option \<Rightarrow> pins \<Rightarrow> bool" where
  "teeKeySetMatchesPin E set0 s =
     (case (pinnedTeeAttestationPosture E s, set0) of
        (Inr (Some p), Some ks) \<Rightarrow> poSealingPk p = b64_encode (pubX25519 ks) \<and> poSealingPkKyber p = b64_encode (pubKyber ks)
      | _ \<Rightarrow> False)"

section \<open>Attested signing keys\<close>

definition teeAttestationAnswerable :: "TeeAttestationResponse \<Rightarrow> string option" where
  "teeAttestationAnswerable r =
     (if \<not> atSuccess r then Some ''tee_attestation_unanswered''
      else if \<not> atEnabled r then Some ''tee_scanner_disabled''
      else if \<not> atAvailable r then Some ''tee_attestation_unavailable''
      else if atVerificationStatus r = ''untrusted'' then Some ''tee_attestation_untrusted''
      else if atAttestationMode r = ''epid'' \<and> atMrenclave r \<noteq> [] \<and> atSgxQuote r \<noteq> [] \<and> atVerificationStatus r \<noteq> ''trusted''
      then Some ''tee_attestation_unverified''
      else if atEnclaveSigningPkEd25519 r = [] \<or> atEnclaveSigningPkMldsa r = [] then Some ''tee_signing_pk_absent''
      else None)"

definition fetchTeeSigningPk :: "pin_env \<Rightarrow> pins \<Rightarrow> (string + string \<times> string) \<times> pins" where
  "fetchTeeSigningPk E s =
     (case pvAttest E (pnTick s) of
        Inl e \<Rightarrow> (Inl e, tick s)
      | Inr r \<Rightarrow>
          (case teeAttestationAnswerable r of
             Some e \<Rightarrow> (Inl e, tick s)
           | None \<Rightarrow> (Inr (atEnclaveSigningPkEd25519 r, atEnclaveSigningPkMldsa r), tick s)))"

definition attestedTeeSigningPk :: "pin_env \<Rightarrow> pins \<Rightarrow> (string \<times> string) option \<times> pins" where
  "attestedTeeSigningPk E s =
     (case teeSigningAtt s of
        Some pk \<Rightarrow> (Some pk, s)
      | None \<Rightarrow>
          if now E s < teeSigningAttNextTry s then (None, s)
          else case fetchTeeSigningPk E (s\<lparr>teeSigningAttNextTry := now E s + minute\<rparr>) of
                 (Inl e, s1) \<Rightarrow> (None, s1)
               | (Inr pk, s1) \<Rightarrow> (Some pk, s1\<lparr>teeSigningAtt := Some pk\<rparr>))"

definition served_of :: "TeeAttestationResponse \<Rightarrow> servedAttestation" where
  "served_of r = \<lparr>svMode = atAttestationMode r, svMrenclave = atMrenclave r, svQuote = atSgxQuote r, svStatus = atVerificationStatus r,
     svSealingPk = atEnclavePublicKey r, svSealingPkKyber = atEnclavePublicKeyKyber r\<rparr>"

definition OfferedTeeSigningPk :: "pin_env \<Rightarrow> pins \<Rightarrow> (string + TeeAttestationOffer) \<times> pins" where
  "OfferedTeeSigningPk E s =
     (case pvAttest E (pnTick s) of
        Inl e \<Rightarrow> (Inl e, tick s)
      | Inr r \<Rightarrow>
          (case teeAttestationAnswerable r of
             Some e \<Rightarrow> (Inl e, tick s)
           | None \<Rightarrow>
               (case validateTeeSigningPair E (atEnclaveSigningPkEd25519 r) (atEnclaveSigningPkMldsa r) of
                  Some e \<Rightarrow> (Inl e, tick s)
                | None \<Rightarrow>
                    (case postureFor (served_of r) of
                       Inl e \<Rightarrow> (Inl e, tick s)
                     | Inr p \<Rightarrow>
                         (Inr \<lparr>ofEd25519 = atEnclaveSigningPkEd25519 r, ofMldsa = atEnclaveSigningPkMldsa r, ofPosture = p\<rparr>, tick s)))))"

definition checkTeeSigningPks :: "pin_env \<Rightarrow> string \<Rightarrow> string \<Rightarrow> pins \<Rightarrow> (string + commit) \<times> pins" where
  "checkTeeSigningPks E edB64 mlB64 s =
     (case teeSigningRecord E s of
        Inl e \<Rightarrow> (Inl e, s)
      | Inr r \<Rightarrow>
          if pinned r then (if accepts r edB64 mlB64 then (Inr NoCommit, s) else (Inl ''tee_signing_pk_changed'', s))
          else case attestedTeeSigningPk E s of
                 (None, s1) \<Rightarrow> (Inl ''tee_signing_pk_unattested'', s1)
               | (Some (ed, ml), s1) \<Rightarrow>
                   if ed \<noteq> edB64 \<or> ml \<noteq> mlB64 then (Inl ''tee_signing_pk_untrusted'', s1)
                   else (Inr (PinTee edB64 mlB64), s1))"

section \<open>Checking a download\<close>

definition decodeB64Required :: "string \<Rightarrow> string \<Rightarrow> string + bytes" where
  "decodeB64Required x label =
     (if x = [] then Inl (label @ ''_missing'') else case b64_decode x of None \<Rightarrow> Inl (label @ ''_invalid'') | Some b \<Rightarrow> Inr b)"

definition run_commit :: "pin_env \<Rightarrow> commit \<Rightarrow> pins \<Rightarrow> pins" where
  "run_commit E c s =
     (case c of NoCommit \<Rightarrow> s | PinPeer peer b64 \<Rightarrow> recordPeerSigningPk E peer b64 s | PinTee ed ml \<Rightarrow> recordTeeSigningPk E ed ml s)"

text \<open>The four parts of a signature, decoded, or the first that is missing or invalid.\<close>

definition decode_parts :: "string \<Rightarrow> string \<Rightarrow> string \<Rightarrow> string \<Rightarrow> string \<Rightarrow> string + bytes \<times> bytes \<times> bytes \<times> bytes" where
  "decode_parts prefx sigEd sigMl pkEd pkMl =
     (case decodeB64Required sigEd (prefx @ ''signature_ed25519'') of
        Inl e \<Rightarrow> Inl e
      | Inr a \<Rightarrow>
          (case decodeB64Required sigMl (prefx @ ''signature_mldsa'') of
             Inl e \<Rightarrow> Inl e
           | Inr b \<Rightarrow>
               (case decodeB64Required pkEd (prefx @ ''signing_pk_ed25519'') of
                  Inl e \<Rightarrow> Inl e
                | Inr c \<Rightarrow>
                    (case decodeB64Required pkMl (prefx @ ''signing_pk_mldsa'') of
                       Inl e \<Rightarrow> Inl e
                     | Inr d \<Rightarrow> Inr (a, b, c, d)))))"

text \<open>Whose key it is: the own one, one known to have been the own one, or a peer's.\<close>

definition owner_trust :: "pin_env \<Rightarrow> DownloadResult \<Rightarrow> bytes \<Rightarrow> bytes \<Rightarrow> bytes \<Rightarrow> pins \<Rightarrow> (string + commit) \<times> pins" where
  "owner_trust E d ownEdPub ownMldsaPub pkEd s =
     (if length ownEdPub \<noteq> Ed25519PKSize then (Inr NoCommit, s)
      else
        let s1 = rememberSigningEdPub E ownEdPub s in
        if ownEdPub = pkEd \<or> signingEdPubTrusted E pkEd s1 then (Inr NoCommit, s1)
        else
          let s2 = seedOwnSigningPkHistory E ownEdPub ownMldsaPub s1 in
          if signingEdPubTrusted E pkEd s2 then (Inr NoCommit, s2)
          else if drSignedBy d = [] then (Inl ''owner_signing_pk_untrusted'', s2)
          else checkForeignSignerOnOwnNode E (drSignedBy d) pkEd s2)"

definition verifyOwnerSigsReader :: "pin_env \<Rightarrow> bytes option \<Rightarrow> DownloadResult \<Rightarrow> bytes \<Rightarrow> bytes \<Rightarrow> pins \<Rightarrow> string option \<times> pins" where
  "verifyOwnerSigsReader E r d ownEdPub ownMldsaPub s =
     (case decode_parts [] (drSignatureEd25519 d) (drSignatureMldsa d) (drSigningPkEd25519 d) (drSigningPkMldsa d) of
        Inl e \<Rightarrow> (Some e, s)
      | Inr (sigEd, sigMl, pkEd, pkMl) \<Rightarrow>
          if length pkEd \<noteq> Ed25519PKSize \<or> length pkMl \<noteq> Mldsa44PKSize (pvSig E) then (Some ''signing_public_key_wrong_size'', s)
          else case owner_trust E d ownEdPub ownMldsaPub pkEd s of
                 (Inl e, s1) \<Rightarrow> (Some e, s1)
               | (Inr c, s1) \<Rightarrow>
                   (case VerifyFileSignatures (pvPrims E) (pvSig E) r sigEd sigMl (Some \<lparr>spkEd25519 = pkEd, spkMldsa = pkMl\<rparr>) of
                      Some e \<Rightarrow> (Some e, s1)
                    | None \<Rightarrow> (None, run_commit E c s1)))"

definition verifyTEESigsReader :: "pin_env \<Rightarrow> bytes option \<Rightarrow> DownloadResult \<Rightarrow> pins \<Rightarrow> string option \<times> pins" where
  "verifyTEESigsReader E r d s =
     (case decode_parts ''tee_'' (drTEESignatureEd25519 d) (drTEESignatureMldsa d) (drTEESigningPkEd25519 d) (drTEESigningPkMldsa d) of
        Inl e \<Rightarrow> (Some e, s)
      | Inr (sigEd, sigMl, pkEd, pkMl) \<Rightarrow>
          if length pkEd \<noteq> Ed25519PKSize \<or> length pkMl \<noteq> Mldsa44PKSize (pvSig E) then (Some ''tee_signing_public_key_wrong_size'', s)
          else case checkTeeSigningPks E (drTEESigningPkEd25519 d) (drTEESigningPkMldsa d) s of
                 (Inl e, s1) \<Rightarrow> (Some e, s1)
               | (Inr c, s1) \<Rightarrow>
                   (case VerifyTEEFileSignatures (pvPrims E) (pvSig E) r sigEd sigMl (Some \<lparr>spkEd25519 = pkEd, spkMldsa = pkMl\<rparr>) of
                      Some e \<Rightarrow> (Some e, s1)
                    | None \<Rightarrow> (None, run_commit E c s1)))"

definition verifyDownloadIntegrity :: "pin_env \<Rightarrow> bytes option \<Rightarrow> DownloadResult option \<Rightarrow> bytes \<Rightarrow> bytes \<Rightarrow> pins \<Rightarrow> string option \<times> pins" where
  "verifyDownloadIntegrity E r dlResult ownEdPub ownMldsaPub s =
     (case dlResult of
        None \<Rightarrow> (Some ''download_result_missing'', s)
      | Some d \<Rightarrow>
          if drSignatureEd25519 d \<noteq> [] \<or> drSignatureMldsa d \<noteq> [] then verifyOwnerSigsReader E r d ownEdPub ownMldsaPub s
          else if drTEESignatureEd25519 d \<noteq> [] \<or> drTEESignatureMldsa d \<noteq> [] then verifyTEESigsReader E r d s
          else (Some ''file_signature_missing'', s))"

definition deriveSigningEdPub :: "SigningPrivateKeySet option \<Rightarrow> bytes" where
  "deriveSigningEdPub privo =
     (case privo of
        None \<Rightarrow> []
      | Some priv \<Rightarrow> if length (sskEd25519 priv) \<noteq> Ed25519SKSize then [] else drop 32 (sskEd25519 priv))"

definition deriveSigningPubs :: "sig_prims \<Rightarrow> SigningPrivateKeySet option \<Rightarrow> bytes \<times> bytes" where
  "deriveSigningPubs G privo =
     (deriveSigningEdPub privo, case DeriveSigningPublic G privo of Inr pub \<Rightarrow> spkMldsa pub | Inl _ \<Rightarrow> [])"

definition VerifyDownloadIntegrityWithSigningKey ::
  "pin_env \<Rightarrow> bytes option \<Rightarrow> DownloadResult option \<Rightarrow> SigningPrivateKeySet option \<Rightarrow> pins \<Rightarrow> string option \<times> pins" where
  "VerifyDownloadIntegrityWithSigningKey E r dlResult signingPriv s =
     (case deriveSigningPubs (pvSig E) signingPriv of (ed, ml) \<Rightarrow> verifyDownloadIntegrity E r dlResult ed ml s)"

definition RequireEncryptedDownload :: "DownloadResult option \<Rightarrow> string option" where
  "RequireEncryptedDownload dlResult =
     (case dlResult of
        None \<Rightarrow> Some ''download response carried no metadata''
      | Some d \<Rightarrow> if \<not> drE2EE d then Some ''the server claims this file is not encrypted'' else None)"

end
