(* ===== verification/TeeSession.thy ===== *)
theory TeeSession
  imports TeePins
begin

text \<open>
  The key set of the scanner that a session remembers: \<open>FetchTeeEnclaveKeySet\<close>, \<open>TeeSealWentStale\<close> and
  what they call in \<open>internal/e2ee/e2ee.go\<close>, with \<open>forgetTeeAttestationMemos\<close> of
  \<open>tee_signing_pin.go\<close>.

  Several goroutines share the session: one of them probes the server while the others wait for it, and a
  repin in between makes the outcome of the probe void. Each section under the lock is one step; the probe
  runs between the two sections of the fetch, in two steps, for it checks the pinned posture and records the one it
  found under separate locks of the file.
\<close>

section \<open>State\<close>

text \<open>What a probe found: the key set, whether the scanner is disabled, whether the server answered, and why the
  key was refused.\<close>

record probe_result =
  prSet :: "PublicKeySet option"
  prDisabled :: bool
  prAnswered :: bool
  prRefusal :: "string option"

text \<open>A call in flight: the epoch it began in, what its probe found, once it has, and the posture it still has to record. The epoch is a number without
  bound: it is compared for equality, and a counter of 64 bits does not come round during one probe.\<close>

record teeKeysCall =
  tkEpoch :: nat
  tkProbe :: "probe_result option"
  tkCommit :: "teeAttestationPosture option"

text \<open>The session and the pins, with the calls by number. \<open>teeRepins\<close> counts the repins that have written the pin
  file and not yet cleared what the session remembers.\<close>

record tee_world =
  twPins :: pins
  teeEnclaveKeySet :: "PublicKeySet option"
  teeScannerDisabledByServer :: bool
  teeEnclaveKeyRefusal :: "string option"
  teeKeysFetch :: "nat option"
  teeKeysEpoch :: nat
  teeStaleCheckedAt :: int
  twCalls :: "nat \<rightharpoonup> teeKeysCall"
  twNext :: nat
  teeRepins :: nat

section \<open>The probe\<close>

definition decode_key_set :: "string \<Rightarrow> string \<Rightarrow> PublicKeySet option" where
  "decode_key_set x k =
     (case b64_decode x of
        None \<Rightarrow> None
      | Some xs \<Rightarrow>
          if length xs \<noteq> 32 then None
          else (case b64_decode k of
                  None \<Rightarrow> None
                | Some ks \<Rightarrow> if length ks \<noteq> KyberPublicKeySize then None else Some \<lparr>pubX25519 = xs, pubKyber = ks\<rparr>))"

text \<open>The probe up to its commit: what it found, and the posture still to be recorded.\<close>

definition probe_check :: "pin_env \<Rightarrow> pins \<Rightarrow> (probe_result \<times> teeAttestationPosture option) \<times> pins" where
  "probe_check E s =
     (let s1 = tick s; unanswered = \<lparr>prSet = None, prDisabled = False, prAnswered = False, prRefusal = None\<rparr> in
      case pvAttest E (pnTick s) of
        Inl e \<Rightarrow> ((unanswered, None), s1)
      | Inr r \<Rightarrow>
          if \<not> atSuccess r then ((unanswered, None), s1)
          else
            let refused = (\<lambda>e. \<lparr>prSet = None, prDisabled = \<not> atEnabled r, prAnswered = True, prRefusal = e\<rparr>) in
            if \<not> atAvailable r then ((refused None, None), s1)
            else (case checkTeeAttestationPosture E (served_of r) s1 of
                    Inl e \<Rightarrow> ((refused (Some e), None), s1)
                  | Inr c \<Rightarrow>
                      (case decode_key_set (atEnclavePublicKey r) (atEnclavePublicKeyKyber r) of
                         None \<Rightarrow> ((refused (Some ''tee_enclave_key_malformed''), None), s1)
                       | Some ks \<Rightarrow> (((refused None)\<lparr>prSet := Some ks\<rparr>, c), s1))))"

definition commit_posture :: "pin_env \<Rightarrow> teeAttestationPosture option \<Rightarrow> pins \<Rightarrow> pins" where
  "commit_posture E c s = (case c of None \<Rightarrow> s | Some p \<Rightarrow> recordTeeAttestationPosture E p s)"

definition probeTeeEnclaveKeySet :: "pin_env \<Rightarrow> pins \<Rightarrow> probe_result \<times> pins" where
  "probeTeeEnclaveKeySet E s = (case probe_check E s of ((r, c), s1) \<Rightarrow> (r, commit_posture E c s1))"

section \<open>Fetching\<close>

datatype fetch_start = Cached PublicKeySet | Joined nat | Started nat

definition fetch_begin :: "tee_world \<Rightarrow> fetch_start \<times> tee_world" where
  "fetch_begin w =
     (case teeEnclaveKeySet w of
        Some ks \<Rightarrow> (Cached ks, w)
      | None \<Rightarrow>
          (case teeKeysFetch w of
             Some c \<Rightarrow> (Joined c, w)
           | None \<Rightarrow>
               (Started (twNext w),
                w\<lparr>twCalls := (twCalls w)(twNext w \<mapsto> \<lparr>tkEpoch = teeKeysEpoch w, tkProbe = None, tkCommit = None\<rparr>),
                  teeKeysFetch := Some (twNext w), twNext := Suc (twNext w)\<rparr>)))"

definition fetch_check :: "pin_env \<Rightarrow> nat \<Rightarrow> tee_world \<Rightarrow> tee_world" where
  "fetch_check E c w =
     (case twCalls w c of
        None \<Rightarrow> w
      | Some call \<Rightarrow>
          (case probe_check E (twPins w) of
             ((r, p), s1) \<Rightarrow> w\<lparr>twPins := s1, twCalls := (twCalls w)(c \<mapsto> call\<lparr>tkProbe := Some r, tkCommit := p\<rparr>)\<rparr>))"

definition fetch_commit :: "pin_env \<Rightarrow> nat \<Rightarrow> tee_world \<Rightarrow> tee_world" where
  "fetch_commit E c w =
     (case twCalls w c of
        None \<Rightarrow> w
      | Some call \<Rightarrow> w\<lparr>twPins := commit_posture E (tkCommit call) (twPins w), twCalls := (twCalls w)(c \<mapsto> call\<lparr>tkCommit := None\<rparr>)\<rparr>)"

text \<open>The outcome is remembered, and handed out, only if no repin came in between.\<close>

definition fetch_end :: "nat \<Rightarrow> tee_world \<Rightarrow> PublicKeySet option \<times> tee_world" where
  "fetch_end c w =
     (case twCalls w c of
        None \<Rightarrow> (None, w)
      | Some call \<Rightarrow>
          (case tkProbe call of
             None \<Rightarrow> (None, w)
           | Some r \<Rightarrow>
               (let w1 = w\<lparr>twCalls := (twCalls w)(c := None), teeKeysFetch := (if teeKeysFetch w = Some c then None else teeKeysFetch w)\<rparr> in
                if teeKeysEpoch w = tkEpoch call
                then (prSet r,
                      w1\<lparr>teeEnclaveKeyRefusal := prRefusal r,
                         teeScannerDisabledByServer := (if prAnswered r then prDisabled r else teeScannerDisabledByServer w),
                         teeEnclaveKeySet := (case prSet r of None \<Rightarrow> teeEnclaveKeySet w | Some ks \<Rightarrow> Some ks)\<rparr>)
                else (None, w1))))"

text \<open>The whole fetch, undisturbed.\<close>

definition FetchTeeEnclaveKeySet :: "pin_env \<Rightarrow> tee_world \<Rightarrow> PublicKeySet option \<times> tee_world" where
  "FetchTeeEnclaveKeySet E w =
     (case fetch_begin w of
        (Cached ks, w1) \<Rightarrow> (Some ks, w1)
      | (Joined c, w1) \<Rightarrow> fetch_end c (fetch_commit E c (fetch_check E c w1))
      | (Started c, w1) \<Rightarrow> fetch_end c (fetch_commit E c (fetch_check E c w1)))"

definition forgetTeeAttestationMemos :: "tee_world \<Rightarrow> tee_world" where
  "forgetTeeAttestationMemos w =
     w\<lparr>twPins := (twPins w)\<lparr>teeSigningAtt := None, teeSigningAttNextTry := 0\<rparr>,
       teeEnclaveKeySet := None, teeEnclaveKeyRefusal := None, teeKeysEpoch := teeKeysEpoch w + 1, teeKeysFetch := None\<rparr>"

section \<open>Stale seals\<close>

definition teeStaleRecheckGap :: int where "teeStaleRecheckGap = 30 * 1000000000"

definition sameTeeKeySet :: "PublicKeySet option \<Rightarrow> PublicKeySet option \<Rightarrow> bool" where
  "sameTeeKeySet a b =
     (case (a, b) of
        (Some x, Some y) \<Rightarrow> pubX25519 x = pubX25519 y \<and> pubKyber x = pubKyber y
      | (None, None) \<Rightarrow> True
      | _ \<Rightarrow> False)"

text \<open>Whether the seal of an upload is stale, or why that cannot be said.\<close>

definition staleSealVerdict :: "pin_env \<Rightarrow> PublicKeySet option \<Rightarrow> PublicKeySet option \<Rightarrow> tee_world \<Rightarrow> bool \<times> string option" where
  "staleSealVerdict E fresh sealedTo w =
     (if fresh = None then (False, teeEnclaveKeyRefusal w)
      else if signingPinOwner E = [] then (False, Some ''tee_pin_owner_unknown'')
      else if \<not> teeKeySetMatchesPin E fresh (twPins w) then (False, Some ''tee_enclave_pk_changed'')
      else (\<not> sameTeeKeySet fresh sealedTo, None))"

text \<open>The first section: within thirty seconds of the last check what is remembered is used, otherwise it is
  dropped.\<close>

definition stale_begin :: "pin_env \<Rightarrow> tee_world \<Rightarrow> PublicKeySet option \<times> nat option \<times> bool \<times> tee_world" where
  "stale_begin E w =
     (if now E (twPins w) - teeStaleCheckedAt w < teeStaleRecheckGap
      then (teeEnclaveKeySet w, teeKeysFetch w, True, w)
      else (None, None, False, w\<lparr>teeStaleCheckedAt := now E (twPins w), teeEnclaveKeySet := None\<rparr>))"

definition TeeSealWentStale :: "pin_env \<Rightarrow> cerr \<Rightarrow> PublicKeySet option \<Rightarrow> tee_world \<Rightarrow> (bool \<times> string option) \<times> tee_world" where
  "TeeSealWentStale E err sealedTo w =
     (if \<not> MayBeStaleTeeSeal err then ((False, None), w)
      else case stale_begin E w of
             (current, call, True, w1) \<Rightarrow>
               (case (current, call) of
                  (None, Some c) \<Rightarrow> (case fetch_end c (fetch_commit E c (fetch_check E c w1)) of (ks, w2) \<Rightarrow> (staleSealVerdict E ks sealedTo w2, w2))
                | _ \<Rightarrow> (staleSealVerdict E current sealedTo w1, w1))
           | (current, call, False, w1) \<Rightarrow>
               (case FetchTeeEnclaveKeySet E w1 of (ks, w2) \<Rightarrow> (staleSealVerdict E ks sealedTo w2, w2)))"

section \<open>Interleavings\<close>

text \<open>The steps of the goroutines: the sections of a fetch and its probe, a stale check, and a repin to what the
  server offered, whose write of the pin file and whose clearing of the session are two steps.\<close>

inductive tee_step :: "pin_env \<Rightarrow> tee_world \<Rightarrow> tee_world \<Rightarrow> bool" for E where
  step_begin: "tee_step E w (snd (fetch_begin w))"
| step_check: "twCalls w c = Some call \<Longrightarrow> tkProbe call = None \<Longrightarrow> tee_step E w (fetch_check E c w)"
| step_commit: "twCalls w c = Some call \<Longrightarrow> tkCommit call = Some p \<Longrightarrow> tee_step E w (fetch_commit E c w)"
| step_end: "twCalls w c = Some call \<Longrightarrow> tkCommit call = None \<Longrightarrow> tee_step E w (snd (fetch_end c w))"
| step_stale: "tee_step E w (snd (snd (snd (stale_begin E w))))"
| step_repin: "OfferedTeeSigningPk E s0 = (Inr offer, s1) \<Longrightarrow> repin_locked E (Some offer) (twPins w) = (None, s2) \<Longrightarrow>
    tee_step E w (w\<lparr>twPins := s2, teeRepins := Suc (teeRepins w)\<rparr>)"
| step_forget: "teeRepins w = Suc n \<Longrightarrow> tee_step E w ((forgetTeeAttestationMemos w)\<lparr>teeRepins := n\<rparr>)"

inductive tee_reach :: "pin_env \<Rightarrow> tee_world \<Rightarrow> tee_world \<Rightarrow> bool" for E w0 where
  reach_start: "tee_reach E w0 w0"
| reach_step: "tee_reach E w0 w \<Longrightarrow> tee_step E w w' \<Longrightarrow> tee_reach E w0 w'"

text \<open>A session that has asked for nothing yet.\<close>

definition tee_fresh :: "tee_world \<Rightarrow> bool" where
  "tee_fresh w \<longleftrightarrow> teeEnclaveKeySet w = None \<and> teeKeysFetch w = None \<and> twCalls w = Map.empty \<and> teeRepins w = 0"

end
