(* ===== verification/SigningLaws.thy ===== *)
theory SigningLaws
  imports Signing
begin

text \<open>
  The laws of the signatures: what was signed verifies, signatures for one purpose never count for another,
  and key transfers are read exactly.
\<close>

section \<open>Base64\<close>

lemma b64_value_char: "n < 64 \<Longrightarrow> b64_value (b64_char n) = Some n \<and> b64_char n \<noteq> CHR ''='' \<and> b64_char n \<noteq> CHR 0x0A \<and> b64_char n \<noteq> CHR 0x0D"
proof -
  have "list_all (\<lambda>n. b64_value (b64_char n) = Some n \<and> b64_char n \<noteq> CHR ''='' \<and> b64_char n \<noteq> CHR 0x0A \<and> b64_char n \<noteq> CHR 0x0D) [0..<64]"
    by (simp add: upt_conv_Cons b64_char_def b64_value_def Let_def)
  then show "n < 64 \<Longrightarrow> ?thesis" by (simp add: list_all_iff)
qed

lemma unat_byte: "unat (b :: byte) < 256"
  using unsigned_less [of b] by simp

lemma quarters: "n < 256 \<Longrightarrow> (n :: nat) div 4 < 64" "n < 256 \<Longrightarrow> n div 16 < 16" "n < 256 \<Longrightarrow> n div 64 < 4"
  by (simp_all add: div_less_iff_less_mult)

lemma digit_join: "x < m \<Longrightarrow> (q * m + x) div m = (q :: nat)" "x < m \<Longrightarrow> (q * m + x) mod m = (x :: nat)"
  by simp_all

lemma digit_bound: "q < k \<Longrightarrow> x < m \<Longrightarrow> q * m + x < k * (m :: nat)"
  using mult_le_mono1 [of "Suc q" k m] by simp

lemma b64_parts:
  fixes a b c :: byte
  shows "unat a div 4 < 64" "unat a mod 4 * 16 + unat b div 16 < 64" "unat b mod 16 * 4 + unat c div 64 < 64" "unat c mod 64 < 64"
    "unat a mod 4 * 16 < 64" "unat b mod 16 * 4 < 64"
  using quarters(1) [OF unat_byte] digit_bound [of "unat a mod 4" 4 "unat b div 16" 16] digit_bound [of "unat b mod 16" 16 "unat c div 64" 4]
    quarters(2,3) [OF unat_byte] digit_bound [of "unat a mod 4" 4 0 16] digit_bound [of "unat b mod 16" 16 0 4]
  by simp_all

lemma b64_bytes:
  fixes a b c :: byte
  shows "word_of_nat (unat a div 4 * 4 + (unat a mod 4 * 16 + unat b div 16) div 16) = a"
    "word_of_nat ((unat a mod 4 * 16 + unat b div 16) mod 16 * 16 + (unat b mod 16 * 4 + unat c div 64) div 4) = b"
    "word_of_nat ((unat b mod 16 * 4 + unat c div 64) mod 4 * 64 + unat c mod 64) = c"
    "word_of_nat (unat a div 4 * 4 + unat a mod 4 * 16 div 16) = a"
    "word_of_nat ((unat a mod 4 * 16 + unat b div 16) mod 16 * 16 + unat b mod 16 * 4 div 4) = b"
  by (simp_all only: digit_join [OF quarters(2) [OF unat_byte]] digit_join [OF quarters(3) [OF unat_byte]] div_mult_mod_eq of_nat_unat ucast_id
      nonzero_mult_div_cancel_right simp_thms zero_neq_numeral numeral_neq_zero)

lemmas b64_step = b64_value_char [OF b64_parts(1)] b64_value_char [OF b64_parts(2)] b64_value_char [OF b64_parts(3)]
  b64_value_char [OF b64_parts(4)] b64_value_char [OF b64_parts(5)] b64_value_char [OF b64_parts(6)]

lemma b64_groups_encode: "b64_groups (b64_encode bs) = Some bs"
  by (induction bs rule: b64_encode.induct) (simp_all only: b64_encode.simps append.simps b64_groups.simps b64_step b64_bytes
      option.case prod.case if_False if_True simp_thms option.map)

lemma b64_encode_printable: "filter (\<lambda>c. c \<noteq> CHR 0x0A \<and> c \<noteq> CHR 0x0D) (b64_encode bs) = b64_encode bs"
  by (induction bs rule: b64_encode.induct) (simp_all add: b64_step)

lemma b64_decode_encode [simp]: "b64_decode (b64_encode bs) = Some bs"
  unfolding b64_decode_def b64_encode_printable by (rule b64_groups_encode)

lemma b64_encode_inj: "b64_encode a = b64_encode b \<longleftrightarrow> a = b"
  by (metis b64_decode_encode option.inject)

lemma b64_decode_Nil [simp]: "b64_decode [] = Some []"
  by (simp add: b64_decode_def)

lemma b64_encode_Nil_iff [simp]: "b64_encode bs = [] \<longleftrightarrow> bs = []"
  by (cases bs rule: b64_encode.cases) simp_all

section \<open>Signatures\<close>

text \<open>What the packages document: signing does not fail with a valid private key, gives a signature of the fixed
  size, and the matching public key verifies it.\<close>

definition signing_pair :: "sig_prims \<Rightarrow> SigningPublicKeySet \<Rightarrow> SigningPrivateKeySet \<Rightarrow> bool" where
  "signing_pair G pub priv \<longleftrightarrow> valid_signing_private G priv \<and>
     length (spkEd25519 pub) = Ed25519PKSize \<and> length (spkMldsa pub) = Mldsa44PKSize G \<and>
     (\<forall>m. length (gEdSign G (sskEd25519 priv) m) = Ed25519SigSize \<and> gEdVerify G (spkEd25519 pub) m (gEdSign G (sskEd25519 priv) m)) \<and>
     (\<forall>m. \<exists>sig. gMlSign G (sskMldsa priv) m = Some sig \<and> length sig = Mldsa44SigSize G \<and> gMlVerify G (spkMldsa pub) m sig = Some True)"

definition sha_ok :: "prims \<Rightarrow> bool" where
  "sha_ok P \<longleftrightarrow> (\<forall>x. length (pSha256 P x) = 32)"

lemma bundle_verifies:
  assumes "signing_pair G pub priv" "length x = 32" "length k = KyberPublicKeySize"
  shows "\<exists>sigEd sigMl. SignKeyBundle G \<lparr>kbX25519 = x, kbKyber = k, kbEd25519 = spkEd25519 pub, kbMldsa = spkMldsa pub\<rparr> priv = Inr (sigEd, sigMl) \<and>
    VerifyKeyBundle G \<lparr>kbX25519 = x, kbKyber = k, kbEd25519 = spkEd25519 pub, kbMldsa = spkMldsa pub\<rparr> sigEd sigMl"
proof -
  let ?b = "\<lparr>kbX25519 = x, kbKyber = k, kbEd25519 = spkEd25519 pub, kbMldsa = spkMldsa pub\<rparr>"
  let ?binp = "bytes_of_string KeyBundleDomain @ x @ k @ spkEd25519 pub @ spkMldsa pub"
  have binp: "keyBundleInput G ?b = Some ?binp" using assms by (simp add: keyBundleInput_def signing_pair_def)
  obtain sig2 where "gMlSign G (sskMldsa priv) ?binp = Some sig2" "length sig2 = Mldsa44SigSize G" "gMlVerify G (spkMldsa pub) ?binp sig2 = Some True"
    using assms(1) unfolding signing_pair_def by metis
  then show ?thesis using assms(1) unfolding SignKeyBundle_def VerifyKeyBundle_def binp by (simp add: signing_pair_def)
qed

lemma file_verifies:
  assumes "signing_pair G pub priv" "sha_ok P"
  shows "\<exists>sigEd sigMl. SignFileBytes P G (Some data) (Some priv) = Inr (sigEd, sigMl) \<and> VerifyFileSignatures P G (Some data) sigEd sigMl (Some pub) = None"
proof -
  let ?inp = "bytes_of_string SignatureDomain @ pSha256 P data"
  obtain sig where "gMlSign G (sskMldsa priv) ?inp = Some sig" "length sig = Mldsa44SigSize G" "gMlVerify G (spkMldsa pub) ?inp sig = Some True"
    using assms(1) unfolding signing_pair_def by metis
  then show ?thesis
    using assms by (simp add: SignFileBytes_def VerifyFileSignatures_def verifySignaturePair_def hashCiphertext_def signingInput_def sha_ok_def signing_pair_def)
qed

text \<open>
  What was signed verifies. A file signed with a private key set verifies with the public key set of the
  pair; a key bundle signed with it verifies too; and the private key set survives being wrapped with a key and
  unwrapped again.
\<close>

theorem signatures_verify:
  assumes "signing_pair G pub priv" "sha_ok P" "aead_ok P" "length pdk = KeySize" "length n1 = NonceSize" "length n2 = NonceSize"
    "length x = 32" "length k = KyberPublicKeySize"
  shows "(\<exists>sigEd sigMl. SignFileBytes P G (Some data) (Some priv) = Inr (sigEd, sigMl) \<and>
       VerifyFileSignatures P G (Some data) sigEd sigMl (Some pub) = None) \<and>
    (\<exists>sigEd sigMl. SignKeyBundle G \<lparr>kbX25519 = x, kbKyber = k, kbEd25519 = spkEd25519 pub, kbMldsa = spkMldsa pub\<rparr> priv = Inr (sigEd, sigMl) \<and>
       VerifyKeyBundle G \<lparr>kbX25519 = x, kbKyber = k, kbEd25519 = spkEd25519 pub, kbMldsa = spkMldsa pub\<rparr> sigEd sigMl) \<and>
    (\<exists>enc. EncryptSigningPrivateKeys P G (Some priv) pdk n1 n2 = Inr enc \<and> DecryptSigningPrivateKeys P G (Some enc) pdk = Inr priv)"
  using file_verifies [OF assms(1,2)] bundle_verifies [OF assms(1,7,8)] assms
  by (simp add: EncryptSigningPrivateKeys_def DecryptSigningPrivateKeys_def signing_pair_def aead_ok_def valid_signing_private_def)

lemma verify_accepts:
  assumes "verifySignaturePair P G r domain sigEd sigMl pubo pre = None"
  shows "\<exists>data pub inp. r = Some data \<and> pubo = Some pub \<and> signingInput domain (pSha256 P data) = Some inp \<and>
    gEdVerify G (spkEd25519 pub) inp sigEd \<and> gMlVerify G (spkMldsa pub) inp sigMl = Some True"
  using assms by (auto simp: verifySignaturePair_def hashCiphertext_def split: if_splits option.splits sum.splits)

section \<open>Purposes do not mix\<close>

definition purpose_of :: "bytes \<Rightarrow> byte" where "purpose_of i = i ! 9"

lemma signingInput_purpose:
  "signingInput SignatureDomain h = Some i \<Longrightarrow> purpose_of i = of_char (CHR ''f'')"
  "signingInput TEESignatureDomain h = Some i \<Longrightarrow> purpose_of i = of_char (CHR ''t'')"
  by (auto simp: signingInput_def purpose_of_def SignatureDomain_def TEESignatureDomain_def bytes_of_string_def nth_append split: if_splits)

lemma keyBundleInput_purpose: "keyBundleInput G b = Some i \<Longrightarrow> purpose_of i = of_char (CHR ''k'')"
  by (auto simp: keyBundleInput_def purpose_of_def KeyBundleDomain_def bytes_of_string_def nth_append split: if_splits)

lemma signingInput_inj: "signingInput d h1 = Some i \<Longrightarrow> signingInput d h2 = Some i \<Longrightarrow> h1 = h2"
  by (auto simp: signingInput_def split: if_splits)

lemma keyBundleInput_inj:
  assumes "keyBundleInput G b1 = Some i" "keyBundleInput G b2 = Some i"
  shows "b1 = b2"
  using assms by (cases b1; cases b2) (auto simp: keyBundleInput_def split: if_splits)

section \<open>Key transfers\<close>

lemma background_parts:
  assumes parsed: "ParseBackgroundKeyTransfer G payload = Inr m"
  shows "\<exists>sk pk pub. payload = BackgroundKeyTransferVersion # bgNameKey m @ bgParentKey m @ sskEd25519 sk @ sskMldsa sk @ pubX25519 pub @ pubKyber pub \<and>
      bgSigningPriv m = Some sk \<and> bgSigningPub m = Some pk \<and> bgPub m = Some pub \<and> DeriveSigningPublic G (Some sk) = Inr pk \<and>
      length (bgNameKey m) = NameKeySize \<and> length (bgParentKey m) = NameKeySize \<and> length (pubKyber pub) = KyberPublicKeySize \<and> length (pubX25519 pub) = 32"
proof -
  from parsed have len: "length payload = BackgroundKeyTransferSize G" and v: "payload ! 0 = BackgroundKeyTransferVersion"
    by (auto simp: ParseBackgroundKeyTransfer_def split: if_splits)
  then obtain r1 where p: "payload = BackgroundKeyTransferVersion # r1" by (cases payload) (auto simp: BackgroundKeyTransferSize_def)
  let ?r2 = "drop NameKeySize r1" let ?r3 = "drop NameKeySize ?r2" let ?r4 = "drop Ed25519SKSize ?r3" let ?r5 = "drop (Mldsa44SKSize G) ?r4"
  let ?sk = "\<lparr>sskEd25519 = take Ed25519SKSize ?r3, sskMldsa = take (Mldsa44SKSize G) ?r4\<rparr>"
  let ?pub = "\<lparr>pubX25519 = take 32 ?r5, pubKyber = take KyberPublicKeySize (drop 32 ?r5)\<rparr>"
  obtain pk where pk: "DeriveSigningPublic G (Some ?sk) = Inr pk"
    and m: "m = \<lparr>bgNameKey = take NameKeySize r1, bgParentKey = take NameKeySize ?r2, bgSigningPriv = Some ?sk, bgSigningPub = Some pk, bgPub = Some ?pub\<rparr>"
    using parsed p by (auto simp: ParseBackgroundKeyTransfer_def Let_def simp del: drop_drop split: if_splits sum.splits)
  have len1: "length r1 = NameKeySize + NameKeySize + Ed25519SKSize + Mldsa44SKSize G + 32 + KyberPublicKeySize"
    using len p by (simp add: BackgroundKeyTransferSize_def)
  have "take KyberPublicKeySize (drop 32 ?r5) = drop 32 ?r5" using len1 by simp
  then have "take NameKeySize r1 @ take NameKeySize ?r2 @ take Ed25519SKSize ?r3 @ take (Mldsa44SKSize G) ?r4 @ take 32 ?r5 @ take KyberPublicKeySize (drop 32 ?r5) = r1"
    by (simp only: append_take_drop_id)
  then show ?thesis
    using p m pk len1 by (intro exI [of _ ?sk] exI [of _ pk] exI [of _ ?pub]) (simp del: drop_drop)
qed

text \<open>
  Keys handed to a device. A device transfer is read as exactly the version, the two decryption keys and the two
  signing keys it consists of, and nothing else of the same length is taken for one; a background transfer never
  accepts it, and what a background transfer yields holds no decryption key: its material is the names' and
  parents' keys, signing keys with the public keys derived from them, and public encryption keys.
\<close>

theorem key_transfers_exact:
  assumes "length x = 32" "length k = KyberSeedSize" "length ed = Ed25519SKSize" "length ml = Mldsa44SKSize G"
  shows "ParseDeviceKeyTransfer G (DeviceKeyTransferVersion # x @ k @ ed @ ml) =
      Inr (\<lparr>privX25519 = x, privKyber = k\<rparr>, \<lparr>sskEd25519 = ed, sskMldsa = ml\<rparr>) \<and>
    (\<exists>e. ParseBackgroundKeyTransfer G (DeviceKeyTransferVersion # x @ k @ ed @ ml) = Inl e) \<and>
    (\<forall>payload m. ParseBackgroundKeyTransfer G payload = Inr m \<longrightarrow>
       (\<exists>sk pk pub. payload = BackgroundKeyTransferVersion # bgNameKey m @ bgParentKey m @ sskEd25519 sk @ sskMldsa sk @ pubX25519 pub @ pubKyber pub \<and>
          bgSigningPriv m = Some sk \<and> bgSigningPub m = Some pk \<and> bgPub m = Some pub \<and> DeriveSigningPublic G (Some sk) = Inr pk \<and>
          length (bgNameKey m) = NameKeySize \<and> length (bgParentKey m) = NameKeySize \<and> length (pubKyber pub) = KyberPublicKeySize))"
proof (intro conjI allI impI)
  show "ParseDeviceKeyTransfer G (DeviceKeyTransferVersion # x @ k @ ed @ ml) =
      Inr (\<lparr>privX25519 = x, privKyber = k\<rparr>, \<lparr>sskEd25519 = ed, sskMldsa = ml\<rparr>)"
    using assms by (simp add: ParseDeviceKeyTransfer_def DeviceKeyTransferSize_def Let_def)
  show "\<exists>e. ParseBackgroundKeyTransfer G (DeviceKeyTransferVersion # x @ k @ ed @ ml) = Inl e"
    by (simp add: ParseBackgroundKeyTransfer_def)
  fix payload m
  assume "ParseBackgroundKeyTransfer G payload = Inr m"
  from background_parts [OF this]
  show "\<exists>sk pk pub. payload = BackgroundKeyTransferVersion # bgNameKey m @ bgParentKey m @ sskEd25519 sk @ sskMldsa sk @ pubX25519 pub @ pubKyber pub \<and>
          bgSigningPriv m = Some sk \<and> bgSigningPub m = Some pk \<and> bgPub m = Some pub \<and> DeriveSigningPublic G (Some sk) = Inr pk \<and>
          length (bgNameKey m) = NameKeySize \<and> length (bgParentKey m) = NameKeySize \<and> length (pubKyber pub) = KyberPublicKeySize"
    by blast
qed

section \<open>A concrete scheme\<close>

text \<open>A scheme that satisfies the laws: the signature repeats the public key.\<close>

definition toy_sig :: sig_prims where
  "toy_sig = \<lparr>gEdGen = (\<lambda>seed. Some (replicate 32 1, replicate 64 1)), gEdSign = (\<lambda>sk m. replicate 64 (sk ! 63)),
     gEdVerify = (\<lambda>pk m sig. sig = replicate 64 (pk ! 31)), gMlGen = (\<lambda>seed. Some ([1], [1])), gMlSign = (\<lambda>sk m. Some sk),
     gMlVerify = (\<lambda>pk m sig. Some (sig = pk)), gMlPublic = (\<lambda>sk. Some sk), gKyberPublic = (\<lambda>seed. Some (replicate 1184 1)),
     Mldsa44SigSize = 1, Mldsa44PKSize = 1, Mldsa44SKSize = 1\<rparr>"

definition toy_prims :: prims where
  "toy_prims = \<lparr>pSeal = (\<lambda>k n p ad. p @ replicate 16 0), pOpen = (\<lambda>k n c ad. Some (take (length c - 16) c)),
     pX25519 = (\<lambda>a b. Some (replicate 32 0)), pBase = (\<lambda>a. replicate 32 0), pEncap = (\<lambda>pk c. None), pDecap = (\<lambda>sk ct. None),
     pHkdf = (\<lambda>i s n. replicate 32 0), pArgon = (\<lambda>p s t m. replicate 32 0), pHmac = (\<lambda>k m. []), pSha256 = (\<lambda>x. take 32 (x @ replicate 32 0))\<rparr>"

definition toy_spk :: SigningPublicKeySet where "toy_spk = \<lparr>spkEd25519 = replicate 32 1, spkMldsa = [1]\<rparr>"
definition toy_ssk :: SigningPrivateKeySet where "toy_ssk = \<lparr>sskEd25519 = replicate 64 1, sskMldsa = [1]\<rparr>"

lemma toy_laws: "signing_pair toy_sig toy_spk toy_ssk" "sha_ok toy_prims" "aead_ok toy_prims"
  by (simp_all add: signing_pair_def toy_sig_def toy_spk_def toy_ssk_def valid_signing_private_def sign_sizes sha_ok_def toy_prims_def aead_ok_def
      Overhead_def min_def)

theorem signatures_verify_witness:
  "\<exists>sigEd sigMl. SignFileBytes toy_prims toy_sig (Some [1, 2]) (Some toy_ssk) = Inr (sigEd, sigMl) \<and>
     VerifyFileSignatures toy_prims toy_sig (Some [1, 2]) sigEd sigMl (Some toy_spk) = None"
  using signatures_verify [OF toy_laws, of "replicate 32 0" "replicate 24 0" "replicate 24 0" "replicate 32 0" "replicate 1184 0" "[1, 2]"]
  by (simp add: size_defs)

theorem key_transfers_exact_witness:
  "ParseDeviceKeyTransfer toy_sig (DeviceKeyTransferVersion # replicate 32 1 @ replicate 64 2 @ replicate 64 3 @ [4]) =
     Inr (\<lparr>privX25519 = replicate 32 1, privKyber = replicate 64 2\<rparr>, \<lparr>sskEd25519 = replicate 64 3, sskMldsa = [4]\<rparr>)"
  using key_transfers_exact [of "replicate 32 1" "replicate 64 2" "replicate 64 3" "[4]" toy_sig]
  by (simp only: simp_thms length_replicate size_defs sign_sizes) (simp add: toy_sig_def)

end
