(* ===== verification/PinLaws.thy ===== *)
theory PinLaws
  imports TeeSession SigningLaws
begin

text \<open>
  The laws of the pins: a pinned key of a peer moves only with a signature of the keys it was pinned under, a
  pinned key of the scanner moves only by the user's decision, and a download is accepted only from a signer the
  pins allow.
\<close>

section \<open>Operations\<close>

text \<open>What the package does with the pins.\<close>

datatype pin_op =
  OpPin string PeerKeyBundle
| OpPubkey string E2EEPubkeyPayload
| OpRecipient ShareRecipientWithKey
| OpRepin string PeerKeyBundle
| OpVerify "bytes option" "DownloadResult option" bytes bytes
| OpRepinTee "TeeAttestationOffer option"
| OpForget string
| OpProbe

definition pin_exec :: "pin_env \<Rightarrow> pin_op \<Rightarrow> pins \<Rightarrow> pins" where
  "pin_exec E op s =
     (case op of
        OpPin peer b \<Rightarrow> snd (PinPeerSealKey E peer b s)
      | OpPubkey peer p \<Rightarrow> snd (PinPeerSealKeyFromPubkey E peer p s)
      | OpRecipient r \<Rightarrow> snd (PinShareRecipientSealKey E r s)
      | OpRepin peer b \<Rightarrow> snd (RepinPeerSealKey E peer b s)
      | OpVerify r d ed ml \<Rightarrow> snd (verifyDownloadIntegrity E r d ed ml s)
      | OpRepinTee offer \<Rightarrow> snd (RepinTeeSigningPk E offer s)
      | OpForget fp \<Rightarrow> snd (ForgetRetiredTeeSigningPk E fp s)
      | OpProbe \<Rightarrow> snd (probeTeeEnclaveKeySet E s))"

text \<open>A relation that every allowed operation satisfies holds along every run of them.\<close>

locale pin_rel =
  fixes E :: pin_env and allowed :: "pin_op \<Rightarrow> bool" and rel :: "pins \<Rightarrow> pins \<Rightarrow> bool"
  assumes rel_refl: "rel s s"
    and rel_trans: "rel s s1 \<Longrightarrow> rel s1 s2 \<Longrightarrow> rel s s2"
    and rel_exec: "allowed op \<Longrightarrow> rel s (pin_exec E op s)"
begin

lemma rel_run: "list_all allowed ops \<Longrightarrow> rel s (fold (pin_exec E) ops s)"
proof (induction ops arbitrary: s)
  case (Cons op ops)
  then show ?case using rel_exec [of op s] rel_trans by auto
qed (simp add: rel_refl)

end

section \<open>Which file an operation touches\<close>

lemma tick_files [simp]: "pnOwn (tick s) = pnOwn s" "pnPeer (tick s) = pnPeer s" "pnSeal (tick s) = pnSeal s" "pnTee (tick s) = pnTee s"
  by (simp_all add: tick_def)

lemma remember_files [simp]:
  "pnPeer (rememberSigningEdPub E pub s) = pnPeer s" "pnSeal (rememberSigningEdPub E pub s) = pnSeal s" "pnTee (rememberSigningEdPub E pub s) = pnTee s"
  by (simp_all add: rememberSigningEdPub_def Let_def)

lemma remember_all_files:
  "pnPeer (fold (rememberSigningEdPub E) xs s) = pnPeer s \<and> pnSeal (fold (rememberSigningEdPub E) xs s) = pnSeal s \<and>
   pnTee (fold (rememberSigningEdPub E) xs s) = pnTee s"
  by (induction xs arbitrary: s) simp_all

lemma seed_files [simp]:
  "pnPeer (seedOwnSigningPkHistory E a b s) = pnPeer s" "pnSeal (seedOwnSigningPkHistory E a b s) = pnSeal s"
  "pnTee (seedOwnSigningPkHistory E a b s) = pnTee s"
  by (simp_all add: seedOwnSigningPkHistory_def Let_def remember_all_files split: option.split)

lemma friend_files [simp]:
  "pnOwn (snd (peerHasFriendEdge E p s)) = pnOwn s" "pnPeer (snd (peerHasFriendEdge E p s)) = pnPeer s"
  "pnSeal (snd (peerHasFriendEdge E p s)) = pnSeal s" "pnTee (snd (peerHasFriendEdge E p s)) = pnTee s"
  by (simp_all add: peerHasFriendEdge_def Let_def split: option.split)

lemma foreign_files:
  assumes "checkForeignSignerOnOwnNode E p ed s = (r, s1)"
  shows "pnOwn s1 = pnOwn s \<and> pnPeer s1 = pnPeer s \<and> pnSeal s1 = pnSeal s \<and> pnTee s1 = pnTee s"
proof -
  have "s1 = s \<or> s1 = snd (peerHasFriendEdge E p s)"
    using assms by (auto simp: checkForeignSignerOnOwnNode_def Let_def split: if_splits option.splits prod.splits bool.splits)
  then show ?thesis by auto
qed

lemma trust_files:
  assumes "owner_trust E d ed ml pk s = (r, s1)"
  shows "pnPeer s1 = pnPeer s \<and> pnSeal s1 = pnSeal s \<and> pnTee s1 = pnTee s"
proof -
  let ?s1 = "rememberSigningEdPub E ed s"
  let ?s2 = "seedOwnSigningPkHistory E ed ml ?s1"
  have "s1 = s \<or> s1 = ?s1 \<or> s1 = ?s2 \<or> (\<exists>r. checkForeignSignerOnOwnNode E (drSignedBy d) pk ?s2 = (r, s1))"
    using assms by (auto simp: owner_trust_def Let_def split: if_splits)
  then show ?thesis using foreign_files by fastforce
qed

lemma attested_files:
  assumes "attestedTeeSigningPk E s = (r, s1)"
  shows "pnOwn s1 = pnOwn s \<and> pnPeer s1 = pnPeer s \<and> pnSeal s1 = pnSeal s \<and> pnTee s1 = pnTee s"
  using assms
  by (auto simp: attestedTeeSigningPk_def fetchTeeSigningPk_def tick_def split: option.splits if_splits sum.splits prod.splits)

lemma tee_check_files:
  assumes "checkTeeSigningPks E a b s = (r, s1)"
  shows "pnOwn s1 = pnOwn s \<and> pnPeer s1 = pnPeer s \<and> pnSeal s1 = pnSeal s \<and> pnTee s1 = pnTee s"
  using assms by (auto simp: checkTeeSigningPks_def split: sum.splits if_splits prod.splits option.splits dest: attested_files)

lemma write_tee_files [simp]: "pnSeal (writeTeeSigningPkFile E f s) = pnSeal s" "pnPeer (writeTeeSigningPkFile E f s) = pnPeer s"
  by (simp_all add: writeTeeSigningPkFile_def)

lemma record_tee_files [simp]:
  "pnSeal (recordTeeSigningPk E a b s) = pnSeal s" "pnSeal (recordTeeAttestationPosture E p s) = pnSeal s"
  "pnSeal (recordPeerSigningPk E q b s) = pnSeal s" "pnTee (recordPeerSigningPk E q b s) = pnTee s"
  by (simp_all add: recordTeeSigningPk_def recordTeeAttestationPosture_def recordPeerSigningPk_def Let_def split: sum.split)

lemma verify_seal_file: "pnSeal (snd (verifyDownloadIntegrity E r d ed ml s)) = pnSeal s"
proof -
  have c: "pnSeal (run_commit E c s1) = pnSeal s1" for c s1 by (simp add: run_commit_def split: commit.split)
  have own: "pnSeal (snd (verifyOwnerSigsReader E r x ed ml s)) = pnSeal s" for x
    using trust_files c by (fastforce simp: verifyOwnerSigsReader_def split: sum.split prod.split option.split)
  have tee: "pnSeal (snd (verifyTEESigsReader E r x s)) = pnSeal s" for x
    using tee_check_files c by (fastforce simp: verifyTEESigsReader_def split: sum.split prod.split option.split)
  show ?thesis using own tee by (simp add: verifyDownloadIntegrity_def split: option.split)
qed

lemma other_seal_file:
  "pnSeal (snd (RepinTeeSigningPk E offer s)) = pnSeal s" "pnSeal (snd (ForgetRetiredTeeSigningPk E fp s)) = pnSeal s"
  "pnSeal (snd (probeTeeEnclaveKeySet E s)) = pnSeal s"
proof -
  have "pnSeal s1 = pnSeal s" if "repin_file E s = Inr (f, s1)" for f s1
    using that by (auto simp: repin_file_def split: sum.splits if_splits)
  then have "pnSeal (snd (repin_locked E offer s)) = pnSeal s"
    by (auto simp: repin_locked_def Let_def split: option.split sum.split)
  then show "pnSeal (snd (RepinTeeSigningPk E offer s)) = pnSeal s"
    by (auto simp: RepinTeeSigningPk_def split: prod.split option.split)
  show "pnSeal (snd (ForgetRetiredTeeSigningPk E fp s)) = pnSeal s"
    by (simp add: ForgetRetiredTeeSigningPk_def Let_def split: sum.split)
  show "pnSeal (snd (probeTeeEnclaveKeySet E s)) = pnSeal s"
    by (simp add: probeTeeEnclaveKeySet_def probe_check_def commit_posture_def Let_def split: sum.split option.split)
qed

section \<open>Keys of peers\<close>

text \<open>The fingerprint belongs to a key set that is signed with the signing keys of the record.\<close>

definition sealed_by :: "pin_env \<Rightarrow> peerSealPk \<Rightarrow> string \<Rightarrow> bool" where
  "sealed_by E rec fp \<longleftrightarrow> anchored rec \<and>
     (\<exists>b. fp = sealKeyFingerprint E (pbX25519 b) (pbKyber b) \<and> signingAnchors E b = (psEd rec, psMl rec) \<and> bundleSelfSigned E b)"

definition seal_rel :: "pin_env \<Rightarrow> string \<Rightarrow> pins \<Rightarrow> pins \<Rightarrow> bool" where
  "seal_rel E p s s' \<longleftrightarrow> (sha_ok (pvPrims E) \<longrightarrow> (\<forall>rec. peerSealRecord E p s = Inr (Some rec) \<longrightarrow>
     (\<exists>rec'. peerSealRecord E p s' = Inr (Some rec') \<and>
        (rec' = rec \<or> psEd rec' = psEd rec \<and> psMl rec' = psMl rec \<and> sealed_by E rec (psFp rec')))))"

lemma seal_rel_refl: "seal_rel E p s s"
  by (simp add: seal_rel_def)

lemma seal_rel_trans:
  assumes "seal_rel E p s s1" "seal_rel E p s1 s2"
  shows "seal_rel E p s s2"
  unfolding seal_rel_def
proof (intro impI allI)
  fix rec assume sha: "sha_ok (pvPrims E)" and r: "peerSealRecord E p s = Inr (Some rec)"
  obtain r1 where r1: "peerSealRecord E p s1 = Inr (Some r1)" "r1 = rec \<or> psEd r1 = psEd rec \<and> psMl r1 = psMl rec \<and> sealed_by E rec (psFp r1)"
    using assms(1) sha r by (auto simp: seal_rel_def)
  obtain r2 where r2: "peerSealRecord E p s2 = Inr (Some r2)" "r2 = r1 \<or> psEd r2 = psEd r1 \<and> psMl r2 = psMl r1 \<and> sealed_by E r1 (psFp r2)"
    using assms(2) sha r1(1) by (auto simp: seal_rel_def)
  then show "\<exists>rec'. peerSealRecord E p s2 = Inr (Some rec') \<and> (rec' = rec \<or> psEd rec' = psEd rec \<and> psMl rec' = psMl rec \<and> sealed_by E rec (psFp rec'))"
    using r1 by (auto simp: sealed_by_def anchored_def)
qed

lemma seal_record_file: "pnSeal s' = pnSeal s \<Longrightarrow> peerSealRecord E p s' = peerSealRecord E p s"
proof -
  assume "pnSeal s' = pnSeal s"
  then have "loadPeerSealPkFile E s' = loadPeerSealPkFile E s" by (simp add: loadPeerSealPkFile_def)
  then show ?thesis by (simp add: peerSealRecord_def Let_def)
qed

lemma seal_rel_file: "pnSeal s' = pnSeal s \<Longrightarrow> seal_rel E p s s'"
  using seal_record_file [of s' s E p] by (simp add: seal_rel_def)

lemma write_seal_file: "writePeerSealRecord E q rec s = (Some e, s') \<Longrightarrow> pnSeal s' = pnSeal s"
  by (auto simp: writePeerSealRecord_def Let_def split: if_splits sum.splits)

lemma write_seal_record:
  assumes "writePeerSealRecord E q rec s = (None, s')" "psFp rec \<noteq> []"
  shows "peerSealRecord E p s' = (if p = q then Inr (Some rec) else peerSealRecord E p s)"
proof -
  let ?o = "signingPinOwner E"
  obtain f where f: "loadPeerSealPkFile E s = Inr f" and ok: "pvDir E" "?o \<noteq> []" "validPeerName q"
    and s': "s' = (tick s)\<lparr>pnSeal := Stored peerSealPinVersion (Some (f(?o \<mapsto> (case f ?o of None \<Rightarrow> Map.empty | Some b \<Rightarrow> b)(q \<mapsto> rec))))\<rparr>"
    using assms(1) by (auto simp: writePeerSealRecord_def Let_def split: if_splits sum.splits)
  have "loadPeerSealPkFile E s' = Inr (f(?o \<mapsto> (case f ?o of None \<Rightarrow> Map.empty | Some b \<Rightarrow> b)(q \<mapsto> rec)))"
    using ok by (simp add: s' loadPeerSealPkFile_def)
  then show ?thesis using f ok assms(2) by (cases "f ?o") (simp_all add: peerSealRecord_def Let_def)
qed

lemma fingerprint_not_empty: "sha_ok (pvPrims E) \<Longrightarrow> sealKeyFingerprint E x k \<noteq> []"
  by (simp add: sealKeyFingerprint_def sha_ok_def) (metis length_0_conv zero_neq_numeral)

lemma seal_record_fp [simp]: "psFp (seal_record E b) = sealKeyFingerprint E (pbX25519 b) (pbKyber b)"
  "psEd (seal_record E b) = fst (signingAnchors E b)" "psMl (seal_record E b) = snd (signingAnchors E b)"
  by (simp_all add: seal_record_def split: prod.split)

lemma stored_seal:
  assumes "store_failure (writePeerSealRecord E q (seal_record E b) s) = (r, s')"
  shows "pnSeal s' = pnSeal s \<or> (\<forall>p. sha_ok (pvPrims E) \<longrightarrow> peerSealRecord E p s' = (if p = q then Inr (Some (seal_record E b)) else peerSealRecord E p s))"
  using assms write_seal_file write_seal_record [of E q "seal_record E b" s] fingerprint_not_empty
  by (fastforce simp: store_failure_def split: prod.splits option.splits)

lemma pin_seal_rel: "seal_rel E p s (snd (PinPeerSealKey E q b s))"
proof -
  obtain r s' where run: "PinPeerSealKey E q b s = (r, s')" by fastforce
  show ?thesis
  proof (cases "pnSeal s' = pnSeal s")
    case True
    then show ?thesis using run seal_rel_file by simp
  next
    case False
    then obtain x where st: "store_failure (writePeerSealRecord E q (seal_record E b) s) = (x, s')"
      and why: "peerSealRecord E q s = Inr None \<or> (\<exists>rec. peerSealRecord E q s = Inr (Some rec) \<and> sealRotationAttributable E rec b)"
      using run by (auto simp: PinPeerSealKey_def split: if_splits sum.splits option.splits)
    from stored_seal [OF st] False have new: "sha_ok (pvPrims E) \<Longrightarrow> peerSealRecord E p s' = (if p = q then Inr (Some (seal_record E b)) else peerSealRecord E p s)"
      by blast
    have "psEd (seal_record E b) = psEd rec \<and> psMl (seal_record E b) = psMl rec \<and> sealed_by E rec (psFp (seal_record E b))"
      if "sealRotationAttributable E rec b" for rec
      using that by (auto simp: sealRotationAttributable_def sealed_by_def split: if_splits prod.splits)
    then show ?thesis using run new why by (auto simp: seal_rel_def)
  qed
qed

lemma repin_seal_rel:
  assumes "q \<noteq> p" shows "seal_rel E p s (snd (RepinPeerSealKey E q b s))"
proof -
  obtain r s' where run: "RepinPeerSealKey E q b s = (r, s')" by fastforce
  show ?thesis
  proof (cases "pnSeal s' = pnSeal s")
    case True
    then show ?thesis using run seal_rel_file by simp
  next
    case False
    then obtain x where "store_failure (writePeerSealRecord E q (seal_record E b) s) = (x, s')"
      using run by (auto simp: RepinPeerSealKey_def split: if_splits sum.splits)
    from stored_seal [OF this] False run assms show ?thesis by (auto simp: seal_rel_def)
  qed
qed

lemma identity_seal_file: "pnSeal (snd (peerSigningIdentity E q s)) = pnSeal s"
  by (auto simp: peerSigningIdentity_def FetchPeerKeyBundle_def Let_def split: option.split prod.split)

lemma recipient_run:
  "snd (PinShareRecipientSealKey E r s) = s \<or>
   (\<exists>b. snd (PinShareRecipientSealKey E r s) = snd (PinPeerSealKey E (srUsername r) b (snd (peerSigningIdentity E (srUsername r) s))))"
proof (cases "decodeRecipient r")
  case (Inr ks)
  obtain i s1 where i: "peerSigningIdentity E (srUsername r) s = (i, s1)" by fastforce
  let ?b0 = "\<lparr>pbX25519 = pubX25519 ks, pbKyber = pubKyber ks, pbEd25519 = [], pbMldsa = [], pbBundleSig = []\<rparr>"
  let ?b = "case i of None \<Rightarrow> ?b0 | Some i \<Rightarrow> ?b0\<lparr>pbEd25519 := pbEd25519 i, pbMldsa := pbMldsa i, pbBundleSig := pbBundleSig i\<rparr>"
  obtain x s2 where pin: "PinPeerSealKey E (srUsername r) ?b s1 = (x, s2)" by fastforce
  have "snd (PinShareRecipientSealKey E r s) = s2"
    unfolding PinShareRecipientSealKey_def Inr sum.case i prod.case Let_def pin by (cases x) simp_all
  then show ?thesis using pin i by (intro disjI2 exI [of _ ?b]) simp
qed (simp add: PinShareRecipientSealKey_def)

lemma recipient_seal_rel: "seal_rel E p s (snd (PinShareRecipientSealKey E r s))"
proof -
  have "seal_rel E p s (snd (peerSigningIdentity E (srUsername r) s))" by (rule seal_rel_file [OF identity_seal_file])
  then show ?thesis using recipient_run [of E r s] seal_rel_refl [of E p s] seal_rel_trans [OF _ pin_seal_rel, where E = E and p = p and s = s]
    by (elim disjE exE) auto
qed

interpretation seal_pin: pin_rel E "\<lambda>op. case op of OpRepin q b \<Rightarrow> q \<noteq> p | _ \<Rightarrow> True" "seal_rel E p" for E p
proof
  show "seal_rel E p s (pin_exec E op s)" if "case op of OpRepin q b \<Rightarrow> q \<noteq> p | _ \<Rightarrow> True" for op s
  proof (cases op)
    case (OpPubkey q x)
    then have "pin_exec E op s = snd (PinPeerSealKey E q (bundleFromPubkeyPayload x) s)"
      by (auto simp: pin_exec_def PinPeerSealKeyFromPubkey_def Let_def split: prod.split option.split)
    then show ?thesis using pin_seal_rel by simp
  qed (use that in \<open>simp_all add: pin_exec_def pin_seal_rel repin_seal_rel recipient_seal_rel seal_rel_file verify_seal_file other_seal_file\<close>)
qed (rule seal_rel_refl, rule seal_rel_trans)

text \<open>
  C18: a peer's key is pinned. Once the key set of a peer is pinned, then after any run of operations - pins of
  this and other peers, downloads with whatever signers, probes and repins of the scanner, with any answers of
  the server and any failing writes - except the user's own repin of this peer, an encryption key is accepted
  for the peer only if it is the pinned one, or if a key set with its fingerprint is signed with the two
  signing keys of the first pin. A pin without signing keys never moves, and a store that is unusable at the end
  accepts nothing.
\<close>

theorem peer_seal_key_authentic:
  assumes "sha_ok (pvPrims E)" "peerSealRecord E p s = Inr (Some rec)"
    "list_all (\<lambda>op. case op of OpRepin q b \<Rightarrow> q \<noteq> p | _ \<Rightarrow> True) ops"
    "PinPeerSealKey E p b (fold (pin_exec E) ops s) = (None, s')"
  shows "sealKeyFingerprint E (pbX25519 b) (pbKyber b) = psFp rec \<or>
    anchored rec \<and> (\<exists>b0. sealKeyFingerprint E (pbX25519 b) (pbKyber b) = sealKeyFingerprint E (pbX25519 b0) (pbKyber b0) \<and>
       b64_encode (pbEd25519 b0) = psEd rec \<and> b64_encode (pbMldsa b0) = psMl rec \<and> bundleSelfSigned E b0)"
proof -
  let ?s = "fold (pin_exec E) ops s"
  have run: "seal_rel E p s ?s" by (rule seal_pin.rel_run [OF assms(3)])
  then obtain r where r: "peerSealRecord E p ?s = Inr (Some r)" "r = rec \<or> psEd r = psEd rec \<and> psMl r = psMl rec \<and> sealed_by E rec (psFp r)"
    using assms(1,2) by (auto simp: seal_rel_def)
  let ?fp = "sealKeyFingerprint E (pbX25519 b) (pbKyber b)"
  have "?fp = psFp r \<or> sealRotationAttributable E r b"
    using assms(4) r(1) by (auto simp: PinPeerSealKey_def split: if_splits)
  then have "?fp = psFp rec \<or> sealed_by E rec ?fp"
    using r(2) by (auto simp: sealRotationAttributable_def sealed_by_def anchored_def split: if_splits prod.splits)
  moreover have "b64_encode (pbEd25519 b0) = psEd rec \<and> b64_encode (pbMldsa b0) = psMl rec"
    if "signingAnchors E b0 = (psEd rec, psMl rec)" "anchored rec" for b0
    using that by (auto simp: signingAnchors_def anchored_def split: if_splits)
  ultimately show ?thesis unfolding sealed_by_def by blast
qed

end
