(* ===== verification/TeeLaws.thy ===== *)
theory TeeLaws
  imports PinLaws
begin

text \<open>
  The laws of the scanner's pins and of the check of a download: which signers are accepted, what a failed check
  leaves behind, how the pin of the scanner moves, and that the key set a session remembers is the pinned one.
\<close>

section \<open>The record of the scanner\<close>

lemma tee_record_file: "pnTee s' = pnTee s \<Longrightarrow> teeSigningRecord E s' = teeSigningRecord E s"
  by (simp add: teeSigningRecord_def loadTeeSigningPkFile_def)

lemma posture_file: "pnTee s' = pnTee s \<Longrightarrow> pinnedTeeAttestationPosture E s' = pinnedTeeAttestationPosture E s"
  by (simp add: pinnedTeeAttestationPosture_def loadTeeSigningPkFile_def)

lemma load_after_write:
  assumes "pvDir E"
  shows "loadTeeSigningPkFile E (writeTeeSigningPkFile E f s) = (if pvWrite E (pnTick s) then Inr f else loadTeeSigningPkFile E s)"
  using assms by (simp add: writeTeeSigningPkFile_def loadTeeSigningPkFile_def)

lemma record_after_write:
  assumes "pvDir E" "signingPinOwner E \<noteq> []"
  shows "teeSigningRecord E (writeTeeSigningPkFile E (f(signingPinOwner E \<mapsto> r)) s) = (if pvWrite E (pnTick s) then Inr r else teeSigningRecord E s)"
  using assms by (simp add: teeSigningRecord_def load_after_write owner_record_def)

text \<open>A posture may only gain the key it lacked.\<close>

definition posture_kept :: "teeAttestationPosture \<Rightarrow> teeAttestationPosture \<Rightarrow> bool" where
  "posture_kept p p' \<longleftrightarrow> p' = p \<or> poSealingPkKyber p = [] \<and> poMode p' = poMode p \<and> poSealingPk p' = poSealingPk p \<and>
     (poMode p = ''epid'' \<longrightarrow> poMrenclave p' = poMrenclave p)"

definition tee_rel :: "pin_env \<Rightarrow> pins \<Rightarrow> pins \<Rightarrow> bool" where
  "tee_rel E s s' \<longleftrightarrow> (\<forall>rec. teeSigningRecord E s = Inr rec \<longrightarrow>
     (\<exists>rec'. teeSigningRecord E s' = Inr rec' \<and> tsRetired rec' = tsRetired rec \<and>
        (pinned rec \<longrightarrow> tsEd rec' = tsEd rec \<and> tsMl rec' = tsMl rec) \<and>
        (\<forall>p. tsPosture rec = Some p \<longrightarrow> (\<exists>p'. tsPosture rec' = Some p' \<and> posture_kept p p'))))"

lemma tee_rel_refl: "tee_rel E s s"
  by (simp add: tee_rel_def posture_kept_def)

lemma posture_kept_trans: "posture_kept p q \<Longrightarrow> posture_kept q r \<Longrightarrow> posture_kept p r"
  by (auto simp: posture_kept_def)

lemma tee_rel_trans:
  assumes "tee_rel E s s1" "tee_rel E s1 s2"
  shows "tee_rel E s s2"
  unfolding tee_rel_def
proof (intro allI impI)
  fix rec assume r: "teeSigningRecord E s = Inr rec"
  obtain r1 where r1: "teeSigningRecord E s1 = Inr r1" "tsRetired r1 = tsRetired rec" "pinned rec \<longrightarrow> tsEd r1 = tsEd rec \<and> tsMl r1 = tsMl rec"
    "\<forall>p. tsPosture rec = Some p \<longrightarrow> (\<exists>p'. tsPosture r1 = Some p' \<and> posture_kept p p')"
    using assms(1) r unfolding tee_rel_def by blast
  obtain r2 where r2: "teeSigningRecord E s2 = Inr r2" "tsRetired r2 = tsRetired r1" "pinned r1 \<longrightarrow> tsEd r2 = tsEd r1 \<and> tsMl r2 = tsMl r1"
    "\<forall>p. tsPosture r1 = Some p \<longrightarrow> (\<exists>p'. tsPosture r2 = Some p' \<and> posture_kept p p')"
    using assms(2) r1(1) unfolding tee_rel_def by blast
  have "pinned rec \<Longrightarrow> pinned r1" using r1(3) by (simp add: pinned_def)
  then show "\<exists>rec'. teeSigningRecord E s2 = Inr rec' \<and> tsRetired rec' = tsRetired rec \<and> (pinned rec \<longrightarrow> tsEd rec' = tsEd rec \<and> tsMl rec' = tsMl rec) \<and>
      (\<forall>p. tsPosture rec = Some p \<longrightarrow> (\<exists>p'. tsPosture rec' = Some p' \<and> posture_kept p p'))"
    using r1 r2 posture_kept_trans by (intro exI [of _ r2]) (metis (no_types, lifting))
qed

lemma tee_rel_file: "pnTee s' = pnTee s \<Longrightarrow> tee_rel E s s'"
  using tee_record_file [of s' s E] tee_rel_refl [of E s] by (simp add: tee_rel_def)

lemma record_key_rel:
  assumes "teeSigningRecord E s = Inr rec" "\<not> pinned rec"
  shows "tee_rel E s (recordTeeSigningPk E ed ml s)"
proof (cases "\<not> pvDir E \<or> signingPinOwner E = [] \<or> ed = [] \<or> ml = []")
  case True
  then show ?thesis by (auto simp: recordTeeSigningPk_def Let_def tee_rel_refl)
next
  case False
  then obtain f where f: "loadTeeSigningPkFile E s = Inr f" "rec = owner_record f (signingPinOwner E)"
    using assms(1) by (auto simp: teeSigningRecord_def split: sum.splits)
  have "recordTeeSigningPk E ed ml s = writeTeeSigningPkFile E (f(signingPinOwner E \<mapsto> rec\<lparr>tsEd := ed, tsMl := ml\<rparr>)) s"
    using False f by (simp add: recordTeeSigningPk_def Let_def)
  then show ?thesis using False assms record_after_write [of E f "rec\<lparr>tsEd := ed, tsMl := ml\<rparr>" s]
    by (auto simp: tee_rel_def posture_kept_def)
qed

lemma record_posture_rel:
  assumes "checkTeeAttestationPosture E a s = Inr (Some p)"
  shows "tee_rel E s (recordTeeAttestationPosture E p s)"
proof (cases "\<not> pvDir E \<or> signingPinOwner E = [] \<or> poMode p = [] \<or> (\<exists>e. loadTeeSigningPkFile E s = Inl e)")
  case True
  then show ?thesis by (auto simp: recordTeeAttestationPosture_def Let_def tee_rel_refl)
next
  case False
  then obtain f where f: "loadTeeSigningPkFile E s = Inr f" by (cases "loadTeeSigningPkFile E s") auto
  let ?rec = "owner_record f (signingPinOwner E)"
  have rec: "teeSigningRecord E s = Inr ?rec" using f False by (simp add: teeSigningRecord_def)
  have "recordTeeAttestationPosture E p s = writeTeeSigningPkFile E (f(signingPinOwner E \<mapsto> ?rec\<lparr>tsPosture := Some p\<rparr>)) s"
    using False f by (simp add: recordTeeAttestationPosture_def Let_def)
  moreover have "posture_kept q p" if "tsPosture ?rec = Some q" for q
  proof -
    have "pinnedTeeAttestationPosture E s = Inr (Some q) \<or> (\<exists>e. pinnedTeeAttestationPosture E s = Inl e)"
      using that f False by (auto simp: pinnedTeeAttestationPosture_def owner_record_def no_tee_record_def split: option.splits)
    then show ?thesis
      using assms by (auto simp: checkTeeAttestationPosture_def posture_kept_def split: if_splits sum.splits option.splits)
  qed
  ultimately show ?thesis using False rec record_after_write [of E f "?rec\<lparr>tsPosture := Some p\<rparr>" s]
    by (auto simp: tee_rel_def posture_kept_def)
qed

lemma probe_tee_rel: "tee_rel E s (snd (probeTeeEnclaveKeySet E s))"
proof -
  have "snd (probeTeeEnclaveKeySet E s) = tick s \<or>
      (\<exists>a p. checkTeeAttestationPosture E a (tick s) = Inr (Some p) \<and> snd (probeTeeEnclaveKeySet E s) = recordTeeAttestationPosture E p (tick s))"
    by (auto simp: probeTeeEnclaveKeySet_def probe_check_def commit_posture_def Let_def split: sum.split option.split)
  then show ?thesis using record_posture_rel [of E _ "tick s"] tee_rel_file [of "tick s" s E] tee_rel_trans by auto
qed

lemma seal_tee_file:
  "pnTee (snd (PinPeerSealKey E q b s)) = pnTee s" "pnTee (snd (RepinPeerSealKey E q b s)) = pnTee s"
proof -
  have "pnTee (snd (store_failure (writePeerSealRecord E q (seal_record E b) s))) = pnTee s"
    by (simp add: store_failure_def writePeerSealRecord_def Let_def split: prod.split option.split sum.split)
  then show "pnTee (snd (PinPeerSealKey E q b s)) = pnTee s" "pnTee (snd (RepinPeerSealKey E q b s)) = pnTee s"
    by (auto simp: PinPeerSealKey_def RepinPeerSealKey_def split: sum.split option.split)
qed

section \<open>Checks and commits\<close>

lemma tee_check_outcome:
  assumes "checkTeeSigningPks E ed ml s = (Inr c, s1)"
  shows "\<exists>rec. teeSigningRecord E s = Inr rec \<and>
    (if pinned rec then accepts rec ed ml \<and> c = NoCommit
     else c = PinTee ed ml \<and> (teeSigningAtt s = Some (ed, ml) \<or>
       (\<exists>n r. pvAttest E n = Inr r \<and> teeAttestationAnswerable r = None \<and> ed = atEnclaveSigningPkEd25519 r \<and> ml = atEnclaveSigningPkMldsa r)))"
  using assms
  by (auto simp: checkTeeSigningPks_def attestedTeeSigningPk_def fetchTeeSigningPk_def split: sum.splits if_splits prod.splits option.splits)

lemma tee_verify_run:
  assumes "verifyTEESigsReader E r d s = (res, s')"
  shows "(\<exists>e. res = Some e) \<and> pnTee s' = pnTee s \<and> pnPeer s' = pnPeer s \<or>
    (\<exists>c s1 sigEd sigMl pkEd pkMl. res = None \<and> checkTeeSigningPks E (drTEESigningPkEd25519 d) (drTEESigningPkMldsa d) s = (Inr c, s1) \<and> s' = run_commit E c s1 \<and>
       decode_parts ''tee_'' (drTEESignatureEd25519 d) (drTEESignatureMldsa d) (drTEESigningPkEd25519 d) (drTEESigningPkMldsa d) = Inr (sigEd, sigMl, pkEd, pkMl) \<and>
       VerifyTEEFileSignatures (pvPrims E) (pvSig E) r sigEd sigMl (Some \<lparr>spkEd25519 = pkEd, spkMldsa = pkMl\<rparr>) = None)"
  using assms by (auto simp: verifyTEESigsReader_def split: sum.splits if_splits prod.splits option.splits dest: tee_check_files)

lemma tee_verify_rel: "tee_rel E s (snd (verifyTEESigsReader E r d s))"
proof -
  obtain res s' where run: "verifyTEESigsReader E r d s = (res, s')" by fastforce
  from tee_verify_run [OF run] show ?thesis
  proof (elim disjE conjE exE)
    fix c s1
    assume chk: "checkTeeSigningPks E (drTEESigningPkEd25519 d) (drTEESigningPkMldsa d) s = (Inr c, s1)" and s': "s' = run_commit E c s1"
    have same: "pnTee s1 = pnTee s" using tee_check_files [OF chk] by simp
    obtain rec where rec: "teeSigningRecord E s = Inr rec" "pinned rec \<longrightarrow> c = NoCommit" "\<not> pinned rec \<longrightarrow> c = PinTee (drTEESigningPkEd25519 d) (drTEESigningPkMldsa d)"
      using tee_check_outcome [OF chk] by (auto split: if_splits)
    have "teeSigningRecord E s1 = Inr rec" using rec tee_record_file [OF same] by simp
    then have "tee_rel E s1 s'" using rec s' record_key_rel tee_rel_refl by (cases "pinned rec") (simp_all add: run_commit_def)
    then show ?thesis using tee_rel_trans [OF tee_rel_file [OF same]] run by auto
  qed (use run tee_rel_file in auto)
qed

lemma foreign_commit:
  assumes "checkForeignSignerOnOwnNode E p ed s = (Inr c, s1)"
  shows "(c = NoCommit \<and> peerSigningPkSeen E p s = Some (b64_encode ed) \<or>
     c = PinPeer p (b64_encode ed) \<and> peerSigningPkSeen E p s = None \<and> (friend_known s p \<or> (\<exists>n names. pvFriends E n = Some names \<and> p \<in> set names)))"
  using assms
  by (auto simp: checkForeignSignerOnOwnNode_def Let_def peerHasFriendEdge_def friend_known_def tick_def
      split: if_splits option.splits prod.splits bool.splits)

lemma trust_commit:
  assumes "owner_trust E d ed ml pk s = (Inr c, s1)"
  shows "c = NoCommit \<or> (\<exists>p b. c = PinPeer p b)"
  using assms foreign_commit by (fastforce simp: owner_trust_def Let_def split: if_splits)

lemma owner_verify_run:
  assumes "verifyOwnerSigsReader E r d ed ml s = (res, s')"
  shows "(\<exists>e. res = Some e) \<and> pnTee s' = pnTee s \<and> pnPeer s' = pnPeer s \<or>
    (\<exists>c s1 sigEd sigMl pkEd pkMl. res = None \<and> owner_trust E d ed ml pkEd s = (Inr c, s1) \<and> s' = run_commit E c s1 \<and>
       decode_parts [] (drSignatureEd25519 d) (drSignatureMldsa d) (drSigningPkEd25519 d) (drSigningPkMldsa d) = Inr (sigEd, sigMl, pkEd, pkMl) \<and>
       VerifyFileSignatures (pvPrims E) (pvSig E) r sigEd sigMl (Some \<lparr>spkEd25519 = pkEd, spkMldsa = pkMl\<rparr>) = None)"
  using assms by (auto simp: verifyOwnerSigsReader_def split: sum.splits if_splits prod.splits option.splits dest: trust_files)

lemma owner_verify_rel: "tee_rel E s (snd (verifyOwnerSigsReader E r d ed ml s))"
proof -
  obtain res s' where run: "verifyOwnerSigsReader E r d ed ml s = (res, s')" by fastforce
  have "pnTee s' = pnTee s"
    using owner_verify_run [OF run] trust_commit trust_files by (fastforce simp: run_commit_def)
  then show ?thesis using run tee_rel_file by simp
qed

interpretation tee_pin: pin_rel E "\<lambda>op. case op of OpRepinTee x \<Rightarrow> False | OpForget x \<Rightarrow> False | _ \<Rightarrow> True" "tee_rel E" for E
proof
  show "tee_rel E s (pin_exec E op s)" if "case op of OpRepinTee x \<Rightarrow> False | OpForget x \<Rightarrow> False | _ \<Rightarrow> True" for op s
  proof (cases op)
    case (OpPubkey q x)
    then have "pin_exec E op s = snd (PinPeerSealKey E q (bundleFromPubkeyPayload x) s)"
      by (auto simp: pin_exec_def PinPeerSealKeyFromPubkey_def Let_def split: prod.split option.split)
    then show ?thesis using tee_rel_file seal_tee_file by simp
  next
    case (OpRecipient r)
    have "pnTee (snd (peerSigningIdentity E (srUsername r) s)) = pnTee s"
      by (auto simp: peerSigningIdentity_def FetchPeerKeyBundle_def Let_def split: option.split prod.split)
    then have "pnTee (snd (PinShareRecipientSealKey E r s)) = pnTee s"
      using recipient_run [of E r s] seal_tee_file(1) by auto
    then show ?thesis using OpRecipient tee_rel_file by (simp add: pin_exec_def)
  next
    case (OpVerify r d ed ml)
    then show ?thesis using owner_verify_rel tee_verify_rel tee_rel_refl
      by (auto simp: pin_exec_def verifyDownloadIntegrity_def split: option.split)
  qed (use that in \<open>simp_all add: pin_exec_def tee_rel_file seal_tee_file probe_tee_rel\<close>)
qed (rule tee_rel_refl, rule tee_rel_trans)

text \<open>
  C19: the scanner's key is pinned. Once a signing key of the scanner is pinned, then after any run of
  operations but the user's own repin or forgetting - with any attestation the server may present and any
  failing writes - a scanner's signature on a download is accepted only if the key is the pinned one or one
  retired by an earlier repin, and both signatures are valid for the data under the scanner's own domain. The
  pinned posture of the scanner is still the same, except that a pin older than the post-quantum key may have
  gained one.
\<close>

theorem scanner_key_pinned:
  assumes "teeSigningRecord E s = Inr rec" "pinned rec"
    "list_all (\<lambda>op. case op of OpRepinTee x \<Rightarrow> False | OpForget x \<Rightarrow> False | _ \<Rightarrow> True) ops"
    "verifyTEESigsReader E r d (fold (pin_exec E) ops s) = (None, s')"
  shows "accepts rec (drTEESigningPkEd25519 d) (drTEESigningPkMldsa d) \<and>
    (\<exists>data inp sigEd sigMl pkEd pkMl. r = Some data \<and> signingInput TEESignatureDomain (pSha256 (pvPrims E) data) = Some inp \<and>
       b64_decode (drTEESigningPkEd25519 d) = Some pkEd \<and> b64_decode (drTEESigningPkMldsa d) = Some pkMl \<and>
       gEdVerify (pvSig E) pkEd inp sigEd \<and> gMlVerify (pvSig E) pkMl inp sigMl = Some True) \<and>
    (\<forall>p. tsPosture rec = Some p \<longrightarrow> (\<exists>rec' p'. teeSigningRecord E (fold (pin_exec E) ops s) = Inr rec' \<and> tsPosture rec' = Some p' \<and> posture_kept p p'))"
proof -
  let ?s = "fold (pin_exec E) ops s"
  have "tee_rel E s ?s" by (rule tee_pin.rel_run [OF assms(3)])
  then obtain rec' where rec': "teeSigningRecord E ?s = Inr rec'" "tsRetired rec' = tsRetired rec" "tsEd rec' = tsEd rec" "tsMl rec' = tsMl rec"
    "\<forall>p. tsPosture rec = Some p \<longrightarrow> (\<exists>p'. tsPosture rec' = Some p' \<and> posture_kept p p')"
    using assms(1,2) unfolding tee_rel_def by blast
  obtain c s1 sigEd sigMl pkEd pkMl where c: "checkTeeSigningPks E (drTEESigningPkEd25519 d) (drTEESigningPkMldsa d) ?s = (Inr c, s1)"
    and parts: "decode_parts ''tee_'' (drTEESignatureEd25519 d) (drTEESignatureMldsa d) (drTEESigningPkEd25519 d) (drTEESigningPkMldsa d) = Inr (sigEd, sigMl, pkEd, pkMl)"
    and ok: "VerifyTEEFileSignatures (pvPrims E) (pvSig E) r sigEd sigMl (Some \<lparr>spkEd25519 = pkEd, spkMldsa = pkMl\<rparr>) = None"
    using tee_verify_run [OF assms(4)] by auto
  have "pinned rec'" using assms(2) rec' by (simp add: pinned_def)
  then have "accepts rec' (drTEESigningPkEd25519 d) (drTEESigningPkMldsa d)" using tee_check_outcome [OF c] rec'(1) by auto
  then have "accepts rec (drTEESigningPkEd25519 d) (drTEESigningPkMldsa d)" using rec' by (simp add: accepts_def pinned_def)
  moreover have "b64_decode (drTEESigningPkEd25519 d) = Some pkEd" "b64_decode (drTEESigningPkMldsa d) = Some pkMl"
    using parts by (auto simp: decode_parts_def decodeB64Required_def split: sum.splits if_splits option.splits)
  moreover obtain data inp where "r = Some data" "signingInput TEESignatureDomain (pSha256 (pvPrims E) data) = Some inp"
    "gEdVerify (pvSig E) pkEd inp sigEd" "gMlVerify (pvSig E) pkMl inp sigMl = Some True"
    using verify_accepts ok unfolding VerifyTEEFileSignatures_def by fastforce
  ultimately show ?thesis using rec' by blast
qed

section \<open>Who may have signed a download\<close>

lemma own_file_stored: "pvDir E \<Longrightarrow> loadSigningPkFile E (x\<lparr>pnOwn := Stored 2 (Some f)\<rparr>) = f"
  by (simp add: loadSigningPkFile_def)

lemma remember_set:
  "set (loadSigningPkSet E (rememberSigningEdPub E pub s)) \<subseteq> insert (b64_encode pub) (set (loadSigningPkSet E s))"
proof (cases "pvDir E \<and> signingPinOwner E \<noteq> []")
  case True
  let ?o = "signingPinOwner E"
  let ?xs = "loadSigningPkSet E s"
  have xs: "?xs = (case loadSigningPkFile E s ?o of None \<Rightarrow> [] | Some ys \<Rightarrow> ys)" using True by (simp add: loadSigningPkSet_def)
  show ?thesis
  proof (cases "b64_encode pub \<in> set ?xs \<or> \<not> pvWrite E (pnTick s)")
    case keep: True
    then have "loadSigningPkSet E (rememberSigningEdPub E pub s) = ?xs"
      using True by (auto simp: rememberSigningEdPub_def Let_def xs loadSigningPkSet_def loadSigningPkFile_def)
    then show ?thesis by auto
  next
    case False
    let ?ys = "?xs @ [b64_encode pub]"
    let ?zs = "if length ?ys > ownSigningPksMax then drop (length ?ys - ownSigningPksMax) ?ys else ?ys"
    have "rememberSigningEdPub E pub s = (tick s)\<lparr>pnOwn := Stored 2 (Some ((loadSigningPkFile E s)(?o \<mapsto> ?zs)))\<rparr>"
      using True False unfolding xs rememberSigningEdPub_def Let_def by (cases "loadSigningPkFile E s ?o") simp_all
    then have "loadSigningPkSet E (rememberSigningEdPub E pub s) = ?zs"
      using True by (simp add: loadSigningPkSet_def own_file_stored)
    moreover have "set ?zs \<subseteq> set ?ys" by (cases "length ?ys > ownSigningPksMax") (simp_all only: if_True if_False set_drop_subset order_refl)
    moreover have "set ?ys = insert (b64_encode pub) (set ?xs)" by simp
    ultimately show ?thesis by (simp only:)
  qed
next
  case False
  then show ?thesis by (auto simp: rememberSigningEdPub_def Let_def)
qed

lemma remember_all_set:
  "set (loadSigningPkSet E (fold (rememberSigningEdPub E) xs s)) \<subseteq> b64_encode ` set xs \<union> set (loadSigningPkSet E s)"
proof (induction xs arbitrary: s)
  case (Cons x xs)
  show ?case using Cons [of "rememberSigningEdPub E x s"] remember_set [of E x s] by auto
qed simp

text \<open>A key the own current keys vouch for, in a list they have signed.\<close>

definition vouched :: "pin_env \<Rightarrow> bytes \<Rightarrow> bytes \<Rightarrow> bytes \<Rightarrow> bool" where
  "vouched E ownEd ownMl pk \<longleftrightarrow> (\<exists>keys sigEd sigMl. pk \<in> set keys \<and>
     gEdVerify (pvSig E) ownEd (bytes_of_string signingPkHistoryDomain @ concat keys) sigEd \<and>
     gMlVerify (pvSig E) ownMl (bytes_of_string signingPkHistoryDomain @ concat keys) sigMl = Some True)"

lemma history_vouched:
  assumes "pk \<in> set (verifySigningPkHistory E blob ed ml)"
  shows "vouched E ed ml pk"
proof -
  obtain x where x: "jHistoryBlob E blob = Some x" using assms by (cases "jHistoryBlob E blob") (simp_all add: verifySigningPkHistory_def)
  obtain ks where ks: "decode_all (hbEds x) = Some ks"
    using assms x by (cases "decode_all (hbEds x)") (simp_all add: verifySigningPkHistory_def split: if_splits)
  obtain sigEd where sigEd: "b64_decode (hbSigEd x) = Some sigEd"
    using assms x ks by (cases "b64_decode (hbSigEd x)") (simp_all add: verifySigningPkHistory_def Let_def split: if_splits)
  obtain sigMl where sigMl: "b64_decode (hbSigMl x) = Some sigMl"
    using assms x ks sigEd by (cases "b64_decode (hbSigMl x)") (simp_all add: verifySigningPkHistory_def Let_def split: if_splits)
  show ?thesis
    using assms x ks sigEd sigMl unfolding vouched_def
    by (intro exI [of _ ks] exI [of _ sigEd] exI [of _ sigMl]) (simp add: verifySigningPkHistory_def Let_def split: if_splits)
qed

lemma own_file_same: "pnOwn s' = pnOwn s \<Longrightarrow> loadSigningPkSet E s' = loadSigningPkSet E s"
  by (simp add: loadSigningPkSet_def loadSigningPkFile_def)

lemma seed_set:
  assumes "b64_encode pk \<in> set (loadSigningPkSet E (seedOwnSigningPkHistory E ed ml s))"
  shows "vouched E ed ml pk \<or> b64_encode pk \<in> set (loadSigningPkSet E s)"
proof (cases "b64_encode pk \<in> set (loadSigningPkSet E s)")
  case False
  let ?s2 = "tick (s\<lparr>ownSigningHistoryNextTry := now E s + minute\<rparr>)"
  have same: "loadSigningPkSet E ?s2 = loadSigningPkSet E s" by (rule own_file_same) simp
  have "\<exists>blob. b64_encode pk \<in> set (loadSigningPkSet E (fold (rememberSigningEdPub E) (verifySigningPkHistory E blob ed ml) ?s2))"
  proof -
    have "loadSigningPkSet E (x\<lparr>ownSigningHistorySeeded := b\<rparr>) = loadSigningPkSet E x" for x b by (rule own_file_same) simp
    then show ?thesis using assms False same
      by (auto simp: seedOwnSigningPkHistory_def Let_def split: if_splits option.splits)
  qed
  then obtain blob where "b64_encode pk \<in> set (loadSigningPkSet E (fold (rememberSigningEdPub E) (verifySigningPkHistory E blob ed ml) ?s2))" by blast
  then have "b64_encode pk \<in> b64_encode ` set (verifySigningPkHistory E blob ed ml) \<union> set (loadSigningPkSet E s)"
    using remember_all_set [of E "verifySigningPkHistory E blob ed ml" ?s2] unfolding same by blast
  then show ?thesis using False history_vouched by (auto simp: b64_encode_inj)
qed simp

lemma trust_reason:
  assumes "owner_trust E d ed ml pk s = (Inr c, s1)"
  shows "length ed \<noteq> Ed25519PKSize \<or> pk = ed \<or> b64_encode pk \<in> set (loadSigningPkSet E s) \<or> vouched E ed ml pk \<or>
    peerSigningPkSeen E (drSignedBy d) s = Some (b64_encode pk) \<or>
    peerSigningPkSeen E (drSignedBy d) s = None \<and> (friend_known s (drSignedBy d) \<or> (\<exists>n names. pvFriends E n = Some names \<and> drSignedBy d \<in> set names))"
proof -
  let ?s1 = "rememberSigningEdPub E ed s"
  let ?s2 = "seedOwnSigningPkHistory E ed ml ?s1"
  have set1: "b64_encode pk \<in> set (loadSigningPkSet E ?s1) \<Longrightarrow> pk = ed \<or> b64_encode pk \<in> set (loadSigningPkSet E s)"
    using remember_set [of E ed s] by (auto simp: b64_encode_inj)
  have set2: "b64_encode pk \<in> set (loadSigningPkSet E ?s2) \<Longrightarrow> vouched E ed ml pk \<or> pk = ed \<or> b64_encode pk \<in> set (loadSigningPkSet E s)"
    using seed_set set1 by blast
  have peer: "peerSigningPkSeen E p ?s2 = peerSigningPkSeen E p s" for p by (simp add: peerSigningPkSeen_def loadPeerSigningPkFile_def)
  have friends: "friendSet ?s2 = friendSet s"
  proof -
    have f1: "friendSet (rememberSigningEdPub E x t) = friendSet t" for x t by (simp add: rememberSigningEdPub_def Let_def tick_def)
    have "friendSet (fold (rememberSigningEdPub E) xs t) = friendSet t" for xs t by (induction xs arbitrary: t) (simp_all add: f1)
    then show ?thesis by (simp add: seedOwnSigningPkHistory_def Let_def f1 tick_def split: option.split)
  qed
  consider "length ed \<noteq> Ed25519PKSize" | "ed = pk" | "signingEdPubTrusted E pk ?s1" | "signingEdPubTrusted E pk ?s2"
    | "checkForeignSignerOnOwnNode E (drSignedBy d) pk ?s2 = (Inr c, s1)"
    using assms by (auto simp: owner_trust_def Let_def split: if_splits)
  then show ?thesis
  proof cases
    case 5
    from foreign_commit [OF this] show ?thesis unfolding peer friend_known_def friends by auto
  qed (use set1 set2 in \<open>auto simp: signingEdPubTrusted_def\<close>)
qed

text \<open>Who may sign as a user, and as the scanner.\<close>

definition user_signer_ok :: "pin_env \<Rightarrow> string \<Rightarrow> bytes \<Rightarrow> bytes \<Rightarrow> bytes \<Rightarrow> pins \<Rightarrow> bool" where
  "user_signer_ok E signedBy ed ml pk s \<longleftrightarrow>
     pk = ed \<or> b64_encode pk \<in> set (loadSigningPkSet E s) \<or> vouched E ed ml pk \<or>
     peerSigningPkSeen E signedBy s = Some (b64_encode pk) \<or>
     peerSigningPkSeen E signedBy s = None \<and> (friend_known s signedBy \<or> (\<exists>n names. pvFriends E n = Some names \<and> signedBy \<in> set names))"

definition scanner_signer_ok :: "pin_env \<Rightarrow> string \<Rightarrow> string \<Rightarrow> pins \<Rightarrow> bool" where
  "scanner_signer_ok E ed ml s \<longleftrightarrow> (\<exists>rec. teeSigningRecord E s = Inr rec \<and>
     (if pinned rec then accepts rec ed ml
      else teeSigningAtt s = Some (ed, ml) \<or>
        (\<exists>n a. pvAttest E n = Inr a \<and> teeAttestationAnswerable a = None \<and> ed = atEnclaveSigningPkEd25519 a \<and> ml = atEnclaveSigningPkMldsa a)))"

text \<open>The data carries both signatures of one key that may have signed it.\<close>

definition signed_by_trusted :: "pin_env \<Rightarrow> bytes \<Rightarrow> DownloadResult \<Rightarrow> bytes \<Rightarrow> bytes \<Rightarrow> pins \<Rightarrow> bool" where
  "signed_by_trusted E data d ed ml s \<longleftrightarrow> (\<exists>inp sigEd sigMl pkEd pkMl. gEdVerify (pvSig E) pkEd inp sigEd \<and> gMlVerify (pvSig E) pkMl inp sigMl = Some True \<and>
        (signingInput SignatureDomain (pSha256 (pvPrims E) data) = Some inp \<and> b64_decode (drSigningPkEd25519 d) = Some pkEd \<and>
           b64_decode (drSigningPkMldsa d) = Some pkMl \<and>
           (length ed = 32 \<longrightarrow> user_signer_ok E (drSignedBy d) ed ml pkEd s) \<or>
         signingInput TEESignatureDomain (pSha256 (pvPrims E) data) = Some inp \<and> b64_decode (drTEESigningPkEd25519 d) = Some pkEd \<and>
           b64_decode (drTEESigningPkMldsa d) = Some pkMl \<and>
           scanner_signer_ok E (drTEESigningPkEd25519 d) (drTEESigningPkMldsa d) s))"

lemma owner_signer:
  assumes "verifyOwnerSigsReader E r d ed ml s = (None, s')"
  shows "\<exists>data. r = Some data \<and> signed_by_trusted E data d ed ml s"
proof -
  obtain c s1 sigEd sigMl pkEd pkMl where t: "owner_trust E d ed ml pkEd s = (Inr c, s1)"
    and parts: "decode_parts [] (drSignatureEd25519 d) (drSignatureMldsa d) (drSigningPkEd25519 d) (drSigningPkMldsa d) = Inr (sigEd, sigMl, pkEd, pkMl)"
    and ok: "VerifyFileSignatures (pvPrims E) (pvSig E) r sigEd sigMl (Some \<lparr>spkEd25519 = pkEd, spkMldsa = pkMl\<rparr>) = None"
    using owner_verify_run [OF assms] by auto
  have pk: "b64_decode (drSigningPkEd25519 d) = Some pkEd" "b64_decode (drSigningPkMldsa d) = Some pkMl"
    using parts by (auto simp: decode_parts_def decodeB64Required_def split: sum.splits if_splits option.splits)
  obtain data inp where sig: "r = Some data" "gEdVerify (pvSig E) pkEd inp sigEd" "gMlVerify (pvSig E) pkMl inp sigMl = Some True"
    and inp: "signingInput SignatureDomain (pSha256 (pvPrims E) data) = Some inp"
    using verify_accepts ok unfolding VerifyFileSignatures_def by fastforce
  have "length ed = 32 \<longrightarrow> user_signer_ok E (drSignedBy d) ed ml pkEd s"
    using trust_reason [OF t, unfolded sign_sizes] unfolding user_signer_ok_def by blast
  then show ?thesis unfolding signed_by_trusted_def using sig inp pk by blast
qed

lemma scanner_signer:
  assumes "verifyTEESigsReader E r d s = (None, s')"
  shows "\<exists>data. r = Some data \<and> signed_by_trusted E data d ed ml s"
proof -
  obtain c s1 sigEd sigMl pkEd pkMl where c: "checkTeeSigningPks E (drTEESigningPkEd25519 d) (drTEESigningPkMldsa d) s = (Inr c, s1)"
    and parts: "decode_parts ''tee_'' (drTEESignatureEd25519 d) (drTEESignatureMldsa d) (drTEESigningPkEd25519 d) (drTEESigningPkMldsa d) = Inr (sigEd, sigMl, pkEd, pkMl)"
    and ok: "VerifyTEEFileSignatures (pvPrims E) (pvSig E) r sigEd sigMl (Some \<lparr>spkEd25519 = pkEd, spkMldsa = pkMl\<rparr>) = None"
    using tee_verify_run [OF assms] by auto
  have pk: "b64_decode (drTEESigningPkEd25519 d) = Some pkEd" "b64_decode (drTEESigningPkMldsa d) = Some pkMl"
    using parts by (auto simp: decode_parts_def decodeB64Required_def split: sum.splits if_splits option.splits)
  obtain rec where rec0: "teeSigningRecord E s = Inr rec"
    and out: "if pinned rec then accepts rec (drTEESigningPkEd25519 d) (drTEESigningPkMldsa d) \<and> c = NoCommit
      else c = PinTee (drTEESigningPkEd25519 d) (drTEESigningPkMldsa d) \<and> (teeSigningAtt s = Some (drTEESigningPkEd25519 d, drTEESigningPkMldsa d) \<or>
        (\<exists>n a. pvAttest E n = Inr a \<and> teeAttestationAnswerable a = None \<and> drTEESigningPkEd25519 d = atEnclaveSigningPkEd25519 a \<and>
                drTEESigningPkMldsa d = atEnclaveSigningPkMldsa a))"
    using tee_check_outcome [OF c] by blast
  have may: "scanner_signer_ok E (drTEESigningPkEd25519 d) (drTEESigningPkMldsa d) s"
    unfolding scanner_signer_ok_def using rec0 out by (intro exI [of _ rec] conjI) (cases "pinned rec"; simp)+
  obtain data inp where sig: "r = Some data" "gEdVerify (pvSig E) pkEd inp sigEd" "gMlVerify (pvSig E) pkMl inp sigMl = Some True"
    and inp: "signingInput TEESignatureDomain (pSha256 (pvPrims E) data) = Some inp"
    using verify_accepts ok unfolding VerifyTEEFileSignatures_def by fastforce
  show ?thesis unfolding signed_by_trusted_def using sig inp pk may by blast
qed

lemma trusted_signer:
  assumes "verifyDownloadIntegrity E r (Some d) ed ml s = (None, s')"
  shows "\<exists>data. r = Some data \<and> signed_by_trusted E data d ed ml s"
  using assms owner_signer scanner_signer by (auto simp: verifyDownloadIntegrity_def split: if_splits)

lemma failed_check:
  assumes "verifyDownloadIntegrity E r (Some d) ed ml s = (Some e, s')"
  shows "pnPeer s' = pnPeer s" "pnTee s' = pnTee s"
  using assms owner_verify_run [of E r d ed ml s "Some e" s'] tee_verify_run [of E r d s "Some e" s']
  by (auto simp: verifyDownloadIntegrity_def split: if_splits)


section \<open>Repinning the scanner\<close>

lemma dropRetired_accepts:
  "list_ex (\<lambda>x. rtEd x = ed \<and> rtMl x = ml) (dropRetired xs a b) \<longleftrightarrow> list_ex (\<lambda>x. rtEd x = ed \<and> rtMl x = ml) xs \<and> \<not> (ed = a \<and> ml = b)"
  by (auto simp: dropRetired_def list_ex_iff)

lemma superseded_accepts:
  assumes "tsEd rec \<noteq> ofEd25519 offer \<or> tsMl rec \<noteq> ofMldsa offer"
    and r_def: "r = superseded_record stamp offer rec"
  shows "tsEd r = ofEd25519 offer" "tsMl r = ofMldsa offer" "length (tsRetired r) \<le> 8"
    "\<not> list_ex (\<lambda>x. rtEd x = ofEd25519 offer \<and> rtMl x = ofMldsa offer) (tsRetired r)"
    "pinned rec \<Longrightarrow> list_ex (\<lambda>x. rtEd x = tsEd rec \<and> rtMl x = tsMl rec) (tsRetired r)"
    "accepts rec ed ml \<Longrightarrow> length (tsRetired rec) < 8 \<Longrightarrow>
      ed = ofEd25519 offer \<and> ml = ofMldsa offer \<or> list_ex (\<lambda>x. rtEd x = ed \<and> rtMl x = ml) (tsRetired r)"
proof -
  let ?x = "\<lparr>rtEd = tsEd rec, rtMl = tsMl rec, rtRetiredAt = stamp\<rparr>"
  let ?old = "if tsEd rec \<noteq> [] \<and> tsMl rec \<noteq> [] then dropRetired (tsRetired rec) (tsEd rec) (tsMl rec) @ [?x] else tsRetired rec"
  let ?kept = "dropRetired ?old (ofEd25519 offer) (ofMldsa offer)"
  have r: "tsRetired r = (if length ?kept > 8 then drop (length ?kept - 8) ?kept else ?kept)"
    unfolding r_def superseded_record_def Let_def teeRetiredPkLimit_def by simp
  show "tsEd r = ofEd25519 offer" "tsMl r = ofMldsa offer" by (simp_all add: r_def superseded_record_def Let_def)
  show "length (tsRetired r) \<le> 8" unfolding r by simp
  have sub: "set (tsRetired r) \<subseteq> set ?kept" unfolding r by (cases "length ?kept > 8") (simp_all only: if_True if_False set_drop_subset order_refl)
  have "\<not> list_ex (\<lambda>x. rtEd x = ofEd25519 offer \<and> rtMl x = ofMldsa offer) ?kept" by (simp only: dropRetired_accepts) simp
  then show "\<not> list_ex (\<lambda>x. rtEd x = ofEd25519 offer \<and> rtMl x = ofMldsa offer) (tsRetired r)" using sub unfolding list_ex_iff by blast
  show "list_ex (\<lambda>x. rtEd x = tsEd rec \<and> rtMl x = tsMl rec) (tsRetired r)" if "pinned rec"
  proof -
    have "\<exists>ys. ?kept = ys @ [?x]" using that assms(1) by (auto simp: pinned_def dropRetired_def)
    then obtain ys where ys: "?kept = ys @ [?x]" by blast
    have "?x \<in> set (tsRetired r)" unfolding r ys by simp
    then show ?thesis unfolding list_ex_iff by (intro bexI [of _ ?x]) simp_all
  qed
  assume acc: "accepts rec ed ml" and few: "length (tsRetired rec) < 8"
  have "length (dropRetired xs a b) \<le> length xs" for xs a b by (simp add: dropRetired_def)
  then have "length ?kept \<le> length ?old" "length (dropRetired (tsRetired rec) (tsEd rec) (tsMl rec)) < 8" using few by (auto intro: le_less_trans)
  then have "length ?kept \<le> 8" using few by (cases "tsEd rec \<noteq> [] \<and> tsMl rec \<noteq> []") auto
  then have "tsRetired r = ?kept" unfolding r by simp
  moreover have "list_ex (\<lambda>x. rtEd x = ed \<and> rtMl x = ml) ?old"
    using acc by (auto simp: accepts_def pinned_def dropRetired_accepts list_ex_iff dropRetired_def)
  ultimately show "ed = ofEd25519 offer \<and> ml = ofMldsa offer \<or> list_ex (\<lambda>x. rtEd x = ed \<and> rtMl x = ml) (tsRetired r)"
    by (simp only: dropRetired_accepts) blast
qed

text \<open>
  A repin keeps old files readable. When a repin of the scanner to another key succeeds and the pin file can be
  written, the new key is pinned with its posture and accepted, the superseded one is accepted still, and so are
  the last seven retired before it; never more than eight retired keys are kept, and the pinned one is not among
  them.
\<close>

theorem repin_keeps_readable:
  assumes "0 < Mldsa44PKSize (pvSig E)" "RepinTeeSigningPk E (Some offer) s = (None, s')" "teeSigningRecord E s = Inr rec" "pvWrite E (pnTick s)"
    "tsEd rec \<noteq> ofEd25519 offer \<or> tsMl rec \<noteq> ofMldsa offer"
  shows "\<exists>rec'. teeSigningRecord E s' = Inr rec' \<and> tsEd rec' = ofEd25519 offer \<and> tsMl rec' = ofMldsa offer \<and> tsPosture rec' = Some (ofPosture offer) \<and>
    accepts rec' (ofEd25519 offer) (ofMldsa offer) \<and> (pinned rec \<longrightarrow> accepts rec' (tsEd rec) (tsMl rec)) \<and>
    (\<forall>ed ml. accepts rec ed ml \<and> length (tsRetired rec) < 8 \<longrightarrow> accepts rec' ed ml) \<and> length (tsRetired rec') \<le> 8 \<and>
    \<not> list_ex (\<lambda>x. rtEd x = ofEd25519 offer \<and> rtMl x = ofMldsa offer) (tsRetired rec')"
proof -
  let ?o = "signingPinOwner E"
  obtain s1 where lock: "repin_locked E (Some offer) s = (None, s1)" and s': "s' = s1\<lparr>teeSigningAtt := None, teeSigningAttNextTry := 0\<rparr>"
    using assms(2) by (auto simp: RepinTeeSigningPk_def split: prod.splits option.splits)
  have ok: "pvDir E" "?o \<noteq> []" "validateTeeSigningPair E (ofEd25519 offer) (ofMldsa offer) = None"
    using lock by (auto simp: repin_locked_def Let_def split: if_splits option.splits)
  have new: "ofEd25519 offer \<noteq> []" "ofMldsa offer \<noteq> []"
    using ok(3) assms(1) by (auto simp: validateTeeSigningPair_def sign_sizes split: if_splits option.splits)
  obtain f where f: "loadTeeSigningPkFile E s = Inr f" "rec = owner_record f ?o" using assms(3) ok by (auto simp: teeSigningRecord_def split: sum.splits)
  let ?r2 = "(superseded_record (pvStamp E (pnTick s)) offer rec)\<lparr>tsPosture := Some (ofPosture offer)\<rparr>"
  have "s1 = writeTeeSigningPkFile E (f(?o \<mapsto> ?r2)) s"
    using lock ok f assms(5) by (auto simp: repin_locked_def repin_file_def Let_def split: if_splits)
  then have rec': "teeSigningRecord E s' = Inr ?r2"
    using record_after_write [OF ok(1,2), of f ?r2 s] assms(4) s' tee_record_file [of s' s1 E] by simp
  note sup = superseded_accepts [OF assms(5) refl, where stamp = "pvStamp E (pnTick s)"]
  have keep: "accepts ?r2 ed ml" if "accepts rec ed ml" "length (tsRetired rec) < 8" for ed ml
    using sup(6) [OF that] sup(1,2) new by (auto simp: accepts_def pinned_def)
  show ?thesis
    using rec' sup(1-5) new keep by (intro exI [of _ ?r2]) (simp add: accepts_def pinned_def)
qed

text \<open>A repin reports success although the pin file could not be written, and so does forgetting a retired key.\<close>

lemma unwritten_repin_succeeds:
  assumes "RepinTeeSigningPk E (Some offer) s = (None, s')" "teeSigningRecord E s = Inr rec" "\<not> pvWrite E (pnTick s)"
  shows "pnTee s' = pnTee s"
proof -
  obtain s1 where lock: "repin_locked E (Some offer) s = (None, s1)" and s': "pnTee s' = pnTee s1"
    using assms(1) by (auto simp: RepinTeeSigningPk_def split: prod.splits option.splits)
  have "pvDir E" "signingPinOwner E \<noteq> []" using lock by (auto simp: repin_locked_def Let_def split: if_splits)
  then obtain f where f: "loadTeeSigningPkFile E s = Inr f" using assms(2) by (auto simp: teeSigningRecord_def split: sum.splits)
  have "\<exists>g. s1 = writeTeeSigningPkFile E g s" using lock f by (auto simp: repin_locked_def repin_file_def Let_def split: if_splits option.splits)
  then show ?thesis using s' assms(3) by (auto simp: writeTeeSigningPkFile_def)
qed

lemma unwritten_forget_succeeds:
  assumes "ForgetRetiredTeeSigningPk E fp s = (True, s')" "\<not> pvWrite E (pnTick s)"
  shows "pnTee s' = pnTee s"
  using assms by (auto simp: ForgetRetiredTeeSigningPk_def writeTeeSigningPkFile_def Let_def split: if_splits sum.splits)

end
