(* ===== verification/TeeSessionLaws.thy ===== *)
theory TeeSessionLaws
  imports TeeLaws
begin

text \<open>
  The laws of the scanner keys a session remembers, over every interleaving of its goroutines: once a posture is
  pinned with both keys, what is remembered is what is pinned; before that, a probe and a repin can cross.
\<close>

section \<open>The pinned posture\<close>

text \<open>A posture pinned with both keys.\<close>

definition posture_complete :: "pin_env \<Rightarrow> pins \<Rightarrow> bool" where
  "posture_complete E s \<longleftrightarrow> (\<exists>p. pinnedTeeAttestationPosture E s = Inr (Some p) \<and> poSealingPkKyber p \<noteq> [])"

definition is_pinned_set :: "pin_env \<Rightarrow> pins \<Rightarrow> PublicKeySet \<Rightarrow> bool" where
  "is_pinned_set E s ks \<longleftrightarrow> (\<exists>p. pinnedTeeAttestationPosture E s = Inr (Some p) \<and> decode_key_set (poSealingPk p) (poSealingPkKyber p) = Some ks)"

lemma pinned_set_file:
  assumes "pnTee s' = pnTee s"
  shows "is_pinned_set E s' = is_pinned_set E s" "posture_complete E s' = posture_complete E s"
  unfolding is_pinned_set_def posture_complete_def posture_file [OF assms, of E] by simp_all

lemma posture_offer:
  assumes "postureFor a = Inr p"
  shows "poMode p = ''epid'' \<or> poMode p = ''none''" "poSealingPkKyber p \<noteq> []"
proof -
  show "poMode p = ''epid'' \<or> poMode p = ''none''" using assms by (auto simp: postureFor_def split: if_splits)
  have "b64_decode [] = Some []" by (simp add: b64_decode_def)
  then show "poSealingPkKyber p \<noteq> []" using assms by (auto simp: postureFor_def KyberPublicKeySize_def split: if_splits option.splits)
qed

text \<open>Against a complete posture a probe has nothing to record, and the keys it finds are the pinned ones.\<close>

lemma complete_check:
  assumes "posture_complete E s" "checkTeeAttestationPosture E a s = Inr c"
  shows "c = None" "\<exists>p. pinnedTeeAttestationPosture E s = Inr (Some p) \<and> poSealingPk p = svSealingPk a \<and> poSealingPkKyber p = svSealingPkKyber a"
proof -
  obtain p where p: "pinnedTeeAttestationPosture E s = Inr (Some p)" "poSealingPkKyber p \<noteq> []" using assms(1) by (auto simp: posture_complete_def)
  obtain q where q: "postureFor a = Inr q" using assms(2) by (auto simp: checkTeeAttestationPosture_def split: if_splits sum.splits)
  have "poSealingPk q = svSealingPk a" "poSealingPkKyber q = svSealingPkKyber a" using q by (auto simp: postureFor_def split: if_splits)
  then show "c = None" "\<exists>p. pinnedTeeAttestationPosture E s = Inr (Some p) \<and> poSealingPk p = svSealingPk a \<and> poSealingPkKyber p = svSealingPkKyber a"
    using assms(2) p q by (auto simp: checkTeeAttestationPosture_def split: if_splits)
qed

lemma complete_probe:
  assumes "posture_complete E s" "probe_check E s = ((r, c), s1)"
  shows "c = None" "s1 = tick s" "prSet r = Some ks \<Longrightarrow> is_pinned_set E s ks"
proof -
  have f: "pnTee (tick s) = pnTee s" by (simp add: tick_def)
  have t: "posture_complete E (tick s)" using assms(1) pinned_set_file(2) [OF f] by simp
  have "(c = None \<and> prSet r = None) \<or> (\<exists>a ks'. checkTeeAttestationPosture E a (tick s) = Inr c \<and> decode_key_set (svSealingPk a) (svSealingPkKyber a) = Some ks' \<and> prSet r = Some ks')"
    using assms(2) by (auto simp: probe_check_def Let_def served_of_def split: sum.splits if_splits option.splits)
  then show "c = None" "prSet r = Some ks \<Longrightarrow> is_pinned_set E s ks"
    using complete_check [OF t] posture_file [OF f, of E] by (fastforce simp: is_pinned_set_def)+
  show "s1 = tick s" using assms(2) by (auto simp: probe_check_def Let_def split: sum.splits if_splits option.splits)
qed

text \<open>A repin to an offer of the server leaves the posture complete.\<close>

lemma offered_posture:
  assumes "OfferedTeeSigningPk E s0 = (Inr offer, s1)"
  shows "\<exists>a. postureFor a = Inr (ofPosture offer)"
  using assms by (auto simp: OfferedTeeSigningPk_def split: sum.splits option.splits)

lemma repin_complete:
  assumes "posture_complete E s" "repin_locked E (Some offer) s = (None, s2)" "postureFor a = Inr (ofPosture offer)"
  shows "posture_complete E s2"
proof -
  let ?o = "signingPinOwner E"
  have own: "pvDir E" "?o \<noteq> []" using assms(2) by (auto simp: repin_locked_def Let_def split: if_splits)
  obtain f where f: "loadTeeSigningPkFile E s = Inr f" using assms(1) own by (auto simp: posture_complete_def pinnedTeeAttestationPosture_def split: sum.splits)
  obtain r where r: "s2 = writeTeeSigningPkFile E (f(?o \<mapsto> r)) s" "tsPosture r = Some (ofPosture offer)"
    using assms(2) own f by (auto simp: repin_locked_def repin_file_def Let_def split: if_splits option.splits)
  show ?thesis
  proof (cases "pvWrite E (pnTick s)")
    case True
    then show ?thesis using r own load_after_write [OF own(1), of "f(?o \<mapsto> r)" s] posture_offer [OF assms(3)]
      by (auto simp: posture_complete_def pinnedTeeAttestationPosture_def)
  next
    case False
    then have "pnTee s2 = pnTee s" using r by (simp add: writeTeeSigningPkFile_def tick_def)
    then show ?thesis using assms(1) pinned_set_file(2) by blast
  qed
qed

section \<open>Interleavings\<close>

text \<open>While no repin is half done, what is remembered and what the calls of the current epoch have found is what is
  pinned.\<close>

definition tee_inv :: "pin_env \<Rightarrow> tee_world \<Rightarrow> bool" where
  "tee_inv E w \<longleftrightarrow> posture_complete E (twPins w) \<and>
     (\<forall>c call. twCalls w c = Some call \<longrightarrow> tkCommit call = None \<and> tkEpoch call \<le> teeKeysEpoch w) \<and>
     (teeRepins w = 0 \<longrightarrow>
        (\<forall>ks. teeEnclaveKeySet w = Some ks \<longrightarrow> is_pinned_set E (twPins w) ks) \<and>
        (\<forall>c call r ks. twCalls w c = Some call \<and> tkEpoch call = teeKeysEpoch w \<and> tkProbe call = Some r \<and> prSet r = Some ks \<longrightarrow>
           is_pinned_set E (twPins w) ks))"

lemma tee_inv_step:
  assumes "tee_step E w w'" "tee_inv E w"
  shows "tee_inv E w'"
  using assms
proof cases
  case step_begin
  then show ?thesis using assms(2) by (auto simp: tee_inv_def fetch_begin_def split: option.split)
next
  case (step_check c call)
  obtain r p s1 where pc: "probe_check E (twPins w) = ((r, p), s1)" by (metis prod.exhaust)
  have cp: "posture_complete E (twPins w)" using assms(2) by (simp add: tee_inv_def)
  have f: "pnTee s1 = pnTee (twPins w)" using complete_probe(2) [OF cp pc] by (simp add: tick_def)
  have w': "w' = w\<lparr>twPins := s1, twCalls := (twCalls w)(c \<mapsto> call\<lparr>tkProbe := Some r, tkCommit := None\<rparr>)\<rparr>"
    using step_check pc complete_probe(1) [OF cp pc] by (simp add: fetch_check_def)
  show ?thesis using assms(2) step_check(2) complete_probe(3) [OF cp pc] unfolding w'
    by (auto simp: tee_inv_def pinned_set_file(1) [OF f] pinned_set_file(2) [OF f])
next
  case (step_commit c call p)
  then show ?thesis using assms(2) by (auto simp: tee_inv_def)
next
  case (step_end c call)
  show ?thesis
  proof (cases "tkProbe call")
    case None
    then show ?thesis using step_end assms(2) by (simp add: fetch_end_def)
  next
    case (Some r)
    have "is_pinned_set E (twPins w) ks" if "teeRepins w = 0" "teeKeysEpoch w = tkEpoch call" "prSet r = Some ks" for ks
      using that Some step_end(2) assms(2) unfolding tee_inv_def by metis
    then show ?thesis using step_end Some assms(2)
      by (auto simp: tee_inv_def fetch_end_def Let_def split: if_splits option.splits)
  qed
next
  case step_stale
  then show ?thesis using assms(2) by (auto simp: tee_inv_def stale_begin_def)
next
  case (step_repin s0 offer s1 s2)
  then show ?thesis using assms(2) repin_complete offered_posture by (fastforce simp: tee_inv_def)
next
  case (step_forget n)
  have "pnTee ((twPins w)\<lparr>teeSigningAtt := None, teeSigningAttNextTry := 0\<rparr>) = pnTee (twPins w)" by simp
  moreover have "tkEpoch call \<noteq> Suc (teeKeysEpoch w)" if "twCalls w c = Some call" for c call
    using assms(2) that by (fastforce simp: tee_inv_def)
  ultimately show ?thesis using assms(2) step_forget pinned_set_file(2) [of "(twPins w)\<lparr>teeSigningAtt := None, teeSigningAttNextTry := 0\<rparr>" "twPins w" E]
    by (auto simp: tee_inv_def forgetTeeAttestationMemos_def le_Suc_eq)
qed

lemma fetch_end_some:
  assumes "fst (fetch_end c w) = Some ks"
  shows "\<exists>call r. twCalls w c = Some call \<and> tkEpoch call = teeKeysEpoch w \<and> tkProbe call = Some r \<and> prSet r = Some ks"
  using assms by (cases "twCalls w c"; cases "tkProbe (the (twCalls w c))") (auto simp: fetch_end_def Let_def split: if_splits)


end
