(* ===== verification/PinExamples.thy ===== *)
theory PinExamples
  imports TeeSessionLaws
begin

text \<open>
  The laws of the pins at concrete inputs: an account with a pinned scanner and a pinned peer, a download the scanner
  has signed, a repin, and the run in which a probe and a repin cross.
\<close>

section \<open>A concrete account\<close>

declare b64_encode.simps [simp del]

definition toy_x :: bytes where "toy_x = replicate 32 1"
definition toy_k :: bytes where "toy_k = replicate 1184 1"
definition toy_y :: bytes where "toy_y = replicate 32 2"

definition toy_attestation :: "bytes \<Rightarrow> TeeAttestationResponse" where
  "toy_attestation x = \<lparr>atSuccess = True, atEnabled = True, atAvailable = True, atEnclavePublicKey = b64_encode x, atEnclavePublicKeyKyber = b64_encode toy_k,
     atEnclaveSigningPkEd25519 = b64_encode (replicate 32 1), atEnclaveSigningPkMldsa = b64_encode [1], atAttestationMode = ''none'', atSgxQuote = [],
     atMrenclave = [], atVerificationStatus = [], atBusy = False, atRetryAfterMs = 0\<rparr>"

text \<open>The server offers one sealing key at first and another from the second answer on.\<close>

definition toy_env :: pin_env where
  "toy_env = \<lparr>pvPrims = toy_prims, pvSig = toy_sig, pvPublicKey = b64_encode [1], pvDir = True, pvNow = (\<lambda>n. 0), pvStamp = (\<lambda>n. []),
     pvWrite = (\<lambda>n. True), pvMkdir = (\<lambda>n. True), pvLock = (\<lambda>n. True), pvRename = (\<lambda>n. True), pvHistory = (\<lambda>n. None), pvFriends = (\<lambda>n. None),
     pvPubkey = (\<lambda>n p. None), pvAttest = (\<lambda>n. Inr (toy_attestation (if n = 0 then toy_x else toy_y))), jHistoryBlob = (\<lambda>b. None), jBundleSig = (\<lambda>b. None)\<rparr>"

definition toy_posture :: "bytes \<Rightarrow> teeAttestationPosture" where
  "toy_posture x = \<lparr>poMode = ''none'', poMrenclave = [], poSealingPk = b64_encode x, poSealingPkKyber = b64_encode toy_k\<rparr>"

definition toy_owner :: string where "toy_owner = hex_encode [1, 0, 0, 0, 0, 0, 0, 0]"

definition toy_record :: teeSigningPk where
  "toy_record = \<lparr>tsEd = b64_encode (replicate 32 1), tsMl = b64_encode [1], tsPosture = Some (toy_posture toy_x), tsRetired = []\<rparr>"

definition toy_seal :: peerSealPk where
  "toy_seal = \<lparr>psFp = b64_encode (replicate 32 1), psEd = [], psMl = []\<rparr>"

definition toy_pins :: "teeSigningPk pin_file \<Rightarrow> pins" where
  "toy_pins f = \<lparr>pnTick = 0, pnOwn = Absent, pnPeer = Absent, pnSeal = Stored 1 (Some [toy_owner \<mapsto> [''bob'' \<mapsto> toy_seal]]), pnTee = f,
     ownSigningHistorySeeded = False, ownSigningHistoryNextTry = 0, friendSet = None, friendSetAt = 0, friendSetNextTry = 0, peerBundles = Map.empty,
     peerBundleNextTry = Map.empty, teeSigningAtt = None, teeSigningAttNextTry = 0\<rparr>"

abbreviation toy_pinned :: pins where "toy_pinned \<equiv> toy_pins (Stored 1 (Some [toy_owner \<mapsto> toy_record]))"

definition toy_download :: DownloadResult where
  "toy_download = \<lparr>drE2EE = True, drSealedKey = [], drEncryptionMeta = [], drSignatureEd25519 = [], drSignatureMldsa = [], drSigningPkEd25519 = [],
     drSigningPkMldsa = [], drSignedBy = [], drTEESignatureEd25519 = b64_encode (replicate 64 1), drTEESignatureMldsa = b64_encode [1],
     drTEESigningPkEd25519 = b64_encode (replicate 32 1), drTEESigningPkMldsa = b64_encode [1]\<rparr>"

lemma toy_owner_is [simp]: "signingPinOwner toy_env = toy_owner" "toy_owner \<noteq> []"
proof -
  have "take 8 (take 32 ([1] @ replicate 32 0)) = [1 :: byte, 0, 0, 0, 0, 0, 0, 0]" by (simp add: numeral_eq_Suc)
  then show "signingPinOwner toy_env = toy_owner"
    by (simp add: signingPinOwner_def toy_env_def AccountFingerprint_def toy_prims_def toy_owner_def)
  show "toy_owner \<noteq> []" by (simp add: toy_owner_def hex_encode_def)
qed

lemma toy_dir [simp]: "pvDir toy_env" "pvSig toy_env = toy_sig" "pvPrims toy_env = toy_prims"
  by (simp_all add: toy_env_def)

lemma toy_tee_record: "teeSigningRecord toy_env toy_pinned = Inr toy_record" "pinned toy_record"
  by (simp_all add: teeSigningRecord_def loadTeeSigningPkFile_def toy_pins_def teeSigningPinVersion_def owner_record_def toy_record_def pinned_def)

lemma toy_verifies: "verifyTEESigsReader toy_env (Some [5]) toy_download toy_pinned = (None, toy_pinned)"
proof -
  have "decode_parts ''tee_'' (drTEESignatureEd25519 toy_download) (drTEESignatureMldsa toy_download) (drTEESigningPkEd25519 toy_download) (drTEESigningPkMldsa toy_download) =
      Inr (replicate 64 1, [1], replicate 32 1, [1])"
    by (simp add: decode_parts_def decodeB64Required_def toy_download_def)
  moreover have "checkTeeSigningPks toy_env (drTEESigningPkEd25519 toy_download) (drTEESigningPkMldsa toy_download) toy_pinned = (Inr NoCommit, toy_pinned)"
    by (simp add: checkTeeSigningPks_def toy_tee_record accepts_def toy_download_def) (simp add: toy_record_def)
  moreover have "VerifyTEEFileSignatures toy_prims toy_sig (Some [5]) (replicate 64 1) [1] (Some \<lparr>spkEd25519 = replicate 32 1, spkMldsa = [1]\<rparr>) = None"
    by (simp add: VerifyTEEFileSignatures_def verifySignaturePair_def hashCiphertext_def signingInput_def toy_prims_def toy_sig_def sign_sizes min_def)
  ultimately show ?thesis
    by (simp add: verifyTEESigsReader_def run_commit_def sign_sizes) (simp add: toy_sig_def)
qed

lemma grouped_display: "4 \<le> length x \<Longrightarrow> join_spaces (groups4 x) \<noteq> []"
proof (induction x rule: groups4.induct)
  case (1 a b c d rest)
  then show ?case by (cases "groups4 rest") simp_all
qed simp_all

section \<open>Runs of a session\<close>

definition toy_world :: "pins \<Rightarrow> tee_world" where
  "toy_world s = \<lparr>twPins = s, teeEnclaveKeySet = None, teeScannerDisabledByServer = False, teeEnclaveKeyRefusal = None, teeKeysFetch = None,
     teeKeysEpoch = 0, teeStaleCheckedAt = 0, twCalls = Map.empty, twNext = 0, teeRepins = 0\<rparr>"

definition toy_begun :: "pins \<Rightarrow> tee_world" where "toy_begun s = snd (fetch_begin (toy_world s))"

lemma toy_fresh: "tee_fresh (toy_world s)"
  by (simp add: tee_fresh_def toy_world_def)

lemma toy_call: "twCalls (toy_begun s) 0 = Some \<lparr>tkEpoch = 0, tkProbe = None, tkCommit = None\<rparr>" "twPins (toy_begun s) = s"
  "teeKeysEpoch (toy_begun s) = 0" "teeRepins (toy_begun s) = 0"
  by (simp_all add: toy_begun_def fetch_begin_def toy_world_def)

lemma toy_checked: "tee_reach E (toy_world s) (fetch_check E 0 (toy_begun s))"
proof -
  have "tee_reach E (toy_world s) (toy_begun s)"
    unfolding toy_begun_def by (rule reach_step [OF reach_start step_begin])
  moreover have "tee_step E (toy_begun s) (fetch_check E 0 (toy_begun s))" by (rule step_check [OF toy_call(1)]) simp
  ultimately show ?thesis by (rule reach_step)
qed

lemma toy_posture_for: "x = toy_x \<or> x = toy_y \<Longrightarrow> postureFor (served_of (toy_attestation x)) = Inr (toy_posture x)"
  by (auto simp: postureFor_def served_of_def toy_attestation_def toy_posture_def sgx_def toy_x_def toy_y_def toy_k_def KyberPublicKeySize_def)

lemma toy_decode: "x = toy_x \<or> x = toy_y \<Longrightarrow> decode_key_set (b64_encode x) (b64_encode toy_k) = Some \<lparr>pubX25519 = x, pubKyber = toy_k\<rparr>"
  by (auto simp: decode_key_set_def toy_x_def toy_y_def toy_k_def KyberPublicKeySize_def)

definition toy_found :: probe_result where
  "toy_found = \<lparr>prSet = Some \<lparr>pubX25519 = toy_x, pubKyber = toy_k\<rparr>, prDisabled = False, prAnswered = True, prRefusal = None\<rparr>"

lemma toy_k_some: "toy_k \<noteq> []"
  by (simp add: toy_k_def)

lemma toy_probe:
  assumes "pnTick s = 0" "pinnedTeeAttestationPosture toy_env s = Inr q" "q = None \<and> c = Some (toy_posture toy_x) \<or> q = Some (toy_posture toy_x) \<and> c = None"
  shows "probe_check toy_env s = ((toy_found, c), tick s)"
proof -
  have att: "pvAttest toy_env (pnTick s) = Inr (toy_attestation toy_x)" using assms(1) by (simp add: toy_env_def)
  have "pinnedTeeAttestationPosture toy_env (tick s) = Inr q" using assms(2) posture_file [of "tick s" s toy_env] by simp
  then have "checkTeeAttestationPosture toy_env (served_of (toy_attestation toy_x)) (tick s) = Inr c"
    using assms(3) toy_posture_for [of toy_x] toy_k_some by (auto simp: checkTeeAttestationPosture_def served_of_def toy_attestation_def sgx_def toy_posture_def)
  then show ?thesis using toy_decode [of toy_x]
    by (simp add: probe_check_def att Let_def toy_found_def) (simp add: toy_attestation_def)
qed

text \<open>A repin can be undone: a probe that found no posture pinned before it records its own after it.\<close>

lemma probe_undoes_repin:
  "\<exists>w1 offer s1 s2 w3. tee_reach toy_env (toy_world (toy_pins Absent)) w1 \<and> OfferedTeeSigningPk toy_env (twPins w1) = (Inr offer, s1) \<and>
     repin_locked toy_env (Some offer) (twPins w1) = (None, s2) \<and> pinnedTeeAttestationPosture toy_env s2 = Inr (Some (toy_posture toy_y)) \<and>
     tee_step toy_env (w1\<lparr>twPins := s2, teeRepins := Suc (teeRepins w1)\<rparr>) w3 \<and>
     pinnedTeeAttestationPosture toy_env (twPins w3) = Inr (Some (toy_posture toy_x))"
proof -
  let ?s = "toy_pins Absent"
  let ?w1 = "fetch_check toy_env 0 (toy_begun ?s)"
  let ?call = "\<lparr>tkEpoch = 0, tkProbe = Some toy_found, tkCommit = Some (toy_posture toy_x)\<rparr>"
  let ?offer = "\<lparr>ofEd25519 = b64_encode (replicate 32 1), ofMldsa = b64_encode [1], ofPosture = toy_posture toy_y\<rparr>"
  let ?r = "\<lparr>tsEd = b64_encode (replicate 32 1), tsMl = b64_encode [1], tsPosture = Some (toy_posture toy_y), tsRetired = []\<rparr>"
  have none: "pinnedTeeAttestationPosture toy_env ?s = Inr None"
    by (simp add: pinnedTeeAttestationPosture_def loadTeeSigningPkFile_def toy_pins_def)
  have "probe_check toy_env ?s = ((toy_found, Some (toy_posture toy_x)), tick ?s)"
    using none by (intro toy_probe [where q = None]) (simp_all add: toy_pins_def)
  then have w1: "twPins ?w1 = tick ?s" "twCalls ?w1 0 = Some ?call" "teeRepins ?w1 = 0"
    by (simp_all add: fetch_check_def toy_call)
  have t: "pnTick (tick ?s) = 1" by (simp add: tick_def toy_pins_def)
  have valid: "validateTeeSigningPair toy_env (b64_encode (replicate 32 1)) (b64_encode [1]) = None"
    by (simp add: validateTeeSigningPair_def sign_sizes) (simp add: toy_sig_def)
  have fp: "TeeSigningKeyFingerprint toy_env (b64_encode (replicate 32 1)) (b64_encode [1]) \<noteq> []"
    by (simp add: TeeSigningKeyFingerprint_def grouped_display toy_prims_def)
  have "pvAttest toy_env (pnTick (tick ?s)) = Inr (toy_attestation toy_y)" unfolding t by (simp add: toy_env_def)
  moreover have "teeAttestationAnswerable (toy_attestation toy_y) = None"
    by (simp add: teeAttestationAnswerable_def toy_attestation_def)
  ultimately have offered: "OfferedTeeSigningPk toy_env (tick ?s) = (Inr ?offer, tick (tick ?s))"
    using valid toy_posture_for [of toy_y] by (simp add: OfferedTeeSigningPk_def) (simp add: toy_attestation_def)
  have load: "loadTeeSigningPkFile toy_env (tick ?s) = Inr Map.empty" by (simp add: loadTeeSigningPkFile_def toy_pins_def)
  obtain s2 where s2: "repin_locked toy_env (Some ?offer) (tick ?s) = (None, s2)" and pf: "loadTeeSigningPkFile toy_env s2 = Inr [toy_owner \<mapsto> ?r]"
  proof -
    have "pvWrite toy_env n" for n by (simp add: toy_env_def)
    then show ?thesis using that valid fp load
      by (simp add: repin_locked_def Let_def repin_file_def owner_record_def no_tee_record_def superseded_record_def dropRetired_def load_after_write)
  qed
  let ?w2 = "?w1\<lparr>twPins := s2, teeRepins := Suc (teeRepins ?w1)\<rparr>"
  have "tee_step toy_env ?w2 (fetch_commit toy_env 0 ?w2)" by (rule step_commit [where call = ?call]) (simp_all add: w1)
  moreover have "twPins (fetch_commit toy_env 0 ?w2) = recordTeeAttestationPosture toy_env (toy_posture toy_x) s2"
    by (simp add: fetch_commit_def w1 commit_posture_def)
  moreover have "pinnedTeeAttestationPosture toy_env (recordTeeAttestationPosture toy_env (toy_posture toy_x) s2) = Inr (Some (toy_posture toy_x))"
  proof -
    have "pvWrite toy_env n" for n by (simp add: toy_env_def)
    then show ?thesis using pf by (simp add: recordTeeAttestationPosture_def Let_def pinnedTeeAttestationPosture_def load_after_write) (simp add: toy_posture_def)
  qed
  moreover have "pinnedTeeAttestationPosture toy_env s2 = Inr (Some (toy_posture toy_y))"
    using pf by (simp add: pinnedTeeAttestationPosture_def) (simp add: toy_posture_def)
  ultimately show ?thesis using toy_checked offered s2 w1(1) by metis
qed

section \<open>Witnesses\<close>

theorem scanner_key_pinned_witness:
  "accepts toy_record (drTEESigningPkEd25519 toy_download) (drTEESigningPkMldsa toy_download)"
  using scanner_key_pinned [where ops = "[]" and s = toy_pinned and r = "Some [5]", OF toy_tee_record] toy_verifies by simp


theorem peer_seal_key_authentic_witness:
  "fst (PinPeerSealKey toy_env ''bob'' \<lparr>pbX25519 = toy_x, pbKyber = toy_k, pbEd25519 = [], pbMldsa = [], pbBundleSig = []\<rparr> toy_pinned) = None \<and>
   (sealKeyFingerprint toy_env toy_x toy_k = psFp toy_seal \<or> anchored toy_seal)"
proof -
  let ?b = "\<lparr>pbX25519 = toy_x, pbKyber = toy_k, pbEd25519 = [], pbMldsa = [], pbBundleSig = []\<rparr>"
  have rec: "peerSealRecord toy_env ''bob'' toy_pinned = Inr (Some toy_seal)"
    by (simp add: peerSealRecord_def Let_def loadPeerSealPkFile_def toy_pins_def peerSealPinVersion_def validPeerName_def maxPeerNameLen_def) (simp add: toy_seal_def)
  have fp: "sealKeyFingerprint toy_env toy_x toy_k = psFp toy_seal"
    by (simp add: sealKeyFingerprint_def toy_prims_def toy_seal_def toy_x_def)
  have "validPeerName ''bob''" by (simp add: validPeerName_def maxPeerNameLen_def)
  moreover have "usableSealKey ?b" by (simp add: usableSealKey_def toy_x_def toy_k_def KyberPublicKeySize_def)
  ultimately have pin: "PinPeerSealKey toy_env ''bob'' ?b toy_pinned = (None, toy_pinned)"
    by (simp add: PinPeerSealKey_def rec fp)
  have "sha_ok (pvPrims toy_env)" using toy_laws by simp
  from peer_seal_key_authentic [OF this rec, of "[]" ?b] pin show ?thesis by auto
qed

theorem repin_keeps_readable_witness:
  "\<exists>s' rec'. RepinTeeSigningPk toy_env (Some \<lparr>ofEd25519 = b64_encode toy_y, ofMldsa = b64_encode [2], ofPosture = toy_posture toy_y\<rparr>) toy_pinned = (None, s') \<and>
     teeSigningRecord toy_env s' = Inr rec' \<and> accepts rec' (b64_encode toy_y) (b64_encode [2]) \<and> accepts rec' (tsEd toy_record) (tsMl toy_record)"
proof -
  let ?offer = "\<lparr>ofEd25519 = b64_encode toy_y, ofMldsa = b64_encode [2], ofPosture = toy_posture toy_y\<rparr>"
  have ne: "tsEd toy_record \<noteq> b64_encode toy_y" by (simp add: toy_record_def b64_encode_inj toy_y_def)
  have "validateTeeSigningPair toy_env (b64_encode toy_y) (b64_encode [2]) = None"
    by (simp add: validateTeeSigningPair_def toy_y_def sign_sizes) (simp add: toy_sig_def)
  moreover have "TeeSigningKeyFingerprint toy_env (b64_encode toy_y) (b64_encode [2]) \<noteq> []"
  proof -
    have "length (hex_encode (pSha256 toy_prims (toy_y @ [2]))) = 64" by (simp add: toy_prims_def toy_y_def)
    then show ?thesis by (simp add: TeeSigningKeyFingerprint_def grouped_display)
  qed
  moreover obtain f where "repin_file toy_env toy_pinned = Inr (f, toy_pinned)" "owner_record f toy_owner = toy_record"
    by (simp add: repin_file_def loadTeeSigningPkFile_def toy_pins_def teeSigningPinVersion_def owner_record_def)
  ultimately obtain s' where run: "RepinTeeSigningPk toy_env (Some ?offer) toy_pinned = (None, s')"
    using ne by (simp add: RepinTeeSigningPk_def repin_locked_def Let_def)
  have w: "0 < Mldsa44PKSize (pvSig toy_env)" "pvWrite toy_env (pnTick toy_pinned)" by (simp_all add: toy_env_def toy_sig_def)
  from repin_keeps_readable [OF w(1) run toy_tee_record(1) w(2)] ne run toy_tee_record(2) show ?thesis by auto
qed


end
