(* ===== verification/ConfigStore.thy ===== *)
theory ConfigStore
  imports Names
begin

text \<open>
  The configuration and its secrets, \<open>internal/config/config.go\<close> and \<open>secrets.go\<close>, with the keychain of
  \<open>internal/keyringstore\<close>.

  The state is the configuration in memory, the one on disk (what \<open>json.Unmarshal\<close> leaves of the file in the
  defaults, nothing when it cannot be read), and the values of the secret store. The environment says whether a
  write works, as a function of a counter of such events, and what host a URL names.
\<close>

section \<open>Secret stores\<close>

datatype store_kind = noSecretStore | MemorySecretStore | KeyringStore

definition GetSecret :: "store_kind \<Rightarrow> (string \<rightharpoonup> string) \<Rightarrow> string \<Rightarrow> string option" where
  "GetSecret k m key = (case k of noSecretStore \<Rightarrow> None | _ \<Rightarrow> m key)"

text \<open>The flag says whether the keychain of the system takes the value.\<close>

definition SetSecret :: "store_kind \<Rightarrow> bool \<Rightarrow> string \<Rightarrow> string \<Rightarrow> (string \<rightharpoonup> string) \<Rightarrow> bool \<times> (string \<rightharpoonup> string)" where
  "SetSecret k works key v m =
     (case k of
        noSecretStore \<Rightarrow> (False, m)
      | MemorySecretStore \<Rightarrow> if v = [] then (False, m) else (True, m(key \<mapsto> v))
      | KeyringStore \<Rightarrow> if v = [] \<or> \<not> works then (False, m) else (True, m(key \<mapsto> v)))"

definition DeleteSecret :: "store_kind \<Rightarrow> bool \<Rightarrow> string \<Rightarrow> (string \<rightharpoonup> string) \<Rightarrow> string \<rightharpoonup> string" where
  "DeleteSecret k works key m =
     (case k of noSecretStore \<Rightarrow> m | MemorySecretStore \<Rightarrow> m(key := None) | KeyringStore \<Rightarrow> if works then m(key := None) else m)"

section \<open>Configuration\<close>

record Config =
  APIKey :: string
  Endpoint :: string
  Cwd :: string
  DefaultJSON :: bool
  DefaultQuiet :: bool
  NoColor :: bool
  Language :: string
  cfPublicKey :: string
  cfEncryptedPrivateKey :: string
  cfPrivateKeyNonce :: string
  cfPublicKeyKyber :: string
  cfEncryptedPrivateKeyKyber :: string
  cfPrivateKeyKyberNonce :: string
  cfSigningPublicKeyEd25519 :: string
  cfEncryptedSigningPrivateKeyEd25519 :: string
  cfSigningPrivateKeyEd25519Nonce :: string
  cfSigningPublicKeyMldsa :: string
  cfEncryptedSigningPrivateKeyMldsa :: string
  cfSigningPrivateKeyMldsaNonce :: string
  cfKDFSalt :: string
  cfKDFOpsLimit :: nat
  cfKDFMemLimit :: nat
  E2EEStorageMode :: string
  CLIWelcomeCompleted :: bool

definition DefaultEndpoint :: string where "DefaultEndpoint = ''https://pigcloud.de/cloud/actions.php''"

definition default_config :: Config where
  "default_config = \<lparr>APIKey = [], Endpoint = DefaultEndpoint, Cwd = ''/'', DefaultJSON = False, DefaultQuiet = False, NoColor = False, Language = [],
     cfPublicKey = [], cfEncryptedPrivateKey = [], cfPrivateKeyNonce = [], cfPublicKeyKyber = [], cfEncryptedPrivateKeyKyber = [],
     cfPrivateKeyKyberNonce = [], cfSigningPublicKeyEd25519 = [], cfEncryptedSigningPrivateKeyEd25519 = [], cfSigningPrivateKeyEd25519Nonce = [],
     cfSigningPublicKeyMldsa = [], cfEncryptedSigningPrivateKeyMldsa = [], cfSigningPrivateKeyMldsaNonce = [], cfKDFSalt = [], cfKDFOpsLimit = 0,
     cfKDFMemLimit = 0, E2EEStorageMode = [], CLIWelcomeCompleted = False\<rparr>"

record conf_env =
  cvHost :: "string \<Rightarrow> string"
  cvStore :: store_kind
  cvKeychain :: "nat \<Rightarrow> bool"
  cvMkdir :: "nat \<Rightarrow> bool"
  cvWrite :: "nat \<Rightarrow> bool"
  cvRemove :: "nat \<Rightarrow> bool"

record conf =
  cnTick :: nat
  cnCfg :: "Config option"
  cnFile :: "Config option"
  cnSecrets :: "string \<rightharpoonup> string"

section \<open>Secrets of the configuration\<close>

definition secretKeyFor :: "conf_env \<Rightarrow> string \<Rightarrow> string" where
  "secretKeyFor V endpoint = (if cvHost V endpoint = [] then ''default'' else cvHost V endpoint)"

definition secretKey :: "conf_env \<Rightarrow> conf \<Rightarrow> string" where
  "secretKey V s = (case cnCfg s of None \<Rightarrow> ''default'' | Some c \<Rightarrow> secretKeyFor V (Endpoint c))"

definition e2eeSecretKey :: "conf_env \<Rightarrow> conf \<Rightarrow> string" where
  "e2eeSecretKey V s = secretKey V s @ ''|e2ee''"

definition set_secret :: "conf_env \<Rightarrow> string \<Rightarrow> string \<Rightarrow> conf \<Rightarrow> bool \<times> conf" where
  "set_secret V key v s =
     (case SetSecret (cvStore V) (cvKeychain V (cnTick s)) key v (cnSecrets s) of
        (ok, m) \<Rightarrow> (ok, s\<lparr>cnTick := Suc (cnTick s), cnSecrets := m\<rparr>))"

definition delete_secret :: "conf_env \<Rightarrow> string \<Rightarrow> conf \<Rightarrow> conf" where
  "delete_secret V key s = s\<lparr>cnTick := Suc (cnTick s), cnSecrets := DeleteSecret (cvStore V) (cvKeychain V (cnTick s)) key (cnSecrets s)\<rparr>"

definition storeAPIKey :: "conf_env \<Rightarrow> string \<Rightarrow> conf \<Rightarrow> bool \<times> conf" where
  "storeAPIKey V apiKey s = (if apiKey = [] then (False, s) else set_secret V (secretKey V s) apiKey s)"

definition loadAPIKey :: "conf_env \<Rightarrow> conf \<Rightarrow> string option" where
  "loadAPIKey V s = GetSecret (cvStore V) (cnSecrets s) (secretKey V s)"

definition deleteAPIKey :: "conf_env \<Rightarrow> conf \<Rightarrow> conf" where
  "deleteAPIKey V s = delete_secret V (secretKey V s) s"

definition storeDeviceKey :: "conf_env \<Rightarrow> bytes \<Rightarrow> conf \<Rightarrow> bool \<times> conf" where
  "storeDeviceKey V deviceKey s =
     (if length deviceKey \<noteq> 32 then (False, s) else set_secret V (e2eeSecretKey V s) (hex_encode deviceKey) s)"

definition loadDeviceKey :: "conf_env \<Rightarrow> conf \<Rightarrow> bytes option" where
  "loadDeviceKey V s =
     (case GetSecret (cvStore V) (cnSecrets s) (e2eeSecretKey V s) of
        None \<Rightarrow> None
      | Some v \<Rightarrow> (case hex_decode v of None \<Rightarrow> None | Some b \<Rightarrow> if length b \<noteq> 32 then None else Some b))"

definition deleteDeviceKey :: "conf_env \<Rightarrow> conf \<Rightarrow> conf" where
  "deleteDeviceKey V s = delete_secret V (e2eeSecretKey V s) s"

section \<open>Loading and saving\<close>

definition LoadConfig :: "conf_env \<Rightarrow> conf \<Rightarrow> conf" where
  "LoadConfig V s =
     (let c = (case cnFile s of None \<Rightarrow> default_config | Some f \<Rightarrow> f);
          s1 = s\<lparr>cnCfg := Some c\<rparr>
      in case loadAPIKey V s1 of None \<Rightarrow> s1 | Some v \<Rightarrow> s1\<lparr>cnCfg := Some (c\<lparr>APIKey := v\<rparr>)\<rparr>)"

definition ensure_loaded :: "conf_env \<Rightarrow> conf \<Rightarrow> conf" where
  "ensure_loaded V s = (case cnCfg s of None \<Rightarrow> LoadConfig V s | Some c \<Rightarrow> s)"

definition GetConfig :: "conf_env \<Rightarrow> conf \<Rightarrow> Config" where
  "GetConfig V s = the (cnCfg (ensure_loaded V s))"

definition SaveConfig :: "conf_env \<Rightarrow> conf \<Rightarrow> string option \<times> conf" where
  "SaveConfig V s0 =
     (let s = ensure_loaded V s0; current = GetConfig V s0; s1 = s\<lparr>cnTick := Suc (cnTick s)\<rparr> in
      if \<not> cvMkdir V (cnTick s) then (Some ''failed to create config directory'', s1)
      else case storeAPIKey V (APIKey current) s1 of
             (keychainOk, s2) \<Rightarrow>
               let persist = (if keychainOk then current\<lparr>APIKey := []\<rparr> else current); s3 = s2\<lparr>cnTick := Suc (cnTick s2)\<rparr> in
               if \<not> cvWrite V (cnTick s2) then (Some ''failed to write config file'', s3)
               else (None, s3\<lparr>cnFile := Some persist\<rparr>))"

text \<open>A change of the configuration in memory, then saved.\<close>

definition update_config :: "conf_env \<Rightarrow> (Config \<Rightarrow> Config) \<Rightarrow> conf \<Rightarrow> string option \<times> conf" where
  "update_config V f s = (let s1 = ensure_loaded V s in SaveConfig V (s1\<lparr>cnCfg := map_option f (cnCfg s1)\<rparr>))"

definition SetAPIKey :: "conf_env \<Rightarrow> string \<Rightarrow> conf \<Rightarrow> string option \<times> conf" where
  "SetAPIKey V key = update_config V (\<lambda>c. c\<lparr>APIKey := key\<rparr>)"

definition SetCwd :: "conf_env \<Rightarrow> string \<Rightarrow> conf \<Rightarrow> string option \<times> conf" where
  "SetCwd V cwd = update_config V (\<lambda>c. c\<lparr>Cwd := cwd\<rparr>)"

definition MarkCLIWelcomeCompleted :: "conf_env \<Rightarrow> conf \<Rightarrow> string option \<times> conf" where
  "MarkCLIWelcomeCompleted V = update_config V (\<lambda>c. c\<lparr>CLIWelcomeCompleted := True\<rparr>)"

text \<open>The secrets move to the host of the new endpoint.\<close>

definition SetEndpoint :: "conf_env \<Rightarrow> string \<Rightarrow> conf \<Rightarrow> string option \<times> conf" where
  "SetEndpoint V endpoint s0 =
     (let s = ensure_loaded V s0; current = GetConfig V s0 in
      if secretKeyFor V (Endpoint current) = secretKeyFor V endpoint then update_config V (\<lambda>c. c\<lparr>Endpoint := endpoint\<rparr>) s
      else
        let deviceKey = loadDeviceKey V s; s1 = deleteDeviceKey V (deleteAPIKey V s) in
        (case update_config V (\<lambda>c. c\<lparr>Endpoint := endpoint\<rparr>) s1 of
           (Some e, s2) \<Rightarrow> (Some e, s2)
         | (None, s2) \<Rightarrow> (case deviceKey of None \<Rightarrow> (None, s2) | Some k \<Rightarrow> (None, snd (storeDeviceKey V k s2)))))"

definition ClearConfig :: "conf_env \<Rightarrow> conf \<Rightarrow> string option \<times> conf" where
  "ClearConfig V s =
     (let s1 = (deleteDeviceKey V (deleteAPIKey V s)) in
      let s2 = s1\<lparr>cnCfg := Some default_config, cnTick := Suc (cnTick s1)\<rparr> in
      if cnFile s = None \<or> cvRemove V (cnTick s1) then (None, s2\<lparr>cnFile := None\<rparr>) else (Some ''failed to remove config file'', s2))"

definition IsLoggedIn :: "conf_env \<Rightarrow> conf \<Rightarrow> bool" where
  "IsLoggedIn V s \<longleftrightarrow> APIKey (GetConfig V s) \<noteq> []"

definition GetLanguage :: "conf_env \<Rightarrow> conf \<Rightarrow> string" where
  "GetLanguage V s = (if Language (GetConfig V s) = ''de'' then ''de'' else ''en'')"

definition GetCwd :: "conf_env \<Rightarrow> conf \<Rightarrow> string" where
  "GetCwd V s = (if Cwd (GetConfig V s) = [] then ''/'' else Cwd (GetConfig V s))"

section \<open>Keys in the configuration\<close>

definition HasEncryptionKeys :: "Config \<Rightarrow> bool" where
  "HasEncryptionKeys c \<longleftrightarrow> cfPublicKey c \<noteq> [] \<and> cfEncryptedPrivateKey c \<noteq> [] \<and> cfPublicKeyKyber c \<noteq> [] \<and> cfEncryptedPrivateKeyKyber c \<noteq> []"

definition HasSigningKeys :: "Config \<Rightarrow> bool" where
  "HasSigningKeys c \<longleftrightarrow> cfSigningPublicKeyEd25519 c \<noteq> [] \<and> cfEncryptedSigningPrivateKeyEd25519 c \<noteq> [] \<and>
     cfSigningPublicKeyMldsa c \<noteq> [] \<and> cfEncryptedSigningPrivateKeyMldsa c \<noteq> []"

definition IsDeviceWrapped :: "Config \<Rightarrow> bool" where
  "IsDeviceWrapped c \<longleftrightarrow> E2EEStorageMode c = ''device''"

text \<open>The texts of a wrapped key pair: public key, wrapped private key and nonce.\<close>

record key_texts =
  ktPub :: string
  ktEnc :: string
  ktNonce :: string

definition with_encryption :: "key_texts \<Rightarrow> key_texts \<Rightarrow> Config \<Rightarrow> Config" where
  "with_encryption x k c = c\<lparr>cfPublicKey := ktPub x, cfEncryptedPrivateKey := ktEnc x, cfPrivateKeyNonce := ktNonce x,
     cfPublicKeyKyber := ktPub k, cfEncryptedPrivateKeyKyber := ktEnc k, cfPrivateKeyKyberNonce := ktNonce k\<rparr>"

definition with_signing :: "key_texts \<Rightarrow> key_texts \<Rightarrow> Config \<Rightarrow> Config" where
  "with_signing ed ml c = c\<lparr>cfSigningPublicKeyEd25519 := ktPub ed, cfEncryptedSigningPrivateKeyEd25519 := ktEnc ed, cfSigningPrivateKeyEd25519Nonce := ktNonce ed,
     cfSigningPublicKeyMldsa := ktPub ml, cfEncryptedSigningPrivateKeyMldsa := ktEnc ml, cfSigningPrivateKeyMldsaNonce := ktNonce ml\<rparr>"

definition SetEncryptionKeys :: "conf_env \<Rightarrow> key_texts \<Rightarrow> key_texts \<Rightarrow> string \<Rightarrow> nat \<Rightarrow> nat \<Rightarrow> conf \<Rightarrow> string option \<times> conf" where
  "SetEncryptionKeys V x k salt ops mem =
     update_config V (\<lambda>c. (with_encryption x k c)\<lparr>cfKDFSalt := salt, cfKDFOpsLimit := ops, cfKDFMemLimit := mem, E2EEStorageMode := []\<rparr>)"

definition SetSigningKeys :: "conf_env \<Rightarrow> key_texts \<Rightarrow> key_texts \<Rightarrow> conf \<Rightarrow> string option \<times> conf" where
  "SetSigningKeys V ed ml = update_config V (with_signing ed ml)"

definition SetDeviceWrappedE2EEKeys :: "conf_env \<Rightarrow> key_texts \<Rightarrow> key_texts \<Rightarrow> key_texts \<Rightarrow> key_texts \<Rightarrow> conf \<Rightarrow> string option \<times> conf" where
  "SetDeviceWrappedE2EEKeys V x k ed ml =
     update_config V (\<lambda>c. (with_signing ed ml (with_encryption x k c))\<lparr>cfKDFSalt := [], cfKDFOpsLimit := 0, cfKDFMemLimit := 0, E2EEStorageMode := ''device''\<rparr>)"

end
