(* ===== verification/KeySession.thy ===== *)
theory KeySession
  imports ConfigStore TeeSession ParentRef
begin

text \<open>
  The keys of a session: \<open>internal/e2ee/session.go\<close>, the first and middle part of \<open>e2ee.go\<close>,
  and \<open>background_unlock.go\<close>, with the key derivations of \<open>internal/crypto/names.go\<close> and \<open>parent_ref.go\<close> they call.

  Every method takes the session's lock for its whole run, so a method is one step. The environment says what the
  key agent answers, what the user types, and what randomness is drawn, as functions of a counter of such events.
  Overwriting buffers with zeros before they are dropped is not modelled. \<open>config.Get\<close> loads the configuration at its
  first call; here it is read as if loaded.
\<close>

section \<open>State and environment\<close>

record AgentKeys =
  akPublicKey :: bytes
  akPrivateKey :: bytes
  akKyberPublicKey :: bytes
  akKyberSeed :: bytes
  akNameKey :: bytes
  akSigningPublicKeyEd25519 :: bytes
  akSigningPrivateKeyEd25519 :: bytes
  akSigningPublicKeyMldsa :: bytes
  akSigningPrivateKeyMldsa :: bytes

record key_env =
  kvP :: prims
  kvG :: sig_prims
  kvT :: token_env
  kvC :: conf_env
  kvAgent :: "nat \<Rightarrow> AgentKeys option"
  kvPrompt :: "nat \<Rightarrow> string + bytes option"
  kvRand :: "nat \<Rightarrow> nat \<Rightarrow> nat \<Rightarrow> bytes"
  jSegments :: "(string \<times> string) list \<Rightarrow> string"

record keys =
  ksTick :: nat
  ksConf :: conf
  ksSupplied :: "bytes option"
  ksPub :: "PublicKeySet option"
  ksPriv :: "PrivateKeySet option"
  ksNameKey :: "bytes option"
  ksParentKey :: "bytes option"
  ksBackground :: bool
  ksSigningPub :: "SigningPublicKeySet option"
  ksSigningPriv :: "SigningPrivateKeySet option"

definition cfg_of :: "key_env \<Rightarrow> keys \<Rightarrow> Config" where
  "cfg_of V s = GetConfig (kvC V) (ksConf s)"

definition ktick :: "keys \<Rightarrow> keys" where "ktick s = s\<lparr>ksTick := Suc (ksTick s)\<rparr>"

section \<open>Derived keys\<close>

definition nameKeyContext :: string where "nameKeyContext = ''pigcloud-e2ee-name-key-v2''"
definition parentKeyContext :: string where "parentKeyContext = ''pigcloud-e2ee-parent-key-v1''"
definition treeCacheKeyContext :: string where "treeCacheKeyContext = ''pigcloud-e2ee-tree-cache-key-v1''"

definition DeriveNameKey :: "token_env \<Rightarrow> PrivateKeySet \<Rightarrow> bytes option" where
  "DeriveNameKey T priv = tBlake T (bytes_of_string nameKeyContext) (privX25519 priv @ privKyber priv)"

definition DeriveParentKey :: "token_env \<Rightarrow> PrivateKeySet \<Rightarrow> bytes option" where
  "DeriveParentKey T priv = tBlake T (bytes_of_string parentKeyContext) (privX25519 priv @ privKyber priv)"

definition DeriveTreeCacheKey :: "token_env \<Rightarrow> PrivateKeySet \<Rightarrow> bytes option" where
  "DeriveTreeCacheKey T priv = tBlake T (bytes_of_string treeCacheKeyContext) (privX25519 priv @ privKyber priv)"

section \<open>Keys in the configuration\<close>

definition decodePublicKeySet :: "Config \<Rightarrow> string + PublicKeySet" where
  "decodePublicKeySet c =
     (case b64_decode (cfPublicKey c) of
        None \<Rightarrow> Inl ''invalid x25519 pubkey''
      | Some x \<Rightarrow>
          if length x \<noteq> 32 then Inl ''invalid x25519 pubkey''
          else (case b64_decode (cfPublicKeyKyber c) of
                  None \<Rightarrow> Inl ''invalid kyber pubkey''
                | Some k \<Rightarrow> if length k \<noteq> KyberPublicKeySize then Inl ''invalid kyber pubkey'' else Inr \<lparr>pubX25519 = x, pubKyber = k\<rparr>))"

definition decodeEncryptedHybridFromConfig :: "Config \<Rightarrow> string + EncryptedHybridPrivateKey" where
  "decodeEncryptedHybridFromConfig c =
     (case (b64_decode (cfEncryptedPrivateKey c), b64_decode (cfPrivateKeyNonce c), b64_decode (cfEncryptedPrivateKeyKyber c),
            b64_decode (cfPrivateKeyKyberNonce c), b64_decode (cfKDFSalt c)) of
        (None, _) \<Rightarrow> Inl ''encrypted_private_key''
      | (_, None, _) \<Rightarrow> Inl ''private_key_nonce''
      | (_, _, None, _) \<Rightarrow> Inl ''encrypted_private_key_kyber''
      | (_, _, _, None, _) \<Rightarrow> Inl ''private_key_kyber_nonce''
      | (_, _, _, _, None) \<Rightarrow> Inl ''kdf_salt''
      | (Some xCT, Some xN, Some kCT, Some kN, Some salt) \<Rightarrow>
          Inr \<lparr>X25519Ciphertext = xCT, X25519Nonce = xN, KyberCiphertext = kCT, KyberNonce = kN,
               encSalt = salt, OpsLimit = cfKDFOpsLimit c, MemLimit = cfKDFMemLimit c\<rparr>)"

section \<open>Signing keys of the session\<close>

definition hydrateSigningFromAgent :: "key_env \<Rightarrow> AgentKeys \<Rightarrow> keys \<Rightarrow> keys" where
  "hydrateSigningFromAgent V a s =
     (if length (akSigningPublicKeyEd25519 a) \<noteq> Ed25519PKSize \<or> length (akSigningPrivateKeyEd25519 a) \<noteq> Ed25519SKSize \<or>
         length (akSigningPublicKeyMldsa a) \<noteq> Mldsa44PKSize (kvG V) \<or> length (akSigningPrivateKeyMldsa a) \<noteq> Mldsa44SKSize (kvG V) then s
      else s\<lparr>ksSigningPub := Some \<lparr>spkEd25519 = akSigningPublicKeyEd25519 a, spkMldsa = akSigningPublicKeyMldsa a\<rparr>,
             ksSigningPriv := Some \<lparr>sskEd25519 = akSigningPrivateKeyEd25519 a, sskMldsa = akSigningPrivateKeyMldsa a\<rparr>\<rparr>)"

definition signing_from_config :: "key_env \<Rightarrow> Config \<Rightarrow> bytes \<Rightarrow> (SigningPublicKeySet \<times> SigningPrivateKeySet) option" where
  "signing_from_config V c pdk =
     (if \<not> HasSigningKeys c then None
      else case (b64_decode (cfSigningPublicKeyEd25519 c), b64_decode (cfSigningPublicKeyMldsa c), b64_decode (cfEncryptedSigningPrivateKeyEd25519 c),
                 b64_decode (cfSigningPrivateKeyEd25519Nonce c), b64_decode (cfEncryptedSigningPrivateKeyMldsa c), b64_decode (cfSigningPrivateKeyMldsaNonce c)) of
             (Some pubEd, Some pubMl, Some edCT, Some edNonce, Some mlCT, Some mlNonce) \<Rightarrow>
               if length pubEd \<noteq> Ed25519PKSize \<or> length pubMl \<noteq> Mldsa44PKSize (kvG V) then None
               else (case DecryptSigningPrivateKeys (kvP V) (kvG V)
                            (Some \<lparr>esEd25519Ciphertext = edCT, esEd25519Nonce = edNonce, esMldsaCiphertext = mlCT, esMldsaNonce = mlNonce\<rparr>) pdk of
                       Inl e \<Rightarrow> None
                     | Inr priv \<Rightarrow> Some (\<lparr>spkEd25519 = pubEd, spkMldsa = pubMl\<rparr>, priv))
           | _ \<Rightarrow> None)"

definition hydrateSigningFromConfigWithPDK :: "key_env \<Rightarrow> Config \<Rightarrow> bytes \<Rightarrow> keys \<Rightarrow> keys" where
  "hydrateSigningFromConfigWithPDK V c pdk s =
     (case signing_from_config V c pdk of
        None \<Rightarrow> s
      | Some (pub, priv) \<Rightarrow> s\<lparr>ksSigningPub := Some pub, ksSigningPriv := Some priv\<rparr>)"

section \<open>Unlocking\<close>

definition readPassword :: "key_env \<Rightarrow> keys \<Rightarrow> (string + bytes option) \<times> keys" where
  "readPassword V s =
     (case ksSupplied s of
        Some pw \<Rightarrow> (Inr (Some pw), s\<lparr>ksSupplied := None\<rparr>)
      | None \<Rightarrow> (kvPrompt V (ksTick s), ktick s))"

definition agentKeys :: "key_env \<Rightarrow> keys \<Rightarrow> AgentKeys option" where
  "agentKeys V s = kvAgent V (ksTick s)"

text \<open>With the key agent's keys, with the device key of the keychain, and with the password.\<close>

definition unlock_agent :: "key_env \<Rightarrow> PublicKeySet \<Rightarrow> AgentKeys \<Rightarrow> keys \<Rightarrow> (PublicKeySet \<times> PrivateKeySet) \<times> keys" where
  "unlock_agent V pub a s =
     (let priv = \<lparr>privX25519 = akPrivateKey a, privKyber = akKyberSeed a\<rparr> in
      ((pub, priv), hydrateSigningFromAgent V a (s\<lparr>ksPub := Some pub, ksPriv := Some priv, ksNameKey := Some (akNameKey a)\<rparr>)))"

definition unlock_device :: "key_env \<Rightarrow> Config \<Rightarrow> PublicKeySet \<Rightarrow> keys \<Rightarrow> (string + PublicKeySet \<times> PrivateKeySet) \<times> keys" where
  "unlock_device V c pub s =
     (case loadDeviceKey (kvC V) (ensure_loaded (kvC V) (ksConf s)) of
        None \<Rightarrow> (Inl ''ErrDeviceKeysLost'', s)
      | Some deviceKey \<Rightarrow>
          (case decodeEncryptedHybridFromConfig c of
             Inl e \<Rightarrow> (Inl ''ErrDeviceKeysLost'', s)
           | Inr enc \<Rightarrow>
               (case DecryptHybridPrivateKeyWithRawKey (kvP V) enc deviceKey of
                  Inl e \<Rightarrow> (Inl ''ErrDeviceKeysLost'', s)
                | Inr priv \<Rightarrow> (Inr (pub, priv), hydrateSigningFromConfigWithPDK V c deviceKey (s\<lparr>ksPub := Some pub, ksPriv := Some priv\<rparr>)))))"

definition unlock_password :: "key_env \<Rightarrow> Config \<Rightarrow> PublicKeySet \<Rightarrow> keys \<Rightarrow> (string + PublicKeySet \<times> PrivateKeySet) \<times> keys" where
  "unlock_password V c pub s =
     (case decodeEncryptedHybridFromConfig c of
        Inl e \<Rightarrow> (Inl ''Invalid encrypted key material in config'', s)
      | Inr enc \<Rightarrow>
          (case readPassword V s of
             (Inl e, s1) \<Rightarrow> (Inl ''Failed to read password'', s1)
           | (Inr None, s1) \<Rightarrow> (Inl ''ErrKeysLocked'', s1)
           | (Inr (Some pw), s1) \<Rightarrow>
               (case b64_decode (cfKDFSalt c) of
                  None \<Rightarrow> (Inl ''Invalid KDF salt in config'', s1)
                | Some salt \<Rightarrow>
                    let pdk = DeriveKey (kvP V) pw salt (cfKDFOpsLimit c) (cfKDFMemLimit c) in
                    (case DecryptHybridPrivateKeyWithRawKey (kvP V) enc pdk of
                       Inl e \<Rightarrow> (Inl ''ErrWrongPassword'', s1)
                     | Inr priv \<Rightarrow> (Inr (pub, priv), hydrateSigningFromConfigWithPDK V c pdk (s1\<lparr>ksPub := Some pub, ksPriv := Some priv\<rparr>))))))"

definition keyPairLocked :: "key_env \<Rightarrow> keys \<Rightarrow> (string + PublicKeySet \<times> PrivateKeySet) \<times> keys" where
  "keyPairLocked V s =
     (if ksBackground s then (Inl ''ErrBackgroundUploadOnly'', s)
      else
        let c = cfg_of V s in
        if \<not> HasEncryptionKeys c then (Inl ''ErrNoEncryptionKeys'', s)
        else case (ksPub s, ksPriv s) of
               (Some pub, Some priv) \<Rightarrow> (Inr (pub, priv), s)
             | _ \<Rightarrow>
                 (case decodePublicKeySet c of
                    Inl e \<Rightarrow> (Inl ''Invalid public key in config'', s)
                  | Inr pub \<Rightarrow>
                      (case agentKeys V s of
                         Some a \<Rightarrow> (case unlock_agent V pub a (ktick s) of (kp, s1) \<Rightarrow> (Inr kp, s1))
                       | None \<Rightarrow>
                           if IsDeviceWrapped c then unlock_device V c pub (ktick s)
                           else unlock_password V c pub (ktick s))))"

definition publicKeyLocked :: "key_env \<Rightarrow> keys \<Rightarrow> (string + PublicKeySet) \<times> keys" where
  "publicKeyLocked V s =
     (case ksPub s of
        Some pub \<Rightarrow> (Inr pub, s)
      | None \<Rightarrow>
          (let c = cfg_of V s in
           if cfPublicKey c = [] \<or> cfPublicKeyKyber c = [] then (Inl ''ErrNoEncryptionKeys'', s)
           else case decodePublicKeySet c of
                  Inl e \<Rightarrow> (Inl ''Invalid public key in config'', s)
                | Inr pub \<Rightarrow> (Inr pub, s\<lparr>ksPub := Some pub\<rparr>)))"

definition ensureKeysFromAgentLocked :: "key_env \<Rightarrow> keys \<Rightarrow> bool \<times> keys" where
  "ensureKeysFromAgentLocked V s =
     (if ksPriv s \<noteq> None then (True, s)
      else case agentKeys V s of
             None \<Rightarrow> (False, ktick s)
           | Some a \<Rightarrow>
               (True, hydrateSigningFromAgent V a
                  ((ktick s)\<lparr>ksPriv := Some \<lparr>privX25519 = akPrivateKey a, privKyber = akKyberSeed a\<rparr>,
                     ksPub := (case ksPub s of None \<Rightarrow> Some \<lparr>pubX25519 = akPublicKey a, pubKyber = akKyberPublicKey a\<rparr> | p \<Rightarrow> p),
                     ksNameKey := Some (akNameKey a)\<rparr>)))"

definition ClearCachedKey :: "keys \<Rightarrow> keys" where
  "ClearCachedKey s = s\<lparr>ksPriv := None, ksPub := None, ksNameKey := None, ksParentKey := None, ksSigningPriv := None, ksSigningPub := None, ksBackground := False\<rparr>"

definition hasKeysLocked :: "key_env \<Rightarrow> keys \<Rightarrow> bool" where
  "hasKeysLocked V s \<longleftrightarrow> ksBackground s \<or> HasEncryptionKeys (cfg_of V s)"

definition SetSuppliedPassword :: "bytes option \<Rightarrow> keys \<Rightarrow> keys" where
  "SetSuppliedPassword pw s = s\<lparr>ksSupplied := pw\<rparr>"

definition signingKeysLocked :: "key_env \<Rightarrow> keys \<Rightarrow> (string + SigningPublicKeySet \<times> SigningPrivateKeySet) \<times> keys" where
  "signingKeysLocked V s =
     (case (ksSigningPub s, ksSigningPriv s) of
        (Some pub, Some priv) \<Rightarrow> (Inr (pub, priv), s)
      | _ \<Rightarrow>
          if \<not> HasSigningKeys (cfg_of V s) then (Inl ''ErrNoSigningKeys'', s)
          else (case keyPairLocked V s of
                  (Inl e, s1) \<Rightarrow> (Inl e, s1)
                | (Inr _, s1) \<Rightarrow>
                    (case (ksSigningPub s1, ksSigningPriv s1) of
                       (Some pub, Some priv) \<Rightarrow> (Inr (pub, priv), s1)
                     | _ \<Rightarrow> (Inl ''ErrSigningUnlockFailed'', s1))))"

definition signingKeysIfAvailableLocked :: "key_env \<Rightarrow> keys \<Rightarrow> (SigningPublicKeySet option \<times> SigningPrivateKeySet option) \<times> keys" where
  "signingKeysIfAvailableLocked V s =
     (case (ksSigningPub s, ksSigningPriv s) of
        (Some pub, Some priv) \<Rightarrow> ((Some pub, Some priv), s)
      | _ \<Rightarrow>
          if \<not> HasSigningKeys (cfg_of V s) then ((None, None), s)
          else (let s1 = snd (keyPairLocked V s) in ((ksSigningPub s1, ksSigningPriv s1), s1)))"

definition resolveOwnSigningPubsLocked :: "key_env \<Rightarrow> keys \<Rightarrow> (bytes \<times> bytes) \<times> keys" where
  "resolveOwnSigningPubsLocked V s =
     (let s1 = (if ksSigningPriv s = None then snd (signingKeysIfAvailableLocked V s) else s) in
      (deriveSigningPubs (kvG V) (ksSigningPriv s1), s1))"

definition parentKeyLocked :: "key_env \<Rightarrow> keys \<Rightarrow> (string + bytes) \<times> keys" where
  "parentKeyLocked V s =
     (case ksParentKey s of
        Some k \<Rightarrow> (Inr k, s)
      | None \<Rightarrow>
          (case keyPairLocked V s of
             (Inl e, s1) \<Rightarrow> (Inl e, s1)
           | (Inr (pub, priv), s1) \<Rightarrow>
               (case DeriveParentKey (kvT V) priv of
                  None \<Rightarrow> (Inl ''Failed to derive parent key'', s1)
                | Some k \<Rightarrow> (Inr k, s1\<lparr>ksParentKey := Some k\<rparr>))))"

definition nameKeyLocked :: "key_env \<Rightarrow> keys \<Rightarrow> (string + bytes) \<times> keys" where
  "nameKeyLocked V s =
     (case ksNameKey s of
        Some k \<Rightarrow> (Inr k, s)
      | None \<Rightarrow>
          (case keyPairLocked V s of
             (Inl e, s1) \<Rightarrow> (Inl e, s1)
           | (Inr (pub, priv), s1) \<Rightarrow>
               (case DeriveNameKey (kvT V) priv of
                  None \<Rightarrow> (Inl ''Failed to derive name key'', s1)
                | Some k \<Rightarrow> (Inr k, s1\<lparr>ksNameKey := Some k\<rparr>))))"

definition UnlockBackground :: "BackgroundKeyMaterial option \<Rightarrow> keys \<Rightarrow> string option \<times> keys" where
  "UnlockBackground material s =
     (case material of
        None \<Rightarrow> (Some ''ErrBackgroundKeysIncomplete'', s)
      | Some m \<Rightarrow>
          if length (bgNameKey m) \<noteq> NameKeySize \<or> length (bgParentKey m) \<noteq> NameKeySize \<or>
             (case bgPub m of None \<Rightarrow> True | Some p \<Rightarrow> length (pubKyber p) \<noteq> KyberPublicKeySize) \<or> bgSigningPriv m = None \<or> bgSigningPub m = None
          then (Some ''ErrBackgroundKeysIncomplete'', s)
          else (None, s\<lparr>ksPriv := None, ksPub := bgPub m, ksNameKey := Some (bgNameKey m), ksParentKey := Some (bgParentKey m),
                        ksSigningPriv := bgSigningPriv m, ksSigningPub := bgSigningPub m, ksBackground := True\<rparr>))"

section \<open>Keys handed over by another device\<close>

definition wrapped_texts :: "bytes \<Rightarrow> bytes \<Rightarrow> bytes \<Rightarrow> key_texts" where
  "wrapped_texts pub ct nonce = \<lparr>ktPub = b64_encode pub, ktEnc = b64_encode ct, ktNonce = b64_encode nonce\<rparr>"

definition ImportDeviceTransferredKeys :: "key_env \<Rightarrow> string \<Rightarrow> PrivateKeySet option \<Rightarrow> keys \<Rightarrow> string option \<times> keys" where
  "ImportDeviceTransferredKeys V sealedB64 ephPriv s =
     (case b64_decode sealedB64 of
        None \<Rightarrow> (Some ''decode sealed key'', s)
      | Some sealed \<Rightarrow>
          (case HybridUnseal (kvP V) sealed ephPriv of
             Inl e \<Rightarrow> (Some ''unseal key material'', s)
           | Inr payload \<Rightarrow>
               (case ParseDeviceKeyTransfer (kvG V) payload of
                  Inl e \<Rightarrow> (Some e, s)
                | Inr (priv, signPriv) \<Rightarrow>
                    (case (DeriveHybridPublic (kvP V) (kvG V) (Some priv), DeriveSigningPublic (kvG V) (Some signPriv)) of
                       (Inl e, _) \<Rightarrow> (Some ''derive encryption public'', s)
                     | (_, Inl e) \<Rightarrow> (Some ''derive signing public'', s)
                     | (Inr pub, Inr signPub) \<Rightarrow>
                         let r = kvRand V (ksTick s); deviceKey = r 0 32; s1 = ktick s in
                         (case (EncryptHybridPrivateKeyWithKey (kvP V) (r 1 NonceSize) (r 2 NonceSize) (Some priv) deviceKey,
                                EncryptSigningPrivateKeys (kvP V) (kvG V) (Some signPriv) deviceKey (r 3 NonceSize) (r 4 NonceSize)) of
                            (Inl e, _) \<Rightarrow> (Some ''wrap encryption key'', s1)
                          | (_, Inl e) \<Rightarrow> (Some ''wrap signing key'', s1)
                          | (Inr wrapEnc, Inr wrapSign) \<Rightarrow>
                              (case storeDeviceKey (kvC V) deviceKey (ksConf s1) of
                                 (False, c1) \<Rightarrow> (Some ''ErrNoKeychainForDevice'', s1\<lparr>ksConf := c1\<rparr>)
                               | (True, c1) \<Rightarrow>
                                   (case SetDeviceWrappedE2EEKeys (kvC V)
                                           (wrapped_texts (pubX25519 pub) (X25519Ciphertext wrapEnc) (X25519Nonce wrapEnc))
                                           (wrapped_texts (pubKyber pub) (KyberCiphertext wrapEnc) (KyberNonce wrapEnc))
                                           (wrapped_texts (spkEd25519 signPub) (esEd25519Ciphertext wrapSign) (esEd25519Nonce wrapSign))
                                           (wrapped_texts (spkMldsa signPub) (esMldsaCiphertext wrapSign) (esMldsaNonce wrapSign)) c1 of
                                      (Some e, c2) \<Rightarrow> (Some e, s1\<lparr>ksConf := c2\<rparr>)
                                    | (None, c2) \<Rightarrow>
                                        (None, s1\<lparr>ksConf := c2, ksPub := Some pub, ksPriv := Some priv,
                                                  ksSigningPub := Some signPub, ksSigningPriv := Some signPriv\<rparr>))))))))"

end
