(* ===== verification/SessionOps.thy ===== *)
theory SessionOps
  imports KeySession
begin

text \<open>
  What a session does with its keys: the names and path tokens of \<open>internal/e2ee/e2ee.go\<close>, the encryption of an
  upload and its signature, and the keys of a new account, \<open>setup.go\<close>, as \<open>cmd/li.go\<close> stores them.
\<close>

section \<open>Names\<close>

text \<open>\<open>filepath.Base\<close> of a path with slashes.\<close>

definition base_name :: "string \<Rightarrow> string" where
  "base_name p =
     (if p = [] then ''.''
      else let q = rev (dropWhile (\<lambda>c. c = CHR ''/'') (rev p)) in
           if q = [] then ''/'' else rev (takeWhile (\<lambda>c. c \<noteq> CHR ''/'') (rev q)))"

definition ResolveAndBaseName :: "string \<Rightarrow> string \<times> string" where
  "ResolveAndBaseName p = ((case p of CHR ''/'' # q \<Rightarrow> q | _ \<Rightarrow> p), base_name p)"

definition seal_name :: "key_env \<Rightarrow> keys \<Rightarrow> nat \<Rightarrow> string \<Rightarrow> PublicKeySet \<Rightarrow> hybridError + bytes" where
  "seal_name V s i name pub = SealDisplayName (kvP V) (kvRand V (ksTick s) (3 * i) 32) (kvRand V (ksTick s) (3 * i + 1) 32) (kvRand V (ksTick s) (3 * i + 2) NonceSize) name (Some pub)"

definition AddE2eeNameFields :: "key_env \<Rightarrow> options \<Rightarrow> string \<Rightarrow> string \<Rightarrow> keys \<Rightarrow> (string option \<times> options) \<times> keys" where
  "AddE2eeNameFields V opts fileName fullPath s =
     (if \<not> hasKeysLocked V s then ((None, opts), s)
      else case publicKeyLocked V s of
             (Inl e, s1) \<Rightarrow> ((Some e, opts), s1)
           | (Inr pub, s1) \<Rightarrow>
               (case nameKeyLocked V s1 of
                  (Inl e, s2) \<Rightarrow> ((Some e, opts), s2)
                | (Inr nameKey, s2) \<Rightarrow>
                    (case seal_name V s2 0 fileName pub of
                       Inl e \<Rightarrow> ((Some ''Failed to seal display name'', opts), ktick s2)
                     | Inr sealed \<Rightarrow>
                         (case ComputePathToken (kvT V) nameKey fullPath of
                            None \<Rightarrow> ((Some ''Failed to compute path token'', opts), ktick s2)
                          | Some token \<Rightarrow>
                              ((None, opts(''e2ee_display_name'' \<mapsto> b64_encode sealed, ''e2ee_path_token'' \<mapsto> hex_encode token)), ktick s2)))))"

text \<open>The loop over the segments, with the path so far; a segment that fails is left out.\<close>

fun path_segments :: "key_env \<Rightarrow> keys \<Rightarrow> PublicKeySet \<Rightarrow> bytes \<Rightarrow> nat \<Rightarrow> string \<Rightarrow> string list \<Rightarrow> (string \<times> string) list" where
  "path_segments V s pub nameKey i currentPath [] = []"
| "path_segments V s pub nameKey i currentPath (part # parts) =
     (let here = (if currentPath = [] then part else currentPath @ ''/'' @ part);
          more = path_segments V s pub nameKey (Suc i) here parts
      in case (seal_name V s i part pub, ComputePathToken (kvT V) nameKey here) of
           (Inr sealed, Some token) \<Rightarrow> (b64_encode sealed, hex_encode token) # more
         | _ \<Rightarrow> more)"

definition AddE2eeNameFieldsForMkParents :: "key_env \<Rightarrow> options \<Rightarrow> string list \<Rightarrow> keys \<Rightarrow> (string option \<times> options) \<times> keys" where
  "AddE2eeNameFieldsForMkParents V opts parts s =
     (if \<not> hasKeysLocked V s then ((None, opts), s)
      else case publicKeyLocked V s of
             (Inl e, s1) \<Rightarrow> ((Some e, opts), s1)
           | (Inr pub, s1) \<Rightarrow>
               (case nameKeyLocked V s1 of
                  (Inl e, s2) \<Rightarrow> ((Some e, opts), s2)
                | (Inr nameKey, s2) \<Rightarrow>
                    (let segs = path_segments V s2 pub nameKey 0 [] parts in
                     ((None, if segs \<noteq> [] then opts(''e2ee_path_segments'' \<mapsto> jSegments V segs) else opts), ktick s2))))"

definition DecryptE2EEName :: "key_env \<Rightarrow> string \<Rightarrow> keys \<Rightarrow> string \<times> keys" where
  "DecryptE2EEName V nameB64 s =
     (let opened = (\<lambda>sealed priv. case UnsealDisplayName (kvP V) sealed (Some priv) of Inl e \<Rightarrow> ''(encrypted)'' | Inr name \<Rightarrow> name) in
      if nameB64 = [] \<or> \<not> HasEncryptionKeys (cfg_of V s) then (''(encrypted)'', s)
      else case b64_decode nameB64 of
             None \<Rightarrow> (''(encrypted)'', s)
           | Some sealed \<Rightarrow>
               (case ksPriv s of
                  Some priv \<Rightarrow> (opened sealed priv, s)
                | None \<Rightarrow>
                    (case agentKeys V s of
                       None \<Rightarrow> (''(encrypted)'', ktick s)
                     | Some a \<Rightarrow>
                         (let priv = \<lparr>privX25519 = akPrivateKey a, privKyber = akKyberSeed a\<rparr> in
                          (opened sealed priv,
                           (ktick s)\<lparr>ksPriv := Some priv, ksNameKey := Some (akNameKey a),
                              ksPub := (case ksPub s of None \<Rightarrow> Some \<lparr>pubX25519 = akPublicKey a, pubKyber = akKyberPublicKey a\<rparr> | p \<Rightarrow> p)\<rparr>)))))"

definition computePathTokenMapsLocked :: "key_env \<Rightarrow> string list \<Rightarrow> keys \<Rightarrow> (string + string \<times> string) \<times> keys" where
  "computePathTokenMapsLocked V paths s =
     (if \<not> HasEncryptionKeys (cfg_of V s) \<or> paths = [] then (Inr ([], []), s)
      else case nameKeyLocked V s of
             (Inl e, s1) \<Rightarrow> (Inl e, s1)
           | (Inr nameKey, s1) \<Rightarrow> (Inr (PathTokenOptionJSON (kvT V) nameKey (map (ReplaceChar (CHR 0x5C) (CHR ''/'')) paths)), s1))"

definition addPathTokensLocked :: "key_env \<Rightarrow> options \<Rightarrow> string list \<Rightarrow> keys \<Rightarrow> (string option \<times> options) \<times> keys" where
  "addPathTokensLocked V opts paths s =
     (case computePathTokenMapsLocked V paths s of
        (Inl e, s1) \<Rightarrow> ((Some e, opts), s1)
      | (Inr (canonical, legacy), s1) \<Rightarrow>
          (let opts1 = (if canonical \<noteq> [] then opts(''path_tokens'' \<mapsto> canonical) else opts) in
           ((None, if legacy \<noteq> [] then opts1(''path_tokens_legacy'' \<mapsto> legacy) else opts1), s1)))"

definition AddPathTokensForAll :: "key_env \<Rightarrow> options \<Rightarrow> string list \<Rightarrow> PathTokenDepth \<Rightarrow> keys \<Rightarrow> (string option \<times> options) \<times> keys" where
  "AddPathTokensForAll V opts remotePaths depth s =
     (if \<not> HasEncryptionKeys (cfg_of V s) then ((None, opts), s)
      else addPathTokensLocked V opts (concat (map (\<lambda>p. PathTokenPaths p depth) remotePaths)) s)"

definition AddPathTokensFor :: "key_env \<Rightarrow> options \<Rightarrow> string \<Rightarrow> PathTokenDepth \<Rightarrow> keys \<Rightarrow> (string option \<times> options) \<times> keys" where
  "AddPathTokensFor V opts remotePath depth = AddPathTokensForAll V opts [remotePath] depth"

definition SealedRootParentB64 :: "key_env \<Rightarrow> bytes \<Rightarrow> string \<Rightarrow> bytes \<Rightarrow> string" where
  "SealedRootParentB64 V nonce nodeIDHex parentKey =
     (case hex_decode nodeIDHex of
        None \<Rightarrow> []
      | Some nodeID \<Rightarrow>
          if parentKey = [] then []
          else (case SealParentRef (kvP V) nonce [] nodeID parentKey of Inl e \<Rightarrow> [] | Inr blob \<Rightarrow> b64_encode blob))"

section \<open>Encrypting an upload\<close>

record UploadArtifacts =
  uaEncryptedPath :: string
  uaSealedKeyB64 :: string
  uaEncMetaB64 :: string
  uaTeeSealedKeyB64 :: string
  uaPlaintextHmacHex :: string
  uaTeeKeySet :: "PublicKeySet option"

record UploadSignatures =
  usSignatureEd25519B64 :: string
  usSignatureMldsaB64 :: string
  usSigningPkEd25519B64 :: string
  usSigningPkMldsaB64 :: string

text \<open>The session with its scanner keys, and the files of the staging directory. What else an upload depends on: the
  pins' environment, the metadata as JSON, the name of a temporary file and whether it can be made, the content
  that is read from the local file, and whether the caller has given up.\<close>

record up_world =
  uwKeys :: keys
  uwTee :: tee_world
  uwFiles :: "string \<rightharpoonup> bytes"

record up_env =
  uvV :: key_env
  uvE :: pin_env
  jWireMeta :: "EncryptionMetadata \<Rightarrow> bytes"
  uvTemp :: "up_world \<Rightarrow> string option"
  uvGiveUp :: "up_world \<Rightarrow> string option"

definition drop_file :: "string \<Rightarrow> up_world \<Rightarrow> up_world" where
  "drop_file p w = w\<lparr>uwFiles := (uwFiles w)(p := None)\<rparr>"

text \<open>The last part: the seal for the scanner, if there is one, and the keyed hash of the plaintext.\<close>

definition finish_upload ::
  "up_env \<Rightarrow> string \<Rightarrow> bytes \<Rightarrow> EncryptionMetadata \<Rightarrow> bytes \<Rightarrow> bytes \<Rightarrow> PublicKeySet option \<Rightarrow> (nat \<Rightarrow> nat \<Rightarrow> bytes) \<Rightarrow> up_world
     \<Rightarrow> (string + UploadArtifacts) \<times> up_world" where
  "finish_upload U tempPath dataKey meta ct sealedKey teeKeys r w =
     (let V = uvV U; P = kvP V in
      case (case teeKeys of None \<Rightarrow> Inr [] | Some ks \<Rightarrow> SealDataKey P (r 5 32) (r 6 32) (r 7 NonceSize) dataKey (Some ks)) of
        Inl e \<Rightarrow> (Inl ''Failed to seal data key to enclave'', drop_file tempPath w)
      | Inr teeSealed \<Rightarrow>
          (case nameKeyLocked V (uwKeys w) of
             (Inl e, k) \<Rightarrow> (Inl e, (drop_file tempPath w)\<lparr>uwKeys := k\<rparr>)
           | (Inr nameKey, k) \<Rightarrow>
               (Inr \<lparr>uaEncryptedPath = tempPath, uaSealedKeyB64 = b64_encode sealedKey, uaEncMetaB64 = b64_encode (jWireMeta U (wire_meta meta)),
                     uaTeeSealedKeyB64 = b64_encode teeSealed,
                     uaPlaintextHmacHex = (case ComputePlaintextHmac P (mPlaintextSHA256 meta) nameKey of Inl e \<Rightarrow> [] | Inr h \<Rightarrow> h),
                     uaTeeKeySet = teeKeys\<rparr>,
                w\<lparr>uwKeys := k, uwFiles := (uwFiles w)(tempPath \<mapsto> ct)\<rparr>)))"

text \<open>The randomness of one upload is drawn at one point of the counter: the data key, the nonce of the file, and the
  two seals. The temporary file is in the state once it is finished; every early return removes it.\<close>

definition EncryptForUpload :: "up_env \<Rightarrow> bytes option \<Rightarrow> up_world \<Rightarrow> (string + UploadArtifacts) \<times> up_world" where
  "EncryptForUpload U content w0 =
     (let V = uvV U; P = kvP V in
      case publicKeyLocked V (uwKeys w0) of
        (Inl e, k1) \<Rightarrow> (Inl e, w0\<lparr>uwKeys := k1\<rparr>)
      | (Inr pub, k1) \<Rightarrow>
          (let r = kvRand V (ksTick k1); dataKey = r 0 KeySize; w = w0\<lparr>uwKeys := ktick k1\<rparr> in
           case uvTemp U w of
             None \<Rightarrow> (Inl ''Failed to create temp file'', w)
           | Some tempPath \<Rightarrow>
               (case content of
                  None \<Rightarrow> (Inl ''Failed to encrypt file'', drop_file tempPath w)
                | Some input \<Rightarrow>
                    (case EncryptFile P (r 1 NonceSize) input dataKey of
                       Inl e \<Rightarrow> (Inl ''Failed to encrypt file'', drop_file tempPath w)
                     | Inr (meta, ct) \<Rightarrow>
                         (case SealDataKey P (r 2 32) (r 3 32) (r 4 NonceSize) dataKey (Some pub) of
                            Inl e \<Rightarrow> (Inl ''Failed to seal data key'', drop_file tempPath w)
                          | Inr sealedKey \<Rightarrow>
                              (case FetchTeeEnclaveKeySet (uvE U) (uwTee w) of
                                 (teeKeys, t) \<Rightarrow>
                                   if teeKeys = None \<and> \<not> teeScannerDisabledByServer t
                                   then let w1 = (drop_file tempPath w)\<lparr>uwTee := t\<rparr> in
                                        (Inl (case uvGiveUp U w1 of
                                                Some e \<Rightarrow> e
                                              | None \<Rightarrow> (case teeEnclaveKeyRefusal t of Some e \<Rightarrow> ''Security scanner refused: '' @ e | None \<Rightarrow> ''ErrScannerUnreachable'')), w1)
                                   else finish_upload U tempPath dataKey meta ct sealedKey teeKeys r (w\<lparr>uwTee := t\<rparr>)))))))"

definition SignEncryptedFile :: "key_env \<Rightarrow> bytes option \<Rightarrow> keys \<Rightarrow> (string + UploadSignatures) \<times> keys" where
  "SignEncryptedFile V content s =
     (case signingKeysLocked V s of
        (Inl e, s1) \<Rightarrow> (Inl e, s1)
      | (Inr (pub, priv), s1) \<Rightarrow>
          (case content of
             None \<Rightarrow> (Inl ''Failed to open encrypted file for signing'', s1)
           | Some data \<Rightarrow>
               (case SignFileBytes (kvP V) (kvG V) (Some data) (Some priv) of
                  Inl e \<Rightarrow> (Inl ''Failed to sign encrypted file'', s1)
                | Inr (sigEd, sigMl) \<Rightarrow>
                    (Inr \<lparr>usSignatureEd25519B64 = b64_encode sigEd, usSignatureMldsaB64 = b64_encode sigMl,
                          usSigningPkEd25519B64 = b64_encode (spkEd25519 pub), usSigningPkMldsaB64 = b64_encode (spkMldsa pub)\<rparr>, s1))))"

section \<open>The keys of a new account\<close>

definition GenerateHybridKeyPair :: "prims \<Rightarrow> sig_prims \<Rightarrow> bytes \<Rightarrow> bytes \<Rightarrow> string + PublicKeySet \<times> PrivateKeySet" where
  "GenerateHybridKeyPair P G x25519Priv seed =
     (case gKyberPublic G seed of
        None \<Rightarrow> Inl ''mlkem keygen''
      | Some ek \<Rightarrow>
          if length seed \<noteq> KyberSeedSize then Inl ''unexpected mlkem seed length''
          else if length ek \<noteq> KyberPublicKeySize then Inl ''unexpected mlkem encapsulation key length''
          else Inr (\<lparr>pubX25519 = pBase P x25519Priv, pubKyber = ek\<rparr>, \<lparr>privX25519 = x25519Priv, privKyber = seed\<rparr>))"

record AccountKeys =
  acParams :: options
  acPublic :: PublicKeySet
  acWrapped :: EncryptedHybridPrivateKey
  acSigningPublic :: SigningPublicKeySet
  acSigningWrapped :: EncryptedSigningPrivateKeySet
  acRecoveryKey :: bytes

definition KeyBundleSig ::
  "sig_prims \<Rightarrow> (int \<Rightarrow> string \<Rightarrow> string \<Rightarrow> bytes) \<Rightarrow> PublicKeySet \<Rightarrow> SigningPublicKeySet \<Rightarrow> SigningPrivateKeySet \<Rightarrow> string + string" where
  "KeyBundleSig G j pub signPub signPriv =
     (case SignKeyBundle G \<lparr>kbX25519 = pubX25519 pub, kbKyber = pubKyber pub, kbEd25519 = spkEd25519 signPub, kbMldsa = spkMldsa signPub\<rparr> signPriv of
        Inl e \<Rightarrow> Inl e
      | Inr (sigEd, sigMl) \<Rightarrow> Inr (b64_encode (j 1 (b64_encode sigEd) (b64_encode sigMl))))"

definition account_params ::
  "PublicKeySet \<Rightarrow> EncryptedHybridPrivateKey \<Rightarrow> RecoveryWrappedHybridKey \<Rightarrow> SigningPublicKeySet \<Rightarrow> EncryptedSigningPrivateKeySet
     \<Rightarrow> EncryptedSigningPrivateKeySet \<Rightarrow> options" where
  "account_params pub enc recovered signPub signEnc signRecovered =
     [''public_key'' \<mapsto> b64_encode (pubX25519 pub),
      ''encrypted_private_key'' \<mapsto> b64_encode (X25519Ciphertext enc),
      ''private_key_nonce'' \<mapsto> b64_encode (X25519Nonce enc),
      ''public_key_kyber'' \<mapsto> b64_encode (pubKyber pub),
      ''encrypted_private_key_kyber'' \<mapsto> b64_encode (KyberCiphertext enc),
      ''private_key_kyber_nonce'' \<mapsto> b64_encode (KyberNonce enc),
      ''kdf_salt'' \<mapsto> b64_encode (encSalt enc),
      ''kdf_ops_limit'' \<mapsto> show_nat (OpsLimit enc),
      ''kdf_mem_limit'' \<mapsto> show_nat (MemLimit enc),
      ''recovery_encrypted_key'' \<mapsto> b64_encode (X25519Ciphertext recovered),
      ''recovery_key_nonce'' \<mapsto> b64_encode (X25519Nonce recovered),
      ''recovery_private_key_kyber_encrypted'' \<mapsto> b64_encode (KyberCiphertext recovered),
      ''recovery_private_key_kyber_nonce'' \<mapsto> b64_encode (KyberNonce recovered),
      ''signing_public_key_ed25519'' \<mapsto> b64_encode (spkEd25519 signPub),
      ''encrypted_signing_private_key_ed25519'' \<mapsto> b64_encode (esEd25519Ciphertext signEnc),
      ''signing_private_key_ed25519_nonce'' \<mapsto> b64_encode (esEd25519Nonce signEnc),
      ''signing_public_key_mldsa'' \<mapsto> b64_encode (spkMldsa signPub),
      ''encrypted_signing_private_key_mldsa'' \<mapsto> b64_encode (esMldsaCiphertext signEnc),
      ''signing_private_key_mldsa_nonce'' \<mapsto> b64_encode (esMldsaNonce signEnc),
      ''recovery_signing_private_key_ed25519_encrypted'' \<mapsto> b64_encode (esEd25519Ciphertext signRecovered),
      ''recovery_signing_private_key_ed25519_nonce'' \<mapsto> b64_encode (esEd25519Nonce signRecovered),
      ''recovery_signing_private_key_mldsa_encrypted'' \<mapsto> b64_encode (esMldsaCiphertext signRecovered),
      ''recovery_signing_private_key_mldsa_nonce'' \<mapsto> b64_encode (esMldsaNonce signRecovered)]"

text \<open>Wrapping signing keys under a recovery key is wrapping them under any key.\<close>

definition EncryptSigningPrivateKeysWithKey ::
  "prims \<Rightarrow> sig_prims \<Rightarrow> SigningPrivateKeySet option \<Rightarrow> bytes \<Rightarrow> bytes \<Rightarrow> bytes \<Rightarrow> string + EncryptedSigningPrivateKeySet" where
  "EncryptSigningPrivateKeysWithKey P G priv key = EncryptSigningPrivateKeys P G priv key"

definition NewAccountKeys ::
  "prims \<Rightarrow> sig_prims \<Rightarrow> (int \<Rightarrow> string \<Rightarrow> string \<Rightarrow> bytes) \<Rightarrow> (nat \<Rightarrow> nat \<Rightarrow> bytes) \<Rightarrow> bytes \<Rightarrow> string + AccountKeys" where
  "NewAccountKeys P G j r password =
     (case GenerateHybridKeyPair P G (r 0 32) (r 1 KyberSeedSize) of
        Inl e \<Rightarrow> Inl ''generate key pair''
      | Inr (pub, priv) \<Rightarrow>
          (case EncryptHybridPrivateKey P (r 2 16) (r 3 NonceSize) (r 4 NonceSize) (Some priv) password of
             Inl e \<Rightarrow> Inl ''encrypt private key''
           | Inr enc \<Rightarrow>
               (let recoveryKey = r 5 KeySize in
                case EncryptHybridPrivateKeyWithKey P (r 6 NonceSize) (r 7 NonceSize) (Some priv) recoveryKey of
                  Inl e \<Rightarrow> Inl ''wrap recovery key''
                | Inr recovered \<Rightarrow>
                    (case GenerateSigningKeyPair G (r 8 32) (r 9 32) of
                       Inl e \<Rightarrow> Inl ''generate signing key pair''
                     | Inr (signPub, signPriv) \<Rightarrow>
                         (let pdk = DeriveKey P password (encSalt enc) (OpsLimit enc) (MemLimit enc) in
                          case EncryptSigningPrivateKeys P G (Some signPriv) pdk (r 10 NonceSize) (r 11 NonceSize) of
                            Inl e \<Rightarrow> Inl ''wrap signing private keys''
                          | Inr signEnc \<Rightarrow>
                              (case EncryptSigningPrivateKeysWithKey P G (Some signPriv) recoveryKey (r 12 NonceSize) (r 13 NonceSize) of
                                 Inl e \<Rightarrow> Inl ''recovery-wrap signing keys''
                               | Inr signRecovered \<Rightarrow>
                                   (case KeyBundleSig G j pub signPub signPriv of
                                      Inl e \<Rightarrow> Inl ''sign the published key bundle''
                                    | Inr sig \<Rightarrow>
                                        Inr \<lparr>acParams = (account_params pub enc recovered signPub signEnc signRecovered)(''key_bundle_sig'' \<mapsto> sig),
                                             acPublic = pub, acWrapped = enc, acSigningPublic = signPub, acSigningWrapped = signEnc,
                                             acRecoveryKey = recoveryKey\<rparr>)))))))"

text \<open>What \<open>pc li\<close> stores locally once the server has taken the keys; a failed write is a warning.\<close>

definition store_account :: "conf_env \<Rightarrow> AccountKeys \<Rightarrow> conf \<Rightarrow> conf" where
  "store_account C a s =
     (let enc = acWrapped a; sp = acSigningPublic a; se = acSigningWrapped a in
      snd (SetSigningKeys C (wrapped_texts (spkEd25519 sp) (esEd25519Ciphertext se) (esEd25519Nonce se))
             (wrapped_texts (spkMldsa sp) (esMldsaCiphertext se) (esMldsaNonce se))
             (snd (SetEncryptionKeys C (wrapped_texts (pubX25519 (acPublic a)) (X25519Ciphertext enc) (X25519Nonce enc))
                     (wrapped_texts (pubKyber (acPublic a)) (KyberCiphertext enc) (KyberNonce enc))
                     (b64_encode (encSalt enc)) (OpsLimit enc) (MemLimit enc) s))))"

end
