(* ===== verification/Fetcher.thy ===== *)
theory Fetcher
  imports SessionOps ApiErrors
begin

text \<open>
  Fetching a file for the mount: \<open>internal/mount/transfer/fetch.go\<close>, over the API client, the envelope, the signature
  check with its pins and the file decryption. The limit of five minutes for an attempt is an answer the server's
  side gives.
\<close>

section \<open>State and environment\<close>

text \<open>The client with its server, the pins with theirs, the token functions, the metadata as JSON, and the keys.\<close>

record Fetcher =
  ftClient :: cenv
  ftPins :: pin_env
  ftTokens :: token_env
  jEncMeta :: "bytes \<Rightarrow> EncryptionMetadata option"
  ftNameKey :: bytes
  ftPrivateKey :: "PrivateKeySet option"
  ftSigningKey :: "SigningPrivateKeySet option"

definition downloadAttempts :: int where "downloadAttempts = 4"

definition permanent_cerr :: "cerr \<Rightarrow> cerr" where
  "permanent_cerr e = e\<lparr>ceApi := permanent (ceApi e)\<rparr>"

definition zero_meta :: EncryptionMetadata where
  "zero_meta = \<lparr>mVersion = 0, mNonce = [], mChunkSize = 0, mChunks = 0, mPlaintextSHA256 = [], mPlaintextSize = 0, mMetadataMAC = []\<rparr>"

section \<open>The attempts\<close>

text \<open>\<open>Inr None\<close>: every attempt was turned away by the rate limit.\<close>

fun fetch_attempts :: "Fetcher \<Rightarrow> string \<Rightarrow> options \<Rightarrow> int list \<Rightarrow> cstate \<Rightarrow> (cerr + (bytes \<times> DownloadResult) option) \<times> cstate" where
  "fetch_attempts F remotePath opts [] s = (Inr None, s)"
| "fetch_attempts F remotePath opts (attempt # rest) s =
     (case DownloadToMemory (ftClient F) (''/'' @ remotePath) (Some opts) s of
        (Inr r, s1) \<Rightarrow> (Inr (Some r), s1)
      | (Inl e, s1) \<Rightarrow>
          if IsRateLimited (ceApi e) then
            (let hint = RetryAfterHint (ceApi e) in
             if RateLimitExceedsInlineWait hint then (Inl (wrap_cerr (''download '' @ remotePath) e), s1)
             else case wait_for (ftClient F) (RateLimitDelay attempt hint) s1 of
                    (True, s2) \<Rightarrow> fetch_attempts F remotePath opts rest s2
                  | (False, s2) \<Rightarrow> (Inl canceled_err, s2))
          else if ceTooLarge e then (Inl (permanent_cerr (wrap_cerr (''download '' @ remotePath) e)), s1)
          else (Inl (wrap_cerr (''download '' @ remotePath) e), s1))"

section \<open>Opening what was served\<close>

text \<open>The errors of the signature check are texts. A failed peer pin is told from the same text of the own key by the
  signer that the download names: without one there is no peer to check.\<close>

definition IsPeerPinFailure :: "DownloadResult \<Rightarrow> string \<Rightarrow> bool" where
  "IsPeerPinFailure d e \<longleftrightarrow> drSignedBy d \<noteq> [] \<and> (e = ''owner_signing_pk_untrusted'' \<or> e = ''owner_signing_pk_changed'')"

definition IsTeeAttestationUnavailable :: "string \<Rightarrow> bool" where
  "IsTeeAttestationUnavailable e \<longleftrightarrow> e = ''tee_signing_pk_unattested''"

definition ClassifyVerifyError :: "string \<Rightarrow> DownloadResult \<Rightarrow> string \<Rightarrow> cerr" where
  "ClassifyVerifyError remotePath d e =
     (let wrapped = wrap_cerr (''verify '' @ remotePath) (text_err e) in
      if IsPeerPinFailure d e \<or> IsTeeAttestationUnavailable e then wrapped else permanent_cerr wrapped)"

definition parse_meta :: "Fetcher \<Rightarrow> DownloadResult \<Rightarrow> string + EncryptionMetadata" where
  "parse_meta F d =
     (if drEncryptionMeta d = [] then Inr zero_meta
      else case b64_decode (drEncryptionMeta d) of
             None \<Rightarrow> Inl ''decode encryption meta''
           | Some m \<Rightarrow> (case jEncMeta F m of None \<Rightarrow> Inl ''parse encryption meta'' | Some meta \<Rightarrow> Inr meta))"

definition open_fetched :: "Fetcher \<Rightarrow> string \<Rightarrow> bytes \<Rightarrow> DownloadResult \<Rightarrow> pins \<Rightarrow> (cerr + bytes) \<times> pins" where
  "open_fetched F remotePath ct d pns =
     (let P = pvPrims (ftPins F); failed = (\<lambda>what. permanent_cerr (text_err (''download '' @ remotePath @ '': '' @ what))) in
      case RequireEncryptedDownload (Some d) of
        Some e \<Rightarrow> (Inl (failed e), pns)
      | None \<Rightarrow>
          if drSealedKey d = [] then (Inl (failed ''sealed key missing''), pns)
          else case b64_decode (drSealedKey d) of
                 None \<Rightarrow> (Inl (text_err ''decode sealed key''), pns)
               | Some sealedKey \<Rightarrow>
                   (case UnsealDataKey P sealedKey (ftPrivateKey F) of
                      Inl e \<Rightarrow> (Inl (permanent_cerr (text_err ''unseal data key'')), pns)
                    | Inr dataKey \<Rightarrow>
                        (case parse_meta F d of
                           Inl e \<Rightarrow> (Inl (text_err e), pns)
                         | Inr encMeta \<Rightarrow>
                             (case VerifyDownloadIntegrityWithSigningKey (ftPins F) (Some ct) (Some d) (ftSigningKey F) pns of
                                (Some e, pns1) \<Rightarrow> (Inl (ClassifyVerifyError remotePath d e), pns1)
                              | (None, pns1) \<Rightarrow>
                                  (case decryptReader P ct dataKey encMeta of
                                     Inl e \<Rightarrow> (Inl (permanent_cerr (text_err (''decrypt '' @ remotePath))), pns1)
                                   | Inr plaintext \<Rightarrow> (Inr plaintext, pns1))))))"

definition Fetch :: "Fetcher \<Rightarrow> string \<Rightarrow> cstate \<Rightarrow> pins \<Rightarrow> (cerr + bytes \<times> DownloadResult) \<times> cstate \<times> pins" where
  "Fetch F remotePath s pns =
     (let opts = AddPathTokenOptions (ftTokens F) Map.empty (ftNameKey F) (PathTokenPaths remotePath PathTokenSelfAndAncestors) in
      case fetch_attempts F remotePath opts [0..downloadAttempts - 1] s of
        (Inl e, s1) \<Rightarrow> (Inl e, s1, pns)
      | (Inr None, s1) \<Rightarrow> (Inl (text_err (''download '' @ remotePath @ '': exhausted retries'')), s1, pns)
      | (Inr (Some (ct, d)), s1) \<Rightarrow>
          (case open_fetched F remotePath ct d pns of
             (Inl e, pns1) \<Rightarrow> (Inl e, s1, pns1)
           | (Inr plaintext, pns1) \<Rightarrow> (Inr (plaintext, d), s1, pns1)))"

end
