(* ===== verification/ConfigLaws.thy ===== *)
theory ConfigLaws
  imports ConfigStore
begin

text \<open>
  The laws of the configuration: what a process saves the next one loads, the API key is not written to the file
  when the keychain takes it, and the secrets follow the endpoint to its host.
\<close>

section \<open>Secret stores\<close>

locale secret_store =
  fixes lookup :: "(string \<rightharpoonup> string) \<Rightarrow> string \<Rightarrow> string option"
    and put :: "string \<Rightarrow> string \<Rightarrow> (string \<rightharpoonup> string) \<Rightarrow> bool \<times> (string \<rightharpoonup> string)"
    and remove :: "string \<Rightarrow> (string \<rightharpoonup> string) \<Rightarrow> string \<rightharpoonup> string"
  assumes put_ok: "v \<noteq> [] \<Longrightarrow> fst (put key v m)"
    and lookup_put: "v \<noteq> [] \<Longrightarrow> lookup (snd (put key v m)) key' = (if key' = key then Some v else lookup m key')"
    and lookup_remove: "lookup (remove key m) key' = (if key' = key then None else lookup m key')"
begin

lemma move_secret:
  assumes "lookup m old = Some v" "v \<noteq> []" "old \<noteq> new"
  shows "lookup (snd (put new v (remove old m))) new = Some v" "lookup (snd (put new v (remove old m))) old = None"
  using assms by (simp_all add: lookup_put lookup_remove)

end

interpretation memory: secret_store "GetSecret MemorySecretStore" "SetSecret MemorySecretStore b" "DeleteSecret MemorySecretStore b'" for b b'
  by unfold_locales (simp_all add: GetSecret_def SetSecret_def DeleteSecret_def)

interpretation keyring: secret_store "GetSecret KeyringStore" "SetSecret KeyringStore True" "DeleteSecret KeyringStore True"
  by unfold_locales (simp_all add: GetSecret_def SetSecret_def DeleteSecret_def)

text \<open>A store that takes every value.\<close>

definition secrets_work :: "conf_env \<Rightarrow> bool" where
  "secrets_work V \<longleftrightarrow> cvStore V = MemorySecretStore \<or> cvStore V = KeyringStore \<and> (\<forall>n. cvKeychain V n)"

definition secret_at :: "conf_env \<Rightarrow> conf \<Rightarrow> string \<Rightarrow> string option" where
  "secret_at V s key = GetSecret (cvStore V) (cnSecrets s) key"

lemma secret_set:
  assumes "secrets_work V" "v \<noteq> []"
  shows "\<exists>s'. set_secret V key v s = (True, s') \<and> (\<forall>key'. secret_at V s' key' = (if key' = key then Some v else secret_at V s key')) \<and>
    cnCfg s' = cnCfg s \<and> cnFile s' = cnFile s"
  using assms unfolding secrets_work_def
  by (auto simp: set_secret_def secret_at_def SetSecret_def GetSecret_def)

lemma secret_deleted:
  assumes "secrets_work V"
  shows "secret_at V (delete_secret V key s) key' = (if key' = key then None else secret_at V s key')"
  using assms unfolding secrets_work_def
  by (elim disjE conjE) (simp_all add: delete_secret_def secret_at_def memory.lookup_remove keyring.lookup_remove)

lemma delete_cfg [simp]: "cnCfg (delete_secret V key s) = cnCfg s" "cnFile (delete_secret V key s) = cnFile s"
  by (simp_all add: delete_secret_def)

lemma secret_keys_cfg: "cnCfg s' = cnCfg s \<Longrightarrow> secretKey V s' = secretKey V s" "cnCfg s' = cnCfg s \<Longrightarrow> e2eeSecretKey V s' = e2eeSecretKey V s"
  by (simp_all add: secretKey_def e2eeSecretKey_def)

lemma secret_at_load: "loadAPIKey V s = secret_at V s (secretKey V s)"
  by (simp add: loadAPIKey_def secret_at_def)

lemma loadDeviceKey_secret:
  "loadDeviceKey V s = (case secret_at V s (e2eeSecretKey V s) of None \<Rightarrow> None
     | Some v \<Rightarrow> (case hex_decode v of None \<Rightarrow> None | Some b \<Rightarrow> if length b \<noteq> 32 then None else Some b))"
  by (simp add: loadDeviceKey_def secret_at_def)

lemma key_names_differ [simp]: "key @ ''|e2ee'' \<noteq> key" "key \<noteq> key @ ''|e2ee''"
  by simp_all

section \<open>Saving\<close>

lemma ensure_loaded_some [simp]: "cnCfg s = Some c \<Longrightarrow> ensure_loaded V s = s" "cnCfg s = Some c \<Longrightarrow> GetConfig V s = c"
  by (simp_all add: ensure_loaded_def GetConfig_def)

text \<open>A successful save: what is on disk, what is in the store, and that nothing else changed.\<close>

lemma save_outcome:
  assumes "secrets_work V" "cnCfg s = Some c" "SaveConfig V s = (r, s')"
  shows "cnCfg s' = Some c"
    "r = None \<Longrightarrow> cnFile s' = Some (c\<lparr>APIKey := []\<rparr>)"
    "r = None \<Longrightarrow> APIKey c \<noteq> [] \<Longrightarrow> secret_at V s' (secretKey V s) = Some (APIKey c)"
    "key \<noteq> secretKey V s \<Longrightarrow> secret_at V s' key = secret_at V s key"
    "APIKey c = [] \<Longrightarrow> secret_at V s' key = secret_at V s key"
proof -
  let ?s1 = "s\<lparr>cnTick := Suc (cnTick s)\<rparr>"
  have at: "secret_at V (x\<lparr>cnTick := n\<rparr>) k = secret_at V x k" "secret_at V (x\<lparr>cnFile := f\<rparr>) k = secret_at V x k" for x n k f
    by (simp_all add: secret_at_def)
  have key: "secretKey V ?s1 = secretKey V s" by (simp add: secretKey_def)
  have "cnCfg s' = Some c \<and> (r = None \<longrightarrow> cnFile s' = Some (c\<lparr>APIKey := []\<rparr>)) \<and>
    (r = None \<and> APIKey c \<noteq> [] \<longrightarrow> secret_at V s' (secretKey V s) = Some (APIKey c)) \<and> (\<forall>key. key \<noteq> secretKey V s \<longrightarrow> secret_at V s' key = secret_at V s key) \<and>
    (APIKey c = [] \<longrightarrow> (\<forall>key. secret_at V s' key = secret_at V s key))"
  proof (cases "cvMkdir V (cnTick s)")
    case False
    then show ?thesis using assms(2,3) by (auto simp: SaveConfig_def Let_def at)
  next
    case True
    show ?thesis
    proof (cases "APIKey c = []")
      case empty: True
      then have "storeAPIKey V (APIKey c) ?s1 = (False, ?s1)" by (simp add: storeAPIKey_def)
      moreover have "c\<lparr>APIKey := []\<rparr> = c" using empty by simp
      ultimately show ?thesis using True assms(2,3) empty by (auto simp: SaveConfig_def Let_def at split: if_splits)
    next
      case False
      obtain s2 where "set_secret V (secretKey V s) (APIKey c) ?s1 = (True, s2)"
        and s2: "\<forall>key'. secret_at V s2 key' = (if key' = secretKey V s then Some (APIKey c) else secret_at V ?s1 key')" "cnCfg s2 = cnCfg ?s1"
        using secret_set [OF assms(1) False] by blast
      then have "storeAPIKey V (APIKey c) ?s1 = (True, s2)" using False key by (simp add: storeAPIKey_def)
      then show ?thesis using True assms(2,3) s2 False by (auto simp: SaveConfig_def Let_def at split: if_splits)
    qed
  qed
  then show "cnCfg s' = Some c"
    "r = None \<Longrightarrow> cnFile s' = Some (c\<lparr>APIKey := []\<rparr>)"
    "r = None \<Longrightarrow> APIKey c \<noteq> [] \<Longrightarrow> secret_at V s' (secretKey V s) = Some (APIKey c)"
    "key \<noteq> secretKey V s \<Longrightarrow> secret_at V s' key = secret_at V s key"
    "APIKey c = [] \<Longrightarrow> secret_at V s' key = secret_at V s key"
    by blast+
qed

lemma update_outcome:
  assumes "secrets_work V" "cnCfg s = Some c" "update_config V f s = (r, s')"
  shows "cnCfg s' = Some (f c)"
    "r = None \<Longrightarrow> cnFile s' = Some ((f c)\<lparr>APIKey := []\<rparr>)"
    "r = None \<Longrightarrow> APIKey (f c) \<noteq> [] \<Longrightarrow> secret_at V s' (secretKeyFor V (Endpoint (f c))) = Some (APIKey (f c))"
    "key \<noteq> secretKeyFor V (Endpoint (f c)) \<Longrightarrow> secret_at V s' key = secret_at V s key"
    "APIKey (f c) = [] \<Longrightarrow> secret_at V s' key = secret_at V s key"
proof -
  let ?s = "s\<lparr>cnCfg := Some (f c)\<rparr>"
  have "SaveConfig V ?s = (r, s')" using assms(2,3) by (simp add: update_config_def Let_def)
  note out = save_outcome [OF assms(1) _ this, of "f c"]
  have k: "secretKey V ?s = secretKeyFor V (Endpoint (f c))" by (simp add: secretKey_def)
  have at: "secret_at V ?s x = secret_at V s x" for x by (simp add: secret_at_def)
  show "cnCfg s' = Some (f c)" "r = None \<Longrightarrow> cnFile s' = Some ((f c)\<lparr>APIKey := []\<rparr>)"
    "r = None \<Longrightarrow> APIKey (f c) \<noteq> [] \<Longrightarrow> secret_at V s' (secretKeyFor V (Endpoint (f c))) = Some (APIKey (f c))"
    "key \<noteq> secretKeyFor V (Endpoint (f c)) \<Longrightarrow> secret_at V s' key = secret_at V s key"
    "APIKey (f c) = [] \<Longrightarrow> secret_at V s' key = secret_at V s key"
    using out k at by simp_all
qed

text \<open>A process started anew.\<close>

definition restart :: "conf \<Rightarrow> conf" where
  "restart s = s\<lparr>cnCfg := None\<rparr>"

lemma reload:
  assumes "cnFile s = Some (c\<lparr>APIKey := []\<rparr>)" "cnCfg s = Some c"
    "secret_at V s (secretKeyFor V (Endpoint c)) = (if APIKey c = [] then None else Some (APIKey c))"
  shows "GetConfig V (restart s) = c"
proof -
  let ?s1 = "(restart s)\<lparr>cnCfg := Some (c\<lparr>APIKey := []\<rparr>)\<rparr>"
  have "loadAPIKey V ?s1 = (if APIKey c = [] then None else Some (APIKey c))"
    using assms(3) by (simp add: secret_at_load secretKey_def secret_at_def restart_def)
  moreover have "c\<lparr>APIKey := APIKey c\<rparr> = c" by simp
  ultimately show ?thesis using assms(1)
    by (simp add: GetConfig_def ensure_loaded_def LoadConfig_def Let_def restart_def split: option.splits if_splits)
qed

section \<open>Runs\<close>

text \<open>The store holds secrets of the current host only, and an API key only while one is configured.\<close>

definition conf_inv :: "conf_env \<Rightarrow> conf \<Rightarrow> bool" where
  "conf_inv V s \<longleftrightarrow> (\<exists>c. cnCfg s = Some c \<and>
     (\<forall>key. secret_at V s key \<noteq> None \<longrightarrow> key = secretKeyFor V (Endpoint c) \<or> key = secretKeyFor V (Endpoint c) @ ''|e2ee'') \<and>
     (APIKey c = [] \<longrightarrow> secret_at V s (secretKeyFor V (Endpoint c)) = None))"

datatype conf_op =
  OpAPIKey string
| OpCwd string
| OpWelcome
| OpEndpoint string
| OpClear
| OpEncryption key_texts key_texts string nat nat
| OpSigning key_texts key_texts
| OpDeviceWrapped key_texts key_texts key_texts key_texts
| OpDeviceKey bytes

definition conf_exec :: "conf_env \<Rightarrow> conf_op \<Rightarrow> conf \<Rightarrow> string option \<times> conf" where
  "conf_exec V op s =
     (case op of
        OpAPIKey k \<Rightarrow> SetAPIKey V k s
      | OpCwd d \<Rightarrow> SetCwd V d s
      | OpWelcome \<Rightarrow> MarkCLIWelcomeCompleted V s
      | OpEndpoint e \<Rightarrow> SetEndpoint V e s
      | OpClear \<Rightarrow> ClearConfig V s
      | OpEncryption x k salt ops mem \<Rightarrow> SetEncryptionKeys V x k salt ops mem s
      | OpSigning ed ml \<Rightarrow> SetSigningKeys V ed ml s
      | OpDeviceWrapped x k ed ml \<Rightarrow> SetDeviceWrappedE2EEKeys V x k ed ml s
      | OpDeviceKey k \<Rightarrow> (case storeDeviceKey V k s of (True, s') \<Rightarrow> (None, s') | (False, s') \<Rightarrow> (Some ''no keychain'', s')))"

definition op_ok :: "conf_op \<Rightarrow> bool" where
  "op_ok op \<longleftrightarrow> (case op of OpAPIKey k \<Rightarrow> k \<noteq> [] | _ \<Rightarrow> True)"

text \<open>What an operation leaves: the invariant, and after success a file and an API key from which the configuration is read
  back.\<close>

definition settled :: "conf_env \<Rightarrow> string option \<times> conf \<Rightarrow> bool" where
  "settled V out \<longleftrightarrow> conf_inv V (snd out) \<and> (fst out = None \<longrightarrow> (\<forall>c. cnCfg (snd out) = Some c \<longrightarrow>
     (cnFile (snd out) = Some (c\<lparr>APIKey := []\<rparr>) \<or> cnFile (snd out) = None \<and> c = default_config) \<and>
     secret_at V (snd out) (secretKeyFor V (Endpoint c)) = (if APIKey c = [] then None else Some (APIKey c))))"

lemma settled_reloads:
  assumes "settled V (None, s)"
  shows "\<exists>c. cnCfg s = Some c \<and> GetConfig V (restart s) = c \<and> (\<forall>f. cnFile s = Some f \<longrightarrow> APIKey f = [])"
proof -
  obtain c where c: "cnCfg s = Some c" using assms by (auto simp: settled_def conf_inv_def)
  then have at: "secret_at V s (secretKeyFor V (Endpoint c)) = (if APIKey c = [] then None else Some (APIKey c))"
    and f: "cnFile s = Some (c\<lparr>APIKey := []\<rparr>) \<or> cnFile s = None \<and> c = default_config"
    using assms by (auto simp: settled_def)
  from f have "GetConfig V (restart s) = c"
  proof
    assume "cnFile s = None \<and> c = default_config"
    moreover have "APIKey default_config = []" by (simp add: default_config_def)
    ultimately have "loadAPIKey V ((restart s)\<lparr>cnCfg := Some default_config\<rparr>) = None"
      using at by (simp add: secret_at_load secretKey_def) (simp add: secret_at_def restart_def)
    then show ?thesis using \<open>cnFile s = None \<and> c = default_config\<close>
      by (simp add: GetConfig_def ensure_loaded_def LoadConfig_def Let_def restart_def)
  qed (use reload c at in blast)
  then show ?thesis using c f by auto
qed

lemma update_settled:
  assumes "secrets_work V" "cnCfg s = Some c"
    and only: "\<forall>key. secret_at V s key \<noteq> None \<longrightarrow> key = secretKeyFor V (Endpoint (f c)) \<or> key = secretKeyFor V (Endpoint (f c)) @ ''|e2ee''"
    and none: "APIKey (f c) = [] \<longrightarrow> secret_at V s (secretKeyFor V (Endpoint (f c))) = None"
  shows "settled V (update_config V f s)"
proof -
  obtain r s' where run: "update_config V f s = (r, s')" by fastforce
  note out = update_outcome [OF assms(1,2) run]
  have inv: "conf_inv V s'"
    unfolding conf_inv_def using out(1,4,5) only none by (intro exI [of _ "f c"]) metis
  then show ?thesis using out(1-3,5) none run by (auto simp: settled_def)
qed

lemma keep_settled:
  assumes "secrets_work V" "conf_inv V s" "\<And>c. Endpoint (f c) = Endpoint c" "\<And>c. APIKey (f c) = APIKey c \<or> APIKey (f c) \<noteq> []"
  shows "settled V (update_config V f s)"
proof -
  obtain c where c: "cnCfg s = Some c" "\<forall>key. secret_at V s key \<noteq> None \<longrightarrow> key = secretKeyFor V (Endpoint c) \<or> key = secretKeyFor V (Endpoint c) @ ''|e2ee''"
    "APIKey c = [] \<longrightarrow> secret_at V s (secretKeyFor V (Endpoint c)) = None"
    using assms(2) unfolding conf_inv_def by blast
  then show ?thesis using assms(4) [of c] by (intro update_settled [OF assms(1) c(1)]) (auto simp: assms(3))
qed

lemma cleared_secrets:
  assumes "secrets_work V" "conf_inv V s"
  shows "secret_at V (deleteDeviceKey V (deleteAPIKey V s)) key = None"
proof -
  obtain c where c: "cnCfg s = Some c" "\<forall>key. secret_at V s key \<noteq> None \<longrightarrow> key = secretKeyFor V (Endpoint c) \<or> key = secretKeyFor V (Endpoint c) @ ''|e2ee''"
    using assms(2) unfolding conf_inv_def by blast
  have "secretKey V s = secretKeyFor V (Endpoint c)" "e2eeSecretKey V (deleteAPIKey V s) = secretKeyFor V (Endpoint c) @ ''|e2ee''"
    using c(1) by (simp_all add: secretKey_def e2eeSecretKey_def deleteAPIKey_def)
  then show ?thesis using c(2) by (auto simp: deleteDeviceKey_def deleteAPIKey_def secret_deleted [OF assms(1)])
qed

lemma device_stored:
  assumes "secrets_work V" "storeDeviceKey V k s = (ok, s')" "cnCfg s = Some c"
  shows "ok = (length k = 32)" "cnCfg s' = Some c" "cnFile s' = cnFile s" "length k = 32 \<Longrightarrow> loadDeviceKey V s' = Some k"
    "key \<noteq> secretKeyFor V (Endpoint c) @ ''|e2ee'' \<Longrightarrow> secret_at V s' key = secret_at V s key"
    "length k \<noteq> 32 \<Longrightarrow> s' = s"
proof -
  have "hex_encode k \<noteq> []" if "length k = 32"
  proof -
    have "length (hex_encode k) = 64" using that by simp
    then show ?thesis by (metis list.size(3) zero_neq_numeral)
  qed
  then show "ok = (length k = 32)" "cnCfg s' = Some c" "cnFile s' = cnFile s" "length k = 32 \<Longrightarrow> loadDeviceKey V s' = Some k"
    "key \<noteq> secretKeyFor V (Endpoint c) @ ''|e2ee'' \<Longrightarrow> secret_at V s' key = secret_at V s key" "length k \<noteq> 32 \<Longrightarrow> s' = s"
    using assms secret_set [OF assms(1), of "hex_encode k" "e2eeSecretKey V s" s]
    by (auto simp: storeDeviceKey_def loadDeviceKey_secret secretKey_def e2eeSecretKey_def split: if_splits)
qed

lemma device_settled:
  assumes "secrets_work V" "settled V (r, s)" "storeDeviceKey V k s = (ok, s')"
  shows "settled V (r, s')"
proof -
  obtain c where c: "cnCfg s = Some c" "\<forall>key. secret_at V s key \<noteq> None \<longrightarrow> key = secretKeyFor V (Endpoint c) \<or> key = secretKeyFor V (Endpoint c) @ ''|e2ee''"
    "APIKey c = [] \<longrightarrow> secret_at V s (secretKeyFor V (Endpoint c)) = None"
    using assms(2) unfolding settled_def conf_inv_def by auto
  note out = device_stored [OF assms(1,3) c(1)]
  have "conf_inv V s'" unfolding conf_inv_def using c out(2,5) by (intro exI [of _ c]) (metis key_names_differ(2))
  then show ?thesis using assms(2) c(1) out(2,3) out(5) [of "secretKeyFor V (Endpoint c)"] by (auto simp: settled_def)
qed

lemma endpoint_settled:
  assumes "secrets_work V" "conf_inv V s"
  shows "settled V (SetEndpoint V e s)"
proof -
  obtain c where c: "cnCfg s = Some c" using assms(2) by (auto simp: conf_inv_def)
  show ?thesis
  proof (cases "secretKeyFor V (Endpoint c) = secretKeyFor V e")
    case True
    then have "settled V (update_config V (\<lambda>c. c\<lparr>Endpoint := e\<rparr>) s)"
      using assms(2) c by (intro update_settled [OF assms(1) c]) (auto simp: conf_inv_def)
    then show ?thesis using True c by (simp add: SetEndpoint_def Let_def)
  next
    case False
    let ?s1 = "deleteDeviceKey V (deleteAPIKey V s)"
    have c1: "cnCfg ?s1 = Some c" using c by (simp add: deleteDeviceKey_def deleteAPIKey_def)
    obtain r s2 where run: "update_config V (\<lambda>c. c\<lparr>Endpoint := e\<rparr>) ?s1 = (r, s2)" by fastforce
    have "settled V (update_config V (\<lambda>c. c\<lparr>Endpoint := e\<rparr>) ?s1)"
      using cleared_secrets [OF assms] by (intro update_settled [OF assms(1) c1]) simp_all
    then have st: "settled V (r, s2)" using run by simp
    show ?thesis
    proof (cases "r = None \<and> loadDeviceKey V s \<noteq> None")
      case True
      then obtain k where k: "loadDeviceKey V s = Some k" by blast
      obtain ok s3 where "storeDeviceKey V k s2 = (ok, s3)" by fastforce
      then show ?thesis using device_settled [OF assms(1) st] True False k c run by (simp add: SetEndpoint_def Let_def)
    next
      case no: False
      then have "SetEndpoint V e s = (r, s2)" using False c run by (cases r; cases "loadDeviceKey V s") (simp_all add: SetEndpoint_def Let_def)
      then show ?thesis using st by simp
    qed
  qed
qed

lemma clear_settled:
  assumes "secrets_work V" "conf_inv V s"
  shows "settled V (ClearConfig V s)"
proof -
  let ?s1 = "deleteDeviceKey V (deleteAPIKey V s)"
  have "secret_at V (?s1\<lparr>cnCfg := x, cnTick := n\<rparr>) key = None" "secret_at V (?s1\<lparr>cnCfg := x, cnTick := n, cnFile := y\<rparr>) key = None" for x n y key
    using cleared_secrets [OF assms] by (simp_all add: secret_at_def)
  then show ?thesis by (auto simp: ClearConfig_def Let_def settled_def conf_inv_def default_config_def)
qed

lemma exec_settled:
  assumes "secrets_work V" "conf_inv V s" "op_ok op" "\<forall>k. op \<noteq> OpDeviceKey k"
  shows "settled V (conf_exec V op s)"
proof (cases op)
  case (OpAPIKey k)
  then show ?thesis using assms(3) by (auto simp: conf_exec_def SetAPIKey_def op_ok_def intro: keep_settled [OF assms(1,2)])
next
  case (OpEndpoint e)
  then show ?thesis using endpoint_settled [OF assms(1,2)] by (simp add: conf_exec_def)
next
  case OpClear
  then show ?thesis using clear_settled [OF assms(1,2)] by (simp add: conf_exec_def)
qed (use assms(4) in \<open>auto simp: conf_exec_def SetCwd_def MarkCLIWelcomeCompleted_def SetEncryptionKeys_def SetSigningKeys_def SetDeviceWrappedE2EEKeys_def
    with_encryption_def with_signing_def intro: keep_settled [OF assms(1,2)]\<close>)

lemma exec_inv:
  assumes "secrets_work V" "conf_inv V s" "op_ok op"
  shows "conf_inv V (snd (conf_exec V op s))"
proof (cases "\<exists>k. op = OpDeviceKey k")
  case True
  then obtain k where op: "op = OpDeviceKey k" by blast
  obtain ok s' where run: "storeDeviceKey V k s = (ok, s')" by fastforce
  have "settled V (Some [], s)" using assms(2) by (simp add: settled_def)
  from device_settled [OF assms(1) this run] show ?thesis using op run by (cases ok) (simp_all add: conf_exec_def settled_def)
next
  case False
  then show ?thesis using exec_settled [OF assms] by (simp add: settled_def)
qed


text \<open>
  Changing the endpoint moves the secrets. When the endpoint is changed to one of another host, nothing is kept under
  the former host's names, the API key in use is stored under the new host's, and the device key that unwraps the
  private keys is found again.
\<close>

theorem endpoint_moves_secrets:
  assumes "secrets_work V" "conf_inv V s" "cnCfg s = Some c" "SetEndpoint V e s = (None, s')"
    "secretKeyFor V (Endpoint c) \<noteq> secretKeyFor V e" "secretKeyFor V (Endpoint c) \<noteq> secretKeyFor V e @ ''|e2ee''" "secretKeyFor V (Endpoint c) @ ''|e2ee'' \<noteq> secretKeyFor V e"
  shows "secret_at V s' (secretKeyFor V (Endpoint c)) = None \<and> secret_at V s' (secretKeyFor V (Endpoint c) @ ''|e2ee'') = None \<and>
    (APIKey c \<noteq> [] \<longrightarrow> secret_at V s' (secretKeyFor V e) = Some (APIKey c)) \<and> loadDeviceKey V s' = loadDeviceKey V s \<and> cnCfg s' = Some (c\<lparr>Endpoint := e\<rparr>)"
proof -
  let ?s1 = "deleteDeviceKey V (deleteAPIKey V s)" let ?f = "\<lambda>c. c\<lparr>Endpoint := e\<rparr>"
  have c1: "cnCfg ?s1 = Some c" using assms(3) by (simp add: deleteDeviceKey_def deleteAPIKey_def)
  obtain r s2 where run: "update_config V ?f ?s1 = (r, s2)" by fastforce
  note out = update_outcome [OF assms(1) c1 run]
  have r: "r = None" and s': "s' = (case loadDeviceKey V s of None \<Rightarrow> s2 | Some k \<Rightarrow> snd (storeDeviceKey V k s2))"
    using assms(3-5) run by (auto simp: SetEndpoint_def Let_def split: option.splits)
  have gone: "secret_at V s2 key = None" if "key \<noteq> secretKeyFor V e" for key
    using out(4) [of key] that cleared_secrets [OF assms(1,2)] by simp
  have api: "APIKey c \<noteq> [] \<longrightarrow> secret_at V s2 (secretKeyFor V e) = Some (APIKey c)" using out(3) r by simp
  have cfg: "cnCfg s2 = Some (c\<lparr>Endpoint := e\<rparr>)" using out(1) by simp
  show ?thesis
  proof (cases "loadDeviceKey V s")
    case None
    have "loadDeviceKey V s2 = None" using gone [of "secretKeyFor V e @ ''|e2ee''"] cfg by (simp add: loadDeviceKey_secret e2eeSecretKey_def secretKey_def)
    then show ?thesis using None s' gone assms(5,7) api cfg by simp
  next
    case (Some k)
    then have k: "length k = 32" by (auto simp: loadDeviceKey_def split: option.splits if_splits)
    obtain ok s3 where st: "storeDeviceKey V k s2 = (ok, s3)" by fastforce
    note dev = device_stored [OF assms(1) st cfg]
    have "secretKeyFor V e \<noteq> secretKeyFor V (Endpoint (c\<lparr>Endpoint := e\<rparr>)) @ ''|e2ee''" by simp
    from dev(5) [OF this] have "secret_at V s3 (secretKeyFor V e) = secret_at V s2 (secretKeyFor V e)" .
    then show ?thesis using Some s' st dev(2) dev(4) [OF k] dev(5) gone assms(5-7) api by simp
  qed
qed

text \<open>An empty API key does not remove the stored one: the next process is logged in with it again.\<close>

lemma empty_key_comes_back:
  assumes "secrets_work V" "conf_inv V s" "cnCfg s = Some c" "secret_at V s (secretKeyFor V (Endpoint c)) = Some k" "SetAPIKey V [] s = (None, s')"
  shows "APIKey (GetConfig V s') = []" "APIKey (GetConfig V (restart s')) = k"
proof -
  note out = update_outcome [OF assms(1,3) assms(5) [unfolded SetAPIKey_def]]
  show "APIKey (GetConfig V s') = []" using out(1) by simp
  let ?s1 = "(restart s')\<lparr>cnCfg := Some (c\<lparr>APIKey := []\<rparr>)\<rparr>"
  have "secret_at V s' (secretKeyFor V (Endpoint c)) = Some k" using out(5) assms(4) by simp
  then have "loadAPIKey V ?s1 = Some k" by (simp add: secret_at_load secretKey_def secret_at_def restart_def)
  then show "APIKey (GetConfig V (restart s')) = k"
    using out(2) by (simp add: GetConfig_def ensure_loaded_def LoadConfig_def Let_def restart_def)
qed

text \<open>A keychain that refuses the new key but still has the old one wins over the file.\<close>

lemma stale_keychain_wins:
  assumes "cvStore V = KeyringStore" "\<forall>n. \<not> cvKeychain V n" "cnCfg s = Some c" "cnSecrets s (secretKeyFor V (Endpoint c)) = Some old" "SetAPIKey V key s = (None, s')"
  shows "APIKey (GetConfig V s') = key" "APIKey (GetConfig V (restart s')) = old"
proof -
  have refused: "set_secret V x v t = (False, t\<lparr>cnTick := Suc (cnTick t)\<rparr>)" for x v t
    using assms(1,2) by (simp add: set_secret_def SetSecret_def)
  have "cnCfg s' = Some (c\<lparr>APIKey := key\<rparr>)" "cnFile s' = Some (c\<lparr>APIKey := key\<rparr>)" "cnSecrets s' = cnSecrets s"
    using assms(3,5) by (auto simp: SetAPIKey_def update_config_def SaveConfig_def storeAPIKey_def refused Let_def split: if_splits)
  then show "APIKey (GetConfig V s') = key" "APIKey (GetConfig V (restart s')) = old"
    using assms(1,4) by (simp_all add: GetConfig_def ensure_loaded_def LoadConfig_def Let_def restart_def loadAPIKey_def GetSecret_def secretKey_def)
qed

section \<open>At a concrete configuration\<close>

definition toy_conf_env :: conf_env where
  "toy_conf_env = \<lparr>cvHost = (\<lambda>u. take 1 u), cvStore = MemorySecretStore, cvKeychain = (\<lambda>n. True), cvMkdir = (\<lambda>n. True), cvWrite = (\<lambda>n. True), cvRemove = (\<lambda>n. True)\<rparr>"

definition toy_conf :: conf where
  "toy_conf = \<lparr>cnTick = 0, cnCfg = Some (default_config\<lparr>APIKey := ''k''\<rparr>), cnFile = None, cnSecrets = [''h'' \<mapsto> ''k'']\<rparr>"

lemma toy_conf_ok: "secrets_work toy_conf_env" "conf_inv toy_conf_env toy_conf"
  by (simp_all add: secrets_work_def conf_inv_def toy_conf_env_def toy_conf_def secret_at_def GetSecret_def secretKeyFor_def default_config_def DefaultEndpoint_def)

lemma toy_update_ok: "\<exists>s'. update_config toy_conf_env f s = (None, s')"
  by (auto simp: update_config_def SaveConfig_def Let_def split: prod.split) (simp_all add: toy_conf_env_def)


theorem endpoint_moves_secrets_witness:
  "\<exists>s2. SetEndpoint toy_conf_env ''x'' toy_conf = (None, s2) \<and> secret_at toy_conf_env s2 ''h'' = None \<and> secret_at toy_conf_env s2 ''x'' = Some ''k''"
proof -
  let ?c = "default_config\<lparr>APIKey := ''k''\<rparr>"
  have c: "cnCfg toy_conf = Some ?c" by (simp add: toy_conf_def)
  have keys: "secretKeyFor toy_conf_env (Endpoint ?c) = ''h''" "secretKeyFor toy_conf_env ''x'' = ''x''"
    by (simp_all add: secretKeyFor_def toy_conf_env_def default_config_def DefaultEndpoint_def)
  obtain s1 where s1: "update_config toy_conf_env (\<lambda>c. c\<lparr>Endpoint := ''x''\<rparr>) (deleteDeviceKey toy_conf_env (deleteAPIKey toy_conf_env toy_conf)) = (None, s1)"
    using toy_update_ok by blast
  obtain s2 where run: "SetEndpoint toy_conf_env ''x'' toy_conf = (None, s2)"
    using s1 keys c by (cases "loadDeviceKey toy_conf_env toy_conf") (simp_all add: SetEndpoint_def Let_def)
  have "secretKeyFor toy_conf_env (Endpoint ?c) \<noteq> secretKeyFor toy_conf_env ''x''" "secretKeyFor toy_conf_env (Endpoint ?c) \<noteq> secretKeyFor toy_conf_env ''x'' @ ''|e2ee''"
    "secretKeyFor toy_conf_env (Endpoint ?c) @ ''|e2ee'' \<noteq> secretKeyFor toy_conf_env ''x''" unfolding keys by simp_all
  from endpoint_moves_secrets [OF toy_conf_ok c run this] run show ?thesis unfolding keys by simp
qed

end
