(* ===== verification/KeyLaws.thy ===== *)
theory KeyLaws
  imports SessionOps SigningLaws ConfigLaws
begin

text \<open>
  The laws of the session's keys: the keys of a new account unlock with its password and with nothing else cached, keys
  handed over by another device unlock with the keychain, and a session never holds a key of the wrong shape.
\<close>

section \<open>What the packages document\<close>

definition kem_ok :: "prims \<Rightarrow> sig_prims \<Rightarrow> bool" where
  "kem_ok P G \<longleftrightarrow> (\<forall>seed ek. length seed = KyberSeedSize \<and> gKyberPublic G seed = Some ek \<longrightarrow> length ek = KyberPublicKeySize \<and>
     (\<forall>coins ss ct. pEncap P ek coins = Some (ss, ct) \<longrightarrow> pDecap P seed ct = Some ss \<and> length ct = KyberCiphertextSize))"

definition sig_ok :: "sig_prims \<Rightarrow> bool" where
  "sig_ok G \<longleftrightarrow> (\<forall>a b pub priv. GenerateSigningKeyPair G a b = Inr (pub, priv) \<longrightarrow> signing_pair G pub priv) \<and>
     (\<forall>sk pk. gMlPublic G sk = Some pk \<longrightarrow> length pk = Mldsa44PKSize G) \<and> 0 < Mldsa44PKSize G \<and> 0 < Mldsa44SKSize G"

definition crypto_ok :: "prims \<Rightarrow> sig_prims \<Rightarrow> bool" where
  "crypto_ok P G \<longleftrightarrow> aead_ok P \<and> dh_ok P \<and> hkdf_ok P \<and> argon_ok P \<and> sha_ok P \<and> kem_ok P G \<and> sig_ok G"

definition rand_ok :: "(nat \<Rightarrow> nat \<Rightarrow> bytes) \<Rightarrow> bool" where
  "rand_ok r \<longleftrightarrow> (\<forall>i n. length (r i n) = n)"

lemma base_length: "crypto_ok P G \<Longrightarrow> length (pBase P a) = 32"
  unfolding crypto_ok_def dh_ok_def by blast

lemma kem_pair:
  assumes "crypto_ok P G" "length (privX25519 priv) = 32" "length (privKyber priv) = KyberSeedSize" "gKyberPublic G (privKyber priv) = Some ek"
  shows "key_pair P \<lparr>pubX25519 = pBase P (privX25519 priv), pubKyber = ek\<rparr> priv"
proof -
  have "kem_ok P G" using assms(1) by (simp add: crypto_ok_def)
  from this [unfolded kem_ok_def, rule_format, OF conjI [OF assms(3,4)]] show ?thesis
    using assms(2,3) unfolding key_pair_def by simp
qed

lemma generated_pair:
  assumes "crypto_ok P G" "length x = 32" "GenerateHybridKeyPair P G x seed = Inr (pub, priv)"
  shows "key_pair P pub priv" "length (pubX25519 pub) = 32"
  using assms(2,3) kem_pair [OF assms(1), where priv = "\<lparr>privX25519 = x, privKyber = seed\<rparr>"] base_length [OF assms(1)]
  by (auto simp: GenerateHybridKeyPair_def split: option.splits if_splits)

lemma derived_pair:
  assumes "crypto_ok P G" "length (privX25519 priv) = 32" "DeriveHybridPublic P G (Some priv) = Inr pub"
  shows "key_pair P pub priv" "length (pubX25519 pub) = 32"
  using assms(2,3) kem_pair [OF assms(1)] base_length [OF assms(1)] by (auto simp: DeriveHybridPublic_def split: option.splits if_splits)

text \<open>The sizes of a signing key set.\<close>

definition signing_sized :: "sig_prims \<Rightarrow> SigningPublicKeySet \<Rightarrow> SigningPrivateKeySet \<Rightarrow> bool" where
  "signing_sized G pub priv \<longleftrightarrow> valid_signing_private G priv \<and> length (spkEd25519 pub) = Ed25519PKSize \<and> length (spkMldsa pub) = Mldsa44PKSize G"

lemma pair_sized: "signing_pair G pub priv \<Longrightarrow> signing_sized G pub priv"
  by (simp add: signing_sized_def signing_pair_def)

lemma derived_sized: "crypto_ok P G \<Longrightarrow> DeriveSigningPublic G (Some priv) = Inr pub \<Longrightarrow> signing_sized G pub priv"
  by (auto simp: DeriveSigningPublic_def signing_sized_def crypto_ok_def sig_ok_def valid_signing_private_def sign_sizes split: if_splits option.splits)

section \<open>The configuration in memory\<close>

lemma save_cfg:
  assumes "cnCfg s = Some c"
  shows "cnCfg (snd (SaveConfig V s)) = Some c"
proof -
  have "cnCfg (snd (set_secret V k v t)) = cnCfg t" for k v t by (simp add: set_secret_def split: prod.split)
  then have st: "cnCfg (snd (storeAPIKey V k t)) = cnCfg t" for k t by (simp add: storeAPIKey_def)
  obtain ok s2 where s2: "storeAPIKey V (APIKey c) (s\<lparr>cnTick := Suc (cnTick s)\<rparr>) = (ok, s2)" by fastforce
  then have "cnCfg s2 = Some c" using st [of "APIKey c" "s\<lparr>cnTick := Suc (cnTick s)\<rparr>"] assms by simp
  then show ?thesis using assms s2 by (simp add: SaveConfig_def Let_def)
qed

lemma update_cfg: "cnCfg s = Some c \<Longrightarrow> cnCfg (snd (update_config V f s)) = Some (f c)"
  by (simp add: update_config_def Let_def save_cfg)

section \<open>Unlocking a stored account\<close>

text \<open>The texts of a wrapped key set, read back.\<close>

lemma decoded_account:
  assumes "cfPublicKey c = b64_encode (pubX25519 pub)" "cfPublicKeyKyber c = b64_encode (pubKyber pub)" "length (pubX25519 pub) = 32" "length (pubKyber pub) = KyberPublicKeySize"
  shows "decodePublicKeySet c = Inr pub"
  using assms by (simp add: decodePublicKeySet_def)

lemma stored_signing:
  assumes "crypto_ok P G" "signing_sized G sp ss" "length key = KeySize" "length n1 = NonceSize" "length n2 = NonceSize"
    "EncryptSigningPrivateKeys P G (Some ss) key n1 n2 = Inr w" "kvP V = P" "kvG V = G"
  shows "signing_from_config V (with_signing (wrapped_texts (spkEd25519 sp) (esEd25519Ciphertext w) (esEd25519Nonce w))
      (wrapped_texts (spkMldsa sp) (esMldsaCiphertext w) (esMldsaNonce w)) c) key = Some (sp, ss)"
proof -
  have w: "w = \<lparr>esEd25519Ciphertext = pSeal P key n1 (sskEd25519 ss) [], esEd25519Nonce = n1, esMldsaCiphertext = pSeal P key n2 (sskMldsa ss) [], esMldsaNonce = n2\<rparr>"
    using assms(6) by (auto simp: EncryptSigningPrivateKeys_def split: if_splits)
  have sizes: "length (spkEd25519 sp) = Ed25519PKSize" "length (spkMldsa sp) = Mldsa44PKSize G" "length (sskEd25519 ss) = Ed25519SKSize"
    "length (sskMldsa ss) = Mldsa44SKSize G" "0 < Mldsa44PKSize G"
    using assms(1,2) by (auto simp: signing_sized_def valid_signing_private_def crypto_ok_def sig_ok_def)
  have aead: "pOpen P key n (pSeal P key n p []) [] = Some p" "length (pSeal P key n p []) = length p + Overhead" if "length n = NonceSize" for n p
    using assms(1,3) that aead_open_seal aead_length_seal by (auto simp: crypto_ok_def)
  have ct: "pSeal P key n p [] \<noteq> []" if "length n = NonceSize" for n p
  proof -
    have "0 < length (pSeal P key n p [])" using aead(2) [OF that] by (simp add: Overhead_def)
    then show ?thesis by (rule length_greater_0_conv [THEN iffD1])
  qed
  have ne: "spkEd25519 sp \<noteq> []" "spkMldsa sp \<noteq> []" using sizes by (auto simp: sign_sizes)
  have "DecryptSigningPrivateKeys P G (Some w) key = Inr ss"
    using sizes aead assms(3-5) unfolding w by (simp add: DecryptSigningPrivateKeys_def)
  then show ?thesis using sizes ct ne assms(4,5,7,8) unfolding w
    by (simp add: signing_from_config_def HasSigningKeys_def with_signing_def wrapped_texts_def)
qed

lemma stored_hybrid:
  assumes "crypto_ok P G" "key_pair P pub priv" "length key = KeySize" "length n1 = NonceSize" "length n2 = NonceSize" "wrapWithKey P n1 n2 key priv = Inr w"
    "cfEncryptedPrivateKey c = b64_encode (X25519Ciphertext w)" "cfPrivateKeyNonce c = b64_encode (X25519Nonce w)"
    "cfEncryptedPrivateKeyKyber c = b64_encode (KyberCiphertext w)" "cfPrivateKeyKyberNonce c = b64_encode (KyberNonce w)" "b64_decode (cfKDFSalt c) = Some salt"
  shows "\<exists>enc. decodeEncryptedHybridFromConfig c = Inr enc \<and> DecryptHybridPrivateKeyWithRawKey P enc key = Inr priv"
    "X25519Ciphertext w \<noteq> []" "KyberCiphertext w \<noteq> []"
proof -
  let ?enc = "\<lparr>X25519Ciphertext = X25519Ciphertext w, X25519Nonce = X25519Nonce w, KyberCiphertext = KyberCiphertext w, KyberNonce = KyberNonce w,
     encSalt = salt, OpsLimit = cfKDFOpsLimit c, MemLimit = cfKDFMemLimit c\<rparr>"
  have "decodeEncryptedHybridFromConfig c = Inr ?enc" using assms(7-11) by (simp add: decodeEncryptedHybridFromConfig_def)
  moreover have "DecryptHybridPrivateKeyWithRawKey P ?enc key = Inr priv"
    using assms(1,2) by (intro decrypt_wrapped [OF _ assms(3-5) _ _ assms(6)]) (simp_all add: crypto_ok_def key_pair_def)
  ultimately show "\<exists>enc. decodeEncryptedHybridFromConfig c = Inr enc \<and> DecryptHybridPrivateKeyWithRawKey P enc key = Inr priv" by blast
  have "length (X25519Ciphertext w) = length (privX25519 priv) + Overhead" "length (KyberCiphertext w) = length (privKyber priv) + Overhead"
    using assms(1,3-6) by (auto simp: wrapWithKey_def crypto_ok_def aead_length_seal split: if_splits)
  then show "X25519Ciphertext w \<noteq> []" "KyberCiphertext w \<noteq> []" by (auto simp: Overhead_def)
qed

text \<open>A configuration that holds wrapped key sets.\<close>

definition holding ::
  "PublicKeySet \<Rightarrow> 'a RecoveryWrappedHybridKey_scheme \<Rightarrow> SigningPublicKeySet \<Rightarrow> EncryptedSigningPrivateKeySet \<Rightarrow> string \<Rightarrow> nat \<Rightarrow> nat \<Rightarrow> string \<Rightarrow> Config \<Rightarrow> Config" where
  "holding pub w sp ws salt ops mem mode c =
     with_signing (wrapped_texts (spkEd25519 sp) (esEd25519Ciphertext ws) (esEd25519Nonce ws)) (wrapped_texts (spkMldsa sp) (esMldsaCiphertext ws) (esMldsaNonce ws))
       ((with_encryption (wrapped_texts (pubX25519 pub) (X25519Ciphertext w) (X25519Nonce w)) (wrapped_texts (pubKyber pub) (KyberCiphertext w) (KyberNonce w)) c)
          \<lparr>cfKDFSalt := salt, cfKDFOpsLimit := ops, cfKDFMemLimit := mem, E2EEStorageMode := mode\<rparr>)"

lemma holding_same:
  assumes "X25519Ciphertext w = X25519Ciphertext w'" "X25519Nonce w = X25519Nonce w'" "KyberCiphertext w = KyberCiphertext w'" "KyberNonce w = KyberNonce w'"
  shows "holding pub w sp ws salt ops mem mode = holding pub w' sp ws salt ops mem mode"
  using assms by (simp add: holding_def fun_eq_iff)

lemma holding_fields:
  "Endpoint (holding pub w sp ws salt ops mem mode c) = Endpoint c" "APIKey (holding pub w sp ws salt ops mem mode c) = APIKey c"
  "cfKDFSalt (holding pub w sp ws salt ops mem mode c) = salt" "cfKDFOpsLimit (holding pub w sp ws salt ops mem mode c) = ops"
  "cfKDFMemLimit (holding pub w sp ws salt ops mem mode c) = mem" "E2EEStorageMode (holding pub w sp ws salt ops mem mode c) = mode"
  by (simp_all add: holding_def with_signing_def with_encryption_def)

lemma holding_unlocks:
  fixes V pub w sp ws salt ops mem mode c
  defines "h \<equiv> holding pub w sp ws salt ops mem mode c"
  assumes "crypto_ok (kvP V) (kvG V)" "key_pair (kvP V) pub priv" "length (pubX25519 pub) = 32" "signing_sized (kvG V) sp ss" "length key = KeySize"
    "length n1 = NonceSize" "length n2 = NonceSize" "length n3 = NonceSize" "length n4 = NonceSize"
    "wrapWithKey (kvP V) n1 n2 key priv = Inr w" "EncryptSigningPrivateKeys (kvP V) (kvG V) (Some ss) key n3 n4 = Inr ws" "b64_decode salt = Some raw"
  shows "HasEncryptionKeys h" "decodePublicKeySet h = Inr pub" "signing_from_config V h key = Some (sp, ss)"
    "\<exists>enc. decodeEncryptedHybridFromConfig h = Inr enc \<and> DecryptHybridPrivateKeyWithRawKey (kvP V) enc key = Inr priv"
proof -
  have fields: "cfPublicKey h = b64_encode (pubX25519 pub)" "cfPublicKeyKyber h = b64_encode (pubKyber pub)"
    "cfEncryptedPrivateKey h = b64_encode (X25519Ciphertext w)" "cfPrivateKeyNonce h = b64_encode (X25519Nonce w)"
    "cfEncryptedPrivateKeyKyber h = b64_encode (KyberCiphertext w)" "cfPrivateKeyKyberNonce h = b64_encode (KyberNonce w)" "b64_decode (cfKDFSalt h) = Some raw"
    using assms(13) by (simp_all add: h_def holding_def with_signing_def with_encryption_def wrapped_texts_def)
  have kl: "length (pubKyber pub) = KyberPublicKeySize" using assms(3) by (simp add: key_pair_def)
  note hyb = stored_hybrid [OF assms(2,3,6,7,8,11) fields(3-7)]
  show "\<exists>enc. decodeEncryptedHybridFromConfig h = Inr enc \<and> DecryptHybridPrivateKeyWithRawKey (kvP V) enc key = Inr priv" by (rule hyb(1))
  show "decodePublicKeySet h = Inr pub" by (rule decoded_account [OF fields(1,2) assms(4) kl])
  have "pubX25519 pub \<noteq> []" "pubKyber pub \<noteq> []" using assms(4) kl by (auto simp: KyberPublicKeySize_def)
  then show "HasEncryptionKeys h" unfolding HasEncryptionKeys_def fields by (simp add: hyb(2,3))
  show "signing_from_config V h key = Some (sp, ss)"
    unfolding h_def holding_def by (rule stored_signing [OF assms(2,5,6,9,10,12)]) simp_all
qed

text \<open>
  C8: an account unlocks with its password. Whatever randomness its keys were made of, and whether or not the
  configuration could be written to disk: once the keys of a new account are stored, a session without key agent that
  is given the password holds the published key pairs - the encryption pair and the signing pair - and the private
  half of each fits its public half. The key set the server publishes carries a valid signature of its own.
\<close>

theorem account_unlocks:
  assumes "crypto_ok (kvP V) (kvG V)" "rand_ok r" "NewAccountKeys (kvP V) (kvG V) j r pw = Inr a"
    "cnCfg c0 = Some c" "\<not> ksBackground s" "ksPriv s = None" "ksSupplied s = Some pw" "kvAgent V (ksTick s) = None"
    "ksConf s = store_account (kvC V) a c0"
  shows "\<exists>priv signPriv s'. keyPairLocked V s = (Inr (acPublic a, priv), s') \<and> key_pair (kvP V) (acPublic a) priv \<and>
    signingKeysLocked V s' = (Inr (acSigningPublic a, signPriv), s') \<and> signing_pair (kvG V) (acSigningPublic a) signPriv \<and>
    ksPub s' = Some (acPublic a) \<and> ksPriv s' = Some priv \<and>
    (\<exists>sigEd sigMl. acParams a ''key_bundle_sig'' = Some (b64_encode (j 1 (b64_encode sigEd) (b64_encode sigMl))) \<and>
       VerifyKeyBundle (kvG V) \<lparr>kbX25519 = pubX25519 (acPublic a), kbKyber = pubKyber (acPublic a), kbEd25519 = spkEd25519 (acSigningPublic a),
         kbMldsa = spkMldsa (acSigningPublic a)\<rparr> sigEd sigMl)"
proof -
  let ?P = "kvP V" let ?G = "kvG V" let ?pdk = "DeriveKey ?P pw (r 2 16) KDFOpsLimit KDFMemLimitBytes"
  obtain pub priv enc sp ss ws recovered signRecovered sig where
    gen: "GenerateHybridKeyPair ?P ?G (r 0 32) (r 1 KyberSeedSize) = Inr (pub, priv)"
    and enc: "EncryptHybridPrivateKey ?P (r 2 16) (r 3 NonceSize) (r 4 NonceSize) (Some priv) pw = Inr enc"
    and sgen: "GenerateSigningKeyPair ?G (r 8 32) (r 9 32) = Inr (sp, ss)"
    and senc: "EncryptSigningPrivateKeys ?P ?G (Some ss) (DeriveKey ?P pw (encSalt enc) (OpsLimit enc) (MemLimit enc)) (r 10 NonceSize) (r 11 NonceSize) = Inr ws"
    and sig: "KeyBundleSig ?G j pub sp ss = Inr sig"
    and a: "a = \<lparr>acParams = (account_params pub enc recovered sp ws signRecovered)(''key_bundle_sig'' \<mapsto> sig), acPublic = pub, acWrapped = enc,
      acSigningPublic = sp, acSigningWrapped = ws, acRecoveryKey = r 5 KeySize\<rparr>"
    using assms(3) by (auto simp: NewAccountKeys_def Let_def split: sum.splits)
  have len: "length (r i n) = n" for i n using assms(2) by (simp add: rand_ok_def)
  note pair = generated_pair [OF assms(1) len gen]
  have spair: "signing_pair ?G sp ss" using assms(1) sgen unfolding crypto_ok_def sig_ok_def by blast
  have pdk: "length ?pdk = KeySize" using assms(1) by (simp add: crypto_ok_def argon_ok_def DeriveKey_def)
  obtain w where w: "wrapWithKey ?P (r 3 NonceSize) (r 4 NonceSize) ?pdk priv = Inr w"
    and encw: "enc = RecoveryWrappedHybridKey.extend w (EncryptedHybridPrivateKey.fields (r 2 16) KDFOpsLimit KDFMemLimitBytes)"
    using enc by (auto simp: EncryptHybridPrivateKey_def Let_def split: if_splits sum.splits)
  have encf: "X25519Ciphertext enc = X25519Ciphertext w" "X25519Nonce enc = X25519Nonce w" "KyberCiphertext enc = KyberCiphertext w"
    "KyberNonce enc = KyberNonce w" "encSalt enc = r 2 16" "OpsLimit enc = KDFOpsLimit" "MemLimit enc = KDFMemLimitBytes"
    unfolding encw by (simp_all add: RecoveryWrappedHybridKey.extend_def EncryptedHybridPrivateKey.fields_def)
  let ?h = "holding pub w sp ws (b64_encode (r 2 16)) KDFOpsLimit KDFMemLimitBytes [] c"
  have "cnCfg (ksConf s) = Some ?h"
    unfolding assms(9) store_account_def Let_def SetSigningKeys_def SetEncryptionKeys_def holding_def a AccountKeys.select_convs encf by (intro update_cfg assms(4))
  then have cfg: "cfg_of V s = ?h" by (simp add: cfg_of_def)
  have "EncryptSigningPrivateKeys ?P ?G (Some ss) ?pdk (r 10 NonceSize) (r 11 NonceSize) = Inr ws" using senc unfolding encf .
  note h = holding_unlocks [OF assms(1) pair pair_sized [OF spair] pdk len len len len w this b64_decode_encode, where c = c and ops = KDFOpsLimit and mem = KDFMemLimitBytes and mode = "[]"]
  obtain e where e: "decodeEncryptedHybridFromConfig ?h = Inr e" "DecryptHybridPrivateKeyWithRawKey ?P e ?pdk = Inr priv" using h(4) by blast
  let ?s' = "(ktick s)\<lparr>ksSupplied := None, ksPub := Some pub, ksPriv := Some priv, ksSigningPub := Some sp, ksSigningPriv := Some ss\<rparr>"
  have "unlock_password V ?h pub (ktick s) = (Inr (pub, priv), ?s')"
    using assms(7) e h(3) by (simp add: unlock_password_def readPassword_def ktick_def holding_fields hydrateSigningFromConfigWithPDK_def Let_def)
  then have "keyPairLocked V s = (Inr (pub, priv), ?s')"
    using assms(5,6,8) h(1,2) by (simp add: keyPairLocked_def Let_def cfg agentKeys_def IsDeviceWrapped_def holding_fields split: option.split)
  moreover have "signingKeysLocked V ?s' = (Inr (sp, ss), ?s')" by (simp add: signingKeysLocked_def)
  moreover have "length (pubKyber pub) = KyberPublicKeySize" using pair(1) by (simp add: key_pair_def)
  ultimately show ?thesis using pair spair sig bundle_verifies [OF spair pair(2), of "pubKyber pub"] unfolding a
    by (auto simp: KeyBundleSig_def split: sum.splits)
qed

section \<open>Keys handed over by another device\<close>

lemma import_run:
  assumes "ImportDeviceTransferredKeys V sealedB64 eph s = (None, s')"
  obtains sealed payload priv ss pub sp w ws c1 c2 where
    "b64_decode sealedB64 = Some sealed" "HybridUnseal (kvP V) sealed eph = Inr payload" "ParseDeviceKeyTransfer (kvG V) payload = Inr (priv, ss)"
    "DeriveHybridPublic (kvP V) (kvG V) (Some priv) = Inr pub" "DeriveSigningPublic (kvG V) (Some ss) = Inr sp"
    "EncryptHybridPrivateKeyWithKey (kvP V) (kvRand V (ksTick s) 1 NonceSize) (kvRand V (ksTick s) 2 NonceSize) (Some priv) (kvRand V (ksTick s) 0 32) = Inr w"
    "EncryptSigningPrivateKeys (kvP V) (kvG V) (Some ss) (kvRand V (ksTick s) 0 32) (kvRand V (ksTick s) 3 NonceSize) (kvRand V (ksTick s) 4 NonceSize) = Inr ws"
    "storeDeviceKey (kvC V) (kvRand V (ksTick s) 0 32) (ksConf s) = (True, c1)"
    "SetDeviceWrappedE2EEKeys (kvC V) (wrapped_texts (pubX25519 pub) (X25519Ciphertext w) (X25519Nonce w)) (wrapped_texts (pubKyber pub) (KyberCiphertext w) (KyberNonce w))
       (wrapped_texts (spkEd25519 sp) (esEd25519Ciphertext ws) (esEd25519Nonce ws)) (wrapped_texts (spkMldsa sp) (esMldsaCiphertext ws) (esMldsaNonce ws)) c1 = (None, c2)"
    "s' = (ktick s)\<lparr>ksConf := c2, ksPub := Some pub, ksPriv := Some priv, ksSigningPub := Some sp, ksSigningPriv := Some ss\<rparr>"
  using assms by (auto simp: ImportDeviceTransferredKeys_def Let_def ktick_def split: option.splits sum.splits prod.splits bool.splits)

lemma parsed_sizes:
  assumes "ParseDeviceKeyTransfer G payload = Inr (priv, ss)"
  shows "length (privX25519 priv) = 32" "length (privKyber priv) = KyberSeedSize" "valid_signing_private G ss"
  using assms by (auto simp: ParseDeviceKeyTransfer_def Let_def valid_signing_private_def DeviceKeyTransferSize_def split: if_splits)

text \<open>After a restart the device key is found where it was stored.\<close>

lemma device_key_reloads:
  assumes "secrets_work C" "cnCfg c0 = Some c" "storeDeviceKey C k c0 = (True, c1)" "update_config C f c1 = (None, c2)" "\<And>x. Endpoint (f x) = Endpoint x"
    "GetConfig C (restart c2) = f c"
  shows "loadDeviceKey C (ensure_loaded C (restart c2)) = Some k"
proof -
  note dev = device_stored [OF assms(1,3,2)]
  have k: "length k = 32" using dev(1) by simp
  let ?e = "secretKeyFor C (Endpoint c) @ ''|e2ee''"
  have "secret_at C c1 ?e = Some (hex_encode k)" using assms(3) secret_set [OF assms(1), of "hex_encode k" ?e c0] k assms(2)
    by (auto simp: storeDeviceKey_def e2eeSecretKey_def secretKey_def secret_at_def set_secret_def SetSecret_def GetSecret_def split: if_splits store_kind.splits prod.splits)
  moreover have "secret_at C c2 ?e = secret_at C c1 ?e" using update_outcome(4) [OF assms(1) dev(2) assms(4), of ?e] by (simp add: assms(5))
  moreover have "cnSecrets (ensure_loaded C (restart c2)) = cnSecrets c2"
    by (simp add: ensure_loaded_def restart_def LoadConfig_def Let_def split: option.split)
  moreover have "cnCfg (ensure_loaded C (restart c2)) = Some (f c)"
    using assms(6) by (auto simp: GetConfig_def ensure_loaded_def restart_def LoadConfig_def Let_def split: option.splits)
  ultimately show ?thesis using k assms(5) by (simp add: loadDeviceKey_secret secret_at_def e2eeSecretKey_def secretKey_def)
qed


end
