(* ===== verification/FetchLaws.thy ===== *)
theory FetchLaws
  imports Fetcher KeyLaws TeeLaws ApiClientLaws
begin

text \<open>
  A file from end to end: what an upload hands to the server opens for its owner and for the scanner and for nobody
  else's key, what is fetched carries the signature of a trusted key and is opened with the own key, and a file that
  was uploaded is fetched back as it was, through the envelope, the signatures and the retries of the client.
\<close>

section \<open>What an upload leaves behind\<close>

text \<open>The randomness of an upload: its session after the public key was read, one tick further.\<close>

definition upload_key :: "up_env \<Rightarrow> up_world \<Rightarrow> bytes" where
  "upload_key U w = kvRand (uvV U) (ksTick (snd (publicKeyLocked (uvV U) (uwKeys w)))) 0 KeySize"

lemma finish_run:
  assumes "finish_upload U p key meta ct sealed tee r w = (Inr a, w')"
  shows "uaEncryptedPath a = p" "uwFiles w' p = Some ct" "uaSealedKeyB64 a = b64_encode sealed" "uaEncMetaB64 a = b64_encode (jWireMeta U (wire_meta meta))"
    "uaTeeKeySet a = tee" "uwTee w' = uwTee w"
    "tee = Some ks \<Longrightarrow> \<exists>x. SealDataKey (kvP (uvV U)) (r 5 32) (r 6 32) (r 7 NonceSize) key (Some ks) = Inr x \<and> uaTeeSealedKeyB64 a = b64_encode x"
  using assms by (auto simp: finish_upload_def Let_def split: sum.splits prod.splits option.splits)

lemma finish_failed:
  assumes "finish_upload U p key meta ct sealed tee r w = (Inl e, w')"
  shows "uwFiles w' = (uwFiles w)(p := None)"
  using assms by (auto simp: finish_upload_def Let_def drop_file_def split: sum.splits prod.splits option.splits)

lemma upload_run:
  assumes "EncryptForUpload U (Some input) w = (Inr a, w')"
  obtains pub k1 meta ct sealed tee t where "publicKeyLocked (uvV U) (uwKeys w) = (Inr pub, k1)"
    "EncryptFile (kvP (uvV U)) (kvRand (uvV U) (ksTick k1) 1 NonceSize) input (upload_key U w) = Inr (meta, ct)"
    "SealDataKey (kvP (uvV U)) (kvRand (uvV U) (ksTick k1) 2 32) (kvRand (uvV U) (ksTick k1) 3 32) (kvRand (uvV U) (ksTick k1) 4 NonceSize) (upload_key U w) (Some pub) = Inr sealed"
    "FetchTeeEnclaveKeySet (uvE U) (uwTee w) = (tee, t)" "tee \<noteq> None \<or> teeScannerDisabledByServer t"
    "finish_upload U (uaEncryptedPath a) (upload_key U w) meta ct sealed tee (kvRand (uvV U) (ksTick k1)) (w\<lparr>uwKeys := ktick k1, uwTee := t\<rparr>) = (Inr a, w')"
proof -
  obtain pub k1 where pub: "publicKeyLocked (uvV U) (uwKeys w) = (Inr pub, k1)"
    using assms by (auto simp: EncryptForUpload_def Let_def split: sum.splits prod.splits)
  then have key: "upload_key U w = kvRand (uvV U) (ksTick k1) 0 KeySize" by (simp add: upload_key_def)
  show thesis
    using assms pub finish_run(1) that unfolding key
    by (simp add: EncryptForUpload_def Let_def split: sum.splits prod.splits option.splits if_splits)
qed

lemma upload_failed:
  assumes "EncryptForUpload U content w = (Inl e, w')"
  shows "uwFiles w' = uwFiles w \<or> (\<exists>w1 p. uwFiles w1 = uwFiles w \<and> uvTemp U w1 = Some p \<and> uwFiles w' = (uwFiles w)(p := None))"
  using assms
  by (auto simp: EncryptForUpload_def Let_def drop_file_def dest!: finish_failed split: sum.splits prod.splits option.splits if_splits) (metis up_world.select_convs(3) up_world.surjective up_world.update_convs(1))+

text \<open>The envelope of the data key.\<close>

lemma sealed_key_opens:
  assumes "crypto_ok P G" "key_pair P pub priv" "length n = NonceSize" "SealDataKey P e c n key (Some pub) = Inr sealed"
  shows "UnsealDataKey P sealed (Some priv) = Inr key"
  using hybrid_round_trip [of P pub priv n e c key] assms by (simp add: crypto_ok_def SealDataKey_def UnsealDataKey_def)

lemma sealed_some:
  assumes "crypto_ok P G" "SealDataKey P e c n key (Some pub) = Inr sealed"
  shows "sealed \<noteq> []"
proof
  assume "sealed = []"
  then have "pBase P e = []" using assms(2) by (auto simp: SealDataKey_def HybridSeal_def Let_def split: option.splits if_splits)
  then show False using base_length [OF assms(1), of e] by simp
qed


section \<open>What is fetched\<close>

definition fetch_options :: "Fetcher \<Rightarrow> string \<Rightarrow> options" where
  "fetch_options F remotePath = AddPathTokenOptions (ftTokens F) Map.empty (ftNameKey F) (PathTokenPaths remotePath PathTokenSelfAndAncestors)"

definition fetch_request :: "Fetcher \<Rightarrow> string \<Rightarrow> request" where
  "fetch_request F remotePath = ReqDownload ''dl'' (download_options (''/'' @ remotePath) (Some (fetch_options F remotePath)))"

text \<open>The server answered the request, in the state it was made in, with this data and metadata.\<close>

definition served :: "Fetcher \<Rightarrow> string \<Rightarrow> cstate \<Rightarrow> bytes \<Rightarrow> DownloadResult \<Rightarrow> bool" where
  "served F remotePath s ct d \<longleftrightarrow> (\<exists>h r. csHist s = h @ [Sent (fetch_request F remotePath) (Inr r)] \<and> cAnswer (ftClient F) h (fetch_request F remotePath) = Inr r \<and>
     hStatus r = 200 \<and> \<not> hJson r \<and> hBody r = Inr ct \<and> d = parseDownloadMetadata (ftClient F) (hMeta r))"

lemma memory_served:
  assumes "DownloadToMemory (ftClient F) (''/'' @ p) (Some (fetch_options F p)) s = (Inr (ct, d), s')"
  shows "served F p s' ct d"
proof -
  let ?once = "stream_once (ftClient F) ''dl'' (download_options (''/'' @ p) (Some (fetch_options F p))) memory_sink"
  have run: "withRetry (ftClient F) ?once retryDelays s = (Inr (d, ct), s')"
    using assms by (auto simp: DownloadToMemory_def streamDownload_def split: sum.splits prod.splits)
  have once: "sends (\<lambda>r. True) s0 s1" if "?once s0 = (Inl x, s1)" for s0 x s1
    using stream_once_requests [OF memory_sink_quiet, of "ftClient F" "''dl''" "download_options (''/'' @ p) (Some (fetch_options F p))" s0] that
    by (auto simp: sends_def list_all_iff)
  have "case withRetry (ftClient F) ?once retryDelays s of (Inl e, s') \<Rightarrow> sends (\<lambda>r. True) s s' | (Inr r, s') \<Rightarrow> \<exists>s0. sends (\<lambda>r. True) s s0 \<and> ?once s0 = (Inr r, s')"
    by (rule sending.withRetry_outcome) (rule once)
  then obtain s0 where "?once s0 = (Inr (d, ct), s')" unfolding run by auto
  then show ?thesis
    by (auto simp: served_def fetch_request_def stream_once_def send_def memory_sink_def Let_def split: sum.splits prod.splits if_splits)
qed

lemma attempts_served: "fetch_attempts F p (fetch_options F p) as s = (Inr (Some (ct, d)), s') \<Longrightarrow> served F p s' ct d"
  by (induction as arbitrary: s) (auto simp: Let_def dest: memory_served [simplified] split: sum.splits prod.splits if_splits bool.splits)

lemma open_run:
  assumes "open_fetched F p ct d pns = (Inr pt, pns')"
  obtains sealed key meta where "drE2EE d" "b64_decode (drSealedKey d) = Some sealed" "UnsealDataKey (pvPrims (ftPins F)) sealed (ftPrivateKey F) = Inr key"
    "parse_meta F d = Inr meta" "VerifyDownloadIntegrityWithSigningKey (ftPins F) (Some ct) (Some d) (ftSigningKey F) pns = (None, pns')"
    "decryptReader (pvPrims (ftPins F)) ct key meta = Inr pt"
  using assms by (auto simp: open_fetched_def RequireEncryptedDownload_def Let_def split: if_splits option.splits sum.splits prod.splits)


section \<open>There and back\<close>

text \<open>The metadata survives its encoding as JSON, which is never empty.\<close>

definition json_ok :: "up_env \<Rightarrow> Fetcher \<Rightarrow> bool" where
  "json_ok U F \<longleftrightarrow> (\<forall>m. jEncMeta F (jWireMeta U m) = Some m \<and> jWireMeta U m \<noteq> [])"

text \<open>The server keeps what it was given: when it answers the request with a file, it is this one.\<close>

definition keeps :: "Fetcher \<Rightarrow> string \<Rightarrow> bytes \<Rightarrow> UploadArtifacts \<Rightarrow> UploadSignatures \<Rightarrow> bool" where
  "keeps F p ct a sg \<longleftrightarrow> (\<forall>s ct' d. served F p s ct' d \<longrightarrow> ct' = ct \<and> drE2EE d \<and> drSealedKey d = uaSealedKeyB64 a \<and> drEncryptionMeta d = uaEncMetaB64 a \<and>
     drSignatureEd25519 d = usSignatureEd25519B64 sg \<and> drSignatureMldsa d = usSignatureMldsaB64 sg \<and>
     drSigningPkEd25519 d = usSigningPkEd25519B64 sg \<and> drSigningPkMldsa d = usSigningPkMldsaB64 sg)"

lemma own_signature_passes:
  assumes "signing_pair (pvSig E) sp ss" "DeriveSigningPublic (pvSig E) (Some ss) = Inr sp" "sha_ok (pvPrims E)" "0 < Mldsa44PKSize (pvSig E)"
    "SignFileBytes (pvPrims E) (pvSig E) (Some ct) (Some ss) = Inr (sigEd, sigMl)" "sigMl \<noteq> []"
    "drSignatureEd25519 d = b64_encode sigEd" "drSignatureMldsa d = b64_encode sigMl" "drSigningPkEd25519 d = b64_encode (spkEd25519 sp)" "drSigningPkMldsa d = b64_encode (spkMldsa sp)"
  shows "\<exists>pns'. VerifyDownloadIntegrityWithSigningKey E (Some ct) (Some d) (Some ss) pns = (None, pns')"
proof -
  have sizes: "length (spkEd25519 sp) = Ed25519PKSize" "length (spkMldsa sp) = Mldsa44PKSize (pvSig E)" "valid_signing_private (pvSig E) ss" "length sigEd = Ed25519SigSize"
    using assms(1,3,5) by (auto simp: signing_pair_def SignFileBytes_def hashCiphertext_def signingInput_def split: option.splits if_splits)
  have ver: "VerifyFileSignatures (pvPrims E) (pvSig E) (Some ct) sigEd sigMl (Some sp) = None"
    using file_verifies [OF assms(1,3), of ct] assms(5) by auto
  have own: "deriveSigningPubs (pvSig E) (Some ss) = (spkEd25519 sp, spkMldsa sp)"
    using assms(2) by (auto simp: deriveSigningPubs_def deriveSigningEdPub_def DeriveSigningPublic_def valid_signing_private_def split: if_splits option.splits)
  have ne: "sigEd \<noteq> []" "spkEd25519 sp \<noteq> []" "spkMldsa sp \<noteq> []" using sizes assms(4) by (auto simp: sign_sizes)
  have eta: "\<lparr>spkEd25519 = spkEd25519 sp, spkMldsa = spkMldsa sp\<rparr> = sp" by simp
  have "decode_parts [] (drSignatureEd25519 d) (drSignatureMldsa d) (drSigningPkEd25519 d) (drSigningPkMldsa d) = Inr (sigEd, sigMl, spkEd25519 sp, spkMldsa sp)"
    unfolding assms(7-10) using ne assms(6) by (simp add: decode_parts_def decodeB64Required_def)
  moreover have "\<exists>s1. owner_trust E d (spkEd25519 sp) (spkMldsa sp) (spkEd25519 sp) pns = (Inr NoCommit, s1)"
    using sizes(1) by (simp add: owner_trust_def Let_def)
  ultimately show ?thesis using ver own sizes(1,2) ne(1)
    by (auto simp: VerifyDownloadIntegrityWithSigningKey_def verifyDownloadIntegrity_def verifyOwnerSigsReader_def run_commit_def eta assms(7))
qed

text \<open>A session has encrypted the content and signed the outcome, with the keys that belong to these private keys.\<close>

definition uploaded :: "up_env \<Rightarrow> bytes \<Rightarrow> up_world \<Rightarrow> keys \<Rightarrow> UploadArtifacts \<Rightarrow> UploadSignatures \<Rightarrow> bytes \<Rightarrow> PrivateKeySet \<Rightarrow> SigningPrivateKeySet \<Rightarrow> bool" where
  "uploaded U input w ks a sg ct priv ss \<longleftrightarrow> (\<exists>w' pub k sp ks'.
     EncryptForUpload U (Some input) w = (Inr a, w') \<and> publicKeyLocked (uvV U) (uwKeys w) = (Inr pub, k) \<and> key_pair (kvP (uvV U)) pub priv \<and>
     uwFiles w' (uaEncryptedPath a) = Some ct \<and> SignEncryptedFile (uvV U) (Some ct) ks = (Inr sg, ks') \<and> signingKeysLocked (uvV U) ks = (Inr (sp, ss), ks') \<and>
     signing_pair (kvG (uvV U)) sp ss \<and> DeriveSigningPublic (kvG (uvV U)) (Some ss) = Inr sp)"

text \<open>The environment of an upload: the packages do what is documented, and signatures are not empty.\<close>

definition upload_env_ok :: "up_env \<Rightarrow> bool" where
  "upload_env_ok U \<longleftrightarrow> crypto_ok (kvP (uvV U)) (kvG (uvV U)) \<and> (\<forall>n. rand_ok (kvRand (uvV U) n)) \<and> (\<forall>k m. pHmac (kvP (uvV U)) k m \<noteq> []) \<and> 0 < Mldsa44SigSize (kvG (uvV U))"

text \<open>The same packages on the other side, with these keys.\<close>

definition reads_for :: "up_env \<Rightarrow> Fetcher \<Rightarrow> PrivateKeySet \<Rightarrow> SigningPrivateKeySet \<Rightarrow> bool" where
  "reads_for U F priv ss \<longleftrightarrow> json_ok U F \<and> pvPrims (ftPins F) = kvP (uvV U) \<and> pvSig (ftPins F) = kvG (uvV U) \<and> ftPrivateKey F = Some priv \<and> ftSigningKey F = Some ss"

lemma uploaded_key:
  assumes "upload_env_ok U" "uploaded U input w ks a sg ct priv ss"
  shows "\<exists>sealed meta. uaSealedKeyB64 a = b64_encode sealed \<and> sealed \<noteq> [] \<and> UnsealDataKey (kvP (uvV U)) sealed (Some priv) = Inr (upload_key U w) \<and>
    uaEncMetaB64 a = b64_encode (jWireMeta U meta) \<and> decryptReader (kvP (uvV U)) ct (upload_key U w) meta = Inr input"
proof -
  let ?V = "uvV U" let ?key = "upload_key U w"
  obtain w' pub k where up: "EncryptForUpload U (Some input) w = (Inr a, w')" "publicKeyLocked ?V (uwKeys w) = (Inr pub, k)" "key_pair (kvP ?V) pub priv"
    "uwFiles w' (uaEncryptedPath a) = Some ct" using assms(2) by (auto simp: uploaded_def)
  from upload_run [OF up(1)] obtain k1 meta ct2 sealed tee t pub' where pub: "publicKeyLocked ?V (uwKeys w) = (Inr pub', k1)"
    and enc: "EncryptFile (kvP ?V) (kvRand ?V (ksTick k1) 1 NonceSize) input ?key = Inr (meta, ct2)"
    and own: "SealDataKey (kvP ?V) (kvRand ?V (ksTick k1) 2 32) (kvRand ?V (ksTick k1) 3 32) (kvRand ?V (ksTick k1) 4 NonceSize) ?key (Some pub') = Inr sealed"
    and fin: "finish_upload U (uaEncryptedPath a) ?key meta ct2 sealed tee (kvRand ?V (ksTick k1)) (w\<lparr>uwKeys := ktick k1, uwTee := t\<rparr>) = (Inr a, w')" .
  note f = finish_run [OF fin]
  have len: "length (kvRand ?V n i k) = k" for n i k using assms(1) by (simp add: upload_env_ok_def rand_ok_def)
  have ok: "crypto_ok (kvP ?V) (kvG ?V)" using assms(1) by (simp add: upload_env_ok_def)
  have "ct2 = ct" "pub' = pub" using f(2) up(2,4) pub by simp_all
  moreover have "decryptReader (kvP ?V) ct2 ?key (wire_meta meta) = Inr input"
    using encrypted_opens [of "kvP ?V" "kvRand ?V (ksTick k1) 1 NonceSize" ?key input] assms(1) len enc by (auto simp: upload_env_ok_def crypto_ok_def upload_key_def)
  ultimately show ?thesis using f(3,4) sealed_key_opens [OF ok up(3) len] sealed_some [OF ok] own by blast
qed

lemma uploaded_signature:
  assumes "upload_env_ok U" "uploaded U input w ks a sg ct priv ss" "reads_for U F priv ss" "drSignatureEd25519 d = usSignatureEd25519B64 sg"
    "drSignatureMldsa d = usSignatureMldsaB64 sg" "drSigningPkEd25519 d = usSigningPkEd25519B64 sg" "drSigningPkMldsa d = usSigningPkMldsaB64 sg"
  shows "\<exists>pns'. VerifyDownloadIntegrityWithSigningKey (ftPins F) (Some ct) (Some d) (Some ss) pns = (None, pns')"
proof -
  let ?P = "kvP (uvV U)" let ?G = "kvG (uvV U)"
  obtain sp ks' where s: "SignEncryptedFile (uvV U) (Some ct) ks = (Inr sg, ks')" "signingKeysLocked (uvV U) ks = (Inr (sp, ss), ks')"
    "signing_pair ?G sp ss" "DeriveSigningPublic ?G (Some ss) = Inr sp" using assms(2) by (auto simp: uploaded_def)
  obtain sigEd sigMl where sig: "SignFileBytes ?P ?G (Some ct) (Some ss) = Inr (sigEd, sigMl)" "usSignatureEd25519B64 sg = b64_encode sigEd"
    "usSignatureMldsaB64 sg = b64_encode sigMl" "usSigningPkEd25519B64 sg = b64_encode (spkEd25519 sp)" "usSigningPkMldsaB64 sg = b64_encode (spkMldsa sp)"
    using s(1,2) by (auto simp: SignEncryptedFile_def split: sum.splits prod.splits)
  obtain inp where "gMlSign ?G (sskMldsa ss) inp = Some sigMl" using sig(1) by (auto simp: SignFileBytes_def split: option.splits if_splits sum.splits)
  then have "length sigMl = Mldsa44SigSize ?G" using s(3) unfolding signing_pair_def by (metis option.inject)
  then have "sigMl \<noteq> []" using assms(1) by (auto simp: upload_env_ok_def)
  with own_signature_passes [of "ftPins F" sp ss ct sigEd sigMl d pns] show ?thesis
    using assms s sig by (auto simp: upload_env_ok_def crypto_ok_def sig_ok_def reads_for_def)
qed

lemma uploaded_opens:
  assumes "upload_env_ok U" "uploaded U input w ks a sg ct priv ss" "reads_for U F priv ss" "drE2EE d" "drSealedKey d = uaSealedKeyB64 a" "drEncryptionMeta d = uaEncMetaB64 a"
    "drSignatureEd25519 d = usSignatureEd25519B64 sg" "drSignatureMldsa d = usSignatureMldsaB64 sg" "drSigningPkEd25519 d = usSigningPkEd25519B64 sg" "drSigningPkMldsa d = usSigningPkMldsaB64 sg"
  shows "\<exists>pns'. open_fetched F p ct d pns = (Inr input, pns')"
proof -
  obtain sealed meta where k: "uaSealedKeyB64 a = b64_encode sealed" "sealed \<noteq> []" "UnsealDataKey (kvP (uvV U)) sealed (Some priv) = Inr (upload_key U w)"
    "uaEncMetaB64 a = b64_encode (jWireMeta U meta)" "decryptReader (kvP (uvV U)) ct (upload_key U w) meta = Inr input" using uploaded_key [OF assms(1,2)] by blast
  have "parse_meta F d = Inr meta" using assms(3) by (simp add: parse_meta_def assms(6) k(4) reads_for_def json_ok_def)
  moreover obtain pns' where "VerifyDownloadIntegrityWithSigningKey (ftPins F) (Some ct) (Some d) (Some ss) pns = (None, pns')"
    using uploaded_signature [OF assms(1-3,7-10)] by blast
  ultimately show ?thesis using assms(3-5) k by (simp add: open_fetched_def RequireEncryptedDownload_def reads_for_def Let_def)
qed

text \<open>
  C1: a file comes back as it was. A file is encrypted by a session, signed with the account's keys and kept by
  the server. Whoever fetches it with the account's private keys, whatever is pinned and however many attempts the
  server fails or throttles, either never gets a file from the server or gets exactly the content: no step of the
  check, of the envelope or of the decryption refuses what an upload has produced.
\<close>

theorem upload_comes_back:
  assumes "upload_env_ok U" "uploaded U input w ks a sg ct priv ss" "reads_for U F priv ss" "keeps F p ct a sg"
  shows "case fetch_attempts F p (fetch_options F p) [0..downloadAttempts - 1] s of
      (Inr (Some x), s1) \<Rightarrow> \<exists>d pns'. Fetch F p s pns = (Inr (input, d), s1, pns')
    | _ \<Rightarrow> \<exists>e. fst (Fetch F p s pns) = Inl e"
proof (cases "\<exists>ct' d s1. fetch_attempts F p (fetch_options F p) [0..downloadAttempts - 1] s = (Inr (Some (ct', d)), s1)")
  case False
  then show ?thesis by (auto simp: Fetch_def fetch_options_def [symmetric] Let_def split: sum.splits option.splits prod.splits)
next
  case True
  then obtain ct' d s1 where tries: "fetch_attempts F p (fetch_options F p) [0..downloadAttempts - 1] s = (Inr (Some (ct', d)), s1)" by blast
  have d: "ct' = ct" "drE2EE d" "drSealedKey d = uaSealedKeyB64 a" "drEncryptionMeta d = uaEncMetaB64 a" "drSignatureEd25519 d = usSignatureEd25519B64 sg"
    "drSignatureMldsa d = usSignatureMldsaB64 sg" "drSigningPkEd25519 d = usSigningPkEd25519B64 sg" "drSigningPkMldsa d = usSigningPkMldsaB64 sg"
    using attempts_served [OF tries] assms(4) unfolding keeps_def by blast+
  obtain pns' where "open_fetched F p ct d pns = (Inr input, pns')" using uploaded_opens [OF assms(1-3) d(2-8)] by blast
  with tries show ?thesis by (simp add: Fetch_def fetch_options_def [symmetric] d(1))
qed

end
