(* ===== verification/SessionLaws.thy ===== *)
theory SessionLaws
  imports KeyLaws
begin

text \<open>
  The session over its whole life: whatever is asked of it in whatever order, its keys have the right shape and
  belong together, and one that was given upload-only keys never comes to hold a decryption key.
\<close>

section \<open>Operations\<close>

datatype key_op =
  KKeyPair
| KPublicKey
| KSigningKeys
| KSigningIfAvailable
| KOwnSigningPubs
| KNameKey
| KParentKey
| KFromAgent
| KClear
| KSupply "bytes option"
| KBackground "BackgroundKeyMaterial option"
| KImport string "PrivateKeySet option"
| KDecryptName string
| KNameFields options string string
| KParentFields options "string list"
| KTokens options "string list" PathTokenDepth
| KSign "bytes option"

definition key_exec :: "key_env \<Rightarrow> key_op \<Rightarrow> keys \<Rightarrow> keys" where
  "key_exec V op s =
     (case op of
        KKeyPair \<Rightarrow> snd (keyPairLocked V s)
      | KPublicKey \<Rightarrow> snd (publicKeyLocked V s)
      | KSigningKeys \<Rightarrow> snd (signingKeysLocked V s)
      | KSigningIfAvailable \<Rightarrow> snd (signingKeysIfAvailableLocked V s)
      | KOwnSigningPubs \<Rightarrow> snd (resolveOwnSigningPubsLocked V s)
      | KNameKey \<Rightarrow> snd (nameKeyLocked V s)
      | KParentKey \<Rightarrow> snd (parentKeyLocked V s)
      | KFromAgent \<Rightarrow> snd (ensureKeysFromAgentLocked V s)
      | KClear \<Rightarrow> ClearCachedKey s
      | KSupply pw \<Rightarrow> SetSuppliedPassword pw s
      | KBackground m \<Rightarrow> snd (UnlockBackground m s)
      | KImport x eph \<Rightarrow> snd (ImportDeviceTransferredKeys V x eph s)
      | KDecryptName x \<Rightarrow> snd (DecryptE2EEName V x s)
      | KNameFields opts name full \<Rightarrow> snd (AddE2eeNameFields V opts name full s)
      | KParentFields opts parts \<Rightarrow> snd (AddE2eeNameFieldsForMkParents V opts parts s)
      | KTokens opts paths depth \<Rightarrow> snd (AddPathTokensForAll V opts paths depth s)
      | KSign content \<Rightarrow> snd (SignEncryptedFile V content s))"

text \<open>A relation between sessions that the operations on single fields satisfy holds of every operation and every run.\<close>

locale session_rel =
  fixes V :: key_env and rel :: "keys \<Rightarrow> keys \<Rightarrow> bool" and allowed :: "key_op \<Rightarrow> bool"
  assumes rel_refl: "rel s s"
    and rel_trans: "rel s s1 \<Longrightarrow> rel s1 s2 \<Longrightarrow> rel s s2"
    and rel_tick: "rel s (ktick s)"
    and rel_pair: "rel s (snd (keyPairLocked V s))"
    and rel_public: "rel s (snd (publicKeyLocked V s))"
    and rel_name: "keyPairLocked V s = (Inr (pub, priv), s1) \<Longrightarrow> DeriveNameKey (kvT V) priv = Some k \<Longrightarrow> rel s (s1\<lparr>ksNameKey := Some k\<rparr>)"
    and rel_parent: "keyPairLocked V s = (Inr (pub, priv), s1) \<Longrightarrow> DeriveParentKey (kvT V) priv = Some k \<Longrightarrow> rel s (s1\<lparr>ksParentKey := Some k\<rparr>)"
    and rel_agent: "rel s (snd (ensureKeysFromAgentLocked V s))"
    and rel_clear: "allowed KClear \<Longrightarrow> rel s (ClearCachedKey s)"
    and rel_supply: "rel s (SetSuppliedPassword pw s)"
    and rel_background: "allowed (KBackground m) \<Longrightarrow> rel s (snd (UnlockBackground m s))"
    and rel_import: "allowed (KImport x eph) \<Longrightarrow> rel s (snd (ImportDeviceTransferredKeys V x eph s))"
    and rel_decrypt: "rel s (snd (DecryptE2EEName V x s))"
begin

lemma rel_pair_run: "keyPairLocked V s = (r, s1) \<Longrightarrow> rel s s1"
  using rel_pair [of s] by simp

lemma rel_public_run: "publicKeyLocked V s = (r, s1) \<Longrightarrow> rel s s1"
  using rel_public [of s] by simp

lemma rel_name_key: "rel s (snd (nameKeyLocked V s))"
  by (auto simp: nameKeyLocked_def rel_refl split: option.split sum.split prod.split intro: rel_pair_run rel_name)

lemma rel_parent_key: "rel s (snd (parentKeyLocked V s))"
  by (auto simp: parentKeyLocked_def rel_refl split: option.split sum.split prod.split intro: rel_pair_run rel_parent)

lemma rel_name_run: "nameKeyLocked V s = (r, s1) \<Longrightarrow> rel s s1"
  using rel_name_key [of s] by simp

lemma rel_signing: "rel s (snd (signingKeysLocked V s))" "rel s (snd (signingKeysIfAvailableLocked V s))"
proof -
  show "rel s (snd (signingKeysLocked V s))"
    by (auto simp: signingKeysLocked_def rel_refl split: option.split sum.split prod.split intro: rel_pair_run)
  show "rel s (snd (signingKeysIfAvailableLocked V s))"
    by (auto simp: signingKeysIfAvailableLocked_def rel_refl rel_pair Let_def split: option.split)
qed

lemma rel_fields: "rel s (snd (AddE2eeNameFields V opts name full s))"
proof (cases "hasKeysLocked V s")
  case True
  obtain r1 s1 where p: "publicKeyLocked V s = (r1, s1)" by fastforce
  obtain r2 s2 where n: "nameKeyLocked V s1 = (r2, s2)" by fastforce
  have "rel s s1" "rel s s2" "rel s (ktick s2)" using rel_public_run [OF p] rel_name_run [OF n] rel_tick rel_trans by blast+
  then show ?thesis using True p n by (auto simp: AddE2eeNameFields_def split: sum.split option.split)
qed (simp add: AddE2eeNameFields_def rel_refl)

lemma rel_parent_fields: "rel s (snd (AddE2eeNameFieldsForMkParents V opts parts s))"
proof (cases "hasKeysLocked V s")
  case True
  obtain r1 s1 where p: "publicKeyLocked V s = (r1, s1)" by fastforce
  obtain r2 s2 where n: "nameKeyLocked V s1 = (r2, s2)" by fastforce
  have "rel s s1" "rel s s2" "rel s (ktick s2)" using rel_public_run [OF p] rel_name_run [OF n] rel_tick rel_trans by blast+
  then show ?thesis using True p n by (auto simp: AddE2eeNameFieldsForMkParents_def Let_def split: sum.split)
qed (simp add: AddE2eeNameFieldsForMkParents_def rel_refl)

lemma rel_tokens: "rel s (snd (AddPathTokensForAll V opts paths depth s))"
  by (auto simp: AddPathTokensForAll_def addPathTokensLocked_def computePathTokenMapsLocked_def Let_def rel_refl
      split: sum.split prod.split dest: rel_name_run)

lemma rel_sign: "rel s (snd (SignEncryptedFile V content s))"
proof -
  obtain r s1 where run: "signingKeysLocked V s = (r, s1)" by fastforce
  then have "rel s s1" using rel_signing(1) [of s] by simp
  then show ?thesis using run by (auto simp: SignEncryptedFile_def split: sum.split option.split prod.split)
qed

lemma rel_exec: "allowed op \<Longrightarrow> rel s (key_exec V op s)"
  by (cases op)
     (auto simp: key_exec_def rel_pair rel_public rel_signing rel_name_key rel_parent_key rel_agent rel_clear rel_supply rel_background rel_import rel_decrypt
        rel_fields rel_parent_fields rel_tokens rel_sign resolveOwnSigningPubsLocked_def Let_def rel_refl)

lemma rel_run: "list_all allowed ops \<Longrightarrow> rel s (fold (key_exec V) ops s)"
proof (induction ops arbitrary: s)
  case (Cons op ops)
  then show ?case using rel_exec [of op s] rel_trans by auto
qed (simp add: rel_refl)

end

section \<open>Shapes\<close>

text \<open>What the environment hands in: an agent answers with keys of the right sizes, as its client checks, and the hash of
  the derivations has 32 bytes.\<close>

definition agent_ok :: "AgentKeys \<Rightarrow> bool" where
  "agent_ok a \<longleftrightarrow> length (akPublicKey a) = 32 \<and> length (akPrivateKey a) = 32 \<and> length (akKyberPublicKey a) = KyberPublicKeySize \<and>
     length (akKyberSeed a) = KyberSeedSize \<and> length (akNameKey a) = NameKeySize"

definition key_env_ok :: "key_env \<Rightarrow> bool" where
  "key_env_ok V \<longleftrightarrow> crypto_ok (kvP V) (kvG V) \<and> (\<forall>n a. kvAgent V n = Some a \<longrightarrow> agent_ok a) \<and> (\<forall>k m h. tBlake (kvT V) k m = Some h \<longrightarrow> length h = NameKeySize)"

definition session_ok :: "key_env \<Rightarrow> keys \<Rightarrow> bool" where
  "session_ok V s \<longleftrightarrow>
     (\<forall>p. ksPub s = Some p \<longrightarrow> length (pubX25519 p) = 32 \<and> length (pubKyber p) = KyberPublicKeySize) \<and>
     (\<forall>p. ksPriv s = Some p \<longrightarrow> length (privX25519 p) = 32 \<and> length (privKyber p) = KyberSeedSize) \<and>
     (\<forall>k. ksNameKey s = Some k \<longrightarrow> length k = NameKeySize) \<and> (\<forall>k. ksParentKey s = Some k \<longrightarrow> length k = NameKeySize) \<and>
     (ksSigningPub s = None \<longleftrightarrow> ksSigningPriv s = None) \<and> (\<forall>p. ksSigningPriv s = Some p \<longrightarrow> valid_signing_private (kvG V) p) \<and>
     (\<forall>p. ksSigningPub s = Some p \<longrightarrow> length (spkEd25519 p) = Ed25519PKSize \<and> length (spkMldsa p) = Mldsa44PKSize (kvG V)) \<and>
     (ksBackground s \<longrightarrow> ksPub s \<noteq> None \<and> ksNameKey s \<noteq> None \<and> ksParentKey s \<noteq> None \<and> ksSigningPriv s \<noteq> None)"

definition parsed_background :: "sig_prims \<Rightarrow> key_op \<Rightarrow> bool" where
  "parsed_background G op \<longleftrightarrow> (case op of KBackground (Some m) \<Rightarrow> \<exists>payload. ParseBackgroundKeyTransfer G payload = Inr m | _ \<Rightarrow> True)"

lemma config_pub_ok: "decodePublicKeySet c = Inr p \<Longrightarrow> length (pubX25519 p) = 32 \<and> length (pubKyber p) = KyberPublicKeySize"
  by (auto simp: decodePublicKeySet_def split: option.splits if_splits)

lemma decrypted_ok: "DecryptHybridPrivateKeyWithRawKey P enc k = Inr p \<Longrightarrow> length (privX25519 p) = 32 \<and> length (privKyber p) = KyberSeedSize"
  by (auto simp: DecryptHybridPrivateKeyWithRawKey_def split: option.splits if_splits)

lemma config_signing_ok:
  assumes "signing_from_config V c k = Some (pub, priv)"
  shows "length (spkEd25519 pub) = Ed25519PKSize" "length (spkMldsa pub) = Mldsa44PKSize (kvG V)" "valid_signing_private (kvG V) priv"
  using assms by (auto simp: signing_from_config_def DecryptSigningPrivateKeys_def valid_signing_private_def split: option.splits if_splits sum.splits)

lemma hydrated_ok:
  "session_ok V s \<Longrightarrow> session_ok V (hydrateSigningFromConfigWithPDK V c k s)" "session_ok V s \<Longrightarrow> session_ok V (hydrateSigningFromAgent V a s)"
proof -
  show "session_ok V (hydrateSigningFromConfigWithPDK V c k s)" if "session_ok V s"
    using that config_signing_ok [of V c k] by (auto simp: hydrateSigningFromConfigWithPDK_def session_ok_def split: option.split)
  show "session_ok V (hydrateSigningFromAgent V a s)" if "session_ok V s"
    using that by (auto simp: hydrateSigningFromAgent_def session_ok_def valid_signing_private_def)
qed

lemma updates_ok:
  "session_ok V s \<Longrightarrow> session_ok V (ktick s)" "session_ok V s \<Longrightarrow> session_ok V (s\<lparr>ksSupplied := x\<rparr>)" "session_ok V s \<Longrightarrow> session_ok V (s\<lparr>ksConf := c\<rparr>)"
  "session_ok V s \<Longrightarrow> length (pubX25519 pub) = 32 \<and> length (pubKyber pub) = KyberPublicKeySize \<Longrightarrow> session_ok V (s\<lparr>ksPub := Some pub\<rparr>)"
  "session_ok V s \<Longrightarrow> length (privX25519 priv) = 32 \<and> length (privKyber priv) = KyberSeedSize \<Longrightarrow> session_ok V (s\<lparr>ksPriv := Some priv\<rparr>)"
  "session_ok V s \<Longrightarrow> length k = NameKeySize \<Longrightarrow> session_ok V (s\<lparr>ksNameKey := Some k\<rparr>)"
  "session_ok V s \<Longrightarrow> length k = NameKeySize \<Longrightarrow> session_ok V (s\<lparr>ksParentKey := Some k\<rparr>)"
  by (auto simp: session_ok_def ktick_def)

lemma password_ok: "session_ok V s \<Longrightarrow> readPassword V s = (r, s1) \<Longrightarrow> session_ok V s1"
  by (auto simp: readPassword_def split: option.splits intro: updates_ok)

lemma pair_ok:
  assumes "key_env_ok V" "session_ok V s"
  shows "session_ok V (snd (keyPairLocked V s))"
proof (cases "ksBackground s \<or> \<not> HasEncryptionKeys (cfg_of V s) \<or> (ksPub s \<noteq> None \<and> ksPriv s \<noteq> None) \<or> (\<exists>e. decodePublicKeySet (cfg_of V s) = Inl e)")
  case True
  then show ?thesis using assms(2) by (auto simp: keyPairLocked_def Let_def split: option.split)
next
  case False
  then obtain pub where pub: "decodePublicKeySet (cfg_of V s) = Inr pub" by (cases "decodePublicKeySet (cfg_of V s)") auto
  note shape = config_pub_ok [OF pub]
  have t: "session_ok V (ktick s)" using assms(2) by (rule updates_ok)
  have "session_ok V (snd (unlock_agent V pub a (ktick s)))" if "agentKeys V s = Some a" for a
    using that assms(1) shape by (auto simp: unlock_agent_def Let_def agentKeys_def key_env_ok_def agent_ok_def intro!: hydrated_ok updates_ok t)
  moreover have "session_ok V (snd (unlock_device V (cfg_of V s) pub (ktick s)))"
    using shape decrypted_ok by (auto simp: unlock_device_def t split: option.split sum.split intro!: hydrated_ok updates_ok assms(2))
  moreover have "session_ok V (snd (unlock_password V (cfg_of V s) pub (ktick s)))"
    using shape decrypted_ok password_ok [OF t]
    by (auto simp: unlock_password_def t Let_def split: option.split sum.split prod.split intro!: hydrated_ok updates_ok)
  ultimately show ?thesis using False pub
    by (auto simp: keyPairLocked_def Let_def split: option.split prod.split)
qed

definition typed_rel :: "key_env \<Rightarrow> keys \<Rightarrow> keys \<Rightarrow> bool" where
  "typed_rel V s s' \<longleftrightarrow> (key_env_ok V \<longrightarrow> session_ok V s \<longrightarrow> session_ok V s')"

lemma derived_ok:
  assumes "key_env_ok V"
  shows "DeriveNameKey (kvT V) p = Some k \<Longrightarrow> length k = NameKeySize" "DeriveParentKey (kvT V) p = Some k \<Longrightarrow> length k = NameKeySize"
  using assms by (auto simp: key_env_ok_def DeriveNameKey_def DeriveParentKey_def)

lemma signing_sizes:
  assumes "key_env_ok V" "DeriveSigningPublic (kvG V) (Some ss) = Inr sp"
  shows "valid_signing_private (kvG V) ss" "length (spkEd25519 sp) = Ed25519PKSize" "length (spkMldsa sp) = Mldsa44PKSize (kvG V)"
proof -
  have "signing_sized (kvG V) sp ss" using assms derived_sized by (auto simp: key_env_ok_def)
  then show "valid_signing_private (kvG V) ss" "length (spkEd25519 sp) = Ed25519PKSize" "length (spkMldsa sp) = Mldsa44PKSize (kvG V)"
    by (simp_all add: signing_sized_def)
qed

lemma background_ok:
  assumes "key_env_ok V" "session_ok V s" "parsed_background (kvG V) (KBackground m)"
  shows "session_ok V (snd (UnlockBackground m s))"
proof (cases m)
  case (Some b)
  then obtain payload where "ParseBackgroundKeyTransfer (kvG V) payload = Inr b" using assms(3) by (auto simp: parsed_background_def)
  from background_parts [OF this] obtain sp ss pub where b: "bgSigningPriv b = Some ss" "bgSigningPub b = Some sp"
    "DeriveSigningPublic (kvG V) (Some ss) = Inr sp" "bgPub b = Some pub" "length (pubX25519 pub) = 32" "length (pubKyber pub) = KyberPublicKeySize"
    "length (bgNameKey b) = NameKeySize" "length (bgParentKey b) = NameKeySize" by blast
  then show ?thesis using assms(2) Some signing_sizes [OF assms(1) b(3)] by (simp add: UnlockBackground_def session_ok_def)
qed (use assms(2) in \<open>simp add: UnlockBackground_def\<close>)

lemma import_ok:
  assumes "key_env_ok V" "session_ok V s"
  shows "session_ok V (snd (ImportDeviceTransferredKeys V x eph s))"
proof (cases "fst (ImportDeviceTransferredKeys V x eph s)")
  case None
  then obtain s' where run: "ImportDeviceTransferredKeys V x eph s = (None, s')" by (metis prod.collapse)
  from import_run [OF run] obtain payload priv ss pub sp c2 where
    k: "ParseDeviceKeyTransfer (kvG V) payload = Inr (priv, ss)" "DeriveHybridPublic (kvP V) (kvG V) (Some priv) = Inr pub" "DeriveSigningPublic (kvG V) (Some ss) = Inr sp"
    and s': "s' = (ktick s)\<lparr>ksConf := c2, ksPub := Some pub, ksPriv := Some priv, ksSigningPub := Some sp, ksSigningPriv := Some ss\<rparr>" by metis
  have "crypto_ok (kvP V) (kvG V)" using assms(1) by (simp add: key_env_ok_def)
  note pair = derived_pair [OF this parsed_sizes(1) [OF k(1)] k(2)]
  show ?thesis using assms(2) pair parsed_sizes [OF k(1)] signing_sizes [OF assms(1) k(3)] unfolding run s'
    by (simp add: session_ok_def ktick_def key_pair_def)
next
  case (Some e)
  then show ?thesis using assms(2)
    by (auto simp: ImportDeviceTransferredKeys_def Let_def split: option.splits sum.splits prod.splits bool.splits intro: updates_ok)
qed

lemma decrypt_name_ok:
  assumes "key_env_ok V" "session_ok V s"
  shows "session_ok V (snd (DecryptE2EEName V x s))"
proof -
  have agent: "agent_ok a" if "agentKeys V s = Some a" for a using assms(1) that by (auto simp: key_env_ok_def agentKeys_def)
  show ?thesis using assms(2) agent
    by (auto simp: DecryptE2EEName_def Let_def session_ok_def agent_ok_def ktick_def split: option.splits)
qed

lemma from_agent_ok:
  assumes "key_env_ok V" "session_ok V s"
  shows "session_ok V (snd (ensureKeysFromAgentLocked V s))"
proof (cases "agentKeys V s")
  case (Some a)
  then have "agent_ok a" using assms(1) by (auto simp: key_env_ok_def agentKeys_def)
  then have "session_ok V ((ktick s)\<lparr>ksPriv := Some \<lparr>privX25519 = akPrivateKey a, privKyber = akKyberSeed a\<rparr>,
      ksPub := (case ksPub s of None \<Rightarrow> Some \<lparr>pubX25519 = akPublicKey a, pubKyber = akKyberPublicKey a\<rparr> | p \<Rightarrow> p), ksNameKey := Some (akNameKey a)\<rparr>)"
    using assms(2) by (auto simp: session_ok_def agent_ok_def ktick_def split: option.split)
  then show ?thesis using Some assms(2) hydrated_ok(2) by (auto simp: ensureKeysFromAgentLocked_def)
qed (use assms(2) updates_ok in \<open>auto simp: ensureKeysFromAgentLocked_def\<close>)

interpretation types: session_rel V "typed_rel V" "parsed_background (kvG V)" for V
proof
  show "typed_rel V s (s1\<lparr>ksNameKey := Some k\<rparr>)" if "keyPairLocked V s = (Inr (pub, priv), s1)" "DeriveNameKey (kvT V) priv = Some k" for s pub priv s1 k
    using pair_ok [of V s] that derived_ok [of V] updates_ok(6) by (auto simp: typed_rel_def)
  show "typed_rel V s (s1\<lparr>ksParentKey := Some k\<rparr>)" if "keyPairLocked V s = (Inr (pub, priv), s1)" "DeriveParentKey (kvT V) priv = Some k" for s pub priv s1 k
    using pair_ok [of V s] that derived_ok [of V] updates_ok(7) by (auto simp: typed_rel_def)
  show "typed_rel V s (snd (publicKeyLocked V s))" for s
    using config_pub_ok updates_ok(4) by (auto simp: typed_rel_def publicKeyLocked_def Let_def split: option.split sum.split)
  show "typed_rel V s (ClearCachedKey s)" for s by (simp add: typed_rel_def session_ok_def ClearCachedKey_def)
qed (auto simp: typed_rel_def pair_ok updates_ok background_ok import_ok decrypt_name_ok from_agent_ok SetSuppliedPassword_def)

text \<open>
  C12: a session is well typed for all its life. Whatever is asked of it, with whatever configuration, agent and user
  input: every key it holds has its size, the signing keys are there as a pair or not at all, and in background mode
  everything an upload needs is there.
\<close>

theorem session_well_typed:
  assumes "key_env_ok V" "session_ok V s" "list_all (parsed_background (kvG V)) ops"
  shows "session_ok V (fold (key_exec V) ops s)"
  using types.rel_run [OF assms(3), of s] assms(1,2) by (simp add: typed_rel_def)

section \<open>Upload-only sessions\<close>

definition upload_only_rel :: "key_env \<Rightarrow> keys \<Rightarrow> keys \<Rightarrow> bool" where
  "upload_only_rel V s s' \<longleftrightarrow> ((\<forall>n. kvAgent V n = None) \<and> ksBackground s \<and> ksPriv s = None \<and> ksPub s \<noteq> None \<and> ksNameKey s \<noteq> None \<and> ksParentKey s \<noteq> None \<and>
     ksSigningPub s \<noteq> None \<and> ksSigningPriv s \<noteq> None \<longrightarrow>
     ksBackground s' \<and> ksPriv s' = None \<and> ksPub s' = ksPub s \<and> ksNameKey s' = ksNameKey s \<and> ksParentKey s' = ksParentKey s \<and>
     ksSigningPub s' = ksSigningPub s \<and> ksSigningPriv s' = ksSigningPriv s)"

definition stays_background :: "key_op \<Rightarrow> bool" where
  "stays_background op \<longleftrightarrow> (case op of KClear \<Rightarrow> False | KBackground m \<Rightarrow> False | KImport x e \<Rightarrow> False | _ \<Rightarrow> True)"

interpretation upload_only: session_rel V "upload_only_rel V" stays_background for V
proof
  show "upload_only_rel V s s2" if "upload_only_rel V s s1" "upload_only_rel V s1 s2" for s s1 s2
    using that unfolding upload_only_rel_def by metis
qed (auto simp: upload_only_rel_def keyPairLocked_def publicKeyLocked_def ensureKeysFromAgentLocked_def DecryptE2EEName_def SetSuppliedPassword_def ktick_def
      stays_background_def agentKeys_def Let_def split: option.splits)


section \<open>Derived keys\<close>

text \<open>The derived keys a session remembers are those of the private key it holds.\<close>

definition keys_fit :: "key_env \<Rightarrow> keys \<Rightarrow> bool" where
  "keys_fit V s \<longleftrightarrow> \<not> ksBackground s \<and> (ksPriv s \<noteq> None \<longrightarrow> ksPub s \<noteq> None) \<and>
     (case ksPriv s of
        None \<Rightarrow> ksNameKey s = None \<and> ksParentKey s = None
      | Some p \<Rightarrow> (\<forall>k. ksNameKey s = Some k \<longrightarrow> DeriveNameKey (kvT V) p = Some k) \<and> (\<forall>k. ksParentKey s = Some k \<longrightarrow> DeriveParentKey (kvT V) p = Some k))"

definition agent_fits :: "key_env \<Rightarrow> bool" where
  "agent_fits V \<longleftrightarrow> (\<forall>n a. kvAgent V n = Some a \<longrightarrow> DeriveNameKey (kvT V) \<lparr>privX25519 = akPrivateKey a, privKyber = akKyberSeed a\<rparr> = Some (akNameKey a))"

definition fits_rel :: "key_env \<Rightarrow> keys \<Rightarrow> keys \<Rightarrow> bool" where
  "fits_rel V s s' \<longleftrightarrow> (agent_fits V \<longrightarrow> keys_fit V s \<longrightarrow> keys_fit V s')"

definition own_keys_only :: "key_op \<Rightarrow> bool" where
  "own_keys_only op \<longleftrightarrow> (case op of KBackground m \<Rightarrow> False | KImport x e \<Rightarrow> False | _ \<Rightarrow> True)"

lemma fits_fields:
  assumes "ksBackground s' = ksBackground s" "ksPriv s' = ksPriv s" "ksPub s' = ksPub s" "ksNameKey s' = ksNameKey s" "ksParentKey s' = ksParentKey s"
  shows "keys_fit V s' = keys_fit V s"
  unfolding keys_fit_def assms ..

lemma hydrated_fields:
  "keys_fit V (hydrateSigningFromConfigWithPDK V c k s) = keys_fit V s" "keys_fit V (hydrateSigningFromAgent V a s) = keys_fit V s"
  "keys_fit V (ktick s) = keys_fit V s" "keys_fit V (s\<lparr>ksSupplied := x\<rparr>) = keys_fit V s"
  by (rule fits_fields; simp add: hydrateSigningFromConfigWithPDK_def hydrateSigningFromAgent_def ktick_def split: option.split)+

lemma unlocked_fits:
  assumes "keys_fit V s" "ksPriv s = None"
  shows "keys_fit V (s\<lparr>ksPub := Some pub, ksPriv := Some priv\<rparr>)"
  using assms by (simp add: keys_fit_def)

lemma pair_fits:
  assumes "agent_fits V" "keys_fit V s" "keyPairLocked V s = (r, s1)"
  shows "keys_fit V s1" "r = Inr (pub, priv) \<Longrightarrow> ksPriv s1 = Some priv"
proof -
  have "keys_fit V s1 \<and> (\<forall>pub priv. r = Inr (pub, priv) \<longrightarrow> ksPriv s1 = Some priv)"
  proof (cases "ksPriv s")
    case (Some p)
    then show ?thesis using assms(2,3) by (auto simp: keyPairLocked_def keys_fit_def Let_def split: if_splits option.splits)
  next
    case None
    have read: "keys_fit V s2 \<and> ksPriv s2 = None" if "readPassword V (ktick s) = (x, s2)" for x s2
      using that None assms(2) hydrated_fields(3,4) by (auto simp: readPassword_def ktick_def split: option.splits) (simp_all add: keys_fit_def)
    have hyd: "ksPriv (hydrateSigningFromConfigWithPDK V c k t) = ksPriv t" "ksPriv (hydrateSigningFromAgent V a t) = ksPriv t" for c k t a
      by (simp_all add: hydrateSigningFromConfigWithPDK_def hydrateSigningFromAgent_def split: option.split)
    have t: "keys_fit V (ktick s)" "ksPriv (ktick s) = None" using assms(2) None hydrated_fields(3) by (simp_all add: ktick_def)
    have agent: "keys_fit V ((ktick s)\<lparr>ksPub := Some pub, ksPriv := Some \<lparr>privX25519 = akPrivateKey a, privKyber = akKyberSeed a\<rparr>, ksNameKey := Some (akNameKey a)\<rparr>)"
      if "agentKeys V s = Some a" for a pub
      using that assms(1) t by (auto simp: keys_fit_def agent_fits_def agentKeys_def)
    show ?thesis using assms(2,3) None t
      by (auto simp: keyPairLocked_def unlock_agent_def unlock_device_def unlock_password_def Let_def hydrated_fields hyd agent unlocked_fits
          split: if_splits option.splits sum.splits prod.splits dest!: read)
  qed
  then show "keys_fit V s1" "r = Inr (pub, priv) \<Longrightarrow> ksPriv s1 = Some priv" by auto
qed

interpretation fits: session_rel V "fits_rel V" own_keys_only for V
proof
  show "fits_rel V s (s1\<lparr>ksNameKey := Some k\<rparr>)" if "keyPairLocked V s = (Inr (pub, priv), s1)" "DeriveNameKey (kvT V) priv = Some k" for s pub priv s1 k
    using pair_fits [OF _ _ that(1)] that(2) unfolding fits_rel_def by (auto simp: keys_fit_def)
  show "fits_rel V s (s1\<lparr>ksParentKey := Some k\<rparr>)" if "keyPairLocked V s = (Inr (pub, priv), s1)" "DeriveParentKey (kvT V) priv = Some k" for s pub priv s1 k
    using pair_fits [OF _ _ that(1)] that(2) unfolding fits_rel_def by (auto simp: keys_fit_def)
  show "fits_rel V s (snd (keyPairLocked V s))" for s using pair_fits(1) [of V s] by (cases "keyPairLocked V s") (auto simp: fits_rel_def)
  show "fits_rel V s (snd (publicKeyLocked V s))" for s
    by (auto simp: fits_rel_def publicKeyLocked_def keys_fit_def Let_def split: option.splits sum.split)
  show "fits_rel V s (snd (ensureKeysFromAgentLocked V s))" for s
    by (auto simp: fits_rel_def ensureKeysFromAgentLocked_def hydrated_fields agent_fits_def agentKeys_def split: option.splits)
       (auto simp: keys_fit_def ktick_def)
  show "fits_rel V s (snd (DecryptE2EEName V x s))" for s x
    by (auto simp: fits_rel_def DecryptE2EEName_def hydrated_fields agent_fits_def agentKeys_def Let_def split: option.splits)
       (auto simp: keys_fit_def ktick_def)
  show "fits_rel V s (ClearCachedKey s)" for s by (simp add: fits_rel_def ClearCachedKey_def keys_fit_def)
qed (auto simp: fits_rel_def hydrated_fields SetSuppliedPassword_def own_keys_only_def)


text \<open>Keys handed over by another device replace the key pair but not the keys derived from the former one.\<close>

lemma import_keeps_derived_keys:
  assumes "ImportDeviceTransferredKeys V x eph s = (None, s')"
  shows "ksNameKey s' = ksNameKey s" "ksParentKey s' = ksParentKey s" "ksBackground s' = ksBackground s"
proof -
  from import_run [OF assms] obtain pub priv sp ss c2 where
    "s' = (ktick s)\<lparr>ksConf := c2, ksPub := Some pub, ksPriv := Some priv, ksSigningPub := Some sp, ksSigningPriv := Some ss\<rparr>" by metis
  then show "ksNameKey s' = ksNameKey s" "ksParentKey s' = ksParentKey s" "ksBackground s' = ksBackground s" by (simp_all add: ktick_def)
qed

end
