(* ===== verification/SessionExamples.thy ===== *)
theory SessionExamples
  imports SessionLaws
begin

text \<open>
  The laws of the session's keys at concrete inputs. The packages are instantiated by functions that satisfy what is
  documented of them.
\<close>

section \<open>Packages and environment\<close>

definition ex_prims :: prims where
  "ex_prims = toy_prims\<lparr>pEncap := (\<lambda>pk c. Some (replicate 32 0, replicate KyberCiphertextSize 0)), pDecap := (\<lambda>sk ct. Some (replicate 32 0)), pHmac := (\<lambda>k m. [0])\<rparr>"

definition ex_sig :: sig_prims where
  "ex_sig = toy_sig\<lparr>gMlPublic := (\<lambda>sk. if length sk = 1 then Some sk else None)\<rparr>"

definition ex_tokens :: token_env where
  "ex_tokens = \<lparr>tNFC = id, tCasesLower = id, tUniLower = id, tBlake = (\<lambda>k m. Some (replicate 32 1)), tMarshal = (\<lambda>x. [])\<rparr>"

definition ex_env :: key_env where
  "ex_env = \<lparr>kvP = ex_prims, kvG = ex_sig, kvT = ex_tokens, kvC = toy_conf_env, kvAgent = (\<lambda>n. None), kvPrompt = (\<lambda>n. Inr None),
     kvRand = (\<lambda>n i k. replicate k 7), jSegments = (\<lambda>x. [])\<rparr>"

definition ex_keys :: keys where
  "ex_keys = \<lparr>ksTick = 0, ksConf = toy_conf, ksSupplied = None, ksPub = None, ksPriv = None, ksNameKey = None, ksParentKey = None, ksBackground = False,
     ksSigningPub = None, ksSigningPriv = None\<rparr>"

lemma ex_fields [simp]:
  "kvP ex_env = ex_prims" "kvG ex_env = ex_sig" "kvT ex_env = ex_tokens" "kvC ex_env = toy_conf_env" "kvAgent ex_env n = None" "kvRand ex_env n i k = replicate k 7"
  by (simp_all add: ex_env_def)

lemma ex_aead: "aead_ok ex_prims" "dh_ok ex_prims" "hkdf_ok ex_prims" "argon_ok ex_prims" "sha_ok ex_prims"
proof -
  show "aead_ok ex_prims" "hkdf_ok ex_prims" "argon_ok ex_prims" "sha_ok ex_prims"
    by (simp_all add: aead_ok_def hkdf_ok_def argon_ok_def sha_ok_def ex_prims_def toy_prims_def Overhead_def KeySize_def min_def)
  show "dh_ok ex_prims" unfolding dh_ok_def ex_prims_def toy_prims_def by simp
qed

lemma ex_crypto: "crypto_ok ex_prims ex_sig"
proof -
  have "kem_ok ex_prims ex_sig" by (simp add: kem_ok_def ex_prims_def ex_sig_def toy_sig_def KyberPublicKeySize_def)
  moreover have "sig_ok ex_sig"
    by (auto simp: sig_ok_def GenerateSigningKeyPair_def signing_pair_def valid_signing_private_def ex_sig_def toy_sig_def sign_sizes split: if_splits)
  ultimately show ?thesis using ex_aead by (simp add: crypto_ok_def)
qed

lemma ex_rand: "rand_ok (kvRand ex_env n)"
  by (simp add: rand_ok_def)

section \<open>A new account\<close>

text \<open>An account is made whenever the packages generate keys.\<close>

lemma account_made:
  assumes "crypto_ok P G" "rand_ok r" "gKyberPublic G (r 1 KyberSeedSize) = Some ek" "GenerateSigningKeyPair G (r 8 32) (r 9 32) = Inr (sp, ss)"
  shows "\<exists>a. NewAccountKeys P G j r pw = Inr a"
proof -
  let ?pub = "\<lparr>pubX25519 = pBase P (r 0 32), pubKyber = ek\<rparr>" let ?priv = "\<lparr>privX25519 = r 0 32, privKyber = r 1 KyberSeedSize\<rparr>"
  have len: "length (r i n) = n" for i n using assms(2) by (simp add: rand_ok_def)
  have ek: "length ek = KyberPublicKeySize" using assms(1,3) len [of 1 KyberSeedSize] unfolding crypto_ok_def kem_ok_def by blast
  have kdf: "length (DeriveKey P a b c d) = KeySize" for a b c d using assms(1) by (simp add: crypto_ok_def argon_ok_def DeriveKey_def)
  have spair: "signing_pair G sp ss" using assms(1,4) unfolding crypto_ok_def sig_ok_def by blast
  then have valid: "valid_signing_private G ss" by (simp add: signing_pair_def)
  have gen: "GenerateHybridKeyPair P G (r 0 32) (r 1 KyberSeedSize) = Inr (?pub, ?priv)" using assms(3) len ek by (simp add: GenerateHybridKeyPair_def)
  obtain enc where enc: "EncryptHybridPrivateKey P (r 2 16) (r 3 NonceSize) (r 4 NonceSize) (Some ?priv) pw = Inr enc"
    using len kdf by (simp add: EncryptHybridPrivateKey_def wrapWithKey_def newX_ok_def Let_def)
  obtain rc where rc: "EncryptHybridPrivateKeyWithKey P (r 6 NonceSize) (r 7 NonceSize) (Some ?priv) (r 5 KeySize) = Inr rc"
    using len by (simp add: EncryptHybridPrivateKeyWithKey_def wrapWithKey_def newX_ok_def)
  have wrap: "\<exists>ws. EncryptSigningPrivateKeys P G (Some ss) k x y = Inr ws" if "length k = KeySize" for k x y
    using that valid by (simp add: EncryptSigningPrivateKeys_def)
  obtain sigEd sigMl where sig: "SignKeyBundle G \<lparr>kbX25519 = pubX25519 ?pub, kbKyber = pubKyber ?pub, kbEd25519 = spkEd25519 sp, kbMldsa = spkMldsa sp\<rparr> ss = Inr (sigEd, sigMl)"
    using bundle_verifies [OF spair base_length [OF assms(1), of "r 0 32"] ek] by auto
  obtain ws where "EncryptSigningPrivateKeys P G (Some ss) (DeriveKey P pw (encSalt enc) (OpsLimit enc) (MemLimit enc)) (r 10 NonceSize) (r 11 NonceSize) = Inr ws"
    using wrap [OF kdf] by blast
  moreover obtain wr where "EncryptSigningPrivateKeys P G (Some ss) (r 5 KeySize) (r 12 NonceSize) (r 13 NonceSize) = Inr wr" using wrap [OF len] by blast
  ultimately show ?thesis using gen enc rc assms(4) sig
    by (simp add: NewAccountKeys_def Let_def EncryptSigningPrivateKeysWithKey_def KeyBundleSig_def)
qed

theorem account_unlocks_witness:
  "\<exists>a priv s'. NewAccountKeys ex_prims ex_sig (\<lambda>n x y. []) (kvRand ex_env 0) [1] = Inr a \<and>
     keyPairLocked ex_env (ex_keys\<lparr>ksConf := store_account toy_conf_env a toy_conf, ksSupplied := Some [1]\<rparr>) = (Inr (acPublic a, priv), s') \<and>
     key_pair ex_prims (acPublic a) priv"
proof -
  have r: "rand_ok (kvRand ex_env 0)" by (rule ex_rand)
  have "\<exists>a. NewAccountKeys ex_prims ex_sig (\<lambda>n x y. []) (kvRand ex_env 0) [1] = Inr a"
  proof (rule account_made [OF ex_crypto r])
    show "gKyberPublic ex_sig (kvRand ex_env 0 1 KyberSeedSize) = Some (replicate 1184 1)" by (simp add: ex_sig_def toy_sig_def)
    show "GenerateSigningKeyPair ex_sig (kvRand ex_env 0 8 32) (kvRand ex_env 0 9 32) = Inr (toy_spk, toy_ssk)"
      by (simp add: GenerateSigningKeyPair_def ex_sig_def toy_sig_def toy_spk_def toy_ssk_def)
  qed
  then obtain a where a: "NewAccountKeys ex_prims ex_sig (\<lambda>n x y. []) (kvRand ex_env 0) [1] = Inr a" ..
  have c: "cnCfg toy_conf = Some (default_config\<lparr>APIKey := ''k''\<rparr>)" by (simp add: toy_conf_def)
  have "crypto_ok (kvP ex_env) (kvG ex_env)" using ex_crypto by simp
  from account_unlocks [OF this r _ c, where a = a and pw = "[1]" and j = "\<lambda>n x y. []" and s = "ex_keys\<lparr>ksConf := store_account toy_conf_env a toy_conf, ksSupplied := Some [1]\<rparr>"] a
  show ?thesis by (simp add: ex_keys_def) blast
qed

section \<open>Keys handed over\<close>

definition ex_payload :: bytes where
  "ex_payload = DeviceKeyTransferVersion # replicate 32 1 @ replicate 64 2 @ replicate 64 3 @ [4]"

definition ex_eph :: PrivateKeySet where
  "ex_eph = \<lparr>privX25519 = replicate 32 0, privKyber = replicate KyberSeedSize 0\<rparr>"

lemma ex_eph_pair: "key_pair ex_prims \<lparr>pubX25519 = pBase ex_prims (privX25519 ex_eph), pubKyber = replicate 1184 1\<rparr> ex_eph"
  by (rule kem_pair [OF ex_crypto]) (simp_all add: ex_eph_def ex_sig_def toy_sig_def)

definition ex_sealed :: bytes where
  "ex_sealed = (case HybridSeal ex_prims (replicate 32 0) [] (replicate 24 0) ex_payload (Some \<lparr>pubX25519 = pBase ex_prims (privX25519 ex_eph), pubKyber = replicate 1184 1\<rparr>) of
     Inr x \<Rightarrow> x | Inl e \<Rightarrow> [])"

lemma ex_unsealed: "HybridUnseal ex_prims ex_sealed (Some ex_eph) = Inr ex_payload"
  using hybrid_round_trip [OF ex_aead(1-3) ex_eph_pair, of "replicate 24 0" "replicate 32 0" "[]" ex_payload]
  by (auto simp: ex_sealed_def NonceSize_def ex_prims_def toy_prims_def split: sum.splits)

lemma ex_imported: "\<exists>s'. ImportDeviceTransferredKeys ex_env (b64_encode ex_sealed) (Some ex_eph) ex_keys = (None, s')"
proof -
  let ?priv = "\<lparr>privX25519 = replicate 32 1, privKyber = replicate 64 2\<rparr>" let ?ss = "\<lparr>sskEd25519 = replicate 64 3, sskMldsa = [4]\<rparr>"
  have parsed: "ParseDeviceKeyTransfer ex_sig ex_payload = Inr (?priv, ?ss)"
    by (simp add: ParseDeviceKeyTransfer_def ex_payload_def DeviceKeyTransferSize_def sign_sizes KyberSeedSize_def ex_sig_def toy_sig_def)
  obtain pub where pub: "DeriveHybridPublic ex_prims ex_sig (Some ?priv) = Inr pub"
    by (simp add: DeriveHybridPublic_def KyberSeedSize_def ex_sig_def toy_sig_def KyberPublicKeySize_def)
  obtain sp where sp: "DeriveSigningPublic ex_sig (Some ?ss) = Inr sp"
    by (simp add: DeriveSigningPublic_def valid_signing_private_def sign_sizes ex_sig_def toy_sig_def)
  obtain w where w: "EncryptHybridPrivateKeyWithKey ex_prims (replicate NonceSize 7) (replicate NonceSize 7) (Some ?priv) (replicate 32 7) = Inr w"
    by (simp add: EncryptHybridPrivateKeyWithKey_def wrapWithKey_def newX_ok_def KeySize_def KyberSeedSize_def)
  obtain ws where ws: "EncryptSigningPrivateKeys ex_prims ex_sig (Some ?ss) (replicate 32 7) (replicate NonceSize 7) (replicate NonceSize 7) = Inr ws"
    by (simp add: EncryptSigningPrivateKeys_def valid_signing_private_def sign_sizes KeySize_def ex_sig_def toy_sig_def)
  have "length (hex_encode (replicate 32 (7 :: byte))) \<noteq> 0" by simp
  then obtain c1 where st: "storeDeviceKey toy_conf_env (replicate 32 7) toy_conf = (True, c1)"
    unfolding length_0_conv by (simp add: storeDeviceKey_def set_secret_def SetSecret_def toy_conf_env_def)
  have "\<exists>c2. SetDeviceWrappedE2EEKeys toy_conf_env x y z u c1 = (None, c2)" for x y z u
    unfolding SetDeviceWrappedE2EEKeys_def by (rule toy_update_ok)
  then obtain c2 where "SetDeviceWrappedE2EEKeys toy_conf_env (wrapped_texts (pubX25519 pub) (X25519Ciphertext w) (X25519Nonce w)) (wrapped_texts (pubKyber pub) (KyberCiphertext w) (KyberNonce w))
       (wrapped_texts (spkEd25519 sp) (esEd25519Ciphertext ws) (esEd25519Nonce ws)) (wrapped_texts (spkMldsa sp) (esMldsaCiphertext ws) (esMldsaNonce ws)) c1 = (None, c2)" by blast
  moreover have "ksConf ex_keys = toy_conf" by (simp add: ex_keys_def)
  ultimately show ?thesis using ex_unsealed parsed pub sp w ws st by (simp add: ImportDeviceTransferredKeys_def ktick_def Let_def)
qed


section \<open>Sessions\<close>

lemma ex_env_ok: "key_env_ok ex_env"
  using ex_crypto by (simp add: key_env_ok_def ex_tokens_def NameKeySize_def)

theorem session_well_typed_witness: "session_ok ex_env (fold (key_exec ex_env) [KKeyPair, KNameKey, KClear] ex_keys)"
  by (rule session_well_typed [OF ex_env_ok]) (simp_all add: session_ok_def ex_keys_def parsed_background_def)

definition ex_background :: BackgroundKeyMaterial where
  "ex_background = \<lparr>bgNameKey = replicate 32 1, bgParentKey = replicate 32 2, bgSigningPriv = Some toy_ssk, bgSigningPub = Some toy_spk,
     bgPub = Some \<lparr>pubX25519 = replicate 32 1, pubKyber = replicate 1184 1\<rparr>\<rparr>"


definition ex_unlocked :: keys where
  "ex_unlocked = ex_keys\<lparr>ksPub := Some \<lparr>pubX25519 = replicate 32 1, pubKyber = replicate 1184 1\<rparr>, ksPriv := Some ex_eph, ksNameKey := Some (replicate 32 1)\<rparr>"


end
