(* ===== verification/FetchExamples.thy ===== *)
theory FetchExamples
  imports FetchLaws SessionExamples PinExamples "HOL-Library.Countable"
begin

text \<open>
  An upload and its download at concrete inputs: a session of the examples before, a scanner whose keys are known, and
  a server that keeps what it was given.
\<close>

section \<open>The upload\<close>

definition ex_pub :: PublicKeySet where
  "ex_pub = \<lparr>pubX25519 = pBase ex_prims (privX25519 ex_eph), pubKyber = replicate 1184 1\<rparr>"

definition ex_meta_json :: "EncryptionMetadata \<Rightarrow> bytes" where
  "ex_meta_json m = replicate (Suc (to_nat (mVersion m, map unat (mNonce m), mChunkSize m, mChunks m, map of_char (mPlaintextSHA256 m) :: nat list,
     mPlaintextSize m, map of_char (mMetadataMAC m) :: nat list))) 0"

definition ex_meta_parse :: "bytes \<Rightarrow> EncryptionMetadata option" where
  "ex_meta_parse b = (case from_nat (length b - 1) :: int \<times> nat list \<times> int \<times> int \<times> nat list \<times> int \<times> nat list of (v, n, cs, c, h, sz, mac) \<Rightarrow>
     Some \<lparr>mVersion = v, mNonce = map of_nat n, mChunkSize = cs, mChunks = c, mPlaintextSHA256 = map char_of h, mPlaintextSize = sz, mMetadataMAC = map char_of mac\<rparr>)"

lemma ex_json: "ex_meta_parse (ex_meta_json m) = Some m" "ex_meta_json m \<noteq> []"
  by (simp_all add: ex_meta_parse_def ex_meta_json_def comp_def)

definition ex_upload :: up_env where
  "ex_upload = \<lparr>uvV = ex_env, uvE = toy_env, jWireMeta = ex_meta_json, uvTemp = (\<lambda>w. if uwFiles w ''t'' = None then Some ''t'' else None), uvGiveUp = (\<lambda>w. None)\<rparr>"

definition ex_signed :: keys where
  "ex_signed = ex_keys\<lparr>ksPub := Some ex_pub, ksNameKey := Some (replicate 32 1), ksSigningPub := Some toy_spk, ksSigningPriv := Some toy_ssk\<rparr>"

definition ex_world :: up_world where
  "ex_world = \<lparr>uwKeys = ex_signed, uwTee = (toy_world toy_pinned)\<lparr>teeEnclaveKeySet := Some ex_pub\<rparr>, uwFiles = Map.empty\<rparr>"

lemma ex_upload_ok: "upload_env_ok ex_upload"
  using ex_crypto ex_rand by (simp add: upload_env_ok_def ex_upload_def) (simp add: ex_prims_def ex_sig_def toy_sig_def)

lemma ex_seals: "\<exists>x. SealDataKey ex_prims e c n key (Some ex_pub) = Inr x"
  by (simp add: SealDataKey_def HybridSeal_def ex_pub_def ex_prims_def toy_prims_def KyberPublicKeySize_def newX_ok_def deriveHybridKey_def KeySize_def Let_def)

lemma ex_uploaded: "\<exists>a w' ct sg. EncryptForUpload ex_upload (Some [1, 2, 3]) ex_world = (Inr a, w') \<and> uploaded ex_upload [1, 2, 3] ex_world ex_signed a sg ct ex_eph toy_ssk \<and>
  length ct \<le> memory_limit"
proof -
  obtain x where x: "SealDataKey ex_prims (replicate 32 7) (replicate 32 7) (replicate NonceSize 7) (replicate KeySize 7) (Some ex_pub) = Inr x" using ex_seals by blast
  obtain meta ct where enc: "EncryptFile ex_prims (replicate NonceSize 7) [1, 2, 3] (replicate KeySize 7) = Inr (meta, ct)"
    by (auto simp: EncryptFile_def newX_ok_def Let_def)
  have "length ct = 23" using EncryptFile_Inr(2) [OF enc] by (simp add: encrypt_loop.simps ChunkSize_def ex_prims_def toy_prims_def Let_def)
  then have small: "length ct \<le> memory_limit" by (simp add: memory_limit_def)
  have pub: "publicKeyLocked ex_env (uwKeys ex_world) = (Inr ex_pub, ex_signed)" by (simp add: publicKeyLocked_def ex_world_def ex_signed_def)
  have tee: "FetchTeeEnclaveKeySet toy_env (uwTee ex_world) = (Some ex_pub, uwTee ex_world)" by (simp add: FetchTeeEnclaveKeySet_def fetch_begin_def ex_world_def)
  have nk: "nameKeyLocked ex_env (ktick ex_signed) = (Inr (replicate 32 1), ktick ex_signed)" by (simp add: nameKeyLocked_def ktick_def ex_signed_def)
  have "uwFiles ex_world = Map.empty" by (simp add: ex_world_def)
  with x enc pub tee nk obtain a w' where run: "EncryptForUpload ex_upload (Some [1, 2, 3]) ex_world = (Inr a, w')" "uwFiles w' (uaEncryptedPath a) = Some ct"
    by (simp add: EncryptForUpload_def finish_upload_def ex_upload_def Let_def)
  have sign: "signingKeysLocked ex_env ex_signed = (Inr (toy_spk, toy_ssk), ex_signed)" by (simp add: signingKeysLocked_def ex_signed_def)
  have spair: "signing_pair ex_sig toy_spk toy_ssk" "DeriveSigningPublic ex_sig (Some toy_ssk) = Inr toy_spk"
    by (simp_all add: signing_pair_def ex_sig_def toy_sig_def toy_spk_def toy_ssk_def valid_signing_private_def sign_sizes DeriveSigningPublic_def)
  obtain sg where "SignEncryptedFile ex_env (Some ct) ex_signed = (Inr sg, ex_signed)"
    using sign file_verifies [OF spair(1) ex_aead(5), of ct] by (auto simp: SignEncryptedFile_def)
  then have "uploaded ex_upload [1, 2, 3] ex_world ex_signed a sg ct ex_eph toy_ssk"
    using run pub sign spair ex_eph_pair unfolding uploaded_def by (simp add: ex_upload_def ex_pub_def)
  then show ?thesis using run(1) small by blast
qed


section \<open>The download\<close>

definition ex_result :: "UploadArtifacts \<Rightarrow> UploadSignatures \<Rightarrow> DownloadResult" where
  "ex_result a sg = no_metadata\<lparr>drE2EE := True, drSealedKey := uaSealedKeyB64 a, drEncryptionMeta := uaEncMetaB64 a, drSignatureEd25519 := usSignatureEd25519B64 sg,
     drSignatureMldsa := usSignatureMldsaB64 sg, drSigningPkEd25519 := usSigningPkEd25519B64 sg, drSigningPkMldsa := usSigningPkMldsaB64 sg\<rparr>"

definition ex_fetcher :: "bytes \<Rightarrow> DownloadResult \<Rightarrow> Fetcher" where
  "ex_fetcher ct d = \<lparr>ftClient = demo_env\<lparr>cAnswer := (\<lambda>h r. Inr \<lparr>hStatus = 200, hRetryAfter = [], hJson = False, hMeta = ''m'', hPartial = [], hBody = Inr ct\<rparr>), jMeta := (\<lambda>m. Some d)\<rparr>,
     ftPins = toy_env\<lparr>pvPrims := ex_prims, pvSig := ex_sig\<rparr>, ftTokens = ex_tokens, jEncMeta = ex_meta_parse, ftNameKey = replicate 32 1,
     ftPrivateKey = Some ex_eph, ftSigningKey = Some toy_ssk\<rparr>"

lemma ex_reads: "reads_for ex_upload (ex_fetcher ct d) ex_eph toy_ssk"
  by (simp add: reads_for_def json_ok_def ex_json ex_fetcher_def ex_upload_def)

lemma ex_keeps: "keeps (ex_fetcher ct (ex_result a sg)) p ct a sg"
  by (auto simp: keeps_def served_def ex_fetcher_def parseDownloadMetadata_def ex_result_def)

lemma ex_attempt:
  assumes "length ct \<le> memory_limit"
  shows "\<exists>s1. fetch_attempts (ex_fetcher ct d) p opts [0..downloadAttempts - 1] demo_client = (Inr (Some (ct, d)), s1)"
proof -
  have "take (memory_limit + 1) ct = ct" using assms by simp
  then have "\<exists>s1. DownloadToMemory (ftClient (ex_fetcher ct d)) rp (Some opts) demo_client = (Inr (ct, d), s1)" for rp
    using assms by (simp add: DownloadToMemory_def streamDownload_def stream_once_def send_def memory_sink_def ex_fetcher_def parseDownloadMetadata_def retryDelays_def Let_def)
  then obtain s1 where "DownloadToMemory (ftClient (ex_fetcher ct d)) (''/'' @ p) (Some opts) demo_client = (Inr (ct, d), s1)" by blast
  moreover have "[0..downloadAttempts - 1] = 0 # [1..3]" by (simp add: downloadAttempts_def upto_rec1)
  ultimately show ?thesis by simp
qed

theorem upload_comes_back_witness:
  "\<exists>F a sg ct s1 d pns. uploaded ex_upload [1, 2, 3] ex_world ex_signed a sg ct ex_eph toy_ssk \<and> keeps F ''f'' ct a sg \<and>
     Fetch F ''f'' demo_client toy_pinned = (Inr ([1, 2, 3], d), s1, pns)"
proof -
  obtain a sg ct where up: "uploaded ex_upload [1, 2, 3] ex_world ex_signed a sg ct ex_eph toy_ssk" "length ct \<le> memory_limit" using ex_uploaded by blast
  let ?F = "ex_fetcher ct (ex_result a sg)"
  obtain s1 where "fetch_attempts ?F ''f'' (fetch_options ?F ''f'') [0..downloadAttempts - 1] demo_client = (Inr (Some (ct, ex_result a sg)), s1)"
    using ex_attempt [OF up(2)] by blast
  with upload_comes_back [OF ex_upload_ok up(1) ex_reads ex_keeps, where s = demo_client and pns = toy_pinned and p = "''f''"] up(1) ex_keeps show ?thesis by fastforce
qed


end
