(* ===== verification/Agent.thy ===== *)
theory Agent
  imports KeySession
begin

text \<open>
  The key agent: \<open>internal/agent/agent.go\<close>, the conversion of \<open>internal/agentkeys\<close>, the reading of the keys by
  \<open>cmd/agent_serve.go\<close> and \<open>StartAgentForKeys\<close> of \<open>internal/cmdutil/keys.go\<close>.

  The file \<open>agent.json\<close>, the requests and the answers are represented by the records their JSON texts carry; a file that
  is missing, unreadable or not JSON is \<open>None\<close>. The world holds every agent process there is, because a process
  that was asked to stop does so only a moment later. Times are integers, the zero time is 0; the seconds come from a duration, so their product does not overflow.
\<close>

section \<open>Data\<close>

record AgentInfo =
  aiPort :: int
  aiToken :: string
  aiExpires :: int

record AgentRequest =
  aqToken :: string
  aqAction :: string

record SpawnKeys =
  swPub :: string
  swPriv :: string
  swKyberPub :: string
  swKyberSeed :: string
  swNameKey :: string
  swSignPubEd :: string
  swSignPrivEd :: string
  swSignPubMl :: string
  swSignPrivMl :: string

text \<open>An answer: success, the error, and the keys in the same order as the keys handed to a new process.\<close>

record AgentResponse =
  arOK :: bool
  arError :: string
  arKeys :: SpawnKeys

definition no_keys :: SpawnKeys where
  "no_keys = \<lparr>swPub = [], swPriv = [], swKyberPub = [], swKyberSeed = [], swNameKey = [], swSignPubEd = [], swSignPrivEd = [], swSignPubMl = [], swSignPrivMl = []\<rparr>"

definition error_response :: "string \<Rightarrow> AgentResponse" where
  "error_response e = \<lparr>arOK = False, arError = e, arKeys = no_keys\<rparr>"

definition ok_response :: AgentResponse where
  "ok_response = \<lparr>arOK = True, arError = [], arKeys = no_keys\<rparr>"

text \<open>A process: its listener, its token, the keys under the guard, whether its timer is armed, whether a shutdown was asked
  for and has not run yet, and whether the shutdown has run.\<close>

record agent_proc =
  apPort :: int
  apToken :: string
  apKeys :: "AgentKeys option"
  apListening :: bool
  apTimer :: bool
  apStopping :: bool
  apShut :: bool

record agent_world =
  agFile :: "AgentInfo option"
  agProcs :: "agent_proc list"

section \<open>Keys as texts\<close>

definition hex_keys :: "AgentKeys \<Rightarrow> SpawnKeys" where
  "hex_keys k =
     \<lparr>swPub = hex_encode (akPublicKey k), swPriv = hex_encode (akPrivateKey k), swKyberPub = hex_encode (akKyberPublicKey k),
      swKyberSeed = hex_encode (akKyberSeed k), swNameKey = hex_encode (akNameKey k),
      swSignPubEd = hex_encode (akSigningPublicKeyEd25519 k), swSignPrivEd = hex_encode (akSigningPrivateKeyEd25519 k),
      swSignPubMl = hex_encode (akSigningPublicKeyMldsa k), swSignPrivMl = hex_encode (akSigningPrivateKeyMldsa k)\<rparr>"

definition or_nil :: "bytes option \<Rightarrow> bytes" where
  "or_nil x = (case x of None \<Rightarrow> [] | Some b \<Rightarrow> b)"

text \<open>The client of the agent and the new process read keys in the same way: the five encryption keys must be there with
  their sizes, the signing keys may be missing.\<close>

definition parse_keys :: "sig_prims \<Rightarrow> SpawnKeys \<Rightarrow> AgentKeys option" where
  "parse_keys G x =
     (case (DecodeHexKey (swPub x) 32, DecodeHexKey (swPriv x) 32, DecodeHexKey (swKyberPub x) KyberPublicKeySize,
            DecodeHexKey (swKyberSeed x) KyberSeedSize, DecodeHexKey (swNameKey x) NameKeySize) of
        (Some pub, Some priv, Some kyberPub, Some kyberSeed, Some name) \<Rightarrow>
          Some \<lparr>akPublicKey = pub, akPrivateKey = priv, akKyberPublicKey = kyberPub, akKyberSeed = kyberSeed, akNameKey = name,
                akSigningPublicKeyEd25519 = or_nil (DecodeHexKey (swSignPubEd x) Ed25519PKSize),
                akSigningPrivateKeyEd25519 = or_nil (DecodeHexKey (swSignPrivEd x) Ed25519SKSize),
                akSigningPublicKeyMldsa = or_nil (DecodeHexKey (swSignPubMl x) (Mldsa44PKSize G)),
                akSigningPrivateKeyMldsa = or_nil (DecodeHexKey (swSignPrivMl x) (Mldsa44SKSize G))\<rparr>
      | _ \<Rightarrow> None)"

section \<open>The agent file\<close>

definition ReadAgentFile :: "int \<Rightarrow> agent_world \<Rightarrow> AgentInfo option \<times> agent_world" where
  "ReadAgentFile t w =
     (case agFile w of
        None \<Rightarrow> (None, w)
      | Some info \<Rightarrow>
          if aiPort info = 0 \<or> aiToken info = [] then (None, w)
          else if aiExpires info \<noteq> 0 \<and> t > aiExpires info then (None, w\<lparr>agFile := None\<rparr>)
          else (Some info, w))"

section \<open>The process\<close>

text \<open>What starting depends on: the random token, the port of the listener, the time, and whether the file can be written.\<close>

record serve_env =
  svToken :: "bytes option"
  svPort :: int
  svNow :: int
  svWrite :: bool

definition serveListener :: "serve_env \<Rightarrow> AgentKeys \<Rightarrow> int \<Rightarrow> agent_world \<Rightarrow> string option \<times> agent_world" where
  "serveListener S keys ttl w =
     (case svToken S of
        None \<Rightarrow> (Some ''generate token'', w)
      | Some b \<Rightarrow>
          (let token = hex_encode b in
           if \<not> svWrite S then (Some ''write agent file'', w)
           else (None,
                 w\<lparr>agFile := Some \<lparr>aiPort = svPort S, aiToken = token, aiExpires = svNow S + ttl\<rparr>,
                   agProcs := agProcs w @ [\<lparr>apPort = svPort S, apToken = token, apKeys = Some keys, apListening = True,
                     apTimer = True, apStopping = False, apShut = False\<rparr>]\<rparr>)))"

definition guard_response :: "AgentKeys option \<Rightarrow> AgentResponse option" where
  "guard_response g = (case g of None \<Rightarrow> None | Some k \<Rightarrow> Some \<lparr>arOK = True, arError = [], arKeys = hex_keys k\<rparr>)"

text \<open>The shutdown runs once: it closes the listener, removes the file and wipes the keys.\<close>

definition shutdown :: "nat \<Rightarrow> agent_world \<Rightarrow> agent_world" where
  "shutdown i w =
     (let p = agProcs w ! i in
      if apShut p then w
      else w\<lparr>agFile := None, agProcs := (agProcs w)[i := p\<lparr>apListening := False, apKeys := None, apShut := True\<rparr>]\<rparr>)"

text \<open>A request that cannot be decoded is \<open>None\<close>.\<close>

definition handleConn :: "AgentRequest option \<Rightarrow> agent_proc \<Rightarrow> AgentResponse \<times> agent_proc" where
  "handleConn req p =
     (case req of
        None \<Rightarrow> (error_response ''invalid request'', p)
      | Some q \<Rightarrow>
          if aqToken q \<noteq> apToken p then (error_response ''unauthorized'', p)
          else if aqAction q = ''ping'' then (ok_response, p)
          else if aqAction q = ''keys'' then
            (case guard_response (apKeys p) of None \<Rightarrow> (error_response ''agent expired'', p) | Some r \<Rightarrow> (r, p))
          else if aqAction q = ''shutdown'' then (ok_response, p\<lparr>apTimer := False, apStopping := True\<rparr>)
          else (error_response ''unknown action'', p))"

section \<open>The client\<close>

text \<open>The connection: whether it comes about, whether the request goes out, and whether an answer comes back.\<close>

record net_env =
  ntDial :: bool
  ntSent :: bool
  ntAnswered :: bool

definition listener_at :: "int \<Rightarrow> agent_world \<Rightarrow> nat option" where
  "listener_at port w = List.find (\<lambda>i. apListening (agProcs w ! i) \<and> apPort (agProcs w ! i) = port) [0..<length (agProcs w)]"

definition sendRequest :: "net_env \<Rightarrow> AgentInfo \<Rightarrow> string \<Rightarrow> agent_world \<Rightarrow> AgentResponse option \<times> agent_world" where
  "sendRequest N info action w =
     (case listener_at (aiPort info) w of
        None \<Rightarrow> (None, w\<lparr>agFile := None\<rparr>)
      | Some i \<Rightarrow>
          if \<not> ntDial N then (None, w\<lparr>agFile := None\<rparr>)
          else if \<not> ntSent N then (None, w)
          else (case handleConn (Some \<lparr>aqToken = aiToken info, aqAction = action\<rparr>) (agProcs w ! i) of
                  (r, p) \<Rightarrow> (if ntAnswered N then Some r else None, w\<lparr>agProcs := (agProcs w)[i := p]\<rparr>)))"

definition RequestKeys :: "sig_prims \<Rightarrow> net_env \<Rightarrow> int \<Rightarrow> agent_world \<Rightarrow> AgentKeys option \<times> agent_world" where
  "RequestKeys G N t w =
     (case ReadAgentFile t w of
        (None, w1) \<Rightarrow> (None, w1)
      | (Some info, w1) \<Rightarrow>
          (case sendRequest N info ''keys'' w1 of
             (None, w2) \<Rightarrow> (None, w2)
           | (Some r, w2) \<Rightarrow> (if \<not> arOK r then None else parse_keys G (arKeys r), w2)))"

definition Ping :: "net_env \<Rightarrow> int \<Rightarrow> agent_world \<Rightarrow> bool \<times> agent_world" where
  "Ping N t w =
     (case ReadAgentFile t w of
        (None, w1) \<Rightarrow> (False, w1)
      | (Some info, w1) \<Rightarrow>
          (case sendRequest N info ''ping'' w1 of (None, w2) \<Rightarrow> (False, w2) | (Some r, w2) \<Rightarrow> (arOK r, w2)))"

definition Shutdown :: "net_env \<Rightarrow> int \<Rightarrow> agent_world \<Rightarrow> bool \<times> agent_world" where
  "Shutdown N t w =
     (case ReadAgentFile t w of
        (None, w1) \<Rightarrow> (True, w1)
      | (Some info, w1) \<Rightarrow>
          (case sendRequest N info ''shutdown'' w1 of (r, w2) \<Rightarrow> (r \<noteq> None, w2\<lparr>agFile := None\<rparr>)))"

section \<open>Starting an agent\<close>

definition spawn_keys :: "PublicKeySet \<Rightarrow> PrivateKeySet \<Rightarrow> bytes \<Rightarrow> SigningPublicKeySet option \<Rightarrow> SigningPrivateKeySet option \<Rightarrow> SpawnKeys" where
  "spawn_keys pub priv nameKey signPub signPriv =
     hex_keys \<lparr>akPublicKey = pubX25519 pub, akPrivateKey = privX25519 priv, akKyberPublicKey = pubKyber pub, akKyberSeed = privKyber priv, akNameKey = nameKey,
       akSigningPublicKeyEd25519 = (case (signPub, signPriv) of (Some p, Some s) \<Rightarrow> spkEd25519 p | _ \<Rightarrow> []),
       akSigningPrivateKeyEd25519 = (case (signPub, signPriv) of (Some p, Some s) \<Rightarrow> sskEd25519 s | _ \<Rightarrow> []),
       akSigningPublicKeyMldsa = (case (signPub, signPriv) of (Some p, Some s) \<Rightarrow> spkMldsa p | _ \<Rightarrow> []),
       akSigningPrivateKeyMldsa = (case (signPub, signPriv) of (Some p, Some s) \<Rightarrow> sskMldsa s | _ \<Rightarrow> [])\<rparr>"

text \<open>The new process reads the keys from its standard input; without them it exits.\<close>

definition agent_serve :: "sig_prims \<Rightarrow> serve_env \<Rightarrow> SpawnKeys \<Rightarrow> int \<Rightarrow> agent_world \<Rightarrow> agent_world" where
  "agent_serve G S spawn ttlSec w =
     (case parse_keys G spawn of
        None \<Rightarrow> w
      | Some keys \<Rightarrow> (let ttl = int64 (ttlSec * 1000000000) in snd (serveListener S keys (if ttl \<le> 0 then 3600 * 1000000000 else ttl) w)))"

section \<open>Steps\<close>

text \<open>Everything that can happen: a process is started, anyone sends anything to any process, a timer fires, a shutdown
  that was asked for runs, a client reads, asks or stops the agent.\<close>

inductive agent_step :: "sig_prims \<Rightarrow> agent_world \<Rightarrow> agent_world \<Rightarrow> bool" for G where
  step_serve: "agent_step G w (agent_serve G S spawn ttlSec w)"
| step_handle: "i < length (agProcs w) \<Longrightarrow> agent_step G w (w\<lparr>agProcs := (agProcs w)[i := snd (handleConn req (agProcs w ! i))]\<rparr>)"
| step_timer: "i < length (agProcs w) \<Longrightarrow> apTimer (agProcs w ! i) \<Longrightarrow> agent_step G w (shutdown i w)"
| step_delayed: "i < length (agProcs w) \<Longrightarrow> apStopping (agProcs w ! i) \<Longrightarrow> agent_step G w (shutdown i w)"
| step_request: "agent_step G w (snd (RequestKeys G N t w))"
| step_ping: "agent_step G w (snd (Ping N t w))"
| step_stop: "agent_step G w (snd (Shutdown N t w))"

inductive agent_reach :: "sig_prims \<Rightarrow> agent_world \<Rightarrow> agent_world \<Rightarrow> bool" for G where
  agent_start: "agent_reach G w w"
| agent_next: "agent_reach G w w1 \<Longrightarrow> agent_step G w1 w2 \<Longrightarrow> agent_reach G w w2"

end
