(* ===== verification/AgentLaws.thy ===== *)
theory AgentLaws
  imports Agent SessionLaws
begin

text \<open>
  The laws of the key agent: only a request with the token of a process that has not shut down gets keys, and only
  the keys the process was started with; no process keeps them without a timer or a pending shutdown; and the keys of a
  session come back from its agent as they were.
\<close>

section \<open>Steps keep processes\<close>

text \<open>What a step may do to one process.\<close>

definition proc_rel :: "agent_proc \<Rightarrow> agent_proc \<Rightarrow> bool" where
  "proc_rel p q \<longleftrightarrow> apPort q = apPort p \<and> apToken q = apToken p \<and> (apShut p \<longrightarrow> apShut q) \<and> (apKeys q = apKeys p \<or> apKeys q = None) \<and>
     (apStopping p \<longrightarrow> apStopping q)"

definition proc_ok :: "agent_proc \<Rightarrow> bool" where
  "proc_ok p \<longleftrightarrow> (apShut p \<longleftrightarrow> apKeys p = None) \<and> (apListening p \<longleftrightarrow> \<not> apShut p) \<and> (apTimer p \<or> apStopping p)"

definition world_rel :: "agent_world \<Rightarrow> agent_world \<Rightarrow> bool" where
  "world_rel w w' \<longleftrightarrow> length (agProcs w) \<le> length (agProcs w') \<and> (\<forall>i < length (agProcs w). proc_rel (agProcs w ! i) (agProcs w' ! i)) \<and>
     (list_all proc_ok (agProcs w) \<longrightarrow> list_all proc_ok (agProcs w'))"

lemma proc_rel_refl [simp]: "proc_rel p p"
  by (simp add: proc_rel_def)

lemma world_rel_refl [simp]: "world_rel w w"
  by (simp add: world_rel_def)

lemma proc_rel_trans: "proc_rel p q \<Longrightarrow> proc_rel q r \<Longrightarrow> proc_rel p r"
  by (auto simp: proc_rel_def)

lemma world_rel_trans:
  assumes "world_rel w w1" "world_rel w1 w2"
  shows "world_rel w w2"
proof -
  have "proc_rel (agProcs w ! i) (agProcs w2 ! i)" if "i < length (agProcs w)" for i
  proof (rule proc_rel_trans)
    show "proc_rel (agProcs w ! i) (agProcs w1 ! i)" using assms(1) that unfolding world_rel_def by blast
    have "i < length (agProcs w1)" using assms(1) that unfolding world_rel_def by linarith
    then show "proc_rel (agProcs w1 ! i) (agProcs w2 ! i)" using assms(2) unfolding world_rel_def by blast
  qed
  moreover have "length (agProcs w) \<le> length (agProcs w2)" using assms unfolding world_rel_def by linarith
  ultimately show ?thesis using assms unfolding world_rel_def by blast
qed

lemma world_rel_update:
  assumes "proc_rel (agProcs w ! i) p" "proc_ok (agProcs w ! i) \<longrightarrow> proc_ok p" "agProcs w' = (agProcs w)[i := p]"
  shows "world_rel w w'"
  using assms by (cases "i < length (agProcs w)") (auto simp: world_rel_def list_all_length nth_list_update)

lemma world_rel_procs: "agProcs w' = agProcs w \<Longrightarrow> world_rel w w'"
  by (simp add: world_rel_def)

lemma handled_rel: "proc_rel p (snd (handleConn req p))" "proc_ok p \<longrightarrow> proc_ok (snd (handleConn req p))"
  by (auto simp: handleConn_def proc_rel_def proc_ok_def split: option.splits)

lemma shutdown_rel: "world_rel w (shutdown i w)"
  by (rule world_rel_update [where p = "if apShut (agProcs w ! i) then agProcs w ! i else (agProcs w ! i)\<lparr>apListening := False, apKeys := None, apShut := True\<rparr>" and i = i])
     (auto simp: shutdown_def proc_rel_def proc_ok_def Let_def)

lemma read_rel: "ReadAgentFile t w = (x, w') \<Longrightarrow> agProcs w' = agProcs w"
  by (auto simp: ReadAgentFile_def split: option.splits if_splits)

lemma send_rel: "sendRequest N info act w = (x, w') \<Longrightarrow> world_rel w w'"
proof (cases "listener_at (aiPort info) w")
  case (Some i)
  let ?p = "snd (handleConn (Some \<lparr>aqToken = aiToken info, aqAction = act\<rparr>) (agProcs w ! i))"
  assume "sendRequest N info act w = (x, w')"
  with Some have "agProcs w' = agProcs w \<or> agProcs w' = (agProcs w)[i := ?p]"
    by (auto simp: sendRequest_def split: if_splits prod.splits)
  then show ?thesis using world_rel_procs world_rel_update [OF handled_rel] by blast
qed (auto simp: sendRequest_def intro: world_rel_procs)

lemma serve_rel: "world_rel w (agent_serve G S spawn ttl w)"
  by (auto simp: agent_serve_def serveListener_def world_rel_def proc_ok_def nth_append Let_def split: option.splits)

lemma client_rel: "world_rel w (snd (RequestKeys G N t w))" "world_rel w (snd (Ping N t w))" "world_rel w (snd (Shutdown N t w))"
proof -
  obtain info w1 where r: "ReadAgentFile t w = (info, w1)" by fastforce
  have "world_rel w w1" using read_rel [OF r] by (rule world_rel_procs)
  then have s: "world_rel w w2" if "sendRequest N i act w1 = (x, w2)" for i act x w2 using send_rel [OF that] world_rel_trans by blast
  have f: "world_rel w (w2\<lparr>agFile := None\<rparr>)" if "world_rel w w2" for w2 using that by (simp add: world_rel_def)
  show "world_rel w (snd (RequestKeys G N t w))" "world_rel w (snd (Ping N t w))" "world_rel w (snd (Shutdown N t w))"
    using r s f \<open>world_rel w w1\<close> by (auto simp: RequestKeys_def Ping_def Shutdown_def split: option.split prod.split)
qed

inductive_cases agent_stepE: "agent_step G w w'"

lemma step_rel: "agent_step G w w' \<Longrightarrow> world_rel w w'"
  by (erule agent_stepE) (auto intro: serve_rel shutdown_rel client_rel world_rel_update [OF handled_rel])

lemma reach_rel: "agent_reach G w w' \<Longrightarrow> world_rel w w'"
  by (induction rule: agent_reach.induct) (auto intro: step_rel world_rel_trans)

section \<open>Who gets keys\<close>

text \<open>
  C13: keys need the token. Along any run of processes being started, requests of anyone to any of them, timers, stops and
  clients: an answer of a process carries keys only if the request carried the token of that process and asked
  for keys, and the process has not shut down; and then they are the keys it held from the beginning. A process
  that has shut down never answers with keys again.
\<close>

theorem keys_need_token:
  assumes "list_all proc_ok (agProcs w0)" "agent_reach G w0 w" "i < length (agProcs w0)" "handleConn req (agProcs w ! i) = (r, p')" "arKeys r \<noteq> no_keys"
  shows "\<exists>k q. apKeys (agProcs w0 ! i) = Some k \<and> arKeys r = hex_keys k \<and> req = Some q \<and> aqToken q = apToken (agProcs w0 ! i) \<and> aqAction q = ''keys'' \<and>
    \<not> apShut (agProcs w0 ! i) \<and> \<not> apShut (agProcs w ! i)"
proof -
  let ?p = "agProcs w ! i"
  have rel: "proc_rel (agProcs w0 ! i) ?p" "proc_ok ?p" using reach_rel [OF assms(2)] assms(1,3) by (auto simp: world_rel_def list_all_length)
  obtain q k where "req = Some q" "aqToken q = apToken ?p" "aqAction q = ''keys''" "apKeys ?p = Some k" "arKeys r = hex_keys k"
    using assms(4,5) by (auto simp: handleConn_def guard_response_def error_response_def ok_response_def split: option.splits if_splits)
  then show ?thesis using rel by (auto simp: proc_rel_def proc_ok_def)
qed

text \<open>
  C14: no agent keeps keys for ever. In every world that processes, clients and anyone's requests can bring about, a
  process that holds keys has its timer armed or a shutdown pending, it listens, and when the timer fires or the
  pending shutdown runs its keys are gone, whatever happens later; a shutdown that was asked for stays pending until then.
\<close>

theorem agents_wipe:
  assumes "agent_reach G \<lparr>agFile = None, agProcs = []\<rparr> w" "i < length (agProcs w)"
  shows "(apKeys (agProcs w ! i) \<noteq> None \<longrightarrow> apListening (agProcs w ! i) \<and> (apTimer (agProcs w ! i) \<or> apStopping (agProcs w ! i))) \<and>
    ((apTimer (agProcs w ! i) \<or> apStopping (agProcs w ! i)) \<longrightarrow> agent_step G w (shutdown i w)) \<and>
    (\<forall>w'. agent_reach G (shutdown i w) w' \<longrightarrow> apKeys (agProcs w' ! i) = None \<and> \<not> apListening (agProcs w' ! i)) \<and>
    (\<forall>w'. agent_reach G w w' \<and> apStopping (agProcs w ! i) \<longrightarrow> apStopping (agProcs w' ! i))"
proof (intro conjI allI impI)
  have ok: "list_all proc_ok (agProcs w)" using reach_rel [OF assms(1)] by (simp add: world_rel_def)
  then have p: "proc_ok (agProcs w ! i)" using assms(2) by (simp add: list_all_length)
  show "apListening (agProcs w ! i)" "apTimer (agProcs w ! i) \<or> apStopping (agProcs w ! i)" if "apKeys (agProcs w ! i) \<noteq> None"
    using p that by (auto simp: proc_ok_def)
  show "agent_step G w (shutdown i w)" if "apTimer (agProcs w ! i) \<or> apStopping (agProcs w ! i)"
    using that assms(2) step_timer step_delayed by blast
  show "apStopping (agProcs w' ! i)" if "agent_reach G w w' \<and> apStopping (agProcs w ! i)" for w'
    using reach_rel [of G w w'] that assms(2) by (auto simp: world_rel_def proc_rel_def)
  have len: "i < length (agProcs (shutdown i w))" using assms(2) by (simp add: shutdown_def Let_def)
  have shut: "apShut (agProcs (shutdown i w) ! i)" using assms(2) by (simp add: shutdown_def Let_def)
  have ok': "list_all proc_ok (agProcs (shutdown i w))" using shutdown_rel [of w i] ok by (simp add: world_rel_def)
  show "apKeys (agProcs w' ! i) = None" "\<not> apListening (agProcs w' ! i)" if "agent_reach G (shutdown i w) w'" for w'
    using reach_rel [OF that] len shut ok' by (auto simp: world_rel_def proc_rel_def proc_ok_def list_all_length)
qed

section \<open>From the session to the agent and back\<close>

lemma decoded_size: "DecodeHexKey h n = Some b \<Longrightarrow> length b = n"
  by (auto simp: DecodeHexKey_def split: if_splits option.splits)

lemma parsed_ok: "parse_keys G x = Some k \<Longrightarrow> agent_ok k"
  by (auto simp: parse_keys_def agent_ok_def split: option.splits dest!: decoded_size)

text \<open>What the session assumes of its agent is what the client of the agent checks.\<close>

lemma requested_ok: "RequestKeys G N t w = (Some k, w') \<Longrightarrow> agent_ok k"
  by (auto simp: RequestKeys_def split: option.splits prod.splits if_splits dest: parsed_ok)

lemma decode_hex:
  assumes "length b = n" "0 < n"
  shows "DecodeHexKey (hex_encode b) n = Some b"
proof -
  have "length (hex_encode b) \<noteq> 0" using assms by simp
  then have "hex_encode b \<noteq> []" by (metis list.size(3))
  then show ?thesis using assms by (simp add: DecodeHexKey_def)
qed

lemma decode_hex_nil: "DecodeHexKey (hex_encode []) n = None"
  by (simp add: DecodeHexKey_def hex_encode_def)

definition signing_whole :: "sig_prims \<Rightarrow> AgentKeys \<Rightarrow> bool" where
  "signing_whole G k \<longleftrightarrow>
     akSigningPublicKeyEd25519 k = [] \<and> akSigningPrivateKeyEd25519 k = [] \<and> akSigningPublicKeyMldsa k = [] \<and> akSigningPrivateKeyMldsa k = [] \<or>
     length (akSigningPublicKeyEd25519 k) = Ed25519PKSize \<and> length (akSigningPrivateKeyEd25519 k) = Ed25519SKSize \<and>
     length (akSigningPublicKeyMldsa k) = Mldsa44PKSize G \<and> length (akSigningPrivateKeyMldsa k) = Mldsa44SKSize G"

lemma parse_hex:
  assumes "agent_ok k" "signing_whole G k" "0 < Mldsa44PKSize G" "0 < Mldsa44SKSize G"
  shows "parse_keys G (hex_keys k) = Some k"
  using assms by (auto simp: parse_keys_def hex_keys_def agent_ok_def signing_whole_def decode_hex decode_hex_nil or_nil_def sign_sizes size_defs NameKeySize_def)

lemma listener_found:
  assumes "i < length (agProcs w)" "apListening (agProcs w ! i)" "apPort (agProcs w ! i) = port"
    "\<And>j. j < i \<Longrightarrow> apListening (agProcs w ! j) \<Longrightarrow> apPort (agProcs w ! j) \<noteq> port"
  shows "listener_at port w = Some i"
  unfolding listener_at_def find_Some_iff using assms by (intro exI [of _ i]) auto


text \<open>A stop takes effect a moment later, and the process then removes the file whoever wrote it: an agent that was started in
  between keeps its keys and is found by nobody, so that it cannot be stopped either.\<close>

lemma stop_orphans_next_agent:
  assumes "agProcs w = [old]" "apListening old" "apPort old = 1" "\<not> apShut old" "agFile w = Some \<lparr>aiPort = 1, aiToken = apToken old, aiExpires = 0\<rparr>" "apToken old \<noteq> []"
    "parse_keys G spawn = Some k" "svToken S = Some tok" "svWrite S" "svPort S = 2" "0 < ttl"
  defines "N \<equiv> \<lparr>ntDial = True, ntSent = True, ntAnswered = True\<rparr>"
  shows "\<exists>w1 w2. Shutdown N t w = (True, w1) \<and> w2 = shutdown 0 (agent_serve G S spawn ttl w1) \<and> agent_step G (agent_serve G S spawn ttl w1) w2 \<and>
    apKeys (agProcs w2 ! 1) = Some k \<and> apListening (agProcs w2 ! 1) \<and> Ping N t w2 = (False, w2) \<and> Shutdown N t w2 = (True, w2)"
proof -
  let ?old = "old\<lparr>apTimer := False, apStopping := True\<rparr>"
  let ?new = "\<lparr>apPort = 2, apToken = hex_encode tok, apKeys = Some k, apListening = True, apTimer = True, apStopping = False, apShut = False\<rparr>"
  let ?w1 = "w\<lparr>agFile := None, agProcs := [?old]\<rparr>"
  have "listener_at 1 w = Some 0" using assms(1-3) by (simp add: listener_at_def)
  then have stop: "Shutdown N t w = (True, ?w1)" using assms(1,5,6) by (simp add: Shutdown_def ReadAgentFile_def sendRequest_def handleConn_def ok_response_def N_def)
  have serve: "agProcs (agent_serve G S spawn ttl ?w1) = [?old, ?new]" using assms(7-11) by (simp add: agent_serve_def serveListener_def Let_def)
  let ?w2 = "shutdown 0 (agent_serve G S spawn ttl ?w1)"
  have w2: "agFile ?w2 = None" "agProcs ?w2 ! 1 = ?new" using serve assms(4) by (simp_all add: shutdown_def Let_def)
  have "agent_step G (agent_serve G S spawn ttl ?w1) ?w2" using serve by (intro step_delayed) simp_all
  then show ?thesis using stop w2 by (auto simp: Ping_def Shutdown_def ReadAgentFile_def)
qed

section \<open>At a concrete agent\<close>

definition toy_keys :: AgentKeys where
  "toy_keys = \<lparr>akPublicKey = replicate 32 1, akPrivateKey = replicate 32 2, akKyberPublicKey = replicate KyberPublicKeySize 3, akKyberSeed = replicate KyberSeedSize 4, akNameKey = replicate 32 5,
     akSigningPublicKeyEd25519 = [], akSigningPrivateKeyEd25519 = [], akSigningPublicKeyMldsa = [], akSigningPrivateKeyMldsa = []\<rparr>"

definition toy_serve :: serve_env where
  "toy_serve = \<lparr>svToken = Some [7], svPort = 1, svNow = 0, svWrite = True\<rparr>"

definition toy_agents :: agent_world where
  "toy_agents = agent_serve toy_sig toy_serve (hex_keys toy_keys) 60 \<lparr>agFile = None, agProcs = []\<rparr>"

lemma toy_keys_ok: "agent_ok toy_keys" "signing_whole toy_sig toy_keys" "0 < Mldsa44PKSize toy_sig" "0 < Mldsa44SKSize toy_sig"
  by (simp_all add: agent_ok_def signing_whole_def toy_keys_def NameKeySize_def toy_sig_def)

lemma toy_procs: "agProcs toy_agents = [\<lparr>apPort = 1, apToken = hex_encode [7], apKeys = Some toy_keys, apListening = True, apTimer = True, apStopping = False, apShut = False\<rparr>]"
  using parse_hex [OF toy_keys_ok] by (simp add: toy_agents_def agent_serve_def serveListener_def toy_serve_def Let_def)

lemma toy_reach: "agent_reach toy_sig \<lparr>agFile = None, agProcs = []\<rparr> toy_agents"
  unfolding toy_agents_def by (rule agent_next [OF agent_start step_serve])

theorem keys_need_token_witness:
  "\<exists>k. apKeys (agProcs toy_agents ! 0) = Some k \<and>
     arKeys (fst (handleConn (Some \<lparr>aqToken = hex_encode [7], aqAction = ''keys''\<rparr>) (agProcs toy_agents ! 0))) = hex_keys k"
proof -
  let ?q = "\<lparr>aqToken = hex_encode [7], aqAction = ''keys''\<rparr>"
  have run: "handleConn (Some ?q) (agProcs toy_agents ! 0) = (\<lparr>arOK = True, arError = [], arKeys = hex_keys toy_keys\<rparr>, agProcs toy_agents ! 0)"
    by (simp add: handleConn_def toy_procs guard_response_def)
  have "swNameKey (hex_keys toy_keys) \<noteq> swNameKey no_keys" using decode_hex [of "replicate 32 5" 32] by (auto simp: hex_keys_def no_keys_def toy_keys_def DecodeHexKey_def)
  then have "hex_keys toy_keys \<noteq> no_keys" by metis
  moreover have "list_all proc_ok (agProcs toy_agents)" by (simp add: toy_procs proc_ok_def)
  ultimately show ?thesis using keys_need_token [where G = toy_sig, OF _ agent_start _ run] run by (auto simp: toy_procs)
qed

theorem agents_wipe_witness: "apTimer (agProcs toy_agents ! 0) \<and> agent_step toy_sig toy_agents (shutdown 0 toy_agents) \<and> apKeys (agProcs (shutdown 0 toy_agents) ! 0) = None"
  using agents_wipe [OF toy_reach, of 0] agent_start by (auto simp: toy_procs)


end
