(* ===== verification/Exif.thy ===== *)
theory Exif
  imports Prelude "HOL-Library.Monad_Syntax"
begin

text \<open>
  The capture date of a picture: \<open>internal/cmdutil/exif.go\<close>, with the part of \<open>time.Parse\<close> and
  \<open>time.Date\<close> that its one layout uses.

  Every read of a byte and every slice is checked against the length: \<open>None\<close> is the panic of an access out
  of range. Offsets are natural numbers: they are sums of a few 32-bit values, far from the limits of an \<open>int\<close>.
  A slice is checked against the length of the buffer, which is stricter than Go's check against its capacity.
\<close>

section \<open>Reading\<close>

definition byte_at :: "bytes \<Rightarrow> nat \<Rightarrow> byte option" where
  "byte_at b i = (if i < length b then Some (b ! i) else None)"

definition slice :: "bytes \<Rightarrow> nat \<Rightarrow> nat \<Rightarrow> bytes option" where
  "slice b i j = (if i \<le> j \<and> j \<le> length b then Some (take (j - i) (drop i b)) else None)"

text \<open>\<open>Uint16\<close> and \<open>Uint32\<close> of the rest of a buffer, in either byte order.\<close>

definition Uint :: "nat \<Rightarrow> bool \<Rightarrow> bytes \<Rightarrow> nat \<Rightarrow> nat option" where
  "Uint k le b i = map_option (if le then le_uint else be_uint) (slice b i (i + k))"

definition Uint16 :: "bool \<Rightarrow> bytes \<Rightarrow> nat \<Rightarrow> nat option" where "Uint16 = Uint 2"
definition Uint32 :: "bool \<Rightarrow> bytes \<Rightarrow> nat \<Rightarrow> nat option" where "Uint32 = Uint 4"

section \<open>Dates\<close>

definition isLeap :: "int \<Rightarrow> bool" where
  "isLeap year \<longleftrightarrow> year mod 4 = 0 \<and> (year mod 100 \<noteq> 0 \<or> year mod 400 = 0)"

definition daysIn :: "int \<Rightarrow> int \<Rightarrow> int" where
  "daysIn m year = (if m = 2 then (if isLeap year then 29 else 28) else if m \<in> {4, 6, 9, 11} then 30 else 31)"

text \<open>Days from the first of January of year 0 and of 1970; \<open>days_before\<close> counts the days of the months before.\<close>

definition days_to_year :: "int \<Rightarrow> int" where
  "days_to_year y = 365 * y + (y + 3) div 4 - (y + 99) div 100 + (y + 399) div 400"

definition days_before :: "int \<Rightarrow> int \<Rightarrow> int" where
  "days_before m year = (\<Sum>k \<leftarrow> [1..m - 1]. daysIn k year)"

definition unix_date :: "int \<Rightarrow> int \<Rightarrow> int \<Rightarrow> int \<Rightarrow> int \<Rightarrow> int \<Rightarrow> int" where
  "unix_date year month day hour mins sec =
     (days_to_year year - days_to_year 1970 + days_before month year + (day - 1)) * 86400 + hour * 3600 + mins * 60 + sec"

text \<open>The number that digits spell; \<open>None\<close> if one of them is none.\<close>

fun digits :: "int \<Rightarrow> bytes \<Rightarrow> int option" where
  "digits acc [] = Some acc"
| "digits acc (c # cs) = (if 0x30 \<le> c \<and> c \<le> 0x39 then digits (acc * 10 + (uint c - 48)) cs else None)"

text \<open>\<open>time.Parse\<close> with the layout \<open>2006:01:02 15:04:05\<close>, for a text of nineteen bytes with its separators in
  place: all fields are digits and in range, the day is one of its month. An hour of one digit is no exception here: the separator would be in the wrong place.\<close>

definition parse_date :: "bytes \<Rightarrow> (int \<times> int \<times> int \<times> int \<times> int \<times> int) option" where
  "parse_date s =
     do {year \<leftarrow> digits 0 (take 4 s);
         month \<leftarrow> digits 0 (take 2 (drop 5 s));
         day \<leftarrow> digits 0 (take 2 (drop 8 s));
         hour \<leftarrow> digits 0 (take 2 (drop 11 s));
         mins \<leftarrow> digits 0 (take 2 (drop 14 s));
         sec \<leftarrow> digits 0 (take 2 (drop 17 s));
         if month < 1 \<or> 12 < month \<or> 24 \<le> hour \<or> 60 \<le> mins \<or> 60 \<le> sec \<or> day < 1 \<or> daysIn month year < day then None
         else Some (year, month, day, hour, mins, sec)}"

definition parseExifDate :: "bytes \<Rightarrow> int option" where
  "parseExifDate s =
     (if length s < 19 then Some 0
      else do {
        c4 \<leftarrow> byte_at s 4; c7 \<leftarrow> byte_at s 7; c10 \<leftarrow> byte_at s 10; c13 \<leftarrow> byte_at s 13; c16 \<leftarrow> byte_at s 16;
        if c4 \<noteq> 0x3A \<or> c7 \<noteq> 0x3A \<or> c10 \<noteq> 0x20 \<or> c13 \<noteq> 0x3A \<or> c16 \<noteq> 0x3A then Some 0
        else Some (case parse_date s of None \<Rightarrow> 0 | Some (y, m, d, h, mi, sc) \<Rightarrow> unix_date y m d h mi sc)})"

section \<open>The directories of a TIFF block\<close>

text \<open>The loop over the first directory: the offset of the other one, \<open>Some None\<close> if there is none. An entry beyond the
  end of the buffer ends the search. Both are the value 0 of the function.\<close>

fun find_exif :: "bool \<Rightarrow> bytes \<Rightarrow> nat \<Rightarrow> nat list \<Rightarrow> nat option option" where
  "find_exif le buf ifd0 [] = Some None"
| "find_exif le buf ifd0 (i # is) =
     (let entry = ifd0 + 2 + i * 12 in
      if entry + 12 > length buf then Some None
      else do {
        tag \<leftarrow> Uint16 le buf entry;
        if tag = 0x8769 then map_option Some (Uint32 le buf (entry + 8))
        else find_exif le buf ifd0 is})"

text \<open>What one entry of the second directory gives: a date, or nothing.\<close>

definition date_entry :: "bool \<Rightarrow> bytes \<Rightarrow> nat \<Rightarrow> nat \<Rightarrow> int option" where
  "date_entry le buf tiffStart entry =
     do {
       tag \<leftarrow> Uint16 le buf entry;
       if tag \<noteq> 0x9003 \<and> tag \<noteq> 0x9004 then Some 0
       else do {
         typ \<leftarrow> Uint16 le buf (entry + 2);
         if typ \<noteq> 2 then Some 0
         else do {
           count \<leftarrow> Uint32 le buf (entry + 4);
           if count < 19 then Some 0
           else do {
             off \<leftarrow> Uint32 le buf (entry + 8);
             if tiffStart + off + 19 > length buf then Some 0
             else slice buf (tiffStart + off) (tiffStart + off + 19) \<bind> parseExifDate}}}}"

fun find_date :: "bool \<Rightarrow> bytes \<Rightarrow> nat \<Rightarrow> nat \<Rightarrow> nat list \<Rightarrow> int option" where
  "find_date le buf tiffStart exifIfd [] = Some 0"
| "find_date le buf tiffStart exifIfd (i # is) =
     (let entry = exifIfd + 2 + i * 12 in
      if entry + 12 > length buf then Some 0
      else do {
        ts \<leftarrow> date_entry le buf tiffStart entry;
        if ts > 0 then Some ts else find_date le buf tiffStart exifIfd is})"

definition walkExifTiff :: "bytes \<Rightarrow> nat \<Rightarrow> int option" where
  "walkExifTiff buf tiffStart =
     (if tiffStart + 8 > length buf then Some 0
      else do {
        order \<leftarrow> Uint16 False buf tiffStart;
        if order \<noteq> 0x4949 \<and> order \<noteq> 0x4D4D then Some 0
        else do {
          let le = (order = 0x4949);
          magic \<leftarrow> Uint16 le buf (tiffStart + 2);
          if magic \<noteq> 0x2A then Some 0
          else do {
            ifd0Off \<leftarrow> Uint32 le buf (tiffStart + 4);
            let ifd0 = tiffStart + ifd0Off;
            if ifd0 + 2 > length buf then Some 0
            else do {
              ifd0Count \<leftarrow> Uint16 le buf ifd0;
              found \<leftarrow> find_exif le buf ifd0 [0..<ifd0Count];
              case found of
                None \<Rightarrow> Some 0
              | Some exifIfdOff \<Rightarrow>
                  (let exifIfd = tiffStart + exifIfdOff in
                   if exifIfd + 2 > length buf then Some 0
                   else Uint16 le buf exifIfd \<bind> (\<lambda>exifCount. find_date le buf tiffStart exifIfd [0..<exifCount]))}}}})"

section \<open>Containers\<close>

function jpeg_from :: "bytes \<Rightarrow> nat \<Rightarrow> int option" where
  "jpeg_from b off =
     (if \<not> off + 4 < length b then Some 0
      else do {
        start \<leftarrow> byte_at b off;
        if start \<noteq> 0xFF then Some 0
        else do {
          marker \<leftarrow> byte_at b (off + 1);
          hi \<leftarrow> byte_at b (off + 2);
          lo \<leftarrow> byte_at b (off + 3);
          let segLen = unat hi * 256 + unat lo;
          if marker = 0xE1 then
            (let app1Start = off + 4; app1End = off + 2 + segLen in
             if app1End > length b then Some 0
             else do {
               rest \<leftarrow> slice b app1Start (length b);
               if \<not> HasPrefix rest [0x45, 0x78, 0x69, 0x66, 0, 0] then Some 0
               else slice b 0 app1End \<bind> (\<lambda>buf. walkExifTiff buf (app1Start + 6))})
          else if marker = 0xDA \<or> marker = 0xD9 then Some 0
          else jpeg_from b (off + (2 + segLen))}})"
  by pat_completeness auto
termination by (relation "measure (\<lambda>(b, off). length b - off)") auto

definition parseJpegExif :: "bytes \<Rightarrow> int option" where
  "parseJpegExif b =
     (if length b < 4 then Some 0
      else do {
        b0 \<leftarrow> byte_at b 0; b1 \<leftarrow> byte_at b 1;
        if b0 \<noteq> 0xFF \<or> b1 \<noteq> 0xD8 then Some 0 else jpeg_from b 2})"

function png_from :: "bytes \<Rightarrow> nat \<Rightarrow> int option" where
  "png_from b off =
     (if \<not> off + 8 \<le> length b then Some 0
      else do {
        len \<leftarrow> Uint32 False b off;
        ctype \<leftarrow> slice b (off + 4) (off + 8);
        let dataStart = off + 8;
        let dataEnd = dataStart + len;
        if dataEnd + 4 > length b then Some 0
        else if ctype = [0x65, 0x58, 0x49, 0x66] then slice b 0 dataEnd \<bind> (\<lambda>buf. walkExifTiff buf dataStart)
        else if ctype = [0x49, 0x45, 0x4E, 0x44] \<or> ctype = [0x49, 0x44, 0x41, 0x54] then Some 0
        else png_from b (dataEnd + 4)})"
  by pat_completeness auto
termination by (relation "measure (\<lambda>(b, off). length b - off)") auto

definition parsePngExif :: "bytes \<Rightarrow> int option" where
  "parsePngExif b =
     (if length b < 8 \<or> \<not> HasPrefix b [0x89, 0x50, 0x4E, 0x47, 0x0D, 0x0A, 0x1A, 0x0A] then Some 0 else png_from b 8)"

function webp_from :: "bytes \<Rightarrow> nat \<Rightarrow> int option" where
  "webp_from b off =
     (if \<not> off + 8 \<le> length b then Some 0
      else do {
        ctype \<leftarrow> slice b off (off + 4);
        len \<leftarrow> Uint32 True b (off + 4);
        let dataStart = off + 8;
        let dataEnd = dataStart + len;
        if dataEnd > length b then Some 0
        else if ctype = [0x45, 0x58, 0x49, 0x46] then slice b 0 dataEnd \<bind> (\<lambda>buf. walkExifTiff buf dataStart)
        else webp_from b (dataEnd + len mod 2)})"
  by pat_completeness auto
termination by (relation "measure (\<lambda>(b, off). length b - off)") auto

definition parseWebpExif :: "bytes \<Rightarrow> int option" where
  "parseWebpExif b =
     (if length b < 12 then Some 0
      else if \<not> HasPrefix b [0x52, 0x49, 0x46, 0x46] then Some 0
      else do {
        kind \<leftarrow> slice b 8 12;
        if kind \<noteq> [0x57, 0x45, 0x42, 0x50] then Some 0 else webp_from b 12})"

text \<open>A HEIC file is searched for a TIFF header at every offset.\<close>

definition tiff_header_at :: "bytes \<Rightarrow> nat \<Rightarrow> bool option" where
  "tiff_header_at b i =
     do {
       b0 \<leftarrow> byte_at b i;
       if b0 \<noteq> 0x49 \<and> b0 \<noteq> 0x4D then Some False
       else do {
         b1 \<leftarrow> byte_at b (i + 1); b2 \<leftarrow> byte_at b (i + 2); b3 \<leftarrow> byte_at b (i + 3);
         Some (b0 = 0x49 \<and> b1 = 0x49 \<and> b2 = 0x2A \<and> b3 = 0x00 \<or> b0 = 0x4D \<and> b1 = 0x4D \<and> b2 = 0x00 \<and> b3 = 0x2A)}}"

fun heic_from :: "bytes \<Rightarrow> nat list \<Rightarrow> int option" where
  "heic_from b [] = Some 0"
| "heic_from b (i # is) =
     (if \<not> i + 8 \<le> length b then Some 0
      else do {
        header \<leftarrow> tiff_header_at b i;
        if \<not> header then heic_from b is
        else do {
          ts \<leftarrow> walkExifTiff b i;
          if ts > 0 then Some ts else heic_from b is}})"

definition parseHeicExif :: "bytes \<Rightarrow> int option" where
  "parseHeicExif b = heic_from b [0..<length b]"

section \<open>The file\<close>

definition tiffRawExtensions :: "string set" where
  "tiffRawExtensions = {''.tif'', ''.tiff'', ''.cr2'', ''.nef'', ''.dng'', ''.arw'', ''.orf'', ''.pef'', ''.rw2'', ''.srw'', ''.nrw''}"

definition extension :: "string \<Rightarrow> string" where
  "extension p = (if CHR ''.'' \<notin> set p then [] else CHR ''.'' # rev (takeWhile (\<lambda>c. c \<noteq> CHR ''.'') (rev p)))"

text \<open>The lower case of a path is a parameter, as are the contents of the file; a file that cannot be opened or read is
  \<open>None\<close>. At most 256 KiB are looked at.\<close>

definition ParseExifCaptureDate :: "(string \<Rightarrow> string) \<Rightarrow> (string \<Rightarrow> bytes option) \<Rightarrow> string \<Rightarrow> int option" where
  "ParseExifCaptureDate lower read_file p =
     (let ext = extension (lower p);
          isJpeg = (ext = ''.jpg'' \<or> ext = ''.jpeg''); isPng = (ext = ''.png''); isWebp = (ext = ''.webp'');
          isHeic = (ext = ''.heic'' \<or> ext = ''.heif''); isTiffRaw = (ext \<in> tiffRawExtensions)
      in if \<not> isJpeg \<and> \<not> isPng \<and> \<not> isWebp \<and> \<not> isHeic \<and> \<not> isTiffRaw then Some 0
         else case read_file p of
                None \<Rightarrow> Some 0
              | Some content \<Rightarrow>
                  (let b = take (256 * 1024) content in
                   if isJpeg then parseJpegExif b
                   else if isPng then parsePngExif b
                   else if isWebp then parseWebpExif b
                   else if isTiffRaw then walkExifTiff b 0
                   else parseHeicExif b))"

end
