(* ===== verification/ExifLaws.thy ===== *)
theory ExifLaws
  imports Exif
begin

text \<open>
  Laws of the capture date: no file, however damaged, makes the parser read out of range or run for ever, and
  the date of a well-formed picture is found in every kind of container.
\<close>

section \<open>Reads in range\<close>

lemma slice_in [simp]: "i \<le> j \<Longrightarrow> j \<le> length b \<Longrightarrow> slice b i j = Some (take (j - i) (drop i b))"
  by (simp add: slice_def)

lemma byte_at_in [simp]: "i < length b \<Longrightarrow> byte_at b i = Some (b ! i)"
  by (simp add: byte_at_def)

lemma byte_at_ok: "i < length b \<Longrightarrow> \<exists>x. byte_at b i = Some x"
  by simp

lemma Uint_in: "i + k \<le> length b \<Longrightarrow> \<exists>n. Uint k le b i = Some n"
  by (simp add: Uint_def)

lemma Uint16_in: "i + 2 \<le> length b \<Longrightarrow> \<exists>n. Uint16 le b i = Some n"
  by (simp add: Uint16_def Uint_in)

lemma Uint32_in: "i + 4 \<le> length b \<Longrightarrow> \<exists>n. Uint32 le b i = Some n"
  by (simp add: Uint32_def Uint_in)

section \<open>Dates\<close>

lemma digits_bound: "digits acc s = Some n \<Longrightarrow> 0 \<le> acc \<Longrightarrow> 0 \<le> n \<and> n < (acc + 1) * 10 ^ length s"
proof (induction acc s rule: digits.induct)
  case (2 acc c cs)
  then have c: "0x30 \<le> c" "c \<le> 0x39" and rec: "digits (acc * 10 + (uint c - 48)) cs = Some n" by (auto split: if_splits)
  then have u: "48 \<le> uint c" "uint c \<le> 57" by (simp_all add: word_le_def)
  then have n: "0 \<le> n \<and> n < (acc * 10 + (uint c - 48) + 1) * 10 ^ length cs" using 2 c rec by simp
  have "(acc * 10 + (uint c - 48) + 1) * 10 ^ length cs \<le> ((acc + 1) * 10) * 10 ^ length cs" using u by (intro mult_right_mono) auto
  also have "\<dots> = (acc + 1) * 10 ^ length (c # cs)" by simp
  finally show ?case using n by linarith
qed simp

lemma daysIn_bound: "28 \<le> daysIn m y \<and> daysIn m y \<le> 31"
  by (simp add: daysIn_def)

text \<open>The calendar: the years add up, and the months of a year too.\<close>

lemma round_up: "0 < k \<Longrightarrow> (y + (k - 1)) div k = (if y mod k = 0 then y div k else y div k + 1)" for y k :: int
proof -
  assume k: "0 < k"
  have y: "y mod k + (k - 1) + k * (y div k) = y + (k - 1)" by simp
  have "(y mod k + (k - 1) + k * (y div k)) div k = y div k + (y mod k + (k - 1)) div k" using k by (intro div_mult_self2) simp
  then have "(y + (k - 1)) div k = (y mod k + (k - 1)) div k + y div k" unfolding y by simp
  moreover have "(y mod k + (k - 1)) div k = (if y mod k = 0 then 0 else 1)"
    using k pos_mod_bound [OF k, of y] pos_mod_sign [OF k, of y] by (auto intro!: div_pos_pos_trivial int_div_pos_eq [where r = "y mod k - 1"])
  ultimately show ?thesis by simp
qed

lemma leap_sum:
  "(p400 \<longrightarrow> p100) \<Longrightarrow> (p100 \<longrightarrow> p4) \<Longrightarrow> 365 * (y + 1) + (a + 1) - (b + 1) + (c + 1) =
     365 * y + (if p4 then a else a + 1) - (if p100 then b else b + 1) + (if p400 then c else c + 1) + (if p4 \<and> (\<not> p100 \<or> p400) then 366 else 365)"
  for y a b c :: int
  by auto

lemma year_length: "days_to_year (y + 1) = days_to_year y + (if isLeap y then 366 else 365)"
proof -
  have p: "y mod 400 = 0 \<longrightarrow> y mod 100 = 0" "y mod 100 = 0 \<longrightarrow> y mod 4 = 0" by (auto simp flip: dvd_eq_mod_eq_0 intro: dvd_trans)
  have "(y + 1 + 3) div 4 = y div 4 + 1" "(y + 1 + 99) div 100 = y div 100 + 1" "(y + 1 + 399) div 400 = y div 400 + 1" by simp_all
  moreover have "(y + 3) div 4 = (if y mod 4 = 0 then y div 4 else y div 4 + 1)" "(y + 99) div 100 = (if y mod 100 = 0 then y div 100 else y div 100 + 1)"
    "(y + 399) div 400 = (if y mod 400 = 0 then y div 400 else y div 400 + 1)" using round_up [of 4 y] round_up [of 100 y] round_up [of 400 y] by simp_all
  ultimately show ?thesis unfolding days_to_year_def isLeap_def by (simp only: leap_sum [OF p, of y "y div 4" "y div 100" "y div 400"])
qed

lemma years_grow: "y \<le> z \<Longrightarrow> days_to_year y \<le> days_to_year z"
  by (induction z rule: int_ge_induct) (auto simp: year_length)

lemma month_cases: "1 \<le> m \<Longrightarrow> m \<le> 12 \<Longrightarrow> m = 1 \<or> m = 2 \<or> m = 3 \<or> m = 4 \<or> m = 5 \<or> m = 6 \<or> m = 7 \<or> m = 8 \<or> m = 9 \<or> m = 10 \<or> m = 11 \<or> m = (12 :: int)"
proof -
  assume "1 \<le> m" "m \<le> 12"
  then have "m \<in> set [1..12]" by simp
  moreover have "[1..12] = [1, 2, 3, 4, 5, 6, 7, 8, 9, 10, 11, 12 :: int]" by (simp add: upto.simps)
  ultimately show ?thesis by (simp only: list.set insert_iff empty_iff simp_thms)
qed

lemma in_year:
  assumes "1 \<le> m" "m \<le> 12"
  shows "days_before m y + daysIn m y \<le> (if isLeap y then 366 else 365)"
  using month_cases [OF assms] by (elim disjE) (simp_all add: days_before_def daysIn_def upto.simps)

lemma year_of_months: "days_before 12 y + daysIn 12 y = (if isLeap y then 366 else 365)"
  by (simp add: days_before_def daysIn_def upto.simps)

definition valid_date :: "int \<Rightarrow> int \<Rightarrow> int \<Rightarrow> int \<Rightarrow> int \<Rightarrow> int \<Rightarrow> bool" where
  "valid_date y m d h mi s \<longleftrightarrow> 0 \<le> y \<and> y \<le> 9999 \<and> 1 \<le> m \<and> m \<le> 12 \<and> 1 \<le> d \<and> d \<le> daysIn m y \<and> 0 \<le> h \<and> h < 24 \<and> 0 \<le> mi \<and> mi < 60 \<and> 0 \<le> s \<and> s < 60"

lemma four_digits: "digits 0 (take 4 x) = Some n \<Longrightarrow> 0 \<le> n \<and> n \<le> 9999"
proof -
  assume "digits 0 (take 4 x) = Some n"
  then have "0 \<le> n" "n < 10 ^ length (take 4 x)" using digits_bound [of 0 "take 4 x" n] by simp_all
  moreover have "(10 :: int) ^ length (take 4 x) \<le> 10 ^ 4" by (rule power_increasing) simp_all
  ultimately show ?thesis by simp
qed

lemma digits_nonneg: "digits 0 z = Some n \<Longrightarrow> 0 \<le> n"
  using digits_bound [of 0 z n] by simp

lemma parsed_valid: "parse_date x = Some (y, m, d, h, mi, s) \<Longrightarrow> valid_date y m d h mi s"
  unfolding parse_date_def valid_date_def by (auto simp: bind_eq_Some_conv not_less split: if_splits dest: four_digits digits_nonneg)

text \<open>The last second of the year 9999 bounds every date.\<close>

lemma date_bound:
  assumes "valid_date y m d h mi s"
  shows "unix_date y m d h mi s \<le> 253402300799"
proof -
  have "days_before m y + daysIn m y \<le> (if isLeap y then 366 else 365)" using assms in_year by (simp add: valid_date_def)
  moreover have "days_to_year (y + 1) \<le> days_to_year 10000" using assms by (intro years_grow) (simp add: valid_date_def)
  moreover have "d \<le> daysIn m y" using assms by (simp add: valid_date_def)
  ultimately have "days_to_year y + days_before m y + (d - 1) \<le> days_to_year 10000 - 1" using year_length [of y] by linarith
  then have "days_to_year y - days_to_year 1970 + days_before m y + (d - 1) \<le> 2932896" by (simp add: days_to_year_def)
  then show ?thesis using assms unfolding unix_date_def valid_date_def by simp
qed

lemma parseExifDate_ok: "\<exists>t. parseExifDate s = Some t \<and> t \<le> 253402300799"
proof -
  have "(case parse_date s of None \<Rightarrow> 0 | Some (y, m, d, h, mi, sc) \<Rightarrow> unix_date y m d h mi sc) \<le> 253402300799"
    using parsed_valid date_bound by (auto split: option.split)
  then show ?thesis by (simp add: parseExifDate_def)
qed

section \<open>No read out of range\<close>

text \<open>A result that is there and in range, and how it comes about step by step.\<close>

definition fine :: "int option \<Rightarrow> bool" where
  "fine r \<longleftrightarrow> (\<exists>t. r = Some t \<and> 0 \<le> t \<and> t \<le> 253402300799)"

lemma fine_zero [simp]: "fine (Some 0)"
  by (simp add: fine_def)

lemma fine_bind: "\<exists>x. r = Some x \<Longrightarrow> (\<And>x. r = Some x \<Longrightarrow> fine (f x)) \<Longrightarrow> fine (r \<bind> f)"
  by auto

lemma fine_if: "(c \<Longrightarrow> fine x) \<Longrightarrow> (\<not> c \<Longrightarrow> fine y) \<Longrightarrow> fine (if c then x else y)"
  by simp

lemmas reading = fine_bind fine_if byte_at_ok Uint16_in Uint32_in

lemma find_exif_ok: "\<exists>x. find_exif le buf ifd0 is = Some x"
proof (induction le buf ifd0 "is" rule: find_exif.induct)
  case (2 le buf ifd0 i "is")
  show ?case
  proof (cases "ifd0 + 2 + i * 12 + 12 > length buf")
    case False
    then obtain tag off where "Uint16 le buf (ifd0 + 2 + i * 12) = Some tag" "Uint32 le buf (ifd0 + 2 + i * 12 + 8) = Some off"
      using Uint16_in [of "ifd0 + 2 + i * 12" buf le] Uint32_in [of "ifd0 + 2 + i * 12 + 8" buf le] by auto
    then show ?thesis using 2 False by (auto simp: Let_def)
  qed simp
qed simp

lemma date_entry_ok:
  assumes "entry + 12 \<le> length buf"
  shows "\<exists>t. date_entry le buf start entry = Some t \<and> t \<le> 253402300799"
proof -
  obtain tag kind cnt pos where "Uint16 le buf entry = Some tag" "Uint16 le buf (entry + 2) = Some kind" "Uint32 le buf (entry + 4) = Some cnt" "Uint32 le buf (entry + 8) = Some pos"
    using assms Uint16_in [of entry buf le] Uint16_in [of "entry + 2" buf le] Uint32_in [of "entry + 4" buf le] Uint32_in [of "entry + 8" buf le] by auto
  then show ?thesis using parseExifDate_ok by (auto simp: date_entry_def)
qed

lemma find_date_ok: "fine (find_date le buf start ifd is)"
proof (induction le buf start ifd "is" rule: find_date.induct)
  case (2 le buf start ifd i "is")
  show ?case
  proof (cases "ifd + 2 + i * 12 + 12 > length buf")
    case False
    then obtain t where "date_entry le buf start (ifd + 2 + i * 12) = Some t" "t \<le> 253402300799" using date_entry_ok [of "ifd + 2 + i * 12" buf] by auto
    then show ?thesis using 2 False by (auto simp: Let_def fine_def)
  qed simp
qed simp

lemma walk_ok: "fine (walkExifTiff buf start)"
  unfolding walkExifTiff_def Let_def by (intro reading) (auto intro!: reading find_exif_ok find_date_ok split: option.split)

lemma jpeg_ok: "fine (jpeg_from b off)"
proof (induction "length b - off" arbitrary: off rule: less_induct)
  case less
  show ?case unfolding jpeg_from.simps [of b off] Let_def
    by (intro reading) (auto intro!: reading walk_ok less simp del: jpeg_from.simps)
qed

lemma png_ok: "fine (png_from b off)"
proof (induction "length b - off" arbitrary: off rule: less_induct)
  case less
  show ?case unfolding png_from.simps [of b off] Let_def
    by (intro reading) (auto intro!: reading walk_ok less simp del: png_from.simps)
qed

lemma webp_ok: "fine (webp_from b off)"
proof (induction "length b - off" arbitrary: off rule: less_induct)
  case less
  show ?case unfolding webp_from.simps [of b off] Let_def
    by (intro reading) (auto intro!: reading walk_ok less simp del: webp_from.simps)
qed

lemma heic_ok: "fine (heic_from b is)"
proof (induction b "is" rule: heic_from.induct)
  case (2 b i "is")
  show ?case
  proof (cases "i + 8 \<le> length b")
    case True
    then have "\<exists>h. tiff_header_at b i = Some h" by (auto simp: tiff_header_at_def)
    then show ?thesis using 2 walk_ok [of b i] by (auto simp: fine_def)
  qed simp
qed simp

lemma containers_ok: "fine (parseJpegExif b)" "fine (parsePngExif b)" "fine (parseWebpExif b)" "fine (parseHeicExif b)"
  by (auto simp: parseJpegExif_def parsePngExif_def parseWebpExif_def parseHeicExif_def simp del: jpeg_from.simps png_from.simps webp_from.simps
      intro!: reading jpeg_ok png_ok webp_ok heic_ok)

text \<open>
  C39: the search for a capture date is safe on any file. Whatever bytes a picture has, cut off, damaged or made up,
  the search ends without reading out of range, and its result is no date or a second between 1970 and the end of the year 9999.
\<close>

theorem capture_date_safe: "\<exists>t. ParseExifCaptureDate lower read_file p = Some t \<and> 0 \<le> t \<and> t \<le> 253402300799"
proof -
  have "fine (ParseExifCaptureDate lower read_file p)"
    using containers_ok walk_ok by (simp add: ParseExifCaptureDate_def Let_def split: option.split)
  then show ?thesis by (simp add: fine_def)
qed

section \<open>Dates are found\<close>

text \<open>A date as a camera writes it, the block that carries it, and the four kinds of container, each with anything
  of its own kind before the block and anything at all after it.\<close>

definition dig :: "int \<Rightarrow> byte" where "dig k = word_of_int (48 + k)"

definition two :: "int \<Rightarrow> bytes" where "two n = [dig (n div 10), dig (n mod 10)]"

definition date_text :: "int \<Rightarrow> int \<Rightarrow> int \<Rightarrow> int \<Rightarrow> int \<Rightarrow> int \<Rightarrow> bytes" where
  "date_text y m d h mi s = two (y div 100) @ two (y mod 100) @ [0x3A] @ two m @ [0x3A] @ two d @ [0x20] @ two h @ [0x3A] @ two mi @ [0x3A] @ two s"

definition put :: "nat \<Rightarrow> bool \<Rightarrow> nat \<Rightarrow> bytes" where
  "put k le n = (if le then rev (be_put k n) else be_put k n)"

text \<open>Eight bytes of header, a directory with the pointer to the second one, and that one with the date at offset 44.\<close>

definition exif_block :: "bool \<Rightarrow> bytes \<Rightarrow> bytes" where
  "exif_block le d =
     (if le then [0x49, 0x49] else [0x4D, 0x4D]) @ put 2 le 42 @ put 4 le 8 @
     put 2 le 1 @ (put 2 le 0x8769 @ put 2 le 4 @ put 4 le 1 @ put 4 le 26) @ put 4 le 0 @
     put 2 le 1 @ (put 2 le 0x9003 @ put 2 le 2 @ put 4 le 20 @ put 4 le 44) @ put 4 le 0 @
     d @ [0]"

lemma length_put [simp]: "length (put k le n) = k"
  by (simp add: put_def)

lemma length_two [simp]: "length (two n) = 2"
  by (simp add: two_def)

lemma length_text [simp]: "length (date_text y m d h mi s) = 19"
  by (simp add: date_text_def two_def)

lemma length_block [simp]: "length d = 19 \<Longrightarrow> length (exif_block le d) = 64"
  by (simp add: exif_block_def)

lemma digit_value: "0 \<le> k \<Longrightarrow> k \<le> 9 \<Longrightarrow> digits acc (dig k # cs) = digits (acc * 10 + k) cs"
proof -
  assume k: "0 \<le> k" "k \<le> 9"
  then have "uint (dig k) = 48 + k" unfolding dig_def uint_word_of_int by simp
  then show ?thesis using k by (simp add: word_le_def)
qed

lemma two_digits:
  assumes "0 \<le> n" "n \<le> 99"
  shows "digits acc (two n @ cs) = digits (acc * 100 + n) cs"
proof -
  have "0 \<le> n div 10" "n div 10 \<le> 9" "0 \<le> n mod 10" "n mod 10 \<le> 9" using assms by simp_all
  then have "digits acc (two n @ cs) = digits ((acc * 10 + n div 10) * 10 + n mod 10) cs" by (simp add: two_def digit_value del: digits.simps(2))
  moreover have "(acc * 10 + n div 10) * 10 + n mod 10 = acc * 100 + n" by simp
  ultimately show ?thesis by (simp only:)
qed

lemma two_value: "0 \<le> n \<Longrightarrow> n \<le> 99 \<Longrightarrow> digits acc (two n) = Some (acc * 100 + n)"
  using two_digits [of n acc "[]"] by simp

lemma four_value:
  assumes "0 \<le> n" "n \<le> 9999"
  shows "digits 0 (two (n div 100) @ two (n mod 100)) = Some n"
proof -
  have "0 \<le> n div 100" "n div 100 \<le> 99" "0 \<le> n mod 100" "n mod 100 \<le> 99" using assms by simp_all
  then show ?thesis by (simp add: two_digits two_value)
qed

lemma parse_text:
  assumes "valid_date y m d h mi s"
  shows "parse_date (date_text y m d h mi s) = Some (y, m, d, h, mi, s)"
proof -
  have "d \<le> 31" using assms daysIn_bound [of m y] by (simp add: valid_date_def)
  moreover have "take 4 (date_text y m d h mi s) = two (y div 100) @ two (y mod 100)" "take 2 (drop 5 (date_text y m d h mi s)) = two m"
    "take 2 (drop 8 (date_text y m d h mi s)) = two d" "take 2 (drop 11 (date_text y m d h mi s)) = two h"
    "take 2 (drop 14 (date_text y m d h mi s)) = two mi" "take 2 (drop 17 (date_text y m d h mi s)) = two s"
    by (simp_all add: date_text_def two_def)
  ultimately show ?thesis using assms by (simp add: parse_date_def four_value two_value valid_date_def)
qed

lemma date_found:
  assumes "valid_date y m d h mi s"
  shows "parseExifDate (date_text y m d h mi s) = Some (unix_date y m d h mi s)"
proof -
  have "date_text y m d h mi s ! 4 = 0x3A" "date_text y m d h mi s ! 7 = 0x3A" "date_text y m d h mi s ! 10 = 0x20"
    "date_text y m d h mi s ! 13 = 0x3A" "date_text y m d h mi s ! 16 = 0x3A"
    by (simp_all add: date_text_def two_def)
  then show ?thesis by (simp add: parseExifDate_def parse_text [OF assms])
qed

lemma slice_middle:
  assumes "j \<le> length b" "i \<le> j"
  shows "slice (pre @ b @ post) (length pre + i) (length pre + j) = slice b i j"
  using assms by (simp add: slice_def)

lemma Uint_middle: "i + k \<le> length b \<Longrightarrow> Uint k le (pre @ b @ post) (length pre + i) = Uint k le b i"
  using slice_middle [of "i + k" b i pre post] by (simp add: Uint_def add.assoc)

lemma put_value [simp]: "n < 256 ^ k \<Longrightarrow> le_uint (put k True n) = n" "n < 256 ^ k \<Longrightarrow> be_uint (put k False n) = n"
  by (simp_all add: put_def le_uint_def be_uint_put_small)

lemma block_reads:
  assumes "length d = 19"
  shows "Uint 2 False (exif_block le d) 0 = Some (if le then 0x4949 else 0x4D4D)"
    "Uint 2 le (exif_block le d) 2 = Some 42" "Uint 4 le (exif_block le d) 4 = Some 8"
    "Uint 2 le (exif_block le d) 8 = Some 1" "Uint 2 le (exif_block le d) 10 = Some 0x8769" "Uint 4 le (exif_block le d) 18 = Some 26"
    "Uint 2 le (exif_block le d) 26 = Some 1" "Uint 2 le (exif_block le d) 28 = Some 0x9003" "Uint 2 le (exif_block le d) 30 = Some 2"
    "Uint 4 le (exif_block le d) 32 = Some 20" "Uint 4 le (exif_block le d) 36 = Some 44"
    "slice (exif_block le d) 44 63 = Some d"
proof -
  show "Uint 2 False (exif_block le d) 0 = Some (if le then 0x4949 else 0x4D4D)" by (simp add: Uint_def slice_def exif_block_def be_uint_def)
qed (use assms in \<open>simp_all add: Uint_def slice_def exif_block_def\<close>)

lemma walk_block:
  assumes "length d = 19" "parseExifDate d = Some t" "0 < t"
  shows "walkExifTiff (pre @ exif_block le d @ post) (length pre) = Some t"
proof -
  let ?B = "exif_block le d" let ?b = "pre @ ?B @ post" let ?n = "length pre"
  have at: "j = ?n + i \<Longrightarrow> i + k \<le> 64 \<Longrightarrow> Uint k l ?B i = Some v \<Longrightarrow> Uint k l ?b j = Some v" for k l i j v using assms(1) by (simp add: Uint_middle)
  note reads = block_reads [OF assms(1), of le]
  have "Uint16 le ?b (?n + 28) = Some 0x9003" "Uint16 le ?b (?n + 28 + 2) = Some 2" "Uint32 le ?b (?n + 28 + 4) = Some 20" "Uint32 le ?b (?n + 28 + 8) = Some 44"
    unfolding Uint16_def Uint32_def by (rule at [OF _ _ reads(8)] at [OF _ _ reads(9)] at [OF _ _ reads(10)] at [OF _ _ reads(11)]; simp)+
  moreover have "slice ?b (?n + 44) (?n + 44 + 19) = Some d" using slice_middle [of 63 ?B 44 pre post] reads(12) assms(1) by (simp add: add.assoc)
  ultimately have "date_entry le ?b ?n (?n + 28) = Some t" using assms by (simp add: date_entry_def)
  then have "date_entry le ?b ?n (?n + 26 + 2) = Some t" by (simp add: add.commute)
  then have dates: "find_date le ?b ?n (?n + 26) [0..<1] = Some t" using assms by (simp add: Let_def)
  have "Uint16 le ?b (?n + 8 + 2) = Some 0x8769" "Uint32 le ?b (?n + 8 + 2 + 8) = Some 26"
    unfolding Uint16_def Uint32_def by (rule at [OF _ _ reads(5)] at [OF _ _ reads(6)]; simp)+
  then have exif: "find_exif le ?b (?n + 8) [0..<1] = Some (Some 26)" using assms(1) by (simp add: Let_def)
  have "Uint16 False ?b ?n = Some (if le then 0x4949 else 0x4D4D)" "Uint16 le ?b (?n + 2) = Some 42" "Uint32 le ?b (?n + 4) = Some 8" "Uint16 le ?b (?n + 8) = Some 1" "Uint16 le ?b (?n + 26) = Some 1"
    unfolding Uint16_def Uint32_def by (rule at [OF _ _ reads(1)] at [OF _ _ reads(2)] at [OF _ _ reads(3)] at [OF _ _ reads(4)] at [OF _ _ reads(7)]; simp)+
  then show ?thesis using dates exif assms(1) by (cases le) (simp_all add: walkExifTiff_def Let_def del: find_date.simps find_exif.simps upt_Suc)
qed

section \<open>Containers\<close>

definition jpeg_segment :: "byte \<times> bytes \<Rightarrow> bytes" where
  "jpeg_segment c = (case c of (marker, x) \<Rightarrow> [0xFF, marker] @ be_put 2 (length x + 2) @ x)"

definition jpeg_plain :: "byte \<times> bytes \<Rightarrow> bool" where
  "jpeg_plain c = (case c of (marker, x) \<Rightarrow> marker \<notin> {0xE1, 0xDA, 0xD9} \<and> length x + 2 < 65536)"

definition jpeg_app1 :: "bytes \<Rightarrow> bytes" where
  "jpeg_app1 blk = [0xFF, 0xE1] @ be_put 2 (length blk + 8) @ [0x45, 0x78, 0x69, 0x66, 0, 0] @ blk"

definition png_chunk :: "bytes \<times> bytes \<times> bytes \<Rightarrow> bytes" where
  "png_chunk c = (case c of (ctype, x, crc) \<Rightarrow> be_put 4 (length x) @ ctype @ x @ crc)"

definition png_plain :: "bytes \<times> bytes \<times> bytes \<Rightarrow> bool" where
  "png_plain c = (case c of (ctype, x, crc) \<Rightarrow> length ctype = 4 \<and> length crc = 4 \<and> length x < 256 ^ 4 \<and>
     ctype \<notin> {[0x65, 0x58, 0x49, 0x66], [0x49, 0x45, 0x4E, 0x44], [0x49, 0x44, 0x41, 0x54]})"

definition webp_chunk :: "bytes \<times> bytes \<Rightarrow> bytes" where
  "webp_chunk c = (case c of (ctype, x) \<Rightarrow> ctype @ rev (be_put 4 (length x)) @ x @ replicate (length x mod 2) 0)"

definition webp_plain :: "bytes \<times> bytes \<Rightarrow> bool" where
  "webp_plain c = (case c of (ctype, x) \<Rightarrow> length ctype = 4 \<and> length x < 256 ^ 4 \<and> ctype \<noteq> [0x45, 0x58, 0x49, 0x46])"

lemma be_put_two: "be_put 2 n = [word_of_nat (n div 256), word_of_nat n]"
  by (simp add: numeral_2_eq_2)

lemma be_two:
  assumes "n < 65536"
  shows "unat (be_put 2 n ! 0) * 256 + unat (be_put 2 n ! 1) = n"
proof -
  have "n div 256 < 256" using assms by (simp add: less_mult_imp_div_less)
  then show ?thesis by (simp add: be_put_two)
qed

lemma take_front: "n = length x \<Longrightarrow> b = x @ y \<Longrightarrow> take n b = x"
  by simp

lemma jpeg_head:
  assumes "n < 65536" "b = pre @ [0xFF, marker] @ be_put 2 n @ x" "off = length pre" "x \<noteq> []"
  shows "jpeg_from b off =
    (if marker = 0xE1 then
       (if off + 2 + n > length b then Some 0
        else if \<not> HasPrefix x [0x45, 0x78, 0x69, 0x66, 0, 0] then Some 0
        else walkExifTiff (take (off + 2 + n) b) (off + 4 + 6))
     else if marker = 0xDA \<or> marker = 0xD9 then Some 0
     else jpeg_from b (off + (2 + n)))"
proof -
  have "byte_at b off = Some 0xFF" "byte_at b (off + 1) = Some marker" "byte_at b (off + 2) = Some (be_put 2 n ! 0)" "byte_at b (off + 3) = Some (be_put 2 n ! 1)"
    using assms(2,3) by (simp_all add: byte_at_def nth_append)
  moreover have "slice b (off + 4) (length b) = Some x" using assms(2,3) by (simp add: slice_def)
  moreover have "off + 4 < length b" using assms by (cases x) simp_all
  moreover have cut: "\<not> length b < Suc (Suc (off + n)) \<Longrightarrow> slice b 0 (Suc (Suc (off + n))) = Some (take (Suc (Suc (off + n))) b)" by simp
  ultimately show ?thesis using be_two [OF assms(1)] by (subst jpeg_from.simps) (simp add: Let_def cut del: jpeg_from.simps slice_in)
qed

lemma jpeg_skip:
  assumes "list_all jpeg_plain segs" "x \<noteq> []"
  shows "jpeg_from (pre @ concat (map jpeg_segment segs) @ x) (length pre) =
    jpeg_from (pre @ concat (map jpeg_segment segs) @ x) (length (pre @ concat (map jpeg_segment segs)))"
  using assms(1)
proof (induction segs arbitrary: pre)
  case (Cons c segs)
  obtain marker y where c: "c = (marker, y)" by fastforce
  let ?b = "pre @ concat (map jpeg_segment (c # segs)) @ x"
  have "jpeg_from ?b (length pre) = jpeg_from ?b (length pre + (2 + (length y + 2)))"
    by (subst jpeg_head [where b = ?b and pre = pre and n = "length y + 2" and marker = marker and x = "y @ concat (map jpeg_segment segs) @ x"])
       (use Cons.prems assms(2) in \<open>auto simp: c jpeg_plain_def jpeg_segment_def simp del: jpeg_from.simps\<close>)
  also have "length pre + (2 + (length y + 2)) = length (pre @ jpeg_segment c)" by (simp add: c jpeg_segment_def)
  finally show ?case using Cons.IH [of "pre @ jpeg_segment c"] Cons.prems by (simp del: jpeg_from.simps)
qed (simp del: jpeg_from.simps)

lemma jpeg_found:
  assumes "list_all jpeg_plain segs" "length d = 19" "parseExifDate d = Some t" "0 < t"
  shows "parseJpegExif ([0xFF, 0xD8] @ concat (map jpeg_segment segs) @ jpeg_app1 (exif_block le d) @ rest) = Some t"
proof -
  let ?pre = "[0xFF, 0xD8] @ concat (map jpeg_segment segs)" let ?x = "[0x45, 0x78, 0x69, 0x66, 0, 0] @ exif_block le d @ rest"
  let ?b = "?pre @ [0xFF, 0xE1] @ be_put 2 72 @ ?x" let ?h = "?pre @ [0xFF, 0xE1] @ be_put 2 72 @ [0x45, 0x78, 0x69, 0x66, 0, 0]"
  have two_long: "length [0xFF, 0xD8 :: byte] = 2" by simp
  have "jpeg_from ?b 2 = jpeg_from ?b (length ?pre)"
    using jpeg_skip [OF assms(1), where pre = "[0xFF, 0xD8]" and x = "[0xFF, 0xE1] @ be_put 2 72 @ ?x"] by (simp only: append_assoc two_long not_Cons_self2 append_Cons list.distinct simp_thms)
  also have "\<dots> = walkExifTiff (take (length ?pre + 2 + 72) ?b) (length ?pre + 4 + 6)"
    by (subst jpeg_head [where n = 72 and marker = "0xE1" and x = ?x]) (use assms(2) in \<open>auto simp: HasPrefix_def simp del: jpeg_from.simps\<close>)
  also have "take (length ?pre + 2 + 72) ?b = ?h @ exif_block le d @ []"
  proof -
    have "length ?pre + 2 + 72 = length (?h @ exif_block le d)" "?b = (?h @ exif_block le d) @ rest" using assms(2) by simp_all
    then show ?thesis by (subst take_front [where x = "?h @ exif_block le d" and y = rest]) simp_all
  qed
  also have "length ?pre + 4 + 6 = length ?h" by simp
  also have "walkExifTiff (?h @ exif_block le d @ []) (length ?h) = Some t" by (rule walk_block [OF assms(2-4)])
  finally show ?thesis using assms(2) by (simp add: parseJpegExif_def jpeg_app1_def del: jpeg_from.simps)
qed

lemma png_head:
  assumes "n < 256 ^ 4" "b = pre @ be_put 4 n @ ctype @ x" "off = length pre" "length ctype = 4"
  shows "png_from b off =
    (if off + 8 + n + 4 > length b then Some 0
     else if ctype = [0x65, 0x58, 0x49, 0x66] then walkExifTiff (take (off + 8 + n) b) (off + 8)
     else if ctype = [0x49, 0x45, 0x4E, 0x44] \<or> ctype = [0x49, 0x44, 0x41, 0x54] then Some 0
     else png_from b (off + 8 + n + 4))"
proof -
  have "Uint32 False b off = Some n" using assms slice_middle [of 4 "be_put 4 n" 0 pre "ctype @ x"] by (simp add: Uint32_def Uint_def be_uint_put_small)
  moreover have "slice b (off + 4) (off + 8) = Some ctype" using assms(2-4) by (simp add: slice_def)
  moreover have "off + 8 \<le> length b" using assms by simp
  ultimately show ?thesis by (subst png_from.simps) (simp add: Let_def slice_def del: png_from.simps slice_in)
qed

lemma png_skip:
  assumes "list_all png_plain cs"
  shows "png_from (pre @ concat (map png_chunk cs) @ x) (length pre) =
    png_from (pre @ concat (map png_chunk cs) @ x) (length (pre @ concat (map png_chunk cs)))"
  using assms
proof (induction cs arbitrary: pre)
  case (Cons c cs)
  obtain ctype y crc where c: "c = (ctype, y, crc)" by (cases c)
  let ?b = "pre @ concat (map png_chunk (c # cs)) @ x"
  have "png_from ?b (length pre) = png_from ?b (length pre + 8 + length y + 4)"
    by (subst png_head [where b = ?b and pre = pre and n = "length y" and ctype = ctype and x = "y @ crc @ concat (map png_chunk cs) @ x"])
       (use Cons.prems in \<open>auto simp: c png_plain_def png_chunk_def simp del: png_from.simps\<close>)
  also have "length pre + 8 + length y + 4 = length (pre @ png_chunk c)" using Cons.prems by (simp add: c png_chunk_def png_plain_def)
  finally show ?case using Cons.IH [of "pre @ png_chunk c"] Cons.prems by (simp del: png_from.simps)
qed (simp del: png_from.simps)

lemma png_found:
  assumes "list_all png_plain cs" "length d = 19" "parseExifDate d = Some t" "0 < t" "length crc = 4"
  shows "parsePngExif ([0x89, 0x50, 0x4E, 0x47, 0x0D, 0x0A, 0x1A, 0x0A] @ concat (map png_chunk cs) @ png_chunk ([0x65, 0x58, 0x49, 0x66], exif_block le d, crc) @ rest) = Some t"
proof -
  let ?sig = "[0x89, 0x50, 0x4E, 0x47, 0x0D, 0x0A, 0x1A, 0x0A] :: bytes" let ?x = "exif_block le d @ crc @ rest"
  let ?pre = "?sig @ concat (map png_chunk cs)" let ?b = "?pre @ be_put 4 64 @ [0x65, 0x58, 0x49, 0x66] @ ?x" let ?h = "?pre @ be_put 4 64 @ [0x65, 0x58, 0x49, 0x66]"
  have long: "length ?sig = 8" by simp
  have "png_from ?b 8 = png_from ?b (length ?pre)"
    using png_skip [OF assms(1), where pre = ?sig and x = "be_put 4 64 @ [0x65, 0x58, 0x49, 0x66] @ ?x"] unfolding long by (simp only: append_assoc)
  also have "\<dots> = walkExifTiff (take (length ?pre + 8 + 64) ?b) (length ?pre + 8)"
    by (subst png_head [where pre = ?pre and n = 64 and ctype = "[0x65, 0x58, 0x49, 0x66]" and x = ?x]) (use assms(2,5) in \<open>simp_all del: png_from.simps\<close>)
  also have "take (length ?pre + 8 + 64) ?b = ?h @ exif_block le d @ []"
    by (subst take_front [where x = "?h @ exif_block le d" and y = "crc @ rest"]) (use assms(2) in simp_all)
  also have "length ?pre + 8 = length ?h" by simp
  also have "walkExifTiff (?h @ exif_block le d @ []) (length ?h) = Some t" by (rule walk_block [OF assms(2-4)])
  finally have "png_from ?b 8 = Some t" .
  moreover have "parsePngExif ?b = png_from ?b 8" by (simp add: parsePngExif_def HasPrefix_def del: png_from.simps)
  moreover have "?sig @ concat (map png_chunk cs) @ png_chunk ([0x65, 0x58, 0x49, 0x66], exif_block le d, crc) @ rest = ?b" using assms(2) by (simp add: png_chunk_def)
  ultimately show ?thesis by (simp only:)
qed

lemma webp_head:
  assumes "n < 256 ^ 4" "b = pre @ ctype @ rev (be_put 4 n) @ x" "off = length pre" "length ctype = 4"
  shows "webp_from b off =
    (if off + 8 + n > length b then Some 0
     else if ctype = [0x45, 0x58, 0x49, 0x46] then walkExifTiff (take (off + 8 + n) b) (off + 8)
     else webp_from b (off + 8 + n + n mod 2))"
proof -
  have "Uint32 True b (off + 4) = Some n"
    using assms slice_middle [of 4 "rev (be_put 4 n)" 0 "pre @ ctype" x] by (simp add: Uint32_def Uint_def le_uint_def be_uint_put_small add.assoc)
  moreover have "slice b off (off + 4) = Some ctype" using assms(2-4) by (simp add: slice_def)
  moreover have "off + 8 \<le> length b" using assms by simp
  ultimately show ?thesis by (subst webp_from.simps) (simp add: Let_def slice_def del: webp_from.simps slice_in)
qed

lemma webp_skip:
  assumes "list_all webp_plain cs"
  shows "webp_from (pre @ concat (map webp_chunk cs) @ x) (length pre) =
    webp_from (pre @ concat (map webp_chunk cs) @ x) (length (pre @ concat (map webp_chunk cs)))"
  using assms
proof (induction cs arbitrary: pre)
  case (Cons c cs)
  obtain ctype y where c: "c = (ctype, y)" by fastforce
  let ?b = "pre @ concat (map webp_chunk (c # cs)) @ x"
  have "webp_from ?b (length pre) = webp_from ?b (length pre + 8 + length y + length y mod 2)"
    by (subst webp_head [where b = ?b and pre = pre and n = "length y" and ctype = ctype and x = "y @ replicate (length y mod 2) 0 @ concat (map webp_chunk cs) @ x"])
       (use Cons.prems in \<open>auto simp: c webp_plain_def webp_chunk_def simp del: webp_from.simps\<close>)
  also have "length pre + 8 + length y + length y mod 2 = length (pre @ webp_chunk c)" using Cons.prems by (simp add: c webp_chunk_def webp_plain_def)
  finally show ?case using Cons.IH [of "pre @ webp_chunk c"] Cons.prems by (simp del: webp_from.simps)
qed (simp del: webp_from.simps)

lemma webp_found:
  assumes "list_all webp_plain cs" "length d = 19" "parseExifDate d = Some t" "0 < t" "length sz = 4"
  shows "parseWebpExif (([0x52, 0x49, 0x46, 0x46] @ sz @ [0x57, 0x45, 0x42, 0x50]) @ concat (map webp_chunk cs) @ webp_chunk ([0x45, 0x58, 0x49, 0x46], exif_block le d) @ rest) = Some t"
proof -
  let ?sig = "[0x52, 0x49, 0x46, 0x46] @ sz @ [0x57, 0x45, 0x42, 0x50] :: bytes" let ?x = "exif_block le d @ rest"
  let ?pre = "?sig @ concat (map webp_chunk cs)" let ?b = "?pre @ [0x45, 0x58, 0x49, 0x46] @ rev (be_put 4 64) @ ?x" let ?h = "?pre @ [0x45, 0x58, 0x49, 0x46] @ rev (be_put 4 64)"
  have long: "length ?sig = 12" using assms(5) by simp
  have "webp_from ?b 12 = webp_from ?b (length ?pre)"
    using webp_skip [OF assms(1), where pre = ?sig and x = "[0x45, 0x58, 0x49, 0x46] @ rev (be_put 4 64) @ ?x"] unfolding long by (simp only: append_assoc)
  also have "\<dots> = walkExifTiff (take (length ?pre + 8 + 64) ?b) (length ?pre + 8)"
    by (subst webp_head [where pre = ?pre and n = 64 and ctype = "[0x45, 0x58, 0x49, 0x46]" and x = ?x]) (use assms(2,5) in \<open>simp_all del: webp_from.simps\<close>)
  also have "take (length ?pre + 8 + 64) ?b = ?h @ exif_block le d @ []"
    by (subst take_front [where x = "?h @ exif_block le d" and y = rest]) (use assms(2) in simp_all)
  also have "length ?pre + 8 = length ?h" by simp
  also have "walkExifTiff (?h @ exif_block le d @ []) (length ?h) = Some t" by (rule walk_block [OF assms(2-4)])
  finally have "webp_from ?b 12 = Some t" .
  moreover have "parseWebpExif ?b = webp_from ?b 12" using assms(5) by (simp add: parseWebpExif_def HasPrefix_def slice_def del: webp_from.simps slice_in)
  moreover have "?sig @ concat (map webp_chunk cs) @ webp_chunk ([0x45, 0x58, 0x49, 0x46], exif_block le d) @ rest = ?b" using assms(2) by (simp add: webp_chunk_def)
  ultimately show ?thesis by (simp only:)
qed

lemma block_head: "\<exists>z. exif_block le d = (if le then [0x49, 0x49, 0x2A, 0] else [0x4D, 0x4D, 0, 0x2A]) @ z"
proof -
  have head: "take 4 (exif_block le d) = (if le then [0x49, 0x49, 0x2A, 0] else [0x4D, 0x4D, 0, 0x2A])" by (cases le) (simp_all add: exif_block_def put_def be_put_two)
  show ?thesis unfolding head [symmetric] by (intro exI [of _ "drop 4 (exif_block le d)"]) (rule append_take_drop_id [symmetric])
qed

lemma heic_found:
  assumes "length d = 19" "parseExifDate d = Some t" "0 < t" "b = pre @ exif_block le d @ rest" "\<forall>i < length pre. tiff_header_at b i = Some False"
  shows "parseHeicExif b = Some t"
proof -
  have header: "tiff_header_at b (length pre) = Some True"
  proof -
    obtain z where "exif_block le d = (if le then [0x49, 0x49, 0x2A, 0] else [0x4D, 0x4D, 0, 0x2A]) @ z" using block_head by blast
    then show ?thesis unfolding assms(4) by (cases le) (simp_all add: tiff_header_at_def byte_at_def nth_append)
  qed
  have here: "heic_from b (length pre # is) = Some t" for "is" using assms header walk_block [OF assms(1-3), of pre le rest] by simp
  have "heic_from b ([i..<length pre] @ length pre # is) = Some t" if "i \<le> length pre" for i "is"
    using that
  proof (induction i rule: inc_induct)
    case base
    then show ?case using here by simp
  next
    case (step n)
    have "[n..<length pre] = n # [Suc n..<length pre]" using step.hyps by (simp add: upt_conv_Cons)
    then show ?case using step assms(1,4,5) by simp
  qed
  moreover have "[0..<length b] = [0..<length pre] @ length pre # [Suc (length pre)..<length b]"
    using assms(1,4) upt_add_eq_append [of 0 "length pre" "64 + length rest"] by (simp add: upt_conv_Cons)
  ultimately show ?thesis unfolding parseHeicExif_def by (metis le0)
qed



end
