(* ===== verification/UploadCmd.thy ===== *)
theory UploadCmd
  imports Fetcher Exif
begin

text \<open>
  The upload command: \<open>cmd/ul.go\<close>, with the names it hands to the people a file is shared with
  (\<open>PropagateNameToShares\<close> of \<open>internal/e2ee/e2ee.go\<close>).

  The command composes the session with its keys and scanner keys, the staging directory, the client with its server,
  and the gate that all uploads of a directory wait at. A message that ends the process, \<open>ExitWithError\<close>, is
  \<open>Inl\<close>: what is deferred does not run then. The whole value is \<open>None\<close> if an upload does not return. What a directory
  holds is given as the list of its files. Progress bars and messages are left out; the parallel workers are represented by the order in which the files are taken.
\<close>

section \<open>State and environment\<close>

text \<open>The environment: the session's and the client's, the options of the command, the modification time of a local
  file, and the JSON values that are read and written: the node of an upload, the people a node is shared with, and a list of sealed names.\<close>

record ul_env =
  lvU :: up_env
  lvC :: cenv
  ulSkipExisting :: bool
  ulForce :: bool
  lvMtime :: "string \<Rightarrow> int option"
  jNodeID :: "bytes \<Rightarrow> string option"
  jRecipients :: "bytes \<Rightarrow> (bool \<times> ShareRecipientWithKey list) option"
  jSealedNames :: "(string \<times> string) list \<Rightarrow> string"

record ul_world =
  lwUp :: up_world
  lwNet :: cstate
  lwGate :: int
  succeeded :: nat
  failed :: nat
  skipped :: nat

type_synonym 'a run = "((string + 'a) \<times> ul_world)"

record fileEntry =
  feLocalPath :: string
  feRelPath :: string
  feSize :: int

definition with_keys :: "keys \<Rightarrow> ul_world \<Rightarrow> ul_world" where
  "with_keys k w = w\<lparr>lwUp := (lwUp w)\<lparr>uwKeys := k\<rparr>\<rparr>"

definition remove_staged :: "string \<Rightarrow> ul_world \<Rightarrow> ul_world" where
  "remove_staged p w = w\<lparr>lwUp := drop_file p (lwUp w)\<rparr>"

definition HasE2EEKeys :: "ul_env \<Rightarrow> ul_world \<Rightarrow> bool" where
  "HasE2EEKeys E w = HasEncryptionKeys (cfg_of (uvV (lvU E)) (uwKeys (lwUp w)))"

text \<open>The client reads staged files as they were written, and other files as they are.\<close>

definition staged :: "ul_env \<Rightarrow> ul_world \<Rightarrow> cenv" where
  "staged E w = (lvC E)\<lparr>cFile := (\<lambda>h p. case uwFiles (lwUp w) p of Some b \<Rightarrow> Some b | None \<Rightarrow> cFile (lvC E) h p)\<rparr>"

definition net :: "(cstate \<Rightarrow> 'a \<times> cstate) \<Rightarrow> ul_world \<Rightarrow> 'a \<times> ul_world" where
  "net f w = (case f (lwNet w) of (x, s) \<Rightarrow> (x, w\<lparr>lwNet := s\<rparr>))"

section \<open>Names for the people a node is shared with\<close>

definition ShareRecipientsForNode :: "ul_env \<Rightarrow> string \<Rightarrow> cstate \<Rightarrow> (bool \<times> ShareRecipientWithKey list) option \<times> cstate" where
  "ShareRecipientsForNode E nodeIDHex s =
     (case postAction (lvC E) ''share-recipients-for-node'' [''nodeId'' \<mapsto> nodeIDHex] s of
        (raw, Some e, s1) \<Rightarrow> (None, s1)
      | (raw, None, s1) \<Rightarrow> (jRecipients E raw, s1))"

definition StoreShareDisplayNames :: "ul_env \<Rightarrow> string \<Rightarrow> (string \<times> string) list \<Rightarrow> cstate \<Rightarrow> cstate" where
  "StoreShareDisplayNames E recipientUsername names s =
     (if names = [] then s
      else snd (snd (postAction (lvC E) ''store-share-display-names'' [''recipientUsername'' \<mapsto> recipientUsername, ''sealedNames'' \<mapsto> jSealedNames E names] s)))"

text \<open>One recipient: the key is pinned first; a key that the pins refuse gets nothing.\<close>

definition share_name :: "ul_env \<Rightarrow> string \<Rightarrow> string \<Rightarrow> ShareRecipientWithKey \<Rightarrow> ul_world \<Rightarrow> ul_world" where
  "share_name E nodeIDHex plaintextName r w =
     (let V = uvV (lvU E); tee = uwTee (lwUp w) in
      case PinShareRecipientSealKey (uvE (lvU E)) r (twPins tee) of
        (res, pns) \<Rightarrow>
          (let w1 = w\<lparr>lwUp := (lwUp w)\<lparr>uwTee := tee\<lparr>twPins := pns\<rparr>\<rparr>\<rparr> in
           case res of
             Inl e \<Rightarrow> w1
           | Inr recipient \<Rightarrow>
               (let k = uwKeys (lwUp w1); w2 = with_keys (ktick k) w1 in
                case seal_name V k 0 plaintextName recipient of
                  Inl e \<Rightarrow> w2
                | Inr sealed \<Rightarrow> w2\<lparr>lwNet := StoreShareDisplayNames E (srUsername r) [(nodeIDHex, b64_encode sealed)] (lwNet w2)\<rparr>)))"

definition PropagateNameToShares :: "ul_env \<Rightarrow> string \<Rightarrow> string \<Rightarrow> ul_world \<Rightarrow> ul_world" where
  "PropagateNameToShares E nodeIDHex plaintextName w =
     (if nodeIDHex = [] \<or> plaintextName = [] \<or> \<not> HasE2EEKeys E w then w
      else case net (ShareRecipientsForNode E nodeIDHex) w of
             (None, w1) \<Rightarrow> w1
           | (Some (success, recipients), w1) \<Rightarrow>
               if \<not> success then w1 else fold (share_name E nodeIDHex plaintextName) recipients w1)"

section \<open>The rate limit\<close>

definition ulRateLimitRetries :: nat where "ulRateLimitRetries = 3"

definition holdUntil :: "int \<Rightarrow> int \<Rightarrow> int" where
  "holdUntil until gate = (if until > gate then until else gate)"

partial_function (option) gate_wait :: "cenv \<Rightarrow> int \<Rightarrow> cstate \<Rightarrow> (bool \<times> cstate) option" where
  "gate_wait C until s =
     (let remaining = until - cNow C (csHist s) in
      if remaining \<le> 0 then Some (True, s)
      else case wait_for C (word_of_int remaining) s of (ok, s1) \<Rightarrow> if ok then gate_wait C until s1 else Some (False, s1))"

text \<open>\<open>left\<close> counts the attempts still allowed after this one; the gate is common to all uploads.\<close>

fun rate_attempts :: "cenv \<Rightarrow> string \<Rightarrow> string \<Rightarrow> options \<Rightarrow> nat \<Rightarrow> nat \<Rightarrow> int \<Rightarrow> cstate \<Rightarrow> ((cerr + Response) \<times> int \<times> cstate) option" where
  "rate_attempts C lp rp opts attempt left gate s =
     do {
       (ok, s1) \<leftarrow> gate_wait C gate s;
       if \<not> ok then Some (Inl canceled_err, gate, s1)
       else do {
         (r, s2) \<leftarrow> UploadFile C lp (base_name lp) rp (Some opts) s1;
         case r of
           Inr resp \<Rightarrow> Some (Inr resp, gate, s2)
         | Inl e \<Rightarrow>
             if \<not> IsRateLimited (ceApi e) then Some (Inl e, gate, s2)
             else (case left of
                     0 \<Rightarrow> Some (Inl e, gate, s2)
                   | Suc n \<Rightarrow>
                       (let delay = (case ScanBudgetWait (ceApi e) of Some d \<Rightarrow> d | None \<Rightarrow> RateLimitDelay (int attempt) (RetryAfterHint (ceApi e)))
                        in rate_attempts C lp rp opts (Suc attempt) n (holdUntil (cNow C (csHist s2) + sint delay) gate) s2))}}"

declare rate_attempts.simps [simp del]

definition uploadHonouringRateLimit :: "ul_env \<Rightarrow> string \<Rightarrow> string \<Rightarrow> options option \<Rightarrow> ul_world \<Rightarrow> ((cerr + Response) \<times> ul_world) option" where
  "uploadHonouringRateLimit E localPath remoteDir e2eeOpts w =
     (let C = staged E w; opts0 = (case e2eeOpts of None \<Rightarrow> Map.empty | Some m \<Rightarrow> m);
          opts = (if opt opts0 ''upload_idempotency_key'' = []
                  then opts0(''upload_idempotency_key'' \<mapsto> NewUploadIdempotencyKey C (csHist (lwNet w))) else opts0)
      in do {
           (r, gate, s) \<leftarrow> rate_attempts C localPath remoteDir opts 0 ulRateLimitRetries (lwGate w) (lwNet w);
           Some (r, w\<lparr>lwGate := gate, lwNet := s\<rparr>)})"

section \<open>Sealing\<close>

definition applyPreserveTimestamps :: "ul_env \<Rightarrow> ul_world \<Rightarrow> options \<Rightarrow> int \<Rightarrow> string \<Rightarrow> options" where
  "applyPreserveTimestamps E w opts mtime localPath =
     (let m = (if mtime > 0 then opts(''source_mtime'' \<mapsto> show_int mtime) else opts) in
      case ParseExifCaptureDate (cToLower (lvC E)) (cFile (staged E w) (csHist (lwNet w))) localPath of
        Some captured \<Rightarrow> if captured > 0 then m(''captured_at'' \<mapsto> show_int captured) else m
      | None \<Rightarrow> m)"

definition add_if :: "string \<Rightarrow> string \<Rightarrow> options \<Rightarrow> options" where
  "add_if k v m = (if v \<noteq> [] then m(k \<mapsto> v) else m)"

text \<open>The artifacts of an upload and its options, up to the path tokens: the two callers differ in those only.\<close>

definition seal_file :: "ul_env \<Rightarrow> string \<Rightarrow> string \<Rightarrow> string \<Rightarrow> ul_world \<Rightarrow> (UploadArtifacts \<times> options) run" where
  "seal_file E localPath fileName fullPath w =
     (let V = uvV (lvU E) in
      case EncryptForUpload (lvU E) (cFile (staged E w) (csHist (lwNet w)) localPath) (lwUp w) of
        (Inl e, u) \<Rightarrow> (Inl e, w\<lparr>lwUp := u\<rparr>)
      | (Inr a, u) \<Rightarrow>
          (let w1 = w\<lparr>lwUp := u\<rparr>;
               m0 = [''sealed_key'' \<mapsto> uaSealedKeyB64 a, ''encryption_meta'' \<mapsto> uaEncMetaB64 a, ''_original_name'' \<mapsto> fileName];
               m1 = (case lvMtime E localPath of None \<Rightarrow> m0 | Some t \<Rightarrow> applyPreserveTimestamps E w1 m0 t localPath);
               m2 = add_if ''plaintext_hmac'' (uaPlaintextHmacHex a) (add_if ''tee_sealed_key'' (uaTeeSealedKeyB64 a) m1);
               m3 = (if ulForce E then m2(''force'' \<mapsto> ''true'') else m2)
           in case SignEncryptedFile V (uwFiles u (uaEncryptedPath a)) (uwKeys u) of
                (Inl e, k) \<Rightarrow> (Inl e, with_keys k w1)
              | (Inr sg, k) \<Rightarrow>
                  (let m4 = m3(''signature_ed25519'' \<mapsto> usSignatureEd25519B64 sg, ''signature_mldsa'' \<mapsto> usSignatureMldsaB64 sg,
                               ''signing_pk_ed25519'' \<mapsto> usSigningPkEd25519B64 sg, ''signing_pk_mldsa'' \<mapsto> usSigningPkMldsaB64 sg)
                   in case AddE2eeNameFields V m4 fileName (TrimLeft (CHR ''/'') fullPath) k of
                        ((Some e, m5), k1) \<Rightarrow> (Inl e, with_keys k1 w1)
                      | ((None, m5), k1) \<Rightarrow> (Inr (a, m5), with_keys k1 w1))))"

definition add_tokens :: "ul_env \<Rightarrow> options \<Rightarrow> string \<Rightarrow> PathTokenDepth \<Rightarrow> ul_world \<Rightarrow> options run" where
  "add_tokens E m p depth w =
     (case AddPathTokensFor (uvV (lvU E)) m p depth (uwKeys (lwUp w)) of
        ((Some e, m1), k) \<Rightarrow> (Inl e, with_keys k w)
      | ((None, m1), k) \<Rightarrow> (Inr m1, with_keys k w))"

definition sealForUpload :: "ul_env \<Rightarrow> fileEntry \<Rightarrow> string \<Rightarrow> ul_world \<Rightarrow> (UploadArtifacts \<times> options) run" where
  "sealForUpload E f remoteFilePath w =
     (case seal_file E (feLocalPath f) (base_name (feLocalPath f)) remoteFilePath w of
        (Inl e, w1) \<Rightarrow> (Inl e, w1)
      | (Inr (a, m), w1) \<Rightarrow>
          (let parentDir = path_Dir (TrimLeft (CHR ''/'') remoteFilePath) in
           if parentDir = ''.'' \<or> parentDir = [] then (Inr (a, m), w1)
           else case add_tokens E m parentDir PathTokenSelfAndAncestors w1 of
                  (Inl e, w2) \<Rightarrow> (Inl e, w2)
                | (Inr m1, w2) \<Rightarrow> (Inr (a, m1), w2)))"

text \<open>The size of the staged file.\<close>

definition staged_size :: "UploadArtifacts \<Rightarrow> int \<Rightarrow> ul_world \<Rightarrow> int" where
  "staged_size a otherwise w = (case uwFiles (lwUp w) (uaEncryptedPath a) of Some b \<Rightarrow> int (length b) | None \<Rightarrow> otherwise)"

section \<open>Sending, and sealing once more\<close>

type_synonym sealed = "(UploadArtifacts \<times> options) option"

definition sendResealingOnce ::
  "ul_env \<Rightarrow> sealed \<Rightarrow> (ul_world \<Rightarrow> (UploadArtifacts \<times> options) run) \<Rightarrow> (sealed \<Rightarrow> ul_world \<Rightarrow> ((cerr + Response) \<times> ul_world) option) \<Rightarrow> ul_world
     \<Rightarrow> (UploadArtifacts option \<times> (cerr + Response)) run option" where
  "sendResealingOnce E sealed reseal send_it w =
     do {
       (r, w1) \<leftarrow> send_it sealed w;
       case (sealed, r) of
         (None, _) \<Rightarrow> Some (Inr (None, r), w1)
       | (Some (a, m), Inr resp) \<Rightarrow> Some (Inr (Some a, Inr resp), w1)
       | (Some (a, m), Inl err) \<Rightarrow>
           (case TeeSealWentStale (uvE (lvU E)) err (uaTeeKeySet a) (uwTee (lwUp w1)) of
              ((stale, refusal), t) \<Rightarrow>
                (let w2 = w1\<lparr>lwUp := (lwUp w1)\<lparr>uwTee := t\<rparr>\<rparr> in
                 case refusal of
                   Some why \<Rightarrow> Some (Inr (Some a, Inl (text_err (''security scanner refused: '' @ why))), w2)
                 | None \<Rightarrow>
                     if \<not> stale then Some (Inr (Some a, Inl err), w2)
                     else (case reseal (remove_staged (uaEncryptedPath a) w2) of
                             (Inl e, w3) \<Rightarrow> Some (Inl e, w3)
                           | (Inr (a2, m2), w3) \<Rightarrow>
                               do {
                                 (r2, w4) \<leftarrow> send_it (Some (a2, m2)) w3;
                                 Some (Inr (Some a2, r2), w4)})))}"

section \<open>One file of a directory\<close>

definition remote_exists :: "ul_env \<Rightarrow> string \<Rightarrow> ul_world \<Rightarrow> bool run" where
  "remote_exists E p w =
     (case add_tokens E [''source'' \<mapsto> p] p PathTokenSelfAndParent w of
        (Inl e, w1) \<Rightarrow> (Inl e, w1)
      | (Inr m, w1) \<Rightarrow>
          (case net (Execute (lvC E) ''in'' m) w1 of
             (Inl e, w2) \<Rightarrow> (Inr False, w2)
           | (Inr resp, w2) \<Rightarrow> (Inr (rsSuccess resp), w2)))"

text \<open>Without keys \<open>AddPathTokensFor\<close> adds nothing, so that the two checks of the source are one.\<close>

definition alreadyUploaded :: "ul_env \<Rightarrow> string \<Rightarrow> ul_world \<Rightarrow> bool run" where
  "alreadyUploaded E p w = (if \<not> ulSkipExisting E then (Inr False, w) else remote_exists E p w)"

definition forceCollisionBlocked :: "ul_env \<Rightarrow> string \<Rightarrow> int \<Rightarrow> ul_world \<Rightarrow> bool run" where
  "forceCollisionBlocked E p sz w = (if \<not> ulForce E \<or> \<not> UploadIsChunked sz then (Inr False, w) else remote_exists E p w)"

definition remoteParentDir :: "string \<Rightarrow> string" where
  "remoteParentDir p = (let d = path_Dir p in if d = ''.'' \<or> d = [] then ''/'' else d)"

definition add_failed :: "ul_world \<Rightarrow> ul_world" where "add_failed w = w\<lparr>failed := Suc (failed w)\<rparr>"
definition add_skipped :: "ul_world \<Rightarrow> ul_world" where "add_skipped w = w\<lparr>skipped := Suc (skipped w)\<rparr>"
definition add_succeeded :: "ul_world \<Rightarrow> ul_world" where "add_succeeded w = w\<lparr>succeeded := Suc (succeeded w)\<rparr>"

definition send_entry :: "ul_env \<Rightarrow> string \<Rightarrow> string \<Rightarrow> sealed \<Rightarrow> ul_world \<Rightarrow> ((cerr + Response) \<times> ul_world) option" where
  "send_entry E localPath remoteDir sealed w =
     (case sealed of
        None \<Rightarrow> uploadHonouringRateLimit E localPath remoteDir None w
      | Some (a, m) \<Rightarrow> uploadHonouringRateLimit E (uaEncryptedPath a) remoteDir (Some m) w)"

definition removeSealed :: "UploadArtifacts option \<Rightarrow> ul_world \<Rightarrow> ul_world" where
  "removeSealed a w = (case a of None \<Rightarrow> w | Some x \<Rightarrow> remove_staged (uaEncryptedPath x) w)"

text \<open>A success is counted after the name has been handed to the people the file is shared with.\<close>

definition upload_done :: "ul_env \<Rightarrow> bool \<Rightarrow> string \<Rightarrow> Response \<Rightarrow> ul_world \<Rightarrow> ul_world" where
  "upload_done E useE2EE fileName resp w =
     add_succeeded
       (if \<not> useE2EE then w
        else case jNodeID E (rsRaw resp) of
               None \<Rightarrow> w
             | Some nodeID \<Rightarrow> if nodeID = [] then w else PropagateNameToShares E nodeID fileName w)"

text \<open>What happens once the file is sealed, or not.\<close>

definition upload_sealed :: "ul_env \<Rightarrow> bool \<Rightarrow> fileEntry \<Rightarrow> string \<Rightarrow> sealed \<Rightarrow> ul_world \<Rightarrow> unit run option" where
  "upload_sealed E useE2EE f remoteFilePath sealed w =
     (let uploadSize = (case sealed of None \<Rightarrow> feSize f | Some (a, m) \<Rightarrow> staged_size a (feSize f) w)
      in case forceCollisionBlocked E remoteFilePath uploadSize w of
           (Inl e, w1) \<Rightarrow> Some (Inl e, w1)
         | (Inr True, w1) \<Rightarrow> Some (Inr (), add_failed (removeSealed (map_option fst sealed) w1))
         | (Inr False, w1) \<Rightarrow>
             do {
               (r, w2) \<leftarrow> sendResealingOnce E sealed (sealForUpload E f remoteFilePath) (send_entry E (feLocalPath f) (remoteParentDir remoteFilePath)) w1;
               case r of
                 Inl e \<Rightarrow> Some (Inl e, w2)
               | Inr (a, Inl err) \<Rightarrow> Some (Inr (), add_failed (removeSealed a w2))
               | Inr (a, Inr resp) \<Rightarrow>
                   Some (Inr (), if \<not> rsSuccess resp then add_failed (removeSealed a w2)
                                 else upload_done E useE2EE (base_name (feLocalPath f)) resp (removeSealed a w2))})"

definition uploadOne :: "ul_env \<Rightarrow> bool \<Rightarrow> string \<Rightarrow> fileEntry \<Rightarrow> ul_world \<Rightarrow> unit run option" where
  "uploadOne E useE2EE remoteRoot f w =
     (let remoteFilePath = remoteRoot @ ''/'' @ feRelPath f in
      case alreadyUploaded E remoteFilePath w of
        (Inl e, w1) \<Rightarrow> Some (Inl e, w1)
      | (Inr True, w1) \<Rightarrow> Some (Inr (), add_skipped w1)
      | (Inr False, w1) \<Rightarrow>
          if cCanceled (lvC E) (csHist (lwNet w1)) then Some (Inr (), add_failed w1)
          else if useE2EE then
            (case sealForUpload E f remoteFilePath w1 of
               (Inl e, w2) \<Rightarrow> Some (Inl e, w2)
             | (Inr am, w2) \<Rightarrow> upload_sealed E useE2EE f remoteFilePath (Some am) w2)
          else upload_sealed E useE2EE f remoteFilePath None w1)"

text \<open>All files, in the order in which the workers take them.\<close>

fun run_uploads :: "ul_env \<Rightarrow> bool \<Rightarrow> string \<Rightarrow> fileEntry list \<Rightarrow> ul_world \<Rightarrow> unit run option" where
  "run_uploads E useE2EE remoteRoot [] w = Some (Inr (), w)"
| "run_uploads E useE2EE remoteRoot (f # fs) w =
     do {
       (r, w1) \<leftarrow> uploadOne E useE2EE remoteRoot f w;
       case r of
         Inl e \<Rightarrow> Some (Inl e, w1)
       | Inr _ \<Rightarrow> run_uploads E useE2EE remoteRoot fs w1}"

section \<open>Directories\<close>

text \<open>A directory that is there already is no error.\<close>

definition dir_options :: "ul_env \<Rightarrow> string \<Rightarrow> ul_world \<Rightarrow> options run" where
  "dir_options E remotePath w =
     (let m0 = [''source'' \<mapsto> remotePath, ''parents'' \<mapsto> ''true''] in
      if \<not> HasE2EEKeys E w then (Inr m0, w)
      else case add_tokens E m0 remotePath PathTokenSelfAndParent w of
             (Inl e, w1) \<Rightarrow> (Inl e, w1)
           | (Inr m1, w1) \<Rightarrow>
               (let trimmed = TrimPrefix remotePath ''/'' in
                if trimmed = [] then (Inr m1, w1)
                else case AddE2eeNameFieldsForMkParents (uvV (lvU E)) m1 (split_slash trimmed) (uwKeys (lwUp w1)) of
                       ((Some e, m2), k) \<Rightarrow> (Inl e, with_keys k w1)
                     | ((None, m2), k) \<Rightarrow> (Inr m2, with_keys k w1)))"

definition ensureRemoteDir :: "ul_env \<Rightarrow> string \<Rightarrow> ul_world \<Rightarrow> bool run" where
  "ensureRemoteDir E remotePath w =
     (case dir_options E remotePath w of
        (Inl e, w1) \<Rightarrow> (Inl e, w1)
      | (Inr m, w1) \<Rightarrow>
          (case net (Execute (lvC E) ''mk'' m) w1 of
             (Inl e, w2) \<Rightarrow> (Inr False, w2)
           | (Inr resp, w2) \<Rightarrow> (Inr (rsSuccess resp \<or> rsErrorCode resp = ''path_exists''), w2)))"

fun ensure_dirs :: "ul_env \<Rightarrow> string \<Rightarrow> string list \<Rightarrow> ul_world \<Rightarrow> unit run" where
  "ensure_dirs E remoteRoot [] w = (Inr (), w)"
| "ensure_dirs E remoteRoot (d # ds) w =
     (case ensureRemoteDir E (remoteRoot @ ''/'' @ d) w of
        (Inl e, w1) \<Rightarrow> (Inl e, w1)
      | (Inr _, w1) \<Rightarrow> ensure_dirs E remoteRoot ds w1)"

definition remote_root :: "string \<Rightarrow> string \<Rightarrow> string" where
  "remote_root resolvedRemote dirName =
     (if resolvedRemote \<noteq> [] \<and> last resolvedRemote = CHR ''/'' then resolvedRemote @ dirName else resolvedRemote @ ''/'' @ dirName)"

text \<open>\<open>files\<close> and \<open>dirs\<close> are what the walk over the local directory finds; \<open>None\<close> if it fails.\<close>

definition runRecursiveUpload :: "ul_env \<Rightarrow> string \<Rightarrow> string \<Rightarrow> (fileEntry list \<times> string list) option \<Rightarrow> ul_world \<Rightarrow> unit run option" where
  "runRecursiveUpload E localDir resolvedRemote found w =
     (let remoteRoot = remote_root resolvedRemote (base_name localDir)
      in case found of
           None \<Rightarrow> Some (Inl ''Failed to scan directory'', w)
         | Some (files, dirs) \<Rightarrow>
             if files = [] then Some (Inr (), w)
             else (case ensureRemoteDir E remoteRoot w of
                     (Inl e, w1) \<Rightarrow> Some (Inl e, w1)
                   | (Inr False, w1) \<Rightarrow> Some (Inl ''Failed to create remote directory'', w1)
                   | (Inr True, w1) \<Rightarrow>
                       (case ensure_dirs E remoteRoot dirs w1 of
                          (Inl e, w2) \<Rightarrow> Some (Inl e, w2)
                        | (Inr _, w2) \<Rightarrow> run_uploads E (HasE2EEKeys E w2) remoteRoot files w2)))"

section \<open>One file\<close>

text \<open>The name and the directory a single upload goes to: from standard input the remote path names the file.\<close>

definition upload_target :: "bool \<Rightarrow> string \<Rightarrow> string \<Rightarrow> (string \<times> string) option" where
  "upload_target stdinMode localPath resolved =
     (if \<not> stdinMode then Some (base_name localPath, resolved)
      else if resolved \<noteq> [] \<and> last resolved = CHR ''/'' then None
      else let d = path_Dir resolved in Some (base_name resolved, if d \<noteq> ''/'' then d @ ''/'' else d))"

definition full_path :: "string \<Rightarrow> string \<Rightarrow> string" where
  "full_path dir name = (if dir \<noteq> [] \<and> last dir = CHR ''/'' then dir @ name else dir @ ''/'' @ name)"

definition seal_single :: "ul_env \<Rightarrow> string \<Rightarrow> string \<Rightarrow> string \<Rightarrow> ul_world \<Rightarrow> (UploadArtifacts \<times> options) run" where
  "seal_single E localPath fileName dir w =
     (case seal_file E localPath fileName (full_path dir fileName) w of
        (Inl e, w1) \<Rightarrow> (Inl e, w1)
      | (Inr (a, m), w1) \<Rightarrow>
          (case add_tokens E m dir PathTokenSelfAndParent w1 of
             (Inl e, w2) \<Rightarrow> (Inl e, w2)
           | (Inr m1, w2) \<Rightarrow> (Inr (a, m1), w2)))"

text \<open>The part of \<open>runUpload\<close> after sealing: every send has a gate of its own, open at the zero time. Every failure ends the process; a success removes the staged file at last.\<close>

definition finish_single :: "ul_env \<Rightarrow> string \<Rightarrow> string \<Rightarrow> string \<Rightarrow> int \<Rightarrow> sealed \<Rightarrow> ul_world \<Rightarrow> unit run option" where
  "finish_single E localPath fileName dir sz sealed w =
     (let fileSize = (case sealed of None \<Rightarrow> sz | Some (a, m) \<Rightarrow> staged_size a sz w) in
      case forceCollisionBlocked E (full_path dir fileName) fileSize w of
        (Inl e, w1) \<Rightarrow> Some (Inl e, w1)
      | (Inr True, w1) \<Rightarrow> Some (Inl (full_path dir fileName @ '' already exists.''), w1)
      | (Inr False, w1) \<Rightarrow>
          do {
            (r, w2) \<leftarrow> sendResealingOnce E sealed (seal_single E localPath fileName dir) (\<lambda>am w. send_entry E localPath dir am (w\<lparr>lwGate := 0\<rparr>)) w1;
            case r of
              Inl e \<Rightarrow> Some (Inl e, w2)
            | Inr (a, Inl err) \<Rightarrow> Some (Inl ''Upload failed'', w2)
            | Inr (a, Inr resp) \<Rightarrow>
                if \<not> rsSuccess resp then Some (Inl (rsMessage resp), w2)
                else (case jNodeID E (rsRaw resp) of
                        None \<Rightarrow> Some (Inl ''Failed to parse response'', w2)
                      | Some nodeID \<Rightarrow>
                          (let w3 = (if nodeID = [] then w2 else PropagateNameToShares E nodeID fileName w2) in
                           Some (Inr (), removeSealed a w3)))})"

text \<open>A single file. What is read from standard input is kept in a temporary file, which is in the staging directory of
  the model; the deferred removal runs only if the process is not ended. JSON output, which skips the names for shares, is left out.\<close>

definition upload_single :: "ul_env \<Rightarrow> bool \<Rightarrow> string \<Rightarrow> string \<Rightarrow> int \<Rightarrow> ul_world \<Rightarrow> unit run option" where
  "upload_single E stdinMode localPath resolved sz w =
     (case upload_target stdinMode localPath resolved of
        None \<Rightarrow> Some (Inl ''Stdin upload needs a full remote file path'', w)
      | Some (fileName, dir) \<Rightarrow>
          (let check = (if \<not> ulSkipExisting E then (Inr False, w)
                        else remote_exists E (if dir \<noteq> [] \<and> last dir = CHR ''/'' then dir @ fileName else dir) w)
           in case check of
                (Inl e, w1) \<Rightarrow> Some (Inl e, w1)
              | (Inr True, w1) \<Rightarrow> Some (Inr (), w1)
              | (Inr False, w1) \<Rightarrow>
                  if \<not> HasE2EEKeys E w1 then finish_single E localPath fileName dir sz None w1
                  else (case seal_single E localPath fileName dir w1 of
                          (Inl e, w2) \<Rightarrow> Some (Inl e, w2)
                        | (Inr am, w2) \<Rightarrow> finish_single E localPath fileName dir sz (Some am) w2)))"

definition upload_stdin :: "ul_env \<Rightarrow> bytes \<Rightarrow> string \<Rightarrow> string \<Rightarrow> ul_world \<Rightarrow> unit run option" where
  "upload_stdin E input tmpPath resolved w =
     do {
       (r, w1) \<leftarrow> upload_single E True tmpPath resolved (int (length input)) (w\<lparr>lwUp := (lwUp w)\<lparr>uwFiles := (uwFiles (lwUp w))(tmpPath \<mapsto> input)\<rparr>\<rparr>);
       case r of
         Inl e \<Rightarrow> Some (Inl e, w1)
       | Inr _ \<Rightarrow> Some (Inr (), remove_staged tmpPath w1)}"

end
