(* ===== verification/UploadLaws.thy ===== *)
theory UploadLaws
  imports UploadCmd FetchLaws
begin

text \<open>
  Laws of the upload command: what leaves the machine is encrypted, repeated attempts carry one idempotency key, names
  go only to keys the pins accept, every upload of a directory returns, counts every file once and leaves no staged file; and what a process that ends early leaves behind.
\<close>

section \<open>Steps that only move the keys\<close>

lemma with_keys_simps [simp]:
  "uwFiles (lwUp (with_keys k w)) = uwFiles (lwUp w)" "lwNet (with_keys k w) = lwNet w" "succeeded (with_keys k w) = succeeded w"
  "failed (with_keys k w) = failed w" "skipped (with_keys k w) = skipped w"
  by (simp_all add: with_keys_def)

lemma with_keys_twice [simp]: "with_keys k (with_keys k' w) = with_keys k w"
  by (simp add: with_keys_def)

lemma remove_staged_simps [simp]:
  "uwFiles (lwUp (remove_staged p w)) = (uwFiles (lwUp w))(p := None)" "lwNet (remove_staged p w) = lwNet w"
  "succeeded (remove_staged p w) = succeeded w" "failed (remove_staged p w) = failed w" "skipped (remove_staged p w) = skipped w"
  by (simp_all add: remove_staged_def drop_file_def)

text \<open>Two worlds with the same files and counts.\<close>

definition counted :: "ul_world \<Rightarrow> nat" where "counted w = succeeded w + failed w + skipped w"

definition alike :: "ul_world \<Rightarrow> ul_world \<Rightarrow> bool" where
  "alike w w' \<longleftrightarrow> uwFiles (lwUp w') = uwFiles (lwUp w) \<and> counted w' = counted w"

lemma alike_refl [simp]: "alike w w"
  by (simp add: alike_def)

lemma alike_trans: "alike w w1 \<Longrightarrow> alike w1 w2 \<Longrightarrow> alike w w2"
  by (simp add: alike_def)

lemma add_tokens_keys: "add_tokens E m p d w = (r, w') \<Longrightarrow> \<exists>k. w' = with_keys k w"
  by (auto simp: add_tokens_def split: prod.splits option.splits)

lemma add_tokens_other:
  assumes "add_tokens E m p d w = (Inr m', w')" "x \<noteq> ''path_tokens''" "x \<noteq> ''path_tokens_legacy''"
  shows "m' x = m x"
  using assms by (auto simp: add_tokens_def AddPathTokensFor_def AddPathTokensForAll_def addPathTokensLocked_def Let_def split: prod.splits option.splits if_splits sum.splits)

lemma name_fields_other:
  assumes "AddE2eeNameFields V m nm full k = ((None, m'), k')" "x \<noteq> ''e2ee_display_name''" "x \<noteq> ''e2ee_path_token''"
  shows "m' x = m x"
  using assms by (auto simp: AddE2eeNameFields_def split: prod.splits option.splits if_splits sum.splits)

lemma timestamps_other: "x \<noteq> ''source_mtime'' \<Longrightarrow> x \<noteq> ''captured_at'' \<Longrightarrow> applyPreserveTimestamps E w m t lp x = m x"
  by (auto simp: applyPreserveTimestamps_def Let_def split: option.split)

section \<open>Sealing a file\<close>

lemma seal_file_run:
  assumes "seal_file E lp nm full w = (Inr (a, m), w')"
  obtains u k where "EncryptForUpload (lvU E) (cFile (staged E w) (csHist (lwNet w)) lp) (lwUp w) = (Inr a, u)" "w' = with_keys k (w\<lparr>lwUp := u\<rparr>)"
    "m ''sealed_key'' = Some (uaSealedKeyB64 a)"
proof -
  obtain u where enc: "EncryptForUpload (lvU E) (cFile (staged E w) (csHist (lwNet w)) lp) (lwUp w) = (Inr a, u)"
    using assms by (auto simp: seal_file_def Let_def split: prod.splits sum.splits option.splits)
  obtain k m4 k4 where names: "AddE2eeNameFields (uvV (lvU E)) m4 nm (TrimLeft (CHR ''/'') full) k4 = ((None, m), k)" "w' = with_keys k (w\<lparr>lwUp := u\<rparr>)"
    "m4 ''sealed_key'' = Some (uaSealedKeyB64 a)"
    using assms enc by (auto simp: seal_file_def Let_def add_if_def timestamps_other split: prod.splits sum.splits option.splits if_splits)
  then show thesis using that enc name_fields_other [OF names(1)] by simp
qed

lemma seal_file_exit:
  assumes "seal_file E lp nm full w = (Inl e, w')"
  shows "lwNet w' = lwNet w"
  using assms by (auto simp: seal_file_def Let_def split: prod.splits sum.splits option.splits)

lemma seal_run:
  assumes "sealForUpload E f p w = (Inr (a, m), w')"
  obtains u k where "EncryptForUpload (lvU E) (cFile (staged E w) (csHist (lwNet w)) (feLocalPath f)) (lwUp w) = (Inr a, u)" "w' = with_keys k (w\<lparr>lwUp := u\<rparr>)"
    "m ''sealed_key'' = Some (uaSealedKeyB64 a)"
proof -
  obtain m1 w1 where s: "seal_file E (feLocalPath f) (base_name (feLocalPath f)) p w = (Inr (a, m1), w1)" and
    "(m = m1 \<and> w' = w1) \<or> (\<exists>d. add_tokens E m1 d PathTokenSelfAndAncestors w1 = (Inr m, w'))"
    using assms by (auto simp: sealForUpload_def Let_def split: prod.splits sum.splits if_splits)
  then have w: "(\<exists>k. w' = with_keys k w1) \<or> w' = w1" "m ''sealed_key'' = m1 ''sealed_key''" using add_tokens_keys add_tokens_other by fastforce+
  obtain u k where "EncryptForUpload (lvU E) (cFile (staged E w) (csHist (lwNet w)) (feLocalPath f)) (lwUp w) = (Inr a, u)" "w1 = with_keys k (w\<lparr>lwUp := u\<rparr>)"
    "m1 ''sealed_key'' = Some (uaSealedKeyB64 a)" by (rule seal_file_run [OF s])
  then show thesis using w that by (metis with_keys_twice)
qed

lemma seal_exit: "sealForUpload E f p w = (Inl e, w') \<Longrightarrow> lwNet w' = lwNet w"
  by (auto simp: sealForUpload_def Let_def split: prod.splits sum.splits if_splits dest!: seal_file_exit add_tokens_keys elim!: seal_file_run)

section \<open>Waiting and repeating\<close>

text \<open>One round: the gate was given up, the upload ended it, or there is another round.\<close>

lemma attempt_cases [consumes 1, case_names waited uploaded again]:
  assumes "rate_attempts C lp rp opts k n gate s = Some (r, gate', s')"
  obtains ok where "gate_wait C gate s = Some (ok, s')" "r = Inl canceled_err"
  | ok s1 where "gate_wait C gate s = Some (ok, s1)" "UploadFile C lp (base_name lp) rp (Some opts) s1 = Some (r, s')"
  | ok s1 x s2 k' g n' where "gate_wait C gate s = Some (ok, s1)" "UploadFile C lp (base_name lp) rp (Some opts) s1 = Some (x, s2)" "n = Suc n'"
      "rate_attempts C lp rp opts k' n' g s2 = Some (r, gate', s')"
proof -
  note run = assms [unfolded rate_attempts.simps [of C lp rp opts k n gate s]]
  obtain ok s1 where g: "gate_wait C gate s = Some (ok, s1)" using run by (auto simp: bind_eq_Some_conv)
  show thesis
  proof (cases ok)
    case True
    then obtain x s2 where u: "UploadFile C lp (base_name lp) rp (Some opts) s1 = Some (x, s2)" using run g by (auto simp: bind_eq_Some_conv)
    show thesis
    proof (cases "r = x \<and> s' = s2")
      case False
      then show thesis using run g u True that(3) by (auto simp: Let_def split: sum.splits if_splits nat.splits)
    qed (use that(2) g u in simp)
  qed (use that(1) run g in auto)
qed

context client_rel
begin

lemma rel_gate:
  assumes "gate_wait C until s = Some y"
  shows "rel s (snd y)"
  using assms
proof (induction rule: gate_wait.raw_induct [rotated, consumes 1, case_names step])
  case (step rec C until s y)
  obtain ok s1 where w: "wait_for C (word_of_int (until - cNow C (csHist s))) s = (ok, s1)" by fastforce
  then have "rel s s1" using rel_wait [of s C] by (metis snd_conv)
  moreover have "y = (True, s) \<or> y = (False, s1) \<or> rec C until s1 = Some y" using step(2) w by (simp add: Let_def split: if_splits)
  ultimately show ?case using step(1) rel_refl rel_trans by (metis snd_conv)
qed

lemma rel_attempts:
  assumes "\<And>s r s1. UploadFile C lp (base_name lp) rp (Some opts) s = Some (r, s1) \<Longrightarrow> rel s s1" "rate_attempts C lp rp opts k n gate s = Some (r, gate', s')"
  shows "rel s s'"
  using assms(2)
proof (induction n arbitrary: k gate s)
  case 0
  then show ?case
  proof (cases rule: attempt_cases)
    case (uploaded ok s1)
    then show ?thesis using rel_gate [OF uploaded(1)] assms(1) rel_trans by force
  qed (use rel_gate in force, simp)
next
  case (Suc n)
  from Suc.prems show ?case
  proof (cases rule: attempt_cases)
    case (uploaded ok s1)
    then show ?thesis using rel_gate [OF uploaded(1)] assms(1) rel_trans by force
  next
    case (again ok s1 x s2 k' g n')
    then have "rel s s1" "rel s1 s2" "rel s2 s'" using rel_gate [OF again(1)] assms(1) Suc.IH by auto
    then show ?thesis using rel_trans by blast
  qed (use rel_gate in force)
qed

end

section \<open>What is sent\<close>

text \<open>The file content a request carries, and the file name it shows.\<close>

definition carried :: "request \<Rightarrow> bytes option" where
  "carried r = (case r of ReqBody m d \<Rightarrow> Some d | ReqForm f x \<Rightarrow> x | _ \<Rightarrow> None)"

definition shown :: "request \<Rightarrow> string option" where
  "shown r = (case r of ReqBody m d \<Rightarrow> m ''source'' | ReqForm f x \<Rightarrow> f ''originalName'' | _ \<Rightarrow> None)"

definition stub_name :: "cenv \<Rightarrow> string \<Rightarrow> bool" where
  "stub_name C nm \<longleftrightarrow> nm = ''f'' \<or> (\<exists>ext. nm = CHR ''f'' # cToLower C (CHR ''.'' # ext))"

lemma wire_stub: "stub_name C (uploadWireName C nm)"
proof (cases "CHR ''.'' \<in> set nm")
  case True
  then obtain stem ext where nm: "nm = stem @ ''.'' @ ext" "CHR ''.'' \<notin> set ext" by (metis append_Cons append_Nil split_list_last)
  show ?thesis
  proof (cases "stem = []")
    case True
    have "takeWhile (\<lambda>c. c \<noteq> CHR ''.'') (rev ext @ [CHR ''.'']) = rev ext" using nm(2) by (subst takeWhile_append2) auto
    then show ?thesis using nm True by (simp add: uploadWireName_def stub_name_def Let_def)
  next
    case False
    then show ?thesis using wire_name_extension nm by (auto simp: stub_name_def)
  qed
qed (simp add: uploadWireName_def stub_name_def)

text \<open>A file that \<open>EncryptForUpload\<close> made of the content of one of the files.\<close>

definition made_of :: "ul_env \<Rightarrow> string set \<Rightarrow> UploadArtifacts \<Rightarrow> bytes \<Rightarrow> bool" where
  "made_of E ps a ct \<longleftrightarrow>
     (\<exists>w u. \<exists>p \<in> ps. EncryptForUpload (lvU E) (cFile (staged E w) (csHist (lwNet w)) p) (lwUp w) = (Inr a, u) \<and> uwFiles u (uaEncryptedPath a) = Some ct)"

definition sealed_request :: "ul_env \<Rightarrow> string set \<Rightarrow> request \<Rightarrow> bool" where
  "sealed_request E ps r \<longleftrightarrow> (\<forall>x. carried r = Some x \<longrightarrow> (\<exists>a ct. made_of E ps a ct \<and> sublist x ct)) \<and> (\<forall>nm. shown r = Some nm \<longrightarrow> stub_name (lvC E) nm)"

lemma plain_requests [simp]: "sealed_request E ps (ReqCli c m)" "sealed_request E ps (ReqAction c m)" "sealed_request E ps ReqSession"
  by (simp_all add: sealed_request_def carried_def shown_def)

lemma slice_sublist: "sublist (take n (drop k d)) d"
  by (metis append_take_drop_id sublist_append_leftI sublist_append_rightI sublist_order.order_trans)

lemma upload_options_sealed:
  assumes "m ''sealed_key'' = Some v" "v \<noteq> []"
  shows "opt (upload_options_of C h base rp (Some m)) ''sealed_key'' \<noteq> []"
  using assms by (simp add: upload_options_of_def Let_def opt_def map_add_def split: option.split)

lemma staged_simps [simp]: "cToLower (staged E w) = cToLower (lvC E)" "cNow (staged E w) = cNow (lvC E)"
  by (simp_all add: staged_def)

lemma upload_sealed_requests:
  assumes "uwFiles (lwUp w) p = Some ct" "made_of E ps a ct" "m ''sealed_key'' = Some v" "v \<noteq> []"
    "UploadFile (staged E w) p (base_name p) rp (Some m) s = Some (r, s1)"
  shows "sends (sealed_request E ps) s s1"
proof -
  let ?C = "staged E w" let ?opts = "upload_options_of ?C (csHist s) (base_name p) rp (Some m)"
  have content: "cFile ?C h p = Some ct" for h using assms(1) by (simp add: staged_def)
  have key: "opt ?opts ''sealed_key'' \<noteq> []" using upload_options_sealed [of m v] assms(3,4) by blast
  have stub: "stub_name (lvC E) (wire_name ?C ?opts)" using key wire_stub [of ?C] by (simp add: wire_name_def stub_name_def)
  have "final_fields ?C csrf rp cid n sz ?opts ''originalName'' = Some (wire_name ?C ?opts)" for csrf cid n sz
    by (simp add: final_fields_def copied_other [OF web_fields(2)])
  moreover have "wire_options ?C ?opts ''source'' = Some (wire_name ?C ?opts)" using key by (simp add: wire_options_def wire_name_def)
  moreover have "\<exists>a c. made_of E ps a c \<and> sublist (take n (drop j ct)) c" "\<exists>a c. made_of E ps a c \<and> sublist ct c" for n j using assms(2) slice_sublist by blast+
  ultimately show ?thesis
    using stub content
    by (intro UploadFile_sends [OF assms(5) refl]) (auto simp: sealed_request_def carried_def shown_def chunk_fields_name)
qed

section \<open>Staged files\<close>

definition temp_fresh :: "ul_env \<Rightarrow> bool" where
  "temp_fresh E \<longleftrightarrow> (\<forall>w p. uvTemp (lvU E) w = Some p \<longrightarrow> uwFiles w p = None)"

lemma encrypted_files:
  assumes "EncryptForUpload U c w = (Inr a, u)"
  obtains ct w1 where "uwFiles u = (uwFiles w)(uaEncryptedPath a \<mapsto> ct)" "uvTemp U w1 = Some (uaEncryptedPath a)" "uwFiles w1 = uwFiles w"
proof -
  obtain input where c: "c = Some input" and run: "EncryptForUpload U (Some input) w = (Inr a, u)"
    using assms by (cases c) (auto simp: EncryptForUpload_def Let_def split: sum.splits prod.splits option.splits)
  from upload_run [OF run] obtain pub k1 meta ct sealed tee t r where pub: "publicKeyLocked (uvV U) (uwKeys w) = (Inr pub, k1)"
    and fin: "finish_upload U (uaEncryptedPath a) (upload_key U w) meta ct sealed tee r (w\<lparr>uwKeys := ktick k1, uwTee := t\<rparr>) = (Inr a, u)" by metis
  have "uwFiles u = (uwFiles w)(uaEncryptedPath a \<mapsto> ct)" using fin by (auto simp: finish_upload_def Let_def split: sum.splits prod.splits option.splits)
  moreover have "uvTemp U (w\<lparr>uwKeys := ktick k1\<rparr>) = Some (uaEncryptedPath a)"
    using run pub finish_run(1) by (auto simp: EncryptForUpload_def Let_def split: sum.splits prod.splits option.splits if_splits)
  ultimately show thesis using that [of ct "w\<lparr>uwKeys := ktick k1\<rparr>"] by simp
qed

text \<open>A sealed upload whose file is staged, and which shows the server no name.\<close>

definition good_seal :: "ul_env \<Rightarrow> string set \<Rightarrow> UploadArtifacts \<times> options \<Rightarrow> ul_world \<Rightarrow> bool" where
  "good_seal E ps am w \<longleftrightarrow>
     (\<exists>ct v. uwFiles (lwUp w) (uaEncryptedPath (fst am)) = Some ct \<and> made_of E ps (fst am) ct \<and> snd am ''sealed_key'' = Some v \<and> v \<noteq> [])"

lemma b64_some: "x \<noteq> [] \<Longrightarrow> b64_encode x \<noteq> []"
  by (metis b64_decode_encode b64_encode.simps(1) option.inject)

lemma encrypted_key:
  assumes "crypto_ok (kvP (uvV U)) G" "EncryptForUpload U c w = (Inr a, u)"
  shows "uaSealedKeyB64 a \<noteq> []"
proof -
  obtain input where run: "EncryptForUpload U (Some input) w = (Inr a, u)"
    using assms(2) by (cases c) (auto simp: EncryptForUpload_def Let_def split: sum.splits prod.splits option.splits)
  from upload_run [OF run] obtain sealed e x n key pub p meta ct tee r w1 where "SealDataKey (kvP (uvV U)) e x n key (Some pub) = Inr sealed"
    "finish_upload U p key meta ct sealed tee r w1 = (Inr a, u)" by metis
  then show ?thesis using sealed_some [OF assms(1)] finish_run(3) b64_some by metis
qed

lemma seal_good:
  assumes "crypto_ok (kvP (uvV (lvU E))) G" "temp_fresh E" "feLocalPath f \<in> ps" "sealForUpload E f p w = (Inr am, w')"
  shows "good_seal E ps am w'" "(uwFiles (lwUp w'))(uaEncryptedPath (fst am) := None) = uwFiles (lwUp w)" "lwNet w' = lwNet w" "counted w' = counted w"
proof -
  obtain a m where am: "am = (a, m)" by fastforce
  obtain u k where u: "EncryptForUpload (lvU E) (cFile (staged E w) (csHist (lwNet w)) (feLocalPath f)) (lwUp w) = (Inr a, u)" "w' = with_keys k (w\<lparr>lwUp := u\<rparr>)"
    "m ''sealed_key'' = Some (uaSealedKeyB64 a)" using seal_run assms(4) am by blast
  obtain ct w1 where ct: "uwFiles u = (uwFiles (lwUp w))(uaEncryptedPath a \<mapsto> ct)" "uvTemp (lvU E) w1 = Some (uaEncryptedPath a)" "uwFiles w1 = uwFiles (lwUp w)"
    by (rule encrypted_files [OF u(1)])
  have "made_of E ps a ct" unfolding made_of_def using u(1) ct(1) assms(3) by fastforce
  then show "good_seal E ps am w'" using u ct am encrypted_key [OF assms(1) u(1)] by (simp add: good_seal_def)
  have "uwFiles (lwUp w) (uaEncryptedPath a) = None" using assms(2) ct(2,3) unfolding temp_fresh_def by metis
  then show "(uwFiles (lwUp w'))(uaEncryptedPath (fst am) := None) = uwFiles (lwUp w)" using u(2) ct(1) am by auto
  show "lwNet w' = lwNet w" "counted w' = counted w" using u(2) by (simp_all add: counted_def)
qed

lemma send_entry_sends:
  assumes "good_seal E ps am w" "send_entry E lp rd (Some am) w = Some (r, w')"
  shows "sends (sealed_request E ps) (lwNet w) (lwNet w')" "lwUp w' = lwUp w" "counted w' = counted w"
proof -
  obtain a m where am: "am = (a, m)" by fastforce
  obtain ct v where good: "uwFiles (lwUp w) (uaEncryptedPath a) = Some ct" "made_of E ps a ct" "m ''sealed_key'' = Some v" "v \<noteq> []" using assms(1) am by (auto simp: good_seal_def)
  obtain m' gate s where run: "rate_attempts (staged E w) (uaEncryptedPath a) rd m' 0 ulRateLimitRetries (lwGate w) (lwNet w) = Some (r, gate, s)"
    and w': "w' = w\<lparr>lwGate := gate, lwNet := s\<rparr>" and m': "m' ''sealed_key'' = Some v"
    using assms(2) good(3) am by (auto simp: send_entry_def uploadHonouringRateLimit_def Let_def bind_eq_Some_conv split: if_splits)
  have "sends (sealed_request E ps) (lwNet w) s"
    by (rule sending.rel_attempts [OF _ run], rule upload_sealed_requests) (use good m' in auto)
  then show "sends (sealed_request E ps) (lwNet w) (lwNet w')" using w' by simp
  show "lwUp w' = lwUp w" "counted w' = counted w" using w' by (simp_all add: counted_def)
qed

lemma resealing:
  assumes "crypto_ok (kvP (uvV (lvU E))) G" "temp_fresh E" "feLocalPath f \<in> ps" "good_seal E ps am w"
    "sendResealingOnce E (Some am) (sealForUpload E f p) (send_entry E lp rd) w = Some (r, w')"
  shows "sends (sealed_request E ps) (lwNet w) (lwNet w')" "counted w' = counted w \<or> isl r"
    "r = Inr (x, res) \<Longrightarrow> \<exists>a. x = Some a \<and> (uwFiles (lwUp w'))(uaEncryptedPath a := None) = (uwFiles (lwUp w))(uaEncryptedPath (fst am) := None)"
proof -
  obtain a m where am: "am = (a, m)" by fastforce
  obtain r1 w1 where s1: "send_entry E lp rd (Some am) w = Some (r1, w1)" using assms(5) by (auto simp: sendResealingOnce_def bind_eq_Some_conv)
  note first = send_entry_sends [OF assms(4) s1]
  let ?goal = "sends (sealed_request E ps) (lwNet w) (lwNet w') \<and> (counted w' = counted w \<or> isl r) \<and>
    (r = Inr (x, res) \<longrightarrow> (\<exists>a. x = Some a \<and> (uwFiles (lwUp w'))(uaEncryptedPath a := None) = (uwFiles (lwUp w))(uaEncryptedPath (fst am) := None)))"
  have ?goal
  proof (cases r1)
    case (Inr resp)
    then show ?thesis using assms(5) s1 am first by (auto simp: sendResealingOnce_def)
  next
    case (Inl err)
    obtain stale refusal t where st: "TeeSealWentStale (uvE (lvU E)) err (uaTeeKeySet a) (uwTee (lwUp w1)) = ((stale, refusal), t)" by (metis surj_pair)
    let ?w2 = "w1\<lparr>lwUp := (lwUp w1)\<lparr>uwTee := t\<rparr>\<rparr>"
    show ?thesis
    proof (cases "stale \<and> refusal = None")
      case False
      then have "\<exists>x. r = Inr (Some a, x) \<and> w' = ?w2" using assms(5) s1 am Inl st by (auto simp: sendResealingOnce_def Let_def split: option.splits)
      then show ?thesis using first am by (auto simp: counted_def)
    next
      case True
      let ?w3 = "remove_staged (uaEncryptedPath a) ?w2"
      obtain y w4 where y: "sealForUpload E f p ?w3 = (y, w4)" by fastforce
      show ?thesis
      proof (cases y)
        case exit: (Inl e)
        then have "w' = w4" "r = Inl e" "lwNet w4 = lwNet w1" using assms(5) s1 am Inl st True y seal_exit [of E f p ?w3 e w4] by (auto simp: sendResealingOnce_def)
        then show ?thesis using first by simp
      next
        case again: (Inr am2)
        obtain a2 m2 where am2: "am2 = (a2, m2)" by fastforce
        note seal = seal_good [OF assms(1-3) y [unfolded again]]
        obtain r2 where s2: "send_entry E lp rd (Some am2) w4 = Some (r2, w')" and r: "r = Inr (Some a2, r2)"
          using assms(5) s1 am Inl st True y again am2 by (auto simp: sendResealingOnce_def bind_eq_Some_conv)
        note second = send_entry_sends [OF seal(1) s2]
        have "sends (sealed_request E ps) (lwNet w) (lwNet w')" using first(1) second(1) seal(3) sending.rel_trans by fastforce
        moreover have "(uwFiles (lwUp w'))(uaEncryptedPath a2 := None) = (uwFiles (lwUp w))(uaEncryptedPath a := None)"
          using seal(2) second(2) first(2) am2 by simp
        moreover have "counted w' = counted w" using second(3) seal(4) first(3) by (simp add: counted_def)
        ultimately show ?thesis using r am by auto
      qed
    qed
  qed
  then show "sends (sealed_request E ps) (lwNet w) (lwNet w')" "counted w' = counted w \<or> isl r"
    "r = Inr (x, res) \<Longrightarrow> \<exists>a. x = Some a \<and> (uwFiles (lwUp w'))(uaEncryptedPath a := None) = (uwFiles (lwUp w))(uaEncryptedPath (fst am) := None)" by blast+
qed

section \<open>Questions and shared names\<close>

lemma execute_sends: "sends (\<lambda>r. \<exists>m. r = ReqCli c m) s (snd (Execute C c m s))"
proof -
  have "sends (\<lambda>r. \<exists>m. r = ReqCli c m) s (snd (execute_once C c m s))" for s
  proof -
    have "snd (execute_once C c m s) = snd (send C (ReqCli c m) s)" by (auto simp: execute_once_def split: prod.split sum.split option.split)
    then show ?thesis using sends_send [of "\<lambda>r. \<exists>m. r = ReqCli c m" "ReqCli c m" s C] by simp
  qed
  then show ?thesis unfolding Execute_def by (rule sending.rel_withRetry)
qed

lemma action_sends: "Q (ReqAction c m) \<Longrightarrow> postAction C c m s = (raw, e, s') \<Longrightarrow> sends Q s s'"
  using sends_send [of Q "ReqAction c m" s C] by (auto simp: postAction_def split: prod.splits sum.splits if_splits)

lemma exists_same:
  assumes "remote_exists E p w = (r, w')"
  shows "sends (sealed_request E ps) (lwNet w) (lwNet w')" "alike w w'"
proof -
  obtain y w1 where t: "add_tokens E [''source'' \<mapsto> p] p PathTokenSelfAndParent w = (y, w1)" by fastforce
  then obtain k where k: "w1 = with_keys k w" using add_tokens_keys by blast
  show "sends (sealed_request E ps) (lwNet w) (lwNet w')"
  proof (cases y)
    case (Inr m)
    have "sends (sealed_request E ps) (lwNet w) (snd (Execute (lvC E) ''in'' m (lwNet w)))"
      by (rule sends_mono [OF execute_sends]) auto
    then show ?thesis using assms t k Inr by (auto simp: remote_exists_def net_def split: prod.splits sum.splits)
  qed (use assms t k sending.rel_refl in \<open>auto simp: remote_exists_def\<close>)
  show "alike w w'" using assms t k by (auto simp: remote_exists_def net_def alike_def counted_def split: prod.splits sum.splits)
qed

lemma share_same: "sends (sealed_request E ps) (lwNet w) (lwNet (share_name E n nm r w))" "alike w (share_name E n nm r w)"
proof -
  have store: "sends (sealed_request E ps) s (StoreShareDisplayNames E u names s)" for u names s
    using action_sends [of "sealed_request E ps"] by (auto simp: StoreShareDisplayNames_def sending.rel_refl) (metis plain_requests(2) prod.collapse)
  show "sends (sealed_request E ps) (lwNet w) (lwNet (share_name E n nm r w))"
    using store by (auto simp: share_name_def Let_def sending.rel_refl split: prod.split sum.split)
  show "alike w (share_name E n nm r w)" by (auto simp: share_name_def Let_def alike_def counted_def split: prod.split sum.split)
qed

lemma shares_same: "sends (sealed_request E ps) (lwNet w) (lwNet (PropagateNameToShares E n nm w))" "alike w (PropagateNameToShares E n nm w)"
proof -
  have fold: "sends (sealed_request E ps) (lwNet w) (lwNet (fold (share_name E n nm) rs w)) \<and> alike w (fold (share_name E n nm) rs w)" for rs w
    by (induction rs arbitrary: w) (auto simp: sending.rel_refl intro: sending.rel_trans share_same alike_trans)
  obtain x s1 where x: "ShareRecipientsForNode E n (lwNet w) = (x, s1)" by fastforce
  have s1: "sends (sealed_request E ps) (lwNet w) s1"
    using x action_sends [of "sealed_request E ps"] by (auto simp: ShareRecipientsForNode_def split: prod.splits option.splits)
  have "sends (sealed_request E ps) (lwNet w) (lwNet (PropagateNameToShares E n nm w)) \<and> alike w (PropagateNameToShares E n nm w)"
    using x s1 fold [of "w\<lparr>lwNet := s1\<rparr>"] sending.rel_refl sending.rel_trans
    by (auto simp: PropagateNameToShares_def net_def alike_def counted_def split: option.split)
  then show "sends (sealed_request E ps) (lwNet w) (lwNet (PropagateNameToShares E n nm w))" "alike w (PropagateNameToShares E n nm w)" by blast+
qed

section \<open>One file, and all of them\<close>

lemma drop_alike: "alike w w' \<Longrightarrow> (uwFiles (lwUp w'))(p := None) = (uwFiles (lwUp w))(p := None) \<and> counted w' = counted w"
  by (simp add: alike_def)

lemma count_steps [simp]:
  "uwFiles (lwUp (add_failed w)) = uwFiles (lwUp w)" "uwFiles (lwUp (add_skipped w)) = uwFiles (lwUp w)" "uwFiles (lwUp (add_succeeded w)) = uwFiles (lwUp w)"
  "lwNet (add_failed w) = lwNet w" "lwNet (add_skipped w) = lwNet w" "lwNet (add_succeeded w) = lwNet w"
  "counted (add_failed w) = Suc (counted w)" "counted (add_skipped w) = Suc (counted w)" "counted (add_succeeded w) = Suc (counted w)"
  "counted (remove_staged p w) = counted w"
  by (simp_all add: add_failed_def add_skipped_def add_succeeded_def counted_def)

lemma blocked_same:
  assumes "forceCollisionBlocked E p sz w = (r, w')"
  shows "sends (sealed_request E ps) (lwNet w) (lwNet w')" "alike w w'"
  using assms exists_same [of E p w r w'] by (auto simp: forceCollisionBlocked_def sending.rel_refl split: if_splits)

lemma uploaded_same:
  assumes "alreadyUploaded E p w = (r, w')"
  shows "sends (sealed_request E ps) (lwNet w) (lwNet w')" "alike w w'"
  using assms exists_same [of E p w r w'] by (auto simp: alreadyUploaded_def sending.rel_refl split: if_splits)

text \<open>The end of an upload of one file: names are shared and the file is counted.\<close>

lemma done_same:
  "sends (sealed_request E ps) (lwNet w) (lwNet (upload_done E e2ee nm resp w))" "uwFiles (lwUp (upload_done E e2ee nm resp w)) = uwFiles (lwUp w)"
  "counted (upload_done E e2ee nm resp w) = Suc (counted w)"
  using shares_same(1) [where E = E and ps = ps and w = w] shares_same(2) [where E = E and w = w]
  by (auto simp: upload_done_def sending.rel_refl alike_def split: option.split)

lemma removeSealed_simps [simp]: "removeSealed None w = w" "removeSealed (Some a) w = remove_staged (uaEncryptedPath a) w"
  by (simp_all add: removeSealed_def)

lemma sealed_upload:
  assumes "crypto_ok (kvP (uvV (lvU E))) G" "temp_fresh E" "feLocalPath f \<in> ps" "good_seal E ps am w"
    "upload_sealed E e2ee f p (Some am) w = Some (r, w')"
  shows "sends (sealed_request E ps) (lwNet w) (lwNet w')"
    "r = Inr () \<Longrightarrow> uwFiles (lwUp w') = (uwFiles (lwUp w))(uaEncryptedPath (fst am) := None) \<and> counted w' = Suc (counted w)"
proof -
  let ?sz = "case am of (a, m) \<Rightarrow> staged_size a (feSize f) w"
  obtain b w1 where b: "forceCollisionBlocked E p ?sz w = (b, w1)" by fastforce
  note same = blocked_same(1) [where ps = ps, OF b] blocked_same(2) [OF b]
  have good: "good_seal E ps am w1" using assms(4) same(2) by (simp add: good_seal_def alike_def)
  let ?goal = "sends (sealed_request E ps) (lwNet w) (lwNet w') \<and>
    (r = Inr () \<longrightarrow> uwFiles (lwUp w') = (uwFiles (lwUp w))(uaEncryptedPath (fst am) := None) \<and> counted w' = Suc (counted w))"
  have ?goal
  proof (cases "b = Inr False")
    case False
    then show ?thesis using assms(5) b same drop_alike [OF same(2)] by (cases am) (auto simp: upload_sealed_def Let_def split: sum.splits bool.splits)
  next
    case True
    then obtain x w2 where x: "sendResealingOnce E (Some am) (sealForUpload E f p) (send_entry E (feLocalPath f) (remoteParentDir p)) w1 = Some (x, w2)"
      using assms(5) b by (cases am) (auto simp: upload_sealed_def Let_def bind_eq_Some_conv)
    note sent = resealing [OF assms(1-3) good x]
    have net: "sends (sealed_request E ps) (lwNet w) (lwNet w2)" using same(1) sent(1) sending.rel_trans by blast
    show ?thesis
    proof (cases x)
      case (Inl e)
      then show ?thesis using assms(5) b True x net by (cases am) (auto simp: upload_sealed_def Let_def)
    next
      case (Inr y)
      then obtain a res where y: "x = Inr (Some a, res)"
        and files: "(uwFiles (lwUp w2))(uaEncryptedPath a := None) = (uwFiles (lwUp w1))(uaEncryptedPath (fst am) := None)" using sent(3) by (cases y) fastforce
      let ?w3 = "remove_staged (uaEncryptedPath a) w2"
      have w3: "uwFiles (lwUp ?w3) = (uwFiles (lwUp w))(uaEncryptedPath (fst am) := None)" "counted ?w3 = counted w" "lwNet ?w3 = lwNet w2"
        using files sent(2) y same(2) by (auto simp: alike_def)
      have "r = Inr () \<and> (w' = add_failed ?w3 \<or> (\<exists>resp. w' = upload_done E e2ee (base_name (feLocalPath f)) resp ?w3))"
        using assms(5) b True x y by (cases am) (auto simp: upload_sealed_def Let_def split: sum.splits if_splits)
      then show ?thesis using w3 net done_same(1) [where E = E and ps = ps and w = ?w3] done_same(2,3) [where E = E and w = ?w3] sending.rel_trans by auto
    qed
  qed
  then show "sends (sealed_request E ps) (lwNet w) (lwNet w')"
    "r = Inr () \<Longrightarrow> uwFiles (lwUp w') = (uwFiles (lwUp w))(uaEncryptedPath (fst am) := None) \<and> counted w' = Suc (counted w)" by blast+
qed

lemma honoured_same: "uploadHonouringRateLimit E lp rd m w = Some (r, w') \<Longrightarrow> lwUp w' = lwUp w \<and> counted w' = counted w"
  by (auto simp: uploadHonouringRateLimit_def Let_def bind_eq_Some_conv counted_def)

lemma unsealed_upload:
  assumes "upload_sealed E e2ee f p None w = Some (r, w')"
  shows "r = Inr () \<Longrightarrow> uwFiles (lwUp w') = uwFiles (lwUp w) \<and> counted w' = Suc (counted w)"
proof -
  assume r: "r = Inr ()"
  obtain b w1 where b: "forceCollisionBlocked E p (feSize f) w = (b, w1)" by fastforce
  note same = blocked_same(2) [OF b]
  show ?thesis
  proof (cases "b = Inr False")
    case False
    then show ?thesis using assms b same r by (auto simp: upload_sealed_def Let_def alike_def split: sum.splits bool.splits)
  next
    case True
    then obtain x w2 where x: "sendResealingOnce E None (sealForUpload E f p) (send_entry E (feLocalPath f) (remoteParentDir p)) w1 = Some (x, w2)"
      using assms b by (auto simp: upload_sealed_def Let_def bind_eq_Some_conv)
    then obtain res where "x = Inr (None, res)" "lwUp w2 = lwUp w1 \<and> counted w2 = counted w1"
      using honoured_same by (auto simp: sendResealingOnce_def bind_eq_Some_conv send_entry_def)
    then show ?thesis using assms b x True same done_same(2,3) [where E = E and w = w2] by (auto simp: upload_sealed_def Let_def alike_def split: sum.splits if_splits)
  qed
qed

lemma one_upload:
  assumes "crypto_ok (kvP (uvV (lvU E))) G" "temp_fresh E" "feLocalPath f \<in> ps" "uploadOne E e2ee root f w = Some (r, w')"
  shows "e2ee \<Longrightarrow> sends (sealed_request E ps) (lwNet w) (lwNet w')" "r = Inr () \<Longrightarrow> uwFiles (lwUp w') = uwFiles (lwUp w) \<and> counted w' = Suc (counted w)"
proof -
  let ?p = "root @ ''/'' @ feRelPath f"
  obtain b w1 where b: "alreadyUploaded E ?p w = (b, w1)" by fastforce
  note same = uploaded_same(1) [where ps = ps, OF b] uploaded_same(2) [OF b]
  have "(e2ee \<longrightarrow> sends (sealed_request E ps) (lwNet w) (lwNet w')) \<and> (r = Inr () \<longrightarrow> uwFiles (lwUp w') = uwFiles (lwUp w) \<and> counted w' = Suc (counted w))"
  proof (cases "b = Inr False \<and> \<not> cCanceled (lvC E) (csHist (lwNet w1))")
    case False
    then show ?thesis using assms(4) b same by (auto simp: uploadOne_def Let_def alike_def split: sum.splits bool.splits if_splits)
  next
    case go: True
    show ?thesis
    proof (cases e2ee)
      case plain: False
      then have "upload_sealed E e2ee f ?p None w1 = Some (r, w')" using assms(4) b go by (simp add: uploadOne_def Let_def)
      then show ?thesis using unsealed_upload same(2) plain by (auto simp: alike_def)
    next
      case True
      obtain y w2 where y: "sealForUpload E f ?p w1 = (y, w2)" by fastforce
      show ?thesis
      proof (cases y)
        case (Inl e)
        then show ?thesis using assms(4) b go True y same seal_exit [of E f ?p w1 e w2] by (auto simp: uploadOne_def Let_def)
      next
        case (Inr am)
        note seal = seal_good [OF assms(1-3) y [unfolded Inr]]
        have "upload_sealed E e2ee f ?p (Some am) w2 = Some (r, w')" using assms(4) b go True y Inr by (simp add: uploadOne_def Let_def)
        note up = sealed_upload [OF assms(1-3) seal(1) this]
        have "sends (sealed_request E ps) (lwNet w) (lwNet w')" using same(1) up(1) seal(3) sending.rel_trans by fastforce
        moreover have "r = Inr () \<Longrightarrow> uwFiles (lwUp w') = uwFiles (lwUp w) \<and> counted w' = Suc (counted w)"
          using up(2) seal(2,4) same(2) by (simp add: alike_def)
        ultimately show ?thesis by blast
      qed
    qed
  qed
  then show "e2ee \<Longrightarrow> sends (sealed_request E ps) (lwNet w) (lwNet w')" "r = Inr () \<Longrightarrow> uwFiles (lwUp w') = uwFiles (lwUp w) \<and> counted w' = Suc (counted w)" by blast+
qed

lemma all_uploads:
  assumes "crypto_ok (kvP (uvV (lvU E))) G" "temp_fresh E" "feLocalPath ` set fs \<subseteq> ps" "run_uploads E e2ee root fs w = Some (r, w')"
  shows "e2ee \<longrightarrow> sends (sealed_request E ps) (lwNet w) (lwNet w')" "r = Inr () \<longrightarrow> uwFiles (lwUp w') = uwFiles (lwUp w) \<and> counted w' = counted w + length fs"
proof -
  have "(e2ee \<longrightarrow> sends (sealed_request E ps) (lwNet w) (lwNet w')) \<and> (r = Inr () \<longrightarrow> uwFiles (lwUp w') = uwFiles (lwUp w) \<and> counted w' = counted w + length fs)"
    using assms(3,4)
  proof (induction fs arbitrary: w)
    case (Cons f fs)
    then obtain r1 w1 where one: "uploadOne E e2ee root f w = Some (r1, w1)" by (auto simp: bind_eq_Some_conv)
    have f: "feLocalPath f \<in> ps" using Cons.prems(1) by simp
    note up = one_upload [OF assms(1,2) f one]
    show ?case
    proof (cases r1)
      case (Inr u)
      then have "run_uploads E e2ee root fs w1 = Some (r, w')" using Cons.prems(2) one by simp
      then show ?thesis using Cons.IH Cons.prems(1) up Inr sending.rel_trans by fastforce
    qed (use Cons.prems(2) one up in auto)
  qed (simp add: sending.rel_refl)
  then show "e2ee \<longrightarrow> sends (sealed_request E ps) (lwNet w) (lwNet w')" "r = Inr () \<longrightarrow> uwFiles (lwUp w') = uwFiles (lwUp w) \<and> counted w' = counted w + length fs" by blast+
qed

section \<open>Every upload returns\<close>

text \<open>A clock that moves with every request and every wait.\<close>

definition running :: "cenv \<Rightarrow> bool" where "running C \<longleftrightarrow> (\<forall>h e. cNow C h < cNow C (h @ [e]))"

lemma running_ticks: "running C \<Longrightarrow> ticking C"
  by (auto simp: running_def ticking_def less_imp_le)

lemma gate_ends: "running C \<Longrightarrow> \<exists>y. gate_wait C until s = Some y"
proof (induction "nat (until - cNow C (csHist s))" arbitrary: s rule: less_induct)
  case less
  obtain ok s1 where w: "wait_for C (word_of_int (until - cNow C (csHist s))) s = (ok, s1)" by fastforce
  have "cNow C (csHist s) < cNow C (csHist s1)" using w less.prems by (auto simp: wait_for_def running_def Let_def)
  then have "until - cNow C (csHist s) > 0 \<Longrightarrow> \<exists>y. gate_wait C until s1 = Some y" using less by auto
  then show ?case using w by (subst gate_wait.simps) (auto simp: Let_def)
qed

lemma upload_file_ends: "running C \<Longrightarrow> \<exists>y. UploadFile C lp base rp extra s = Some y"
  using uploadChunked_ends [OF running_ticks, of C lp rp] by (auto simp: UploadFile_def Let_def split: option.split sum.split prod.split)

lemma attempts_end:
  assumes "running C"
  shows "\<exists>y. rate_attempts C lp rp opts k n gate s = Some y"
proof (induction n arbitrary: k gate s)
  case 0
  obtain ok s1 where "gate_wait C gate s = Some (ok, s1)" using gate_ends [OF assms] by fastforce
  moreover obtain x s2 where "UploadFile C lp (base_name lp) rp (Some opts) s1 = Some (x, s2)" using upload_file_ends [OF assms] by fastforce
  ultimately show ?case by (subst rate_attempts.simps) (auto split: sum.split)
next
  case (Suc n)
  obtain ok s1 where "gate_wait C gate s = Some (ok, s1)" using gate_ends [OF assms] by fastforce
  moreover obtain x s2 where "UploadFile C lp (base_name lp) rp (Some opts) s1 = Some (x, s2)" using upload_file_ends [OF assms] by fastforce
  ultimately show ?case using Suc by (subst rate_attempts.simps) (auto simp: Let_def split: sum.split)
qed

lemma honoured_ends:
  assumes "running (lvC E)"
  shows "uploadHonouringRateLimit E lp rd m w \<noteq> None"
proof -
  have "running (staged E w)" using assms by (simp add: running_def)
  then have "rate_attempts (staged E w) lp rd m' 0 ulRateLimitRetries (lwGate w) (lwNet w) \<noteq> None" for m' using attempts_end by fastforce
  then show ?thesis by (simp add: uploadHonouringRateLimit_def Let_def bind_eq_None_conv del: not_None_eq split: prod.split)
qed

lemma send_ends: "running (lvC E) \<Longrightarrow> send_entry E lp rd am w \<noteq> None"
  using honoured_ends by (simp add: send_entry_def del: not_None_eq split: option.split prod.split)

lemma resealing_ends:
  assumes "\<And>am w. send_it am w \<noteq> None"
  shows "sendResealingOnce E am reseal send_it w \<noteq> None"
  using assms by (simp add: sendResealingOnce_def Let_def bind_eq_None_conv del: not_None_eq split: option.split sum.split prod.split)

lemma sealed_ends:
  assumes "running (lvC E)"
  shows "upload_sealed E e2ee f p am w \<noteq> None"
proof -
  have "sendResealingOnce E am (sealForUpload E f p) (send_entry E (feLocalPath f) (remoteParentDir p)) w1 \<noteq> None" for w1
    by (rule resealing_ends [OF send_ends [OF assms]])
  then show ?thesis by (simp add: upload_sealed_def Let_def bind_eq_None_conv del: not_None_eq split: prod.split sum.split bool.split)
qed

lemma run_ends:
  assumes "running (lvC E)"
  shows "run_uploads E e2ee root fs w \<noteq> None"
proof (induction fs arbitrary: w)
  case (Cons f fs)
  have "uploadOne E e2ee root f w \<noteq> None" using sealed_ends [OF assms] by (simp add: uploadOne_def Let_def del: not_None_eq split: prod.split sum.split bool.split)
  then show ?case using Cons by (simp add: bind_eq_None_conv del: not_None_eq split: prod.split sum.split)
qed simp

section \<open>Directories\<close>

text \<open>Nothing on the way changes the configuration, so that a session with encryption keys stays one.\<close>

lemma unlock_conf: "keyPairLocked V k = (r, k') \<Longrightarrow> ksConf k' = ksConf k"
  by (auto simp: keyPairLocked_def unlock_agent_def unlock_device_def unlock_password_def readPassword_def hydrateSigningFromAgent_def hydrateSigningFromConfigWithPDK_def ktick_def Let_def
      split: if_splits option.splits sum.splits prod.splits)

lemma public_conf: "publicKeyLocked V k = (r, k') \<Longrightarrow> ksConf k' = ksConf k"
  by (auto simp: publicKeyLocked_def Let_def dest: unlock_conf split: if_splits option.splits sum.splits prod.splits)

lemma name_conf: "nameKeyLocked V k = (r, k') \<Longrightarrow> ksConf k' = ksConf k"
  by (auto simp: nameKeyLocked_def Let_def dest: unlock_conf split: if_splits option.splits sum.splits prod.splits)

lemma tokens_conf: "AddPathTokensFor V m p d k = (r, k') \<Longrightarrow> ksConf k' = ksConf k"
  by (auto simp: AddPathTokensFor_def AddPathTokensForAll_def addPathTokensLocked_def computePathTokenMapsLocked_def Let_def dest: name_conf split: if_splits option.splits sum.splits prod.splits)

lemma parents_conf: "AddE2eeNameFieldsForMkParents V m ps k = (r, k') \<Longrightarrow> ksConf k' = ksConf k"
  by (auto simp: AddE2eeNameFieldsForMkParents_def Let_def ktick_def dest!: name_conf public_conf split: if_splits option.splits sum.splits prod.splits)

definition same_conf :: "ul_world \<Rightarrow> ul_world \<Rightarrow> bool" where
  "same_conf w w' \<longleftrightarrow> ksConf (uwKeys (lwUp w')) = ksConf (uwKeys (lwUp w)) \<and> alike w w'"

lemma same_conf_trans: "same_conf w w1 \<Longrightarrow> same_conf w1 w2 \<Longrightarrow> same_conf w w2"
  by (auto simp: same_conf_def alike_def)

lemma same_keys: "same_conf w w' \<Longrightarrow> HasE2EEKeys E w' = HasE2EEKeys E w"
  by (simp add: same_conf_def HasE2EEKeys_def cfg_of_def)

lemma add_tokens_conf: "add_tokens E m p d w = (r, w') \<Longrightarrow> lwNet w' = lwNet w \<and> same_conf w w'"
  by (auto simp: add_tokens_def same_conf_def alike_def counted_def with_keys_def dest!: tokens_conf split: prod.splits option.splits)

lemma dir_options_conf: "dir_options E p w = (r, w') \<Longrightarrow> lwNet w' = lwNet w \<and> same_conf w w'"
  by (auto simp: dir_options_def Let_def same_conf_def alike_def counted_def with_keys_def dest!: add_tokens_conf parents_conf split: if_splits prod.splits option.splits sum.splits)

lemma ensure_same:
  assumes "ensureRemoteDir E p w = (r, w')"
  shows "sends (sealed_request E ps) (lwNet w) (lwNet w')" "same_conf w w'"
proof -
  obtain y w1 where y: "dir_options E p w = (y, w1)" by fastforce
  note w1 = dir_options_conf [OF y]
  have cli: "sends (sealed_request E ps) (lwNet w) (snd (Execute (lvC E) ''mk'' m (lwNet w)))" for m by (rule sends_mono [OF execute_sends]) auto
  have "w' = w1 \<or> (\<exists>m. w' = w1\<lparr>lwNet := snd (Execute (lvC E) ''mk'' m (lwNet w1))\<rparr>)"
  proof (cases y)
    case (Inr m)
    then have "w' = w1\<lparr>lwNet := snd (Execute (lvC E) ''mk'' m (lwNet w1))\<rparr>" using assms y by (auto simp: ensureRemoteDir_def net_def split: prod.splits sum.splits)
    then show ?thesis by blast
  qed (use assms y in \<open>simp add: ensureRemoteDir_def\<close>)
  then show "sends (sealed_request E ps) (lwNet w) (lwNet w')" "same_conf w w'" using w1 cli by (auto simp: sending.rel_refl same_conf_def alike_def counted_def)
qed

lemma ensure_dirs_same:
  assumes "ensure_dirs E root ds w = (r, w')"
  shows "sends (sealed_request E ps) (lwNet w) (lwNet w') \<and> same_conf w w'"
  using assms
proof (induction ds arbitrary: w)
  case (Cons d ds)
  obtain y w1 where y: "ensureRemoteDir E (root @ ''/'' @ d) w = (y, w1)" by fastforce
  note same = ensure_same(1) [where ps = ps, OF y] ensure_same(2) [OF y]
  show ?case
  proof (cases y)
    case (Inr b)
    then have "ensure_dirs E root ds w1 = (r, w')" using Cons.prems y by simp
    then show ?thesis using Cons.IH same sending.rel_trans same_conf_trans by blast
  qed (use Cons.prems y same in auto)
qed (simp add: sending.rel_refl same_conf_def)

lemma recursive_run [consumes 1, case_names early uploads]:
  assumes "runRecursiveUpload E localDir resolved (Some (fs, dirs)) w = Some (r, w')"
  obtains "sends (sealed_request E ps) (lwNet w) (lwNet w')" "r = Inr () \<longrightarrow> fs = [] \<and> w' = w"
  | w1 root where "sends (sealed_request E ps) (lwNet w) (lwNet w1)" "same_conf w w1" "run_uploads E (HasE2EEKeys E w1) root fs w1 = Some (r, w')"
proof -
  define root where "root = remote_root resolved (base_name localDir)"
  obtain y w1 where y: "ensureRemoteDir E root w = (y, w1)" by fastforce
  obtain z w2 where z: "ensure_dirs E root dirs w1 = (z, w2)" by fastforce
  note same = ensure_same(1) [where ps = ps, OF y] ensure_same(2) [OF y] ensure_dirs_same [where ps = ps, OF z]
  have w2: "sends (sealed_request E ps) (lwNet w) (lwNet w2)" "same_conf w w2" using same sending.rel_trans same_conf_trans by blast+
  note run = assms [unfolded runRecursiveUpload_def Let_def, folded root_def]
  show thesis
  proof (cases "fs = []")
    case True
    then have "w' = w" using run by simp
    then show thesis using True by (intro that(1)) (simp_all add: sending.rel_refl)
  next
    case files: False
    show thesis
    proof (cases "y = Inr True \<and> z = Inr ()")
      case True
      then have "run_uploads E (HasE2EEKeys E w2) root fs w2 = Some (r, w')" using run y z files by simp
      then show thesis using w2 by (intro that(2))
    next
      case False
      then have "isl r \<and> (w' = w1 \<or> w' = w2)" using run y z files by (auto split: sum.splits bool.splits)
      then show thesis using w2 same(1) by (intro that(1)) auto
    qed
  qed
qed

lemma recursive_ends: "running (lvC E) \<Longrightarrow> runRecursiveUpload E localDir resolved found w \<noteq> None"
  using run_ends by (simp add: runRecursiveUpload_def Let_def del: not_None_eq split: option.split prod.split sum.split bool.split)

section \<open>The claims\<close>


text \<open>
  C5: the upload of a directory settles. Whatever the server answers, the command returns as long as the clock moves; unless a message ended the process, every file
  has been counted once, as uploaded, failed or skipped, and no staged file is left: each was removed after its upload, the one sealed again for a new scanner key too.
\<close>

theorem directory_upload_settles:
  assumes "crypto_ok (kvP (uvV (lvU E))) G" "temp_fresh E" "running (lvC E)"
  shows "\<exists>r w'. runRecursiveUpload E localDir resolved (Some (fs, dirs)) w = Some (r, w') \<and>
    (r = Inr () \<longrightarrow> uwFiles (lwUp w') = uwFiles (lwUp w) \<and> succeeded w' + failed w' + skipped w' = succeeded w + failed w + skipped w + length fs)"
proof -
  obtain r w' where run: "runRecursiveUpload E localDir resolved (Some (fs, dirs)) w = Some (r, w')" using recursive_ends [OF assms(3)] by fastforce
  have "r = Inr () \<longrightarrow> uwFiles (lwUp w') = uwFiles (lwUp w) \<and> counted w' = counted w + length fs"
    using run
  proof (cases rule: recursive_run [where ps = "feLocalPath ` set fs"])
    case (uploads w1 root)
    then show ?thesis using all_uploads(2) [OF assms(1,2) order_refl uploads(3)] by (simp add: same_conf_def alike_def)
  qed simp
  then show ?thesis using run by (auto simp: counted_def)
qed


text \<open>What is sent when a name is shared: the question, and names sealed to an accepted key.\<close>

definition shared_name :: "ul_env \<Rightarrow> string \<Rightarrow> string \<Rightarrow> request \<Rightarrow> bool" where
  "shared_name E n nm r \<longleftrightarrow> r = ReqAction ''share-recipients-for-node'' [''nodeId'' \<mapsto> n] \<or>
     (\<exists>x pns recipient pns' sealed. PinShareRecipientSealKey (uvE (lvU E)) x pns = (Inr recipient, pns') \<and>
        r = ReqAction ''store-share-display-names'' [''recipientUsername'' \<mapsto> srUsername x, ''sealedNames'' \<mapsto> jSealedNames E [(n, b64_encode sealed)]] \<and>
        (\<forall>priv. key_pair (kvP (uvV (lvU E))) recipient priv \<longrightarrow> UnsealDisplayName (kvP (uvV (lvU E))) sealed (Some priv) = Inr nm))"

lemma sealed_name_opens:
  assumes "crypto_ok (kvP V) G" "\<forall>k. rand_ok (kvRand V k)" "length nm < 65536" "seal_name V k i nm pub = Inr sealed" "key_pair (kvP V) pub priv"
  shows "UnsealDisplayName (kvP V) sealed (Some priv) = Inr nm"
proof -
  have "length (kvRand V (ksTick k) (3 * i + 2) NonceSize) = NonceSize" using assms(2) by (simp add: rand_ok_def)
  then show ?thesis
    using UnsealDisplayName_SealDisplayName [of "kvP V" pub priv "kvRand V (ksTick k) (3 * i + 2) NonceSize" nm "kvRand V (ksTick k) (3 * i) 32" "kvRand V (ksTick k) (3 * i + 1) 32"]
      assms(1,3-5) by (simp add: seal_name_def crypto_ok_def)
qed

lemma share_name_sends:
  assumes "crypto_ok (kvP (uvV (lvU E))) G" "\<forall>k. rand_ok (kvRand (uvV (lvU E)) k)" "length nm < 65536"
  shows "sends (shared_name E n nm) (lwNet w) (lwNet (share_name E n nm r w))"
proof -
  obtain y pns where y: "PinShareRecipientSealKey (uvE (lvU E)) r (twPins (uwTee (lwUp w))) = (y, pns)" by fastforce
  show ?thesis
  proof (cases "\<exists>recipient sealed. y = Inr recipient \<and> seal_name (uvV (lvU E)) (uwKeys (lwUp w)) 0 nm recipient = Inr sealed")
    case True
    then obtain recipient sealed where s: "y = Inr recipient" "seal_name (uvV (lvU E)) (uwKeys (lwUp w)) 0 nm recipient = Inr sealed" by blast
    let ?r = "ReqAction ''store-share-display-names'' [''recipientUsername'' \<mapsto> srUsername r, ''sealedNames'' \<mapsto> jSealedNames E [(n, b64_encode sealed)]]"
    have "shared_name E n nm ?r" unfolding shared_name_def using y s sealed_name_opens [OF assms s(2)] by blast
    moreover have "lwNet (share_name E n nm r w) = StoreShareDisplayNames E (srUsername r) [(n, b64_encode sealed)] (lwNet w)" using y s by (simp add: share_name_def Let_def)
    ultimately show ?thesis using action_sends [of "shared_name E n nm"] by (auto simp: StoreShareDisplayNames_def) (metis prod.collapse)
  next
    case False
    then have "lwNet (share_name E n nm r w) = lwNet w" using y by (auto simp: share_name_def Let_def split: sum.split)
    then show ?thesis by (simp add: sending.rel_refl)
  qed
qed


section \<open>What an early end leaves behind\<close>

lemma seal_file_keeps:
  assumes "temp_fresh E" "uwFiles (lwUp w) q = Some x" "seal_file E lp nm full w = (r, w')"
  shows "uwFiles (lwUp w') q = Some x"
proof -
  obtain y u where enc: "EncryptForUpload (lvU E) (cFile (staged E w) (csHist (lwNet w)) lp) (lwUp w) = (y, u)" by fastforce
  have "uwFiles u q = Some x"
  proof (cases y)
    case (Inl e)
    then have "uwFiles u = uwFiles (lwUp w) \<or> (\<exists>w1 p. uwFiles w1 = uwFiles (lwUp w) \<and> uvTemp (lvU E) w1 = Some p \<and> uwFiles u = (uwFiles (lwUp w))(p := None))" using upload_failed enc by blast
    then show ?thesis using assms(1,2) unfolding temp_fresh_def by (auto simp: fun_upd_def) (metis option.distinct(1))+
  next
    case (Inr a)
    obtain ct w1 where ct: "uwFiles u = (uwFiles (lwUp w))(uaEncryptedPath a \<mapsto> ct)" "uvTemp (lvU E) w1 = Some (uaEncryptedPath a)" "uwFiles w1 = uwFiles (lwUp w)"
      by (rule encrypted_files [OF enc [unfolded Inr]])
    then have "uaEncryptedPath a \<noteq> q" using assms(1,2) unfolding temp_fresh_def by (metis option.distinct(1))
    then show ?thesis using ct assms(2) by simp
  qed
  then show ?thesis using assms(3) enc by (auto simp: seal_file_def Let_def split: prod.splits sum.splits option.splits)
qed

lemma seal_file_fresh:
  assumes "temp_fresh E" "uwFiles (lwUp w) q = Some x" "seal_file E lp nm full w = (Inr (a, m), w')"
  shows "uaEncryptedPath a \<noteq> q"
proof -
  obtain u where "EncryptForUpload (lvU E) (cFile (staged E w) (csHist (lwNet w)) lp) (lwUp w) = (Inr a, u)" using seal_file_run [OF assms(3)] by metis
  then obtain w1 where "uvTemp (lvU E) w1 = Some (uaEncryptedPath a)" "uwFiles w1 = uwFiles (lwUp w)" by (rule encrypted_files)
  then show ?thesis using assms(1,2) unfolding temp_fresh_def by (metis option.distinct(1))
qed

lemma seal_single_keeps:
  assumes "temp_fresh E" "uwFiles (lwUp w) q = Some x" "seal_single E lp nm dir w = (r, w')"
  shows "uwFiles (lwUp w') q = Some x" "r = Inr (a, m) \<Longrightarrow> uaEncryptedPath a \<noteq> q"
proof -
  obtain y w1 where y: "seal_file E lp nm (full_path dir nm) w = (y, w1)" by fastforce
  have keep: "uwFiles (lwUp w1) q = Some x" by (rule seal_file_keeps [OF assms(1,2) y])
  then show "uwFiles (lwUp w') q = Some x" using assms(3) y by (auto simp: seal_single_def split: sum.splits prod.splits dest!: add_tokens_keys)
  show "uaEncryptedPath a \<noteq> q" if r: "r = Inr (a, m)"
  proof -
    obtain m1 where "y = Inr (a, m1)" using assms(3) y r by (auto simp: seal_single_def split: sum.splits prod.splits)
    then show ?thesis using seal_file_fresh [OF assms(1,2)] y by simp
  qed
qed

lemma single_send_keeps:
  assumes "temp_fresh E" "uwFiles (lwUp w) q = Some x" "\<forall>a m. am = Some (a, m) \<longrightarrow> uaEncryptedPath a \<noteq> q"
    "sendResealingOnce E am (seal_single E lp nm dir) (\<lambda>am w. send_entry E lp dir am (w\<lparr>lwGate := 0\<rparr>)) w = Some (r, w')"
  shows "uwFiles (lwUp w') q = Some x"
proof -
  have sent: "lwUp w2 = lwUp w1" if "send_entry E lp dir am (w1\<lparr>lwGate := 0\<rparr>) = Some (y, w2)" for am w1 y w2
    using that honoured_same [of E _ dir _ "w1\<lparr>lwGate := 0\<rparr>" y w2] by (auto simp: send_entry_def split: option.splits)
  obtain r1 w1 where s1: "send_entry E lp dir am (w\<lparr>lwGate := 0\<rparr>) = Some (r1, w1)" using assms(4) by (auto simp: sendResealingOnce_def bind_eq_Some_conv)
  show ?thesis
  proof (cases "\<exists>a m err. am = Some (a, m) \<and> r1 = Inl err")
    case False
    then show ?thesis using assms(2,4) s1 sent [OF s1] by (cases am; cases r1) (auto simp: sendResealingOnce_def)
  next
    case True
    then obtain a m err where am: "am = Some (a, m)" "r1 = Inl err" by blast
    obtain stale refusal t where st: "TeeSealWentStale (uvE (lvU E)) err (uaTeeKeySet a) (uwTee (lwUp w1)) = ((stale, refusal), t)" by (metis surj_pair)
    let ?w2 = "w1\<lparr>lwUp := (lwUp w1)\<lparr>uwTee := t\<rparr>\<rparr>" let ?w3 = "remove_staged (uaEncryptedPath a) ?w2"
    obtain y w4 where y: "seal_single E lp nm dir ?w3 = (y, w4)" by fastforce
    have keep: "uwFiles (lwUp ?w2) q = Some x" "uwFiles (lwUp w4) q = Some x"
      using assms(2,3) sent [OF s1] am seal_single_keeps(1) [OF assms(1) _ y] by auto
    have "w' = ?w2 \<or> w' = w4 \<or> (\<exists>am2 r2. send_entry E lp dir am2 (w4\<lparr>lwGate := 0\<rparr>) = Some (r2, w'))"
      using assms(4) s1 am st y by (auto simp: sendResealingOnce_def Let_def bind_eq_Some_conv split: option.splits if_splits sum.splits)
    then show ?thesis using keep sent by metis
  qed
qed

text \<open>What is read from standard input stays behind in the clear whenever the command fails: the removal is deferred, and \<open>os.Exit\<close> runs nothing that is deferred.\<close>

lemma failed_stdin_upload_left:
  assumes "temp_fresh E" "upload_stdin E input tmp resolved w = Some (Inl e, w')"
  shows "uwFiles (lwUp w') tmp = Some input"
proof -
  let ?w = "w\<lparr>lwUp := (lwUp w)\<lparr>uwFiles := (uwFiles (lwUp w))(tmp \<mapsto> input)\<rparr>\<rparr>"
  have run: "upload_single E True tmp resolved (int (length input)) ?w = Some (Inl e, w')"
  proof -
    obtain y w1 where "upload_single E True tmp resolved (int (length input)) ?w = Some (y, w1)" using assms(2) by (auto simp: upload_stdin_def bind_eq_Some_conv)
    then show ?thesis using assms(2) by (cases y) (simp_all add: upload_stdin_def)
  qed
  have finish: "uwFiles (lwUp w') tmp = Some input"
    if fin: "finish_single E tmp nm dir sz am w1 = Some (Inl e, w')" "uwFiles (lwUp w1) tmp = Some input" "\<forall>a m. am = Some (a, m) \<longrightarrow> uaEncryptedPath a \<noteq> tmp" for nm dir sz am w1
  proof -
    obtain b w2 where b: "forceCollisionBlocked E (full_path dir nm) (case am of None \<Rightarrow> sz | Some (a, m) \<Rightarrow> staged_size a sz w1) w1 = (b, w2)" by fastforce
    have w2: "uwFiles (lwUp w2) tmp = Some input" using blocked_same(2) [OF b] fin(2) by (simp add: alike_def)
    show ?thesis
    proof (cases "b = Inr False")
      case True
      then obtain x w3 where x: "sendResealingOnce E am (seal_single E tmp nm dir) (\<lambda>am w. send_entry E tmp dir am (w\<lparr>lwGate := 0\<rparr>)) w2 = Some (x, w3)"
        using fin(1) b by (auto simp: finish_single_def Let_def bind_eq_Some_conv)
      have "uwFiles (lwUp w3) tmp = Some input" by (rule single_send_keeps [OF assms(1) w2 fin(3) x])
      moreover have "w' = w3" using fin(1) b True x by (auto simp: finish_single_def Let_def split: sum.splits option.splits if_splits)
      ultimately show ?thesis by simp
    qed (use fin(1) b w2 in \<open>auto simp: finish_single_def Let_def split: sum.splits bool.splits\<close>)
  qed
  have start: "uwFiles (lwUp ?w) tmp = Some input" by simp
  show ?thesis
  proof (cases "upload_target True tmp resolved")
    case None
    then show ?thesis using run start by (simp add: upload_single_def)
  next
    case (Some t)
    obtain nm dir where t: "t = (nm, dir)" by fastforce
    obtain b w1 where b: "(if \<not> ulSkipExisting E then (Inr False, ?w) else remote_exists E (if dir \<noteq> [] \<and> last dir = CHR ''/'' then dir @ nm else dir) ?w) = (b, w1)" by fastforce
    have w1: "uwFiles (lwUp w1) tmp = Some input" using b start exists_same(2) by (auto simp: alike_def split: if_splits)
    obtain y w2 where y: "seal_single E tmp nm dir w1 = (y, w2)" by fastforce
    show ?thesis
      using run Some t b w1 y finish seal_single_keeps [OF assms(1) w1 y]
      by (auto simp: upload_single_def Let_def split: sum.splits bool.splits if_splits)
  qed
qed

end
