(* ===== verification/UploadExamples.thy ===== *)
theory UploadExamples
  imports UploadLaws FetchExamples
begin

text \<open>
  The laws of the upload command at a concrete session, server and file.
\<close>

definition ex_client :: cenv where
  "ex_client = demo_env\<lparr>cNow := (\<lambda>h. int (length h)), cFile := (\<lambda>h p. Some [1, 2, 3])\<rparr>"

definition ex_ul :: ul_env where
  "ex_ul = \<lparr>lvU = ex_upload, lvC = ex_client, ulSkipExisting = False, ulForce = False, lvMtime = (\<lambda>p. Some 5), jNodeID = (\<lambda>b. Some ''n1''),
     jRecipients = (\<lambda>b. Some (True, [\<lparr>srUserID = 1, srUsername = ''bob'', srPublicKey = b64_encode (pubX25519 ex_pub), srPublicKeyKyber = b64_encode (pubKyber ex_pub)\<rparr>])),
     jSealedNames = (\<lambda>xs. concat (map snd xs))\<rparr>"

definition ex_conf :: conf where
  "ex_conf = toy_conf\<lparr>cnCfg := Some (default_config\<lparr>cfPublicKey := ''p'', cfEncryptedPrivateKey := ''e'', cfPublicKeyKyber := ''q'', cfEncryptedPrivateKeyKyber := ''f''\<rparr>)\<rparr>"

definition ex_ul_world :: ul_world where
  "ex_ul_world = \<lparr>lwUp = ex_world\<lparr>uwKeys := ex_signed\<lparr>ksConf := ex_conf\<rparr>\<rparr>, lwNet = demo_client, lwGate = 0, succeeded = 0, failed = 0, skipped = 0\<rparr>"

definition ex_file :: fileEntry where
  "ex_file = \<lparr>feLocalPath = ''/home/a.txt'', feRelPath = ''a.txt'', feSize = 3\<rparr>"

lemma ex_ul_ok: "crypto_ok (kvP (uvV (lvU ex_ul))) (kvG (uvV (lvU ex_ul)))" "\<forall>k. rand_ok (kvRand (uvV (lvU ex_ul)) k)" "temp_fresh ex_ul" "running (lvC ex_ul)"
proof -
  show "crypto_ok (kvP (uvV (lvU ex_ul))) (kvG (uvV (lvU ex_ul)))" "\<forall>k. rand_ok (kvRand (uvV (lvU ex_ul)) k)"
    using ex_upload_ok by (simp_all add: upload_env_ok_def ex_ul_def)
  show "temp_fresh ex_ul" by (simp add: temp_fresh_def ex_ul_def ex_upload_def)
  show "running (lvC ex_ul)" by (simp add: running_def ex_ul_def ex_client_def)
qed


theorem directory_upload_settles_witness:
  "\<exists>r w'. runRecursiveUpload ex_ul ''/home'' ''/r'' (Some ([ex_file, ex_file], [''d''])) ex_ul_world = Some (r, w') \<and>
     (r = Inr () \<longrightarrow> uwFiles (lwUp w') = Map.empty \<and> succeeded w' + failed w' + skipped w' = 2)"
  using directory_upload_settles [OF ex_ul_ok(1,3,4), where localDir = "''/home''" and resolved = "''/r''" and fs = "[ex_file, ex_file]" and dirs = "[''d'']" and w = ex_ul_world]
  by (auto simp: ex_ul_world_def ex_world_def)



end
