(* ===== verification/Spec2Isabelle.thy ===== *)
theory Spec2Isabelle
  imports HybridSeal Names ParentRef FileCrypt CacheLaws BlobLaws Eviction VfsLaws VfsContent VfsTree WritebackLaws
    TreeLaws PollerLaws DownloaderLaws LocalSyncLaws ApiClientLaws PinExamples FetchExamples
    AgentLaws ExifLaws UploadExamples
begin

text \<open>
  A verification development for pigcloud, the command line client of an end-to-end encrypted cloud storage. All paths
  below are relative to \<open>src/\<close>.

  \<^bold>\<open>The program.\<close> A session (\<open>internal/e2ee\<close>) holds the keys of an account. It unlocks them from the configuration and
  the keychain (\<open>internal/config\<close>), with the password, or from a key agent, a process of its own that keeps them for a
  while (\<open>internal/agent\<close>). The formats are in \<open>internal/crypto\<close>: a hybrid envelope, file encryption in chunks, sealed names
  and parent references, hybrid signatures. Keys of peers and of the scanner of the server are pinned when they are first
  seen. The client of the server is \<open>internal/api\<close>. The server knows nodes only as shells with sealed names; the tree is
  built on the client (\<open>internal/tree\<close>). A mount (\<open>internal/mount\<close>) consists of a metadata database and a store of
  encrypted blobs (\<open>cache\<close>), a virtual file system over both (\<open>vfs\<close>), and the parts that keep it in step with the server
  and with a local folder (\<open>syncer\<close>): write-back, poller, downloader, watcher and reconciler; they fetch files through
  \<open>transfer\<close>. The commands are in \<open>cmd\<close>; the upload command is modelled whole.

  \<^bold>\<open>How the sources become definitions.\<close> A struct is a record, an enumeration a datatype, a function or method one
  definition with the name it has in the source; a long one is split at its steps, with names in lower case. A method that
  changes state takes the state and returns it. An error is a value: \<open>Inl\<close> of a sum, or an option where the callers look
  only at its presence. \<open>os.Exit\<close> through an exit function is an \<open>Inl\<close> that ends the command, without the deferred calls.
  A Go string is a list of 8-bit characters, a slice of bytes a list of 8-bit words. Durations and the retry counters are
  64-bit words where they are multiplied or shifted; other numbers are \<open>int\<close> or \<open>nat\<close>, wrapped explicitly by \<open>int64\<close> where the
  width matters.

  \<^bold>\<open>What is a parameter.\<close> Code outside the repository is an argument, in records of functions: \<open>prims\<close> and \<open>sig_prims\<close> (AEAD,
  X25519, ML-KEM, HKDF, Argon2, SHA-256, HMAC, Ed25519, ML-DSA), and the environments of the components (\<open>key_env\<close>,
  \<open>pin_env\<close>, \<open>up_env\<close>, \<open>cenv\<close>, \<open>venv\<close>, \<open>wenv\<close>, \<open>denv\<close>, \<open>poll_env\<close>, \<open>tree_env\<close>, \<open>ul_env\<close>) with the answers of the server, the clock,
  randomness, the local file system, JSON, Unicode folding and the order of map ranges. Theorems that need more than an
  arbitrary function name what they need: \<open>crypto_ok\<close> collects that decryption inverts encryption, that the two ends of an
  agreement agree, that signatures verify and that sizes are as documented; nowhere is secrecy assumed. The toy primitives of
  the witnesses satisfy all of these.

  \<^bold>\<open>Cryptographic formats.\<close>
  \<^item> \<open>HybridSeal\<close>: \<open>crypto/hybrid.go\<close>, \<open>keys.go\<close>; opening an envelope gives what was sealed, and wrapped private keys open with the password.
  \<^item> \<open>Names\<close>, \<open>ParentRef\<close>: \<open>crypto/names.go\<close>, \<open>frame.go\<close>, \<open>parent_ref.go\<close>; names are padded to a few sizes and come back, path tokens
    of ancestors, frames, both versions of parent references.
  \<^item> \<open>FileCrypt\<close>: \<open>crypto/encrypt.go\<close>, \<open>decrypt.go\<close>; what is accepted under the metadata of an encryption is its plaintext, barring
    a collision; nonces are distinct.
  \<^item> \<open>Signing\<close>, \<open>SigningLaws\<close>: \<open>crypto/sign.go\<close> and the key transfers; domain separation and round trips.

  \<^bold>\<open>Keys, pins and sessions.\<close>
  \<^item> \<open>ConfigStore\<close>, \<open>ConfigLaws\<close>: the configuration and its three secret stores (locale \<open>secret_store\<close>); what one process saves
    the next one loads.
  \<^item> \<open>Pins\<close>, \<open>PinLaws\<close>, \<open>TeePins\<close>, \<open>TeeLaws\<close>: the pin files, their checks and the check of a download. The locale \<open>pin_rel\<close> turns
    a relation that every single write of a pin keeps into one that every run of operations keeps.
  \<^item> \<open>TeeSession\<close>, \<open>TeeSessionLaws\<close>: the scanner keys a session remembers, as steps of an interleaving of probes, stale checks
    and repins.
  \<^item> \<open>KeySession\<close>, \<open>SessionOps\<close>, \<open>KeyLaws\<close>, \<open>SessionLaws\<close>: unlocking, derived keys, background mode, imported keys, new accounts,
    name fields, encryption of uploads. The locale \<open>session_rel\<close> is interpreted for the typing, for upload-only sessions and for
    derived keys.
  \<^item> \<open>Agent\<close>, \<open>AgentLaws\<close>: agent processes, their file, timers and delayed shutdowns, and the requests of anyone, as a step
    relation.
  \<^item> \<open>PinExamples\<close>, \<open>SessionExamples\<close>: the laws at concrete sessions.

  \<^bold>\<open>Transfers.\<close>
  \<^item> \<open>ApiErrors\<close>: classes of errors and the delays of retries, bounded although they are computed on 64-bit words.
  \<^item> \<open>ApiClient\<close>, \<open>ApiClientLaws\<close>: commands, uploads in one body and in chunks, downloads, with all retries. The state is the
    history of requests, answers and waits, and the server, the network and the clock are one function of it, so a theorem
    holds for every behaviour of a server. The locale \<open>client_rel\<close> carries a relation over all retry loops.
  \<^item> \<open>Fetcher\<close>, \<open>FetchLaws\<close>, \<open>FetchExamples\<close>: \<open>mount/transfer/fetch.go\<close>, and a file from end to end: what is fetched is trusted,
    what was uploaded comes back.
  \<^item> \<open>Exif\<close>, \<open>ExifLaws\<close>: the capture date of a picture at the level of bytes (\<open>cmdutil/exif.go\<close>); no input makes it read out of
    range.
  \<^item> \<open>UploadCmd\<close>, \<open>UploadLaws\<close>, \<open>UploadExamples\<close>: \<open>cmd/ul.go\<close> with the names handed to shares; composed of the session, the pins,
    the client and the capture date.

  \<^bold>\<open>Tree and mount.\<close>
  \<^item> \<open>TreeModel\<close>, \<open>TreeLaws\<close>: building the tree, cutting cycles, paths, the encrypted snapshot.
  \<^item> \<open>CacheDB\<close>, \<open>CacheLaws\<close>, \<open>DbReach\<close>: the methods of the database over three tables (locale \<open>keyed_table\<close>); its clients as
    sequences of allowed calls (locales \<open>db_client\<close> and \<open>db_editor\<close>, interpreted for the file system, the poller, the folder and the
    write-back processor).
  \<^item> \<open>BlobStore\<close>, \<open>BlobLaws\<close>: the blob store with failing system calls; a range read refines the slice of the content (locales
    \<open>blob_set\<close>, \<open>blob_set_total\<close>, \<open>inv_system\<close>).
  \<^item> \<open>Eviction\<close>: eviction and the sweep of orphans (locale \<open>evict_rel\<close>).
  \<^item> \<open>VfsModel\<close>, \<open>VfsLaws\<close>, \<open>VfsContent\<close>, \<open>VfsTree\<close>: the virtual file system over a heap of nodes; edits are kept, reads see writes, every
    reachable file system is well formed.
  \<^item> \<open>LocalPath\<close>, \<open>SyncFolder\<close>, \<open>Downloader\<close>, \<open>DownloaderLaws\<close>, \<open>LocalSync\<close>, \<open>LocalSyncLaws\<close>: the local folder, its downloader, watcher and
    reconciler; a download replaces only the synchronized content, and all parts together, in any order, keep local edits.
  \<^item> \<open>Poller\<close>, \<open>PollerLaws\<close>, \<open>Writeback\<close>, \<open>WritebackLaws\<close>: polls of the whole tree, and the processing of the queue; a change during an
    upload is not lost.

  \<^bold>\<open>Loops and bounds.\<close> Loops over data are recursive functions with termination proofs. Loops whose end depends on the server or the
  clock are \<open>partial_function (option)\<close>, so that not ending is \<open>None\<close>: the final request of an upload, the wait at the gate of the
  rate limit, range reads, the walks of poller and downloader, the flush. That they return is proved where it is
  claimed, under the condition that the clock moves. The pages of a tree fetch are counted down from 10001, the bound of the
  code itself (more than 10000 pages; \<open>maxShellPages\<close> in the model); after it the code reports an error, and so does the model. There is no other fuel.

  \<^bold>\<open>Concurrency.\<close> A method that holds a lock for its whole run is one step. Where the code releases the lock in between,
  the operation is split there: opening a file that another thread downloads, an upload during which the node changes, a download
  during which anything else happens to the folder, the probes of the scanner keys, the delayed shutdown of an agent. The parallel workers of
  a directory upload run the files one after another; they share only the gate of the rate limit and the counters.

  \<^bold>\<open>Not modelled.\<close> Display, progress and JSON output; starting and supervising processes, sockets, locks of the operating system,
  registry files and logs (\<open>cmd/mn.go\<close>, \<open>internal/mount/daemon\<close>, \<open>spawn\<close>, \<open>drivemap\<close>, \<open>mlog\<close>); the bindings to FUSE and WinFsp, which forward
  to the modelled file system; the goroutines that tick; the download command and the other commands, which are dialogue around the modelled
  client, sessions and pins; shell completion and patterns; the bindings for mobile devices; the propagation of the names of a
  whole subtree to shares; the migration of the database schema; overwriting of keys in memory. They are input and output, or glue,
  and what they rely on is modelled. Also left out is \<open>ParseCacheSize\<close>, which reads floating-point numbers.

  \<^bold>\<open>What the proofs found.\<close> Lemmas show behaviours of the code that differ from its intent, among them \<open>empty_key_comes_back\<close>,
  \<open>stale_keychain_wins\<close>, \<open>import_keeps_derived_keys\<close>, \<open>unwritten_repin_succeeds\<close>, \<open>probe_undoes_repin\<close>, \<open>stop_orphans_next_agent\<close>,
  \<open>failed_stdin_upload_left\<close>, \<open>directory_rename_orphans_uploads\<close>, \<open>rename_success_clears_dirty\<close>, \<open>retryAfterHeader_wraps\<close>,
  \<open>failed_read_prunes_edit\<close> and \<open>removed_pending_is_forgotten\<close>; the theorems around them state the conditions under which the code does
  what it is meant to do.
\<close>

end
